(* ===== verification/Prelude.thy ===== *)
theory Prelude
  imports Complex_Main "HOL-Library.Word" "HOL-Library.Signed_Division"
begin

unbundle bit_operations_syntax

section \<open>Shared types, faults, sequencing and checked arrays\<close>

text \<open>
  What the component theories share: the machine integer types of the firmware, the
  faults a C++ program can run into (each is a value, never an unspecified HOL term),
  the sequencing of statements that may fault, arrays of fixed length with a checked
  read and a checked write, and the lemmas about them.
\<close>

type_synonym u8 = "8 word"
type_synonym u16 = "16 word"
type_synonym u32 = "32 word"
type_synonym u64 = "64 word"

named_theorems res_simps \<open>evaluation of statements that may fault\<close>
named_theorems array_simps \<open>checked reads and writes of arrays\<close>

subsection \<open>Faults and results\<close>

text \<open>
  \<open>OutOfBounds\<close>: an array access outside the array; \<open>NullCall\<close>: a call through a null
  function pointer; \<open>BadPointer\<close>: an object that does not exist is used; \<open>DivByZero\<close>: an
  integer division by zero; \<open>Abort\<close>: a check of a result stops the program; \<open>Hang\<close>: a loop of the
  source did not end within the fuel; \<open>Unmodelled\<close>: control reaches code that is not modelled.
\<close>

datatype fault = OutOfBounds | NullCall | BadPointer | DivByZero | Abort | Hang | Unmodelled

type_synonym 'a res = "fault + 'a"

definition andThen :: "'a res \<Rightarrow> ('a \<Rightarrow> 'b res) \<Rightarrow> 'b res" where
  "andThen r f = (case r of Inl e \<Rightarrow> Inl e | Inr a \<Rightarrow> f a)"

lemma andThen_simps [simp, res_simps]:
  "andThen (Inl e) f = Inl e"
  "andThen (Inr a) f = f a"
  by (simp_all add: andThen_def)

lemma andThen_eq_Inr: "andThen r f = Inr b \<longleftrightarrow> (\<exists>a. r = Inr a \<and> f a = Inr b)"
  by (cases r) auto

lemma andThen_Inr_right: "andThen a Inr = a"
  by (cases a) simp_all

lemma andThen_assoc: "andThen (andThen r f) g = andThen r (\<lambda>a. andThen (f a) g)"
  by (cases r) auto

text \<open>A block of statements: each takes the state and returns the next one, or a fault.\<close>

fun seqr :: "('s \<Rightarrow> 's res) list \<Rightarrow> 's \<Rightarrow> 's res" where
  "seqr [] s = Inr s"
| "seqr (c # cs) s = andThen (c s) (seqr cs)"

definition ok :: "('s \<Rightarrow> 's) \<Rightarrow> 's \<Rightarrow> 's res" where
  "ok f s = Inr (f s)"

lemma ok_simp [simp, res_simps]: "ok f s = Inr (f s)"
  by (simp add: ok_def)

lemma seqr_single: "seqr [c] = c"
proof
  fix s
  show "seqr [c] s = c s" by (cases "c s") simp_all
qed

lemma andThen_seqr_Nil [simp]: "andThen a (seqr []) = a"
  by (cases a) simp_all

lemma seqr_append: "seqr (xs @ ys) s = andThen (seqr xs s) (seqr ys)"
proof (induction xs arbitrary: s)
  case (Cons c xs)
  show ?case
    by (cases "c s") (simp_all add: Cons.IH)
qed simp

text \<open>A conditional statement without an else branch, and a loop over a list of indices.\<close>

definition whenr :: "bool \<Rightarrow> ('s \<Rightarrow> 's res) \<Rightarrow> 's \<Rightarrow> 's res" where
  "whenr b c s = (if b then c s else Inr s)"

lemma whenr_simps [simp, res_simps]:
  "whenr True c s = c s"
  "whenr False c s = Inr s"
  by (simp_all add: whenr_def)

fun forr :: "'i list \<Rightarrow> ('i \<Rightarrow> 's \<Rightarrow> 's res) \<Rightarrow> 's \<Rightarrow> 's res" where
  "forr [] c s = Inr s"
| "forr (i # is) c s = andThen (c i s) (forr is c)"

lemma forr_single: "forr [i] c = c i"
proof
  fix s
  show "forr [i] c s = c i s" by (cases "c i s") simp_all
qed

lemma forr_append: "forr (xs @ ys) c s = andThen (forr xs c s) (forr ys c)"
proof (induction xs arbitrary: s)
  case (Cons x xs)
  show ?case
    by (cases "c x s") (simp_all add: Cons.IH)
qed simp

text \<open>The rule for an invariant: it survives a block when every statement keeps it.\<close>

definition keeps :: "('s \<Rightarrow> bool) \<Rightarrow> ('s \<Rightarrow> 's res) \<Rightarrow> bool" where
  "keeps P c \<longleftrightarrow> (\<forall>s s'. P s \<longrightarrow> c s = Inr s' \<longrightarrow> P s')"

lemma keepsI: "(\<And>s s'. P s \<Longrightarrow> c s = Inr s' \<Longrightarrow> P s') \<Longrightarrow> keeps P c"
  by (simp add: keeps_def)

lemma keepsD: "keeps P c \<Longrightarrow> P s \<Longrightarrow> c s = Inr s' \<Longrightarrow> P s'"
  by (simp add: keeps_def)

lemma keeps_andThen: "keeps P c \<Longrightarrow> keeps P d \<Longrightarrow> keeps P (\<lambda>s. andThen (c s) d)"
  unfolding keeps_def andThen_eq_Inr by blast

lemma keeps_seqr: "(\<And>c. c \<in> set cs \<Longrightarrow> keeps P c) \<Longrightarrow> keeps P (seqr cs)"
proof (induction cs)
  case Nil
  show ?case by (simp add: keeps_def)
next
  case (Cons c cs)
  then have "keeps P c" "keeps P (seqr cs)" by simp_all
  then have "keeps P (\<lambda>s. andThen (c s) (seqr cs))" by (rule keeps_andThen)
  then show ?case by (simp add: keeps_def)
qed

lemma keeps_ok: "(\<And>s. P s \<Longrightarrow> P (f s)) \<Longrightarrow> keeps P (ok f)"
  by (simp add: keeps_def)

lemma keeps_whenr: "keeps P c \<Longrightarrow> keeps P (whenr b c)"
  by (cases b) (simp_all add: keeps_def)

lemma keeps_forr: "(\<And>i. i \<in> set is \<Longrightarrow> keeps P (c i)) \<Longrightarrow> keeps P (forr is c)"
proof (induction "is")
  case Nil
  show ?case by (simp add: keeps_def)
next
  case (Cons i "is")
  then have "keeps P (c i)" "keeps P (forr is c)" by simp_all
  then have "keeps P (\<lambda>s. andThen (c i s) (forr is c))" by (rule keeps_andThen)
  then show ?case by (simp add: keeps_def)
qed

subsection \<open>Arrays of fixed length\<close>

definition rd :: "'a list \<Rightarrow> int \<Rightarrow> 'a res" where
  "rd xs i = (if 0 \<le> i \<and> i < int (length xs) then Inr (xs ! nat i) else Inl OutOfBounds)"

definition wr :: "'a list \<Rightarrow> int \<Rightarrow> 'a \<Rightarrow> 'a list res" where
  "wr xs i v = (if 0 \<le> i \<and> i < int (length xs) then Inr (xs[nat i := v]) else Inl OutOfBounds)"

lemma rd_in [array_simps]: "0 \<le> i \<Longrightarrow> i < int (length xs) \<Longrightarrow> rd xs i = Inr (xs ! nat i)"
  by (simp add: rd_def)

lemma rd_out [array_simps]: "i < 0 \<or> int (length xs) \<le> i \<Longrightarrow> rd xs i = Inl OutOfBounds"
  by (auto simp: rd_def)

lemma wr_in [array_simps]:
  "0 \<le> i \<Longrightarrow> i < int (length xs) \<Longrightarrow> wr xs i v = Inr (xs[nat i := v])"
  by (simp add: wr_def)

lemma wr_out [array_simps]: "i < 0 \<or> int (length xs) \<le> i \<Longrightarrow> wr xs i v = Inl OutOfBounds"
  by (auto simp: wr_def)

lemma rd_int [simp]: "n < length xs \<Longrightarrow> rd xs (int n) = Inr (xs ! n)"
  by (simp add: rd_def)

lemma wr_int [simp]: "n < length xs \<Longrightarrow> wr xs (int n) v = Inr (xs[n := v])"
  by (simp add: wr_def)

lemma rd_eq_Inr: "rd xs i = Inr x \<longleftrightarrow> 0 \<le> i \<and> i < int (length xs) \<and> x = xs ! nat i"
  by (auto simp: rd_def)

lemma wr_eq_Inr:
  "wr xs i v = Inr ys \<longleftrightarrow> 0 \<le> i \<and> i < int (length xs) \<and> ys = xs[nat i := v]"
  by (auto simp: wr_def)

lemma wr_length: "wr xs i v = Inr ys \<Longrightarrow> length ys = length xs"
  by (auto simp: wr_eq_Inr)

lemma rd_wr_same: "wr xs i v = Inr ys \<Longrightarrow> rd ys i = Inr v"
  by (auto simp: wr_eq_Inr rd_eq_Inr)

lemma rd_wr_other: "wr xs i v = Inr ys \<Longrightarrow> i \<noteq> j \<Longrightarrow> rd ys j = rd xs j"
  by (auto simp: wr_eq_Inr rd_def)

subsection \<open>C integers\<close>

text \<open>
  A conversion to a narrower unsigned type keeps the low bits (\<open>word_of_int\<close>); a
  conversion to \<open>int16_t\<close> on this target reads the low 16 bits as two's complement.
  \<open>HOL-Library.Signed_Division\<close> gives C's division (\<open>sdiv\<close>), which truncates.
\<close>

definition to_i16 :: "int \<Rightarrow> int" where
  "to_i16 x = sint (word_of_int x :: 16 word)"

lemma to_i16_id: "- 32768 \<le> x \<Longrightarrow> x < 32768 \<Longrightarrow> to_i16 x = x"
  by (simp add: to_i16_def signed_of_int signed_take_bit_int_eq_self)

lemma sdiv_nonneg: "0 \<le> (a::int) \<Longrightarrow> 0 \<le> b \<Longrightarrow> a sdiv b = a div b"
  by (cases "a = 0"; cases "b = 0") (simp_all add: signed_divide_int_def)

lemma unat_word_of_int_small:
  "0 \<le> x \<Longrightarrow> x < 2 ^ LENGTH('a) \<Longrightarrow> unat (word_of_int x :: 'a::len word) = nat x"
proof -
  assume "0 \<le> x" "x < 2 ^ LENGTH('a)"
  then have "uint (word_of_int x :: 'a word) = x"
    by (simp add: unsigned_of_int take_bit_int_eq_self)
  then show ?thesis by (metis nat_int of_nat_unat)
qed

lemma u8_of_nat_unat: "n < 256 \<Longrightarrow> unat (of_nat n :: u8) = n"
  by (simp add: unat_of_nat)

lemma u8_bound: "unat (x :: u8) < 256"
  using unsigned_less [of x] by simp

text \<open>Tests of the top bit of a byte that is being shifted out.\<close>

lemma and_0x80: "(b :: u8) AND 0x80 \<noteq> 0 \<longleftrightarrow> bit b 7"
proof -
  have "(0x80 :: u8) = push_bit 7 1" by simp
  then show ?thesis by (simp only: bit_iff_and_push_bit_not_eq_0)
qed

lemma and_0x80_shifted: "m < 8 \<Longrightarrow> push_bit m (b :: u8) AND 0x80 \<noteq> 0 \<longleftrightarrow> bit b (7 - m)"
  by (simp only: and_0x80) (auto simp: bit_push_bit_iff)

lemma u8_and_7: "(of_nat k :: u8) AND 7 = 0 \<longleftrightarrow> k mod 8 = 0"
proof -
  have "(7 :: u8) = mask 3" by (simp add: mask_eq_exp_minus_1)
  then have "(of_nat k :: u8) AND 7 = take_bit 3 (of_nat k)" by (simp only: take_bit_eq_mask)
  also have "\<dots> = of_nat (take_bit 3 k)" by (simp add: take_bit_of_nat)
  also have "take_bit 3 k = k mod 8" by (simp add: take_bit_eq_mod)
  finally show ?thesis by (simp add: word_of_nat_eq_0_iff) (auto elim!: dvdE simp: mod_mult_mult1)
qed

end
