(* ===== verification/Arduino_Core.thy ===== *)
theory Arduino_Core
  imports Prelude
begin

section \<open>Number conversions of the Arduino core\<close>

text \<open>
  The routines of \<^verbatim>\<open>components/arduino/cores/esp32\<close> that the application's arithmetic and
  its HTTP bodies go through: \<open>map\<close> and \<open>makeWord\<close> of \<^verbatim>\<open>WMath.cpp\<close>, \<open>reverse\<close>,
  \<open>ltoa\<close> and \<open>ultoa\<close> of \<^verbatim>\<open>stdlib_noniso.c\<close>, and the C library's \<open>strtol\<close> as far as
  the sources use it (bases 0, 10 and 16). Text is a \<open>string\<close>; a C buffer is the list of
  the characters before its terminating NUL.
\<close>

subsection \<open>WMath.cpp\<close>

text \<open>\<open>map\<close>: linear rescaling in integers, with C's truncating division.\<close>

definition map_arduino :: "int \<Rightarrow> int \<Rightarrow> int \<Rightarrow> int \<Rightarrow> int \<Rightarrow> int" where
  "map_arduino x in_min in_max out_min out_max =
     (let divisor = in_max - in_min
      in if divisor = 0 then - 1
         else (x - in_min) * (out_max - out_min) sdiv divisor + out_min)"

definition makeWord :: "u8 \<Rightarrow> u8 \<Rightarrow> nat" where
  "makeWord h l = unat h * 2 ^ 8 + unat l"

lemma map_arduino_up:
  assumes "in_min < in_max" "in_min \<le> x" "out_min \<le> out_max"
  shows "map_arduino x in_min in_max out_min out_max =
    (x - in_min) * (out_max - out_min) div (in_max - in_min) + out_min"
  using assms by (simp add: map_arduino_def sdiv_nonneg)

lemma map_arduino_bounds:
  assumes "in_min < in_max" "in_min \<le> x" "x \<le> in_max" "out_min \<le> out_max"
  shows "out_min \<le> map_arduino x in_min in_max out_min out_max"
    and "map_arduino x in_min in_max out_min out_max \<le> out_max"
proof -
  let ?d = "in_max - in_min" and ?w = "out_max - out_min"
  have eq: "map_arduino x in_min in_max out_min out_max = (x - in_min) * ?w div ?d + out_min"
    using assms by (intro map_arduino_up) auto
  have "0 \<le> (x - in_min) * ?w div ?d"
    using assms by (simp add: pos_imp_zdiv_nonneg_iff)
  then show "out_min \<le> map_arduino x in_min in_max out_min out_max"
    by (simp add: eq)
  have "(x - in_min) * ?w \<le> ?d * ?w"
    using assms by (intro mult_right_mono) auto
  then have "(x - in_min) * ?w div ?d \<le> ?d * ?w div ?d"
    using assms by (intro zdiv_mono1) auto
  also have "\<dots> = ?w" using assms by simp
  finally show "map_arduino x in_min in_max out_min out_max \<le> out_max"
    by (simp add: eq)
qed

lemma map_arduino_mono:
  assumes "in_min < in_max" "in_min \<le> x" "x \<le> y" "out_min \<le> out_max"
  shows "map_arduino x in_min in_max out_min out_max \<le>
    map_arduino y in_min in_max out_min out_max"
proof -
  have "(x - in_min) * (out_max - out_min) \<le> (y - in_min) * (out_max - out_min)"
    using assms by (intro mult_right_mono) auto
  then have "(x - in_min) * (out_max - out_min) div (in_max - in_min) \<le>
      (y - in_min) * (out_max - out_min) div (in_max - in_min)"
    using assms by (intro zdiv_mono1) auto
  then show ?thesis using assms by (simp add: map_arduino_up)
qed

subsection \<open>stdlib\_noniso.c\<close>

text \<open>\<open>reverse(begin, end)\<close>: swap the two ends and move inwards while they have not met.\<close>

fun reverse_loop :: "nat \<Rightarrow> nat \<Rightarrow> 'a list \<Rightarrow> 'a list" where
  "reverse_loop i j buf =
     (if i < j then reverse_loop (Suc i) (j - 1) (buf[j := buf ! i, i := buf ! j]) else buf)"

declare reverse_loop.simps [simp del]

definition reverse_buf :: "'a list \<Rightarrow> 'a list" where
  "reverse_buf buf = reverse_loop 0 (length buf - 1) buf"

definition digit_chars :: string where
  "digit_chars = ''0123456789abcdef''"

text \<open>The loop of \<open>ltoa\<close> and \<open>ultoa\<close>: the digits, least significant first.\<close>

function digits_loop :: "nat \<Rightarrow> nat \<Rightarrow> string \<Rightarrow> string" where
  "digits_loop base quot out =
     (if base < 2 then out
      else let tmp = quot div base;
               out' = out @ [digit_chars ! (quot - tmp * base)]
           in if tmp \<noteq> 0 then digits_loop base tmp out' else out')"
  by pat_completeness auto
termination
proof (relation "measure (\<lambda>(base, quot, out). quot)", goal_cases)
  case (2 base quot out tmp out')
  then have "2 \<le> base" "0 < quot" by (auto intro: gr0I)
  with 2 show ?case by simp
qed simp

declare digits_loop.simps [simp del]

definition ultoa :: "nat \<Rightarrow> nat \<Rightarrow> string" where
  "ultoa value base =
     (if base < 2 \<or> base > 16 then '''' else reverse_buf (digits_loop base value ''''))"

definition ltoa :: "int \<Rightarrow> nat \<Rightarrow> string" where
  "ltoa value base =
     (if base < 2 \<or> base > 16 then ''''
      else let out = digits_loop base (nat \<bar>value\<bar>) '''';
               out = (if value < 0 then out @ ''-'' else out)
           in reverse_buf out)"

text \<open>The decimal text of an unsigned and of a signed number, as \<open>String(n)\<close> renders it.\<close>

definition String_uint :: "nat \<Rightarrow> string" where
  "String_uint n = ultoa n 10"

definition String_int :: "int \<Rightarrow> string" where
  "String_int n = ltoa n 10"

lemma reverse_loop_spec:
  "i + j = length buf - 1 \<Longrightarrow> j < length buf \<Longrightarrow> i \<le> Suc j \<Longrightarrow>
   reverse_loop i j buf =
     take i buf @ rev (take (Suc j - i) (drop i buf)) @ drop (Suc j) buf"
proof (induction i j buf rule: reverse_loop.induct)
  case (1 i j buf)
  show ?case
  proof (cases "i < j")
    case True
    let ?b = "buf[j := buf ! i, i := buf ! j]"
    have step: "reverse_loop i j buf = reverse_loop (Suc i) (j - 1) ?b"
      using True by (simp add: reverse_loop.simps [of i j buf])
    have IH: "reverse_loop (Suc i) (j - 1) ?b =
        take (Suc i) ?b @ rev (take (j - Suc i) (drop (Suc i) ?b)) @ drop j ?b"
      using 1 True by (cases j) auto
    have len: "i < length buf" "j < length buf" using 1 True by auto
    have t: "take (Suc i) ?b = take i buf @ [buf ! j]"
      using len True by (simp add: take_Suc_conv_app_nth)
    have d: "drop j ?b = buf ! i # drop (Suc j) buf"
      using len True by (simp add: Cons_nth_drop_Suc [symmetric] drop_update_cancel)
    have m: "take (j - Suc i) (drop (Suc i) ?b) = take (j - Suc i) (drop (Suc i) buf)"
      using len True by (intro nth_equalityI) auto
    have "take (Suc j - i) (drop i buf) =
        buf ! i # take (j - Suc i) (drop (Suc i) buf) @ [buf ! j]"
    proof -
      have "take (Suc (j - Suc i)) (drop (Suc i) buf) =
          take (j - Suc i) (drop (Suc i) buf) @ [buf ! j]"
        using len True by (simp add: take_Suc_conv_app_nth)
      moreover have "drop i buf = buf ! i # drop (Suc i) buf"
        using len by (simp add: Cons_nth_drop_Suc)
      moreover have "Suc j - i = Suc (Suc (j - Suc i))" using True by simp
      ultimately show ?thesis by simp
    qed
    then show ?thesis using step IH t d m by simp
  next
    case False
    then have stop: "reverse_loop i j buf = buf" by (simp add: reverse_loop.simps [of i j buf])
    from False 1 consider "i = j" | "i = Suc j" by linarith
    then show ?thesis
    proof cases
      case 1
      then have "drop j buf = buf ! j # drop (Suc j) buf"
        using \<open>j < length buf\<close> by (simp add: Cons_nth_drop_Suc)
      then have "buf = take j buf @ buf ! j # drop (Suc j) buf"
        by (metis append_take_drop_id)
      with 1 stop \<open>drop j buf = _\<close> show ?thesis by simp
    next
      case 2
      then show ?thesis using stop by simp
    qed
  qed
qed

lemma reverse_buf_eq_rev: "reverse_buf buf = rev buf"
proof (cases buf)
  case Nil
  then show ?thesis by (simp add: reverse_buf_def reverse_loop.simps)
next
  case (Cons a list)
  then show ?thesis
    using reverse_loop_spec [of 0 "length list" buf] by (simp add: reverse_buf_def)
qed

subsection \<open>The C library's \<open>strtol\<close>\<close>

definition c_isspace :: "char \<Rightarrow> bool" where
  "c_isspace c = (c = CHR '' '' \<or> (9 \<le> (of_char c :: nat) \<and> (of_char c :: nat) \<le> 13))"

definition digit_val :: "char \<Rightarrow> nat option" where
  "digit_val c =
     (let n = (of_char c :: nat)
      in if 48 \<le> n \<and> n \<le> 57 then Some (n - 48)
         else if 97 \<le> n \<and> n \<le> 122 then Some (n - 87)
         else if 65 \<le> n \<and> n \<le> 90 then Some (n - 55)
         else None)"

fun strtol_digits :: "nat \<Rightarrow> nat \<Rightarrow> string \<Rightarrow> nat" where
  "strtol_digits base acc [] = acc"
| "strtol_digits base acc (c # cs) =
     (case digit_val c of
        None \<Rightarrow> acc
      | Some d \<Rightarrow> if d < base then strtol_digits base (acc * base + d) cs else acc)"

fun is_hex_prefix :: "string \<Rightarrow> bool" where
  "is_hex_prefix (z # x # d # _) =
     (z = CHR ''0'' \<and> (x = CHR ''x'' \<or> x = CHR ''X'') \<and>
      (case digit_val d of None \<Rightarrow> False | Some n \<Rightarrow> n < 16))"
| "is_hex_prefix _ = False"

definition strtol_magnitude :: "string \<Rightarrow> nat \<Rightarrow> nat" where
  "strtol_magnitude s base =
     (if (base = 0 \<or> base = 16) \<and> is_hex_prefix s then strtol_digits 16 0 (drop 2 s)
      else if base = 0 \<and> s \<noteq> [] \<and> hd s = CHR ''0'' then strtol_digits 8 0 s
      else strtol_digits (if base = 0 then 10 else base) 0 s)"

text \<open>\<open>long\<close> has 32 bits on this target; an overflow gives \<open>LONG_MAX\<close> or \<open>LONG_MIN\<close>.\<close>

definition strtol :: "string \<Rightarrow> nat \<Rightarrow> int" where
  "strtol s base =
     (let s = dropWhile c_isspace s;
          neg = (s \<noteq> [] \<and> hd s = CHR ''-'');
          s = (if s \<noteq> [] \<and> (hd s = CHR ''-'' \<or> hd s = CHR ''+'') then tl s else s);
          m = int (strtol_magnitude s base)
      in if neg then max (- (2 ^ 31)) (- m) else min (2 ^ 31 - 1) m)"

definition atol :: "string \<Rightarrow> int" where
  "atol s = strtol s 10"

text \<open>What \<open>ultoa\<close> prints, \<open>strtol\<close> reads back.\<close>

lemma digit_val_chars: "d < 16 \<Longrightarrow> digit_val (digit_chars ! d) = Some d"
proof -
  assume "d < 16"
  then have "d \<in> set [0..<16]" by simp
  moreover have "\<forall>d \<in> set [0..<16]. digit_val (digit_chars ! d) = Some d"
    by code_simp
  ultimately show ?thesis by blast
qed

lemma strtol_digits_append:
  assumes "\<forall>c \<in> set xs. \<exists>d. digit_val c = Some d \<and> d < base"
  shows "strtol_digits base acc (xs @ ys) = strtol_digits base (strtol_digits base acc xs) ys"
  using assms by (induction xs arbitrary: acc) auto

lemma digits_loop_spec:
  assumes "2 \<le> base" "base \<le> 16"
  shows "\<exists>ds. digits_loop base n out = out @ ds \<and> ds \<noteq> [] \<and>
    set ds \<subseteq> {digit_chars ! d |d. d < base} \<and> strtol_digits base 0 (rev ds) = n"
  using assms
proof (induction base n out rule: digits_loop.induct)
  case (1 base n out)
  let ?c = "digit_chars ! (n - n div base * base)"
  have m: "n - n div base * base = n mod base"
    by (metis minus_div_mult_eq_mod)
  have lt: "n mod base < base" using "1.prems" by simp
  then have "n mod base < 16" using "1.prems" by linarith
  then have dv: "digit_val ?c = Some (n mod base)"
    by (simp only: m digit_val_chars)
  show ?case
  proof (cases "n div base = 0")
    case True
    then have "digits_loop base n out = out @ [?c]" "n mod base = n"
      using "1.prems" by (simp_all add: digits_loop.simps [of base n out] Let_def mod_eq_self_iff_div_eq_0)
    then show ?thesis
      using lt dv by (intro exI [of _ "[?c]"]) (auto simp: m)
  next
    case False
    then obtain ds where ds: "digits_loop base (n div base) (out @ [?c]) = (out @ [?c]) @ ds"
      "set ds \<subseteq> {digit_chars ! d |d. d < base}" "strtol_digits base 0 (rev ds) = n div base"
      using "1.IH" "1.prems" by fastforce
    have "\<forall>c \<in> set (rev ds). \<exists>d. digit_val c = Some d \<and> d < base"
      using ds(2) "1.prems" by (auto simp: digit_val_chars)
    then have "strtol_digits base 0 (rev ds @ [?c]) = n"
      using lt dv by (simp add: strtol_digits_append ds(3))
    moreover have "digits_loop base n out = out @ ?c # ds"
      using False "1.prems" ds(1) by (simp add: digits_loop.simps [of base n out] Let_def)
    ultimately show ?thesis
      using ds(2) lt by (intro exI [of _ "?c # ds"]) (auto simp: m)
  qed
qed

lemma strtol_magnitude_10: "strtol_magnitude s 10 = strtol_digits 10 0 s"
  by (simp add: strtol_magnitude_def)

lemma ultoa_10_digits:
  "String_uint n \<noteq> '''' \<and> set (String_uint n) \<subseteq> set ''0123456789'' \<and>
   strtol_digits 10 0 (String_uint n) = n"
proof -
  obtain ds where ds: "digits_loop 10 n '''' = ds" "ds \<noteq> []"
    "set ds \<subseteq> {digit_chars ! d |d. d < 10}" "strtol_digits 10 0 (rev ds) = n"
    using digits_loop_spec [of 10 n "''''"] by auto
  have "\<forall>d \<in> set [0..<10]. digit_chars ! d \<in> set ''0123456789''" by code_simp
  then have "set ds \<subseteq> set ''0123456789''" using ds(3) by fastforce
  then show ?thesis
    using ds by (simp add: String_uint_def ultoa_def reverse_buf_eq_rev)
qed

lemma not_space_digit: "c \<in> set ''0123456789'' \<Longrightarrow>
  \<not> c_isspace c \<and> c \<noteq> CHR ''-'' \<and> c \<noteq> CHR ''+''"
  by (auto simp: c_isspace_def)

text \<open>Printing an unsigned number and reading it back with \<open>atol\<close> is the identity as far
  as \<open>long\<close> can hold the number.\<close>

lemma atol_String_uint: "atol (String_uint n) = min (2 ^ 31 - 1) (int n)"
proof -
  have s: "String_uint n \<noteq> ''''" "set (String_uint n) \<subseteq> set ''0123456789''"
    "strtol_digits 10 0 (String_uint n) = n"
    using ultoa_10_digits [of n] by auto
  then obtain c cs where c: "String_uint n = c # cs" "c \<in> set ''0123456789''"
    by (cases "String_uint n") auto
  then show ?thesis
    using s(3) not_space_digit [OF c(2)]
    by (simp add: atol_def strtol_def Let_def strtol_magnitude_10)
qed

end
