(* ===== verification/Arduino_String.thy ===== *)
theory Arduino_String
  imports Arduino_Core
begin

section \<open>Searching and cutting strings\<close>

text \<open>
  The methods of class \<open>String\<close> (\<^verbatim>\<open>cores/esp32/WString.cpp\<close>) that the HTTP client parses with. A string
  may contain a NUL, and then the methods that go through the C library stop there. An index that is not
  found is \<open>-1\<close>, which an \<open>unsigned\<close> parameter takes for the largest number.
\<close>

definition as_unsigned :: "int \<Rightarrow> nat" where
  "as_unsigned i = unat (word_of_int i :: u32)"

text \<open>The characters before the first NUL, what \<open>strchr\<close> and \<open>strstr\<close> see.\<close>

definition c_part :: "string \<Rightarrow> string" where
  "c_part s = takeWhile (\<lambda>c. c \<noteq> CHR 0x00) s"

fun find_char :: "char \<Rightarrow> string \<Rightarrow> nat option" where
  "find_char c [] = None"
| "find_char c (d # ds) = (if d = c then Some 0 else map_option Suc (find_char c ds))"

definition indexOf_from :: "string \<Rightarrow> char \<Rightarrow> nat \<Rightarrow> int" where
  "indexOf_from s c from =
     (if from \<ge> length s then - 1
      else case find_char c (c_part (drop from s)) of None \<Rightarrow> - 1 | Some i \<Rightarrow> int (from + i))"

definition indexOf :: "string \<Rightarrow> char \<Rightarrow> int" where
  "indexOf s c = indexOf_from s c 0"

fun find_text :: "string \<Rightarrow> string \<Rightarrow> nat option" where
  "find_text t [] = (if t = [] then Some 0 else None)"
| "find_text t (c # cs) = (if take (length t) (c # cs) = t then Some 0 else map_option Suc (find_text t cs))"

definition indexOf_text :: "string \<Rightarrow> string \<Rightarrow> int" where
  "indexOf_text s t =
     (if s = [] then - 1 else case find_text t (c_part s) of None \<Rightarrow> - 1 | Some i \<Rightarrow> int i)"

definition substring_to :: "string \<Rightarrow> nat \<Rightarrow> nat \<Rightarrow> string" where
  "substring_to s left right =
     (let (left, right) = (if left > right then (right, left) else (left, right))
      in if left \<ge> length s then '''' else c_part (drop left (take right s)))"

definition substring :: "string \<Rightarrow> nat \<Rightarrow> string" where
  "substring s left = substring_to s left (length s)"

definition remove_count :: "string \<Rightarrow> nat \<Rightarrow> nat \<Rightarrow> string" where
  "remove_count s index count =
     (if index \<ge> length s \<or> count = 0 then s else take index s @ drop (index + count) s)"

text \<open>The blanks at both ends; a string of blanks becomes empty.\<close>

definition trim :: "string \<Rightarrow> string" where
  "trim s = rev (dropWhile c_isspace (rev (dropWhile c_isspace s)))"

definition lower :: "char \<Rightarrow> char" where
  "lower c = (if 65 \<le> (of_char c :: nat) \<and> (of_char c :: nat) \<le> 90 then char_of (of_char c + 32 :: nat) else c)"

definition equalsIgnoreCase :: "string \<Rightarrow> string \<Rightarrow> bool" where
  "equalsIgnoreCase s t \<longleftrightarrow> length s = length t \<and> map lower (c_part s) = map lower (take (length (c_part s)) t)"

definition startsWith :: "string \<Rightarrow> string \<Rightarrow> bool" where
  "startsWith s t \<longleftrightarrow> take (length t) s = t"

definition toInt :: "string \<Rightarrow> int" where
  "toInt s = atol (c_part s)"

subsection \<open>What they find\<close>

lemma c_part_id [simp]: "CHR 0x00 \<notin> set s \<Longrightarrow> c_part s = s"
  unfolding c_part_def by (induction s) auto

lemma as_unsigned_simps [simp]:
  "as_unsigned (- 1) = 4294967295"
  "n < 4294967296 \<Longrightarrow> as_unsigned (int n) = n"
  by (simp_all add: as_unsigned_def unsigned_of_nat take_bit_nat_eq_self unsigned_minus_1_eq_mask mask_eq_exp_minus_1)

lemma find_char_append:
  "c \<notin> set s \<Longrightarrow> find_char c (s @ c # t) = Some (length s)"
  by (induction s) auto

lemma find_char_None [simp]: "c \<notin> set s \<Longrightarrow> find_char c s = None"
  by (induction s) auto

lemma indexOf_append:
  assumes "c \<notin> set s" "CHR 0x00 \<notin> set s" "c \<noteq> CHR 0x00"
  shows "indexOf (s @ c # t) c = int (length s)"
proof -
  have "c_part (s @ c # t) = s @ c # c_part t"
    using assms(2,3) by (simp add: c_part_def takeWhile_append2 del: takeWhile_append) (induction s, auto)
  then show ?thesis using assms(1) by (simp add: indexOf_def indexOf_from_def find_char_append)
qed

lemma indexOf_None: "c \<notin> set s \<Longrightarrow> indexOf s c = - 1"
proof -
  assume "c \<notin> set s"
  then have "c \<notin> set (c_part s)" unfolding c_part_def by (meson set_takeWhileD)
  then show ?thesis by (simp add: indexOf_def indexOf_from_def)
qed

lemma substring_to_append [simp]: "CHR 0x00 \<notin> set s \<Longrightarrow> substring_to (s @ t) 0 (length s) = s"
  by (cases s) (simp_all add: substring_to_def)

lemma remove_count_append [simp]: "remove_count (s @ t) 0 (length s) = t"
  by (cases s) (simp_all add: remove_count_def)

end
