(* ===== verification/Tls_Client.thy ===== *)
theory Tls_Client
  imports Arduino_String
begin

section \<open>The encrypted connection (\<^verbatim>\<open>WiFiClientSecure.cpp\<close>) and reading from it\<close>

text \<open>
  Class \<open>WiFiClientSecure\<close> over the TLS library, and the methods of \<open>Stream\<close> that read a line or a
  number of bytes with a time limit. What the other side and the library do is a script: the list
  \<open>polls\<close> says what every further look for data finds. \<open>Quiet ms\<close>: nothing, and \<open>ms\<close> milliseconds have
  passed since the look before; \<open>Record ms r\<close>: a record with the bytes \<open>r\<close>; \<open>Lost ms\<close>: the library
  reports an error, of which the code only uses the sign. Behind the end of the list nothing ever comes.
  The library looks for a record only when the one before is used up. The list \<open>writes\<close> says what becomes
  of every further attempt to write, the list \<open>dials\<close> what every further attempt to connect meets.
  \<open>wire\<close> records what leaves the device. Nothing calls \<open>peek\<close>, so the member \<open>_peek\<close> stays \<open>-1\<close> and is
  left out.
\<close>

subsection \<open>The state\<close>

datatype poll = Quiet nat | Record nat string | Lost nat

datatype attempt = Again | Took nat | Failed

datatype wire = Dial string nat | Sent string | Hangup

record dialled =
  on_polls :: "poll list"
  on_writes :: "attempt list"

record tls_conn =
  up :: bool
  rx :: string
  polls :: "poll list"
  writes :: "attempt list"
  dials :: "dialled option list"
  clock :: nat
  wire :: "wire list"

subsection \<open>Operations\<close>

definition tls_stop :: "tls_conn \<Rightarrow> tls_conn" where
  "tls_stop n =
     (if up n then n\<lparr>up := False, rx := '''', polls := [], writes := [], wire := wire n @ [Hangup]\<rparr> else n)"

definition data_to_read :: "tls_conn \<Rightarrow> int \<times> tls_conn" where
  "data_to_read n =
     (if rx n \<noteq> '''' then (int (length (rx n)), n)
      else case polls n of
        [] \<Rightarrow> (0, n)
      | Quiet ms # ps \<Rightarrow> (0, n\<lparr>clock := clock n + ms, polls := ps\<rparr>)
      | Record ms r # ps \<Rightarrow> (int (length r), n\<lparr>clock := clock n + ms, polls := ps, rx := r\<rparr>)
      | Lost ms # ps \<Rightarrow> (- 1, n\<lparr>clock := clock n + ms, polls := ps\<rparr>))"

definition tls_available :: "tls_conn \<Rightarrow> int \<times> tls_conn" where
  "tls_available n =
     (if \<not> up n then (0, n)
      else case data_to_read n of (res, n) \<Rightarrow> if res < 0 then (res, tls_stop n) else (res, n))"

text \<open>\<open>read()\<close> for one byte, and \<open>connected()\<close>, which reads no byte for the sake of the look.\<close>

definition tls_read :: "tls_conn \<Rightarrow> char option \<times> tls_conn" where
  "tls_read n =
     (case tls_available n of (avail, n) \<Rightarrow>
        if avail \<le> 0 then (None, n) else (Some (hd (rx n)), n\<lparr>rx := tl (rx n)\<rparr>))"

definition tls_connected :: "tls_conn \<Rightarrow> bool \<times> tls_conn" where
  "tls_connected n = (case tls_available n of (avail, n) \<Rightarrow> (up n, n))"

text \<open>\<open>send_ssl_data\<close> takes the length as a \<open>uint16_t\<close> and repeats the call while the library asks for it.\<close>

fun send_attempts :: "string \<Rightarrow> attempt list \<Rightarrow> int \<times> string \<times> attempt list" where
  "send_attempts s [] = (int (length s), s, [])"
| "send_attempts s (Again # ws) = send_attempts s ws"
| "send_attempts s (Took k # ws) = (int (min k (length s)), take k s, ws)"
| "send_attempts s (Failed # ws) = (- 1, '''', ws)"

definition send_ssl_data :: "string \<Rightarrow> tls_conn \<Rightarrow> int \<times> tls_conn" where
  "send_ssl_data s n =
     (case send_attempts (take (length s mod 65536) s) (writes n) of (ret, gone, ws) \<Rightarrow>
        (ret, n\<lparr>writes := ws, wire := (if gone = '''' then wire n else wire n @ [Sent gone])\<rparr>))"

definition tls_write :: "string \<Rightarrow> tls_conn \<Rightarrow> nat \<times> tls_conn" where
  "tls_write s n =
     (if \<not> up n then (0, n)
      else case send_ssl_data s n of (res, n) \<Rightarrow> if res < 0 then (0, tls_stop n) else (nat res, n))"

text \<open>\<open>start_ssl_client\<close> is the library's: it succeeds with a fresh connection or fails.\<close>

definition tls_connect :: "string \<Rightarrow> nat \<Rightarrow> tls_conn \<Rightarrow> bool \<times> tls_conn" where
  "tls_connect host port n =
     (let n = n\<lparr>wire := wire n @ [Dial host port]\<rparr>
      in case dials n of
           [] \<Rightarrow> (False, tls_stop n)
         | None # ds \<Rightarrow> (False, tls_stop (n\<lparr>dials := ds\<rparr>))
         | Some d # ds \<Rightarrow>
             (True, n\<lparr>up := True, rx := '''', polls := on_polls d, writes := on_writes d, dials := ds\<rparr>))"

text \<open>How much a connection can still bring: every look and every byte of it counts.\<close>

fun poll_weight :: "poll \<Rightarrow> nat" where
  "poll_weight (Record ms r) = Suc (length r)"
| "poll_weight _ = 1"

definition pending :: "tls_conn \<Rightarrow> nat" where
  "pending n = length (rx n) + sum_list (map poll_weight (polls n))"

lemma tls_available_pending: "tls_available n = (a, n') \<Longrightarrow> pending n' \<le> pending n"
  by (auto simp: tls_available_def data_to_read_def tls_stop_def pending_def split: if_splits list.splits poll.splits)

lemma tls_available_shrinks:
  "tls_available n = (a, n') \<Longrightarrow> up n \<Longrightarrow> rx n = '''' \<Longrightarrow> polls n \<noteq> [] \<Longrightarrow> pending n' < pending n"
  by (auto simp: tls_available_def data_to_read_def tls_stop_def pending_def split: if_splits list.splits poll.splits)

lemma tls_available_pos: "tls_available n = (a, n') \<Longrightarrow> 0 < a \<Longrightarrow> up n' \<and> rx n' \<noteq> '''' \<and> a = int (length (rx n'))"
  by (auto simp: tls_available_def data_to_read_def tls_stop_def split: if_splits list.splits poll.splits)

lemma tls_read_Some_pending: "tls_read n = (Some c, n') \<Longrightarrow> pending n' < pending n"
  using tls_available_pending tls_available_pos
  by (fastforce simp: tls_read_def pending_def neq_Nil_conv split: prod.splits if_splits)

lemma tls_read_None_pending:
  "tls_read n = (None, n') \<Longrightarrow> pending n' \<le> pending n"
  using tls_available_pending by (fastforce simp: tls_read_def split: prod.splits if_splits)

lemma tls_read_None_shrinks:
  assumes "tls_read n = (None, n')" "up n'" "polls n' \<noteq> []"
  shows "pending n' < pending n"
  using assms
  by (auto simp: tls_read_def tls_available_def data_to_read_def tls_stop_def pending_def
      split: if_splits list.splits poll.splits)

subsection \<open>Reading with a time limit (\<^verbatim>\<open>Stream.cpp\<close>)\<close>

text \<open>
  The time limit stays at the second of \<open>Stream\<close>'s constructor: \<open>setTimeout\<close> of \<open>WiFiClientSecure\<close>
  does nothing. When nothing can come any more the loop of \<open>timedRead\<close> runs until the limit.
\<close>

definition stream_timeout :: nat where "stream_timeout = 1000"

function timedRead_loop :: "nat \<Rightarrow> tls_conn \<Rightarrow> char option \<times> tls_conn" where
  "timedRead_loop startMillis n =
     (case tls_read n of
        (Some c, n) \<Rightarrow> (Some c, n)
      | (None, n) \<Rightarrow>
          if clock n - startMillis < stream_timeout then
            (if up n \<and> polls n \<noteq> [] then timedRead_loop startMillis n
             else (None, n\<lparr>clock := startMillis + stream_timeout\<rparr>))
          else (None, n))"
  by pat_completeness auto
termination
  by (relation "measure (\<lambda>(s, n). pending n)") (auto intro: tls_read_None_shrinks [OF sym])

declare timedRead_loop.simps [simp del]

definition timedRead :: "tls_conn \<Rightarrow> char option \<times> tls_conn" where
  "timedRead n = timedRead_loop (clock n) n"

lemma timedRead_loop_pending:
  "timedRead_loop s n = (r, n') \<Longrightarrow> (if r = None then pending n' \<le> pending n else pending n' < pending n)"
proof (induction s n arbitrary: r n' rule: timedRead_loop.induct)
  case (1 s n)
  obtain q m where q: "tls_read n = (q, m)" by fastforce
  show ?case
  proof (cases q)
    case (Some c)
    with q 1(2) show ?thesis using tls_read_Some_pending by (auto simp: timedRead_loop.simps [of s n])
  next
    case None
    have le: "pending m \<le> pending n" using q None tls_read_None_pending by simp
    show ?thesis
    proof (cases "clock m - s < stream_timeout \<and> up m \<and> polls m \<noteq> []")
      case True
      with 1(1) [OF q [symmetric] None] 1(2) q None le show ?thesis
        by (auto simp: timedRead_loop.simps [of s n] split: if_splits)
    next
      case False
      with 1(2) q None le show ?thesis
        by (auto simp: timedRead_loop.simps [of s n] pending_def split: if_splits)
    qed
  qed
qed

lemma timedRead_Some_pending: "timedRead n = (Some c, n') \<Longrightarrow> pending n' < pending n"
  using timedRead_loop_pending [of "clock n" n "Some c" n'] by (simp add: timedRead_def)

lemma timedRead_None_pending: "timedRead n = (None, n') \<Longrightarrow> pending n' \<le> pending n"
  using timedRead_loop_pending [of "clock n" n None n'] by (simp add: timedRead_def)

function readStringUntil :: "char \<Rightarrow> tls_conn \<Rightarrow> string \<times> tls_conn" where
  "readStringUntil terminator n =
     (case timedRead n of
        (None, n) \<Rightarrow> ('''', n)
      | (Some c, n) \<Rightarrow>
          if c = terminator then ('''', n)
          else case readStringUntil terminator n of (ret, n) \<Rightarrow> (c # ret, n))"
  by pat_completeness auto
termination
  by (relation "measure (\<lambda>(t, n). pending n)") (auto intro: timedRead_Some_pending [OF sym])

declare readStringUntil.simps [simp del]

function readBytes :: "nat \<Rightarrow> tls_conn \<Rightarrow> string \<times> tls_conn" where
  "readBytes len n =
     (if len = 0 then ('''', n)
      else case timedRead n of
        (None, n) \<Rightarrow> ('''', n)
      | (Some c, n) \<Rightarrow> (case readBytes (len - 1) n of (buf, n) \<Rightarrow> (c # buf, n)))"
  by pat_completeness auto
termination
  by (relation "measure fst") auto

declare readBytes.simps [simp del]

lemma readStringUntil_pending:
  "readStringUntil t n = (s, n') \<Longrightarrow> (if s = '''' then pending n' \<le> pending n else pending n' < pending n)"
proof (induction t n arbitrary: s n' rule: readStringUntil.induct)
  case (1 t n)
  obtain q m where q: "timedRead n = (q, m)" by fastforce
  show ?case
  proof (cases q)
    case None
    with q 1(2) show ?thesis using timedRead_None_pending by (auto simp: readStringUntil.simps [of t n])
  next
    case (Some c)
    have lt: "pending m < pending n" using q Some timedRead_Some_pending by simp
    show ?thesis
    proof (cases "c = t")
      case True
      with q Some 1(2) lt show ?thesis by (auto simp: readStringUntil.simps [of t n])
    next
      case False
      obtain r k where r: "readStringUntil t m = (r, k)" by fastforce
      have "pending k \<le> pending m" using 1(1) [OF q [symmetric] Some False r] by (auto split: if_splits)
      with q Some False r 1(2) lt show ?thesis by (auto simp: readStringUntil.simps [of t n])
    qed
  qed
qed

lemma readBytes_pending: "readBytes k n = (s, n') \<Longrightarrow> pending n' \<le> pending n"
proof (induction k n arbitrary: s n' rule: readBytes.induct)
  case (1 k n)
  obtain q m where q: "timedRead n = (q, m)" by fastforce
  show ?case
  proof (cases "k = 0 \<or> q = None")
    case True
    with q 1(2) show ?thesis
      using timedRead_None_pending by (auto simp: readBytes.simps [of k n] split: if_splits)
  next
    case False
    then obtain c where c: "k \<noteq> 0" "q = Some c" by auto
    obtain r l where r: "readBytes (k - 1) m = (r, l)" by fastforce
    have "pending l \<le> pending m" using 1(1) [OF c(1) q [symmetric] c(2) r] .
    with q c r 1(2) show ?thesis
      using timedRead_Some_pending [of n c m] by (auto simp: readBytes.simps [of k n])
  qed
qed

end
