(* ===== verification/Http_Client.thy ===== *)
theory Http_Client
  imports Tls_Client
begin

section \<open>The HTTP client (\<^verbatim>\<open>HTTPClient.cpp\<close>)\<close>

text \<open>
  Class \<open>HTTPClient\<close> as the application uses it: it makes its own connection, so \<open>_client\<close> is null,
  points to the object that \<open>_tcpDeprecated\<close> owns, or points to one that has been deleted. Every use of a
  deleted object is the fault \<open>BadPointer\<close>. The address of a bridge starts with \<^verbatim>\<open>https\<close>, so the
  connection is a \<open>WiFiClientSecure\<close>; a plain one is the fault \<open>Unmodelled\<close>. The variants of
  \<open>begin\<close> that take a connection, a host or certificates, and sending from a stream, are not used and are
  left out. \<open>heap\<close> is the size of the largest block the memory allocator gives; it limits the buffer of
  the body and the text it is stored in, all other texts are taken to fit. A loop that waits for a
  connection on which nothing can come any more is the fault \<open>Hang\<close>.
\<close>

subsection \<open>State\<close>

datatype pointer = Null | Own | Dangling

datatype transport = PlainTraits | TlsTraits

datatype transferEncoding = Identity | Chunked

record http =
  net :: tls_conn
  client :: pointer
  transportTraits :: "transport option"
  host :: string
  port :: nat
  connectTimeout :: int
  reuse :: bool
  tcpTimeout :: nat
  useHTTP10 :: bool
  secure :: bool
  uri :: string
  protocol :: string
  headers :: string
  userAgent :: string
  base64Authorization :: string
  currentHeaders :: "(string \<times> string) list"
  returnCode :: int
  bodySize :: int
  canReuse :: bool
  encoding :: transferEncoding
  heap :: nat

text \<open>A new client, in a world that is still to come.\<close>

definition http_new :: "nat \<Rightarrow> dialled option list \<Rightarrow> http" where
  "http_new m ds =
     \<lparr>net = \<lparr>up = False, rx = '''', polls = [], writes = [], dials = ds, clock = 0, wire = []\<rparr>,
      client = Null, transportTraits = None, host = '''', port = 0, connectTimeout = - 1, reuse = True,
      tcpTimeout = 5000, useHTTP10 = False, secure = False, uri = '''', protocol = '''', headers = '''',
      userAgent = ''ESP32HTTPClient'', base64Authorization = '''', currentHeaders = [], returnCode = 0,
      bodySize = - 1, canReuse = False, encoding = Identity, heap = m\<rparr>"

definition HTTPC_ERROR_CONNECTION_REFUSED :: int where "HTTPC_ERROR_CONNECTION_REFUSED = - 1"
definition HTTPC_ERROR_SEND_HEADER_FAILED :: int where "HTTPC_ERROR_SEND_HEADER_FAILED = - 2"
definition HTTPC_ERROR_SEND_PAYLOAD_FAILED :: int where "HTTPC_ERROR_SEND_PAYLOAD_FAILED = - 3"
definition HTTPC_ERROR_NOT_CONNECTED :: int where "HTTPC_ERROR_NOT_CONNECTED = - 4"
definition HTTPC_ERROR_CONNECTION_LOST :: int where "HTTPC_ERROR_CONNECTION_LOST = - 5"
definition HTTPC_ERROR_NO_HTTP_SERVER :: int where "HTTPC_ERROR_NO_HTTP_SERVER = - 7"
definition HTTPC_ERROR_TOO_LESS_RAM :: int where "HTTPC_ERROR_TOO_LESS_RAM = - 8"
definition HTTPC_ERROR_ENCODING :: int where "HTTPC_ERROR_ENCODING = - 9"
definition HTTPC_ERROR_STREAM_WRITE :: int where "HTTPC_ERROR_STREAM_WRITE = - 10"
definition HTTPC_ERROR_READ_TIMEOUT :: int where "HTTPC_ERROR_READ_TIMEOUT = - 11"
definition HTTP_TCP_BUFFER_SIZE :: int where "HTTP_TCP_BUFFER_SIZE = 1460"

lemmas http_errors =
  HTTPC_ERROR_CONNECTION_REFUSED_def HTTPC_ERROR_SEND_HEADER_FAILED_def HTTPC_ERROR_SEND_PAYLOAD_FAILED_def
  HTTPC_ERROR_NOT_CONNECTED_def HTTPC_ERROR_CONNECTION_LOST_def HTTPC_ERROR_NO_HTTP_SERVER_def
  HTTPC_ERROR_TOO_LESS_RAM_def HTTPC_ERROR_ENCODING_def HTTPC_ERROR_STREAM_WRITE_def
  HTTPC_ERROR_READ_TIMEOUT_def

subsection \<open>Base 64 (\<^verbatim>\<open>libb64/cencode.c\<close>)\<close>

definition base64_encode_value :: "u8 \<Rightarrow> char" where
  "base64_encode_value v =
     (if v > 63 then CHR ''=''
      else ''ABCDEFGHIJKLMNOPQRSTUVWXYZabcdefghijklmnopqrstuvwxyz0123456789+/'' ! unat v)"

datatype b64_step = StepA | StepB | StepC

fun base64_encode_block :: "b64_step \<Rightarrow> u8 \<Rightarrow> u8 list \<Rightarrow> string \<times> b64_step \<times> u8" where
  "base64_encode_block s result [] = ('''', s, result)"
| "base64_encode_block StepA result (f # fs) =
     (case base64_encode_block StepB (push_bit 4 (f AND 0x03)) fs of (code, s, r) \<Rightarrow>
        (base64_encode_value (drop_bit 2 (f AND 0xFC)) # code, s, r))"
| "base64_encode_block StepB result (f # fs) =
     (case base64_encode_block StepC (push_bit 2 (f AND 0x0F)) fs of (code, s, r) \<Rightarrow>
        (base64_encode_value (result OR drop_bit 4 (f AND 0xF0)) # code, s, r))"
| "base64_encode_block StepC result (f # fs) =
     (case base64_encode_block StepA (f AND 0x3F) fs of (code, s, r) \<Rightarrow>
        (base64_encode_value (result OR drop_bit 6 (f AND 0xC0)) # base64_encode_value (f AND 0x3F) # code, s, r))"

fun base64_encode_blockend :: "b64_step \<Rightarrow> u8 \<Rightarrow> string" where
  "base64_encode_blockend StepA result = ''''"
| "base64_encode_blockend StepB result = [base64_encode_value result, CHR ''='', CHR ''='']"
| "base64_encode_blockend StepC result = [base64_encode_value result, CHR ''='']"

definition base64_encode :: "string \<Rightarrow> string" where
  "base64_encode text =
     (case base64_encode_block StepA 0 (map of_char text) of (code, s, r) \<Rightarrow> code @ base64_encode_blockend s r)"

text \<open>The buffer of \<open>base64::encode\<close> has room for the text and its terminating NUL.\<close>

definition base64_encode_expected_len :: "nat \<Rightarrow> nat" where
  "base64_encode_expected_len n = (4 * n div 3 + 3) div 4 * 4"

lemma base64_block_end:
  "base64_encode_block s r fs = (code, s', r') \<Longrightarrow>
   length code + length (base64_encode_blockend s' r') =
     4 * ((length fs + (case s of StepA \<Rightarrow> 0 | StepB \<Rightarrow> 1 | StepC \<Rightarrow> 2) + 2) div 3) -
       (case s of StepA \<Rightarrow> 0 | StepB \<Rightarrow> 1 | StepC \<Rightarrow> 2)"
proof (induction s r fs arbitrary: code s' r' rule: base64_encode_block.induct)
  case (1 s r)
  then show ?case by (cases s) auto
next
  case (2 r f fs)
  then show ?case by (fastforce split: prod.splits)
next
  case (3 r f fs)
  then show ?case by (fastforce split: prod.splits)
next
  case (4 r f fs)
  obtain c t q where c: "base64_encode_block StepA (f AND 0x3F) fs = (c, t, q)" by (metis prod_cases3)
  have "(5 + length fs) div 3 = Suc (Suc (Suc (length fs)) div 3)" by presburger
  with 4(1) [OF c] 4(2) c show ?case by auto
qed

lemma base64_fits: "length (base64_encode s) = base64_encode_expected_len (length s)"
proof -
  obtain code t r where c: "base64_encode_block StepA 0 (map of_char s) = (code, t, r)" by (metis prod_cases3)
  have "4 * ((n + 2) div 3) = (4 * n div 3 + 3) div 4 * 4" for n :: nat
  proof -
    have "\<exists>q. n = 3 * q \<or> n = 3 * q + 1 \<or> n = 3 * q + 2" by presburger
    then obtain q where "n = 3 * q \<or> n = 3 * q + 1 \<or> n = 3 * q + 2" ..
    moreover have "(12 * q + 4) div 3 = 4 * q + 1" "(12 * q + 8) div 3 = 4 * q + 2" "(3 * q + 4) div 3 = q + 1"
        "(3 * q + 2) div 3 = q" "(4 * q + 3) div 4 = q" "(4 * q + 5) div 4 = q + 1"
      by presburger+
    ultimately show ?thesis by (elim disjE) (simp_all add: algebra_simps)
  qed
  with base64_block_end [OF c] c show ?thesis by (simp add: base64_encode_def base64_encode_expected_len_def)
qed

subsection \<open>The connection\<close>

definition http_clear :: "http \<Rightarrow> http" where
  "http_clear h = h\<lparr>returnCode := 0, bodySize := - 1, headers := ''''\<rparr>"

definition http_connected :: "http \<Rightarrow> (bool \<times> http) res" where
  "http_connected h =
     (case client h of
        Null \<Rightarrow> Inr (False, h)
      | Dangling \<Rightarrow> Inl BadPointer
      | Own \<Rightarrow>
          (case tls_available (net h) of (a, n) \<Rightarrow>
             if a > 0 then Inr (True, h\<lparr>net := n\<rparr>)
             else case tls_connected n of (c, n) \<Rightarrow> Inr (c, h\<lparr>net := n\<rparr>)))"

text \<open>The loop that throws away what can be read.\<close>

function drain :: "tls_conn \<Rightarrow> tls_conn" where
  "drain n =
     (case tls_available n of (a, n) \<Rightarrow>
        if a > 0 then (case tls_read n of (Some c, n) \<Rightarrow> drain n | (None, n) \<Rightarrow> n) else n)"
  by pat_completeness auto
termination
  by (relation "measure pending")
    (auto dest!: tls_read_Some_pending [OF sym] tls_available_pending [OF sym])

declare drain.simps [simp del]

definition http_stop :: "http \<Rightarrow> http" where
  "http_stop h = h\<lparr>net := tls_stop (net h)\<rparr>"

definition http_disconnect :: "bool \<Rightarrow> http \<Rightarrow> http res" where
  "http_disconnect preserveClient h = andThen (http_connected h) (\<lambda>(c, h). Inr (
     if c then
       (let h = h\<lparr>net := drain (net h)\<rparr>
        in if reuse h \<and> canReuse h then h
           else (http_stop h)\<lparr>client := (if preserveClient then Dangling else Null), transportTraits := None\<rparr>)
     else h))"

definition http_end :: "http \<Rightarrow> http res" where
  "http_end h = andThen (http_disconnect False h) (ok http_clear)"

text \<open>When \<open>_client\<close> is set and \<open>_tcpDeprecated\<close> is not, \<open>begin\<close> takes it for a connection of the caller.\<close>

definition mixed_up :: "http \<Rightarrow> http res" where
  "mixed_up h = whenr (client h = Dangling) (\<lambda>h. http_end (h\<lparr>canReuse := False\<rparr>)) h"

subsection \<open>The address\<close>

definition beginInternal :: "string \<Rightarrow> string \<Rightarrow> http \<Rightarrow> bool \<times> http" where
  "beginInternal url expectedProtocol h =
     (let h = http_clear h;
          index = indexOf url (CHR '':'')
      in if index < 0 then (False, h)
         else let h = h\<lparr>protocol := substring_to url 0 (as_unsigned index)\<rparr>
         in if protocol h \<noteq> expectedProtocol then (False, h)
         else
           (let url = remove_count url 0 (as_unsigned (index + 3));
                index = indexOf url (CHR ''/'');
                hst = substring_to url 0 (as_unsigned index);
                url = remove_count url 0 (as_unsigned index);
                index = indexOf hst (CHR ''@'');
                (hst, h) =
                  (if index \<ge> 0 then
                     (remove_count hst 0 (as_unsigned (index + 1)),
                      h\<lparr>base64Authorization := base64_encode (substring_to hst 0 (as_unsigned index))\<rparr>)
                   else (hst, h));
                index = indexOf hst (CHR '':'');
                h = (if index \<ge> 0 then
                       h\<lparr>host := substring_to hst 0 (as_unsigned index),
                         port := nat (toInt (remove_count hst 0 (as_unsigned (index + 1))) mod 65536)\<rparr>
                     else h\<lparr>host := hst\<rparr>)
            in (True, h\<lparr>uri := url\<rparr>)))"

definition begin_secure :: "string \<Rightarrow> http \<Rightarrow> (bool \<times> http) res" where
  "begin_secure url h = andThen (mixed_up h) (\<lambda>h. Inr (
     case beginInternal url ''https'' (h\<lparr>port := 443\<rparr>) of (b, h) \<Rightarrow>
       if b then (True, h\<lparr>secure := True, transportTraits := Some TlsTraits\<rparr>) else (False, h)))"

definition http_begin :: "string \<Rightarrow> http \<Rightarrow> (bool \<times> http) res" where
  "http_begin url h = andThen (mixed_up h) (\<lambda>h.
     case beginInternal url ''http'' (h\<lparr>port := 80\<rparr>) of (b, h) \<Rightarrow>
       if b then Inr (True, h\<lparr>transportTraits := Some PlainTraits\<rparr>) else begin_secure url h)"

subsection \<open>Settings\<close>

definition setReuse :: "bool \<Rightarrow> http \<Rightarrow> http" where
  "setReuse b h = h\<lparr>reuse := b\<rparr>"

definition setUserAgent :: "string \<Rightarrow> http \<Rightarrow> http" where
  "setUserAgent s h = h\<lparr>userAgent := s\<rparr>"

definition setAuthorization :: "string \<Rightarrow> string \<Rightarrow> http \<Rightarrow> http" where
  "setAuthorization user password h = h\<lparr>base64Authorization := base64_encode (user @ '':'' @ password)\<rparr>"

definition setAuthorization_raw :: "string \<Rightarrow> http \<Rightarrow> http" where
  "setAuthorization_raw auth h = h\<lparr>base64Authorization := auth\<rparr>"

definition setConnectTimeout :: "int \<Rightarrow> http \<Rightarrow> http" where
  "setConnectTimeout t h = h\<lparr>connectTimeout := t\<rparr>"

definition http_setTimeout :: "u16 \<Rightarrow> http \<Rightarrow> http res" where
  "http_setTimeout t h = andThen (http_connected (h\<lparr>tcpTimeout := unat t\<rparr>)) (\<lambda>(_, h). Inr h)"

definition http_useHTTP10 :: "bool \<Rightarrow> http \<Rightarrow> http" where
  "http_useHTTP10 b h = h\<lparr>useHTTP10 := b, reuse := \<not> b\<rparr>"

definition collectHeaders :: "string list \<Rightarrow> http \<Rightarrow> http" where
  "collectHeaders keys h = h\<lparr>currentHeaders := map (\<lambda>k. (k, '''')) keys\<rparr>"

definition http_header :: "string \<Rightarrow> http \<Rightarrow> string" where
  "http_header name h = (case find (\<lambda>kv. fst kv = name) (currentHeaders h) of None \<Rightarrow> '''' | Some kv \<Rightarrow> snd kv)"

definition hasHeader :: "string \<Rightarrow> http \<Rightarrow> bool" where
  "hasHeader name h \<longleftrightarrow> list_ex (\<lambda>kv. fst kv = name \<and> 0 < length (snd kv)) (currentHeaders h)"

definition header_at :: "nat \<Rightarrow> http \<Rightarrow> string" where
  "header_at i h = (if i < length (currentHeaders h) then snd (currentHeaders h ! i) else '''')"

definition headerName :: "nat \<Rightarrow> http \<Rightarrow> string" where
  "headerName i h = (if i < length (currentHeaders h) then fst (currentHeaders h ! i) else '''')"

definition getSize :: "http \<Rightarrow> int" where
  "getSize h = bodySize h"

definition errorToString :: "int \<Rightarrow> string" where
  "errorToString e =
     (if e = - 1 then ''connection refused'' else if e = - 2 then ''send header failed''
      else if e = - 3 then ''send payload failed'' else if e = - 4 then ''not connected''
      else if e = - 5 then ''connection lost'' else if e = - 6 then ''no stream''
      else if e = - 7 then ''no HTTP server'' else if e = - 8 then ''too less ram''
      else if e = - 9 then ''Transfer-Encoding not supported'' else if e = - 10 then ''Stream write error''
      else if e = - 11 then ''read Timeout'' else '''')"

definition addHeader :: "string \<Rightarrow> string \<Rightarrow> bool \<Rightarrow> bool \<Rightarrow> http \<Rightarrow> http" where
  "addHeader name value first replace h =
     (if \<not> equalsIgnoreCase name ''Connection'' \<and> \<not> equalsIgnoreCase name ''User-Agent'' \<and>
         \<not> equalsIgnoreCase name ''Host'' \<and>
         \<not> (equalsIgnoreCase name ''Authorization'' \<and> 0 < length (base64Authorization h)) then
        (let headerLine = name @ '': '';
             hs = headers h;
             headerStart = indexOf_text hs headerLine;
             hs = (if replace \<and> headerStart \<noteq> - 1 \<and>
                       (headerStart = 0 \<or> hs ! (nat headerStart - 1) = CHR 0x0A) then
                     (let headerEnd = indexOf_from hs (CHR 0x0A) (nat headerStart)
                      in substring_to hs 0 (nat headerStart) @ substring hs (as_unsigned (headerEnd + 1)))
                   else hs);
             headerLine = headerLine @ value @ [CHR 0x0D, CHR 0x0A]
         in h\<lparr>headers := (if first then headerLine @ hs else hs @ headerLine)\<rparr>)
      else h)"

subsection \<open>Sending the request\<close>

definition http_connect :: "http \<Rightarrow> (bool \<times> http) res" where
  "http_connect h = andThen (http_connected h) (\<lambda>(c, h).
     if c then Inr (True, h\<lparr>net := drain (net h)\<rparr>)
     else if client h = Null \<and> transportTraits h = Some PlainTraits then Inl Unmodelled
     else let h = (if client h = Null \<and> transportTraits h = Some TlsTraits then h\<lparr>client := Own\<rparr> else h)
     in if client h = Null then Inr (False, h)
     else case tls_connect (host h) (port h) (net h) of (b, n) \<Rightarrow>
       if \<not> b then Inr (False, h\<lparr>net := n\<rparr>) else http_connected (h\<lparr>net := n\<rparr>))"

definition crlf :: string where "crlf = [CHR 0x0D, CHR 0x0A]"

definition request_head :: "string \<Rightarrow> http \<Rightarrow> string" where
  "request_head type h =
     type @ '' '' @ uri h @ '' HTTP/1.'' @ (if useHTTP10 h then ''0'' else ''1'') @
     crlf @ ''Host: '' @ host h @
     (if port h \<noteq> 80 \<and> port h \<noteq> 443 then '':'' @ String_uint (port h) else '''') @
     crlf @ ''User-Agent: '' @ userAgent h @
     crlf @ ''Connection: '' @ (if reuse h then ''keep-alive'' else ''close'') @ crlf @
     (if \<not> useHTTP10 h then ''Accept-Encoding: identity;q=1,chunked;q=0.1,*;q=0'' @ crlf else '''') @
     (if 0 < length (base64Authorization h)
      then ''Authorization: Basic '' @ filter (\<lambda>c. c \<noteq> CHR 0x0A) (base64Authorization h) @ crlf else '''') @
     headers h @ crlf"

definition sendHeader :: "string \<Rightarrow> http \<Rightarrow> (bool \<times> http) res" where
  "sendHeader type h = andThen (http_connected h) (\<lambda>(c, h).
     if \<not> c then Inr (False, h)
     else let header = request_head type h;
              h = h\<lparr>base64Authorization := filter (\<lambda>c. c \<noteq> CHR 0x0A) (base64Authorization h)\<rparr>
     in case tls_write header (net h) of (k, n) \<Rightarrow> Inr (k = length header, h\<lparr>net := n\<rparr>))"

text \<open>What one line of the answer changes.\<close>

fun put_header :: "string \<Rightarrow> string \<Rightarrow> (string \<times> string) list \<Rightarrow> (string \<times> string) list" where
  "put_header name value [] = []"
| "put_header name value ((k, v) # kvs) =
     (if equalsIgnoreCase k name then (k, value) # kvs else (k, v) # put_header name value kvs)"

definition char_at :: "string \<Rightarrow> nat \<Rightarrow> char" where
  "char_at s i = (if i < length s then s ! i else CHR 0x00)"

definition status_line :: "string \<Rightarrow> http \<Rightarrow> http" where
  "status_line headerLine h =
     h\<lparr>canReuse := (canReuse h \<and> char_at headerLine 7 \<noteq> CHR ''0''),
       returnCode := toInt (substring_to headerLine 9 (as_unsigned (indexOf_from headerLine (CHR '' '') 9)))\<rparr>"

definition header_line :: "string \<Rightarrow> http \<times> string \<Rightarrow> http \<times> string" where
  "header_line headerLine = (\<lambda>(h, te).
     if startsWith headerLine ''HTTP/1.'' then (status_line headerLine h, te)
     else if indexOf headerLine (CHR '':'') \<noteq> 0 then
       (let headerName = substring_to headerLine 0 (as_unsigned (indexOf headerLine (CHR '':'')));
            headerValue = trim (substring headerLine (as_unsigned (indexOf headerLine (CHR '':'') + 1)));
            h = (if equalsIgnoreCase headerName ''Content-Length'' then h\<lparr>bodySize := toInt headerValue\<rparr> else h);
            h = (if canReuse h \<and> equalsIgnoreCase headerName ''Connection'' \<and>
                    indexOf_text headerValue ''close'' \<ge> 0 \<and> indexOf_text headerValue ''keep-alive'' < 0
                 then h\<lparr>canReuse := False\<rparr> else h);
            te = (if equalsIgnoreCase headerName ''Transfer-Encoding'' then headerValue else te)
        in (h\<lparr>currentHeaders := put_header headerName headerValue (currentHeaders h)\<rparr>, te))
     else (h, te))"

subsection \<open>Waiting for the answer\<close>

text \<open>
  The end of the head: the encoding is settled and the code is returned. In the loop a turn without
  data ends with a delay of ten milliseconds; when nothing can come any more the turns go on until the
  time limit has passed.
\<close>

definition head_done :: "string \<Rightarrow> http \<Rightarrow> int \<times> http" where
  "head_done te h =
     (if 0 < length te \<and> \<not> equalsIgnoreCase te ''chunked'' then (HTTPC_ERROR_ENCODING, h)
      else (if returnCode h \<noteq> 0 then returnCode h else HTTPC_ERROR_NO_HTTP_SERVER,
            h\<lparr>encoding := (if 0 < length te then Chunked else Identity)\<rparr>))"

definition http_delay :: "nat \<Rightarrow> http \<Rightarrow> http" where
  "http_delay ms h = h\<lparr>net := (net h)\<lparr>clock := clock (net h) + ms\<rparr>\<rparr>"

lemma tls_available_zero:
  assumes "tls_available n = (a, n')" "a = 0" "up n'" "polls n' \<noteq> []"
  shows "pending n' < pending n"
  using assms
  by (auto simp: tls_available_def data_to_read_def tls_stop_def pending_def split: if_splits list.splits poll.splits)

lemma tls_available_neg:
  "tls_available n = (a, n') \<Longrightarrow> a < 0 \<Longrightarrow> pending n' < pending n"
  by (auto simp: tls_available_def data_to_read_def tls_stop_def pending_def split: if_splits list.splits poll.splits)

lemma http_connected_pending: "http_connected h = Inr (c, h') \<Longrightarrow> pending (net h') \<le> pending (net h)"
  unfolding http_connected_def tls_connected_def
  by (auto split: pointer.splits prod.splits if_splits dest!: tls_available_pending)

lemma http_connected_up: "http_connected h = Inr (True, h') \<Longrightarrow> up (net h') \<and> client h' = Own"
  unfolding http_connected_def tls_connected_def
  by (auto split: pointer.splits prod.splits if_splits dest!: tls_available_pos)

lemma available_quiet_up:
  "tls_available n = (0, n') \<Longrightarrow> up n \<Longrightarrow> up n'"
  by (auto simp: tls_available_def split: prod.splits if_splits)
    (auto simp: data_to_read_def split: if_splits list.splits poll.splits)

lemma clock_pending [simp]: "pending (n\<lparr>clock := t\<rparr>) = pending n"
  by (simp add: pending_def)

lemma trim_Nil [simp]: "trim '''' = ''''"
  by (simp add: trim_def)

lemma net_line [simp]: "net (fst (header_line s (h, te))) = net h"
  by (simp add: header_line_def status_line_def Let_def)

lemma net_http_delay [simp]: "net (http_delay ms h) = (net h)\<lparr>clock := clock (net h) + ms\<rparr>"
  by (simp add: http_delay_def)

lemma line_read_shrinks:
  assumes "http_connected h = Inr (True, h1)" "tls_available (net h1) = (a, n)"
    "readStringUntil t n = (line, n')" "trim line \<noteq> ''''"
  shows "pending n' < pending (net h)"
proof -
  have "line \<noteq> ''''" using assms(4) by auto
  then have "pending n' < pending n" using readStringUntil_pending [OF assms(3)] by simp
  also have "pending n \<le> pending (net h1)" using assms(2) by (rule tls_available_pending)
  also have "\<dots> \<le> pending (net h)" using assms(1) by (rule http_connected_pending)
  finally show ?thesis .
qed

lemma quiet_turn_shrinks:
  assumes "http_connected h = Inr (True, h1)" "tls_available (net h1) = (0, n)" "polls n \<noteq> []"
  shows "pending n < pending (net h)"
proof -
  have "up n" using http_connected_up [OF assms(1)] assms(2) available_quiet_up by blast
  then have "pending n < pending (net h1)" using assms(2,3) tls_available_zero by blast
  also have "\<dots> \<le> pending (net h)" using assms(1) by (rule http_connected_pending)
  finally show ?thesis .
qed

function header_loop :: "nat \<Rightarrow> string \<Rightarrow> http \<Rightarrow> (int \<times> http) res" where
  "header_loop lastDataTime te h =
     (case http_connected h of
        Inl e \<Rightarrow> Inl e
      | Inr (c, h) \<Rightarrow>
          if \<not> c then Inr (HTTPC_ERROR_CONNECTION_LOST, h)
          else (case tls_available (net h) of (len, n) \<Rightarrow>
            if len \<noteq> 0 then
              (case readStringUntil (CHR 0x0A) n of (line, n) \<Rightarrow>
                 if trim line = '''' then
                   (case header_line (trim line) (h\<lparr>net := n\<rparr>, te) of (h, te) \<Rightarrow> Inr (head_done te h))
                 else header_loop (clock n) (snd (header_line (trim line) (h\<lparr>net := n\<rparr>, te)))
                        (fst (header_line (trim line) (h\<lparr>net := n\<rparr>, te))))
            else if clock n - lastDataTime > tcpTimeout h then Inr (HTTPC_ERROR_READ_TIMEOUT, h\<lparr>net := n\<rparr>)
            else if polls n = [] then
              Inr (HTTPC_ERROR_READ_TIMEOUT,
                   http_delay (10 * ((lastDataTime + tcpTimeout h - clock n) div 10 + 1)) (h\<lparr>net := n\<rparr>))
            else header_loop lastDataTime te (http_delay 10 (h\<lparr>net := n\<rparr>))))"
  by pat_completeness auto
termination
  by (relation "measure (\<lambda>(last, te, h). pending (net h))")
    (auto intro: line_read_shrinks quiet_turn_shrinks simp: eq_commute [of "(_, _)"])

declare header_loop.simps [simp del]

definition handleHeaderResponse :: "http \<Rightarrow> (int \<times> http) res" where
  "handleHeaderResponse h = andThen (http_connected h) (\<lambda>(c, h).
     if \<not> c then Inr (HTTPC_ERROR_NOT_CONNECTED, h)
     else let h = http_clear h;
              h = h\<lparr>canReuse := reuse h, encoding := Identity\<rparr>
     in header_loop (clock (net h)) '''' h)"

definition returnError :: "int \<Rightarrow> http \<Rightarrow> (int \<times> http) res" where
  "returnError e h =
     (if e < 0 then andThen (http_connected h) (\<lambda>(c, h). Inr (e, if c then http_stop h else h))
      else Inr (e, h))"

text \<open>A request; without a payload (GET) or with an empty one no body is sent.\<close>

definition sendRequest :: "string \<Rightarrow> string \<Rightarrow> http \<Rightarrow> (int \<times> http) res" where
  "sendRequest type payload h = andThen (http_connect h) (\<lambda>(c, h).
     if \<not> c then returnError HTTPC_ERROR_CONNECTION_REFUSED h
     else let h = (if 0 < length payload
                   then addHeader ''Content-Length'' (String_uint (length payload)) False True h else h)
     in andThen (sendHeader type h) (\<lambda>(s, h).
       if \<not> s then returnError HTTPC_ERROR_SEND_HEADER_FAILED h
       else case (if 0 < length payload then tls_write payload (net h) else (0, net h)) of (k, n) \<Rightarrow>
         if k \<noteq> length payload then returnError HTTPC_ERROR_SEND_PAYLOAD_FAILED (h\<lparr>net := n\<rparr>)
         else andThen (handleHeaderResponse (h\<lparr>net := n\<rparr>)) (\<lambda>(code, h). returnError code h)))"

definition http_GET :: "http \<Rightarrow> (int \<times> http) res" where "http_GET = sendRequest ''GET'' ''''"
definition http_POST :: "string \<Rightarrow> http \<Rightarrow> (int \<times> http) res" where "http_POST = sendRequest ''POST''"
definition http_PUT :: "string \<Rightarrow> http \<Rightarrow> (int \<times> http) res" where "http_PUT = sendRequest ''PUT''"
definition http_PATCH :: "string \<Rightarrow> http \<Rightarrow> (int \<times> http) res" where "http_PATCH = sendRequest ''PATCH''"

lemma readBytes_first:
  assumes "readBytes k n = (s, n')" "0 < k" "up n" "rx n \<noteq> ''''"
  shows "pending n' < pending n"
proof -
  obtain q m where q: "timedRead n = (q, m)" by fastforce
  have "q \<noteq> None"
    using q assms(3,4)
    by (auto simp: timedRead_def timedRead_loop.simps [of _ n] tls_read_def tls_available_def data_to_read_def)
  then obtain c where c: "q = Some c" by auto
  then have "pending m < pending n" using q timedRead_Some_pending by simp
  moreover have "pending n' \<le> pending m"
    using assms(1,2) q c readBytes_pending by (auto simp: readBytes.simps [of k n] split: prod.splits)
  ultimately show ?thesis by simp
qed

text \<open>An \<open>int\<close> where a \<open>size_t\<close> is expected.\<close>

definition as_size :: "int \<Rightarrow> nat" where
  "as_size i = (if i < 0 then nat (i + 4294967296) else nat i)"

lemma as_size_of_nat [simp]: "as_size (int n) = n"
  by (simp add: as_size_def)

lemma block_read_shrinks:
  assumes "http_connected h = Inr (True, h1)" "tls_available (net h1) = (a, n)" "a \<noteq> 0"
    "readBytes (as_size k) n = (buf, n')" "0 < a \<Longrightarrow> 0 < k"
  shows "pending n' < pending (net h)"
proof -
  have le: "pending (net h1) \<le> pending (net h)" using assms(1) by (rule http_connected_pending)
  show ?thesis
  proof (cases "0 < a")
    case True
    then have "0 < as_size k" using assms(5) by (simp add: as_size_def)
    then have "pending n' < pending n"
      using readBytes_first [OF assms(4)] tls_available_pos [OF assms(2) True] by simp
    then show ?thesis using tls_available_pending [OF assms(2)] le by simp
  next
    case False
    then show ?thesis
      using tls_available_neg [OF assms(2)] assms(3) readBytes_pending [OF assms(4)] le by simp
  qed
qed

subsection \<open>Storing the body (\<^verbatim>\<open>StreamString.cpp\<close>)\<close>

text \<open>
  \<open>changeBuffer\<close>: up to nine characters fit in the object itself; a longer text needs a block whose size
  is a multiple of sixteen and fits the sixteen bits of \<open>cap\<close>. A block of size zero is never given. A
  text that has room for \<open>size\<close> characters got it from a call for at least as many, so \<open>reserve\<close> succeeds
  exactly when \<open>changeBuffer\<close> would.
\<close>

definition changeBuffer :: "nat \<Rightarrow> nat \<Rightarrow> bool" where
  "changeBuffer m maxStrLen =
     (if maxStrLen < 10 then True
      else let newSize = (maxStrLen + 16) mod 2 ^ 32 div 16 * 16
           in 0 < newSize \<and> newSize \<le> 65535 \<and> newSize \<le> m)"

definition stream_write :: "nat \<Rightarrow> string \<Rightarrow> string \<Rightarrow> int \<times> string" where
  "stream_write m buf text =
     (if buf \<noteq> '''' \<and> changeBuffer m (length text + length buf + 1) then (int (length buf), text @ buf)
      else (0, text))"

subsection \<open>Reading the body\<close>

text \<open>
  The loop of \<open>writeToStreamDataBlock\<close> ends because the connection is closed or the block complete
  (\<open>None\<close>), or with an error. It has no time limit: a turn without data is repeated for ever. An
  \<open>available\<close> that fails gives a huge number of bytes to read, of which none comes.
\<close>

function block_loop ::
  "nat \<Rightarrow> int \<Rightarrow> int \<Rightarrow> string \<Rightarrow> http \<Rightarrow> (int option \<times> int \<times> string \<times> http) res" where
  "block_loop buff_size len bytesWritten text h =
     (case http_connected h of
        Inl e \<Rightarrow> Inl e
      | Inr (c, h) \<Rightarrow>
          if \<not> (c \<and> (len > 0 \<or> len = - 1)) then Inr (None, bytesWritten, text, h)
          else (case tls_available (net h) of (sizeAvailable, n) \<Rightarrow>
            if sizeAvailable \<noteq> 0 then
              (let toRead = min (if len > 0 \<and> sizeAvailable > len then len else sizeAvailable) (int buff_size)
               in if toRead = 0 then Inr (None, bytesWritten, text, h\<lparr>net := n\<rparr>)
               else (case readBytes (as_size toRead) n of (buff, n) \<Rightarrow>
                 (case stream_write (heap h) buff text of (bytesWrite, text) \<Rightarrow>
                   if bytesWrite \<noteq> int (length buff) then
                     (let leftBytes = toRead - bytesWrite
                      in case stream_write (heap h) (take (nat leftBytes) (drop (nat bytesWrite) buff)) text of
                           (again, text) \<Rightarrow>
                             if again \<noteq> leftBytes then
                               Inr (Some HTTPC_ERROR_STREAM_WRITE, bytesWritten + bytesWrite + again, text,
                                    http_delay 1 (h\<lparr>net := n\<rparr>))
                             else block_loop buff_size (if len > 0 then len - toRead else len)
                                    (bytesWritten + bytesWrite + again) text (http_delay 1 (h\<lparr>net := n\<rparr>)))
                   else block_loop buff_size (if len > 0 then len - toRead else len)
                          (bytesWritten + bytesWrite) text (h\<lparr>net := n\<rparr>))))
            else if polls n = [] then Inl Hang
            else block_loop buff_size len bytesWritten text (http_delay 1 (h\<lparr>net := n\<rparr>))))"
  by pat_completeness auto
termination
  by (relation "measure (\<lambda>(b, l, w, t, h). pending (net h))";
      (simp only: in_measure case_prod_conv net_http_delay clock_pending)?; simp add: eq_commute [of "(_, _)"];
      (erule (2) quiet_turn_shrinks | (erule (3) block_read_shrinks, simp add: min_def split: if_splits)))

declare block_loop.simps [simp del]

definition writeToStreamDataBlock :: "int \<Rightarrow> string \<Rightarrow> http \<Rightarrow> (int \<times> string \<times> http) res" where
  "writeToStreamDataBlock announced text h =
     (let buff_size = (if announced > 0 \<and> announced < HTTP_TCP_BUFFER_SIZE then announced else HTTP_TCP_BUFFER_SIZE)
      in if buff_size > int (heap h) then Inr (HTTPC_ERROR_TOO_LESS_RAM, text, h)
         else andThen (block_loop (nat buff_size) announced 0 text h) (\<lambda>(err, bytesWritten, text, h). Inr (
           (case err of
              Some e \<Rightarrow> e
            | None \<Rightarrow> if announced > 0 \<and> announced \<noteq> bytesWritten then HTTPC_ERROR_STREAM_WRITE else bytesWritten),
           text, h)))"

definition chunk_error :: "int \<Rightarrow> string \<Rightarrow> http \<Rightarrow> (int \<times> string \<times> http) res" where
  "chunk_error e text h = andThen (returnError e h) (\<lambda>(e, h). Inr (e, text, h))"

lemma block_loop_pending:
  "block_loop b len w t h = Inr (e, w', t', h') \<Longrightarrow> pending (net h') \<le> pending (net h)"
proof (induction b len w t h rule: block_loop.induct)
  case (1 b len w t h)
  note IH1 = 1(1) and IH2 = 1(2) and IH3 = 1(3) and fin = 1(4)
  show ?case
  proof (cases "http_connected h")
    case (Inl f)
    with fin show ?thesis by (simp add: block_loop.simps [of b len w t h])
  next
    case (Inr p)
    obtain c h1 where p: "http_connected h = Inr (c, h1)" using Inr by (cases p) auto
    note le = http_connected_pending [OF p]
    obtain a n where a: "tls_available (net h1) = (a, n)" by fastforce
    note le2 = tls_available_pending [OF a]
    show ?thesis
    proof (cases "c \<and> (len > 0 \<or> len = - 1)")
      case False
      with fin p le show ?thesis by (auto simp: block_loop.simps [of b len w t h])
    next
      case c: True
      show ?thesis
      proof (cases "a = 0")
        case True
        with IH3 [OF p refl _ a [symmetric]] fin p c a le le2 show ?thesis
          by (auto simp: block_loop.simps [of b len w t h] split: if_splits)
      next
        case a0: False
        define k where "k = min (if len > 0 \<and> a > len then len else a) (int b)"
        obtain buf m where r: "readBytes (as_size k) n = (buf, m)" by fastforce
        obtain bw t1 where s: "stream_write (heap h1) buf t = (bw, t1)" by fastforce
        obtain bw2 t2 where s2: "stream_write (heap h1) (take (nat (k - bw)) (drop (nat bw) buf)) t1 = (bw2, t2)"
          by fastforce
        note le3 = readBytes_pending [OF r]
        have e: "block_loop b len w t h =
            (if k = 0 then Inr (None, w, t, h1\<lparr>net := n\<rparr>)
             else if bw \<noteq> int (length buf) then
               (if bw2 \<noteq> k - bw then Inr (Some HTTPC_ERROR_STREAM_WRITE, w + bw + bw2, t2, http_delay 1 (h1\<lparr>net := m\<rparr>))
                else block_loop b (if len > 0 then len - k else len) (w + bw + bw2) t2 (http_delay 1 (h1\<lparr>net := m\<rparr>)))
             else block_loop b (if len > 0 then len - k else len) (w + bw) t1 (h1\<lparr>net := m\<rparr>))"
          using p c a a0 r s s2
          by (simp add: block_loop.simps [of b len w t h] k_def [symmetric] Let_def)
        consider "k = 0" | "k \<noteq> 0" "bw \<noteq> int (length buf)" "bw2 \<noteq> k - bw"
          | "k \<noteq> 0" "bw \<noteq> int (length buf)" "bw2 = k - bw" | "k \<noteq> 0" "bw = int (length buf)"
          by blast
        then show ?thesis
        proof cases
          case 1
          with e fin le le2 show ?thesis by auto
        next
          case 2
          with e fin le le2 le3 show ?thesis by auto
        next
          case 3
          with IH1 [OF p refl _ a [symmetric] a0 k_def _ r [symmetric] s [symmetric] _ refl s2 [symmetric]] c e fin le le2 le3
          show ?thesis by auto
        next
          case 4
          with IH2 [OF p refl _ a [symmetric] a0 k_def _ r [symmetric] s [symmetric]] c e fin le le2 le3
          show ?thesis by auto
        qed
      qed
    qed
  qed
qed

lemma writeToStreamDataBlock_pending:
  "writeToStreamDataBlock announced t h = Inr (r, t', h') \<Longrightarrow> pending (net h') \<le> pending (net h)"
  unfolding writeToStreamDataBlock_def andThen_eq_Inr
  by (auto simp: Let_def andThen_eq_Inr split: if_splits dest: block_loop_pending)

lemma chunk_shrinks:
  assumes "http_connected h = Inr (c, h1)" "readStringUntil t (net h1) = (line, n)" "line \<noteq> ''''"
    "writeToStreamDataBlock len text (h1\<lparr>net := n\<rparr>) = Inr (r, text', h2)"
    "readBytes k (net h2) = (buf, n')"
  shows "pending n' < pending (net h)"
  using http_connected_pending [OF assms(1)] readStringUntil_pending [OF assms(2)] assms(3)
    writeToStreamDataBlock_pending [OF assms(4)] readBytes_pending [OF assms(5)]
  by simp

text \<open>The loop over the chunks; \<open>announced\<close> and \<open>ret\<close> count the bytes announced and stored so far.\<close>

function chunk_loop :: "int \<Rightarrow> int \<Rightarrow> string \<Rightarrow> http \<Rightarrow> (int \<times> string \<times> http) res" where
  "chunk_loop announced ret text h =
     (case http_connected h of
        Inl e \<Rightarrow> Inl e
      | Inr (c, h) \<Rightarrow>
          if \<not> c then chunk_error HTTPC_ERROR_CONNECTION_LOST text h
          else (case readStringUntil (CHR 0x0A) (net h) of (chunkHeader, n) \<Rightarrow>
            if chunkHeader = '''' then chunk_error HTTPC_ERROR_READ_TIMEOUT text (h\<lparr>net := n\<rparr>)
            else let len = strtol (c_part (trim chunkHeader)) 16
              in if len > 0 then
                   (case writeToStreamDataBlock len text (h\<lparr>net := n\<rparr>) of
                      Inl e \<Rightarrow> Inl e
                    | Inr (r, text, h) \<Rightarrow>
                        if r < 0 then chunk_error r text h
                        else (case readBytes 2 (net h) of (buf, n) \<Rightarrow>
                          if buf \<noteq> crlf then chunk_error HTTPC_ERROR_READ_TIMEOUT text (h\<lparr>net := n\<rparr>)
                          else chunk_loop (announced + len) (ret + r) text (h\<lparr>net := n\<rparr>)))
                 else
                   (let h = h\<lparr>net := n, bodySize := (if bodySize h \<le> 0 then announced + len else bodySize h)\<rparr>
                    in if ret \<noteq> bodySize h then chunk_error HTTPC_ERROR_STREAM_WRITE text h
                       else andThen (http_disconnect True h) (\<lambda>h. Inr (ret, text, h)))))"
  by pat_completeness auto
termination
  by (relation "measure (\<lambda>(s, r, t, h). pending (net h))")
    (auto intro: chunk_shrinks simp: eq_commute [of "(_, _)"])

declare chunk_loop.simps [simp del]

definition writeToStream :: "string \<Rightarrow> http \<Rightarrow> (int \<times> string \<times> http) res" where
  "writeToStream text h = andThen (http_connected h) (\<lambda>(c, h).
     if \<not> c then chunk_error HTTPC_ERROR_NOT_CONNECTED text h
     else case encoding h of
       Identity \<Rightarrow> andThen (writeToStreamDataBlock (bodySize h) text h) (\<lambda>(ret, text, h).
         if ret < 0 then chunk_error ret text h
         else andThen (http_disconnect True h) (\<lambda>h. Inr (ret, text, h)))
     | Chunked \<Rightarrow> chunk_loop 0 0 text h)"

definition getString :: "http \<Rightarrow> (string \<times> http) res" where
  "getString h =
     (if bodySize h \<noteq> 0 \<and> \<not> changeBuffer (heap h) (as_unsigned (bodySize h + 1)) then Inr ('''', h)
      else andThen (writeToStream '''' h) (\<lambda>(ret, text, h). Inr (text, h)))"

end
