(* ===== verification/Http_Reading.thy ===== *)
theory Http_Reading
  imports Http_Client
begin

section \<open>Reading what a connection brings\<close>

text \<open>
  A connection brings a text when its records, cut in any way, add up to it, no second passes without a
  byte, and no error comes before its end. Then the reading operations give the text in order, whatever
  the cuts are and whatever comes behind it.
\<close>

subsection \<open>Scripts\<close>

fun bytes :: "poll list \<Rightarrow> string" where
  "bytes [] = ''''"
| "bytes (Record ms r # ps) = r @ bytes ps"
| "bytes (p # ps) = bytes ps"

text \<open>
  \<open>prompt t ps\<close>: with \<open>t\<close> milliseconds gone since the last byte, each further byte comes within a second.
  A turn of the loops without data costs up to ten milliseconds more, which are counted with each look.
\<close>

fun prompt :: "nat \<Rightarrow> poll list \<Rightarrow> bool" where
  "prompt t [] \<longleftrightarrow> True"
| "prompt t (Quiet ms # ps) \<longleftrightarrow> t + ms + 10 < stream_timeout \<and> prompt (t + ms + 10) ps"
| "prompt t (Record ms r # ps) \<longleftrightarrow>
     t + ms + 10 < stream_timeout \<and> prompt (if r = '''' then t + ms + 10 else 0) ps"
| "prompt t (Lost ms # ps) \<longleftrightarrow> False"

fun brings_last :: "poll list \<Rightarrow> bool" where
  "brings_last [] \<longleftrightarrow> True"
| "brings_last [p] \<longleftrightarrow> bytes [p] \<noteq> ''''"
| "brings_last (p # ps) \<longleftrightarrow> brings_last ps"

text \<open>The script of an answer: prompt, and its last look finds the last bytes.\<close>

definition answer_script :: "poll list \<Rightarrow> bool" where
  "answer_script ps \<longleftrightarrow> prompt 0 ps \<and> brings_last ps"

lemma prompt_earlier: "prompt t ps \<Longrightarrow> u \<le> t \<Longrightarrow> prompt u ps"
  by (induction t ps arbitrary: u rule: prompt.induct) (auto split: if_splits)

lemma brings_last_tl: "brings_last (p # ps) \<Longrightarrow> brings_last ps"
  by (cases ps) auto

lemma brings_last_bytes: "brings_last ps \<Longrightarrow> ps \<noteq> [] \<Longrightarrow> bytes ps \<noteq> ''''"
proof (induction ps rule: brings_last.induct)
  case (3 p q ps)
  then show ?case by (cases p) auto
qed auto

subsection \<open>What a connection brings\<close>

definition brings_by :: "nat \<Rightarrow> tls_conn \<Rightarrow> string \<Rightarrow> poll list \<Rightarrow> bool" where
  "brings_by since n s qs \<longleftrightarrow> up n \<and>
     (\<exists>ps t. polls n = ps @ qs \<and> rx n @ bytes ps = s \<and> prompt t ps \<and> brings_last ps \<and>
       (rx n = '''' \<longrightarrow> clock n \<le> since + t))"

definition brings :: "tls_conn \<Rightarrow> string \<Rightarrow> poll list \<Rightarrow> bool" where
  "brings n s qs \<longleftrightarrow> brings_by (clock n) n s qs"

definition same_out :: "tls_conn \<Rightarrow> tls_conn \<Rightarrow> bool" where
  "same_out n n' \<longleftrightarrow> wire n' = wire n \<and> dials n' = dials n \<and> writes n' = writes n"

lemma same_out_refl [simp]: "same_out n n"
  by (simp add: same_out_def)

lemma same_out_trans [trans]: "same_out a b \<Longrightarrow> same_out b c \<Longrightarrow> same_out a c"
  by (simp add: same_out_def)

lemma same_out_simps [simp]:
  "same_out n (n'\<lparr>clock := t\<rparr>) = same_out n n'" "same_out n (n'\<lparr>rx := r\<rparr>) = same_out n n'"
  "same_out n (n'\<lparr>polls := ps\<rparr>) = same_out n n'"
  by (simp_all add: same_out_def)

lemma brings_now: "brings_by since n s qs \<Longrightarrow> brings n s qs"
  unfolding brings_def brings_by_def by (metis prompt_earlier le0 add.right_neutral order_refl)

lemma brings_clock [simp]: "brings (n\<lparr>clock := c\<rparr>) s qs = brings n s qs"
  by (simp add: brings_def brings_by_def)

lemma brings_up: "brings n s qs \<Longrightarrow> up n"
  by (simp add: brings_def brings_by_def)

lemma brings_Nil: "brings n '''' qs \<longleftrightarrow> up n \<and> rx n = '''' \<and> polls n = qs"
  unfolding brings_def brings_by_def using brings_last_bytes by fastforce

text \<open>One look at a connection that still brings something.\<close>

lemma available_brings:
  assumes "brings_by since n s qs" "s \<noteq> ''''" "tls_available n = (a, n')"
  shows "brings_by since n' s qs \<and> same_out n n' \<and>
    (a = int (length (rx n')) \<and> rx n' \<noteq> '''' \<or>
     a = 0 \<and> rx n' = '''' \<and> polls n' \<noteq> [] \<and> clock n' < since + stream_timeout \<and>
       (\<forall>k \<le> 10. brings_by since (n'\<lparr>clock := clock n' + k\<rparr>) s qs))"
proof (cases "rx n = ''''")
  case False
  then show ?thesis using assms by (auto simp: tls_available_def data_to_read_def brings_by_def)
next
  case True
  obtain ps t where n: "up n" "polls n = ps @ qs" "bytes ps = s" "prompt t ps" "brings_last ps"
    "clock n \<le> since + t"
    using assms(1) True by (auto simp: brings_by_def)
  then obtain p ps' where ps: "ps = p # ps'" using assms(2) by (cases ps) auto
  note last = brings_last_tl [OF n(5) [unfolded ps]]
  have more: "bytes ps' \<noteq> '''' \<Longrightarrow> ps' @ qs \<noteq> []" by (cases ps') auto
  show ?thesis
  proof (cases p)
    case (Quiet ms)
    have e: "a = 0" "n' = n\<lparr>clock := clock n + ms, polls := ps' @ qs\<rparr>"
      using assms(3) n(1,2) True ps Quiet by (simp_all add: tls_available_def data_to_read_def)
    have b: "brings_by since (n'\<lparr>clock := clock n' + k\<rparr>) s qs" if "k \<le> 10" for k
      unfolding brings_by_def using n ps Quiet e True that last
      by (auto intro!: exI [of _ ps'] exI [of _ "t + ms + 10"])
    from b [of 0] have "brings_by since n' s qs" by simp
    then show ?thesis
      using b e n ps Quiet True assms(2) more by (auto simp: same_out_def)
  next
    case (Record ms r)
    have e: "a = int (length r)" "n' = n\<lparr>clock := clock n + ms, polls := ps' @ qs, rx := r\<rparr>"
      using assms(3) n(1,2) True ps Record by (simp_all add: tls_available_def data_to_read_def)
    show ?thesis
    proof (cases "r = ''''")
      case True
      have b: "brings_by since (n'\<lparr>clock := clock n' + k\<rparr>) s qs" if "k \<le> 10" for k
        unfolding brings_by_def using n ps Record e True that last
        by (auto intro!: exI [of _ ps'] exI [of _ "t + ms + 10"])
      from b [of 0] have "brings_by since n' s qs" by simp
      then show ?thesis
        using b e n ps Record True assms(2) more by (auto simp: same_out_def)
    next
      case False
      have "brings_by since n' s qs"
        unfolding brings_by_def using n ps Record e False last by (auto intro!: exI [of _ ps'] exI [of _ 0])
      then show ?thesis using e False by (auto simp: same_out_def)
    qed
  next
    case (Lost ms)
    then show ?thesis using n(4) ps by simp
  qed
qed

subsection \<open>Characters, lines and blocks\<close>

lemma read_brings:
  assumes "brings_by since n (c # s) qs" "tls_read n = (r, n')"
  shows "same_out n n' \<and>
    (r = Some c \<and> brings n' s qs \<or>
     r = None \<and> brings_by since n' (c # s) qs \<and> up n' \<and> polls n' \<noteq> [] \<and> clock n' < since + stream_timeout)"
proof -
  obtain a m where a: "tls_available n = (a, m)" by fastforce
  note * = available_brings [OF assms(1) _ a]
  from * consider "a = int (length (rx m))" "rx m \<noteq> ''''" "brings_by since m (c # s) qs"
    | "a = 0" "rx m = ''''" "brings_by since m (c # s) qs" "polls m \<noteq> []" "clock m < since + stream_timeout"
    by blast
  then show ?thesis
  proof cases
    case 1
    then obtain ds where ds: "rx m = c # ds" by (auto simp: brings_by_def neq_Nil_conv)
    have "brings (m\<lparr>rx := ds\<rparr>) s qs"
      using 1(3) ds unfolding brings_def brings_by_def by (auto intro: prompt_earlier)
    with 1 * assms(2) a ds show ?thesis by (auto simp: tls_read_def)
  next
    case 2
    with * assms(2) a show ?thesis by (auto simp: tls_read_def brings_by_def)
  qed
qed

lemma timedRead_loop_brings:
  "brings_by since n (c # s) qs \<Longrightarrow>
   \<exists>n'. timedRead_loop since n = (Some c, n') \<and> brings n' s qs \<and> same_out n n'"
proof (induction since n rule: timedRead_loop.induct)
  case (1 since n)
  obtain r m where r: "tls_read n = (r, m)" by fastforce
  note * = read_brings [OF 1(2) r]
  show ?case
  proof (cases r)
    case (Some d)
    with * r show ?thesis by (auto simp: timedRead_loop.simps [of since n])
  next
    case None
    then have m: "brings_by since m (c # s) qs" "up m" "polls m \<noteq> []" "clock m - since < stream_timeout" "same_out n m"
      using * by (auto simp: stream_timeout_def)
    from 1(1) [OF r [symmetric] None m(4)] m obtain n' where
      "timedRead_loop since m = (Some c, n')" "brings n' s qs" "same_out m n'" by auto
    with r None m show ?thesis by (auto simp: timedRead_loop.simps [of since n] intro: same_out_trans)
  qed
qed

lemma timedRead_brings:
  "brings n (c # s) qs \<Longrightarrow> \<exists>n'. timedRead n = (Some c, n') \<and> brings n' s qs \<and> same_out n n'"
  unfolding timedRead_def by (rule timedRead_loop_brings) (simp add: brings_def)

lemma readStringUntil_brings:
  "brings n (line @ c # s) qs \<Longrightarrow> c \<notin> set line \<Longrightarrow>
   \<exists>n'. readStringUntil c n = (line, n') \<and> brings n' s qs \<and> same_out n n'"
proof (induction line arbitrary: n)
  case Nil
  then show ?case
    using timedRead_brings [of n c s qs] by (auto simp: readStringUntil.simps [of c n])
next
  case (Cons d ds)
  then obtain m where m: "timedRead n = (Some d, m)" "brings m (ds @ c # s) qs" "same_out n m"
    using timedRead_brings [of n d "ds @ c # s" qs] by auto
  with Cons.IH [of m] Cons.prems(2) show ?case
    by (auto simp: readStringUntil.simps [of c n] intro: same_out_trans)
qed

lemma readBytes_brings:
  "brings n (buf @ s) qs \<Longrightarrow> k = length buf \<Longrightarrow>
   \<exists>n'. readBytes k n = (buf, n') \<and> brings n' s qs \<and> same_out n n'"
proof (induction buf arbitrary: n k)
  case Nil
  then show ?case by (simp add: readBytes.simps [of 0 n])
next
  case (Cons d ds)
  then obtain m where m: "timedRead n = (Some d, m)" "brings m (ds @ s) qs" "same_out n m"
    using timedRead_brings [of n d "ds @ s" qs] by auto
  with Cons.IH [of m "length ds"] Cons.prems(2) show ?case
    by (auto simp: readBytes.simps [of "Suc (length ds)" n] intro: same_out_trans)
qed

subsection \<open>The client's own looks\<close>

lemma connected_brings:
  assumes "client h = Own" "brings_by since (net h) s qs" "s \<noteq> ''''"
  shows "\<exists>n. http_connected h = Inr (True, h\<lparr>net := n\<rparr>) \<and> brings_by since n s qs \<and> same_out (net h) n"
proof -
  obtain a m where a: "tls_available (net h) = (a, m)" by fastforce
  obtain b k where b: "tls_available m = (b, k)" by fastforce
  note m = available_brings [OF assms(2,3) a]
  note k = available_brings [OF conjunct1 [OF m] assms(3) b]
  show ?thesis
  proof (cases "a > 0")
    case True
    with m a assms(1) show ?thesis by (auto simp: http_connected_def)
  next
    case False
    with m k a b assms(1) show ?thesis
      by (auto simp: http_connected_def tls_connected_def brings_by_def intro: same_out_trans)
  qed
qed

text \<open>A look at a connection that has nothing to say.\<close>

definition looks :: "nat \<Rightarrow> tls_conn \<Rightarrow> poll list \<Rightarrow> bool" where
  "looks k n qs \<longleftrightarrow> up n \<and> rx n = '''' \<and> (\<exists>ts. length ts = k \<and> polls n = map Quiet ts @ qs)"

lemma looks_0: "looks 0 n qs \<longleftrightarrow> brings n '''' qs"
  by (auto simp: looks_def brings_Nil)

lemma available_looks:
  assumes "looks (Suc k) n qs" "tls_available n = (a, n')"
  shows "a = 0 \<and> looks k n' qs \<and> same_out n n'"
proof -
  obtain ts where "up n" "rx n = ''''" "length ts = Suc k" "polls n = map Quiet ts @ qs"
    using assms(1) by (auto simp: looks_def)
  then show ?thesis
    using assms(2) by (cases ts) (auto simp: tls_available_def data_to_read_def looks_def same_out_def)
qed

lemma connected_looks:
  assumes "client h = Own" "looks (Suc (Suc k)) (net h) qs"
  shows "\<exists>n. http_connected h = Inr (True, h\<lparr>net := n\<rparr>) \<and> looks k n qs \<and> same_out (net h) n"
proof -
  obtain a m where a: "tls_available (net h) = (a, m)" by fastforce
  obtain b l where b: "tls_available m = (b, l)" by fastforce
  note m = available_looks [OF assms(2) a]
  note l = available_looks [OF conjunct1 [OF conjunct2 [OF m]] b]
  from m l a b assms(1) show ?thesis
    by (auto simp: http_connected_def tls_connected_def looks_def intro: same_out_trans)
qed

lemma drain_looks:
  assumes "looks (Suc k) n qs"
  shows "looks k (drain n) qs \<and> same_out n (drain n)"
proof -
  obtain a m where a: "tls_available n = (a, m)" by fastforce
  with available_looks [OF assms a] show ?thesis by (simp add: drain.simps [of n])
qed

subsection \<open>A block of the body\<close>

definition room :: "nat \<Rightarrow> nat \<Rightarrow> bool" where
  "room m k \<longleftrightarrow> k + 17 \<le> m \<and> k + 17 \<le> 65535"

lemma room_changeBuffer: "room m k \<Longrightarrow> j \<le> Suc k \<Longrightarrow> changeBuffer m j"
  by (auto simp: changeBuffer_def room_def Let_def)

lemma room_less: "room m k \<Longrightarrow> j \<le> k \<Longrightarrow> room m j"
  by (simp add: room_def)

lemma stream_write_room:
  "room m (length text + length buf) \<Longrightarrow> stream_write m buf text = (int (length buf), text @ buf)"
  by (auto simp: stream_write_def intro!: room_changeBuffer)

lemma block_loop_brings:
  "client h = Own \<Longrightarrow> brings (net h) (body @ s) qs \<Longrightarrow> 0 < b \<Longrightarrow> room (heap h) (length t + length body) \<Longrightarrow>
   e = 0 \<or> s = '''' \<Longrightarrow>
   \<exists>n. block_loop b (int (length body + e)) w t h =
         block_loop b (int e) (w + int (length body)) (t @ body) (h\<lparr>net := n\<rparr>) \<and>
       brings n s qs \<and> same_out (net h) n"
proof (induction "pending (net h)" arbitrary: h body w t rule: less_induct)
  case less
  note IH = less(1) and own = less(2) and br = less(3) and b = less(4) and room = less(5) and e = less(6)
  show ?case
  proof (cases "body = ''''")
    case True
    then show ?thesis using br by (intro exI [of _ "net h"]) simp
  next
    case False
    then have pos: "0 < int (length body) + int e" by (simp add: add_pos_nonneg)
    obtain h1 where c: "http_connected h = Inr (True, h\<lparr>net := h1\<rparr>)"
      "brings_by (clock (net h)) h1 (body @ s) qs" "same_out (net h) h1"
      using connected_brings [OF own br [unfolded brings_def]] False by auto
    obtain a n where a: "tls_available h1 = (a, n)" by fastforce
    note * = available_brings [OF c(2) _ a]
    have so: "same_out (net h) n" using * False c(3) by (auto intro: same_out_trans)
    show ?thesis
    proof (cases "a = 0")
      case True
      then have n: "polls n \<noteq> []" "brings n (body @ s) qs" using * False brings_now by fastforce+
      have "pending n < pending (net h)" using quiet_turn_shrinks [OF c(1)] a True n(1) by simp
      then obtain m where
        "block_loop b (int (length body + e)) w t (http_delay 1 (h\<lparr>net := n\<rparr>)) =
           block_loop b (int e) (w + int (length body)) (t @ body) (h\<lparr>net := m\<rparr>)"
        "brings m s qs" "same_out n m"
        using IH [of "http_delay 1 (h\<lparr>net := n\<rparr>)" body t w] own n(2) b room e
        by (auto simp: http_delay_def same_out_def)
      with c(1) a True n(1) False pos so show ?thesis
        by (auto simp: block_loop.simps [of b _ w t h] intro: same_out_trans)
    next
      case a0: False
      then have n: "a = int (length (rx n))" "rx n \<noteq> ''''" "brings n (body @ s) qs"
        using * False brings_now by fastforce+
      have rx: "length (rx n) \<le> length (body @ s)"
        using n(3) unfolding brings_def brings_by_def by (metis length_append le_add1)
      define k where "k = min (min (length body + e) (length (rx n))) b"
      have k: "k \<noteq> 0" "k \<le> length body" "min (if 0 < int (length body + e) \<and> a > int (length body + e) then int (length body + e) else a) (int b) = int k"
        using False n(1,2) b e rx by (auto simp: k_def)
      have "brings n (take k body @ (drop k body @ s)) qs" using n(3) by (simp add: append_assoc [symmetric])
      then obtain m where m: "readBytes k n = (take k body, m)" "brings m (drop k body @ s) qs" "same_out n m"
        using readBytes_brings [of n "take k body" "drop k body @ s" qs k] k(2) by auto
      have "pending m < pending (net h)"
        using block_read_shrinks [OF c(1) _ a0, of n "int k"] a m(1) k(1) by simp
      then obtain l where l:
        "block_loop b (int (length (drop k body) + e)) (w + int k) (t @ take k body) (h\<lparr>net := m\<rparr>) =
           block_loop b (int e) (w + int k + int (length (drop k body))) ((t @ take k body) @ drop k body) (h\<lparr>net := l\<rparr>)"
        "brings l s qs" "same_out m l"
        using IH [of "h\<lparr>net := m\<rparr>" "drop k body" "t @ take k body" "w + int k"] own m(2) b room k(2) e
        by (auto simp: min.absorb2)
      have w: "stream_write (heap h) (take k body) t = (int k, t @ take k body)"
        using stream_write_room [of "heap h" t "take k body"] room_less [OF room] k(2) by (simp add: min_def)
      define L where "L = int (length body + e)"
      have L: "0 < L" "min (if 0 < L \<and> a > L then L else a) (int b) = int k" "L - int k = int (length (drop k body) + e)"
        using pos k(2) k(3) [folded L_def] by (simp_all add: L_def of_nat_diff split: if_splits)
      have "block_loop b L w t h = block_loop b (L - int k) (w + int k) (t @ take k body) (h\<lparr>net := m\<rparr>)"
        using c(1) a a0 k(1,2) m(1) w L(1,2) by (simp add: block_loop.simps [of b L w t h] Let_def min.absorb2)
      then have "block_loop b (int (length body + e)) w t h =
          block_loop b (int (length (drop k body) + e)) (w + int k) (t @ take k body) (h\<lparr>net := m\<rparr>)"
        unfolding L(3) unfolding L_def .
      with l so m(3) k(2) show ?thesis by (auto intro: same_out_trans simp: of_nat_diff)
    qed
  qed
qed

end
