(* ===== verification/Http_Answers.thy ===== *)
theory Http_Answers
  imports Http_Reading
begin

section \<open>Answers of an HTTP server\<close>

text \<open>
  What the client makes of the head of an answer, and of a body that is sent with its length or in
  chunks.
\<close>

subsection \<open>The lines of the head\<close>

definition plain_line :: "string \<Rightarrow> bool" where
  "plain_line l \<longleftrightarrow> l \<noteq> '''' \<and> CHR 0x0A \<notin> set l \<and> \<not> c_isspace (hd l) \<and> \<not> c_isspace (last l)"

definition head_text :: "string list \<Rightarrow> string" where
  "head_text ls = concat (map (\<lambda>l. l @ crlf) ls)"

lemma head_text_simps [simp]:
  "head_text [] = ''''" "head_text (l # ls) = l @ crlf @ head_text ls"
  by (simp_all add: head_text_def)

lemma dropWhile_hd: "\<not> P (hd l) \<Longrightarrow> dropWhile P l = l"
  by (cases l) auto

lemma trim_plain: "l \<noteq> '''' \<Longrightarrow> \<not> c_isspace (hd l) \<Longrightarrow> \<not> c_isspace (last l) \<Longrightarrow> trim l = l"
  by (simp add: trim_def dropWhile_hd hd_rev)

lemma trim_line: "plain_line l \<Longrightarrow> trim (l @ [CHR 0x0D]) = l"
proof -
  assume l: "plain_line l"
  then have "dropWhile c_isspace (l @ [CHR 0x0D]) = l @ [CHR 0x0D]" "dropWhile c_isspace (rev l) = rev l"
    by (auto simp: plain_line_def dropWhile_hd hd_rev)
  then show ?thesis by (simp add: trim_def c_isspace_def)
qed

lemma trim_cr [simp]: "trim [CHR 0x0D] = ''''"
  by (simp add: trim_def c_isspace_def)

lemma header_line_net:
  "header_line l (h\<lparr>net := n\<rparr>, te) = ((fst (header_line l (h, te)))\<lparr>net := n\<rparr>, snd (header_line l (h, te)))"
  by (simp add: header_line_def status_line_def Let_def)

lemma header_line_fields [simp]:
  "client (fst (header_line l (h, te))) = client h" "tcpTimeout (fst (header_line l (h, te))) = tcpTimeout h"
  by (simp_all add: header_line_def status_line_def Let_def)

text \<open>All lines of the head, the empty one included.\<close>

fun read_head :: "string list \<Rightarrow> http \<times> string \<Rightarrow> http \<times> string" where
  "read_head [] p = header_line '''' p"
| "read_head (l # ls) p = read_head ls (header_line l p)"

lemma read_head_net:
  "read_head ls (h\<lparr>net := n\<rparr>, te) = ((fst (read_head ls (h, te)))\<lparr>net := n\<rparr>, snd (read_head ls (h, te)))"
proof (induction ls arbitrary: h te)
  case (Cons l ls)
  show ?case
    using Cons.IH [of "fst (header_line l (h, te))" "snd (header_line l (h, te))"]
    by (simp add: header_line_net)
qed (simp add: header_line_net)

lemma header_loop_brings:
  "client h = Own \<Longrightarrow> stream_timeout \<le> tcpTimeout h \<Longrightarrow> list_all plain_line ls \<Longrightarrow>
   brings_by since (net h) (head_text ls @ crlf @ s) qs \<Longrightarrow>
   \<exists>n. header_loop since te h =
         Inr (head_done (snd (read_head ls (h, te)))
           ((fst (read_head ls (h, te)))\<lparr>net := n\<rparr>)) \<and>
       brings n s qs \<and> same_out (net h) n"
proof (induction "pending (net h)" arbitrary: h ls since te rule: less_induct)
  case less
  note IH = less(1) and own = less(2) and tmo = less(3) and ls = less(4) and br = less(5)
  let ?s = "head_text ls @ crlf @ s"
  have ne: "?s \<noteq> ''''" by (simp add: crlf_def)
  obtain h1 where c: "http_connected h = Inr (True, h\<lparr>net := h1\<rparr>)" "brings_by since h1 ?s qs" "same_out (net h) h1"
    using connected_brings [OF own br ne] by auto
  obtain a n where a: "tls_available h1 = (a, n)" by fastforce
  note * = available_brings [OF c(2) ne a]
  have so: "same_out (net h) n" using * c(3) by (auto intro: same_out_trans)
  show ?case
  proof (cases "a = 0")
    case True
    then have n: "polls n \<noteq> []" "brings_by since (n\<lparr>clock := clock n + 10\<rparr>) ?s qs" "clock n < since + stream_timeout"
      using * by auto
    have "pending n < pending (net h)" using quiet_turn_shrinks [OF c(1)] a True n(1) by simp
    then obtain m where m:
      "header_loop since te (http_delay 10 (h\<lparr>net := n\<rparr>)) =
         Inr (head_done (snd (read_head ls (h, te)))
           ((fst (read_head ls (h, te)))\<lparr>net := m\<rparr>))"
      "brings m s qs" "same_out n m"
      using IH [of "http_delay 10 (h\<lparr>net := n\<rparr>)" ls since te] own tmo ls n(2)
      by (auto simp: http_delay_def same_out_def read_head_net)
    have "\<not> tcpTimeout h < clock n - since" using n(3) tmo by (auto simp: stream_timeout_def)
    with c(1) a True n(1) m so show ?thesis
      by (auto simp: header_loop.simps [of since te h] intro: same_out_trans)
  next
    case a0: False
    have n: "brings n ?s qs" using * brings_now by blast
    show ?thesis
    proof (cases ls)
      case Nil
      then obtain m where m: "readStringUntil (CHR 0x0A) n = ([CHR 0x0D], m)" "brings m s qs" "same_out n m"
        using readStringUntil_brings [of n "[CHR 0x0D]" "CHR 0x0A" s qs] n by (auto simp: crlf_def)
      with c(1) a a0 Nil so show ?thesis
        by (auto simp: header_loop.simps [of since te h] header_line_net intro: same_out_trans)
    next
      case (Cons l ls')
      have l: "plain_line l" "l \<noteq> ''''" using ls Cons by (auto simp: plain_line_def)
      have s: "?s = (l @ [CHR 0x0D]) @ CHR 0x0A # (head_text ls' @ crlf @ s)" using Cons by (simp add: crlf_def)
      obtain m where m: "readStringUntil (CHR 0x0A) n = (l @ [CHR 0x0D], m)"
        "brings m (head_text ls' @ crlf @ s) qs" "same_out n m"
        using readStringUntil_brings [OF n [unfolded s]] l by (auto simp: plain_line_def)
      let ?p = "header_line l (h, te)"
      have "pending m < pending (net h)"
        using line_read_shrinks [OF c(1) _ m(1)] a l trim_line by simp
      then obtain k where
        "header_loop (clock m) (snd ?p) ((fst ?p)\<lparr>net := m\<rparr>) =
           Inr (head_done (snd (read_head ls' ?p))
             ((fst (read_head ls' ?p))\<lparr>net := k\<rparr>))"
        "brings k s qs" "same_out m k"
        using IH [of "(fst ?p)\<lparr>net := m\<rparr>" ls' "clock m" "snd ?p"] own tmo ls Cons m(2)
        by (auto simp: brings_def read_head_net)
      with c(1) a a0 m l Cons so show ?thesis
        by (auto simp: header_loop.simps [of since te h] trim_line header_line_net intro: same_out_trans)
    qed
  qed
qed

lemma handleHeaderResponse_brings:
  assumes "client h = Own" "stream_timeout \<le> tcpTimeout h" "list_all plain_line ls"
    "brings (net h) (head_text ls @ crlf @ s) qs"
  shows "\<exists>n. handleHeaderResponse h =
      (let p = read_head ls ((http_clear h)\<lparr>canReuse := reuse h, encoding := Identity, net := n\<rparr>, '''')
       in Inr (head_done (snd p) (fst p))) \<and>
    brings n s qs \<and> same_out (net h) n"
proof -
  have ne: "head_text ls @ crlf @ s \<noteq> ''''" by (simp add: crlf_def)
  obtain m where c: "http_connected h = Inr (True, h\<lparr>net := m\<rparr>)" "brings_by (clock (net h)) m (head_text ls @ crlf @ s) qs"
    "same_out (net h) m"
    using connected_brings [OF assms(1) assms(4) [unfolded brings_def] ne] by auto
  have m: "brings_by (clock m) m (head_text ls @ crlf @ s) qs" using c(2) brings_now brings_def by blast
  define g where "g = (http_clear h)\<lparr>canReuse := reuse h, encoding := Identity\<rparr>"
  have g: "client g = Own" "tcpTimeout g = tcpTimeout h" using assms(1) by (simp_all add: g_def http_clear_def)
  obtain n where n: "header_loop (clock m) '''' (g\<lparr>net := m\<rparr>) =
      Inr (head_done (snd (read_head ls (g, ''''))) ((fst (read_head ls (g, '''')))\<lparr>net := n\<rparr>))"
      "brings n s qs" "same_out m n"
    using header_loop_brings [of "g\<lparr>net := m\<rparr>" ls "clock m" s qs "''''"] g assms(2,3) m
    by (auto simp: read_head_net [of ls m g])
  have "handleHeaderResponse h = header_loop (clock m) '''' (g\<lparr>net := m\<rparr>)"
  proof -
    have "(http_clear (h\<lparr>net := m\<rparr>))\<lparr>canReuse := reuse h, encoding := Identity\<rparr> = g\<lparr>net := m\<rparr>"
      by (cases h) (simp add: g_def http_clear_def)
    moreover have "reuse (http_clear (h\<lparr>net := m\<rparr>)) = reuse h" "net (http_clear (h\<lparr>net := m\<rparr>)) = m"
      by (simp_all add: http_clear_def)
    ultimately show ?thesis using c(1) by (simp add: handleHeaderResponse_def Let_def)
  qed
  with n c(3) show ?thesis
    unfolding g_def [symmetric]
    by (intro exI [of _ n]) (auto simp: read_head_net [of ls n g] Let_def intro: same_out_trans)
qed

subsection \<open>Status line and fields\<close>

definition status_text :: "nat \<Rightarrow> string \<Rightarrow> string" where
  "status_text code reason = ''HTTP/1.1 '' @ String_uint code @ '' '' @ reason"

definition field_text :: "string \<times> string \<Rightarrow> string" where
  "field_text f = fst f @ '': '' @ snd f"

definition plain_field :: "string \<times> string \<Rightarrow> bool" where
  "plain_field f \<longleftrightarrow> plain_line (fst f @ '':'') \<and> fst f \<noteq> '''' \<and> CHR '':'' \<notin> set (fst f) \<and> CHR 0x00 \<notin> set (fst f) \<and>
     \<not> startsWith (fst f) ''HTTP/1.'' \<and> plain_line (snd f) \<and> CHR 0x00 \<notin> set (snd f)"

text \<open>A field that is not about the body and does not announce the end of the connection.\<close>

definition other_field :: "string \<times> string \<Rightarrow> bool" where
  "other_field f \<longleftrightarrow> plain_field f \<and> \<not> equalsIgnoreCase (fst f) ''Content-Length'' \<and>
     \<not> equalsIgnoreCase (fst f) ''Transfer-Encoding'' \<and>
     \<not> (equalsIgnoreCase (fst f) ''Connection'' \<and> indexOf_text (snd f) ''close'' \<ge> 0 \<and>
        indexOf_text (snd f) ''keep-alive'' < 0)"

lemma plain_status: "plain_line (status_text code (reason @ [c])) \<longleftrightarrow>
    CHR 0x0A \<notin> set (reason @ [c]) \<and> \<not> c_isspace c"
proof -
  have "CHR 0x0A \<notin> set (String_uint code)" using ultoa_10_digits [of code] by auto
  then show ?thesis by (auto simp: plain_line_def status_text_def c_isspace_def)
qed

lemma plain_field_line: "plain_field f \<Longrightarrow> plain_line (field_text f)"
  by (auto simp: plain_field_def plain_line_def field_text_def)

lemma field_starts: "CHR '':'' \<notin> set n \<Longrightarrow> startsWith (n @ CHR '':'' # v) ''HTTP/1.'' \<Longrightarrow> startsWith n ''HTTP/1.''"
proof -
  assume n: "CHR '':'' \<notin> set n" and t: "startsWith (n @ CHR '':'' # v) ''HTTP/1.''"
  have "7 \<le> length n"
  proof (rule ccontr)
    assume "\<not> 7 \<le> length n"
    then have "CHR '':'' \<in> set (take 7 (n @ CHR '':'' # v))" by (simp add: take_Cons')
    moreover have "take 7 (n @ CHR '':'' # v) = ''HTTP/1.''"
      using t by (simp add: startsWith_def numeral_eq_Suc)
    ultimately show False by (simp only:) simp
  qed
  with t show ?thesis by (simp add: startsWith_def)
qed

lemma field_parts:
  assumes "plain_field (n, v)"
  shows "\<not> startsWith (field_text (n, v)) ''HTTP/1.''"
    "indexOf (field_text (n, v)) (CHR '':'') = int (length n)"
    "substring_to (field_text (n, v)) 0 (length n) = n"
    "trim (substring (field_text (n, v)) (Suc (length n))) = v"
    "length n \<noteq> 0"
proof -
  have f: "CHR '':'' \<notin> set n" "CHR 0x00 \<notin> set n" "n \<noteq> ''''" "\<not> startsWith n ''HTTP/1.''" "plain_line v" "CHR 0x00 \<notin> set v"
    using assms by (auto simp: plain_field_def)
  show "\<not> startsWith (field_text (n, v)) ''HTTP/1.''" using field_starts [OF f(1)] f(4) by (auto simp: field_text_def)
  show "indexOf (field_text (n, v)) (CHR '':'') = int (length n)"
    using indexOf_append [of "CHR '':''" n] f by (simp add: field_text_def)
  show "substring_to (field_text (n, v)) 0 (length n) = n" using f by (simp add: field_text_def)
  have "substring (field_text (n, v)) (Suc (length n)) = CHR '' '' # v"
    using f by (simp add: substring_def substring_to_def field_text_def)
  moreover have "trim (CHR '' '' # v) = v"
    using f(5) trim_plain [of v] by (simp add: trim_def c_isspace_def plain_line_def dropWhile_hd hd_rev)
  ultimately show "trim (substring (field_text (n, v)) (Suc (length n))) = v" by simp
  show "length n \<noteq> 0" using f(3) by simp
qed

lemma field_line:
  assumes "plain_field (n, v)" "length n < 4294967295" "currentHeaders h = []"
  shows "header_line (field_text (n, v)) (h, te) =
    (let h = (if equalsIgnoreCase n ''Content-Length'' then h\<lparr>bodySize := toInt v\<rparr> else h);
         h = (if canReuse h \<and> equalsIgnoreCase n ''Connection'' \<and> indexOf_text v ''close'' \<ge> 0 \<and>
                 indexOf_text v ''keep-alive'' < 0 then h\<lparr>canReuse := False\<rparr> else h)
     in (h, if equalsIgnoreCase n ''Transfer-Encoding'' then v else te))"
proof -
  have s: "as_unsigned (int (length n) + 1) = Suc (length n)"
    using as_unsigned_simps(2) [of "Suc (length n)"] assms(2) by (simp add: add.commute)
  show ?thesis
    using field_parts [OF assms(1)] assms(2,3) s by (cases h) (simp add: header_line_def Let_def)
qed

lemma other_field_line:
  assumes "other_field f" "length (fst f) < 4294967295" "currentHeaders h = []"
  shows "header_line (field_text f) (h, te) = (h, te)"
  using field_line [of "fst f" "snd f" h te] assms by (auto simp: other_field_def Let_def)

lemma digits_loop_length: "length (digits_loop 10 n out) \<le> length out + Suc n"
proof (induction "10::nat" n out rule: digits_loop.induct)
  case (1 n out)
  let ?o = "out @ [digit_chars ! (n - n div 10 * 10)]"
  show ?case
  proof (cases "n div 10 = 0")
    case False
    then have "length (digits_loop 10 (n div 10) ?o) \<le> length ?o + Suc (n div 10)" using 1 by simp
    moreover have "n div 10 < n" using False by (intro div_less_dividend) auto
    ultimately show ?thesis using False by (simp add: digits_loop.simps [of 10 n out] Let_def)
  qed (simp add: digits_loop.simps [of 10 n out])
qed

lemma String_uint_length: "length (String_uint n) \<le> Suc n"
  using digits_loop_length [of n "''''"] by (simp add: String_uint_def ultoa_def reverse_buf_eq_rev)

lemma status_line_text:
  assumes "code < 2 ^ 31" "CHR 0x00 \<notin> set reason"
  shows "header_line (status_text code reason) (h, te) = (h\<lparr>returnCode := int code\<rparr>, te)"
proof -
  have d: "CHR '' '' \<notin> set (String_uint code)" "CHR 0x00 \<notin> set (String_uint code)"
    using ultoa_10_digits [of code] by auto
  let ?l = "status_text code reason"
  have drop: "drop 9 ?l = String_uint code @ CHR '' '' # reason" by (simp add: status_text_def)
  have len: "9 < length ?l" by (simp add: status_text_def)
  have cut: "drop 9 (take (9 + length (String_uint code)) ?l) = String_uint code"
    using drop by (simp add: drop_take)
  have "length (String_uint code) < 4294967280" using String_uint_length [of code] assms(1) by simp
  then have "indexOf_from ?l (CHR '' '') 9 = int (9 + length (String_uint code))"
      "as_unsigned (int (9 + length (String_uint code))) = 9 + length (String_uint code)"
    using drop len d assms(2) by (simp_all add: indexOf_from_def find_char_append del: of_nat_add)
  then have "toInt (substring_to ?l 9 (as_unsigned (indexOf_from ?l (CHR '' '') 9))) = int code"
    using cut len d assms(1) by (simp add: substring_to_def toInt_def atol_String_uint)
  then show ?thesis
    by (cases h) (simp add: header_line_def status_line_def, simp add: status_text_def startsWith_def char_at_def)
qed

subsection \<open>Whole heads\<close>

text \<open>A list of such fields; they change nothing.\<close>

definition others :: "(string \<times> string) list \<Rightarrow> bool" where
  "others fs \<longleftrightarrow> list_all (\<lambda>f. other_field f \<and> length (fst f) < 4294967295) fs"

lemma read_head_others:
  "others fs \<Longrightarrow> currentHeaders h = [] \<Longrightarrow> read_head (map field_text fs @ ls) (h, te) = read_head ls (h, te)"
  by (induction fs) (simp_all add: others_def other_field_line)

lemma others_plain: "others fs \<Longrightarrow> list_all plain_line (map field_text fs)"
  by (auto simp: others_def other_field_def list_all_iff plain_field_line)

lemma read_head_Nil [simp]: "currentHeaders h = [] \<Longrightarrow> read_head [] (h, te) = (h, te)"
  by (cases h) (simp add: header_line_def startsWith_def indexOf_def indexOf_from_def equalsIgnoreCase_def
      substring_to_def substring_def)

lemma plain_number: "plain_line (String_uint n) \<and> CHR 0x00 \<notin> set (String_uint n)"
proof -
  have d: "String_uint n \<noteq> ''''" "set (String_uint n) \<subseteq> set ''0123456789''" using ultoa_10_digits [of n] by auto
  then have "hd (String_uint n) \<in> set ''0123456789''" "last (String_uint n) \<in> set ''0123456789''"
    using hd_in_set last_in_set by (metis subsetD)+
  with d not_space_digit show ?thesis by (auto simp: plain_line_def)
qed

lemma length_line:
  assumes "n < 2 ^ 31" "currentHeaders h = []"
  shows "header_line (field_text (''Content-Length'', String_uint n)) (h, te) = (h\<lparr>bodySize := int n\<rparr>, te)"
proof -
  have "plain_field (''Content-Length'', String_uint n)"
    using plain_number [of n] by (simp add: plain_field_def plain_line_def c_isspace_def startsWith_def)
  then show ?thesis
    using field_line [of "''Content-Length''" "String_uint n" h te] assms plain_number [of n]
    by (simp add: equalsIgnoreCase_def lower_def toInt_def atol_String_uint Let_def)
qed

lemma chunked_line:
  assumes "currentHeaders h = []"
  shows "header_line (field_text (''Transfer-Encoding'', ''chunked'')) (h, te) = (h, ''chunked'')"
  using field_line [of "''Transfer-Encoding''" "''chunked''" h te] assms
  by (simp add: plain_field_def plain_line_def c_isspace_def startsWith_def equalsIgnoreCase_def lower_def Let_def)

lemma close_line:
  assumes "currentHeaders h = []"
  shows "header_line (field_text (''Connection'', ''close'')) (h, te) = (h\<lparr>canReuse := False\<rparr>, te)"
  using field_line [of "''Connection''" "''close''" h te] assms
  by (cases h) (simp add: plain_field_def plain_line_def c_isspace_def startsWith_def equalsIgnoreCase_def lower_def
      indexOf_text_def Let_def)

lemma plain_lines [simp]:
  "plain_line (field_text (''Content-Length'', String_uint n))"
  "plain_line (field_text (''Transfer-Encoding'', ''chunked''))"
  "plain_line (field_text (''Connection'', ''close''))"
  using plain_number [of n] by (auto simp: plain_line_def field_text_def c_isspace_def)

end
