(* ===== verification/Http_Exchange.thy ===== *)
theory Http_Exchange
  imports Http_Answers
begin

section \<open>Exchanges with the bridge\<close>

text \<open>
  A request and its answer as the application makes them: \<open>begin\<close>, a method, \<open>getString\<close>. The theorems
  say what is sent, and what comes back for every way the answer's bytes can arrive.
\<close>

subsection \<open>The exchange\<close>

definition exchange :: "string \<Rightarrow> string \<Rightarrow> string \<Rightarrow> http \<Rightarrow> (int \<times> string \<times> http) res" where
  "exchange type url payload h =
     andThen (http_begin url h) (\<lambda>(_, h).
     andThen (sendRequest type payload h) (\<lambda>(status, h).
     andThen (getString h) (\<lambda>(answer, h). Inr (status, answer, h))))"

subsection \<open>The address\<close>

definition bridge_url :: "string \<Rightarrow> nat \<Rightarrow> string \<Rightarrow> string" where
  "bridge_url ip p path = ''https://'' @ ip @ '':'' @ String_uint p @ path"

definition plain_host :: "string \<Rightarrow> bool" where
  "plain_host ip \<longleftrightarrow> list_all (\<lambda>c. c \<notin> set '':/@'' \<and> c \<noteq> CHR 0x00) ip \<and> length ip < 1000"

definition plain_path :: "string \<Rightarrow> bool" where
  "plain_path path \<longleftrightarrow> path \<noteq> '''' \<and> hd path = CHR ''/'' \<and> CHR 0x00 \<notin> set path"

definition addressed :: "string \<Rightarrow> nat \<Rightarrow> string \<Rightarrow> http \<Rightarrow> http" where
  "addressed ip p path h =
     (http_clear h)\<lparr>protocol := ''https'', host := ip, port := p, uri := path, secure := True,
       transportTraits := Some TlsTraits\<rparr>"

lemma c_part_append: "CHR 0x00 \<notin> set s \<Longrightarrow> c_part (s @ t) = s @ c_part t"
  by (induction s) (auto simp: c_part_def)

lemma url_protocol:
  "indexOf (bridge_url ip p path) (CHR '':'') = 5"
  "substring_to (bridge_url ip p path) 0 5 = ''https''"
  "remove_count (bridge_url ip p path) 0 8 = ip @ CHR '':'' # String_uint p @ path"
  using indexOf_append [of "CHR '':''" "''https''" "''//'' @ ip @ '':'' @ String_uint p @ path"]
  by (simp_all add: bridge_url_def substring_to_def remove_count_def)

lemma beginInternal_http: "beginInternal (bridge_url ip p path) ''http'' h = (False, (http_clear h)\<lparr>protocol := ''https''\<rparr>)"
  using as_unsigned_simps(2) [of 5] by (simp add: beginInternal_def url_protocol Let_def)

lemma beginInternal_https:
  assumes "plain_host ip" "plain_path path" "p < 65536"
  shows "beginInternal (bridge_url ip p path) ''https'' h =
    (True, (http_clear h)\<lparr>protocol := ''https'', host := ip, port := p, uri := path\<rparr>)"
proof -
  have d: "set (String_uint p) \<subseteq> set ''0123456789''" using ultoa_10_digits [of p] by auto
  have h: "CHR '':'' \<notin> set ip" "CHR ''/'' \<notin> set ip" "CHR ''@'' \<notin> set ip" "CHR 0x00 \<notin> set ip" "length ip < 1000"
    using assms(1) by (auto simp: plain_host_def list_all_iff)
  obtain r where r: "path = CHR ''/'' # r" using assms(2) by (cases path) (auto simp: plain_path_def)
  let ?h = "ip @ CHR '':'' # String_uint p"
  have l: "length (String_uint p) \<le> 65536" using String_uint_length [of p] assms(3) by simp
  have host: "CHR ''/'' \<notin> set ?h" "CHR 0x00 \<notin> set ?h" "CHR ''@'' \<notin> set ?h" using h d by auto
  have i1: "indexOf (ip @ CHR '':'' # String_uint p @ path) (CHR ''/'') = int (length ?h)"
    using indexOf_append [of "CHR ''/''" ?h r] host r by simp
  have i2: "indexOf ?h (CHR ''@'') = - 1" using host(3) by (rule indexOf_None)
  have i3: "indexOf ?h (CHR '':'') = int (length ip)" using indexOf_append [of "CHR '':''" ip "String_uint p"] h by simp
  have u: "as_unsigned (int (length ?h)) = length ?h" "as_unsigned (int (length ip)) = length ip"
      "as_unsigned (int (length ip) + 1) = Suc (length ip)"
    using as_unsigned_simps(2) [of "length ?h"] as_unsigned_simps(2) [of "length ip"]
      as_unsigned_simps(2) [of "Suc (length ip)"] l h(5) by (simp_all add: add.commute)
  have s1: "substring_to (ip @ CHR '':'' # String_uint p @ path) 0 (length ?h) = ?h"
    "remove_count (ip @ CHR '':'' # String_uint p @ path) 0 (length ?h) = path"
    using substring_to_append [OF host(2), of path] remove_count_append [of ?h path] by simp_all
  have s2: "substring_to ?h 0 (length ip) = ip" "remove_count ?h 0 (Suc (length ip)) = String_uint p"
    using substring_to_append [OF h(4), of "CHR '':'' # String_uint p"] remove_count_append [of "ip @ [CHR '':'']" "String_uint p"]
    by simp_all
  have port: "nat (toInt (String_uint p) mod 65536) = p"
    using assms(3) plain_number [of p] by (simp add: toInt_def atol_String_uint)
  have u8: "as_unsigned 5 = 5" "as_unsigned 8 = 8" using as_unsigned_simps(2) [of 5] as_unsigned_simps(2) [of 8] by simp_all
  show ?thesis
    unfolding beginInternal_def Let_def
    by (simp add: url_protocol u8 i1 u(1) s1 i2 i3 u(2,3) s2 port del: length_append)
qed

lemma http_begin_bridge:
  assumes "plain_host ip" "plain_path path" "p < 65536" "client h \<noteq> Dangling"
  shows "http_begin (bridge_url ip p path) h = Inr (True, addressed ip p path h)"
  using assms
  by (cases h) (simp add: http_begin_def begin_secure_def mixed_up_def beginInternal_http beginInternal_https
      addressed_def http_clear_def)

subsection \<open>Connecting and sending\<close>

text \<open>
  The client is ready for a script: it has a connection that is kept, on which three looks find nothing
  before the script starts, or the next connection it makes follows the script.
\<close>

definition kept :: "http \<Rightarrow> bool" where
  "kept h \<longleftrightarrow> client h = Own \<and> up (net h)"

definition ready :: "http \<Rightarrow> poll list \<Rightarrow> bool" where
  "ready h ps \<longleftrightarrow> client h \<noteq> Dangling \<and>
     (if kept h then rx (net h) = '''' \<and> writes (net h) = [] \<and> looks 3 (net h) ps
      else dials (net h) \<noteq> [] \<and> hd (dials (net h)) = Some \<lparr>on_polls = ps, on_writes = []\<rparr>)"

text \<open>The settings of a client that the application has not changed.\<close>

definition standard :: "http \<Rightarrow> bool" where
  "standard h \<longleftrightarrow> reuse h \<and> \<not> useHTTP10 h \<and> userAgent h = ''ESP32HTTPClient'' \<and>
     base64Authorization h = '''' \<and> currentHeaders h = [] \<and> tcpTimeout h = 5000"

definition dialling :: "http \<Rightarrow> string \<Rightarrow> nat \<Rightarrow> wire list" where
  "dialling h ip p = (if kept h then [] else [Dial ip p])"

definition request_text :: "string \<Rightarrow> string \<Rightarrow> nat \<Rightarrow> string \<Rightarrow> string \<Rightarrow> string" where
  "request_text type ip p path payload =
     head_text [type @ '' '' @ path @ '' HTTP/1.1'',
                ''Host: '' @ ip @ (if p = 80 \<or> p = 443 then '''' else '':'' @ String_uint p),
                ''User-Agent: ESP32HTTPClient'',
                ''Connection: keep-alive'',
                ''Accept-Encoding: identity;q=1,chunked;q=0.1,*;q=0''] @
     (if payload = '''' then '''' else ''Content-Length: '' @ String_uint (length payload) @ crlf) @ crlf"

definition sending :: "string \<Rightarrow> string \<Rightarrow> nat \<Rightarrow> string \<Rightarrow> string \<Rightarrow> wire list" where
  "sending type ip p path payload =
     Sent (request_text type ip p path payload) # (if payload = '''' then [] else [Sent payload])"

definition fits_request :: "string \<Rightarrow> string \<Rightarrow> nat \<Rightarrow> string \<Rightarrow> string \<Rightarrow> bool" where
  "fits_request type ip p path payload \<longleftrightarrow>
     length (request_text type ip p path payload) < 65536 \<and> length payload < 65536"

lemma script_brings:
  assumes "answer_script ps" "up n" "rx n = ''''" "polls n = ps @ qs"
  shows "brings n (bytes ps) qs"
  using assms unfolding brings_def brings_by_def answer_script_def by auto

lemma http_connect_ready:
  assumes "ready h (ps @ qs)" "answer_script ps" "bytes ps \<noteq> ''''" "transportTraits h = Some TlsTraits"
  shows "\<exists>n. http_connect h = Inr (True, h\<lparr>client := Own, net := n\<rparr>) \<and> brings n (bytes ps) qs \<and>
    writes n = [] \<and> wire n = wire (net h) @ dialling h (host h) (port h) \<and>
    dials n = (if kept h then dials (net h) else tl (dials (net h)))"
proof (cases "kept h")
  case True
  then have h: "client h = Own" "looks (Suc (Suc 1)) (net h) (ps @ qs)" "writes (net h) = []"
    using assms(1) by (simp_all add: ready_def kept_def numeral_3_eq_3)
  obtain n where n: "http_connected h = Inr (True, h\<lparr>net := n\<rparr>)" "looks 1 n (ps @ qs)" "same_out (net h) n"
    using connected_looks [OF h(1,2)] by auto
  have d: "looks 0 (drain n) (ps @ qs)" "same_out n (drain n)" using drain_looks [of 0 n] n(2) by simp_all
  then have "brings (drain n) (bytes ps) qs"
    using script_brings [OF assms(2), of "drain n" qs] by (auto simp: looks_def)
  moreover have "same_out (net h) (drain n)" using n(3) d(2) by (rule same_out_trans)
  moreover have "h\<lparr>net := drain n\<rparr> = h\<lparr>client := Own, net := drain n\<rparr>" using h(1) by (cases h) simp
  ultimately show ?thesis
    using n(1) True h(3) by (auto simp: http_connect_def dialling_def same_out_def)
next
  case False
  then obtain ds where d: "dials (net h) = Some \<lparr>on_polls = ps @ qs, on_writes = []\<rparr> # ds" "client h \<noteq> Dangling"
    using assms(1) by (cases "dials (net h)") (auto simp: ready_def)
  have c: "http_connected h = Inr (False, h)"
    using False d(2) by (cases h) (auto simp: http_connected_def kept_def tls_available_def tls_connected_def
        split: pointer.splits)
  define n where "n = (net h)\<lparr>up := True, rx := '''', polls := ps @ qs, writes := [],
    wire := wire (net h) @ [Dial (host h) (port h)], dials := ds\<rparr>"
  have t: "tls_connect (host h) (port h) (net h) = (True, n)" using d(1) by (simp add: tls_connect_def n_def)
  have b: "brings n (bytes ps) qs" using script_brings [OF assms(2), of n qs] by (simp add: n_def)
  obtain m where m: "http_connected (h\<lparr>client := Own, net := n\<rparr>) = Inr (True, h\<lparr>client := Own, net := m\<rparr>)"
    "brings m (bytes ps) qs" "same_out n m"
    using connected_brings [of "h\<lparr>client := Own, net := n\<rparr>" "clock n" "bytes ps" qs] b assms(3) brings_now
    by (auto simp: brings_def)
  have "http_connect h = http_connected (h\<lparr>client := Own, net := n\<rparr>)"
  proof (cases "client h")
    case Null
    then show ?thesis using c t assms(4) by (simp add: http_connect_def)
  next
    case Own
    have "http_connect h = http_connected (h\<lparr>net := n\<rparr>)" using Own c t by (simp add: http_connect_def)
    moreover have "h\<lparr>net := n\<rparr> = h\<lparr>client := Own, net := n\<rparr>" using Own by (cases h) simp
    ultimately show ?thesis by (simp only:)
  next
    case Dangling
    with d(2) show ?thesis by simp
  qed
  with m False show ?thesis
    by (intro exI [of _ m]) (auto simp: dialling_def same_out_def n_def d(1))
qed

lemma request_head_standard:
  assumes "standard h" "headers h = (if payload = '''' then '''' else ''Content-Length: '' @ String_uint (length payload) @ crlf)"
  shows "request_head type h = request_text type (host h) (port h) (uri h) payload"
  using assms by (auto simp: request_head_def request_text_def standard_def)

lemma addHeader_length:
  "headers h = '''' \<Longrightarrow> base64Authorization h = '''' \<Longrightarrow>
   addHeader ''Content-Length'' v False True h = h\<lparr>headers := ''Content-Length: '' @ v @ crlf\<rparr>"
  by (simp add: addHeader_def equalsIgnoreCase_def lower_def indexOf_text_def crlf_def Let_def)

lemma tls_write_all:
  assumes "up n" "writes n = []" "length s < 65536"
  shows "tls_write s n = (length s, n\<lparr>wire := wire n @ (if s = '''' then [] else [Sent s])\<rparr>)"
  using assms by (cases n) (auto simp: tls_write_def send_ssl_data_def)

lemma brings_wire [simp]: "brings (n\<lparr>wire := w\<rparr>) s qs = brings n s qs"
  by (simp add: brings_def brings_by_def)

lemma sendHeader_brings:
  assumes "client h = Own" "brings (net h) s qs" "s \<noteq> ''''" "writes (net h) = []" "base64Authorization h = ''''"
    "length (request_head type h) < 65536"
  shows "\<exists>n. sendHeader type h = Inr (True, h\<lparr>net := n\<rparr>) \<and> brings n s qs \<and> writes n = [] \<and>
    wire n = wire (net h) @ [Sent (request_head type h)] \<and> dials n = dials (net h)"
proof -
  obtain n where n: "http_connected h = Inr (True, h\<lparr>net := n\<rparr>)" "brings_by (clock (net h)) n s qs" "same_out (net h) n"
    using connected_brings [OF assms(1) assms(2) [unfolded brings_def] assms(3)] by auto
  have b: "brings n s qs" using n(2) by (rule brings_now)
  have e: "request_head type (h\<lparr>net := n\<rparr>) = request_head type h" by (simp add: request_head_def)
  have ne: "request_head type h \<noteq> ''''" by (simp add: request_head_def)
  have w: "writes n = []" using n(3) assms(4) by (simp add: same_out_def)
  let ?m = "n\<lparr>wire := wire n @ [Sent (request_head type h)]\<rparr>"
  have "tls_write (request_head type h) n = (length (request_head type h), ?m)"
    using tls_write_all [OF brings_up [OF b] w assms(6)] ne by simp
  then have "sendHeader type h = Inr (True, h\<lparr>net := ?m\<rparr>)"
    using n(1) e assms(5) by (cases h) (simp add: sendHeader_def Let_def)
  then show ?thesis using b n(3) w by (intro exI [of _ ?m]) (simp add: same_out_def)
qed

lemma sendRequest_reads:
  assumes "standard h" "transportTraits h = Some TlsTraits" "headers h = ''''" "ready h (ps @ qs)" "answer_script ps"
    "bytes ps = head_text ls @ crlf @ s" "list_all plain_line ls"
    "fits_request type (host h) (port h) (uri h) payload"
  shows "\<exists>n. sendRequest type payload h =
      (let p = read_head ls ((http_clear h)\<lparr>client := Own, canReuse := True, encoding := Identity, net := n\<rparr>, '''');
           q = head_done (snd p) (fst p)
       in returnError (fst q) (snd q)) \<and>
    brings n s qs \<and> wire n = wire (net h) @ dialling h (host h) (port h) @ sending type (host h) (port h) (uri h) payload \<and>
    dials n = (if kept h then dials (net h) else tl (dials (net h))) \<and> writes n = []"
proof -
  let ?t = "head_text ls @ crlf @ s"
  have ne: "?t \<noteq> ''''" by (simp add: crlf_def)
  obtain n0 where n0: "http_connect h = Inr (True, h\<lparr>client := Own, net := n0\<rparr>)" "brings n0 ?t qs" "writes n0 = []"
    "wire n0 = wire (net h) @ dialling h (host h) (port h)"
    "dials n0 = (if kept h then dials (net h) else tl (dials (net h)))"
    using http_connect_ready [OF assms(4,5) _ assms(2)] ne assms(6) by auto
  define H where "H = (if payload = '''' then '''' else ''Content-Length: '' @ String_uint (length payload) @ crlf)"
  define h2 where "h2 = h\<lparr>client := Own, net := n0, headers := H\<rparr>"
  have b64: "base64Authorization h = ''''" using assms(1) by (simp add: standard_def)
  have h2: "(if 0 < length payload
      then addHeader ''Content-Length'' (String_uint (length payload)) False True (h\<lparr>client := Own, net := n0\<rparr>)
      else h\<lparr>client := Own, net := n0\<rparr>) = h2"
    using assms(3) b64 by (cases h) (simp add: addHeader_length h2_def H_def)
  have s2: "standard h2" "headers h2 = H" using assms(1) by (simp_all add: h2_def standard_def)
  have rt: "request_head type h2 = request_text type (host h) (port h) (uri h) payload"
    using request_head_standard [OF s2(1)] s2(2) H_def by (simp add: h2_def)
  obtain n1 where n1: "sendHeader type h2 = Inr (True, h2\<lparr>net := n1\<rparr>)" "brings n1 ?t qs" "writes n1 = []"
    "wire n1 = wire n0 @ [Sent (request_head type h2)]" "dials n1 = dials n0"
    using sendHeader_brings [of h2 ?t qs type] n0 ne s2(1) rt assms(8)
    by (auto simp: h2_def standard_def fits_request_def)
  define n2 where "n2 = n1\<lparr>wire := wire n1 @ (if payload = '''' then [] else [Sent payload])\<rparr>"
  have w: "(if 0 < length payload then tls_write payload n1 else (0, n1)) = (length payload, n2)"
    using tls_write_all [OF brings_up [OF n1(2)] n1(3), of payload] assms(8)
    by (cases n1) (auto simp: fits_request_def n2_def)
  have b2: "brings n2 ?t qs" using n1(2) by (simp add: n2_def)
  define h3 where "h3 = h2\<lparr>net := n2\<rparr>"
  have h3: "client h3 = Own" "stream_timeout \<le> tcpTimeout h3" "brings (net h3) ?t qs" "reuse h3"
    using b2 s2(1) by (auto simp: h3_def h2_def standard_def stream_timeout_def)
  obtain n where n: "handleHeaderResponse h3 =
      (let p = read_head ls ((http_clear h3)\<lparr>canReuse := reuse h3, encoding := Identity, net := n\<rparr>, '''')
       in Inr (head_done (snd p) (fst p)))" "brings n s qs" "same_out (net h3) n"
    using handleHeaderResponse_brings [OF h3(1,2) assms(7) h3(3)] by auto
  have e: "(http_clear h3)\<lparr>canReuse := reuse h3, encoding := Identity, net := n\<rparr> =
      (http_clear h)\<lparr>client := Own, canReuse := True, encoding := Identity, net := n\<rparr>"
    using h3(4) by (cases h) (simp add: h3_def h2_def http_clear_def)
  have "sendRequest type payload h = andThen (handleHeaderResponse h3) (\<lambda>(code, h). returnError code h)"
    using n0(1) n1(1) h2 w by (cases "payload = ''''") (simp_all add: sendRequest_def h3_def Let_def)
  then have "sendRequest type payload h =
      (let p = read_head ls ((http_clear h)\<lparr>client := Own, canReuse := True, encoding := Identity, net := n\<rparr>, '''');
           q = head_done (snd p) (fst p)
       in returnError (fst q) (snd q))"
    using n(1) e by (simp add: Let_def split_beta)
  moreover have "wire n = wire (net h) @ dialling h (host h) (port h) @ sending type (host h) (port h) (uri h) payload"
    using n(3) n0(4) n1(4) rt by (simp add: same_out_def h3_def n2_def sending_def)
  ultimately show ?thesis
    using n(2,3) n0(5) n1(3,5) by (intro exI [of _ n]) (simp add: same_out_def h3_def n2_def)
qed

subsection \<open>The body\<close>

lemma own_connected: "client h = Own \<Longrightarrow> \<exists>c n. http_connected h = Inr (c, h\<lparr>net := n\<rparr>)"
  by (auto simp: http_connected_def split: prod.splits)

lemma block_loop_done: "http_connected h = Inr (c, h') \<Longrightarrow> block_loop b 0 w t h = Inr (None, w, t, h')"
  by (simp add: block_loop.simps [of b 0 w t h])

lemma data_block_brings:
  assumes "client h = Own" "brings (net h) (body @ s) qs" "room (heap h) (length t + length body)" "body \<noteq> ''''"
  shows "\<exists>n c m. brings n s qs \<and> same_out (net h) n \<and> http_connected (h\<lparr>net := n\<rparr>) = Inr (c, h\<lparr>net := m\<rparr>) \<and>
    writeToStreamDataBlock (int (length body)) t h = Inr (int (length body), t @ body, h\<lparr>net := m\<rparr>)"
proof -
  let ?b = "nat (if 0 < int (length body) \<and> int (length body) < HTTP_TCP_BUFFER_SIZE then int (length body) else HTTP_TCP_BUFFER_SIZE)"
  have b: "0 < ?b" using assms(4) by (simp add: HTTP_TCP_BUFFER_SIZE_def)
  have fit: "\<not> (if 0 < int (length body) \<and> int (length body) < HTTP_TCP_BUFFER_SIZE then int (length body)
      else HTTP_TCP_BUFFER_SIZE) > int (heap h)"
    using assms(3,4) by (auto simp: HTTP_TCP_BUFFER_SIZE_def room_def)
  obtain n where n: "block_loop ?b (int (length body)) 0 t h = block_loop ?b 0 (0 + int (length body)) (t @ body) (h\<lparr>net := n\<rparr>)"
    "brings n s qs" "same_out (net h) n"
    using block_loop_brings [OF assms(1,2) b assms(3), of 0 0] by auto
  obtain c m where "http_connected (h\<lparr>net := n\<rparr>) = Inr (c, (h\<lparr>net := n\<rparr>)\<lparr>net := m\<rparr>)"
    using own_connected [of "h\<lparr>net := n\<rparr>"] assms(1) by auto
  then have c: "http_connected (h\<lparr>net := n\<rparr>) = Inr (c, h\<lparr>net := m\<rparr>)" by simp
  note block_loop_done [OF c, of ?b "0 + int (length body)" "t @ body"]
  with n(1) fit have "writeToStreamDataBlock (int (length body)) t h = Inr (int (length body), t @ body, h\<lparr>net := m\<rparr>)"
    unfolding writeToStreamDataBlock_def Let_def by simp
  with n c show ?thesis by blast
qed

lemma reserve_body:
  assumes "room m (length body)"
  shows "changeBuffer m (as_unsigned (int (length body) + 1))"
  using assms room_changeBuffer [OF assms, of "Suc (length body)"] as_unsigned_simps(2) [of "Suc (length body)"]
  by (simp add: room_def add.commute)

lemma getString_sized:
  assumes "client h = Own" "encoding h = Identity" "bodySize h = int (length body)" "body \<noteq> ''''"
    "brings (net h) body qs" "room (heap h) (length body)"
  shows "\<exists>n c m. brings n '''' qs \<and> same_out (net h) n \<and> http_connected (h\<lparr>net := n\<rparr>) = Inr (c, h\<lparr>net := m\<rparr>) \<and>
    getString h = andThen (http_disconnect True (h\<lparr>net := m\<rparr>)) (\<lambda>h. Inr (body, h))"
proof -
  obtain k where k: "http_connected h = Inr (True, h\<lparr>net := k\<rparr>)" "brings_by (clock (net h)) k body qs" "same_out (net h) k"
    using connected_brings [OF assms(1) assms(5) [unfolded brings_def] assms(4)] by auto
  obtain n c m where n: "brings n '''' qs" "same_out k n" "http_connected (h\<lparr>net := n\<rparr>) = Inr (c, h\<lparr>net := m\<rparr>)"
    "writeToStreamDataBlock (int (length body)) '''' (h\<lparr>net := k\<rparr>) = Inr (int (length body), body, h\<lparr>net := m\<rparr>)"
    using data_block_brings [of "h\<lparr>net := k\<rparr>" body "''''" qs "''''"] assms brings_now [OF k(2)] by auto
  have "writeToStream '''' h = andThen (http_disconnect True (h\<lparr>net := m\<rparr>)) (\<lambda>h. Inr (int (length body), body, h))"
    using k(1) n(4) assms(2,3) by (simp add: writeToStream_def)
  then have "getString h = andThen (http_disconnect True (h\<lparr>net := m\<rparr>)) (\<lambda>h. Inr (body, h))"
    using reserve_body [OF assms(6)] assms(3) by (simp add: getString_def andThen_assoc)
  with n(1-3) k(3) show ?thesis by (blast intro: same_out_trans)
qed

subsection \<open>Chunks\<close>

definition chunk_text :: "string \<Rightarrow> string" where
  "chunk_text c = ultoa (length c) 16 @ crlf @ c @ crlf"

definition chunked_text :: "string list \<Rightarrow> string" where
  "chunked_text cs = concat (map chunk_text cs) @ ''0'' @ crlf"

lemma hex_digits:
  "ultoa n 16 \<noteq> '''' \<and> set (ultoa n 16) \<subseteq> set digit_chars \<and> strtol_digits 16 0 (ultoa n 16) = n"
proof -
  obtain ds where ds: "digits_loop 16 n '''' = ds" "ds \<noteq> []" "set ds \<subseteq> {digit_chars ! d |d. d < 16}"
    "strtol_digits 16 0 (rev ds) = n"
    using digits_loop_spec [of 16 n "''''"] by auto
  have "length digit_chars = 16" by (simp add: digit_chars_def)
  then have "{digit_chars ! d |d. d < 16} = set digit_chars" by (simp add: set_conv_nth)
  with ds show ?thesis by (simp add: ultoa_def reverse_buf_eq_rev)
qed

lemma digit_chars_plain:
  "c \<in> set digit_chars \<Longrightarrow> \<not> c_isspace c \<and> c \<noteq> CHR ''-'' \<and> c \<noteq> CHR ''+'' \<and> c \<noteq> CHR 0x00 \<and> c \<noteq> CHR 0x0A \<and>
     c \<noteq> CHR ''x'' \<and> c \<noteq> CHR ''X''"
  by (auto simp: digit_chars_def c_isspace_def)

lemma hex_line:
  assumes "n < 2 ^ 31"
  shows "strtol (c_part (trim (ultoa n 16 @ [CHR 0x0D]))) 16 = int n" "CHR 0x0A \<notin> set (ultoa n 16)"
proof -
  let ?u = "ultoa n 16"
  have u: "?u \<noteq> ''''" "set ?u \<subseteq> set digit_chars" "strtol_digits 16 0 ?u = n"
    using hex_digits [of n] by blast+
  have p: "\<forall>c \<in> set ?u. \<not> c_isspace c \<and> c \<noteq> CHR ''-'' \<and> c \<noteq> CHR ''+'' \<and> c \<noteq> CHR 0x00 \<and> c \<noteq> CHR 0x0A \<and>
      c \<noteq> CHR ''x'' \<and> c \<noteq> CHR ''X''"
    using u(2) digit_chars_plain by blast
  show "CHR 0x0A \<notin> set ?u" using p by blast
  have hd: "hd ?u \<in> set ?u" "last ?u \<in> set ?u" using u(1) by simp_all
  have "plain_line ?u" using u(1) p hd by (auto simp: plain_line_def)
  then have t: "trim (?u @ [CHR 0x0D]) = ?u" by (rule trim_line)
  have z: "c_part ?u = ?u" using p by (intro c_part_id) blast
  have x: "\<not> is_hex_prefix ?u"
  proof
    assume "is_hex_prefix ?u"
    then obtain a b r where "?u = a # b # r" "b = CHR ''x'' \<or> b = CHR ''X''"
      by (cases ?u rule: is_hex_prefix.cases) auto
    then have "b \<in> set ?u" "b = CHR ''x'' \<or> b = CHR ''X''" by simp_all
    with p show False by blast
  qed
  have s: "dropWhile c_isspace ?u = ?u" "hd ?u \<noteq> CHR ''-''" "hd ?u \<noteq> CHR ''+''"
    using p hd(1) by (auto intro!: dropWhile_hd)
  show "strtol (c_part (trim (?u @ [CHR 0x0D]))) 16 = int n"
    unfolding t z using u(1,3) x s assms by (simp add: strtol_def strtol_magnitude_def Let_def)
qed

definition good_chunk :: "string \<Rightarrow> bool" where
  "good_chunk c \<longleftrightarrow> c \<noteq> '''' \<and> length c < 2 ^ 31"

lemma chunk_loop_head:
  assumes "client h = Own" "brings (net h) (ultoa k 16 @ crlf @ s) qs" "k < 2 ^ 31"
  shows "\<exists>m n. http_connected h = Inr (True, h\<lparr>net := m\<rparr>) \<and>
    readStringUntil (CHR 0x0A) m = (ultoa k 16 @ [CHR 0x0D], n) \<and> brings n s qs \<and> same_out (net h) n"
proof -
  have s: "ultoa k 16 @ crlf @ s = (ultoa k 16 @ [CHR 0x0D]) @ CHR 0x0A # s" by (simp add: crlf_def)
  have ne: "ultoa k 16 @ crlf @ s \<noteq> ''''" by (simp add: crlf_def)
  obtain m where m: "http_connected h = Inr (True, h\<lparr>net := m\<rparr>)"
    "brings_by (clock (net h)) m (ultoa k 16 @ crlf @ s) qs" "same_out (net h) m"
    using connected_brings [OF assms(1) assms(2) [unfolded brings_def] ne] by auto
  obtain n where "readStringUntil (CHR 0x0A) m = (ultoa k 16 @ [CHR 0x0D], n)" "brings n s qs" "same_out m n"
    using readStringUntil_brings [OF brings_now [OF m(2), unfolded s]] hex_line(2) [OF assms(3)] by auto
  with m show ?thesis by (blast intro: same_out_trans)
qed

lemma zero_line: "ultoa 0 16 = ''0''"
  by (simp add: ultoa_def reverse_buf_eq_rev digits_loop.simps digit_chars_def)

lemma chunk_loop_brings:
  "client h = Own \<Longrightarrow> bodySize h = - 1 \<Longrightarrow> brings (net h) (chunked_text cs @ s) qs \<Longrightarrow> list_all good_chunk cs \<Longrightarrow>
   room (heap h) (length t + length (concat cs)) \<Longrightarrow> 0 \<le> z \<Longrightarrow>
   \<exists>n. brings n s qs \<and> same_out (net h) n \<and>
     chunk_loop z z t h =
       andThen (http_disconnect True (h\<lparr>net := n, bodySize := z + int (length (concat cs))\<rparr>))
         (\<lambda>h. Inr (z + int (length (concat cs)), t @ concat cs, h))"
proof (induction cs arbitrary: h t z)
  case Nil
  have "brings (net h) (ultoa 0 16 @ crlf @ s) qs" using Nil(3) by (simp add: chunked_text_def zero_line)
  then obtain m n where "http_connected h = Inr (True, h\<lparr>net := m\<rparr>)"
    "readStringUntil (CHR 0x0A) m = (ultoa 0 16 @ [CHR 0x0D], n)" "brings n s qs" "same_out (net h) n"
    using chunk_loop_head [OF Nil(1)] by fastforce
  then show ?case
    using Nil(2) hex_line(1) [of 0] by (intro exI [of _ n]) (simp add: chunk_loop.simps [of z z t h] Let_def)
next
  case (Cons c cs)
  note own = Cons.prems(1) and sz = Cons.prems(2)
  have cs: "good_chunk c" "list_all good_chunk cs" using Cons.prems(4) by simp_all
  then have c: "c \<noteq> ''''" "length c < 2 ^ 31" by (simp_all add: good_chunk_def)
  let ?r = "crlf @ chunked_text cs @ s"
  have "brings (net h) (ultoa (length c) 16 @ crlf @ c @ ?r) qs"
    using Cons.prems(3) by (simp add: chunked_text_def chunk_text_def)
  then obtain m n where h: "http_connected h = Inr (True, h\<lparr>net := m\<rparr>)"
    "readStringUntil (CHR 0x0A) m = (ultoa (length c) 16 @ [CHR 0x0D], n)" "brings n (c @ ?r) qs" "same_out (net h) n"
    using chunk_loop_head [OF own _ c(2)] by blast
  have rm: "room (heap h) (length t + length c)" using Cons.prems(5) by (simp add: room_def)
  obtain k b l where k: "brings k ?r qs" "same_out n k" "http_connected (h\<lparr>net := k\<rparr>) = Inr (b, h\<lparr>net := l\<rparr>)"
    "writeToStreamDataBlock (int (length c)) t (h\<lparr>net := n\<rparr>) = Inr (int (length c), t @ c, h\<lparr>net := l\<rparr>)"
    using data_block_brings [of "h\<lparr>net := n\<rparr>" c ?r qs t] own h(3) rm c(1) by auto
  have ne: "?r \<noteq> ''''" by (simp add: crlf_def)
  obtain l' where l': "http_connected (h\<lparr>net := k\<rparr>) = Inr (True, h\<lparr>net := l'\<rparr>)" "brings_by (clock k) l' ?r qs" "same_out k l'"
    using connected_brings [of "h\<lparr>net := k\<rparr>" "clock k" ?r qs] own k(1) ne by (auto simp: brings_def)
  then have "h\<lparr>net := l\<rparr> = h\<lparr>net := l'\<rparr>" using k(3) by simp
  then have "net (h\<lparr>net := l\<rparr>) = net (h\<lparr>net := l'\<rparr>)" by (rule arg_cong)
  then have "l = l'" by simp
  then have "brings l ?r qs" "same_out k l" using l' brings_now by blast+
  then obtain q where q: "readBytes 2 l = (crlf, q)" "brings q (chunked_text cs @ s) qs" "same_out l q"
    using readBytes_brings [of l crlf "chunked_text cs @ s" qs 2] by (auto simp: crlf_def)
  obtain j where j: "brings j s qs" "same_out q j"
    "chunk_loop (z + int (length c)) (z + int (length c)) (t @ c) (h\<lparr>net := q\<rparr>) =
       andThen (http_disconnect True (h\<lparr>net := j, bodySize := z + int (length c) + int (length (concat cs))\<rparr>))
         (\<lambda>h. Inr (z + int (length c) + int (length (concat cs)), (t @ c) @ concat cs, h))"
    using Cons.IH [of "h\<lparr>net := q\<rparr>" "t @ c" "z + int (length c)"] own sz q(2) cs(2) Cons.prems(5,6) by (auto simp: add.assoc)
  have "chunk_loop z z t h = chunk_loop (z + int (length c)) (z + int (length c)) (t @ c) (h\<lparr>net := q\<rparr>)"
    using h(1,2) hex_line(1) [OF c(2)] c(1) k(4) q(1) by (simp add: chunk_loop.simps [of z z t h] Let_def)
  moreover have "same_out (net h) j"
    using h(4) k(2) \<open>same_out k l\<close> q(3) j(2) by (blast intro: same_out_trans)
  ultimately show ?case using j by (intro exI [of _ j]) (simp add: add.assoc)
qed

lemma getString_chunked:
  assumes "client h = Own" "encoding h = Chunked" "bodySize h = - 1" "list_all good_chunk cs"
    "brings (net h) (chunked_text cs @ s) qs" "room (heap h) (length (concat cs))"
  shows "\<exists>n. brings n s qs \<and> same_out (net h) n \<and>
    getString h = andThen (http_disconnect True (h\<lparr>net := n, bodySize := int (length (concat cs))\<rparr>))
      (\<lambda>h. Inr (concat cs, h))"
proof -
  have ne: "chunked_text cs @ s \<noteq> ''''" by (simp add: chunked_text_def)
  obtain k where k: "http_connected h = Inr (True, h\<lparr>net := k\<rparr>)"
    "brings_by (clock (net h)) k (chunked_text cs @ s) qs" "same_out (net h) k"
    using connected_brings [OF assms(1) assms(5) [unfolded brings_def] ne] by auto
  obtain n where n: "brings n s qs" "same_out k n"
    "chunk_loop 0 0 '''' (h\<lparr>net := k\<rparr>) =
       andThen (http_disconnect True (h\<lparr>net := n, bodySize := int (length (concat cs))\<rparr>))
         (\<lambda>h. Inr (int (length (concat cs)), concat cs, h))"
    using chunk_loop_brings [of "h\<lparr>net := k\<rparr>" cs s qs "''''" 0] assms brings_now [OF k(2)] by auto
  have "getString h = andThen (http_disconnect True (h\<lparr>net := n, bodySize := int (length (concat cs))\<rparr>))
      (\<lambda>h. Inr (concat cs, h))"
    using k(1) n(3) assms(2,3) as_unsigned_simps(2) [of 0]
    by (simp add: getString_def writeToStream_def changeBuffer_def andThen_assoc)
  with n(1,2) k(3) show ?thesis by (blast intro: same_out_trans)
qed

end
