(* ===== verification/Http_Service.thy ===== *)
theory Http_Service
  imports Http_Exchange
begin

section \<open>What the application can rely on\<close>

text \<open>
  The behaviour of whole exchanges: an answer sent with its length or in chunks is returned as it is, one
  connection serves any number of requests, a silent bridge is given up; and the ways in which the client
  fails: a body that is cut off passes for a whole one, a body that stalls is waited for without end, the
  end of a chunked answer that comes late spoils the next exchange, and an announced end of the connection
  leaves a pointer to a deleted object.
\<close>

subsection \<open>Answers\<close>

definition answer_head :: "nat \<Rightarrow> string \<Rightarrow> (string \<times> string) list \<Rightarrow> string" where
  "answer_head code reason fs = head_text (status_text code reason # map field_text fs) @ crlf"

definition good_status :: "nat \<Rightarrow> string \<Rightarrow> bool" where
  "good_status code reason \<longleftrightarrow> 0 < code \<and> code < 2 ^ 31 \<and> plain_line reason \<and> CHR 0x00 \<notin> set reason"

definition length_field :: "string \<Rightarrow> string \<times> string" where
  "length_field body = (''Content-Length'', String_uint (length body))"

definition chunked_field :: "string \<times> string" where
  "chunked_field = (''Transfer-Encoding'', ''chunked'')"

definition close_field :: "string \<times> string" where
  "close_field = (''Connection'', ''close'')"

text \<open>A request the client can send to a bridge: its address and sizes.\<close>

definition sendable :: "string \<Rightarrow> string \<Rightarrow> nat \<Rightarrow> string \<Rightarrow> string \<Rightarrow> bool" where
  "sendable type ip p path payload \<longleftrightarrow>
     plain_host ip \<and> plain_path path \<and> p < 65536 \<and> fits_request type ip p path payload"

lemma plain_status_line: "good_status code reason \<Longrightarrow> plain_line (status_text code reason)"
proof -
  assume "good_status code reason"
  then have r: "plain_line reason" by (simp add: good_status_def)
  then obtain rs c where "reason = rs @ [c]" by (cases reason rule: rev_cases) (auto simp: plain_line_def)
  then show ?thesis using plain_status [of code rs c] r by (simp add: plain_line_def)
qed

lemma plain_head:
  "good_status code reason \<Longrightarrow> list_all (\<lambda>f. plain_line (field_text f)) fs \<Longrightarrow>
   list_all plain_line (status_text code reason # map field_text fs)"
  by (simp add: plain_status_line list_all_iff)

lemma others_plain_fields: "others fs \<Longrightarrow> list_all (\<lambda>f. plain_line (field_text f)) fs"
  by (auto simp: others_def other_field_def list_all_iff plain_field_line)

lemma standard_addressed: "standard h \<Longrightarrow> standard (addressed ip p path h)"
  by (simp add: standard_def addressed_def http_clear_def)

lemma addressed_simps [simp]:
  "client (addressed ip p path h) = client h" "net (addressed ip p path h) = net h"
  "host (addressed ip p path h) = ip" "port (addressed ip p path h) = p" "uri (addressed ip p path h) = path"
  "transportTraits (addressed ip p path h) = Some TlsTraits" "headers (addressed ip p path h) = ''''"
  "heap (addressed ip p path h) = heap h" "reuse (addressed ip p path h) = reuse h"
  by (simp_all add: addressed_def http_clear_def)

lemma kept_addressed [simp]: "kept (addressed ip p path h) = kept h"
  by (simp add: kept_def)

lemma ready_addressed [simp]: "ready (addressed ip p path h) ps = ready h ps"
  by (simp add: ready_def)

text \<open>The client once the head of an answer has been read.\<close>

definition answered_client :: "string \<Rightarrow> nat \<Rightarrow> string \<Rightarrow> http \<Rightarrow> http" where
  "answered_client ip p path h =
     (http_clear (addressed ip p path h))\<lparr>client := Own, canReuse := True, encoding := Identity\<rparr>"

lemma answered_client_simps [simp]:
  "client (answered_client ip p path h) = Own" "heap (answered_client ip p path h) = heap h"
  "bodySize (answered_client ip p path h) = - 1" "encoding (answered_client ip p path h) = Identity"
  "currentHeaders (answered_client ip p path h) = currentHeaders h" "returnCode (answered_client ip p path h) = 0"
  "canReuse (answered_client ip p path h) = True" "reuse (answered_client ip p path h) = reuse h"
  by (simp_all add: answered_client_def addressed_def http_clear_def)

lemma standard_answered: "standard h \<Longrightarrow> standard (answered_client ip p path h)"
  by (simp add: answered_client_def addressed_def http_clear_def standard_def)

lemma exchange_reads:
  assumes "standard h" "ready h (ps @ qs)" "answer_script ps" "bytes ps = head_text ls @ crlf @ s"
    "list_all plain_line ls" "sendable type ip p path payload"
  shows "\<exists>n. exchange type (bridge_url ip p path) payload h =
      (let q = read_head ls ((answered_client ip p path h)\<lparr>net := n\<rparr>, '''');
           r = head_done (snd q) (fst q)
       in andThen (returnError (fst r) (snd r)) (\<lambda>(status, h).
          andThen (getString h) (\<lambda>(answer, h). Inr (status, answer, h)))) \<and>
    brings n s qs \<and> wire n = wire (net h) @ dialling h ip p @ sending type ip p path payload \<and>
    dials n = (if kept h then dials (net h) else tl (dials (net h))) \<and> writes n = []"
proof -
  let ?a = "addressed ip p path h"
  have a: "standard ?a" "ready ?a (ps @ qs)" using assms(1,2) standard_addressed by simp_all
  have f: "fits_request type (host ?a) (port ?a) (uri ?a) payload" using assms(6) by (simp add: sendable_def)
  have b: "http_begin (bridge_url ip p path) h = Inr (True, ?a)"
    using assms(2,6) by (intro http_begin_bridge) (simp_all add: sendable_def ready_def)
  obtain n where n: "sendRequest type payload ?a =
      (let p = read_head ls ((http_clear ?a)\<lparr>client := Own, canReuse := True, encoding := Identity, net := n\<rparr>, '''');
           q = head_done (snd p) (fst p)
       in returnError (fst q) (snd q))"
    "brings n s qs" "wire n = wire (net ?a) @ dialling ?a (host ?a) (port ?a) @ sending type (host ?a) (port ?a) (uri ?a) payload"
    "dials n = (if kept ?a then dials (net ?a) else tl (dials (net ?a)))" "writes n = []"
    using sendRequest_reads [OF a(1) _ _ a(2) assms(3-5) f] by auto
  have "dialling ?a (host ?a) (port ?a) = dialling h ip p" by (simp add: dialling_def)
  then show ?thesis
    using n b by (intro exI [of _ n]) (simp add: exchange_def answered_client_def Let_def)
qed

text \<open>After a request only the end of the connection is left to happen on the wire.\<close>

definition hung :: "tls_conn \<Rightarrow> tls_conn \<Rightarrow> bool" where
  "hung n n' \<longleftrightarrow> (\<exists>k. wire n' = wire n @ replicate k Hangup)"

lemma hung_refl [simp]: "hung n n"
  unfolding hung_def by (rule exI [of _ 0]) simp

lemma hung_trans [trans]: "hung a b \<Longrightarrow> hung b c \<Longrightarrow> hung a c"
  unfolding hung_def by (metis append.assoc replicate_add)

lemma hung_stop: "hung n (tls_stop n)"
  unfolding hung_def tls_stop_def by (auto intro: exI [of _ "Suc 0"] exI [of _ 0])

lemma hung_available: "tls_available n = (a, n') \<Longrightarrow> hung n n'"
proof (cases "up n")
  case True
  assume a: "tls_available n = (a, n')"
  obtain r m where r: "data_to_read n = (r, m)" by fastforce
  then have "wire m = wire n" by (auto simp: data_to_read_def split: if_splits list.splits poll.splits)
  then have m: "hung n m" unfolding hung_def by (intro exI [of _ 0]) simp
  have "n' = m \<or> n' = tls_stop m" using a r True by (auto simp: tls_available_def split: if_splits)
  then show ?thesis using m hung_stop [of m] hung_trans by blast
qed (auto simp: tls_available_def)

lemma hung_connected: "http_connected h = Inr (c, h') \<Longrightarrow> hung (net h) (net h')"
  by (auto simp: http_connected_def tls_connected_def split: pointer.splits prod.splits if_splits
      intro: hung_trans dest!: hung_available)

lemma hung_drain: "hung n (drain n)"
proof (induction n rule: drain.induct)
  case (1 n)
  obtain a m where a: "tls_available n = (a, m)" by fastforce
  note am = hung_available [OF a]
  obtain r k where r: "tls_read m = (r, k)" by fastforce
  have mk: "hung m k"
    using r hung_available by (fastforce simp: tls_read_def hung_def split: prod.splits if_splits)
  show ?case
  proof (cases "a > 0")
    case True
    with 1 [OF a [symmetric] True r [symmetric]] a r am mk show ?thesis
      by (cases r) (auto simp: drain.simps [of n] intro: hung_trans)
  next
    case False
    with a am show ?thesis by (simp add: drain.simps [of n])
  qed
qed

lemma own_disconnect:
  assumes "client h = Own"
  shows "\<exists>h'. http_disconnect b h = Inr h' \<and> hung (net h) (net h')"
proof -
  obtain c n where c: "http_connected h = Inr (c, h\<lparr>net := n\<rparr>)" using own_connected [OF assms] by auto
  have n: "hung (net h) n" using hung_connected [OF c] by simp
  have d: "hung (net h) (drain n)" using n hung_drain by (rule hung_trans)
  show ?thesis
    using c n d hung_trans [OF d hung_stop]
    by (auto simp: http_disconnect_def http_stop_def Let_def)
qed

subsection \<open>An answer with its length\<close>

lemma sized_core:
  assumes "standard h" "ready h (ps @ qs)" "answer_script ps" "bytes ps = head_text ls @ crlf @ body"
    "list_all plain_line ls" "sendable type ip p path payload" "body \<noteq> ''''" "room (heap h) (length body)"
    "\<And>n. read_head ls ((answered_client ip p path h)\<lparr>net := n\<rparr>, '''') = (g\<lparr>net := n\<rparr>, '''')"
    "client g = Own" "encoding g = Identity" "bodySize g = int (length body)" "returnCode g = int code" "0 < code"
    "heap g = heap h"
  shows "\<exists>n c m. brings n '''' qs \<and> http_connected (g\<lparr>net := n\<rparr>) = Inr (c, g\<lparr>net := m\<rparr>) \<and>
    exchange type (bridge_url ip p path) payload h =
      andThen (http_disconnect True (g\<lparr>net := m\<rparr>)) (\<lambda>h. Inr (int code, body, h)) \<and>
    wire n = wire (net h) @ dialling h ip p @ sending type ip p path payload \<and>
    dials n = (if kept h then dials (net h) else tl (dials (net h))) \<and> writes n = []"
proof -
  obtain k where k: "exchange type (bridge_url ip p path) payload h =
      (let q = read_head ls ((answered_client ip p path h)\<lparr>net := k\<rparr>, '''');
           r = head_done (snd q) (fst q)
       in andThen (returnError (fst r) (snd r)) (\<lambda>(status, h).
          andThen (getString h) (\<lambda>(answer, h). Inr (status, answer, h))))"
    "brings k body qs" "wire k = wire (net h) @ dialling h ip p @ sending type ip p path payload"
    "dials k = (if kept h then dials (net h) else tl (dials (net h)))" "writes k = []"
    using exchange_reads [OF assms(1-6)] by blast
  have g: "(g\<lparr>net := k\<rparr>)\<lparr>encoding := Identity\<rparr> = g\<lparr>net := k\<rparr>" using assms(11) by (cases g) simp
  have e: "exchange type (bridge_url ip p path) payload h =
      andThen (getString (g\<lparr>net := k\<rparr>)) (\<lambda>(answer, h). Inr (int code, answer, h))"
    using k(1) assms(9,13,14) g by (simp add: head_done_def returnError_def Let_def)
  obtain n c m where n: "brings n '''' qs" "same_out k n" "http_connected (g\<lparr>net := n\<rparr>) = Inr (c, g\<lparr>net := m\<rparr>)"
    "getString (g\<lparr>net := k\<rparr>) = andThen (http_disconnect True (g\<lparr>net := m\<rparr>)) (\<lambda>h. Inr (body, h))"
    using getString_sized [of "g\<lparr>net := k\<rparr>" body qs] assms(7,8,10-12,15) k(2) by auto
  from e n(4) have "exchange type (bridge_url ip p path) payload h =
      andThen (http_disconnect True (g\<lparr>net := m\<rparr>)) (\<lambda>h. Inr (int code, body, h))"
    by (simp add: andThen_assoc)
  with n(1-3) k(3-5) show ?thesis
    by (intro exI [of _ n] exI [of _ c] exI [of _ m]) (simp add: same_out_def)
qed

text \<open>The client that has read a head with a length, and one that has read the announcement of the end as well.\<close>

definition sized_client :: "string \<Rightarrow> nat \<Rightarrow> string \<Rightarrow> http \<Rightarrow> nat \<Rightarrow> string \<Rightarrow> http" where
  "sized_client ip p path h code body =
     (answered_client ip p path h)\<lparr>returnCode := int code, bodySize := int (length body)\<rparr>"

lemma sized_client_simps [simp]:
  "client (sized_client ip p path h code body) = Own" "encoding (sized_client ip p path h code body) = Identity"
  "bodySize (sized_client ip p path h code body) = int (length body)"
  "returnCode (sized_client ip p path h code body) = int code" "heap (sized_client ip p path h code body) = heap h"
  "canReuse (sized_client ip p path h code body) = True" "reuse (sized_client ip p path h code body) = reuse h"
  "currentHeaders (sized_client ip p path h code body) = currentHeaders h"
  by (simp_all add: sized_client_def)

lemma net_last:
  "h\<lparr>net := n, returnCode := c\<rparr> = h\<lparr>returnCode := c, net := n\<rparr>"
  "h\<lparr>net := n, bodySize := b\<rparr> = h\<lparr>bodySize := b, net := n\<rparr>"
  "h\<lparr>net := n, canReuse := r\<rparr> = h\<lparr>canReuse := r, net := n\<rparr>"
  by (cases h, simp)+

lemma sized_head:
  assumes "standard h" "good_status code reason" "others fs" "others gs" "length body < 2 ^ 31"
  shows "read_head (status_text code reason # map field_text (fs @ length_field body # gs))
      ((answered_client ip p path h)\<lparr>net := n\<rparr>, '''') = ((sized_client ip p path h code body)\<lparr>net := n\<rparr>, '''')"
proof -
  have c: "currentHeaders h = []" "code < 2 ^ 31" "CHR 0x00 \<notin> set reason"
    using assms(1,2) by (simp_all add: standard_def good_status_def)
  let ?c = "(answered_client ip p path h)\<lparr>returnCode := int code, net := n\<rparr>"
  have 1: "header_line (status_text code reason) ((answered_client ip p path h)\<lparr>net := n\<rparr>, '''') = (?c, '''')"
    using c by (simp add: status_line_text net_last)
  have 2: "header_line (field_text (length_field body)) (?c, '''') = ((sized_client ip p path h code body)\<lparr>net := n\<rparr>, '''')"
    using c assms(5) by (simp add: length_line length_field_def sized_client_def net_last)
  have 3: "read_head (map field_text gs @ []) ((sized_client ip p path h code body)\<lparr>net := n\<rparr>, '''') =
      ((sized_client ip p path h code body)\<lparr>net := n\<rparr>, '''')"
    using read_head_others [OF assms(4)] c read_head_Nil by (simp del: append_Nil2)
  show ?thesis
    using 1 2 3 c read_head_others [OF assms(3)] by simp
qed

lemma sized_answer:
  assumes "standard h" "sendable type ip p path payload" "good_status code reason" "others fs" "others gs"
    "body \<noteq> ''''" "room (heap h) (length body)" "ready h (ps @ qs)" "answer_script ps"
    "bytes ps = answer_head code reason (fs @ length_field body # gs) @ body"
  shows "\<exists>h' k. exchange type (bridge_url ip p path) payload h = Inr (int code, body, h') \<and>
    wire (net h') = wire (net h) @ dialling h ip p @ sending type ip p path payload @ replicate k Hangup"
proof -
  let ?g = "sized_client ip p path h code body"
  let ?ls = "status_text code reason # map field_text (fs @ length_field body # gs)"
  have ls: "list_all plain_line ?ls"
    using assms(3-5) others_plain_fields by (intro plain_head) (auto simp: length_field_def)
  have len: "length body < 2 ^ 31" using assms(7) by (simp add: room_def)
  have code: "0 < code" using assms(3) by (simp add: good_status_def)
  have b: "bytes ps = head_text ?ls @ crlf @ body" using assms(10) by (simp add: answer_head_def)
  obtain n c m where n: "brings n '''' qs" "http_connected (?g\<lparr>net := n\<rparr>) = Inr (c, ?g\<lparr>net := m\<rparr>)"
    "exchange type (bridge_url ip p path) payload h =
       andThen (http_disconnect True (?g\<lparr>net := m\<rparr>)) (\<lambda>h. Inr (int code, body, h))"
    "wire n = wire (net h) @ dialling h ip p @ sending type ip p path payload"
    using sized_core [OF assms(1,8,9) b ls assms(2,6,7) sized_head [OF assms(1,3-5) len]] code by auto
  obtain h' where h': "http_disconnect True (?g\<lparr>net := m\<rparr>) = Inr h'" "hung m (net h')"
    using own_disconnect [of "?g\<lparr>net := m\<rparr>" True] by auto
  have "hung n (net h')" using hung_connected [OF n(2)] h'(2) by (auto intro: hung_trans)
  then show ?thesis using n(3,4) h'(1) by (auto simp: hung_def)
qed

subsection \<open>A session\<close>

record round =
  r_type :: string
  r_path :: string
  r_payload :: string
  r_code :: nat
  r_reason :: string
  r_fields :: "(string \<times> string) list"
  r_body :: string
  r_script :: "poll list"
  r_pauses :: "nat list"

fun exchanges :: "string \<Rightarrow> nat \<Rightarrow> round list \<Rightarrow> http \<Rightarrow> ((int \<times> string) list \<times> http) res" where
  "exchanges ip p [] h = Inr ([], h)"
| "exchanges ip p (r # rs) h =
     andThen (exchange (r_type r) (bridge_url ip p (r_path r)) (r_payload r) h) (\<lambda>(status, answer, h).
     andThen (exchanges ip p rs h) (\<lambda>(as, h). Inr ((status, answer) # as, h)))"

text \<open>
  The answer of a round: its script and then eight looks that find nothing, so that the next answer does
  not start before the next request.
\<close>

definition good_round :: "string \<Rightarrow> nat \<Rightarrow> nat \<Rightarrow> round \<Rightarrow> bool" where
  "good_round ip p m r \<longleftrightarrow> sendable (r_type r) ip p (r_path r) (r_payload r) \<and> good_status (r_code r) (r_reason r) \<and>
     others (r_fields r) \<and> r_body r \<noteq> '''' \<and> room m (length (r_body r)) \<and> answer_script (r_script r) \<and>
     bytes (r_script r) = answer_head (r_code r) (r_reason r) (r_fields r @ [length_field (r_body r)]) @ r_body r \<and>
     length (r_pauses r) = 8"

definition session_script :: "round list \<Rightarrow> poll list" where
  "session_script rs = concat (map (\<lambda>r. r_script r @ map Quiet (r_pauses r)) rs)"

definition round_wire :: "string \<Rightarrow> nat \<Rightarrow> round \<Rightarrow> wire list" where
  "round_wire ip p r = sending (r_type r) ip p (r_path r) (r_payload r)"

lemma disconnect_kept:
  assumes "client h = Own" "reuse h" "canReuse h" "looks (Suc (Suc (Suc k))) (net h) qs"
  shows "\<exists>n. http_disconnect True h = Inr (h\<lparr>net := n\<rparr>) \<and> looks k n qs \<and> same_out (net h) n"
proof -
  obtain n where n: "http_connected h = Inr (True, h\<lparr>net := n\<rparr>)" "looks (Suc k) n qs" "same_out (net h) n"
    using connected_looks [OF assms(1,4)] by auto
  then have "looks k (drain n) qs \<and> same_out (net h) (drain n)" using drain_looks by (blast intro: same_out_trans)
  with n(1) assms(2,3) show ?thesis by (intro exI [of _ "drain n"]) (simp add: http_disconnect_def Let_def)
qed

lemma round_step:
  assumes "standard h" "good_round ip p (heap h) r" "ready h (r_script r @ map Quiet (r_pauses r) @ rest)"
  shows "\<exists>h'. exchange (r_type r) (bridge_url ip p (r_path r)) (r_payload r) h = Inr (int (r_code r), r_body r, h') \<and>
    standard h' \<and> heap h' = heap h \<and> kept h' \<and> ready h' rest \<and>
    wire (net h') = wire (net h) @ dialling h ip p @ round_wire ip p r"
proof -
  let ?g = "sized_client ip p (r_path r) h (r_code r) (r_body r)"
  let ?ls = "status_text (r_code r) (r_reason r) # map field_text (r_fields r @ length_field (r_body r) # [])"
  have r: "sendable (r_type r) ip p (r_path r) (r_payload r)" "good_status (r_code r) (r_reason r)"
    "others (r_fields r)" "others []" "r_body r \<noteq> ''''" "room (heap h) (length (r_body r))" "answer_script (r_script r)"
    "bytes (r_script r) = head_text ?ls @ crlf @ r_body r" "length (r_pauses r) = 8"
    using assms(2) by (simp_all add: good_round_def answer_head_def others_def)
  have ls: "list_all plain_line ?ls"
    using r(2,3) others_plain_fields by (intro plain_head) (auto simp: length_field_def)
  have len: "length (r_body r) < 2 ^ 31" using r(6) by (simp add: room_def)
  have code: "0 < r_code r" using r(2) by (simp add: good_status_def)
  obtain n c m where n: "brings n '''' (map Quiet (r_pauses r) @ rest)"
    "http_connected (?g\<lparr>net := n\<rparr>) = Inr (c, ?g\<lparr>net := m\<rparr>)"
    "exchange (r_type r) (bridge_url ip p (r_path r)) (r_payload r) h =
       andThen (http_disconnect True (?g\<lparr>net := m\<rparr>)) (\<lambda>h. Inr (int (r_code r), r_body r, h))"
    "wire n = wire (net h) @ dialling h ip p @ round_wire ip p r" "writes n = []"
    using sized_core [OF assms(1,3) r(7,8) ls r(1,5,6) sized_head [OF assms(1) r(2,3,4) len]] code
    by (auto simp: round_wire_def)
  have "looks 8 n rest" using n(1) r(9) by (auto simp: looks_def brings_Nil)
  then obtain m' where m': "http_connected (?g\<lparr>net := n\<rparr>) = Inr (True, ?g\<lparr>net := m'\<rparr>)" "looks 6 m' rest" "same_out n m'"
    using connected_looks [of "?g\<lparr>net := n\<rparr>" 6 rest] by (auto simp: numeral_eq_Suc)
  then have "?g\<lparr>net := m\<rparr> = ?g\<lparr>net := m'\<rparr>" using n(2) by simp
  then obtain q where q: "http_disconnect True (?g\<lparr>net := m\<rparr>) = Inr (?g\<lparr>net := q\<rparr>)" "looks 3 q rest" "same_out m' q"
    using disconnect_kept [of "?g\<lparr>net := m'\<rparr>" 3 rest] m'(2) assms(1)
    by (auto simp: numeral_eq_Suc standard_def)
  have g: "standard (?g\<lparr>net := q\<rparr>)"
    using standard_answered [OF assms(1)] by (simp add: sized_client_def standard_def)
  have k: "kept (?g\<lparr>net := q\<rparr>)" using q(2) by (simp add: kept_def looks_def)
  have "writes q = []" "wire q = wire n" using m'(3) q(3) n(5) by (simp_all add: same_out_def)
  then have "ready (?g\<lparr>net := q\<rparr>) rest" using k q(2) by (simp add: ready_def looks_def)
  with g k n(3,4) q(1) \<open>wire q = wire n\<close> show ?thesis
    by (intro exI [of _ "?g\<lparr>net := q\<rparr>"]) simp
qed

lemma session_kept:
  "standard h \<Longrightarrow> list_all (good_round ip p (heap h)) rs \<Longrightarrow> ready h (session_script rs) \<Longrightarrow>
   \<exists>h'. exchanges ip p rs h = Inr (map (\<lambda>r. (int (r_code r), r_body r)) rs, h') \<and>
     wire (net h') = wire (net h) @ (if rs = [] then [] else dialling h ip p @ concat (map (round_wire ip p) rs))"
proof (induction rs arbitrary: h)
  case (Cons r rs)
  obtain h1 where h1: "exchange (r_type r) (bridge_url ip p (r_path r)) (r_payload r) h = Inr (int (r_code r), r_body r, h1)"
    "standard h1" "heap h1 = heap h" "kept h1" "ready h1 (session_script rs)"
    "wire (net h1) = wire (net h) @ dialling h ip p @ round_wire ip p r"
    using round_step [of h ip p r "session_script rs"] Cons.prems by (auto simp: session_script_def)
  moreover obtain h2 where
    "exchanges ip p rs h1 = Inr (map (\<lambda>r. (int (r_code r), r_body r)) rs, h2)"
    "wire (net h2) = wire (net h1) @ (if rs = [] then [] else dialling h1 ip p @ concat (map (round_wire ip p) rs))"
    using Cons.IH [OF h1(2) _ h1(5)] Cons.prems(2) h1(3) by auto
  ultimately show ?case by (auto simp: dialling_def)
qed simp

lemma standard_new: "standard (http_new m ds)"
  by (simp add: standard_def http_new_def)

lemma new_session:
  assumes "list_all (good_round ip p m) rs" "rs \<noteq> []"
  shows "\<exists>h. exchanges ip p rs (http_new m [Some \<lparr>on_polls = session_script rs, on_writes = []\<rparr>]) =
      Inr (map (\<lambda>r. (int (r_code r), r_body r)) rs, h) \<and>
    wire (net h) = Dial ip p # concat (map (round_wire ip p) rs)"
proof -
  let ?h = "http_new m [Some \<lparr>on_polls = session_script rs, on_writes = []\<rparr>]"
  have h: "ready ?h (session_script rs)" "heap ?h = m" "\<not> kept ?h" "wire (net ?h) = []"
    by (simp_all add: ready_def http_new_def kept_def)
  show ?thesis
    using session_kept [of ?h ip p rs, OF standard_new] assms h by (auto simp: dialling_def)
qed

text \<open>
  C7: For any sequence of requests to a bridge, answered over one connection with well-formed answers that carry their length, however the bytes of each answer are
  cut into records and delayed (no second without a byte), a new HTTP client returns exactly the statuses and bodies the bridge sent, in order; and what leaves the device is
  one connection and the exact text of every request: its line, host, fixed headers, length and body.
\<close>

theorem session_answers:
  assumes "list_all (good_round ip p m) rs" "rs \<noteq> []"
  shows "\<exists>h. exchanges ip p rs (http_new m [Some \<lparr>on_polls = session_script rs, on_writes = []\<rparr>]) =
      Inr (map (\<lambda>r. (int (r_code r), r_body r)) rs, h) \<and>
    wire (net h) = Dial ip p # concat (map (round_wire ip p) rs)"
  using assms by (rule new_session)

subsection \<open>An answer in chunks\<close>

definition chunked_client :: "string \<Rightarrow> nat \<Rightarrow> string \<Rightarrow> http \<Rightarrow> nat \<Rightarrow> http" where
  "chunked_client ip p path h code = (answered_client ip p path h)\<lparr>returnCode := int code, encoding := Chunked\<rparr>"

lemma chunked_client_simps [simp]:
  "client (chunked_client ip p path h code) = Own" "encoding (chunked_client ip p path h code) = Chunked"
  "bodySize (chunked_client ip p path h code) = - 1" "heap (chunked_client ip p path h code) = heap h"
  "canReuse (chunked_client ip p path h code) = True" "reuse (chunked_client ip p path h code) = reuse h"
  by (simp_all add: chunked_client_def)

lemma chunked_head:
  assumes "standard h" "good_status code reason" "others fs" "others gs"
  shows "read_head (status_text code reason # map field_text (fs @ chunked_field # gs))
      ((answered_client ip p path h)\<lparr>net := n\<rparr>, '''') =
    ((answered_client ip p path h)\<lparr>returnCode := int code, net := n\<rparr>, ''chunked'')"
proof -
  have c: "currentHeaders h = []" "code < 2 ^ 31" "CHR 0x00 \<notin> set reason"
    using assms(1,2) by (simp_all add: standard_def good_status_def)
  let ?c = "(answered_client ip p path h)\<lparr>returnCode := int code, net := n\<rparr>"
  have 1: "header_line (status_text code reason) ((answered_client ip p path h)\<lparr>net := n\<rparr>, '''') = (?c, '''')"
    using c by (simp add: status_line_text net_last)
  have 2: "header_line (field_text chunked_field) (?c, '''') = (?c, ''chunked'')"
    using c by (simp add: chunked_line chunked_field_def)
  have 3: "read_head (map field_text gs @ []) (?c, ''chunked'') = (?c, ''chunked'')"
    using read_head_others [OF assms(4)] c read_head_Nil by (simp del: append_Nil2)
  show ?thesis using 1 2 3 c read_head_others [OF assms(3)] by simp
qed

lemma chunked_core:
  assumes "standard h" "sendable type ip p path payload" "good_status code reason" "others fs" "others gs"
    "list_all good_chunk cs" "room (heap h) (length (concat cs))" "ready h (ps @ qs)" "answer_script ps"
    "bytes ps = answer_head code reason (fs @ chunked_field # gs) @ chunked_text cs @ s"
  shows "\<exists>n. brings n s qs \<and> exchange type (bridge_url ip p path) payload h =
      andThen (http_disconnect True ((chunked_client ip p path h code)\<lparr>net := n, bodySize := int (length (concat cs))\<rparr>))
        (\<lambda>h. Inr (int code, concat cs, h)) \<and>
    wire n = wire (net h) @ dialling h ip p @ sending type ip p path payload \<and>
    dials n = (if kept h then dials (net h) else tl (dials (net h))) \<and> writes n = []"
proof -
  let ?g = "chunked_client ip p path h code"
  let ?ls = "status_text code reason # map field_text (fs @ chunked_field # gs)"
  have ls: "list_all plain_line ?ls"
    using assms(3-5) others_plain_fields by (intro plain_head) (auto simp: chunked_field_def)
  have code: "0 < code" using assms(3) by (simp add: good_status_def)
  have b: "bytes ps = head_text ?ls @ crlf @ chunked_text cs @ s" using assms(10) by (simp add: answer_head_def)
  obtain k where k: "exchange type (bridge_url ip p path) payload h =
      (let q = read_head ?ls ((answered_client ip p path h)\<lparr>net := k\<rparr>, '''');
           r = head_done (snd q) (fst q)
       in andThen (returnError (fst r) (snd r)) (\<lambda>(status, h).
          andThen (getString h) (\<lambda>(answer, h). Inr (status, answer, h))))"
    "brings k (chunked_text cs @ s) qs" "wire k = wire (net h) @ dialling h ip p @ sending type ip p path payload"
    "dials k = (if kept h then dials (net h) else tl (dials (net h)))" "writes k = []"
    using exchange_reads [OF assms(1,8,9) b ls assms(2)] by blast
  have g: "((answered_client ip p path h)\<lparr>returnCode := int code, net := k\<rparr>)\<lparr>encoding := Chunked\<rparr> = ?g\<lparr>net := k\<rparr>"
    by (cases "answered_client ip p path h") (simp add: chunked_client_def)
  have "equalsIgnoreCase ''chunked'' ''chunked''" by (simp add: equalsIgnoreCase_def)
  then have e: "exchange type (bridge_url ip p path) payload h =
      andThen (getString (?g\<lparr>net := k\<rparr>)) (\<lambda>(answer, h). Inr (int code, answer, h))"
    using k(1) chunked_head [OF assms(1,3,4,5)] g code by (simp add: head_done_def returnError_def Let_def)
  obtain n where n: "brings n s qs" "same_out k n"
    "getString (?g\<lparr>net := k\<rparr>) =
       andThen (http_disconnect True (?g\<lparr>net := n, bodySize := int (length (concat cs))\<rparr>)) (\<lambda>h. Inr (concat cs, h))"
    using getString_chunked [of "?g\<lparr>net := k\<rparr>" cs s qs] assms(6,7) k(2) by auto
  from e n(3) have "exchange type (bridge_url ip p path) payload h =
      andThen (http_disconnect True (?g\<lparr>net := n, bodySize := int (length (concat cs))\<rparr>)) (\<lambda>h. Inr (int code, concat cs, h))"
    by (simp add: andThen_assoc)
  with n(1,2) k(3-5) show ?thesis by (intro exI [of _ n]) (simp add: same_out_def)
qed

text \<open>
  C15: An answer in chunks is decoded to the concatenation of the chunks, for every way of cutting the body into chunks and the bytes into records, and whatever follows
  the last chunk on the connection; the request text is sent once.
\<close>

theorem chunked_answer:
  assumes "standard h" "sendable type ip p path payload" "good_status code reason" "others fs" "others gs"
    "list_all good_chunk cs" "room (heap h) (length (concat cs))" "ready h (ps @ qs)" "answer_script ps"
    "bytes ps = answer_head code reason (fs @ chunked_field # gs) @ chunked_text cs @ s"
  shows "\<exists>h' k. exchange type (bridge_url ip p path) payload h = Inr (int code, concat cs, h') \<and>
    wire (net h') = wire (net h) @ dialling h ip p @ sending type ip p path payload @ replicate k Hangup"
proof -
  let ?g = "chunked_client ip p path h code"
  obtain n where n: "exchange type (bridge_url ip p path) payload h =
      andThen (http_disconnect True (?g\<lparr>net := n, bodySize := int (length (concat cs))\<rparr>)) (\<lambda>h. Inr (int code, concat cs, h))"
    "wire n = wire (net h) @ dialling h ip p @ sending type ip p path payload"
    using chunked_core [OF assms] by blast
  obtain h' where "http_disconnect True (?g\<lparr>net := n, bodySize := int (length (concat cs))\<rparr>) = Inr h'" "hung n (net h')"
    using own_disconnect [of "?g\<lparr>net := n, bodySize := int (length (concat cs))\<rparr>" True] by auto
  with n show ?thesis by (auto simp: hung_def)
qed

subsection \<open>A sample exchange\<close>

text \<open>A lamp of a bridge at 10.0.0.2 is switched on; the answer comes in three records.\<close>

definition cut_script :: "string \<Rightarrow> string \<Rightarrow> poll list" where
  "cut_script head body = [Quiet 5, Record 5 (take 7 head), Record 90 (drop 7 head), Quiet 600, Quiet 20, Record 1 body]"

definition sample_head :: string where
  "sample_head = answer_head 200 ''OK'' ([(''Server'', ''nginx'')] @ [length_field ''[]''])"

definition sample_round :: round where
  "sample_round = \<lparr>r_type = ''PUT'', r_path = ''/api/u/lights/3/state'', r_payload = ''{\"on\":true}'', r_code = 200,
     r_reason = ''OK'', r_fields = [(''Server'', ''nginx'')], r_body = ''[]'', r_script = cut_script sample_head ''[]'',
     r_pauses = replicate 8 10\<rparr>"

lemma sample_sendable: "sendable ''PUT'' ''10.0.0.2'' 443 ''/api/u/lights/3/state'' ''{\"on\":true}''"
  using String_uint_length [of "length ''{\"on\":true}''"]
  by (simp add: sendable_def plain_host_def plain_path_def fits_request_def request_text_def crlf_def)

lemma sample_status: "good_status 200 ''OK''"
  by (simp add: good_status_def plain_line_def c_isspace_def)

lemma sample_others: "others [(''Server'', ''nginx'')]" "others []"
  by (simp_all add: others_def other_field_def plain_field_def plain_line_def c_isspace_def startsWith_def
      equalsIgnoreCase_def lower_def)

lemma cut_script:
  assumes "7 < length head" "body \<noteq> ''''"
  shows "answer_script (cut_script head body)" "bytes (cut_script head body) = head @ body"
  using assms by (auto simp: answer_script_def cut_script_def stream_timeout_def)

lemma head_longer: "7 < length (answer_head code reason fs)"
  by (simp add: answer_head_def status_text_def)

lemma sample_good: "good_round ''10.0.0.2'' 443 1000 sample_round"
  using sample_sendable sample_status sample_others head_longer
  by (simp add: good_round_def sample_round_def cut_script sample_head_def room_def)

theorem session_answers_witness:
  "\<exists>h. exchanges ''10.0.0.2'' 443 [sample_round, sample_round]
       (http_new 1000 [Some \<lparr>on_polls = session_script [sample_round, sample_round], on_writes = []\<rparr>]) =
     Inr ([(200, ''[]''), (200, ''[]'')], h) \<and>
   wire (net h) = Dial ''10.0.0.2'' 443 # concat (map (round_wire ''10.0.0.2'' 443) [sample_round, sample_round])"
  using session_answers [of "''10.0.0.2''" 443 1000 "[sample_round, sample_round]"] sample_good
  by (simp add: sample_round_def)

text \<open>Its answer in two chunks.\<close>

definition sample_chunked_head :: string where
  "sample_chunked_head = answer_head 200 ''OK'' ([(''Server'', ''nginx'')] @ chunked_field # [])"

lemma sample_chunks: "list_all good_chunk [''[ '', '']'']"
  by (simp add: good_chunk_def)

lemma ready_new:
  "ready (http_new m [Some \<lparr>on_polls = ps, on_writes = []\<rparr>]) ps" "heap (http_new m ds) = m"
  by (simp_all add: ready_def http_new_def kept_def)

lemma chunked_nonempty: "chunked_text cs \<noteq> ''''"
  by (simp add: chunked_text_def)

theorem chunked_answer_witness:
  "\<exists>h' k. exchange ''PUT'' (bridge_url ''10.0.0.2'' 443 ''/api/u/lights/3/state'') ''{\"on\":true}''
       (http_new 1000 [Some \<lparr>on_polls = cut_script sample_chunked_head (chunked_text [''[ '', '']''] @ crlf) @ [Lost 5], on_writes = []\<rparr>]) =
     Inr (200, ''[ ]'', h') \<and>
     wire (net h') = Dial ''10.0.0.2'' 443 #
       sending ''PUT'' ''10.0.0.2'' 443 ''/api/u/lights/3/state'' ''{\"on\":true}'' @ replicate k Hangup"
proof -
  let ?ps = "cut_script sample_chunked_head (chunked_text [''[ '', '']''] @ crlf)"
  let ?h = "http_new 1000 [Some \<lparr>on_polls = ?ps @ [Lost 5], on_writes = []\<rparr>]"
  have s: "answer_script ?ps" "bytes ?ps = sample_chunked_head @ (chunked_text [''[ '', '']''] @ crlf)"
    using cut_script [of sample_chunked_head "chunked_text [''[ '', '']''] @ crlf"] head_longer chunked_nonempty
    by (simp_all add: sample_chunked_head_def)
  have d: "dialling ?h ''10.0.0.2'' 443 = [Dial ''10.0.0.2'' 443]" "wire (net ?h) = []"
    by (simp_all add: dialling_def http_new_def kept_def)
  have "room (heap ?h) (length (concat [''[ '', '']'']))" by (simp add: ready_new room_def)
  from chunked_answer [OF standard_new sample_sendable sample_status sample_others sample_chunks this ready_new(1) s(1), of crlf]
    s(2) d show ?thesis by (simp add: sample_chunked_head_def)
qed

end
