(* ===== verification/Http_Failures.thy ===== *)
theory Http_Failures
  imports Http_Service
begin

section \<open>How exchanges fail\<close>

text \<open>
  What the application gets when the bridge is silent, when a body is cut off or stalls, when the end of a
  chunked answer comes late, and when the bridge announces the end of the connection.
\<close>

subsection \<open>A connection that is gone\<close>

lemma gone_connected: "client h = Own \<Longrightarrow> \<not> up (net h) \<Longrightarrow> http_connected h = Inr (False, h)"
  by (cases h) (simp add: http_connected_def tls_available_def tls_connected_def)

lemma gone_chunk_error: "client h = Own \<Longrightarrow> \<not> up (net h) \<Longrightarrow> e < 0 \<Longrightarrow> chunk_error e t h = Inr (e, t, h)"
  by (simp add: chunk_error_def returnError_def gone_connected)

lemma gone_getString: "client h = Own \<Longrightarrow> \<not> up (net h) \<Longrightarrow> bodySize h = - 1 \<Longrightarrow> getString h = Inr ('''', h)"
  using as_unsigned_simps(2) [of 0]
  by (simp add: getString_def writeToStream_def gone_connected gone_chunk_error changeBuffer_def HTTPC_ERROR_NOT_CONNECTED_def)

lemma connected_False_down: "http_connected h = Inr (False, h') \<Longrightarrow> client h = Own \<Longrightarrow> \<not> up (net h')"
  by (auto simp: http_connected_def tls_connected_def split: prod.splits if_splits)

lemma returnError_gone:
  assumes "client h = Own" "e < 0"
  shows "\<exists>n. returnError e h = Inr (e, h\<lparr>net := n\<rparr>) \<and> \<not> up n"
proof -
  obtain c n where c: "http_connected h = Inr (c, h\<lparr>net := n\<rparr>)" using own_connected [OF assms(1)] by auto
  show ?thesis
  proof (cases c)
    case True
    then show ?thesis using c assms(2)
      by (intro exI [of _ "tls_stop n"]) (simp add: returnError_def http_stop_def tls_stop_def)
  next
    case False
    then show ?thesis using c assms connected_False_down [of h "h\<lparr>net := n\<rparr>"]
      by (intro exI [of _ n]) (simp add: returnError_def)
  qed
qed

subsection \<open>The end of a chunked answer that comes late\<close>

text \<open>
  \<open>writeToStream\<close> does not read the empty line behind the last chunk. When it comes after the connection
  has been put aside, it is taken for the head of the next answer.
\<close>

lemma empty_head_fails:
  assumes "standard h" "ready h (ps @ qs)" "answer_script ps" "bytes ps = crlf @ s" "sendable type ip p path payload"
  shows "\<exists>h'. exchange type (bridge_url ip p path) payload h = Inr (HTTPC_ERROR_NO_HTTP_SERVER, '''', h')"
proof -
  let ?g = "answered_client ip p path h"
  obtain n where n: "exchange type (bridge_url ip p path) payload h =
      (let q = read_head [] (?g\<lparr>net := n\<rparr>, '''');
           r = head_done (snd q) (fst q)
       in andThen (returnError (fst r) (snd r)) (\<lambda>(status, h).
          andThen (getString h) (\<lambda>(answer, h). Inr (status, answer, h))))"
    using exchange_reads [OF assms(1-3) _ _ assms(5), of "[]" s] assms(4) by (auto simp del: read_head.simps)
  have c: "currentHeaders h = []" using assms(1) by (simp add: standard_def)
  let ?h = "(?g\<lparr>net := n\<rparr>)\<lparr>encoding := Identity\<rparr>"
  obtain m where m: "returnError HTTPC_ERROR_NO_HTTP_SERVER ?h = Inr (HTTPC_ERROR_NO_HTTP_SERVER, ?h\<lparr>net := m\<rparr>)" "\<not> up m"
    using returnError_gone [of ?h HTTPC_ERROR_NO_HTTP_SERVER] by (auto simp: HTTPC_ERROR_NO_HTTP_SERVER_def)
  have "getString (?h\<lparr>net := m\<rparr>) = Inr ('''', ?h\<lparr>net := m\<rparr>)" using m(2) by (intro gone_getString) simp_all
  with n m(1) c show ?thesis by (simp add: head_done_def Let_def del: read_head.simps)
qed

text \<open>
  The client does not read the empty line behind the last chunk. When it arrives only after the connection has been put aside, the next request on the same connection fails with
  NO_HTTP_SERVER and an empty answer, whatever the bridge answers to it.
\<close>

lemma late_terminator:
  assumes "standard h" "sendable type ip p path payload" "good_status code reason" "others fs" "others gs"
    "list_all good_chunk cs" "room (heap h) (length (concat cs))"
    "ready h (ps @ map Quiet ts @ qs @ rest)" "answer_script ps" "length ts = 6" "answer_script qs"
    "bytes ps = answer_head code reason (fs @ chunked_field # gs) @ chunked_text cs" "bytes qs = crlf @ next_answer"
    "sendable type' ip p path' payload'"
  shows "\<exists>h1 h2. exchange type (bridge_url ip p path) payload h = Inr (int code, concat cs, h1) \<and>
    exchange type' (bridge_url ip p path') payload' h1 = Inr (HTTPC_ERROR_NO_HTTP_SERVER, '''', h2)"
proof -
  let ?g = "(chunked_client ip p path h code)\<lparr>bodySize := int (length (concat cs))\<rparr>"
  obtain n where n: "brings n '''' (map Quiet ts @ qs @ rest)"
    "exchange type (bridge_url ip p path) payload h =
      andThen (http_disconnect True ((chunked_client ip p path h code)\<lparr>net := n, bodySize := int (length (concat cs))\<rparr>))
        (\<lambda>h. Inr (int code, concat cs, h))" "writes n = []"
    using chunked_core [OF assms(1-9), of "''''"] assms(12) by auto
  have e: "(chunked_client ip p path h code)\<lparr>net := n, bodySize := int (length (concat cs))\<rparr> = ?g\<lparr>net := n\<rparr>"
    by (simp add: net_last)
  have "looks 6 n (qs @ rest)" using n(1) assms(10) by (auto simp: looks_def brings_Nil)
  then obtain q where q: "http_disconnect True (?g\<lparr>net := n\<rparr>) = Inr (?g\<lparr>net := q\<rparr>)" "looks 3 q (qs @ rest)" "same_out n q"
    using disconnect_kept [of "?g\<lparr>net := n\<rparr>" 3 "qs @ rest"] assms(1) by (auto simp: numeral_eq_Suc standard_def)
  let ?h = "?g\<lparr>net := q\<rparr>"
  have s: "standard ?h" using standard_answered [OF assms(1)] by (simp add: chunked_client_def standard_def)
  have "writes q = []" using q(3) n(3) by (simp add: same_out_def)
  then have r: "ready ?h (qs @ rest)" using q(2) by (simp add: ready_def kept_def looks_def)
  obtain h2 where "exchange type' (bridge_url ip p path') payload' ?h = Inr (HTTPC_ERROR_NO_HTTP_SERVER, '''', h2)"
    using empty_head_fails [OF s r assms(11,13,14)] by blast
  with n(2) e q(1) show ?thesis by auto
qed

subsection \<open>A body that does not come to its end\<close>

text \<open>The client has read the head and the part of the body that comes; the loop waits for the rest.\<close>

lemma encoding_same: "encoding h = e \<Longrightarrow> (h\<lparr>net := n\<rparr>)\<lparr>encoding := e\<rparr> = h\<lparr>net := n\<rparr>"
  by (cases h) simp

lemma data_block_unfold:
  assumes "0 < k" "\<not> (if k < HTTP_TCP_BUFFER_SIZE then k else HTTP_TCP_BUFFER_SIZE) > int (heap h)"
  shows "writeToStreamDataBlock k t h =
    andThen (block_loop (nat (if k < HTTP_TCP_BUFFER_SIZE then k else HTTP_TCP_BUFFER_SIZE)) k 0 t h)
      (\<lambda>(err, w, t, h). Inr (case err of Some e \<Rightarrow> e | None \<Rightarrow> if k \<noteq> w then HTTPC_ERROR_STREAM_WRITE else w, t, h))"
  using assms unfolding writeToStreamDataBlock_def Let_def
  by (simp, auto intro!: arg_cong2 [where f = andThen] ext split: option.splits)

definition body_end :: "int \<Rightarrow> int option \<times> int \<times> string \<times> http \<Rightarrow> (int \<times> string \<times> http) res" where
  "body_end k = (\<lambda>(err, w, t, h).
     let ret = (case err of Some e \<Rightarrow> e | None \<Rightarrow> if k \<noteq> w then HTTPC_ERROR_STREAM_WRITE else w)
     in if ret < 0 then chunk_error ret t h else andThen (http_disconnect True h) (\<lambda>h. Inr (ret, t, h)))"

lemma part_read:
  assumes "standard h" "sendable type ip p path payload" "good_status code reason" "others fs" "others gs"
    "part \<noteq> ''''" "missing \<noteq> ''''" "room (heap h) (length (part @ missing))" "ready h (ps @ qs)" "answer_script ps"
    "bytes ps = answer_head code reason (fs @ length_field (part @ missing) # gs) @ part"
  shows "\<exists>n b. brings n '''' qs \<and> exchange type (bridge_url ip p path) payload h =
    andThen (andThen (block_loop b (int (length missing)) (int (length part)) part
        ((sized_client ip p path h code (part @ missing))\<lparr>net := n\<rparr>))
      (body_end (int (length (part @ missing)))))
      (\<lambda>(ret, t, h). Inr (int code, t, h))"
proof -
  let ?body = "part @ missing"
  let ?g = "sized_client ip p path h code ?body"
  let ?ls = "status_text code reason # map field_text (fs @ length_field ?body # gs)"
  have ls: "list_all plain_line ?ls"
    using assms(3-5) others_plain_fields by (intro plain_head) (auto simp: length_field_def)
  have len: "length ?body < 2 ^ 31" using assms(8) by (simp add: room_def)
  have code: "0 < code" using assms(3) by (simp add: good_status_def)
  have b: "bytes ps = head_text ?ls @ crlf @ part" using assms(11) by (simp add: answer_head_def)
  obtain k where k: "exchange type (bridge_url ip p path) payload h =
      (let q = read_head ?ls ((answered_client ip p path h)\<lparr>net := k\<rparr>, '''');
           r = head_done (snd q) (fst q)
       in andThen (returnError (fst r) (snd r)) (\<lambda>(status, h).
          andThen (getString h) (\<lambda>(answer, h). Inr (status, answer, h))))" "brings k part qs"
    using exchange_reads [OF assms(1,9,10) b ls assms(2)] by blast
  have e: "exchange type (bridge_url ip p path) payload h =
      andThen (getString (?g\<lparr>net := k\<rparr>)) (\<lambda>(answer, h). Inr (int code, answer, h))"
    using k(1) sized_head [OF assms(1,3-5) len] code by (simp add: head_done_def returnError_def Let_def encoding_same)
  obtain m where m: "http_connected (?g\<lparr>net := k\<rparr>) = Inr (True, ?g\<lparr>net := m\<rparr>)" "brings_by (clock k) m part qs"
    using connected_brings [of "?g\<lparr>net := k\<rparr>" "clock k" part qs] k(2) assms(6) by (auto simp: brings_def)
  define b where "b = nat (if int (length ?body) < HTTP_TCP_BUFFER_SIZE then int (length ?body) else HTTP_TCP_BUFFER_SIZE)"
  have pos: "int (length ?body) > 0" using assms(6) by (simp add: add_pos_nonneg)
  have b: "0 < b" using pos by (simp add: b_def HTTP_TCP_BUFFER_SIZE_def)
  have fit: "\<not> (if int (length ?body) < HTTP_TCP_BUFFER_SIZE then int (length ?body) else HTTP_TCP_BUFFER_SIZE) > int (heap h)"
    using assms(8) by (auto simp: HTTP_TCP_BUFFER_SIZE_def room_def)
  have rm: "room (heap h) (length part)" using assms(8) by (simp add: room_def)
  obtain n where n: "block_loop b (int (length part + length missing)) 0 '''' (?g\<lparr>net := m\<rparr>) =
      block_loop b (int (length missing)) (int (length part)) part (?g\<lparr>net := n\<rparr>)" "brings n '''' qs"
    using block_loop_brings [of "?g\<lparr>net := m\<rparr>" part "''''" qs b "''''" "length missing" 0] brings_now [OF m(2)] b rm by auto
  define loop where "loop = block_loop b (int (length missing)) (int (length part)) part (?g\<lparr>net := n\<rparr>)"
  have w: "writeToStreamDataBlock (int (length ?body)) '''' (?g\<lparr>net := m\<rparr>) =
      andThen loop (\<lambda>(err, w, t, h). Inr (case err of Some e \<Rightarrow> e
        | None \<Rightarrow> if int (length ?body) \<noteq> w then HTTPC_ERROR_STREAM_WRITE else w, t, h))"
  proof -
    have "block_loop b (int (length ?body)) 0 '''' (?g\<lparr>net := m\<rparr>) = loop"
      using n(1) by (simp only: loop_def length_append)
    moreover have "\<not> (if int (length ?body) < HTTP_TCP_BUFFER_SIZE then int (length ?body) else HTTP_TCP_BUFFER_SIZE) >
        int (heap (?g\<lparr>net := m\<rparr>))" using fit by simp
    ultimately show ?thesis using data_block_unfold [OF pos, of "?g\<lparr>net := m\<rparr>" "''''"] unfolding b_def by simp
  qed
  have "getString (?g\<lparr>net := k\<rparr>) = andThen (writeToStream '''' (?g\<lparr>net := k\<rparr>)) (\<lambda>(ret, t, h). Inr (t, h))"
    using reserve_body [OF assms(8)] by (simp add: getString_def)
  also have "writeToStream '''' (?g\<lparr>net := k\<rparr>) = andThen loop (body_end (int (length ?body)))"
    using m(1) w by (cases loop) (simp_all add: writeToStream_def body_end_def Let_def split_beta)
  finally have "exchange type (bridge_url ip p path) payload h =
      andThen (andThen loop (body_end (int (length ?body)))) (\<lambda>(ret, t, h). Inr (int code, t, h))"
    using e by (cases "andThen loop (body_end (int (length ?body)))") (simp_all add: split_beta)
  then show ?thesis using n(2) unfolding loop_def by blast
qed

text \<open>
  C18: When the connection is lost in the middle of a body whose length was announced, the exchange still ends with the status of the head and hands out the part that came as if
  it were the answer; only the connection is gone.
\<close>

theorem cut_off_body:
  assumes "standard h" "sendable type ip p path payload" "good_status code reason" "others fs" "others gs"
    "part \<noteq> ''''" "missing \<noteq> ''''" "room (heap h) (length (part @ missing))" "answer_script ps"
    "bytes ps = answer_head code reason (fs @ length_field (part @ missing) # gs) @ part"
    "ready h (ps @ Lost ms # rest)"
  shows "\<exists>h'. exchange type (bridge_url ip p path) payload h = Inr (int code, part, h') \<and> \<not> kept h'"
proof -
  let ?g = "sized_client ip p path h code (part @ missing)"
  obtain n b where n: "brings n '''' (Lost ms # rest)" "exchange type (bridge_url ip p path) payload h =
    andThen (andThen (block_loop b (int (length missing)) (int (length part)) part (?g\<lparr>net := n\<rparr>))
      (body_end (int (length (part @ missing)))))
      (\<lambda>(ret, t, h). Inr (int code, t, h))"
    using part_read [OF assms(1-8,11,9,10)] by blast
  define m where "m = tls_stop (n\<lparr>clock := clock n + ms, polls := rest\<rparr>)"
  have m: "\<not> up m" by (simp add: m_def tls_stop_def)
  have "tls_available n = (- 1, m)"
    using n(1) by (simp add: brings_Nil tls_available_def data_to_read_def m_def)
  then have c: "http_connected (?g\<lparr>net := n\<rparr>) = Inr (False, ?g\<lparr>net := m\<rparr>)"
    using m by (simp add: http_connected_def tls_connected_def tls_available_def)
  then have l: "block_loop b (int (length missing)) (int (length part)) part (?g\<lparr>net := n\<rparr>) =
      Inr (None, int (length part), part, ?g\<lparr>net := m\<rparr>)"
    by (simp add: block_loop.simps [of b _ _ part "?g\<lparr>net := n\<rparr>"])
  have "exchange type (bridge_url ip p path) payload h = Inr (int code, part, ?g\<lparr>net := m\<rparr>)"
    using n(2) l m assms(7) gone_chunk_error [of "?g\<lparr>net := m\<rparr>" HTTPC_ERROR_STREAM_WRITE part]
    by (simp add: HTTPC_ERROR_STREAM_WRITE_def body_end_def)
  with m show ?thesis by (simp add: kept_def)
qed

lemma stalled_body:
  assumes "standard h" "sendable type ip p path payload" "good_status code reason" "others fs" "others gs"
    "part \<noteq> ''''" "missing \<noteq> ''''" "room (heap h) (length (part @ missing))" "ready h ps" "answer_script ps"
    "bytes ps = answer_head code reason (fs @ length_field (part @ missing) # gs) @ part"
  shows "exchange type (bridge_url ip p path) payload h = Inl Hang"
proof -
  let ?g = "sized_client ip p path h code (part @ missing)"
  obtain n b where n: "brings n '''' []" "exchange type (bridge_url ip p path) payload h =
    andThen (andThen (block_loop b (int (length missing)) (int (length part)) part (?g\<lparr>net := n\<rparr>))
      (body_end (int (length (part @ missing)))))
      (\<lambda>(ret, t, h). Inr (int code, t, h))"
    using part_read [OF assms(1-8), of ps "[]"] assms(9-11) by auto
  have "tls_available n = (0, n)" using n(1) by (simp add: brings_Nil tls_available_def data_to_read_def)
  then have "block_loop b (int (length missing)) (int (length part)) part (?g\<lparr>net := n\<rparr>) = Inl Hang"
    using n(1) assms(7)
    by (simp add: block_loop.simps [of b _ _ part "?g\<lparr>net := n\<rparr>"] http_connected_def tls_connected_def brings_Nil)
  with n(2) show ?thesis by simp
qed

subsection \<open>The announced end of a connection\<close>

lemma close_head:
  assumes "standard h" "good_status code reason" "others fs" "others gs" "others hs" "length body < 2 ^ 31"
  shows "read_head (status_text code reason # map field_text (fs @ length_field body # gs @ close_field # hs))
      ((answered_client ip p path h)\<lparr>net := n\<rparr>, '''') =
    ((sized_client ip p path h code body)\<lparr>canReuse := False, net := n\<rparr>, '''')"
proof -
  have c: "currentHeaders h = []" "code < 2 ^ 31" "CHR 0x00 \<notin> set reason"
    using assms(1,2) by (simp_all add: standard_def good_status_def)
  let ?c = "(answered_client ip p path h)\<lparr>returnCode := int code, net := n\<rparr>"
  let ?s = "sized_client ip p path h code body"
  have 1: "header_line (status_text code reason) ((answered_client ip p path h)\<lparr>net := n\<rparr>, '''') = (?c, '''')"
    using c by (simp add: status_line_text net_last)
  have 2: "header_line (field_text (length_field body)) (?c, '''') = (?s\<lparr>net := n\<rparr>, '''')"
    using c assms(6) by (simp add: length_line length_field_def sized_client_def net_last)
  have 3: "header_line (field_text close_field) (?s\<lparr>net := n\<rparr>, '''') = (?s\<lparr>canReuse := False, net := n\<rparr>, '''')"
    using c by (simp add: close_line close_field_def net_last)
  have 4: "read_head (map field_text hs @ []) (?s\<lparr>canReuse := False, net := n\<rparr>, '''') = (?s\<lparr>canReuse := False, net := n\<rparr>, '''')"
    using read_head_others [OF assms(5)] c read_head_Nil by (simp del: append_Nil2)
  show ?thesis using 1 2 3 4 c read_head_others [OF assms(3)] read_head_others [OF assms(4)] by simp
qed

text \<open>
  C16: When the bridge announces the end of the connection and the connection is still open at the end of the body, the exchange succeeds, but the client deletes its
  connection object and keeps the pointer: every later exchange, to whatever address, uses the deleted object.
\<close>

theorem closed_connection_dangles:
  assumes "standard h" "sendable type ip p path payload" "good_status code reason" "others fs" "others gs" "others hs"
    "body \<noteq> ''''" "room (heap h) (length body)" "ready h (ps @ map Quiet ts @ rest)" "length ts = 5" "answer_script ps"
    "bytes ps = answer_head code reason (fs @ length_field body # gs @ close_field # hs) @ body"
  shows "\<exists>h1. exchange type (bridge_url ip p path) payload h = Inr (int code, body, h1) \<and>
    exchange type' url' payload' h1 = Inl BadPointer"
proof -
  let ?g = "(sized_client ip p path h code body)\<lparr>canReuse := False\<rparr>"
  let ?ls = "status_text code reason # map field_text (fs @ length_field body # gs @ close_field # hs)"
  have ls: "list_all plain_line ?ls"
    using assms(3-6) others_plain_fields by (intro plain_head) (auto simp: length_field_def close_field_def)
  have len: "length body < 2 ^ 31" using assms(8) by (simp add: room_def)
  have code: "0 < code" using assms(3) by (simp add: good_status_def)
  have b: "bytes ps = head_text ?ls @ crlf @ body" using assms(12) by (simp add: answer_head_def)
  obtain n c m where n: "brings n '''' (map Quiet ts @ rest)" "http_connected (?g\<lparr>net := n\<rparr>) = Inr (c, ?g\<lparr>net := m\<rparr>)"
    "exchange type (bridge_url ip p path) payload h =
       andThen (http_disconnect True (?g\<lparr>net := m\<rparr>)) (\<lambda>h. Inr (int code, body, h))"
    using sized_core [OF assms(1,9,11) b ls assms(2,7,8) close_head [OF assms(1,3-6) len]] code by auto
  have "looks 5 n rest" using n(1) assms(10) by (auto simp: looks_def brings_Nil)
  then obtain m' where m': "http_connected (?g\<lparr>net := n\<rparr>) = Inr (True, ?g\<lparr>net := m'\<rparr>)" "looks 3 m' rest"
    using connected_looks [of "?g\<lparr>net := n\<rparr>" 3 rest] by (auto simp: numeral_eq_Suc)
  then have eq: "?g\<lparr>net := m\<rparr> = ?g\<lparr>net := m'\<rparr>" using n(2) by simp
  obtain k where "http_connected (?g\<lparr>net := m'\<rparr>) = Inr (True, ?g\<lparr>net := k\<rparr>)"
    using connected_looks [of "?g\<lparr>net := m'\<rparr>" 1 rest] m'(2) by (auto simp: numeral_eq_Suc)
  then have "http_disconnect True (?g\<lparr>net := m\<rparr>) =
      Inr ((http_stop (?g\<lparr>net := drain k\<rparr>))\<lparr>client := Dangling, transportTraits := None\<rparr>)"
    unfolding eq by (simp add: http_disconnect_def Let_def)
  with n(3) show ?thesis
    by (simp add: exchange_def http_begin_def mixed_up_def http_end_def http_disconnect_def http_connected_def)
qed

subsection \<open>A silent bridge\<close>

text \<open>Looks that find nothing, each at most \<open>d\<close> milliseconds after the one before.\<close>

definition quiet_script :: "nat \<Rightarrow> poll list \<Rightarrow> bool" where
  "quiet_script d ps \<longleftrightarrow> list_all (\<lambda>p. case p of Quiet ms \<Rightarrow> ms \<le> d | _ \<Rightarrow> False) ps"

definition hush :: "nat \<Rightarrow> tls_conn \<Rightarrow> bool" where
  "hush d n \<longleftrightarrow> up n \<and> rx n = '''' \<and> quiet_script d (polls n)"

lemma available_hush:
  "hush d n \<Longrightarrow> tls_available n = (a, n') \<Longrightarrow> a = 0 \<and> hush d n' \<and> same_out n n' \<and> clock n' \<le> clock n + d"
  by (cases "polls n") (auto simp: hush_def quiet_script_def tls_available_def data_to_read_def same_out_def split: poll.splits)

lemma connected_hush:
  assumes "client h = Own" "hush d (net h)"
  shows "\<exists>n. http_connected h = Inr (True, h\<lparr>net := n\<rparr>) \<and> hush d n \<and> same_out (net h) n \<and> clock n \<le> clock (net h) + 2 * d"
proof -
  obtain a m where a: "tls_available (net h) = (a, m)" by fastforce
  obtain b k where b: "tls_available m = (b, k)" by fastforce
  note m = available_hush [OF assms(2) a]
  note k = available_hush [OF conjunct1 [OF conjunct2 [OF m]] b]
  from m k a b assms(1) show ?thesis
    by (intro exI [of _ k]) (auto simp: http_connected_def tls_connected_def hush_def same_out_def)
qed

lemma drain_hush: "hush d n \<Longrightarrow> hush d (drain n) \<and> same_out n (drain n) \<and> clock (drain n) \<le> clock n + d"
  using available_hush [of d n] by (cases "tls_available n") (simp add: drain.simps [of n])

lemma header_loop_hush:
  "client h = Own \<Longrightarrow> hush d (net h) \<Longrightarrow> clock (net h) \<le> since + tcpTimeout h + 10 \<Longrightarrow>
   \<exists>n. header_loop since te h = Inr (HTTPC_ERROR_READ_TIMEOUT, h\<lparr>net := n\<rparr>) \<and> hush d n \<and> same_out (net h) n \<and>
     clock n \<le> since + tcpTimeout h + 10 + 3 * d"
proof (induction since te h rule: header_loop.induct)
  case (1 since te h)
  note IH = 1(2) and own = 1(3) and hu = 1(4) and cl = 1(5)
  obtain m where m: "http_connected h = Inr (True, h\<lparr>net := m\<rparr>)" "hush d m" "same_out (net h) m"
    "clock m \<le> clock (net h) + 2 * d"
    using connected_hush [OF own hu] by auto
  obtain a n where a: "tls_available m = (a, n)" by fastforce
  with available_hush [OF m(2)] have n: "a = 0" "hush d n" "same_out (net h) n" "clock n \<le> clock (net h) + 3 * d"
    using m(3,4) by (fastforce intro: same_out_trans)+
  show ?case
  proof (cases "clock n - since > tcpTimeout h")
    case True
    with m(1) a n cl show ?thesis by (auto simp: header_loop.simps [of since te h])
  next
    case early: False
    show ?thesis
    proof (cases "polls n = []")
      case True
      let ?t = "10 * ((since + tcpTimeout h - clock n) div 10 + 1)"
      have "clock n + ?t \<le> since + tcpTimeout h + 10" using early by (auto simp: algebra_simps)
      with True early m(1) a n(1-3) show ?thesis
        by (intro exI [of _ "n\<lparr>clock := clock n + ?t\<rparr>"])
          (auto simp: header_loop.simps [of since te h] http_delay_def hush_def same_out_def)
    next
      case False
      let ?h = "http_delay 10 (h\<lparr>net := n\<rparr>)"
      have h: "client ?h = Own" "hush d (net ?h)" "clock (net ?h) \<le> since + tcpTimeout ?h + 10"
        using own n(2) early by (auto simp: http_delay_def hush_def)
      have "header_loop since te h = header_loop since te ?h"
        using False early m(1) a n(1) by (simp add: header_loop.simps [of since te h])
      moreover obtain q where "header_loop since te ?h = Inr (HTTPC_ERROR_READ_TIMEOUT, ?h\<lparr>net := q\<rparr>)"
        "hush d q" "same_out (net ?h) q" "clock q \<le> since + tcpTimeout ?h + 10 + 3 * d"
        using IH [OF m(1), of True "h\<lparr>net := m\<rparr>" a n] a n(1) early False h by auto
      ultimately show ?thesis using n(3) by (intro exI [of _ q]) (auto simp: http_delay_def same_out_def)
    qed
  qed
qed

text \<open>The connection there is, or the next one to be made, is such a one.\<close>

definition silent :: "nat \<Rightarrow> http \<Rightarrow> bool" where
  "silent d h \<longleftrightarrow> client h \<noteq> Dangling \<and>
     (if kept h then hush d (net h) \<and> writes (net h) = []
      else case dials (net h) of
             Some c # ds \<Rightarrow> quiet_script d (on_polls c) \<and> on_writes c = []
           | _ \<Rightarrow> False)"

lemma http_connect_hush:
  assumes "silent d h" "transportTraits h = Some TlsTraits"
  shows "\<exists>n. http_connect h = Inr (True, h\<lparr>client := Own, net := n\<rparr>) \<and> hush d n \<and> writes n = [] \<and>
    clock n \<le> clock (net h) + 3 * d"
proof (cases "kept h")
  case True
  then have h: "client h = Own" "hush d (net h)" "writes (net h) = []" using assms(1) by (simp_all add: silent_def kept_def)
  obtain n where n: "http_connected h = Inr (True, h\<lparr>net := n\<rparr>)" "hush d n" "same_out (net h) n" "clock n \<le> clock (net h) + 2 * d"
    using connected_hush [OF h(1,2)] by auto
  have "h\<lparr>net := drain n\<rparr> = h\<lparr>client := Own, net := drain n\<rparr>" using h(1) by (cases h) simp
  with n drain_hush [OF n(2)] h(3) show ?thesis
    by (intro exI [of _ "drain n"]) (simp add: http_connect_def same_out_def)
next
  case False
  then obtain c ds where d: "dials (net h) = Some c # ds" "quiet_script d (on_polls c)" "on_writes c = []" "client h \<noteq> Dangling"
    using assms(1) by (auto simp: silent_def split: list.splits option.splits)
  have c: "http_connected h = Inr (False, h)"
    using False d(4) by (cases h) (auto simp: http_connected_def kept_def tls_available_def tls_connected_def
        split: pointer.splits)
  define n where "n = (net h)\<lparr>up := True, rx := '''', polls := on_polls c, writes := [],
    wire := wire (net h) @ [Dial (host h) (port h)], dials := ds\<rparr>"
  have t: "tls_connect (host h) (port h) (net h) = (True, n)" using d by (simp add: tls_connect_def n_def)
  have b: "hush d n" "clock n = clock (net h)" using d(2) by (simp_all add: n_def hush_def)
  have eq: "client h = Own \<Longrightarrow> h\<lparr>net := n\<rparr> = h\<lparr>client := Own, net := n\<rparr>" by (cases h) simp
  have "http_connect h = http_connected (h\<lparr>client := Own, net := n\<rparr>)"
  proof (cases "client h")
    case Null
    then show ?thesis using c t assms(2) by (simp add: http_connect_def)
  next
    case Own
    have "http_connect h = http_connected (h\<lparr>net := n\<rparr>)" using Own c t by (simp add: http_connect_def)
    then show ?thesis by (simp only: eq [OF Own])
  qed (use d(4) in simp)
  moreover obtain m where "http_connected (h\<lparr>client := Own, net := n\<rparr>) = Inr (True, h\<lparr>client := Own, net := m\<rparr>)"
    "hush d m" "same_out n m" "clock m \<le> clock n + 2 * d"
    using connected_hush [of "h\<lparr>client := Own, net := n\<rparr>" d] b by auto
  ultimately show ?thesis using b(2) by (intro exI [of _ m]) (auto simp: same_out_def n_def)
qed

lemma sendHeader_hush:
  assumes "client h = Own" "hush d (net h)" "writes (net h) = []" "base64Authorization h = ''''"
    "length (request_head type h) < 65536"
  shows "\<exists>n. sendHeader type h = Inr (True, h\<lparr>net := n\<rparr>) \<and> hush d n \<and> writes n = [] \<and> clock n \<le> clock (net h) + 2 * d"
proof -
  obtain n where n: "http_connected h = Inr (True, h\<lparr>net := n\<rparr>)" "hush d n" "same_out (net h) n" "clock n \<le> clock (net h) + 2 * d"
    using connected_hush [OF assms(1,2)] by auto
  have e: "request_head type (h\<lparr>net := n\<rparr>) = request_head type h" by (simp add: request_head_def)
  have w: "up n" "writes n = []" using n(2,3) assms(3) by (simp_all add: same_out_def hush_def)
  have "tls_write (request_head type h) n = (length (request_head type h), n\<lparr>wire := wire n @ [Sent (request_head type h)]\<rparr>)"
    using tls_write_all [OF w assms(5)] by (simp add: request_head_def)
  then have "sendHeader type h = Inr (True, h\<lparr>net := n\<lparr>wire := wire n @ [Sent (request_head type h)]\<rparr>\<rparr>)"
    using n(1) e assms(4) by (cases h) (simp add: sendHeader_def Let_def)
  then show ?thesis using n(2,4) w
    by (intro exI [of _ "n\<lparr>wire := wire n @ [Sent (request_head type h)]\<rparr>"]) (simp add: hush_def)
qed

lemma handleHeaderResponse_hush:
  assumes "client h = Own" "hush d (net h)"
  shows "\<exists>n. handleHeaderResponse h =
      Inr (HTTPC_ERROR_READ_TIMEOUT, (http_clear h)\<lparr>canReuse := reuse h, encoding := Identity, net := n\<rparr>) \<and> hush d n \<and>
    clock n \<le> clock (net h) + tcpTimeout h + 10 + 5 * d"
proof -
  obtain m where m: "http_connected h = Inr (True, h\<lparr>net := m\<rparr>)" "hush d m" "clock m \<le> clock (net h) + 2 * d"
    using connected_hush [OF assms] by auto
  define g where "g = (http_clear h)\<lparr>canReuse := reuse h, encoding := Identity\<rparr>"
  have g: "client g = Own" "tcpTimeout g = tcpTimeout h" using assms(1) by (simp_all add: g_def http_clear_def)
  have e: "(http_clear (h\<lparr>net := m\<rparr>))\<lparr>canReuse := reuse h, encoding := Identity\<rparr> = g\<lparr>net := m\<rparr>"
    by (cases h) (simp add: g_def http_clear_def)
  have "handleHeaderResponse h = header_loop (clock m) '''' (g\<lparr>net := m\<rparr>)"
  proof -
    have "reuse (http_clear (h\<lparr>net := m\<rparr>)) = reuse h" "net (http_clear (h\<lparr>net := m\<rparr>)) = m"
      by (simp_all add: http_clear_def)
    with e m(1) show ?thesis by (simp add: handleHeaderResponse_def Let_def)
  qed
  moreover obtain n where "header_loop (clock m) '''' (g\<lparr>net := m\<rparr>) = Inr (HTTPC_ERROR_READ_TIMEOUT, g\<lparr>net := n\<rparr>)"
    "hush d n" "clock n \<le> clock m + tcpTimeout h + 10 + 3 * d"
    using header_loop_hush [of "g\<lparr>net := m\<rparr>" d "clock m" "''''"] g m(2) by auto
  ultimately show ?thesis using m(3) unfolding g_def by (intro exI [of _ n]) auto
qed

text \<open>
  C17: A bridge that accepts the request and never answers is given up: the exchange ends with READ_TIMEOUT and an empty answer, the connection is closed, and no more than the
  five seconds of the time limit, one turn of the loop and the time of twelve looks at the connection have passed.
\<close>

theorem silent_bridge:
  assumes "standard h" "sendable type ip p path payload" "silent d h"
  shows "\<exists>h'. exchange type (bridge_url ip p path) payload h = Inr (HTTPC_ERROR_READ_TIMEOUT, '''', h') \<and>
    \<not> kept h' \<and> clock (net h') \<le> clock (net h) + 5010 + 12 * d"
proof -
  let ?a = "addressed ip p path h"
  have std: "standard ?a" using assms(1) by (rule standard_addressed)
  have "silent d ?a" using assms(3) by (simp add: silent_def)
  then obtain n0 where n0: "http_connect ?a = Inr (True, ?a\<lparr>client := Own, net := n0\<rparr>)" "hush d n0" "writes n0 = []"
    "clock n0 \<le> clock (net h) + 3 * d"
    using http_connect_hush [of d ?a] by auto
  have b: "http_begin (bridge_url ip p path) h = Inr (True, ?a)"
    using assms(2,3) by (intro http_begin_bridge) (simp_all add: sendable_def silent_def)
  define H where "H = (if payload = '''' then '''' else ''Content-Length: '' @ String_uint (length payload) @ crlf)"
  define h2 where "h2 = ?a\<lparr>client := Own, net := n0, headers := H\<rparr>"
  have b64: "base64Authorization ?a = ''''" using std by (simp add: standard_def)
  have add: "(if 0 < length payload
      then addHeader ''Content-Length'' (String_uint (length payload)) False True (?a\<lparr>client := Own, net := n0\<rparr>)
      else ?a\<lparr>client := Own, net := n0\<rparr>) = h2"
    using b64 addressed_simps(7) [of ip p path h] by (cases ?a) (simp add: addHeader_length h2_def H_def)
  have s2: "standard h2" "headers h2 = H" using std by (simp_all add: h2_def standard_def)
  have "length (request_head type h2) < 65536"
    using request_head_standard [OF s2(1)] s2(2) H_def assms(2) by (simp add: h2_def sendable_def fits_request_def)
  then obtain n1 where n1: "sendHeader type h2 = Inr (True, h2\<lparr>net := n1\<rparr>)" "hush d n1" "writes n1 = []"
    "clock n1 \<le> clock n0 + 2 * d"
    using sendHeader_hush [of h2 d type] n0(2,3) s2(1) by (auto simp: h2_def standard_def)
  define n2 where "n2 = n1\<lparr>wire := wire n1 @ (if payload = '''' then [] else [Sent payload])\<rparr>"
  have w: "(if 0 < length payload then tls_write payload n1 else (0, n1)) = (length payload, n2)"
    using tls_write_all [of n1 payload] n1(2,3) assms(2)
    by (cases n1) (auto simp: sendable_def fits_request_def n2_def hush_def)
  define h3 where "h3 = h2\<lparr>net := n2\<rparr>"
  have h3: "client h3 = Own" "hush d (net h3)" "tcpTimeout h3 = 5000"
    using n1(2) s2(1) by (simp_all add: h3_def h2_def n2_def hush_def standard_def)
  define g where "g = (http_clear h3)\<lparr>canReuse := reuse h3, encoding := Identity\<rparr>"
  obtain n where n: "handleHeaderResponse h3 = Inr (HTTPC_ERROR_READ_TIMEOUT, g\<lparr>net := n\<rparr>)" "hush d n"
    "clock n \<le> clock (net h3) + 5000 + 10 + 5 * d"
    using handleHeaderResponse_hush [OF h3(1,2)] h3(3) by (auto simp: g_def)
  have g: "client g = Own" "bodySize g = - 1" using h3(1) by (simp_all add: g_def http_clear_def)
  obtain m where m: "http_connected (g\<lparr>net := n\<rparr>) = Inr (True, g\<lparr>net := m\<rparr>)" "clock m \<le> clock n + 2 * d"
    using connected_hush [of "g\<lparr>net := n\<rparr>" d] n(2) g(1) by auto
  let ?h = "g\<lparr>net := tls_stop m\<rparr>"
  have down: "\<not> up (net ?h)" by (simp add: tls_stop_def)
  have "sendRequest type payload ?a = andThen (handleHeaderResponse h3) (\<lambda>(code, h). returnError code h)"
    using n0(1) n1(1) add w by (cases "payload = ''''") (simp_all add: sendRequest_def h3_def Let_def)
  also have "\<dots> = Inr (HTTPC_ERROR_READ_TIMEOUT, ?h)"
    using n(1) m(1) by (simp add: returnError_def http_stop_def HTTPC_ERROR_READ_TIMEOUT_def)
  finally have "exchange type (bridge_url ip p path) payload h = Inr (HTTPC_ERROR_READ_TIMEOUT, '''', ?h)"
    using b gone_getString [of ?h] down g by (simp add: exchange_def)
  moreover have "clock (net ?h) \<le> clock (net h) + 5010 + 12 * d"
    using n0(4) n1(4) n(3) m(2) by (simp add: tls_stop_def h3_def n2_def)
  ultimately show ?thesis using down by (auto simp: kept_def)
qed

subsection \<open>Samples\<close>

definition sample_client :: "poll list \<Rightarrow> http" where
  "sample_client ps = http_new 1000 [Some \<lparr>on_polls = ps, on_writes = []\<rparr>]"

definition sample_exchange :: "http \<Rightarrow> (int \<times> string \<times> http) res" where
  "sample_exchange = exchange ''PUT'' (bridge_url ''10.0.0.2'' 443 ''/api/u/lights/3/state'') ''{\"on\":true}''"

lemma sample_client: "standard (sample_client ps)" "ready (sample_client ps) ps" "heap (sample_client ps) = 1000"
  by (simp_all add: sample_client_def standard_new ready_new)

lemma sample_room: "length s < 900 \<Longrightarrow> room (heap (sample_client ps)) (length s)"
  by (simp add: sample_client room_def)

theorem cut_off_body_witness:
  "\<exists>h'. sample_exchange (sample_client (cut_script (answer_head 200 ''OK'' ([(''Server'', ''nginx'')] @ length_field (''[{'' @ ''}]'') # [])) ''[{'' @
     Lost 3 # [])) = Inr (200, ''[{'', h') \<and> \<not> kept h'"
proof -
  let ?head = "answer_head 200 ''OK'' ([(''Server'', ''nginx'')] @ length_field (''[{'' @ ''}]'') # [])"
  let ?ps = "cut_script ?head ''[{''"
  have s: "answer_script ?ps" "bytes ?ps = ?head @ ''[{''" using cut_script [of ?head "''[{''"] head_longer by simp_all
  have r: "room (heap (sample_client (?ps @ Lost 3 # []))) (length (''[{'' @ ''}]''))" by (rule sample_room) simp
  show ?thesis
    using cut_off_body [OF sample_client(1) sample_sendable sample_status sample_others _ _ r s sample_client(2)]
    by (simp add: sample_exchange_def)
qed

lemma stalled_body_sample:
  "sample_exchange (sample_client (cut_script (answer_head 200 ''OK'' ([(''Server'', ''nginx'')] @ length_field (''[{'' @ ''}]'') # [])) ''[{'')) =
     Inl Hang"
proof -
  let ?head = "answer_head 200 ''OK'' ([(''Server'', ''nginx'')] @ length_field (''[{'' @ ''}]'') # [])"
  let ?ps = "cut_script ?head ''[{''"
  have s: "answer_script ?ps" "bytes ?ps = ?head @ ''[{''" using cut_script [of ?head "''[{''"] head_longer by simp_all
  have r: "room (heap (sample_client ?ps)) (length (''[{'' @ ''}]''))" by (rule sample_room) simp
  show ?thesis
    using stalled_body [OF sample_client(1) sample_sendable sample_status sample_others _ _ r sample_client(2) s]
    by (simp add: sample_exchange_def)
qed

theorem closed_connection_dangles_witness:
  "\<exists>h1. sample_exchange (sample_client (cut_script (answer_head 200 ''OK'' ([(''Server'', ''nginx'')] @ length_field ''[]'' # [] @ close_field # [])) ''[]'' @
     map Quiet [10, 10, 10, 10, 10] @ [])) = Inr (200, ''[]'', h1) \<and>
   sample_exchange h1 = Inl BadPointer"
proof -
  let ?head = "answer_head 200 ''OK'' ([(''Server'', ''nginx'')] @ length_field ''[]'' # [] @ close_field # [])"
  let ?ps = "cut_script ?head ''[]''"
  have s: "answer_script ?ps" "bytes ?ps = ?head @ ''[]''" using cut_script [of ?head "''[]''"] head_longer by simp_all
  have r: "room (heap (sample_client (?ps @ map Quiet [10, 10, 10, 10, 10] @ []))) (length ''[]'')" by (rule sample_room) simp
  show ?thesis
    using closed_connection_dangles [OF sample_client(1) sample_sendable sample_status sample_others(1,2,2) _ r
        sample_client(2) _ s]
    by (simp add: sample_exchange_def)
qed

theorem silent_bridge_witness:
  "\<exists>h'. sample_exchange (sample_client [Quiet 5, Quiet 700, Quiet 40]) = Inr (HTTPC_ERROR_READ_TIMEOUT, '''', h') \<and>
     \<not> kept h' \<and> clock (net h') \<le> 13410"
proof -
  have "silent 700 (sample_client [Quiet 5, Quiet 700, Quiet 40])"
    by (simp add: silent_def sample_client_def http_new_def kept_def quiet_script_def)
  from silent_bridge [OF sample_client(1) sample_sendable this] show ?thesis
    by (simp add: sample_exchange_def sample_client_def http_new_def)
qed

end
