(* ===== verification/Font_Plex.thy ===== *)
theory Font_Plex
  imports Prelude
begin

section \<open>The application's font\<close>

text \<open>
  The font structures of \<^verbatim>\<open>components/Adafruit-GFX/gfxfont.h\<close> and the one font the user
  interface selects, \<^verbatim>\<open>Fonts/IBMPlexMono-M6Pt.h\<close>: glyph bitmaps, concatenated without
  padding between rows, and one glyph entry per code from 0x20 to 0xF8.
\<close>

record GFXglyph =
  bitmapOffset :: nat
  g_width :: nat
  g_height :: nat
  xAdvance :: nat
  xOffset :: int
  yOffset :: int

record GFXfont =
  f_bitmap :: "u8 list"
  f_glyph :: "GFXglyph list"
  f_first :: nat
  f_last :: nat
  yAdvance :: nat

fun mk_glyph :: "nat \<times> nat \<times> nat \<times> nat \<times> int \<times> int \<Rightarrow> GFXglyph" where
  "mk_glyph (bo, w, h, xa, xo, yo) =
     \<lparr>bitmapOffset = bo, g_width = w, g_height = h, xAdvance = xa, xOffset = xo, yOffset = yo\<rparr>"

definition IBMPlexMono_M6pt7bBitmaps :: "u8 list" where
  "IBMPlexMono_M6pt7bBitmaps = [
     0, 73, 36, 23, 182, 208, 52, 75, 185, 66, 157, 210, 44, 16, 121, 90, 135, 3, 133,
     170, 252, 32, 99, 42, 99, 0, 198, 84, 198, 56, 145, 1, 55, 83, 179, 59, 240, 54, 76,
     136, 140, 70, 48, 198, 35, 17, 19, 38, 192, 16, 35, 248, 130, 136, 128, 33, 62, 66,
     0, 107, 64, 224, 92, 8, 196, 34, 16, 136, 70, 32, 56, 137, 18, 36, 72, 145, 28, 48,
     160, 64, 129, 2, 4, 62, 116, 66, 51, 51, 31, 121, 16, 78, 4, 20, 94, 24, 48, 162, 68,
     159, 130, 4, 252, 33, 124, 134, 46, 49, 12, 62, 138, 40, 156, 252, 70, 35, 16, 140,
     124, 137, 17, 196, 72, 145, 28, 57, 20, 81, 124, 48, 140, 92, 5, 192, 92, 6, 180, 9,
     217, 6, 28, 32, 248, 62, 135, 12, 19, 114, 0, 116, 66, 98, 1, 140, 116, 111, 90, 214,
     240, 112, 56, 80, 161, 70, 207, 145, 99, 252, 99, 232, 198, 63, 126, 97, 8, 67, 47,
     242, 40, 163, 142, 40, 188, 252, 33, 248, 66, 31, 252, 33, 248, 66, 16, 57, 20, 48,
     221, 20, 79, 140, 99, 248, 198, 49, 249, 8, 66, 16, 159, 120, 66, 16, 134, 63, 142,
     107, 40, 242, 73, 163, 132, 33, 8, 66, 31, 142, 247, 250, 214, 49, 206, 123, 90, 222,
     115, 56, 137, 22, 60, 104, 145, 28, 252, 99, 31, 194, 16, 56, 137, 22, 60, 104, 145,
     28, 16, 56, 250, 40, 163, 250, 73, 163, 61, 4, 14, 4, 16, 94, 254, 32, 64, 129, 2, 4,
     8, 140, 99, 24, 198, 46, 198, 137, 19, 98, 133, 10, 28, 131, 6, 78, 182, 205, 155,
     54, 198, 216, 161, 195, 133, 27, 99, 198, 137, 177, 67, 130, 4, 8, 124, 16, 134, 48,
     132, 31, 248, 136, 136, 136, 136, 240, 134, 16, 130, 16, 130, 16, 194, 241, 17, 17,
     17, 17, 240, 16, 81, 178, 44, 96, 248, 180, 242, 96, 190, 139, 224, 130, 8, 62, 138,
     40, 162, 248, 0, 116, 97, 8, 184, 4, 16, 95, 69, 20, 81, 124, 0, 116, 127, 8, 184,
     57, 9, 242, 16, 132, 248, 13, 200, 162, 114, 7, 163, 248, 0, 132, 33, 108, 198, 49,
     136, 16, 64, 28, 16, 65, 4, 124, 0, 17, 15, 17, 17, 17, 240, 130, 8, 35, 179, 143,
     38, 140, 225, 8, 66, 16, 132, 248, 124, 169, 82, 165, 74, 128, 182, 99, 24, 196, 116,
     99, 24, 184, 187, 40, 227, 139, 232, 32, 117, 52, 113, 69, 240, 65, 108, 194, 8, 33,
     192, 124, 120, 120, 252, 16, 71, 196, 16, 65, 7, 140, 99, 24, 252, 198, 137, 177, 66,
     130, 0, 147, 39, 187, 102, 205, 128, 68, 80, 64, 130, 136, 128, 198, 137, 177, 67,
     130, 4, 48, 248, 204, 204, 124, 57, 8, 65, 112, 196, 33, 14, 255, 224, 225, 8, 68,
     29, 132, 33, 56, 119, 184, 56, 80, 224, 3, 133, 10, 20, 108, 249, 22, 48, 15, 138,
     13, 4, 135, 250, 33, 17, 143, 58, 157, 114, 167, 76, 177, 94, 0, 225, 67, 128, 31,
     35, 2, 253, 11, 240, 0, 251, 241, 132, 31, 254, 8, 99, 247, 192, 58, 153, 115, 166,
     87, 0]"

definition IBMPlexMono_M6pt7bGlyphs_ascii :: "(nat \<times> nat \<times> nat \<times> nat \<times> int \<times> int) list" where
  "IBMPlexMono_M6pt7bGlyphs_ascii = [
     (0, 1, 1, 7, 0, 0), (1, 3, 8, 7, 2, - 7), (4, 3, 4, 7, 2, - 8), (6, 7, 8, 7, 0, - 7),
     (13, 7, 10, 7, 0, - 8), (22, 7, 8, 7, 0, - 7), (29, 7, 8, 7, 0, - 7), (36, 1, 4, 7,
     3, - 8), (37, 4, 11, 7, 2, - 8), (43, 4, 11, 7, 1, - 8), (49, 7, 6, 7, 0, - 6), (55,
     5, 5, 7, 1, - 5), (59, 3, 4, 7, 2, - 1), (61, 3, 1, 7, 2, - 3), (62, 3, 2, 7, 2, -
     1), (63, 5, 11, 7, 1, - 8), (70, 7, 8, 7, 0, - 7), (77, 7, 8, 7, 0, - 7), (84, 5, 8,
     7, 1, - 7), (89, 6, 8, 7, 0, - 7), (95, 7, 8, 7, 0, - 7), (102, 5, 8, 7, 1, - 7),
     (107, 6, 8, 7, 1, - 7), (113, 5, 8, 7, 1, - 7), (118, 7, 8, 7, 0, - 7), (125, 6, 8,
     7, 0, - 7), (131, 3, 6, 7, 2, - 5), (134, 3, 8, 7, 2, - 5), (137, 5, 7, 7, 1, - 6),
     (142, 5, 3, 7, 1, - 4), (144, 5, 7, 7, 1, - 6), (149, 5, 8, 7, 1, - 7), (154, 5, 9,
     7, 1, - 7), (160, 7, 8, 7, 0, - 7), (167, 5, 8, 7, 1, - 7), (172, 5, 8, 7, 1, - 7),
     (177, 6, 8, 7, 1, - 7), (183, 5, 8, 7, 1, - 7), (188, 5, 8, 7, 1, - 7), (193, 6, 8,
     7, 0, - 7), (199, 5, 8, 7, 1, - 7), (204, 5, 8, 7, 1, - 7), (209, 5, 8, 7, 1, - 7),
     (214, 6, 8, 7, 1, - 7), (220, 5, 8, 7, 1, - 7), (225, 5, 8, 7, 1, - 7), (230, 5, 8,
     7, 1, - 7), (235, 7, 8, 7, 0, - 7), (242, 5, 8, 7, 1, - 7), (247, 7, 10, 7, 0, - 7),
     (256, 6, 8, 7, 1, - 7), (262, 6, 8, 7, 0, - 7), (268, 7, 8, 7, 0, - 7), (275, 5, 8,
     7, 1, - 7), (280, 7, 8, 7, 0, - 7), (287, 7, 8, 7, 0, - 7), (294, 7, 8, 7, 0, - 7),
     (301, 7, 8, 7, 0, - 7), (308, 6, 8, 7, 0, - 7), (314, 4, 11, 7, 2, - 8), (320, 5, 11,
     7, 1, - 8), (327, 4, 11, 7, 1, - 8), (333, 7, 5, 7, 0, - 7), (338, 5, 1, 7, 1, 2),
     (339, 2, 3, 7, 2, - 9), (340, 6, 6, 7, 1, - 5), (345, 6, 9, 7, 1, - 8), (353, 5, 6,
     7, 1, - 5), (357, 6, 9, 7, 0, - 8), (365, 5, 6, 7, 1, - 5), (369, 5, 9, 7, 1, - 8),
     (375, 6, 9, 7, 1, - 6), (383, 5, 9, 7, 1, - 8), (389, 6, 9, 7, 1, - 8), (397, 4, 11,
     7, 1, - 8), (403, 6, 9, 7, 1, - 8), (410, 5, 9, 7, 1, - 8), (416, 7, 6, 7, 0, - 5),
     (422, 5, 6, 7, 1, - 5), (426, 5, 6, 7, 1, - 5), (430, 6, 8, 7, 1, - 5), (436, 6, 8,
     7, 0, - 5), (442, 6, 6, 7, 1, - 5), (447, 5, 6, 7, 1, - 5), (451, 6, 8, 7, 0, - 7),
     (457, 5, 6, 7, 1, - 5), (461, 7, 6, 7, 0, - 5), (467, 7, 6, 7, 0, - 5), (473, 7, 6,
     7, 0, - 5), (479, 7, 8, 7, 0, - 5), (486, 5, 6, 7, 1, - 5), (490, 5, 11, 7, 1, - 8),
     (497, 1, 11, 7, 3, - 8), (499, 5, 11, 7, 1, - 8), (506, 7, 2, 7, 0, - 4), (0, 0, 0,
     0, 0, 0)]"

definition IBMPlexMono_M6pt7bGlyphs_latin :: "(nat \<times> nat \<times> nat \<times> nat \<times> int \<times> int) list" where
  "IBMPlexMono_M6pt7bGlyphs_latin = [
     (0, 0, 0, 0, 0, 0), (0, 0, 0, 0, 0, 0), (0, 0, 0, 0, 0, 0), (0, 0, 0, 0, 0, 0), (0,
     0, 0, 0, 0, 0), (0, 0, 0, 0, 0, 0), (0, 0, 0, 0, 0, 0), (0, 0, 0, 0, 0, 0), (0, 0, 0,
     0, 0, 0), (0, 0, 0, 0, 0, 0), (0, 0, 0, 0, 0, 0), (0, 0, 0, 0, 0, 0), (0, 0, 0, 0, 0,
     0), (0, 0, 0, 0, 0, 0), (0, 0, 0, 0, 0, 0), (0, 0, 0, 0, 0, 0), (0, 0, 0, 0, 0, 0),
     (0, 0, 0, 0, 0, 0), (0, 0, 0, 0, 0, 0), (0, 0, 0, 0, 0, 0), (0, 0, 0, 0, 0, 0), (0,
     0, 0, 0, 0, 0), (0, 0, 0, 0, 0, 0), (0, 0, 0, 0, 0, 0), (0, 0, 0, 0, 0, 0), (0, 0, 0,
     0, 0, 0), (0, 0, 0, 0, 0, 0), (0, 0, 0, 0, 0, 0), (0, 0, 0, 0, 0, 0), (0, 0, 0, 0, 0,
     0), (0, 0, 0, 0, 0, 0), (0, 0, 0, 0, 0, 0), (0, 0, 0, 0, 0, 0), (0, 0, 0, 0, 0, 0),
     (0, 0, 0, 0, 0, 0), (0, 0, 0, 0, 0, 0), (0, 0, 0, 0, 0, 0), (0, 0, 0, 0, 0, 0), (0,
     0, 0, 0, 0, 0), (0, 0, 0, 0, 0, 0), (0, 0, 0, 0, 0, 0), (0, 0, 0, 0, 0, 0), (0, 0, 0,
     0, 0, 0), (0, 0, 0, 0, 0, 0), (0, 0, 0, 0, 0, 0), (0, 0, 0, 0, 0, 0), (0, 0, 0, 0, 0,
     0), (0, 0, 0, 0, 0, 0), (0, 0, 0, 0, 0, 0), (0, 0, 0, 0, 0, 0), (0, 0, 0, 0, 0, 0),
     (0, 0, 0, 0, 0, 0), (0, 0, 0, 0, 0, 0), (0, 0, 0, 0, 0, 0), (0, 0, 0, 0, 0, 0), (0,
     0, 0, 0, 0, 0), (0, 0, 0, 0, 0, 0), (0, 0, 0, 0, 0, 0), (0, 0, 0, 0, 0, 0), (0, 0, 0,
     0, 0, 0), (0, 0, 0, 0, 0, 0), (0, 0, 0, 0, 0, 0), (0, 0, 0, 0, 0, 0), (0, 0, 0, 0, 0,
     0), (0, 0, 0, 0, 0, 0), (0, 0, 0, 0, 0, 0), (0, 0, 0, 0, 0, 0), (0, 0, 0, 0, 0, 0),
     (0, 0, 0, 0, 0, 0), (508, 7, 12, 7, 0, - 11), (519, 9, 8, 9, 0, - 7), (0, 0, 0, 0, 0,
     0), (0, 0, 0, 0, 0, 0), (0, 0, 0, 0, 0, 0), (0, 0, 0, 0, 0, 0), (0, 0, 0, 0, 0, 0),
     (0, 0, 0, 0, 0, 0), (0, 0, 0, 0, 0, 0), (0, 0, 0, 0, 0, 0), (0, 0, 0, 0, 0, 0), (0,
     0, 0, 0, 0, 0), (0, 0, 0, 0, 0, 0), (0, 0, 0, 0, 0, 0), (0, 0, 0, 0, 0, 0), (0, 0, 0,
     0, 0, 0), (0, 0, 0, 0, 0, 0), (0, 0, 0, 0, 0, 0), (0, 0, 0, 0, 0, 0), (528, 7, 8, 7,
     0, - 7), (0, 0, 0, 0, 0, 0), (0, 0, 0, 0, 0, 0), (0, 0, 0, 0, 0, 0), (0, 0, 0, 0, 0,
     0), (0, 0, 0, 0, 0, 0), (0, 0, 0, 0, 0, 0), (0, 0, 0, 0, 0, 0), (0, 0, 0, 0, 0, 0),
     (0, 0, 0, 0, 0, 0), (0, 0, 0, 0, 0, 0), (0, 0, 0, 0, 0, 0), (0, 0, 0, 0, 0, 0), (535,
     7, 11, 7, 0, - 10), (546, 11, 6, 11, 0, - 5), (0, 0, 0, 0, 0, 0), (0, 0, 0, 0, 0, 0),
     (0, 0, 0, 0, 0, 0), (0, 0, 0, 0, 0, 0), (0, 0, 0, 0, 0, 0), (0, 0, 0, 0, 0, 0), (0,
     0, 0, 0, 0, 0), (0, 0, 0, 0, 0, 0), (0, 0, 0, 0, 0, 0), (0, 0, 0, 0, 0, 0), (0, 0, 0,
     0, 0, 0), (0, 0, 0, 0, 0, 0), (0, 0, 0, 0, 0, 0), (0, 0, 0, 0, 0, 0), (0, 0, 0, 0, 0,
     0), (0, 0, 0, 0, 0, 0), (0, 0, 0, 0, 0, 0), (555, 7, 6, 6, 0, - 5)]"

definition IBMPlexMono_M6pt7bGlyphs :: "GFXglyph list" where
  "IBMPlexMono_M6pt7bGlyphs =
     map mk_glyph (IBMPlexMono_M6pt7bGlyphs_ascii @ IBMPlexMono_M6pt7bGlyphs_latin)"

definition IBMPlexMono_M6pt7b :: GFXfont where
  "IBMPlexMono_M6pt7b =
     \<lparr>f_bitmap = IBMPlexMono_M6pt7bBitmaps, f_glyph = IBMPlexMono_M6pt7bGlyphs,
      f_first = 32, f_last = 248, yAdvance = 15\<rparr>"

subsection \<open>A well-formed font\<close>

text \<open>
  What \<open>drawChar\<close> and \<open>charBounds\<close> need of a font: a glyph for every code in its range,
  and the bits of every glyph inside the bitmap array.
\<close>

definition glyph_ok :: "nat \<Rightarrow> GFXglyph \<Rightarrow> bool" where
  "glyph_ok n g = (bitmapOffset g + (g_width g * g_height g + 7) div 8 \<le> n)"

definition font_ok :: "GFXfont \<Rightarrow> bool" where
  "font_ok f =
     (f_first f \<le> f_last f \<and> length (f_glyph f) = Suc (f_last f - f_first f) \<and>
      list_all (glyph_ok (length (f_bitmap f))) (f_glyph f))"

lemma plex_bitmaps_length: "length IBMPlexMono_M6pt7bBitmaps = 561"
  by (simp add: IBMPlexMono_M6pt7bBitmaps_def)

lemma plex_glyphs_length:
  "length IBMPlexMono_M6pt7bGlyphs = 217"
  by (simp add: IBMPlexMono_M6pt7bGlyphs_def IBMPlexMono_M6pt7bGlyphs_ascii_def
      IBMPlexMono_M6pt7bGlyphs_latin_def)

lemma plex_glyphs_inside:
  "list_all (glyph_ok 561) IBMPlexMono_M6pt7bGlyphs"
  by (simp add: IBMPlexMono_M6pt7bGlyphs_def IBMPlexMono_M6pt7bGlyphs_ascii_def
      IBMPlexMono_M6pt7bGlyphs_latin_def glyph_ok_def)

lemma plex_font_ok: "font_ok IBMPlexMono_M6pt7b"
  using plex_glyphs_inside
  by (simp add: font_ok_def IBMPlexMono_M6pt7b_def plex_bitmaps_length plex_glyphs_length)

end
