(* ===== verification/Gfx.thy ===== *)
theory Gfx
  imports Prelude Font_Plex Font_Classic
begin

section \<open>The drawing primitives of Adafruit\_GFX\<close>

text \<open>
  \<^verbatim>\<open>components/Adafruit-GFX/Adafruit_GFX.cpp\<close>: every primitive ends in calls of the virtual
  \<open>drawPixel\<close>, so a primitive is the list of the pixels it writes, in the order it writes
  them. \<open>startWrite\<close> and \<open>endWrite\<close> are empty in the base class and not overridden.
  Coordinates are \<open>int16_t\<close> in the source; the screens of this application are 176 by 264
  and its calls stay inside a few hundred, so the coordinates are \<open>int\<close> here.
\<close>

type_synonym pix = "int \<times> int"

named_theorems gfx_defs \<open>the drawing primitives, unfolded\<close>

subsection \<open>Lines: \<open>writeLine\<close> and its special cases\<close>

function line_loop :: "bool \<Rightarrow> int \<Rightarrow> int \<Rightarrow> int \<Rightarrow> int \<Rightarrow> int \<Rightarrow> int \<Rightarrow> int \<Rightarrow> pix list" where
  "line_loop steep x0 x1 y0 err dx dy ystep =
     (if x0 \<le> x1
      then (if steep then (y0, x0) else (x0, y0)) #
           (let err = err - dy
            in if err < 0 then line_loop steep (x0 + 1) x1 (y0 + ystep) (err + dx) dx dy ystep
               else line_loop steep (x0 + 1) x1 y0 err dx dy ystep)
      else [])"
  by pat_completeness auto
termination
  by (relation "measure (\<lambda>(steep, x0, x1, y0, err, dx, dy, ystep). nat (x1 - x0 + 1))") auto

declare line_loop.simps [simp del]

definition writeLine :: "int \<Rightarrow> int \<Rightarrow> int \<Rightarrow> int \<Rightarrow> pix list" where
  "writeLine x0 y0 x1 y1 =
     (let steep = \<bar>y1 - y0\<bar> > \<bar>x1 - x0\<bar>;
          (x0, y0, x1, y1) = (if steep then (y0, x0, y1, x1) else (x0, y0, x1, y1));
          (x0, y0, x1, y1) = (if x0 > x1 then (x1, y1, x0, y0) else (x0, y0, x1, y1));
          dx = x1 - x0;
          dy = \<bar>y1 - y0\<bar>;
          err = dx sdiv 2;
          ystep = (if y0 < y1 then 1 else - 1)
      in line_loop steep x0 x1 y0 err dx dy ystep)"

definition drawFastVLine :: "int \<Rightarrow> int \<Rightarrow> int \<Rightarrow> pix list" where
  "drawFastVLine x y h = writeLine x y x (y + h - 1)"

definition drawFastHLine :: "int \<Rightarrow> int \<Rightarrow> int \<Rightarrow> pix list" where
  "drawFastHLine x y w = writeLine x y (x + w - 1) y"

definition drawLine :: "int \<Rightarrow> int \<Rightarrow> int \<Rightarrow> int \<Rightarrow> pix list" where
  "drawLine x0 y0 x1 y1 =
     (if x0 = x1 then
        (let (y0, y1) = (if y0 > y1 then (y1, y0) else (y0, y1))
         in drawFastVLine x0 y0 (y1 - y0 + 1))
      else if y0 = y1 then
        (let (x0, x1) = (if x0 > x1 then (x1, x0) else (x0, x1))
         in drawFastHLine x0 y0 (x1 - x0 + 1))
      else writeLine x0 y0 x1 y1)"

definition fillRect :: "int \<Rightarrow> int \<Rightarrow> int \<Rightarrow> int \<Rightarrow> pix list" where
  "fillRect x y w h = concat (map (\<lambda>i. drawFastVLine i y h) [x..x + w - 1])"

definition drawRect :: "int \<Rightarrow> int \<Rightarrow> int \<Rightarrow> int \<Rightarrow> pix list" where
  "drawRect x y w h =
     drawFastHLine x y w @ drawFastHLine x (y + h - 1) w @
     drawFastVLine x y h @ drawFastVLine (x + w - 1) y h"

text \<open>A line with \<open>dy = 0\<close> is a run of pixels.\<close>

lemma line_loop_flat:
  "0 \<le> err \<Longrightarrow> line_loop steep x0 x1 y0 err dx 0 ystep =
   map (\<lambda>x. if steep then (y0, x) else (x, y0)) [x0..x1]"
proof (induction steep x0 x1 y0 err dx "0 :: int" ystep rule: line_loop.induct)
  case (1 steep x0 x1 y0 err dx ystep)
  show ?case
  proof (cases "x0 \<le> x1")
    case True
    then have "[x0..x1] = x0 # [x0 + 1..x1]" by (simp add: upto_rec1)
    with True 1 show ?thesis
      by (simp add: line_loop.simps [of steep x0])
  qed (simp add: line_loop.simps)
qed

lemma drawFastHLine_pixels: "1 \<le> w \<Longrightarrow> drawFastHLine x y w = map (\<lambda>i. (i, y)) [x..x + w - 1]"
  by (simp add: drawFastHLine_def writeLine_def Let_def line_loop_flat sdiv_nonneg)

lemma drawFastVLine_pixels: "1 \<le> h \<Longrightarrow> drawFastVLine x y h = map (\<lambda>j. (x, j)) [y..y + h - 1]"
proof (cases "h = 1")
  case True
  then show ?thesis
    by (simp add: drawFastVLine_def writeLine_def Let_def line_loop_flat sdiv_nonneg)
next
  case False
  assume "1 \<le> h"
  with False have "1 < h" by simp
  then show ?thesis
    by (simp add: drawFastVLine_def writeLine_def Let_def line_loop_flat sdiv_nonneg)
qed

text \<open>\<open>fillRect\<close> writes every pixel of the rectangle, once, and no other.\<close>

lemma set_fillRect:
  "1 \<le> h \<Longrightarrow> set (fillRect x y w h) = {x..<x + w} \<times> {y..<y + h}"
  by (auto simp: fillRect_def drawFastVLine_pixels)

lemma distinct_fillRect: "1 \<le> h \<Longrightarrow> distinct (fillRect x y w h)"
proof -
  assume h: "1 \<le> h"
  have "distinct (concat (map (\<lambda>i. map (\<lambda>j. (i, j)) [y..y + h - 1]) is))"
    if "distinct is" for "is" :: "int list"
    using that by (induction "is") (auto simp: distinct_map inj_on_def)
  then show ?thesis by (simp add: fillRect_def drawFastVLine_pixels h)
qed

lemma set_drawRect:
  assumes "1 \<le> w" "1 \<le> h"
  shows "set (drawRect x y w h) =
    {(i, j). x \<le> i \<and> i < x + w \<and> y \<le> j \<and> j < y + h \<and>
             (i = x \<or> i = x + w - 1 \<or> j = y \<or> j = y + h - 1)}"
  using assms
  by (auto simp: drawRect_def drawFastHLine_pixels drawFastVLine_pixels)

text \<open>
  The loop of Bresenham's algorithm computes a rounded line: the closed form of the minor
  coordinate after \<open>k\<close> steps.
\<close>

lemma upto_shift: "map (\<lambda>k. f (k + 1)) [a..b - 1] = map f [a + 1..b :: int]"
proof (induction a b rule: upto.induct)
  case (1 a b)
  show ?case
  proof (cases "a + 1 \<le> b")
    case True
    then have "[a + 1..b] = (a + 1) # [a + 1 + 1..b]" "[a..b - 1] = a # [a + 1..b - 1]"
      by (simp_all add: upto_rec1)
    with 1 True show ?thesis by simp
  qed simp
qed

lemma line_loop_closed:
  assumes "0 \<le> err" "err < dx" "0 \<le> dy" "dy \<le> dx"
  shows "line_loop steep x0 x1 y0 err dx dy ystep =
    map (\<lambda>k. let x = x0 + k; y = y0 + ystep * ((k * dy + dx - 1 - err) div dx)
             in if steep then (y, x) else (x, y)) [0..x1 - x0]"
  using assms
proof (induction steep x0 x1 y0 err dx dy ystep rule: line_loop.induct)
  case (1 steep x0 x1 y0 err dx dy ystep)
  let ?pt = "\<lambda>x0 y0 err k. let x = x0 + k; y = y0 + ystep * ((k * dy + dx - 1 - err) div dx)
             in if steep then (y, x) else (x, y)"
  show ?case
  proof (cases "x0 \<le> x1")
    case False
    then show ?thesis by (simp add: line_loop.simps [of steep x0])
  next
    case True
    define y' where "y' = (if err - dy < 0 then y0 + ystep else y0)"
    define e' where "e' = (if err - dy < 0 then err - dy + dx else err - dy)"
    have rest: "line_loop steep (x0 + 1) x1 y' e' dx dy ystep =
        map (?pt (x0 + 1) y' e') [0..x1 - x0 - 1]"
      using 1 True by (auto simp: y'_def e'_def diff_diff_add)
    have step: "?pt (x0 + 1) y' e' k = ?pt x0 y0 err (k + 1)" for k
    proof (cases "err - dy < 0")
      case True
      have "(k * dy + dx - 1 - e') = ((k + 1) * dy + dx - 1 - err) + (- 1) * dx"
        using True by (simp add: e'_def algebra_simps)
      then have "(k * dy + dx - 1 - e') div dx = ((k + 1) * dy + dx - 1 - err) div dx - 1"
        using "1.prems" by (simp only: div_mult_self1)
      then show ?thesis
        using True by (simp only: Let_def) (simp add: y'_def right_diff_distrib)
    next
      case False
      then show ?thesis by (simp add: y'_def e'_def Let_def algebra_simps)
    qed
    have "line_loop steep x0 x1 y0 err dx dy ystep =
        (if steep then (y0, x0) else (x0, y0)) # line_loop steep (x0 + 1) x1 y' e' dx dy ystep"
      using True by (simp add: line_loop.simps [of steep x0] y'_def e'_def Let_def)
    also have "(if steep then (y0, x0) else (x0, y0)) = ?pt x0 y0 err 0"
      using "1.prems" by (simp add: Let_def div_pos_pos_trivial)
    also have "map (?pt (x0 + 1) y' e') [0..x1 - x0 - 1] = map (?pt x0 y0 err) [1..x1 - x0]"
      using upto_shift [of "?pt x0 y0 err" 0 "x1 - x0"] by (simp add: step)
    ultimately show ?thesis
      using True rest by (simp add: upto_rec1 [of 0 "x1 - x0"])
  qed
qed

lemma line_loop_ends:
  fixes steep :: bool
  assumes "x0 < x1" "dx = x1 - x0" "dy = \<bar>y1 - y0\<bar>" "dy \<le> dx"
    and "ystep = (if y0 < y1 then 1 else - 1)"
  defines "l \<equiv> line_loop steep x0 x1 y0 (dx sdiv 2) dx dy ystep"
  shows "length l = nat (dx + 1)"
    and "l ! 0 = (if steep then (y0, x0) else (x0, y0))"
    and "l ! nat dx = (if steep then (y1, x1) else (x1, y1))"
proof -
  have e: "dx sdiv 2 = dx div 2" "0 \<le> dx div 2" "dx div 2 < dx"
    using assms by (auto simp: sdiv_nonneg)
  have l: "l = map (\<lambda>k. let x = x0 + k; y = y0 + ystep * ((k * dy + dx - 1 - dx div 2) div dx)
             in if steep then (y, x) else (x, y)) [0..dx]"
    unfolding l_def e(1) using line_loop_closed [OF e(2,3)] assms(2-4) by simp
  then show "length l = nat (dx + 1)" by simp
  show "l ! 0 = (if steep then (y0, x0) else (x0, y0))"
    using e assms(1,2) by (simp add: l Let_def div_pos_pos_trivial)
  have "dx * dy + dx - 1 - dx div 2 = (dx - 1 - dx div 2) + dy * dx" by simp
  then have "(dx * dy + dx - 1 - dx div 2) div dx = dy"
    using e assms(1,2) by (simp only: div_mult_self1) (simp add: div_pos_pos_trivial)
  then have "y0 + ystep * ((dx * dy + dx - 1 - dx div 2) div dx) = y1"
    using assms(3,5) by auto
  then show "l ! nat dx = (if steep then (y1, x1) else (x1, y1))"
    using assms(1,2) by (simp add: l Let_def)
qed

text \<open>A line between two points starts at one of them, ends at the other and has one pixel
  per step of its longer axis.\<close>

lemma writeLine_ends:
  assumes "(x0, y0) \<noteq> (x1, y1)"
  shows "length (writeLine x0 y0 x1 y1) = nat (max \<bar>x1 - x0\<bar> \<bar>y1 - y0\<bar> + 1)"
    and "{hd (writeLine x0 y0 x1 y1), last (writeLine x0 y0 x1 y1)} = {(x0, y0), (x1, y1)}"
proof -
  have *: "length l = nat (max \<bar>x1 - x0\<bar> \<bar>y1 - y0\<bar> + 1) \<and> {hd l, last l} = {(x0, y0), (x1, y1)}"
    if "l = writeLine x0 y0 x1 y1" for l
  proof -
    define n where "n = max \<bar>x1 - x0\<bar> \<bar>y1 - y0\<bar>"
    have n: "0 < n" using assms by (auto simp: n_def)
    have "length l = nat (n + 1) \<and> {l ! 0, l ! nat n} = {(x0, y0), (x1, y1)}"
    proof (cases "\<bar>y1 - y0\<bar> > \<bar>x1 - x0\<bar>")
      case steep: True
      show ?thesis
      proof (cases "y0 > y1")
        case True
        then show ?thesis
          using that steep line_loop_ends [of y1 y0 "y0 - y1" "\<bar>x0 - x1\<bar>" x0 x1 _ True]
          by (simp add: writeLine_def Let_def n_def abs_minus_commute insert_commute)
      next
        case False
        with steep show ?thesis
          using that line_loop_ends [of y0 y1 "y1 - y0" "\<bar>x1 - x0\<bar>" x1 x0 _ True]
          by (simp add: writeLine_def Let_def n_def abs_minus_commute insert_commute)
      qed
    next
      case flat: False
      show ?thesis
      proof (cases "x0 > x1")
        case True
        then show ?thesis
          using that flat line_loop_ends [of x1 x0 "x0 - x1" "\<bar>y0 - y1\<bar>" y0 y1 _ False]
          by (simp add: writeLine_def Let_def n_def abs_minus_commute insert_commute)
      next
        case False
        with flat assms have "x0 < x1" by auto
        with flat show ?thesis
          using that line_loop_ends [of x0 x1 "x1 - x0" "\<bar>y1 - y0\<bar>" y1 y0 _ False]
          by (simp add: writeLine_def Let_def n_def abs_minus_commute insert_commute)
      qed
    qed
    moreover from this n have "l \<noteq> []" by auto
    ultimately show ?thesis
      using n by (simp add: n_def [symmetric] hd_conv_nth last_conv_nth nat_add_distrib)
  qed
  then show "length (writeLine x0 y0 x1 y1) = nat (max \<bar>x1 - x0\<bar> \<bar>y1 - y0\<bar> + 1)"
    and "{hd (writeLine x0 y0 x1 y1), last (writeLine x0 y0 x1 y1)} = {(x0, y0), (x1, y1)}"
    by blast+
qed

subsection \<open>Circles and rounded rectangles\<close>

text \<open>
  The state of the midpoint loop is \<open>x\<close>, \<open>y\<close>, \<open>f\<close>, \<open>ddF_x\<close>, \<open>ddF_y\<close>; \<open>circle_next\<close> is the
  part of the body that all four loops share.
\<close>

definition circle_next :: "int \<Rightarrow> int \<Rightarrow> int \<Rightarrow> int \<Rightarrow> int \<Rightarrow> int \<times> int \<times> int \<times> int \<times> int" where
  "circle_next x y f ddFx ddFy =
     (let (y, ddFy, f) = (if f \<ge> 0 then (y - 1, ddFy + 2, f + (ddFy + 2)) else (y, ddFy, f));
          x = x + 1;
          ddFx = ddFx + 2;
          f = f + ddFx
      in (x, y, f, ddFx, ddFy))"

lemma circle_next_xy:
  "fst (circle_next x y f a b) = x + 1"
  "fst (snd (circle_next x y f a b)) = (if f \<ge> 0 then y - 1 else y)"
  by (simp_all add: circle_next_def Let_def)

text \<open>The points \<open>(x, y)\<close> of one octant, in the order of the loop.\<close>

function circle_points :: "int \<Rightarrow> int \<Rightarrow> int \<Rightarrow> int \<Rightarrow> int \<Rightarrow> pix list" where
  "circle_points x y f ddFx ddFy =
     (if x < y
      then let (x', y', f', ddFx', ddFy') = circle_next x y f ddFx ddFy
           in (x', y') # circle_points x' y' f' ddFx' ddFy'
      else [])"
  by pat_completeness auto
termination
  by (relation "measure (\<lambda>(x, y, f, ddFx, ddFy). nat (y - x))")
     (auto simp: circle_next_def Let_def split: if_splits)

declare circle_points.simps [simp del]

definition octant :: "int \<Rightarrow> pix list" where
  "octant r = circle_points 0 r (1 - r) 1 (- 2 * r)"

definition drawCircle :: "int \<Rightarrow> int \<Rightarrow> int \<Rightarrow> pix list" where
  "drawCircle x0 y0 r =
     [(x0, y0 + r), (x0, y0 - r), (x0 + r, y0), (x0 - r, y0)] @
     concat (map (\<lambda>(x, y).
       [(x0 + x, y0 + y), (x0 - x, y0 + y), (x0 + x, y0 - y), (x0 - x, y0 - y),
        (x0 + y, y0 + x), (x0 - y, y0 + x), (x0 + y, y0 - x), (x0 - y, y0 - x)]) (octant r))"

definition drawCircleHelper :: "int \<Rightarrow> int \<Rightarrow> int \<Rightarrow> u8 \<Rightarrow> pix list" where
  "drawCircleHelper x0 y0 r cornername =
     concat (map (\<lambda>(x, y).
       (if cornername AND 4 \<noteq> 0 then [(x0 + x, y0 + y), (x0 + y, y0 + x)] else []) @
       (if cornername AND 2 \<noteq> 0 then [(x0 + x, y0 - y), (x0 + y, y0 - x)] else []) @
       (if cornername AND 8 \<noteq> 0 then [(x0 - y, y0 + x), (x0 - x, y0 + y)] else []) @
       (if cornername AND 1 \<noteq> 0 then [(x0 - y, y0 - x), (x0 - x, y0 - y)] else [])) (octant r))"

text \<open>\<open>fillCircleHelper\<close> remembers the previous \<open>x\<close> and \<open>y\<close> so that no column is drawn twice.\<close>

fun fill_helper_loop ::
  "int \<Rightarrow> int \<Rightarrow> u8 \<Rightarrow> int \<Rightarrow> int \<Rightarrow> int \<Rightarrow> pix list \<Rightarrow> pix list" where
  "fill_helper_loop x0 y0 corners delta px py [] = []"
| "fill_helper_loop x0 y0 corners delta px py ((x, y) # ps) =
     (if x < y + 1 then
        (if corners AND 1 \<noteq> 0 then drawFastVLine (x0 + x) (y0 - y) (2 * y + delta) else []) @
        (if corners AND 2 \<noteq> 0 then drawFastVLine (x0 - x) (y0 - y) (2 * y + delta) else [])
      else []) @
     (if y \<noteq> py then
        (if corners AND 1 \<noteq> 0 then drawFastVLine (x0 + py) (y0 - px) (2 * px + delta) else []) @
        (if corners AND 2 \<noteq> 0 then drawFastVLine (x0 - py) (y0 - px) (2 * px + delta) else [])
      else []) @
     fill_helper_loop x0 y0 corners delta x (if y \<noteq> py then y else py) ps"

definition fillCircleHelper :: "int \<Rightarrow> int \<Rightarrow> int \<Rightarrow> u8 \<Rightarrow> int \<Rightarrow> pix list" where
  "fillCircleHelper x0 y0 r corners delta =
     fill_helper_loop x0 y0 corners (delta + 1) 0 r (octant r)"

definition fillCircle :: "int \<Rightarrow> int \<Rightarrow> int \<Rightarrow> pix list" where
  "fillCircle x0 y0 r =
     drawFastVLine x0 (y0 - r) (2 * r + 1) @ fillCircleHelper x0 y0 r 3 0"

definition clamp_radius :: "int \<Rightarrow> int \<Rightarrow> int \<Rightarrow> int" where
  "clamp_radius w h r =
     (let max_radius = (if w < h then w else h) sdiv 2
      in if r > max_radius then max_radius else r)"

definition drawRoundRect :: "int \<Rightarrow> int \<Rightarrow> int \<Rightarrow> int \<Rightarrow> int \<Rightarrow> pix list" where
  "drawRoundRect x y w h r0 =
     (let r = clamp_radius w h r0
      in drawFastHLine (x + r) y (w - 2 * r) @
         drawFastHLine (x + r) (y + h - 1) (w - 2 * r) @
         drawFastVLine x (y + r) (h - 2 * r) @
         drawFastVLine (x + w - 1) (y + r) (h - 2 * r) @
         drawCircleHelper (x + r) (y + r) r 1 @
         drawCircleHelper (x + w - r - 1) (y + r) r 2 @
         drawCircleHelper (x + w - r - 1) (y + h - r - 1) r 4 @
         drawCircleHelper (x + r) (y + h - r - 1) r 8)"

definition fillRoundRect :: "int \<Rightarrow> int \<Rightarrow> int \<Rightarrow> int \<Rightarrow> int \<Rightarrow> pix list" where
  "fillRoundRect x y w h r0 =
     (let r = clamp_radius w h r0
      in fillRect (x + r) y (w - 2 * r) h @
         fillCircleHelper (x + w - r - 1) (y + r) r 1 (h - 2 * r - 1) @
         fillCircleHelper (x + r) (y + r) r 2 (h - 2 * r - 1))"

text \<open>The octant: \<open>x\<close> runs from 1, \<open>y\<close> never grows, and \<open>x\<close> passes \<open>y\<close> by one at most.\<close>

lemma circle_points_bounds:
  "p \<in> set (circle_points x y f a b) \<Longrightarrow> 0 \<le> x \<Longrightarrow>
   x < fst p \<and> 0 \<le> snd p \<and> fst p \<le> snd p + 1 \<and> snd p \<le> y \<and> fst p \<le> y"
proof (induction x y f a b rule: circle_points.induct)
  case (1 x y f a b)
  obtain x' y' f' a' b' where n: "circle_next x y f a b = (x', y', f', a', b')"
    by (cases "circle_next x y f a b") auto
  then have xy: "x' = x + 1" "y' = (if f \<ge> 0 then y - 1 else y)"
    using circle_next_xy [of x y f a b] by auto
  from "1.prems" have lt: "x < y" by (auto simp: circle_points.simps [of x y] split: if_splits)
  with "1.prems"(1) n have "p = (x', y') \<or> p \<in> set (circle_points x' y' f' a' b')"
    by (simp add: circle_points.simps [of x y])
  then show ?case
  proof
    assume "p = (x', y')"
    with xy lt "1.prems"(2) show ?thesis by auto
  next
    assume "p \<in> set (circle_points x' y' f' a' b')"
    with "1.IH" [OF lt n [symmetric] refl refl refl refl] xy "1.prems"(2) show ?thesis by (auto split: if_splits)
  qed
qed

lemma octant_bounds:
  "(x, y) \<in> set (octant r) \<Longrightarrow> 1 \<le> x \<and> x \<le> r \<and> 0 \<le> y \<and> y \<le> r \<and> x \<le> y + 1"
  using circle_points_bounds [of "(x, y)" 0 r] by (fastforce simp: octant_def)

text \<open>A pixel rectangle, and what stays inside it.\<close>

definition in_box :: "int \<Rightarrow> int \<Rightarrow> int \<Rightarrow> int \<Rightarrow> pix list \<Rightarrow> bool" where
  "in_box x y w h ps = (set ps \<subseteq> {x..<x + w} \<times> {y..<y + h})"

lemma in_box_simps [simp]:
  "in_box x y w h []"
  "in_box x y w h (ps @ qs) \<longleftrightarrow> in_box x y w h ps \<and> in_box x y w h qs"
  "in_box x y w h (p # ps) \<longleftrightarrow> p \<in> {x..<x + w} \<times> {y..<y + h} \<and> in_box x y w h ps"
  by (auto simp: in_box_def)

lemma in_box_concat:
  "(\<And>p. p \<in> set ps \<Longrightarrow> in_box x y w h (f p)) \<Longrightarrow> in_box x y w h (concat (map f ps))"
  by (induction ps) auto

lemma drawFastVLine_0: "drawFastVLine x y 0 = [(x, y - 1), (x, y)]"
  by (simp add: drawFastVLine_def writeLine_def Let_def line_loop_flat sdiv_nonneg upto.simps)

lemma in_box_drawFastVLine:
  "1 \<le> l \<Longrightarrow> x \<le> i \<Longrightarrow> i < x + w \<Longrightarrow> y \<le> j \<Longrightarrow> j + l \<le> y + h \<Longrightarrow>
   in_box x y w h (drawFastVLine i j l)"
  by (auto simp: in_box_def drawFastVLine_pixels)

lemma in_box_drawFastVLine_le:
  "0 \<le> l \<Longrightarrow> x \<le> i \<Longrightarrow> i < x + w \<Longrightarrow> y < j \<Longrightarrow> j + l \<le> y + h \<Longrightarrow> j < y + h \<Longrightarrow>
   in_box x y w h (drawFastVLine i j l)"
  by (cases "l = 0") (auto simp: drawFastVLine_0 in_box_drawFastVLine)

lemma in_box_drawCircle: "0 \<le> r \<Longrightarrow> in_box (x0 - r) (y0 - r) (2 * r + 1) (2 * r + 1) (drawCircle x0 y0 r)"
  by (auto simp: drawCircle_def intro!: in_box_concat dest!: octant_bounds)

lemma in_box_fill_helper_loop:
  assumes "\<forall>(a, b) \<in> set ps. 0 \<le> a \<and> a \<le> r \<and> 0 \<le> b \<and> b \<le> r"
    and "0 \<le> delta" "1 \<le> r" "0 \<le> px" "px \<le> r" "0 \<le> py" "py \<le> r"
    and "\<And>a. corners AND 1 \<noteq> 0 \<Longrightarrow> 0 \<le> a \<Longrightarrow> a \<le> r \<Longrightarrow> x \<le> x0 + a \<and> x0 + a < x + w"
    and "\<And>a. corners AND 2 \<noteq> 0 \<Longrightarrow> 0 \<le> a \<Longrightarrow> a \<le> r \<Longrightarrow> x \<le> x0 - a \<and> x0 - a < x + w"
    and "y \<le> y0 - r" "y0 + r + delta \<le> y + h"
  shows "in_box x y w h (fill_helper_loop x0 y0 corners delta px py ps)"
  using assms(1,4-7)
proof (induction ps arbitrary: px py)
  case Nil
  then show ?case by simp
next
  case (Cons p ps)
  obtain a b where p: "p = (a, b)" by (cases p)
  have ab: "0 \<le> a" "a \<le> r" "0 \<le> b" "b \<le> r" using Cons.prems(1) p by auto
  have col: "in_box x y w h (drawFastVLine i (y0 - d) (2 * d + delta))"
    if "x \<le> i" "i < x + w" "0 \<le> d" "d \<le> r" for i d
  proof (cases "1 \<le> 2 * d + delta")
    case True
    with that assms(10,11) show ?thesis by (simp add: in_box_drawFastVLine)
  next
    case False
    with that assms(2) have "d = 0" "delta = 0" by auto
    with that assms(3,10,11) show ?thesis by (intro in_box_drawFastVLine_le) auto
  qed
  have "in_box x y w h (fill_helper_loop x0 y0 corners delta a (if b \<noteq> py then b else py) ps)"
    using Cons.prems ab by (intro Cons.IH) auto
  moreover have "in_box x y w h (drawFastVLine (x0 + c) (y0 - d) (2 * d + delta))"
    if "corners AND 1 \<noteq> 0" "0 \<le> c" "c \<le> r" "0 \<le> d" "d \<le> r" for c d
    using that assms(8) [of c] by (intro col) auto
  moreover have "in_box x y w h (drawFastVLine (x0 - c) (y0 - d) (2 * d + delta))"
    if "corners AND 2 \<noteq> 0" "0 \<le> c" "c \<le> r" "0 \<le> d" "d \<le> r" for c d
    using that assms(9) [of c] by (intro col) auto
  ultimately show ?case
    using ab Cons.prems(2-5) by (simp add: p)
qed

lemma octant_range: "\<forall>(a, b) \<in> set (octant r). 0 \<le> a \<and> a \<le> r \<and> 0 \<le> b \<and> b \<le> r"
  by (auto dest!: octant_bounds)

lemma octant_0: "octant 0 = []"
  by (simp add: octant_def circle_points.simps)

lemma in_box_fillCircleHelper:
  assumes "0 \<le> r" "- 1 \<le> delta"
    and "\<And>a. corners AND 1 \<noteq> 0 \<Longrightarrow> 0 \<le> a \<Longrightarrow> a \<le> r \<Longrightarrow> x \<le> x0 + a \<and> x0 + a < x + w"
    and "\<And>a. corners AND 2 \<noteq> 0 \<Longrightarrow> 0 \<le> a \<Longrightarrow> a \<le> r \<Longrightarrow> x \<le> x0 - a \<and> x0 - a < x + w"
    and "y \<le> y0 - r" "y0 + r + delta + 1 \<le> y + h"
  shows "in_box x y w h (fillCircleHelper x0 y0 r corners delta)"
proof (cases "r = 0")
  case True
  then show ?thesis by (simp add: fillCircleHelper_def octant_0)
next
  case False
  with assms show ?thesis
    unfolding fillCircleHelper_def
    by (intro in_box_fill_helper_loop [OF octant_range]) auto
qed

lemma in_box_fillCircle:
  assumes "0 \<le> r"
  shows "in_box (x0 - r) (y0 - r) (2 * r + 1) (2 * r + 1) (fillCircle x0 y0 r)"
proof -
  have "in_box (x0 - r) (y0 - r) (2 * r + 1) (2 * r + 1) (fillCircleHelper x0 y0 r 3 0)"
    using assms by (intro in_box_fillCircleHelper) auto
  with assms show ?thesis
    by (simp add: fillCircle_def in_box_drawFastVLine)
qed

lemma in_box_fillRoundRect:
  assumes "1 \<le> w" "1 \<le> h" "0 \<le> r"
  shows "in_box x y w h (fillRoundRect x y w h r)"
proof -
  let ?r = "clamp_radius w h r"
  have r: "0 \<le> ?r" "2 * ?r \<le> w" "2 * ?r \<le> h"
    using assms by (auto simp: clamp_radius_def Let_def sdiv_nonneg)
  have "in_box x y w h (fillRect (x + ?r) y (w - 2 * ?r) h)"
    using assms r by (auto simp: in_box_def set_fillRect)
  moreover have "in_box x y w h (fillCircleHelper (x + w - ?r - 1) (y + ?r) ?r 1 (h - 2 * ?r - 1))"
    using assms r by (intro in_box_fillCircleHelper) auto
  moreover have "in_box x y w h (fillCircleHelper (x + ?r) (y + ?r) ?r 2 (h - 2 * ?r - 1))"
    using assms r by (intro in_box_fillCircleHelper) auto
  ultimately show ?thesis by (simp add: fillRoundRect_def Let_def)
qed

end
