(* ===== verification/Gfx_Text.thy ===== *)
theory Gfx_Text
  imports Gfx
begin

section \<open>Text output of Adafruit\_GFX\<close>

text \<open>
  The text part of \<^verbatim>\<open>Adafruit_GFX.cpp\<close>: the drawing context, \<open>drawChar\<close>, \<open>write\<close>,
  \<open>charBounds\<close> and \<open>getTextBounds\<close>. A character is its code (\<open>nat\<close>, below 256; \<open>char\<close> is
  unsigned on this target). What is drawn is a list of coloured pixels; a read outside the
  glyph table or the glyph bitmaps is the fault \<open>OutOfBounds\<close>.
\<close>

record gfx =
  gfx_width :: int
  gfx_height :: int
  cursor_x :: int
  cursor_y :: int
  textsize_x :: int
  textsize_y :: int
  textcolor :: u16
  textbgcolor :: u16
  wrap :: bool
  cp437 :: bool
  gfxFont :: "GFXfont option"

definition gfx_init :: "int \<Rightarrow> int \<Rightarrow> gfx" where
  "gfx_init w h =
     \<lparr>gfx_width = w, gfx_height = h, cursor_x = 0, cursor_y = 0, textsize_x = 1,
      textsize_y = 1, textcolor = 0xFFFF, textbgcolor = 0xFFFF, wrap = True, cp437 = False,
      gfxFont = None\<rparr>"

definition setTextSize :: "int \<Rightarrow> gfx \<Rightarrow> gfx" where
  "setTextSize s g = g\<lparr>textsize_x := (if s > 0 then s else 1), textsize_y := (if s > 0 then s else 1)\<rparr>"

definition setFont :: "GFXfont option \<Rightarrow> gfx \<Rightarrow> gfx" where
  "setFont f g =
     (let g = (case f of
                 Some _ \<Rightarrow> if gfxFont g = None then g\<lparr>cursor_y := cursor_y g + 6\<rparr> else g
               | None \<Rightarrow> if gfxFont g \<noteq> None then g\<lparr>cursor_y := cursor_y g - 6\<rparr> else g)
      in g\<lparr>gfxFont := f\<rparr>)"

definition setCursor :: "int \<Rightarrow> int \<Rightarrow> gfx \<Rightarrow> gfx" where
  "setCursor x y g = g\<lparr>cursor_x := x, cursor_y := y\<rparr>"

definition setTextColor :: "u16 \<Rightarrow> gfx \<Rightarrow> gfx" where
  "setTextColor c g = g\<lparr>textcolor := c, textbgcolor := c\<rparr>"

subsection \<open>\<open>drawChar\<close>\<close>

text \<open>
  The bit loop over a glyph: \<open>k\<close> counts the bits taken, a new byte is read at every
  eighth one, and the top bit of \<open>bits\<close> says whether the pixel is set.
\<close>

fun glyph_bits :: "u8 list \<Rightarrow> nat \<Rightarrow> u8 \<Rightarrow> u8 \<Rightarrow> pix list \<Rightarrow> pix list res" where
  "glyph_bits bm bo k bits [] = Inr []"
| "glyph_bits bm bo k bits (p # ps) =
     andThen (if k AND 7 = 0 then andThen (rd bm (int bo)) (\<lambda>b. Inr (b, bo + 1)) else Inr (bits, bo))
       (\<lambda>(bits, bo).
          andThen (glyph_bits bm bo (k + 1) (push_bit 1 bits) ps)
            (\<lambda>rest. Inr (if bits AND 0x80 \<noteq> 0 then p # rest else rest)))"

definition glyph_positions :: "nat \<Rightarrow> nat \<Rightarrow> pix list" where
  "glyph_positions w h = concat (map (\<lambda>yy. map (\<lambda>xx. (int xx, int yy)) [0..<w]) [0..<h])"

definition drawChar_custom :: "GFXfont \<Rightarrow> int \<Rightarrow> int \<Rightarrow> nat \<Rightarrow> int \<Rightarrow> int \<Rightarrow> pix list res" where
  "drawChar_custom f x y c size_x size_y =
     andThen (rd (f_glyph f) (int ((c + 256 - f_first f) mod 256)))
       (\<lambda>g. andThen (glyph_bits (f_bitmap f) (bitmapOffset g) 0 0
                      (glyph_positions (g_width g) (g_height g)))
         (\<lambda>ps. Inr (concat (map (\<lambda>(xx, yy).
            if size_x = 1 \<and> size_y = 1 then [(x + xOffset g + xx, y + yOffset g + yy)]
            else fillRect (x + (xOffset g + xx) * size_x) (y + (yOffset g + yy) * size_y)
                   size_x size_y) ps))))"

text \<open>The classic font: five columns of eight bits, and the background unless transparent.\<close>

definition classic_cell :: "gfx \<Rightarrow> int \<Rightarrow> int \<Rightarrow> int \<Rightarrow> int \<Rightarrow> pix list" where
  "classic_cell g x y i j =
     (if textsize_x g = 1 \<and> textsize_y g = 1 then [(x + i, y + j)]
      else fillRect (x + i * textsize_x g) (y + j * textsize_y g) (textsize_x g) (textsize_y g))"

definition drawChar_classic :: "gfx \<Rightarrow> int \<Rightarrow> int \<Rightarrow> nat \<Rightarrow> (pix \<times> u16) list" where
  "drawChar_classic g x y c0 =
     (if x \<ge> gfx_width g \<or> y \<ge> gfx_height g \<or>
         x + 6 * textsize_x g - 1 < 0 \<or> y + 8 * textsize_y g - 1 < 0 then []
      else let c = (if \<not> cp437 g \<and> c0 \<ge> 176 then (c0 + 1) mod 256 else c0);
               color = textcolor g; bg = textbgcolor g
           in concat (map (\<lambda>i. let line = font ! (c * 5 + i)
                in concat (map (\<lambda>j.
                     if bit line j then map (\<lambda>p. (p, color)) (classic_cell g x y (int i) (int j))
                     else if bg \<noteq> color then map (\<lambda>p. (p, bg)) (classic_cell g x y (int i) (int j))
                     else []) [0..<8])) [0..<5]) @
              (if bg \<noteq> color then
                 map (\<lambda>p. (p, bg))
                   (if textsize_x g = 1 \<and> textsize_y g = 1 then drawFastVLine (x + 5) y 8
                    else fillRect (x + 5 * textsize_x g) y (textsize_x g) (8 * textsize_y g))
               else []))"

definition drawChar :: "gfx \<Rightarrow> int \<Rightarrow> int \<Rightarrow> nat \<Rightarrow> (pix \<times> u16) list res" where
  "drawChar g x y c =
     (case gfxFont g of
        None \<Rightarrow> Inr (drawChar_classic g x y c)
      | Some f \<Rightarrow> andThen (drawChar_custom f x y c (textsize_x g) (textsize_y g))
                   (\<lambda>ps. Inr (map (\<lambda>p. (p, textcolor g)) ps)))"

subsection \<open>\<open>write\<close>\<close>

definition write_classic :: "nat \<Rightarrow> gfx \<Rightarrow> ((pix \<times> u16) list \<times> gfx) res" where
  "write_classic c g =
     (if c = 10 then Inr ([], g\<lparr>cursor_x := 0, cursor_y := cursor_y g + textsize_y g * 8\<rparr>)
      else if c \<noteq> 13 then
        (let g = (if wrap g \<and> cursor_x g + textsize_x g * 6 > gfx_width g
                  then g\<lparr>cursor_x := 0, cursor_y := cursor_y g + textsize_y g * 8\<rparr> else g)
         in andThen (drawChar g (cursor_x g) (cursor_y g) c)
              (\<lambda>ps. Inr (ps, g\<lparr>cursor_x := cursor_x g + textsize_x g * 6\<rparr>)))
      else Inr ([], g))"

definition write_custom :: "GFXfont \<Rightarrow> nat \<Rightarrow> gfx \<Rightarrow> ((pix \<times> u16) list \<times> gfx) res" where
  "write_custom f c g =
     (if c = 10 then
        Inr ([], g\<lparr>cursor_x := 0, cursor_y := cursor_y g + textsize_y g * int (yAdvance f)\<rparr>)
      else if c \<noteq> 13 \<and> f_first f \<le> c \<and> c \<le> f_last f then
        andThen (rd (f_glyph f) (int (c - f_first f)))
          (\<lambda>gl. andThen
             (if g_width gl > 0 \<and> g_height gl > 0 then
                (let g = (if wrap g \<and> cursor_x g + textsize_x g * (xOffset gl + int (g_width gl)) > gfx_width g
                          then g\<lparr>cursor_x := 0, cursor_y := cursor_y g + textsize_y g * int (yAdvance f)\<rparr>
                          else g)
                 in andThen (drawChar g (cursor_x g) (cursor_y g) c) (\<lambda>ps. Inr (ps, g)))
              else Inr ([], g))
             (\<lambda>(ps, g). Inr (ps, g\<lparr>cursor_x := cursor_x g + int (xAdvance gl) * textsize_x g\<rparr>)))
      else Inr ([], g))"

definition gfx_write :: "nat \<Rightarrow> gfx \<Rightarrow> ((pix \<times> u16) list \<times> gfx) res" where
  "gfx_write c g =
     (case gfxFont g of None \<Rightarrow> write_classic c g | Some f \<Rightarrow> write_custom f c g)"

subsection \<open>\<open>charBounds\<close> and \<open>getTextBounds\<close>\<close>

record bounds =
  b_x :: int
  b_y :: int
  minx :: int
  miny :: int
  maxx :: int
  maxy :: int

definition charBounds_custom :: "GFXfont \<Rightarrow> gfx \<Rightarrow> nat \<Rightarrow> bounds \<Rightarrow> bounds res" where
  "charBounds_custom f g c b =
     (if c = 10 then Inr (b\<lparr>b_x := 0, b_y := b_y b + textsize_y g * int (yAdvance f)\<rparr>)
      else if c \<noteq> 13 \<and> f_first f \<le> c \<and> c \<le> f_last f then
        andThen (rd (f_glyph f) (int (c - f_first f)))
          (\<lambda>gl. let gw = int (g_width gl); gh = int (g_height gl);
                    b = (if wrap g \<and> b_x b + (xOffset gl + gw) * textsize_x g > gfx_width g
                         then b\<lparr>b_x := 0, b_y := b_y b + textsize_y g * int (yAdvance f)\<rparr> else b);
                    tsx = textsize_x g; tsy = textsize_y g;
                    x1 = b_x b + xOffset gl * tsx; y1 = b_y b + yOffset gl * tsy;
                    x2 = x1 + gw * tsx - 1; y2 = y1 + gh * tsy - 1
                in Inr (b\<lparr>minx := (if x1 < minx b then x1 else minx b),
                          miny := (if y1 < miny b then y1 else miny b),
                          maxx := (if x2 > maxx b then x2 else maxx b),
                          maxy := (if y2 > maxy b then y2 else maxy b),
                          b_x := b_x b + int (xAdvance gl) * tsx\<rparr>))
      else Inr b)"

definition charBounds_classic :: "gfx \<Rightarrow> nat \<Rightarrow> bounds \<Rightarrow> bounds" where
  "charBounds_classic g c b =
     (if c = 10 then b\<lparr>b_x := 0, b_y := b_y b + textsize_y g * 8\<rparr>
      else if c \<noteq> 13 then
        (let b = (if wrap g \<and> b_x b + textsize_x g * 6 > gfx_width g
                  then b\<lparr>b_x := 0, b_y := b_y b + textsize_y g * 8\<rparr> else b);
             x2 = b_x b + textsize_x g * 6 - 1; y2 = b_y b + textsize_y g * 8 - 1
         in b\<lparr>maxx := (if x2 > maxx b then x2 else maxx b),
              maxy := (if y2 > maxy b then y2 else maxy b),
              minx := (if b_x b < minx b then b_x b else minx b),
              miny := (if b_y b < miny b then b_y b else miny b),
              b_x := b_x b + textsize_x g * 6\<rparr>)
      else b)"

definition charBounds :: "gfx \<Rightarrow> nat \<Rightarrow> bounds \<Rightarrow> bounds res" where
  "charBounds g c b =
     (case gfxFont g of
        Some f \<Rightarrow> charBounds_custom f g c b
      | None \<Rightarrow> Inr (charBounds_classic g c b))"

text \<open>The text is a C string: it ends at its first NUL.\<close>

definition c_str :: "string \<Rightarrow> nat list" where
  "c_str s = map of_char (takeWhile (\<lambda>c. of_char c \<noteq> (0 :: nat)) s)"

definition getTextBounds :: "gfx \<Rightarrow> string \<Rightarrow> int \<Rightarrow> int \<Rightarrow> (int \<times> int \<times> int \<times> int) res" where
  "getTextBounds g str x y =
     andThen (forr (c_str str) (charBounds g)
               \<lparr>b_x = x, b_y = y, minx = gfx_width g, miny = gfx_height g, maxx = - 1, maxy = - 1\<rparr>)
       (\<lambda>b. let (x1, w) = (if maxx b \<ge> minx b then (minx b, maxx b - minx b + 1) else (x, 0));
                (y1, h) = (if maxy b \<ge> miny b then (miny b, maxy b - miny b + 1) else (y, 0))
            in Inr (x1, y1, w, h))"

text \<open>The text extent is never negative.\<close>

lemma getTextBounds_nonneg:
  "getTextBounds g str x y = Inr (x1, y1, w, h) \<Longrightarrow> 0 \<le> w \<and> 0 \<le> h"
  by (auto simp: getTextBounds_def andThen_eq_Inr Let_def split: if_splits)

subsection \<open>Fonts that keep inside their tables\<close>

text \<open>
  The shifting loop over a glyph takes bit \<open>7 - i mod 8\<close> of byte \<open>bitmapOffset + i div 8\<close>
  for the \<open>i\<close>-th pixel, and reads no other byte.
\<close>

lemma glyph_bits_spec:
  assumes "bo0 + (k + length ps + 7) div 8 \<le> length bm" "bo = bo0 + (k + 7) div 8"
    and "k mod 8 \<noteq> 0 \<Longrightarrow> cur = push_bit (k mod 8) (bm ! (bo0 + k div 8))"
  shows "glyph_bits bm bo (of_nat k) cur ps =
    Inr (map fst (filter (\<lambda>(p, i). bit (bm ! (bo0 + i div 8)) (7 - i mod 8))
                         (zip ps [k..<k + length ps])))"
  using assms
proof (induction ps arbitrary: k bo cur)
  case (Cons p ps)
  define b where "b = bm ! (bo0 + k div 8)"
  define cur' where "cur' = push_bit (k mod 8) b"
  define bo' where "bo' = bo0 + (k + 8) div 8"
  have lt: "bo0 + k div 8 < length bm"
  proof -
    have "k div 8 < (k + length (p # ps) + 7) div 8" by simp
    then show ?thesis using Cons.prems(1) by linarith
  qed
  have step: "(if (of_nat k :: u8) AND 7 = 0 then andThen (rd bm (int bo)) (\<lambda>b. Inr (b, bo + 1)) else Inr (cur, bo))
      = Inr (cur', bo')"
  proof (cases "k mod 8 = 0")
    case True
    then have "(k + 7) div 8 = k div 8" by presburger
    then have "bo = bo0 + k div 8" using Cons.prems(2) by simp
    with True lt u8_and_7 [of k] show ?thesis by (simp add: cur'_def b_def bo'_def flip: of_nat_add)
  next
    case False
    then have "(k + 7) div 8 = (k + 8) div 8" by presburger
    with False Cons.prems(2,3) u8_and_7 [of k] show ?thesis by (simp add: cur'_def b_def bo'_def)
  qed
  have next_cur: "push_bit 1 cur' = push_bit ((k + 1) mod 8) (bm ! (bo0 + (k + 1) div 8))"
    if "(k + 1) mod 8 \<noteq> 0"
  proof -
    have "(k + 1) mod 8 = 1 + k mod 8" "(k + 1) div 8 = k div 8" using that
      by (auto simp: mod_Suc div_Suc split: if_splits)
    then show ?thesis by (simp only: cur'_def b_def push_bit_push_bit)
  qed
  have "glyph_bits bm bo' (of_nat (k + 1)) (push_bit 1 cur') ps =
      Inr (map fst (filter (\<lambda>(p, i). bit (bm ! (bo0 + i div 8)) (7 - i mod 8))
                           (zip ps [k + 1..<k + 1 + length ps])))"
    by (rule Cons.IH) (use Cons.prems(1) next_cur in \<open>simp_all add: bo'_def\<close>)
  moreover have "cur' AND 0x80 \<noteq> 0 \<longleftrightarrow> bit b (7 - k mod 8)"
    unfolding cur'_def by (rule and_0x80_shifted) simp
  moreover have "[k..<k + length (p # ps)] = k # [k + 1..<k + 1 + length ps]"
    by (simp add: upt_conv_Cons del: upt_Suc)
  ultimately show ?case
    by (simp only: glyph_bits.simps step andThen_simps prod.case of_nat_add of_nat_1) (simp add: b_def)
qed simp

lemma font_ok_glyph:
  assumes "font_ok f" "f_first f \<le> c" "c \<le> f_last f"
  shows "rd (f_glyph f) (int (c - f_first f)) = Inr (f_glyph f ! (c - f_first f))"
    and "glyph_ok (length (f_bitmap f)) (f_glyph f ! (c - f_first f))"
proof -
  have "c - f_first f < length (f_glyph f)" using assms by (auto simp: font_ok_def)
  then show "rd (f_glyph f) (int (c - f_first f)) = Inr (f_glyph f ! (c - f_first f))"
    and "glyph_ok (length (f_bitmap f)) (f_glyph f ! (c - f_first f))"
    using assms(1) by (simp_all add: font_ok_def list_all_length del: of_nat_diff)
qed

lemma drawChar_custom_total:
  assumes "font_ok f" "f_last f < 256" "f_first f \<le> c" "c \<le> f_last f"
  shows "\<exists>ps. drawChar_custom f x y c sx sy = Inr ps"
proof -
  have "(c + 256 - f_first f) mod 256 = c - f_first f" using assms(2-4) by (simp add: mod_if)
  moreover define g where "g = f_glyph f ! (c - f_first f)"
  moreover have "length (glyph_positions w h) = w * h" for w h
    by (simp add: glyph_positions_def length_concat comp_def sum_list_triv mult.commute)
  moreover have "bitmapOffset g + (g_width g * g_height g + 7) div 8 \<le> length (f_bitmap f)"
    using font_ok_glyph(2) [OF assms(1,3,4)] by (simp add: g_def glyph_ok_def)
  ultimately show ?thesis
    using font_ok_glyph(1) [OF assms(1,3,4)]
      glyph_bits_spec [of "bitmapOffset g" 0 "glyph_positions (g_width g) (g_height g)"
        "f_bitmap f" "bitmapOffset g" 0, unfolded of_nat_0]
    by (simp add: drawChar_custom_def)
qed

text \<open>What \<open>write\<close> may change of the context: the cursor.\<close>

definition only_cursor :: "gfx \<Rightarrow> gfx \<Rightarrow> bool" where
  "only_cursor g g' \<longleftrightarrow> g' = g\<lparr>cursor_x := cursor_x g', cursor_y := cursor_y g'\<rparr>"

definition text_ready :: "gfx \<Rightarrow> bool" where
  "text_ready g \<longleftrightarrow> (\<forall>f. gfxFont g = Some f \<longrightarrow> font_ok f \<and> f_last f < 256)"

lemma gfx_write_total:
  assumes "text_ready g"
  shows "\<exists>ps g'. gfx_write c g = Inr (ps, g') \<and> only_cursor g g'"
proof (cases "gfxFont g")
  case None
  then show ?thesis
    by (auto simp: gfx_write_def write_classic_def drawChar_def only_cursor_def Let_def)
next
  case (Some f)
  then have f: "font_ok f" "f_last f < 256" using assms by (auto simp: text_ready_def)
  show ?thesis
  proof (cases "c \<noteq> 10 \<and> c \<noteq> 13 \<and> f_first f \<le> c \<and> c \<le> f_last f")
    case True
    then show ?thesis
      using Some font_ok_glyph(1) [OF f(1), of c]
        drawChar_custom_total [OF f, of c "cursor_x g" "cursor_y g" "textsize_x g" "textsize_y g"]
        drawChar_custom_total [OF f, of c 0 "cursor_y g + textsize_y g * int (yAdvance f)"
          "textsize_x g" "textsize_y g"]
      by (auto simp: gfx_write_def write_custom_def drawChar_def only_cursor_def Let_def
          simp del: of_nat_diff)
  next
    case False
    then show ?thesis
      by (auto simp: Some gfx_write_def write_custom_def only_cursor_def)
  qed
qed

lemma charBounds_total: "text_ready g \<Longrightarrow> \<exists>b'. charBounds g c b = Inr b'"
  by (cases "gfxFont g")
    (auto simp: text_ready_def charBounds_def charBounds_custom_def font_ok_glyph Let_def
      simp del: of_nat_diff)

lemma forr_total: "(\<And>i s. \<exists>s'. c i s = Inr s') \<Longrightarrow> \<exists>s'. forr is c s = Inr s'"
proof (induction "is" arbitrary: s)
  case (Cons i "is")
  then obtain t where "c i s = Inr t" by blast
  with Cons.IH [of t] Cons.prems show ?case by simp
qed simp

lemma getTextBounds_total:
  "text_ready g \<Longrightarrow> \<exists>x1 y1 w h. getTextBounds g str x y = Inr (x1, y1, w, h) \<and> 0 \<le> w \<and> 0 \<le> h"
proof -
  assume g: "text_ready g"
  obtain b where "forr (c_str str) (charBounds g)
      \<lparr>b_x = x, b_y = y, minx = gfx_width g, miny = gfx_height g, maxx = - 1, maxy = - 1\<rparr> = Inr b"
    using forr_total charBounds_total [OF g] by metis
  then show ?thesis by (simp add: getTextBounds_def Let_def)
qed

end
