(* ===== verification/Bitmaps.thy ===== *)
theory Bitmaps
  imports Prelude
begin

section \<open>The icon bitmaps\<close>

text \<open>
  The icons of \<^verbatim>\<open>main/bitmaps.h\<close>, byte for byte: a row of an icon is padded to whole
  bytes, the most significant bit is the leftmost pixel. \<open>bitmap\<close> names the arrays the
  drawing calls point to; its data and its dimensions are the header's. The full-screen
  \<open>testBitmap\<close>, which no call uses, is left out.
\<close>

definition bulbBitmap :: "u8 list" where
  "bulbBitmap = [
     255, 255, 255, 255, 255, 255, 255, 255, 255, 255, 255, 255, 255, 255, 255, 255, 255,
     255, 255, 255, 255, 255, 255, 255, 255, 255, 240, 15, 255, 255, 255, 255, 192, 3,
     255, 255, 255, 255, 0, 0, 255, 255, 255, 254, 0, 0, 127, 255, 255, 252, 0, 0, 63,
     255, 255, 248, 0, 0, 31, 255, 255, 240, 0, 0, 15, 255, 255, 240, 0, 0, 15, 255, 255,
     224, 0, 0, 7, 255, 255, 224, 0, 0, 7, 255, 255, 192, 0, 0, 3, 255, 255, 192, 0, 0, 3,
     255, 255, 192, 0, 0, 3, 255, 255, 192, 0, 0, 3, 255, 255, 192, 0, 0, 3, 255, 255,
     192, 0, 0, 3, 255, 255, 192, 0, 0, 3, 255, 255, 192, 0, 0, 3, 255, 255, 224, 0, 0, 7,
     255, 255, 224, 0, 0, 7, 255, 255, 240, 0, 0, 15, 255, 255, 240, 0, 0, 15, 255, 255,
     248, 0, 0, 31, 255, 255, 252, 0, 0, 63, 255, 255, 254, 0, 0, 127, 255, 255, 255, 0,
     0, 255, 255, 255, 255, 0, 0, 255, 255, 255, 255, 0, 0, 255, 255, 255, 255, 0, 0, 255,
     255, 255, 255, 0, 0, 255, 255, 255, 255, 0, 0, 255, 255, 255, 255, 128, 1, 255, 255,
     255, 255, 255, 255, 255, 255, 255, 255, 255, 255, 255, 255, 255, 255, 255, 255, 255,
     255, 255, 255, 255, 255, 255, 255, 255, 255, 192, 3, 255, 255, 255, 255, 192, 3, 255,
     255, 255, 255, 192, 3, 255, 255, 255, 255, 224, 7, 255, 255, 255, 255, 255, 255, 255,
     255, 255, 255, 255, 255, 255, 255, 255, 255, 255, 255, 255, 255, 255, 255, 255, 255,
     255, 255]"

definition bulbOutlinedBitmap :: "u8 list" where
  "bulbOutlinedBitmap = [
     255, 255, 255, 255, 255, 255, 255, 255, 255, 255, 255, 255, 255, 255, 255, 255, 255,
     255, 255, 255, 255, 255, 255, 255, 255, 255, 240, 15, 255, 255, 255, 255, 192, 3,
     255, 255, 255, 255, 0, 0, 255, 255, 255, 254, 0, 0, 127, 255, 255, 252, 7, 224, 63,
     255, 255, 248, 31, 248, 31, 255, 255, 240, 127, 254, 15, 255, 255, 240, 255, 255, 15,
     255, 255, 224, 255, 255, 7, 255, 255, 225, 255, 255, 135, 255, 255, 193, 255, 255,
     131, 255, 255, 195, 255, 255, 195, 255, 255, 195, 255, 255, 195, 255, 255, 195, 255,
     255, 195, 255, 255, 195, 255, 255, 195, 255, 255, 195, 255, 255, 195, 255, 255, 195,
     255, 255, 195, 255, 255, 193, 255, 255, 131, 255, 255, 225, 255, 255, 135, 255, 255,
     224, 255, 255, 7, 255, 255, 240, 255, 255, 15, 255, 255, 240, 63, 252, 15, 255, 255,
     248, 31, 248, 31, 255, 255, 252, 15, 240, 63, 255, 255, 254, 15, 240, 127, 255, 255,
     255, 15, 240, 255, 255, 255, 255, 15, 240, 255, 255, 255, 255, 15, 240, 255, 255,
     255, 255, 0, 0, 255, 255, 255, 255, 0, 0, 255, 255, 255, 255, 0, 0, 255, 255, 255,
     255, 128, 1, 255, 255, 255, 255, 255, 255, 255, 255, 255, 255, 255, 255, 255, 255,
     255, 255, 255, 255, 255, 255, 255, 255, 255, 255, 255, 255, 255, 255, 192, 3, 255,
     255, 255, 255, 192, 3, 255, 255, 255, 255, 192, 3, 255, 255, 255, 255, 224, 7, 255,
     255, 255, 255, 255, 255, 255, 255, 255, 255, 255, 255, 255, 255, 255, 255, 255, 255,
     255, 255, 255, 255, 255, 255, 255, 255]"

definition batteryBitMap :: "u8 list" where
  "batteryBitMap = [
     0, 3, 127, 251, 127, 248, 127, 248, 127, 248, 127, 248, 127, 251, 0, 3]"

definition batteryChargeBitMap :: "u8 list" where
  "batteryChargeBitMap = [
     0, 3, 2, 19, 6, 32, 14, 64, 19, 128, 35, 0, 66, 3, 0, 3]"

definition backArrowBitmap :: "u8 list" where
  "backArrowBitmap = [
     255, 144, 254, 16, 248, 16, 240, 16, 192, 16, 0, 16, 0, 16, 192, 16, 240, 16, 248,
     16, 254, 16, 255, 144]"

definition settingsBitmap :: "u8 list" where
  "settingsBitmap = [
     252, 63, 252, 63, 248, 59, 128, 3, 128, 1, 3, 129, 135, 193, 199, 227, 199, 227, 135,
     193, 3, 129, 128, 1, 128, 3, 248, 59, 252, 63, 252, 63]"

definition editBitmap :: "u8 list" where
  "editBitmap = [
     255, 16, 255, 0, 252, 128, 248, 64, 240, 48, 224, 48, 192, 112, 128, 240, 1, 240, 3,
     240, 7, 240, 15, 240]"

definition homeBitmap :: "u8 list" where
  "homeBitmap = [
     249, 240, 240, 176, 224, 48, 192, 48, 128, 16, 0, 0, 0, 0, 128, 16, 134, 16, 134, 16,
     134, 16, 134, 16]"

definition refreshBitmap :: "u8 list" where
  "refreshBitmap = [
     255, 255, 255, 255, 255, 255, 248, 23, 243, 199, 231, 199, 239, 135, 239, 255, 239,
     255, 239, 247, 231, 231, 243, 207, 248, 31, 255, 255, 255, 255, 255, 255]"

definition allRoomsBitmap :: "u8 list" where
  "allRoomsBitmap = [
     255, 255, 255, 255, 255, 255, 255, 255, 255, 255, 255, 255, 255, 255, 255, 255, 255,
     255, 255, 255, 255, 255, 255, 255, 255, 255, 0, 0, 0, 255, 255, 0, 0, 0, 255, 255, 0,
     0, 0, 255, 255, 0, 0, 0, 255, 255, 0, 0, 0, 255, 255, 0, 0, 0, 255, 255, 0, 0, 0,
     255, 255, 0, 0, 0, 255, 255, 0, 0, 0, 255, 255, 0, 0, 0, 255, 255, 0, 0, 0, 255, 255,
     0, 0, 0, 255, 255, 0, 0, 0, 255, 255, 0, 0, 112, 255, 255, 0, 0, 112, 255, 255, 0, 0,
     112, 255, 255, 0, 0, 112, 255, 255, 0, 0, 0, 255, 255, 0, 0, 0, 255, 255, 0, 0, 0,
     255, 255, 0, 0, 0, 255, 255, 0, 0, 0, 255, 255, 0, 0, 0, 255, 255, 0, 0, 0, 255, 255,
     0, 0, 0, 255, 255, 0, 0, 0, 255, 255, 0, 0, 0, 255, 248, 0, 0, 0, 31, 248, 0, 0, 0,
     31, 248, 0, 0, 0, 31, 255, 255, 255, 255, 255, 255, 255, 255, 255, 255, 255, 255,
     255, 255, 255, 255, 255, 255, 255, 255, 255, 255, 255, 255, 255]"

definition behaviorBitmap :: "u8 list" where
  "behaviorBitmap = [
     255, 255, 255, 255, 255, 255, 255, 255, 255, 255, 255, 255, 255, 255, 255, 255, 255,
     255, 255, 255, 255, 255, 255, 255, 255, 255, 15, 255, 240, 255, 252, 3, 255, 192, 63,
     252, 3, 255, 192, 63, 248, 1, 224, 0, 31, 248, 97, 192, 0, 31, 248, 97, 192, 0, 31,
     248, 1, 224, 0, 31, 252, 3, 255, 192, 63, 252, 3, 255, 192, 63, 255, 15, 255, 240,
     255, 255, 15, 255, 255, 255, 255, 15, 255, 255, 255, 255, 15, 255, 255, 255, 255, 15,
     255, 249, 255, 255, 15, 255, 240, 255, 255, 15, 255, 240, 255, 255, 159, 255, 240,
     255, 255, 255, 255, 240, 255, 255, 255, 255, 240, 255, 255, 255, 255, 240, 255, 248,
     1, 255, 240, 255, 248, 1, 255, 224, 127, 248, 1, 255, 192, 63, 248, 1, 255, 128, 31,
     248, 1, 255, 0, 15, 248, 1, 255, 0, 15, 248, 1, 255, 128, 31, 248, 1, 255, 192, 63,
     248, 1, 255, 224, 127, 248, 1, 255, 240, 255, 255, 255, 255, 249, 255, 255, 255, 255,
     255, 255, 255, 255, 255, 255, 255, 255, 255, 255, 255, 255, 255, 255, 255, 255, 255]"

definition rightArrowBitmap :: "u8 list" where
  "rightArrowBitmap = [
     255, 254, 255, 254, 255, 254, 255, 254, 252, 254, 254, 126, 255, 62, 255, 62, 255,
     62, 254, 126, 252, 254, 255, 254, 255, 254, 255, 254, 255, 254]"

definition leftArrowBitmap :: "u8 list" where
  "leftArrowBitmap = [
     255, 254, 255, 254, 255, 254, 255, 254, 254, 126, 252, 254, 249, 254, 249, 254, 249,
     254, 252, 254, 254, 126, 255, 254, 255, 254, 255, 254, 255, 254]"

definition bulbBitmapSize :: int where
  "bulbBitmapSize = 48"

definition bulbWidth :: int where
  "bulbWidth = 48"

definition bulbHeight :: int where
  "bulbHeight = 48"

definition batteryWidth :: int where
  "batteryWidth = 16"

definition batteryHeight :: int where
  "batteryHeight = 8"

definition batteryChargeWidth :: int where
  "batteryChargeWidth = 16"

definition batteryChargeHeight :: int where
  "batteryChargeHeight = 8"

definition backArrowBitmapWidth :: int where
  "backArrowBitmapWidth = 12"

definition backArrowBitmapHeight :: int where
  "backArrowBitmapHeight = 12"

definition settingsBitmapWidth :: int where
  "settingsBitmapWidth = 16"

definition settingsBitmapHeight :: int where
  "settingsBitmapHeight = 16"

definition editBitmapWidth :: int where
  "editBitmapWidth = 12"

definition editBitmapHeight :: int where
  "editBitmapHeight = 12"

definition homeBitmapWidth :: int where
  "homeBitmapWidth = 12"

definition homeBitmapHeight :: int where
  "homeBitmapHeight = 12"

definition refreshBitmapWidth :: int where
  "refreshBitmapWidth = 16"

definition refreshBitmapHeight :: int where
  "refreshBitmapHeight = 16"

definition allRoomsBitmapWidth :: int where
  "allRoomsBitmapWidth = 40"

definition allRoomsBitmapHeight :: int where
  "allRoomsBitmapHeight = 40"

definition behaviorBitmapWidth :: int where
  "behaviorBitmapWidth = 40"

definition behaviorBitmapHeight :: int where
  "behaviorBitmapHeight = 40"

definition rightArrowBitmapWidth :: int where
  "rightArrowBitmapWidth = 15"

definition rightArrowBitmapHeight :: int where
  "rightArrowBitmapHeight = 15"

definition leftArrowBitmapWidth :: int where
  "leftArrowBitmapWidth = 15"

definition leftArrowBitmapHeight :: int where
  "leftArrowBitmapHeight = 15"

subsection \<open>Bitmap pointers\<close>

datatype bitmap =
    BulbBitmap
  | BulbOutlinedBitmap
  | BatteryBitMap
  | BatteryChargeBitMap
  | BackArrowBitmap
  | SettingsBitmap
  | EditBitmap
  | HomeBitmap
  | RefreshBitmap
  | AllRoomsBitmap
  | BehaviorBitmap
  | RightArrowBitmap
  | LeftArrowBitmap

fun bitmap_data :: "bitmap \<Rightarrow> u8 list" where
  "bitmap_data BulbBitmap = bulbBitmap"
| "bitmap_data BulbOutlinedBitmap = bulbOutlinedBitmap"
| "bitmap_data BatteryBitMap = batteryBitMap"
| "bitmap_data BatteryChargeBitMap = batteryChargeBitMap"
| "bitmap_data BackArrowBitmap = backArrowBitmap"
| "bitmap_data SettingsBitmap = settingsBitmap"
| "bitmap_data EditBitmap = editBitmap"
| "bitmap_data HomeBitmap = homeBitmap"
| "bitmap_data RefreshBitmap = refreshBitmap"
| "bitmap_data AllRoomsBitmap = allRoomsBitmap"
| "bitmap_data BehaviorBitmap = behaviorBitmap"
| "bitmap_data RightArrowBitmap = rightArrowBitmap"
| "bitmap_data LeftArrowBitmap = leftArrowBitmap"

fun bitmap_width :: "bitmap \<Rightarrow> int" where
  "bitmap_width BulbBitmap = bulbWidth"
| "bitmap_width BulbOutlinedBitmap = bulbWidth"
| "bitmap_width BatteryBitMap = batteryWidth"
| "bitmap_width BatteryChargeBitMap = batteryChargeWidth"
| "bitmap_width BackArrowBitmap = backArrowBitmapWidth"
| "bitmap_width SettingsBitmap = settingsBitmapWidth"
| "bitmap_width EditBitmap = editBitmapWidth"
| "bitmap_width HomeBitmap = homeBitmapWidth"
| "bitmap_width RefreshBitmap = refreshBitmapWidth"
| "bitmap_width AllRoomsBitmap = allRoomsBitmapWidth"
| "bitmap_width BehaviorBitmap = behaviorBitmapWidth"
| "bitmap_width RightArrowBitmap = rightArrowBitmapWidth"
| "bitmap_width LeftArrowBitmap = leftArrowBitmapWidth"

fun bitmap_height :: "bitmap \<Rightarrow> int" where
  "bitmap_height BulbBitmap = bulbHeight"
| "bitmap_height BulbOutlinedBitmap = bulbHeight"
| "bitmap_height BatteryBitMap = batteryHeight"
| "bitmap_height BatteryChargeBitMap = batteryChargeHeight"
| "bitmap_height BackArrowBitmap = backArrowBitmapHeight"
| "bitmap_height SettingsBitmap = settingsBitmapHeight"
| "bitmap_height EditBitmap = editBitmapHeight"
| "bitmap_height HomeBitmap = homeBitmapHeight"
| "bitmap_height RefreshBitmap = refreshBitmapHeight"
| "bitmap_height AllRoomsBitmap = allRoomsBitmapHeight"
| "bitmap_height BehaviorBitmap = behaviorBitmapHeight"
| "bitmap_height RightArrowBitmap = rightArrowBitmapHeight"
| "bitmap_height LeftArrowBitmap = leftArrowBitmapHeight"

lemmas bitmap_data_defs =
  bulbBitmap_def
  bulbOutlinedBitmap_def
  batteryBitMap_def
  batteryChargeBitMap_def
  backArrowBitmap_def
  settingsBitmap_def
  editBitmap_def
  homeBitmap_def
  refreshBitmap_def
  allRoomsBitmap_def
  behaviorBitmap_def
  rightArrowBitmap_def
  leftArrowBitmap_def

lemmas bitmap_dim_defs =
  bulbBitmapSize_def
  bulbWidth_def
  bulbHeight_def
  batteryWidth_def
  batteryHeight_def
  batteryChargeWidth_def
  batteryChargeHeight_def
  backArrowBitmapWidth_def
  backArrowBitmapHeight_def
  settingsBitmapWidth_def
  settingsBitmapHeight_def
  editBitmapWidth_def
  editBitmapHeight_def
  homeBitmapWidth_def
  homeBitmapHeight_def
  refreshBitmapWidth_def
  refreshBitmapHeight_def
  allRoomsBitmapWidth_def
  allRoomsBitmapHeight_def
  behaviorBitmapWidth_def
  behaviorBitmapHeight_def
  rightArrowBitmapWidth_def
  rightArrowBitmapHeight_def
  leftArrowBitmapWidth_def
  leftArrowBitmapHeight_def

text \<open>
  Every array holds exactly the padded rows of its icon, so the reads
  \<open>bitmap[j * byteWidth + i / 8]\<close> of a bitmap drawn with its own dimensions stay inside.
\<close>

lemma bitmap_data_length:
  "length (bitmap_data b) = nat ((bitmap_width b + 7) div 8 * bitmap_height b)"
  by (cases b) (simp_all add: bitmap_data_defs bitmap_dim_defs)

lemma bitmap_dims_pos: "0 < bitmap_width b" "0 < bitmap_height b"
  "bitmap_width b \<le> 48" "bitmap_height b \<le> 48"
  by (cases b; simp add: bitmap_dim_defs)+

end
