(* ===== verification/Panel.thy ===== *)
theory Panel
  imports Gfx_Text Bitmaps
begin

section \<open>The e-paper panel driver\<close>

text \<open>
  \<^verbatim>\<open>components/CalEPD/models/gdew027w3T.cpp\<close> and \<^verbatim>\<open>components/CalEPD/epd.cpp\<close>: the frame
  buffer of 176 by 264 pixels, one bit each, the four rotations, the transfers of the buffer
  to the controller over SPI (kept as the trace \<open>io\<close> of commands and data bytes), and the
  text output with its conversion of UTF-8 continuation bytes. Buffer accesses are checked.
  \<open>_waitBusy\<close> polls a pin for at most seven seconds; it is the event \<open>WaitBusy\<close>.
\<close>

datatype spi = Cmd u8 | Data u8 | ResetPin nat | WaitBusy | DelayMs nat

record panel =
  pgfx :: gfx
  rotation :: nat
  buffer :: "u8 list"
  initial :: bool
  isAsleep :: bool
  using_partial_mode :: bool
  sleep_after_update :: bool
  io :: "spi list"

definition GDEW027W3_WIDTH :: int where "GDEW027W3_WIDTH = 176"
definition GDEW027W3_HEIGHT :: int where "GDEW027W3_HEIGHT = 264"
definition GDEW027W3_BUFFER_SIZE :: nat where "GDEW027W3_BUFFER_SIZE = 5808"
definition EPD_BLACK :: u16 where "EPD_BLACK = 0"
definition EPD_WHITE :: u16 where "EPD_WHITE = 0xFFFF"

lemmas panel_consts = GDEW027W3_WIDTH_def GDEW027W3_HEIGHT_def GDEW027W3_BUFFER_SIZE_def
  EPD_BLACK_def EPD_WHITE_def

definition panel_new :: panel where
  "panel_new = \<lparr>pgfx = gfx_init GDEW027W3_WIDTH GDEW027W3_HEIGHT, rotation = 0,
     buffer = replicate GDEW027W3_BUFFER_SIZE 0, initial = True, isAsleep = False,
     using_partial_mode = False, sleep_after_update = True, io = []\<rparr>"

definition send :: "spi list \<Rightarrow> panel \<Rightarrow> panel" where
  "send xs p = p\<lparr>io := io p @ xs\<rparr>"

text \<open>\<open>Adafruit_GFX::setRotation\<close> and \<open>displayRotation\<close> (which also rotates the touch chip).\<close>

definition setRotation :: "nat \<Rightarrow> panel \<Rightarrow> panel" where
  "setRotation x p =
     (let r = x mod 4
      in p\<lparr>rotation := r,
           pgfx := (pgfx p)\<lparr>gfx_width := (if even r then GDEW027W3_WIDTH else GDEW027W3_HEIGHT),
                            gfx_height := (if even r then GDEW027W3_HEIGHT else GDEW027W3_WIDTH)\<rparr>\<rparr>)"

definition displayRotation :: "nat \<Rightarrow> panel \<Rightarrow> panel" where
  "displayRotation r p = (if r > 3 then p else setRotation r p)"

definition display_width :: "panel \<Rightarrow> int" where "display_width p = gfx_width (pgfx p)"
definition display_height :: "panel \<Rightarrow> int" where "display_height p = gfx_height (pgfx p)"

subsection \<open>Pixels\<close>

definition rotate_point :: "nat \<Rightarrow> int \<Rightarrow> int \<Rightarrow> pix" where
  "rotate_point r x y =
     (if r = 1 then (GDEW027W3_WIDTH - y - 1, x)
      else if r = 2 then (GDEW027W3_WIDTH - x - 1, GDEW027W3_HEIGHT - y - 1)
      else if r = 3 then (y, GDEW027W3_HEIGHT - x - 1)
      else (x, y))"

definition buffer_index :: "pix \<Rightarrow> int" where
  "buffer_index q = (fst q div 8 + snd q * GDEW027W3_WIDTH div 8) mod 65536"

definition set_pixel_bit :: "int \<Rightarrow> u16 \<Rightarrow> u8 \<Rightarrow> u8" where
  "set_pixel_bit x color b =
     (if color \<noteq> 0 then b AND (0xFF XOR push_bit (nat (7 - x mod 8)) 1)
      else b OR push_bit (nat (7 - x mod 8)) 1)"

definition drawPixel :: "int \<Rightarrow> int \<Rightarrow> u16 \<Rightarrow> panel \<Rightarrow> panel res" where
  "drawPixel x y color p =
     (if x < 0 \<or> x \<ge> display_width p \<or> y < 0 \<or> y \<ge> display_height p then Inr p
      else let q = rotate_point (rotation p) x y; i = buffer_index q
           in andThen (rd (buffer p) i)
                (\<lambda>b. andThen (wr (buffer p) i (set_pixel_bit (fst q) color b))
                  (\<lambda>bs. Inr (p\<lparr>buffer := bs\<rparr>))))"

definition paint :: "(pix \<times> u16) list \<Rightarrow> panel \<Rightarrow> panel res" where
  "paint ps = forr ps (\<lambda>(q, c). drawPixel (fst q) (snd q) c)"

definition paint_all :: "pix list \<Rightarrow> u16 \<Rightarrow> panel \<Rightarrow> panel res" where
  "paint_all ps c = paint (map (\<lambda>q. (q, c)) ps)"

definition fillScreen :: "u16 \<Rightarrow> panel \<Rightarrow> panel" where
  "fillScreen color p =
     p\<lparr>buffer := replicate GDEW027W3_BUFFER_SIZE (if color = EPD_BLACK then 0xFF else 0x00)\<rparr>"

text \<open>
  \<open>drawBitmap\<close> of the panel: a set bit is drawn in colour 255 and a clear one in colour 0,
  whatever the colour argument. A row starts on a byte; inside a row the byte is shifted.
\<close>

fun bitmap_row :: "u8 list \<Rightarrow> int \<Rightarrow> int \<Rightarrow> int \<Rightarrow> int \<Rightarrow> u8 \<Rightarrow> nat list \<Rightarrow> (pix \<times> u16) list res" where
  "bitmap_row bm bw j x y cur [] = Inr []"
| "bitmap_row bm bw j x y cur (i # is) =
     andThen (if i mod 8 \<noteq> 0 then Inr (push_bit 1 cur) else rd bm (j * bw + int i div 8))
       (\<lambda>cur. andThen (bitmap_row bm bw j x y cur is)
          (\<lambda>rest. Inr (((x + int i, y + j), if cur AND 0x80 \<noteq> 0 then 255 else 0) # rest)))"

fun bitmap_rows :: "u8 list \<Rightarrow> int \<Rightarrow> int \<Rightarrow> int \<Rightarrow> nat \<Rightarrow> nat list \<Rightarrow> (pix \<times> u16) list res" where
  "bitmap_rows bm bw x y w [] = Inr []"
| "bitmap_rows bm bw x y w (j # js) =
     andThen (bitmap_row bm bw (int j) x y 0 [0..<w])
       (\<lambda>r. andThen (bitmap_rows bm bw x y w js) (\<lambda>rest. Inr (r @ rest)))"

definition bitmap_pixels :: "int \<Rightarrow> int \<Rightarrow> u8 list \<Rightarrow> int \<Rightarrow> int \<Rightarrow> (pix \<times> u16) list res" where
  "bitmap_pixels x y bm w h = bitmap_rows bm ((w + 7) div 8) x y (nat w) [0..<nat h]"

definition panel_drawBitmap :: "int \<Rightarrow> int \<Rightarrow> u8 list \<Rightarrow> int \<Rightarrow> int \<Rightarrow> panel \<Rightarrow> panel res" where
  "panel_drawBitmap x y bm w h p = andThen (bitmap_pixels x y bm w h) (\<lambda>ps. paint ps p)"

subsection \<open>Text (\<^verbatim>\<open>epd.cpp\<close>)\<close>

definition unicodeEasy :: "nat \<Rightarrow> nat" where
  "unicodeEasy c = (if c < 191 \<and> c > 131 \<and> c \<noteq> 176 then c + 64 else c)"

definition epd_write :: "nat \<Rightarrow> panel \<Rightarrow> panel res" where
  "epd_write v p = andThen (gfx_write v (pgfx p)) (\<lambda>(ps, g). paint ps (p\<lparr>pgfx := g\<rparr>))"

definition epd_bytes :: "string \<Rightarrow> nat list" where
  "epd_bytes text = map unicodeEasy (filter (\<lambda>c. c \<noteq> 195 \<and> c \<noteq> 194) (map of_char text))"

definition epd_print :: "string \<Rightarrow> panel \<Rightarrow> panel res" where
  "epd_print text = forr (epd_bytes text) epd_write"

definition epd_println :: "string \<Rightarrow> panel \<Rightarrow> panel res" where
  "epd_println text p = andThen (epd_print text p) (epd_write 10)"

subsection \<open>Transfers to the controller\<close>

definition epd_soft_start :: "u8 list" where "epd_soft_start = [0x07, 0x07, 0x17]"

definition lut_20_vcomDC_partial :: "u8 list" where
  "lut_20_vcomDC_partial = [0x00, 0x00, 0x00, 0x19, 0x01, 0x00, 0x00, 0x01] @ replicate 36 0x00"

definition lut_21_ww_partial :: "u8 list" where
  "lut_21_ww_partial = [0x00, 0x19, 0x01, 0x00, 0x00, 0x01] @ replicate 36 0x00"

definition lut_22_bw_partial :: "u8 list" where
  "lut_22_bw_partial = [0x80, 0x19, 0x01, 0x00, 0x00, 0x01] @ replicate 36 0x00"

definition lut_23_wb_partial :: "u8 list" where
  "lut_23_wb_partial = [0x40, 0x19, 0x01, 0x00, 0x00, 0x01] @ replicate 36 0x00"

definition lut_24_bb_partial :: "u8 list" where
  "lut_24_bb_partial = [0x00, 0x19, 0x01, 0x00, 0x00, 0x01] @ replicate 36 0x00"

definition initPartialUpdate :: "panel \<Rightarrow> panel" where
  "initPartialUpdate = send
     ([Cmd 0x00, Data 0xbf, Cmd 0x82, Data 0x08, Cmd 0x50, Data 0x17] @
      Cmd 0x20 # map Data lut_20_vcomDC_partial @
      Cmd 0x21 # map Data lut_21_ww_partial @
      Cmd 0x22 # map Data lut_22_bw_partial @
      Cmd 0x23 # map Data lut_23_wb_partial @
      Cmd 0x24 # map Data lut_24_bb_partial)"

definition wakeUp :: "panel \<Rightarrow> panel" where
  "wakeUp p =
     (let p = send ([ResetPin 10, Cmd 0x01, Data 0x03, Data 0x00, Data 0x2b, Data 0x2b] @
                    Cmd 0x06 # map Data epd_soft_start @
                    [Cmd 0x16, Data 0x00, Cmd 0x04, WaitBusy]) p
      in send [Cmd 0x00, Data 0x1f, Cmd 0x30, Data 0x3a, Cmd 0x82, Data 0x08, DelayMs 2,
               Cmd 0x50, Data 0x97] (p\<lparr>isAsleep := False\<rparr>))"

definition sleep :: "panel \<Rightarrow> panel" where
  "sleep p = send [Cmd 0x02, WaitBusy, Cmd 0x07, Data 0xa5] (p\<lparr>isAsleep := True\<rparr>)"

definition panel_update :: "panel \<Rightarrow> panel" where
  "panel_update p =
     (let p = (wakeUp p)\<lparr>using_partial_mode := False\<rparr>;
          p = (if initial p
               then (send (Cmd 0x10 # replicate GDEW027W3_BUFFER_SIZE (Data 0xFF)) p)\<lparr>initial := False\<rparr>
               else p);
          p = send (Cmd 0x13 # map (\<lambda>b. Data (NOT b)) (buffer p)) p;
          p = send [Cmd 0x12, WaitBusy] p;
          p = send (Cmd 0x10 # map (\<lambda>b. Data (NOT b)) (buffer p)) p
      in if sleep_after_update p then sleep p else p)"

text \<open>The window arithmetic is done in \<open>uint16_t\<close>.\<close>

definition to_u16 :: "int \<Rightarrow> int" where "to_u16 i = i mod 65536"

definition hi_byte :: "int \<Rightarrow> spi" where "hi_byte x = Data (word_of_int (x div 256))"
definition lo_byte :: "int \<Rightarrow> spi" where "lo_byte x = Data (word_of_int x)"
definition lo_f8 :: "int \<Rightarrow> spi" where "lo_f8 x = Data (word_of_int x AND 0xf8)"

definition window_params :: "int \<Rightarrow> int \<Rightarrow> int \<Rightarrow> int \<Rightarrow> spi list" where
  "window_params x y w h =
     [hi_byte x, lo_f8 x, hi_byte y, lo_byte y, hi_byte w, lo_f8 w, hi_byte h, lo_byte h]"

definition partialRamArea :: "u8 \<Rightarrow> int \<Rightarrow> int \<Rightarrow> int \<Rightarrow> int \<Rightarrow> panel \<Rightarrow> panel" where
  "partialRamArea command x y w h = send (Cmd command # window_params x y w h)"

definition refreshWindow :: "int \<Rightarrow> int \<Rightarrow> int \<Rightarrow> int \<Rightarrow> panel \<Rightarrow> panel" where
  "refreshWindow x y w h =
     (let w = to_u16 (w + x mod 8 + 7); h = min h 256
      in send (Cmd 0x16 # window_params x y w h))"

definition window_data :: "panel \<Rightarrow> int \<Rightarrow> int \<Rightarrow> spi" where
  "window_data p y1 x1 =
     (let idx = to_u16 (y1 * (GDEW027W3_WIDTH div 8) + x1);
          b = (if idx < int (length (buffer p)) then buffer p ! nat idx else 0)
      in Data (NOT b))"

definition writeToWindow :: "u8 \<Rightarrow> int \<Rightarrow> int \<Rightarrow> int \<Rightarrow> int \<Rightarrow> int \<Rightarrow> int \<Rightarrow> panel \<Rightarrow> panel" where
  "writeToWindow command xs ys xd yd w h p =
     (if xs \<ge> GDEW027W3_WIDTH \<or> ys \<ge> GDEW027W3_HEIGHT \<or>
         xd \<ge> GDEW027W3_WIDTH \<or> yd \<ge> GDEW027W3_HEIGHT then p
      else let w = to_u16 (min (to_u16 (w + 7)) (GDEW027W3_WIDTH - xd) + xd mod 8);
               h = min h (GDEW027W3_HEIGHT - yd);
               xe = xs div 8 + w div 8
           in send (concat (map (\<lambda>y1. map (window_data p y1) [xs div 8..xe - 1]) [ys..ys + h - 1])
                    @ [DelayMs 2])
                (partialRamArea command xd yd w h (send [Cmd 0x91] p)))"

definition rotate_window :: "nat \<Rightarrow> int \<times> int \<times> int \<times> int \<Rightarrow> int \<times> int \<times> int \<times> int" where
  "rotate_window r win = (case win of (x, y, w, h) \<Rightarrow>
     (if r = 1 then (to_u16 (GDEW027W3_WIDTH - y - h - 1), x, h, w)
      else if r = 2 then (to_u16 (GDEW027W3_WIDTH - x - w - 1), to_u16 (GDEW027W3_HEIGHT - y - h - 1), w, h)
      else if r = 3 then (y, to_u16 (GDEW027W3_HEIGHT - x - w - 1), h, w)
      else (x, y, w, h)))"

definition updateWindow :: "int \<Rightarrow> int \<Rightarrow> int \<Rightarrow> int \<Rightarrow> panel \<Rightarrow> panel" where
  "updateWindow x0 y0 w0 h0 p =
     (case rotate_window (rotation p) (to_u16 x0, to_u16 y0, to_u16 w0, to_u16 h0) of
        (x, y, w, h) \<Rightarrow>
          let p = (if \<not> using_partial_mode p \<or> isAsleep p then wakeUp p else p)
          in writeToWindow 0x14 x y x y w h
               (send [WaitBusy]
                 (refreshWindow x y w h
                   (writeToWindow 0x15 x y x y w h
                     (initPartialUpdate (p\<lparr>using_partial_mode := True\<rparr>))))))"

end
