(* ===== verification/Canvas.thy ===== *)
theory Canvas
  imports Panel
begin

section \<open>The frame buffer as a picture\<close>

text \<open>
  The interface between the drawing primitives and the panel: a store of pixels with a
  screen area. Its laws are proved for \<open>drawPixel\<close> in every rotation, and give the picture
  that a list of pixels leaves on the screen, whatever order and overlap it has.
\<close>

locale canvas =
  fixes put :: "pix \<Rightarrow> u16 \<Rightarrow> 's \<Rightarrow> 's res"
    and dark :: "'s \<Rightarrow> pix \<Rightarrow> bool"
    and area :: "'s \<Rightarrow> pix \<Rightarrow> bool"
    and good :: "'s \<Rightarrow> bool"
  assumes put_good: "good s \<Longrightarrow> \<exists>s'. put q c s = Inr s' \<and> good s' \<and> area s' = area s"
    and put_dark: "good s \<Longrightarrow> put q c s = Inr s' \<Longrightarrow>
      dark s' = (if area s q then (dark s)(q := (c = 0)) else dark s)"
begin

fun picture :: "(pix \<Rightarrow> bool) \<Rightarrow> (pix \<times> u16) list \<Rightarrow> (pix \<Rightarrow> bool) \<Rightarrow> (pix \<Rightarrow> bool)" where
  "picture a [] d = d"
| "picture a ((q, c) # ps) d = picture a ps (if a q then d(q := (c = 0)) else d)"

lemma paint_picture:
  assumes "good s"
  shows "\<exists>s'. forr ps (\<lambda>(q, c). put q c) s = Inr s' \<and> good s' \<and> area s' = area s \<and>
              dark s' = picture (area s) ps (dark s)"
  using assms
proof (induction ps arbitrary: s)
  case (Cons pc ps)
  obtain q c where pc: "pc = (q, c)" by (cases pc)
  obtain t where t: "put q c s = Inr t" "good t" "area t = area s"
    using put_good [OF Cons.prems] by blast
  with Cons.IH [OF t(2)] put_dark [OF Cons.prems t(1)] show ?case
    by (auto simp: pc)
qed simp

lemma picture_solid:
  "picture a (map (\<lambda>q. (q, c)) qs) d q = (if q \<in> set qs \<and> a q then c = 0 else d q)"
  by (induction qs arbitrary: d) auto

lemma paint_solid:
  assumes "good s"
  shows "\<exists>s'. forr (map (\<lambda>q. (q, c)) qs) (\<lambda>(q, c). put q c) s = Inr s' \<and> good s' \<and>
              area s' = area s \<and>
              (\<forall>q. dark s' q = (if q \<in> set qs \<and> area s q then c = 0 else dark s q))"
  using paint_picture [OF assms, of "map (\<lambda>q. (q, c)) qs"] picture_solid by auto

lemma paint_never_faults: "good s \<Longrightarrow> forr ps (\<lambda>(q, c). put q c) s \<noteq> Inl e"
  using paint_picture [of s ps] by auto

end

subsection \<open>The panel is a canvas\<close>

definition panel_ok :: "panel \<Rightarrow> bool" where
  "panel_ok p \<longleftrightarrow> length (buffer p) = GDEW027W3_BUFFER_SIZE \<and> rotation p < 4 \<and>
     display_width p = (if even (rotation p) then GDEW027W3_WIDTH else GDEW027W3_HEIGHT) \<and>
     display_height p = (if even (rotation p) then GDEW027W3_HEIGHT else GDEW027W3_WIDTH)"

definition on_screen :: "panel \<Rightarrow> pix \<Rightarrow> bool" where
  "on_screen p q \<longleftrightarrow> 0 \<le> fst q \<and> fst q < display_width p \<and> 0 \<le> snd q \<and> snd q < display_height p"

definition black_at :: "panel \<Rightarrow> pix \<Rightarrow> bool" where
  "black_at p q \<longleftrightarrow> on_screen p q \<and>
     (let r = rotate_point (rotation p) (fst q) (snd q)
      in bit (buffer p ! nat (buffer_index r)) (nat (7 - fst r mod 8)))"

lemma panel_new_ok: "panel_ok panel_new"
  by (simp add: panel_ok_def panel_new_def panel_consts gfx_init_def display_width_def display_height_def)

lemma displayRotation_ok: "panel_ok p \<Longrightarrow> panel_ok (displayRotation r p)"
  by (auto simp: panel_ok_def displayRotation_def setRotation_def Let_def display_width_def
      display_height_def mod2_eq_if elim!: oddE)

lemma rotate_point_in:
  assumes "panel_ok p" "on_screen p (x, y)"
  shows "0 \<le> fst (rotate_point (rotation p) x y)" "fst (rotate_point (rotation p) x y) < 176"
    "0 \<le> snd (rotate_point (rotation p) x y)" "snd (rotate_point (rotation p) x y) < 264"
proof -
  have "rotation p = 0 \<or> rotation p = 1 \<or> rotation p = 2 \<or> rotation p = 3"
    using assms(1) by (auto simp: panel_ok_def)
  with assms show "0 \<le> fst (rotate_point (rotation p) x y)" "fst (rotate_point (rotation p) x y) < 176"
    "0 \<le> snd (rotate_point (rotation p) x y)" "snd (rotate_point (rotation p) x y) < 264"
    by (auto simp: panel_ok_def on_screen_def rotate_point_def panel_consts)
qed

lemma rotate_point_inj:
  assumes "panel_ok p"
    and "rotate_point (rotation p) x y = rotate_point (rotation p) x' y'"
  shows "(x, y) = (x', y')"
proof -
  have "rotation p = 0 \<or> rotation p = 1 \<or> rotation p = 2 \<or> rotation p = 3"
    using assms(1) by (auto simp: panel_ok_def)
  with assms(2) show ?thesis by (auto simp: rotate_point_def)
qed

lemma buffer_index_small:
  assumes "0 \<le> x" "x < 176" "0 \<le> y" "y < 264"
  shows "buffer_index (x, y) = x div 8 + y * 22" "0 \<le> buffer_index (x, y)"
    "buffer_index (x, y) < 5808"
proof -
  have "y * 176 div 8 = y * 22" by simp
  moreover have "0 \<le> x div 8" "x div 8 < 22" using assms by auto
  ultimately show "buffer_index (x, y) = x div 8 + y * 22" "0 \<le> buffer_index (x, y)"
    "buffer_index (x, y) < 5808"
    using assms by (simp_all add: buffer_index_def panel_consts)
qed

lemma buffer_position_inj:
  assumes "0 \<le> x" "x < 176" "0 \<le> y" "y < 264" "0 \<le> x'" "x' < 176" "0 \<le> y'" "y' < 264"
    and "buffer_index (x, y) = buffer_index (x', y')" "x mod 8 = x' mod 8"
  shows "x = x' \<and> y = y'"
proof -
  have *: "x div 8 + y * 22 = x' div 8 + y' * 22"
    using assms by (simp add: buffer_index_small)
  moreover from this have "0 \<le> x div 8" "x div 8 < 22" "0 \<le> x' div 8" "x' div 8 < 22"
    using assms(1-8) by auto
  ultimately have y: "y = y'" by linarith
  with * have "x div 8 * 8 + x mod 8 = x' div 8 * 8 + x' mod 8" using assms(10) by linarith
  with y show ?thesis by (simp only: div_mult_mod_eq)
qed

lemma bit_set_pixel_bit:
  assumes "n < 8"
  shows "bit (set_pixel_bit x c b) n = (if n = nat (7 - x mod 8) then c = 0 else bit b n)"
proof -
  have m: "nat (7 - x mod 8) < 8" by simp
  have "(0xFF :: u8) = - 1" by simp
  moreover have "bit (- 1 :: u8) n" using assms by (simp add: bit_minus_1_iff)
  ultimately have "bit (0xFF :: u8) n" by (rule ssubst)
  with m assms show ?thesis
    by (auto simp: set_pixel_bit_def bit_and_iff bit_or_iff bit_xor_iff bit_push_bit_iff
        bit_exp_iff)
qed

lemma drawPixel_on:
  assumes "panel_ok p" "on_screen p (x, y)"
  shows "drawPixel x y c p =
    (let q = rotate_point (rotation p) x y; i = nat (buffer_index q)
     in Inr (p\<lparr>buffer := (buffer p)[i := set_pixel_bit (fst q) c (buffer p ! i)]\<rparr>))"
proof -
  obtain a b where q: "rotate_point (rotation p) x y = (a, b)" by fastforce
  have ab: "0 \<le> a" "a < 176" "0 \<le> b" "b < 264"
    using rotate_point_in [OF assms] by (simp_all add: q)
  have "length (buffer p) = 5808" using assms(1) by (simp add: panel_ok_def panel_consts)
  with assms(2) buffer_index_small(2,3) [OF ab] show ?thesis
    by (simp add: drawPixel_def on_screen_def q rd_def wr_def not_less Let_def)
qed

lemma drawPixel_off: "\<not> on_screen p (x, y) \<Longrightarrow> drawPixel x y c p = Inr p"
  by (auto simp: drawPixel_def on_screen_def not_less)

lemma drawPixel_good:
  assumes "panel_ok p"
  shows "\<exists>p'. drawPixel x y c p = Inr p' \<and> panel_ok p' \<and> on_screen p' = on_screen p"
proof (cases "on_screen p (x, y)")
  case True
  then show ?thesis
    using drawPixel_on [OF assms True] assms
    by (auto simp: Let_def panel_ok_def on_screen_def display_width_def display_height_def)
next
  case False
  then show ?thesis using assms by (simp add: drawPixel_off)
qed

lemma drawPixel_black:
  assumes ok: "panel_ok p" and r: "drawPixel x y c p = Inr p'"
  shows "black_at p' = (if on_screen p (x, y) then (black_at p)((x, y) := (c = 0)) else black_at p)"
proof (cases "on_screen p (x, y)")
  case False
  then show ?thesis using r by (simp add: drawPixel_off)
next
  case on: True
  obtain a b where q: "rotate_point (rotation p) x y = (a, b)" by fastforce
  have ab: "0 \<le> a" "a < 176" "0 \<le> b" "b < 264"
    using rotate_point_in [OF ok on] by (simp_all add: q)
  have len: "length (buffer p) = 5808" using ok by (simp add: panel_ok_def panel_consts)
  define i where "i = nat (buffer_index (a, b))"
  have i: "i < 5808" using buffer_index_small(3) [OF ab] by (simp add: i_def)
  have p': "p' = p\<lparr>buffer := (buffer p)[i := set_pixel_bit a c (buffer p ! i)]\<rparr>"
    using r drawPixel_on [OF ok on] by (simp add: q i_def Let_def)
  have area: "on_screen p' = on_screen p"
    by (simp add: p' fun_eq_iff on_screen_def display_width_def display_height_def)
  have "black_at p' (u, v) = ((black_at p)((x, y) := (c = 0))) (u, v)" for u v
  proof (cases "on_screen p (u, v)")
    case False
    then show ?thesis using on by (auto simp: black_at_def area)
  next
    case onu: True
    obtain a' b' where q': "rotate_point (rotation p) u v = (a', b')" by fastforce
    have ab': "0 \<le> a'" "a' < 176" "0 \<le> b'" "b' < 264"
      using rotate_point_in [OF ok onu] by (simp_all add: q')
    have n: "nat (7 - a' mod 8) < 8" by simp
    have same: "buffer_index (a', b') = buffer_index (a, b) \<Longrightarrow>
        nat (7 - a' mod 8) = nat (7 - a mod 8) \<Longrightarrow> (u, v) = (x, y)"
    proof -
      assume *: "buffer_index (a', b') = buffer_index (a, b)" "nat (7 - a' mod 8) = nat (7 - a mod 8)"
      then have "a' mod 8 = a mod 8" by linarith
      with buffer_position_inj [OF ab' ab *(1)] have "(a', b') = (a, b)" by simp
      then show ?thesis using rotate_point_inj [OF ok, of u v x y] q q' by simp
    qed
    have idx: "nat (buffer_index (a', b')) = i \<longleftrightarrow> buffer_index (a', b') = buffer_index (a, b)"
      using buffer_index_small(2) [OF ab] buffer_index_small(2) [OF ab'] by (auto simp: i_def)
    show ?thesis
    proof (cases "(u, v) = (x, y)")
      case True
      with q q' have "a' = a" "b' = b" by auto
      then show ?thesis
        using True onu i len n q
        by (simp add: black_at_def area) (simp add: p' bit_set_pixel_bit flip: i_def)
    next
      case False
      with same have d: "buffer_index (a', b') = buffer_index (a, b) \<Longrightarrow>
        nat (7 - a' mod 8) \<noteq> nat (7 - a mod 8)" by blast
      have "bit (buffer p' ! nat (buffer_index (a', b'))) (nat (7 - a' mod 8)) =
            bit (buffer p ! nat (buffer_index (a', b'))) (nat (7 - a' mod 8))"
      proof (cases "nat (buffer_index (a', b')) = i")
        case True
        with d idx have "nat (7 - a' mod 8) \<noteq> nat (7 - a mod 8)" by blast
        with True i len n show ?thesis by (simp add: p' bit_set_pixel_bit)
      next
        case False
        then show ?thesis by (simp add: p')
      qed
      moreover have "rotation p' = rotation p" by (simp add: p')
      ultimately show ?thesis using False q' by (auto simp: black_at_def area)
    qed
  qed
  then show ?thesis using on by auto
qed

interpretation screen: canvas "\<lambda>q. drawPixel (fst q) (snd q)" black_at on_screen panel_ok
  by unfold_locales (use drawPixel_good drawPixel_black in auto)

subsection \<open>Icons\<close>

lemma bitmap_row_spec:
  assumes "0 \<le> j" "0 \<le> bw" "(j + 1) * bw \<le> int (length bm)" "int w \<le> 8 * bw" "k \<le> w"
    and "k mod 8 \<noteq> 0 \<Longrightarrow> cur = push_bit ((k - 1) mod 8) (bm ! nat (j * bw + int k div 8))"
  shows "bitmap_row bm bw j x y cur [k..<w] =
    Inr (map (\<lambda>i. ((x + int i, y + j),
                   if bit (bm ! nat (j * bw + int i div 8)) (7 - i mod 8) then 255 else 0)) [k..<w])"
  using assms(5,6)
proof (induction "w - k" arbitrary: k cur)
  case 0
  then show ?case by simp
next
  case (Suc n)
  define b where "b = bm ! nat (j * bw + int k div 8)"
  define cur' where "cur' = push_bit (k mod 8) b"
  have kw: "k < w" using Suc.hyps(2) by simp
  have in_range: "0 \<le> j * bw + int k div 8" "j * bw + int k div 8 < int (length bm)"
  proof -
    show "0 \<le> j * bw + int k div 8" using assms(1,2) by simp
    have "int k div 8 < bw" using kw assms(4) by linarith
    then have "j * bw + int k div 8 < (j + 1) * bw" by (simp add: algebra_simps)
    then show "j * bw + int k div 8 < int (length bm)" using assms(3) by linarith
  qed
  have step: "(if k mod 8 \<noteq> 0 then Inr (push_bit 1 cur) else rd bm (j * bw + int k div 8)) = Inr cur'"
  proof (cases "k mod 8 = 0")
    case True
    then show ?thesis using in_range by (simp add: rd_def cur'_def b_def)
  next
    case False
    then have "k mod 8 = 1 + (k - 1) mod 8" by (cases k) (auto simp: mod_Suc split: if_splits)
    moreover have "cur = push_bit ((k - 1) mod 8) b" using Suc.prems(2) False by (simp add: b_def)
    ultimately have "cur' = push_bit 1 cur" by (simp only: cur'_def push_bit_push_bit)
    with False show ?thesis by (simp only: if_True simp_thms)
  qed
  have next_cur: "Suc k mod 8 \<noteq> 0 \<Longrightarrow>
      cur' = push_bit ((Suc k - 1) mod 8) (bm ! nat (j * bw + int (Suc k) div 8))"
  proof -
    assume "Suc k mod 8 \<noteq> 0"
    then have "int (Suc k) div 8 = int k div 8" by presburger
    then show ?thesis by (simp add: cur'_def b_def)
  qed
  have "bitmap_row bm bw j x y cur' [Suc k..<w] =
      Inr (map (\<lambda>i. ((x + int i, y + j),
             if bit (bm ! nat (j * bw + int i div 8)) (7 - i mod 8) then 255 else 0)) [Suc k..<w])"
    using Suc.hyps(1) [of "Suc k" cur'] Suc.hyps(2) kw next_cur by simp
  moreover have "cur' AND 0x80 \<noteq> 0 \<longleftrightarrow> bit b (7 - k mod 8)"
    unfolding cur'_def by (rule and_0x80_shifted) simp
  ultimately show ?case
    by (simp only: upt_conv_Cons [OF kw] bitmap_row.simps step andThen_simps b_def list.map)
qed

lemma bitmap_rows_spec:
  assumes "0 \<le> bw" "int w \<le> 8 * bw" "\<forall>j\<in>set js. (int j + 1) * bw \<le> int (length bm)"
  shows "bitmap_rows bm bw x y w js =
    Inr (concat (map (\<lambda>j. map (\<lambda>i. ((x + int i, y + int j),
      if bit (bm ! nat (int j * bw + int i div 8)) (7 - i mod 8) then 255 else 0)) [0..<w]) js))"
  using assms(3)
proof (induction js)
  case (Cons j js)
  then show ?case using bitmap_row_spec [of "int j" bw bm w 0 0 x y] assms(1,2) by simp
qed simp

text \<open>Every icon of the application has the bytes that its width and height ask for.\<close>

lemma bitmap_pixels_spec:
  assumes "0 \<le> w" "0 \<le> h" "h * ((w + 7) div 8) \<le> int (length bm)"
  shows "bitmap_pixels x y bm w h =
    Inr (concat (map (\<lambda>j. map (\<lambda>i. ((x + int i, y + int j),
      if bit (bm ! nat (int j * ((w + 7) div 8) + int i div 8)) (7 - i mod 8) then 255 else 0))
      [0..<nat w]) [0..<nat h]))"
proof -
  have "(int j + 1) * ((w + 7) div 8) \<le> int (length bm)" if "j < nat h" for j
  proof -
    have "(int j + 1) * ((w + 7) div 8) \<le> h * ((w + 7) div 8)"
      using that assms(1) by (intro mult_right_mono) auto
    then show ?thesis using assms(3) by linarith
  qed
  moreover have "int (nat w) \<le> 8 * ((w + 7) div 8)" using assms(1) by simp
  ultimately show ?thesis
    using assms(1) by (simp add: bitmap_pixels_def bitmap_rows_spec)
qed

subsection \<open>Operations that never fault\<close>

text \<open>
  A panel in portrait position whose buffer has its size and whose font keeps inside its
  tables. \<open>safe\<close> operations neither fault on such a panel nor leave this set; \<open>shown f p\<close> is
  the panel after such an operation.
\<close>

definition panel_ready :: "panel \<Rightarrow> bool" where
  "panel_ready p \<longleftrightarrow> panel_ok p \<and> even (rotation p) \<and> text_ready (pgfx p)"

definition safe :: "(panel \<Rightarrow> panel res) \<Rightarrow> bool" where
  "safe f \<longleftrightarrow> (\<forall>p. panel_ready p \<longrightarrow> (\<exists>p'. f p = Inr p' \<and> panel_ready p'))"

definition shown :: "(panel \<Rightarrow> panel res) \<Rightarrow> panel \<Rightarrow> panel" where
  "shown f p = (case f p of Inl e \<Rightarrow> p | Inr p' \<Rightarrow> p')"

named_theorems safe_intros \<open>operations of the display that never fault\<close>

lemma safe_shown: "safe f \<Longrightarrow> panel_ready p \<Longrightarrow> f p = Inr (shown f p) \<and> panel_ready (shown f p)"
  by (auto simp: safe_def shown_def split: sum.splits)

lemma panel_ready_size:
  assumes "panel_ready p"
  shows "display_width p = 176" "display_height p = 264"
  using assms by (auto simp: panel_ready_def panel_ok_def panel_consts)

lemma panel_new_ready: "panel_ready panel_new"
  using panel_new_ok
  by (simp add: panel_ready_def panel_new_def text_ready_def gfx_init_def)

lemma safe_ok [safe_intros]: "(\<And>p. panel_ready p \<Longrightarrow> panel_ready (f p)) \<Longrightarrow> safe (ok f)"
  by (simp add: safe_def)

lemma safe_andThen: "safe f \<Longrightarrow> safe g \<Longrightarrow> safe (\<lambda>p. andThen (f p) g)"
  unfolding safe_def by (metis andThen_simps(2))

lemma safe_Nil [safe_intros]: "safe (seqr [])"
  by (simp add: safe_def)

lemma safe_Cons [safe_intros]: "safe f \<Longrightarrow> safe (seqr fs) \<Longrightarrow> safe (seqr (f # fs))"
  using safe_andThen [of f "seqr fs"] by (simp add: safe_def)

lemma safe_whenr [safe_intros]: "(b \<Longrightarrow> safe f) \<Longrightarrow> safe (whenr b f)"
  by (cases b) (simp_all add: safe_def)

lemma safe_if [safe_intros]:
  "(b \<Longrightarrow> safe f) \<Longrightarrow> (\<not> b \<Longrightarrow> safe g) \<Longrightarrow> safe (\<lambda>p. if b then f p else g p)"
  by (cases b) (simp_all add: safe_def)

lemma safe_forr [safe_intros]: "(\<And>i. i \<in> set is \<Longrightarrow> safe (c i)) \<Longrightarrow> safe (forr is c)"
proof (induction "is")
  case Nil
  show ?case by (simp add: safe_def)
next
  case (Cons i "is")
  then have "safe (c i)" "safe (forr is c)" by simp_all
  then have "safe (\<lambda>p. andThen (c i p) (forr is c))" by (rule safe_andThen)
  then show ?case by (simp add: safe_def)
qed

lemma panel_ready_send [simp]: "panel_ready (send xs p) = panel_ready p"
  by (simp add: panel_ready_def panel_ok_def send_def display_width_def display_height_def)

lemma panel_ready_flags [simp]:
  "panel_ready (p\<lparr>initial := a\<rparr>) = panel_ready p"
  "panel_ready (p\<lparr>isAsleep := a\<rparr>) = panel_ready p"
  "panel_ready (p\<lparr>using_partial_mode := a\<rparr>) = panel_ready p"
  by (simp_all add: panel_ready_def panel_ok_def display_width_def display_height_def)

lemma panel_ready_gfx:
  "panel_ready p \<Longrightarrow> only_cursor (pgfx p) g \<Longrightarrow> panel_ready (p\<lparr>pgfx := g\<rparr>)"
  by (cases "pgfx p"; cases g)
    (auto simp: panel_ready_def panel_ok_def display_width_def display_height_def
      only_cursor_def text_ready_def)

lemma panel_ready_wakeUp [simp]: "panel_ready (wakeUp p) = panel_ready p"
  by (simp add: wakeUp_def Let_def)

lemma panel_ready_sleep [simp]: "panel_ready (sleep p) = panel_ready p"
  by (simp add: sleep_def)

lemma panel_ready_writeToWindow [simp]:
  "panel_ready (writeToWindow c xs ys xd yd w h p) = panel_ready p"
  by (simp add: writeToWindow_def partialRamArea_def Let_def)

lemma panel_ready_updateWindow [simp]: "panel_ready (updateWindow x y w h p) = panel_ready p"
  by (simp add: updateWindow_def refreshWindow_def initPartialUpdate_def Let_def split: prod.split)

lemma panel_ready_update [simp]: "panel_ready (panel_update p) = panel_ready p"
  by (simp add: panel_update_def Let_def)

lemma safe_paint [safe_intros]: "safe (paint ps)"
proof -
  have "\<exists>p'. paint ps p = Inr p' \<and> panel_ready p'" if "panel_ready p" for p
    using that
  proof (induction ps arbitrary: p)
    case (Cons qc ps)
    obtain x y c where qc: "qc = ((x, y), c)" by (metis surj_pair)
    obtain p' where p': "drawPixel x y c p = Inr p'" "panel_ok p'"
      using drawPixel_good [of p x y c] Cons.prems by (auto simp: panel_ready_def)
    have "rotation p' = rotation p \<and> pgfx p' = pgfx p"
      using p'(1) by (auto simp: drawPixel_def Let_def andThen_eq_Inr split: if_splits)
    with p' Cons.prems have "panel_ready p'" by (simp add: panel_ready_def)
    with Cons.IH [of p'] p' show ?case by (auto simp: paint_def qc)
  qed (simp add: paint_def)
  then show ?thesis by (simp add: safe_def)
qed

lemma safe_paint_all [safe_intros]: "safe (paint_all ps c)"
  using safe_paint by (simp add: paint_all_def)

lemma safe_epd_write [safe_intros]: "safe (epd_write c)"
proof -
  have "\<exists>p'. epd_write c p = Inr p' \<and> panel_ready p'" if r: "panel_ready p" for p
  proof -
    obtain ps g where "gfx_write c (pgfx p) = Inr (ps, g)" "only_cursor (pgfx p) g"
      using gfx_write_total [of "pgfx p" c] r unfolding panel_ready_def by blast
    moreover from this have "panel_ready (p\<lparr>pgfx := g\<rparr>)" using r panel_ready_gfx by blast
    ultimately show ?thesis using safe_paint [of ps] by (simp add: epd_write_def safe_def)
  qed
  then show ?thesis by (simp add: safe_def)
qed

lemma safe_epd_print [safe_intros]: "safe (epd_print s)"
  unfolding epd_print_def by (intro safe_intros)

lemma safe_epd_println [safe_intros]: "safe (epd_println s)"
  unfolding epd_println_def [abs_def] by (intro safe_andThen safe_intros)

lemma safe_bitmap [safe_intros]:
  "0 \<le> w \<Longrightarrow> 0 \<le> h \<Longrightarrow> h * ((w + 7) div 8) \<le> int (length bm) \<Longrightarrow>
   safe (panel_drawBitmap x y bm w h)"
  using safe_paint by (simp add: panel_drawBitmap_def [abs_def] bitmap_pixels_spec)

lemma safe_icon [safe_intros]:
  "safe (panel_drawBitmap x y (bitmap_data b) (bitmap_width b) (bitmap_height b))"
  using bitmap_dims_pos [of b]
  by (intro safe_bitmap) (simp_all add: bitmap_data_length mult.commute)

definition textBounds :: "string \<Rightarrow> int \<Rightarrow> int \<Rightarrow> panel \<Rightarrow> (int \<times> int \<times> int \<times> int) res" where
  "textBounds s x y p = getTextBounds (pgfx p) s x y"

lemma safe_textBounds:
  assumes "\<And>x1 y1 w h. safe (f (x1, y1, w, h))"
  shows "safe (\<lambda>p. andThen (textBounds s x y p) (\<lambda>b. f b p))"
proof -
  have "\<exists>p'. andThen (textBounds s x y p) (\<lambda>b. f b p) = Inr p' \<and> panel_ready p'"
    if r: "panel_ready p" for p
  proof -
    obtain x1 y1 w h where "textBounds s x y p = Inr (x1, y1, w, h)"
      using getTextBounds_total [of "pgfx p" s x y] r unfolding textBounds_def panel_ready_def by blast
    then show ?thesis using assms r by (simp add: safe_def)
  qed
  then show ?thesis by (simp add: safe_def)
qed

text \<open>Changes of the text settings.\<close>

definition gfx_setting :: "(gfx \<Rightarrow> gfx) \<Rightarrow> panel \<Rightarrow> panel res" where
  "gfx_setting f p = Inr (p\<lparr>pgfx := f (pgfx p)\<rparr>)"

lemma safe_settings [safe_intros]:
  "safe (gfx_setting (setTextColor c))" "safe (gfx_setting (setTextSize n))"
  "safe (gfx_setting (setCursor x y))" "safe (gfx_setting (setFont (Some IBMPlexMono_M6pt7b)))"
proof -
  have "f_last IBMPlexMono_M6pt7b < 256" by (simp add: IBMPlexMono_M6pt7b_def)
  then show "safe (gfx_setting (setTextColor c))" "safe (gfx_setting (setTextSize n))"
    "safe (gfx_setting (setCursor x y))" "safe (gfx_setting (setFont (Some IBMPlexMono_M6pt7b)))"
    using plex_font_ok
    by (auto simp: safe_def gfx_setting_def panel_ready_def panel_ok_def display_width_def
        display_height_def setTextColor_def setTextSize_def setCursor_def setFont_def
        text_ready_def Let_def)
qed

end
