(* ===== verification/Json_Text.thy ===== *)
theory Json_Text
  imports Arduino_Core
begin

section \<open>Characters of JSON texts\<close>

text \<open>
  The character level of ArduinoJson: the table of escape sequences (\<^verbatim>\<open>EscapeSequence.hpp\<close>), the
  hexadecimal digits of \<^verbatim>\<open>JsonDeserializer.hpp\<close>, UTF-16 code units (\<^verbatim>\<open>Utf16.hpp\<close>) and their
  encoding as UTF-8 (\<^verbatim>\<open>Utf8.hpp\<close>), with a reference definition of UTF-8 by division. A C string is the
  list of its characters before the NUL.
\<close>

abbreviation NUL :: char where "NUL \<equiv> CHR 0x00"
abbreviation quote_char :: char where "quote_char \<equiv> CHR 0x22"
abbreviation backslash :: char where "backslash \<equiv> CHR 0x5C"

definition isdigit :: "char \<Rightarrow> bool" where
  "isdigit c \<longleftrightarrow> 48 \<le> (of_char c :: nat) \<and> (of_char c :: nat) \<le> 57"

definition isBetween :: "char \<Rightarrow> char \<Rightarrow> char \<Rightarrow> bool" where
  "isBetween c lo hi \<longleftrightarrow> (of_char lo :: nat) \<le> of_char c \<and> (of_char c :: nat) \<le> of_char hi"

definition canBeInNonQuotedString :: "char \<Rightarrow> bool" where
  "canBeInNonQuotedString c \<longleftrightarrow> isBetween c CHR ''0'' CHR ''9'' \<or> isBetween c CHR ''_'' CHR ''z'' \<or>
     isBetween c CHR ''A'' CHR ''Z'' \<or> c = CHR ''+'' \<or> c = CHR ''-'' \<or> c = CHR ''.''"

definition isQuote :: "char \<Rightarrow> bool" where
  "isQuote c \<longleftrightarrow> c = CHR 0x27 \<or> c = quote_char"

subsection \<open>Escape sequences\<close>

text \<open>Pairs of the letter after the backslash and the character it stands for.\<close>

definition escapeTable :: "bool \<Rightarrow> string" where
  "escapeTable excludeSolidus = drop (if excludeSolidus then 2 else 0)
     [CHR ''/'', CHR ''/'', quote_char, quote_char, backslash, backslash, CHR ''b'', CHR 0x08,
      CHR ''f'', CHR 0x0C, CHR ''n'', CHR 0x0A, CHR ''r'', CHR 0x0D, CHR ''t'', CHR 0x09]"

fun escape_scan :: "string \<Rightarrow> char \<Rightarrow> char" where
  "escape_scan (a # b # ps) c = (if b \<noteq> c then escape_scan ps c else a)"
| "escape_scan _ c = NUL"

fun unescape_scan :: "string \<Rightarrow> char \<Rightarrow> char" where
  "unescape_scan (a # b # ps) c = (if a = c then b else unescape_scan ps c)"
| "unescape_scan _ c = NUL"

definition escapeChar :: "char \<Rightarrow> char" where
  "escapeChar c = escape_scan (escapeTable True) c"

definition unescapeChar :: "char \<Rightarrow> char" where
  "unescapeChar c = unescape_scan (escapeTable False) c"

lemma escapeChar_eq:
  "escapeChar c = (if c = quote_char then quote_char else if c = backslash then backslash
     else if c = CHR 0x08 then CHR ''b'' else if c = CHR 0x0C then CHR ''f''
     else if c = CHR 0x0A then CHR ''n'' else if c = CHR 0x0D then CHR ''r''
     else if c = CHR 0x09 then CHR ''t'' else NUL)"
  by (simp add: escapeChar_def escapeTable_def eq_commute [of _ c])

lemma unescape_escape: "escapeChar c \<noteq> NUL \<Longrightarrow> unescapeChar (escapeChar c) = c"
  by (auto simp: escapeChar_eq unescapeChar_def escapeTable_def split: if_splits)

lemma escapeChar_plain: "escapeChar c = NUL \<Longrightarrow> c \<noteq> quote_char \<and> c \<noteq> backslash"
  by (auto simp: escapeChar_eq)

lemma escapeChar_not_u: "escapeChar c \<noteq> CHR ''u''"
  by (simp add: escapeChar_eq)

subsection \<open>Hexadecimal digits\<close>

definition decodeHex :: "char \<Rightarrow> u8" where
  "decodeHex c = (let b = of_char c :: u8 in
     if b < 0x41 then b - 0x30 else (b AND NOT 0x20) - 0x41 + 10)"

lemma decodeHex_digits:
  "map decodeHex ''0123456789abcdef'' = map of_nat [0..<16]"
  "map decodeHex ''ABCDEF'' = map of_nat [10..<16]"
  by (simp_all add: decodeHex_def upt_rec)

text \<open>The test \<open>value > 0x0F\<close> of the caller lets eight characters pass that are no digits.\<close>

lemma decodeHex_lenient:
  "map decodeHex '':;<=>?'' = map of_nat [10..<16]" "decodeHex CHR 0x60 = 9" "decodeHex CHR ''@'' = 16"
  by (simp_all add: decodeHex_def upt_rec)

subsection \<open>UTF-16\<close>

definition isHighSurrogate :: "u16 \<Rightarrow> bool" where
  "isHighSurrogate codeunit \<longleftrightarrow> 0xD800 \<le> codeunit \<and> codeunit < 0xDC00"

definition isLowSurrogate :: "u16 \<Rightarrow> bool" where
  "isLowSurrogate codeunit \<longleftrightarrow> 0xDC00 \<le> codeunit \<and> codeunit < 0xE000"

text \<open>\<open>Codepoint::append\<close>: the high surrogate it keeps, and the code point when one is complete.\<close>

definition codepoint_append :: "u16 \<Rightarrow> u16 \<Rightarrow> u16 \<times> u32 option" where
  "codepoint_append highSurrogate codeunit =
     (if isHighSurrogate codeunit then (codeunit AND 0x3FF, None)
      else if isLowSurrogate codeunit then
        (highSurrogate, Some (0x10000 + (push_bit 10 (ucast highSurrogate) OR (ucast codeunit AND 0x3FF))))
      else (highSurrogate, Some (ucast codeunit)))"

subsection \<open>UTF-8\<close>

definition byte_char :: "'a::len word \<Rightarrow> char" where
  "byte_char w = char_of (unat w)"

text \<open>The bytes are written in reverse into a buffer behind a NUL, and appended from its end to the NUL.\<close>

definition encodeCodepoint :: "u32 \<Rightarrow> string" where
  "encodeCodepoint codepoint32 = takeWhile (\<lambda>c. c \<noteq> NUL) (rev
     (if codepoint32 < 0x80 then [byte_char codepoint32]
      else let b1 = byte_char ((codepoint32 OR 0x80) AND 0xBF); codepoint16 = ucast (drop_bit 6 codepoint32) :: u16
       in if codepoint16 < 0x20 then [b1, byte_char (codepoint16 OR 0xC0)]
          else let b2 = byte_char ((codepoint16 OR 0x80) AND 0xBF); codepoint16 = drop_bit 6 codepoint16
           in if codepoint16 < 0x10 then [b1, b2, byte_char (codepoint16 OR 0xE0)]
              else let b3 = byte_char ((codepoint16 OR 0x80) AND 0xBF); codepoint16 = drop_bit 6 codepoint16
               in [b1, b2, b3, byte_char (codepoint16 OR 0xF0)]))"

text \<open>UTF-8 by its definition: six bits per continuation byte, the rest in the lead byte.\<close>

definition utf8 :: "nat \<Rightarrow> string" where
  "utf8 n = map char_of
     (if n < 0x80 then [n]
      else if n < 0x800 then [0xC0 + n div 64, 0x80 + n mod 64]
      else if n < 0x10000 then [0xE0 + n div 4096, 0x80 + n div 64 mod 64, 0x80 + n mod 64]
      else [0xF0 + n div 262144, 0x80 + n div 4096 mod 64, 0x80 + n div 64 mod 64, 0x80 + n mod 64])"

lemma or_as_plus:
  fixes w b :: "'a::len word"
  assumes "take_bit k w = w" "take_bit k b = 0"
  shows "w OR b = w + b"
proof (rule disjunctive_add [symmetric])
  fix n
  show "\<not> bit w n \<or> \<not> bit b n"
    using assms by (metis bit_0_eq bit_take_bit_iff bot_fun_def bot_bool_def)
qed

lemma unat_or_lead:
  fixes w b :: "'a::len word"
  assumes "take_bit k w = w" "take_bit k b = 0" "unat w + unat b < 2 ^ LENGTH('a)"
  shows "unat (w OR b) = unat w + unat b"
  using assms by (simp add: or_as_plus [OF assms(1,2)] unat_word_ariths)

lemma continuation_bits:
  fixes w :: "'a::len word"
  assumes "8 < LENGTH('a)"
  shows "unat ((w OR 0x80) AND 0xBF) = 0x80 + unat w mod 64"
proof -
  have bf: "(0xBF :: 'a word) = mask 6 OR 0x80" by (simp add: mask_eq_exp_minus_1)
  have "(w OR 0x80) AND 0xBF = take_bit 6 w OR 0x80"
    unfolding bf take_bit_eq_mask by (rule bit_word_eqI) (auto simp: bit_and_iff bit_or_iff)
  moreover have "(2 :: nat) ^ 8 < 2 ^ LENGTH('a)" using assms by (intro power_strict_increasing) simp_all
  then have b: "unat (0x80 :: 'a word) = 0x80" "unat (take_bit 6 w) + 0x80 < 2 ^ LENGTH('a)"
    using mod_less_divisor [of 64 "unat w"]
    by (simp_all add: take_bit_nat_eq_self unsigned_take_bit_eq take_bit_eq_mod [of _ "unat w"])
  moreover have "unat (take_bit 6 w OR 0x80 :: 'a word) = unat (take_bit 6 w) + unat (0x80 :: 'a word)"
    by (rule unat_or_lead [of 6]) (use b in simp_all)
  moreover have "unat (take_bit 6 w) = unat w mod 64"
    unfolding unsigned_take_bit_eq by (simp add: take_bit_eq_mod)
  ultimately show ?thesis by simp
qed

lemma byte_char_continuation:
  fixes w :: "'a::len word"
  assumes "8 < LENGTH('a)"
  shows "byte_char ((w OR 0x80) AND 0xBF) = char_of (0x80 + unat w mod 64)"
  by (simp add: byte_char_def continuation_bits [OF assms])

lemma char_of_not_NUL: "0 < (n :: nat) \<Longrightarrow> n < 256 \<Longrightarrow> char_of n \<noteq> NUL"
proof
  assume "0 < n" "n < 256" "char_of n = NUL"
  then have "of_char (char_of n :: char) = (0 :: nat)" by simp
  then show False using \<open>0 < n\<close> \<open>n < 256\<close> by simp
qed

text \<open>The encoder of the source is UTF-8, for every code point but 0.\<close>

lemma encodeCodepoint_utf8:
  assumes "0 < n" "n < 0x110000"
  shows "encodeCodepoint (of_nat n) = utf8 n"
proof -
  have n: "unat (of_nat n :: u32) = n" using assms by (simp add: unat_of_nat take_bit_nat_eq_self)
  define c16 where "c16 = (ucast (drop_bit 6 (of_nat n :: u32)) :: u16)"
  have c16: "unat c16 = n div 64"
    using assms n by (simp add: c16_def unsigned_ucast_eq unsigned_drop_bit_eq take_bit_nat_eq_self del: unat_div)
      (simp add: drop_bit_eq_div take_bit_nat_eq_self)
  have lead: "byte_char (w OR b) = char_of (unat b + unat w)"
    if "unat w < 2 ^ k" "take_bit k b = 0" "2 ^ k + unat b \<le> 256" for w b :: u16 and k
  proof -
    have "take_bit k w = w"
      using that(1) by (metis take_bit_nat_eq_self unsigned_take_bit_eq word_unat_eq_iff)
    then have "unat (w OR b) = unat w + unat b"
      by (rule unat_or_lead) (use that in simp_all)
    then show ?thesis by (simp add: byte_char_def add.commute)
  qed
  have dig: "n div 64 div 64 = n div 4096" "n div 4096 div 64 = n div 262144"
    by (simp_all add: div_mult2_eq [symmetric])
  have d16: "unat (drop_bit 6 c16) = n div 4096" "unat (drop_bit 6 (drop_bit 6 c16)) = n div 262144"
    by (simp_all only: drop_bit_eq_div) (simp_all add: unat_div c16 dig)
  have b1: "byte_char ((of_nat n OR 0x80) AND 0xBF :: u32) = char_of (0x80 + n mod 64)"
    using byte_char_continuation [of "of_nat n :: u32"] n by simp
  have b2: "byte_char ((c16 OR 0x80) AND 0xBF) = char_of (0x80 + n div 64 mod 64)"
    using byte_char_continuation [of c16] c16 by simp
  have b3: "byte_char ((drop_bit 6 c16 OR 0x80) AND 0xBF) = char_of (0x80 + n div 4096 mod 64)"
    using byte_char_continuation [of "drop_bit 6 c16"] d16 by simp
  have less: "of_nat n < (0x80 :: u32) \<longleftrightarrow> n < 0x80" "c16 < 0x20 \<longleftrightarrow> n < 0x800"
    "drop_bit 6 c16 < 0x10 \<longleftrightarrow> n < 0x10000"
    by (simp_all only: word_less_nat_alt n c16 d16) (simp_all add: div_less_iff_less_mult)
  consider "n < 0x80" | "0x80 \<le> n" "n < 0x800" | "0x800 \<le> n" "n < 0x10000" | "0x10000 \<le> n" by linarith
  then show ?thesis
  proof cases
    case 1
    then show ?thesis using assms(1) less n
      by (simp add: encodeCodepoint_def utf8_def byte_char_def char_of_not_NUL)
  next
    case 2
    then have "byte_char (c16 OR 0xC0) = char_of (0xC0 + n div 64)"
      using lead [of c16 5 "0xC0"] c16 by (simp add: less_mult_imp_div_less)
    with 2 show ?thesis using less b1
      by (simp add: encodeCodepoint_def utf8_def Let_def c16_def [symmetric] char_of_not_NUL)
  next
    case 3
    then have "byte_char (drop_bit 6 c16 OR 0xE0) = char_of (0xE0 + n div 4096)"
      using lead [of "drop_bit 6 c16" 4 "0xE0"] d16 by (simp add: less_mult_imp_div_less)
    with 3 show ?thesis using less b1 b2
      by (simp add: encodeCodepoint_def utf8_def Let_def c16_def [symmetric] char_of_not_NUL)
  next
    case 4
    then have "byte_char (drop_bit 6 (drop_bit 6 c16) OR 0xF0) = char_of (0xF0 + n div 262144)"
      using lead [of "drop_bit 6 (drop_bit 6 c16)" 3 "0xF0"] d16 assms by (simp add: less_mult_imp_div_less)
    with 4 show ?thesis using less b1 b2 b3 assms
      by (simp add: encodeCodepoint_def utf8_def Let_def c16_def [symmetric] char_of_not_NUL)
  qed
qed

end
