(* ===== verification/Json_Printer.thy ===== *)
theory Json_Printer
  imports Json_Text
begin

section \<open>JSON values and their texts\<close>

text \<open>
  The values of an ArduinoJson document (\<^verbatim>\<open>VariantData.hpp\<close>) and the serializer
  (\<^verbatim>\<open>JsonSerializer.hpp\<close>, \<^verbatim>\<open>TextFormatter.hpp\<close>) that \<open>as<String>()\<close> falls back to. The configuration is
  that of the documented build: \<^verbatim>\<open>idf.py build\<close> does not define \<open>ARDUINO\<close>, so \<^verbatim>\<open>Configuration.hpp\<close> takes
  integers of 64 bits, floating point numbers of double precision and a nesting limit of 50. A whole number
  is kept as its magnitude with the sign in the constructor; a finite
  floating point number is the rational number it stands for. The arithmetic of double precision is
  an argument of type \<open>json_lib\<close>, as it is a template argument in the code: \<open>make_float m e\<close> is
  \<open>FloatTraits::make_float\<close> and \<open>float_parts q\<close> is \<open>FloatParts\<close> of a number that is not negative, as integral
  part, decimal part, number of decimal places and exponent. \<open>Json_Floats\<close> gives the ones of the firmware.
\<close>

datatype flt = Finite rat | Infinite bool | NotANumber

datatype json =
    JNull
  | JBool bool
  | JPos u64
  | JNeg u64
  | JFloat flt
  | JString string
  | JArray "json list"
  | JObject "(string \<times> json) list"

record json_lib =
  make_float :: "nat \<Rightarrow> int \<Rightarrow> flt"
  float_parts :: "rat \<Rightarrow> u32 \<times> u32 \<times> nat \<times> int"

text \<open>\<open>isEnclosed\<close>: everything but a number shows where it ends.\<close>

fun isEnclosed :: "json \<Rightarrow> bool" where
  "isEnclosed (JPos n) = False"
| "isEnclosed (JNeg n) = False"
| "isEnclosed (JFloat x) = False"
| "isEnclosed _ = True"

subsection \<open>Numbers and strings\<close>

definition digit_char :: "nat \<Rightarrow> char" where
  "digit_char n = char_of (n + 48)"

text \<open>The buffer is filled from its end; \<open>acc\<close> is what has been written so far.\<close>

function reverse_digits :: "nat \<Rightarrow> string \<Rightarrow> string" where
  "reverse_digits value acc =
     (let acc = digit_char (value mod 10) # acc
      in if value div 10 = 0 then acc else reverse_digits (value div 10) acc)"
  by pat_completeness auto
termination
  by (relation "measure fst") auto

declare reverse_digits.simps [simp del]

definition writePositiveInteger :: "nat \<Rightarrow> string" where
  "writePositiveInteger value = reverse_digits value ''''"

definition writeNegativeInteger :: "nat \<Rightarrow> string" where
  "writeNegativeInteger value = ''-'' @ writePositiveInteger value"

fun decimal_places :: "nat \<Rightarrow> nat \<Rightarrow> string \<Rightarrow> string" where
  "decimal_places 0 value acc = acc"
| "decimal_places (Suc width) value acc =
     decimal_places width (value div 10) (digit_char (value mod 10) # acc)"

definition writeDecimals :: "nat \<Rightarrow> nat \<Rightarrow> string" where
  "writeDecimals value width = CHR ''.'' # decimal_places width value ''''"

definition writeFloat :: "json_lib \<Rightarrow> flt \<Rightarrow> string" where
  "writeFloat lib x = (case x of
       NotANumber \<Rightarrow> ''null''
     | Infinite neg \<Rightarrow> ''null''
     | Finite q \<Rightarrow>
         (case float_parts lib \<bar>q\<bar> of (integral, decimal, decimalPlaces, exponent) \<Rightarrow>
            (if q < 0 then ''-'' else '''') @ writePositiveInteger (unat integral) @
            (if decimalPlaces \<noteq> 0 then writeDecimals (unat decimal) decimalPlaces else '''') @
            (if exponent < 0 then ''e-'' @ writePositiveInteger (nat (- exponent)) else '''') @
            (if exponent > 0 then ''e'' @ writePositiveInteger (nat exponent) else '''')))"

definition writeBoolean :: "bool \<Rightarrow> string" where
  "writeBoolean b = (if b then ''true'' else ''false'')"

definition writeChar :: "char \<Rightarrow> string" where
  "writeChar c = (let specialChar = escapeChar c in if specialChar \<noteq> NUL then [backslash, specialChar] else [c])"

definition writeString :: "string \<Rightarrow> string" where
  "writeString s = [quote_char] @ concat (map writeChar s) @ [quote_char]"

subsection \<open>Documents\<close>

fun serialize :: "json_lib \<Rightarrow> json \<Rightarrow> string"
  and elements_text :: "json_lib \<Rightarrow> json list \<Rightarrow> string"
  and members_text :: "json_lib \<Rightarrow> (string \<times> json) list \<Rightarrow> string"
where
  "serialize lib JNull = ''null''"
| "serialize lib (JBool b) = writeBoolean b"
| "serialize lib (JPos n) = writePositiveInteger (unat n)"
| "serialize lib (JNeg n) = writeNegativeInteger (unat n)"
| "serialize lib (JFloat x) = writeFloat lib x"
| "serialize lib (JString s) = writeString s"
| "serialize lib (JArray xs) = ''['' @ elements_text lib xs @ '']''"
| "serialize lib (JObject ms) = ''{'' @ members_text lib ms @ ''}''"
| "elements_text lib [] = ''''"
| "elements_text lib (x # xs) = serialize lib x @ (if xs = [] then '''' else '','' @ elements_text lib xs)"
| "members_text lib [] = ''''"
| "members_text lib ((k, x) # ms) =
     writeString k @ '':'' @ serialize lib x @ (if ms = [] then '''' else '','' @ members_text lib ms)"

subsection \<open>What the number texts are made of\<close>

lemma digit_char_simps:
  assumes "n < 10"
  shows "of_char (digit_char n) = 48 + n" "isdigit (digit_char n)"
  using assms by (simp_all add: digit_char_def isdigit_def)

text \<open>The value of a text of digits.\<close>

definition digits_value :: "nat \<Rightarrow> string \<Rightarrow> nat" where
  "digits_value m s = foldl (\<lambda>m c. m * 10 + (of_char c - 48)) m s"

lemma digits_value_simps [simp]:
  "digits_value m '''' = m" "digits_value m (c # cs) = digits_value (m * 10 + (of_char c - 48)) cs"
  by (simp_all add: digits_value_def)

lemma reverse_digits_value:
  "list_all isdigit acc \<Longrightarrow> list_all isdigit (reverse_digits n acc) \<and> reverse_digits n acc \<noteq> '''' \<and>
   digits_value 0 (reverse_digits n acc) = digits_value n acc"
proof (induction n acc rule: reverse_digits.induct)
  case (1 n acc)
  let ?acc = "digit_char (n mod 10) # acc"
  have acc: "list_all isdigit ?acc" using 1(2) by (simp add: digit_char_simps)
  have v: "digits_value (n div 10) ?acc = digits_value n acc"
    by (simp add: digit_char_simps)
  show ?case
  proof (cases "n div 10 = 0")
    case True
    then show ?thesis using acc v by (simp add: reverse_digits.simps [of n] Let_def)
  next
    case False
    then show ?thesis using "1.IH" [OF refl False acc] v by (simp add: reverse_digits.simps [of n] Let_def)
  qed
qed

lemma writePositiveInteger_digits:
  "list_all isdigit (writePositiveInteger n)" "writePositiveInteger n \<noteq> ''''"
  "digits_value 0 (writePositiveInteger n) = n"
  using reverse_digits_value [of "''''" n] by (simp_all add: writePositiveInteger_def)

text \<open>The number of digits, which bounds how much of the parser's buffer a number takes.\<close>

lemma reverse_digits_length: "n < 10 ^ Suc k \<Longrightarrow> length (reverse_digits n acc) \<le> length acc + Suc k"
proof (induction k arbitrary: n acc)
  case 0
  then show ?case by (simp add: reverse_digits.simps [of n] Let_def)
next
  case (Suc k)
  have "n div 10 < 10 ^ Suc k" using Suc.prems by (simp add: div_less_iff_less_mult)
  from Suc.IH [OF this, of "digit_char (n mod 10) # acc"] show ?case
    by (simp add: reverse_digits.simps [of n] Let_def)
qed

lemma writePositiveInteger_length: "length (writePositiveInteger (unat (n :: u64))) \<le> 20"
proof -
  have "unat n < 2 ^ LENGTH(64)" by (rule unsigned_less)
  then show ?thesis
    using reverse_digits_length [of "unat n" 19 "''''"] by (simp add: writePositiveInteger_def)
qed

end
