(* ===== verification/Json_Values.thy ===== *)
theory Json_Values
  imports Json_Printer
begin

section \<open>Values read from JSON documents\<close>

text \<open>
  How the application reads a document of ArduinoJson: the members of an object, the elements of an
  array and the conversions of \<open>as<T>()\<close> (\<^verbatim>\<open>VariantImpl.hpp\<close>, \<^verbatim>\<open>convertNumber.hpp\<close>,
  \<^verbatim>\<open>parseNumber.hpp\<close>): an integer that does not fit the target type gives 0, a missing value gives
  0, \<open>false\<close> or the text \<^verbatim>\<open>null\<close>. The last step of a number with a fraction or an exponent is
  \<open>make_float\<close> of the floating-point arithmetic \<open>lib\<close>.
\<close>

subsection \<open>Members and elements\<close>

definition member :: "json \<Rightarrow> string \<Rightarrow> json" where
  "member j k = (case j of
       JObject ms \<Rightarrow> (case map_of ms k of Some v \<Rightarrow> v | None \<Rightarrow> JNull)
     | _ \<Rightarrow> JNull)"

definition element :: "json \<Rightarrow> nat \<Rightarrow> json" where
  "element j i = (case j of JArray xs \<Rightarrow> (if i < length xs then xs ! i else JNull) | _ \<Rightarrow> JNull)"

definition as_object :: "json \<Rightarrow> (string \<times> json) list" where
  "as_object j = (case j of JObject ms \<Rightarrow> ms | _ \<Rightarrow> [])"

definition as_array :: "json \<Rightarrow> json list" where
  "as_array j = (case j of JArray xs \<Rightarrow> xs | _ \<Rightarrow> [])"

subsection \<open>Numbers\<close>

definition maxUint :: nat where "maxUint = 18446744073709551615"

text \<open>The digits of a number in a text, up to the first one that would overflow 64 bits.\<close>

fun parse_mantissa :: "nat \<Rightarrow> string \<Rightarrow> nat \<times> string" where
  "parse_mantissa m [] = (m, [])"
| "parse_mantissa m (c # cs) =
     (if isdigit c then
        (let d = of_char c - 48
         in if m > maxUint div 10 then (m, c # cs)
            else if m * 10 > maxUint - d then (m * 10, c # cs)
            else parse_mantissa (m * 10 + d) cs)
      else (m, c # cs))"

definition mantissa_max :: nat where "mantissa_max = 2 ^ 52 - 1"
definition exponent_max :: int where "exponent_max = 308"

text \<open>The offset of the exponent is an \<open>int16_t\<close>.\<close>

definition wrap16 :: "int \<Rightarrow> int" where
  "wrap16 i = sint (word_of_int i :: 16 word)"

function shrink_mantissa :: "nat \<Rightarrow> int \<Rightarrow> nat \<times> int" where
  "shrink_mantissa m e =
     (if m > mantissa_max then shrink_mantissa (m div 10) (wrap16 (e + 1)) else (m, e))"
  by pat_completeness auto
termination
  by (relation "measure fst") (auto simp: mantissa_max_def)

declare shrink_mantissa.simps [simp del]

fun skip_digits :: "int \<Rightarrow> string \<Rightarrow> int \<times> string" where
  "skip_digits e [] = (e, [])"
| "skip_digits e (c # cs) = (if isdigit c then skip_digits (wrap16 (e + 1)) cs else (e, c # cs))"

fun fraction_digits :: "nat \<Rightarrow> int \<Rightarrow> string \<Rightarrow> nat \<times> int \<times> string" where
  "fraction_digits m e [] = (m, e, [])"
| "fraction_digits m e (c # cs) =
     (if isdigit c then
        (if m < mantissa_max div 10 then fraction_digits (m * 10 + (of_char c - 48)) (wrap16 (e - 1)) cs
         else fraction_digits m e cs)
      else (m, e, c # cs))"

text \<open>The digits of the exponent; \<open>None\<close> when it grows too large.\<close>

fun exponent_digits :: "int \<Rightarrow> int \<Rightarrow> string \<Rightarrow> (int \<times> string) option" where
  "exponent_digits offset e [] = Some (e, [])"
| "exponent_digits offset e (c # cs) =
     (if isdigit c then
        (let e = e * 10 + (of_char c - 48)
         in if e + offset > exponent_max then None else exponent_digits offset e cs)
      else Some (e, c # cs))"

definition negate :: "bool \<Rightarrow> flt \<Rightarrow> flt" where
  "negate neg x = (if neg then (case x of Finite q \<Rightarrow> Finite (- q) | Infinite b \<Rightarrow> Infinite (\<not> b) | NotANumber \<Rightarrow> NotANumber) else x)"

text \<open>What follows the digits of the mantissa: more digits, a fraction, an exponent.\<close>

definition parse_float :: "json_lib \<Rightarrow> bool \<Rightarrow> nat \<Rightarrow> string \<Rightarrow> json option" where
  "parse_float lib neg mantissa s =
     (case shrink_mantissa mantissa 0 of (m, offset) \<Rightarrow>
      case skip_digits offset s of (offset, s) \<Rightarrow>
      case (case s of c # cs \<Rightarrow> if c = CHR ''.'' then fraction_digits m offset cs else (m, offset, s)
            | [] \<Rightarrow> (m, offset, s)) of (m, offset, s) \<Rightarrow>
      (case s of
         c # cs \<Rightarrow>
           if c = CHR ''e'' \<or> c = CHR ''E'' then
             (let negative_exponent = (case cs of d # _ \<Rightarrow> d = CHR ''-'' | [] \<Rightarrow> False);
                  ds = (case cs of d # ds \<Rightarrow> if d = CHR ''-'' \<or> d = CHR ''+'' then ds else cs | [] \<Rightarrow> cs)
              in case exponent_digits offset 0 ds of
                   None \<Rightarrow> Some (JFloat (if negative_exponent then Finite 0 else Infinite neg))
                 | Some (e, rest) \<Rightarrow>
                     if rest \<noteq> [] then None
                     else Some (JFloat (negate neg (make_float lib m ((if negative_exponent then - e else e) + offset)))))
           else None
       | [] \<Rightarrow> Some (JFloat (negate neg (make_float lib m offset)))))"

text \<open>\<open>None\<close>: the text is no number, and the value is left alone.\<close>

definition parseNumber :: "json_lib \<Rightarrow> string \<Rightarrow> json option" where
  "parseNumber lib s =
     (let neg = (case s of c # _ \<Rightarrow> c = CHR ''-'' | [] \<Rightarrow> False);
          s' = (case s of c # cs \<Rightarrow> (if c = CHR ''-'' \<or> c = CHR ''+'' then cs else s) | [] \<Rightarrow> s)
      in (case s' of
            [] \<Rightarrow> None
          | c # _ \<Rightarrow>
              if \<not> isdigit c \<and> c \<noteq> CHR ''.'' then None
              else (case parse_mantissa 0 s' of
                      (m, []) \<Rightarrow> Some (if neg then JNeg (of_nat m) else JPos (of_nat m))
                    | (m, rest) \<Rightarrow> parse_float lib neg m rest)))"

text \<open>The conversion of a number to an integer type with the range from \<open>lo\<close> to \<open>hi\<close>.\<close>

definition number_in :: "int \<Rightarrow> int \<Rightarrow> json \<Rightarrow> int" where
  "number_in lo hi j = (case j of
       JPos n \<Rightarrow> if uint n \<le> hi then uint n else 0
     | JNeg n \<Rightarrow> if lo < 0 \<and> uint n \<le> hi + 1 then - uint n else 0
     | JBool b \<Rightarrow> if b then 1 else 0
     | JFloat (Finite q) \<Rightarrow> if of_int lo \<le> q \<and> q \<le> of_int hi
                   then (if q < 0 then - \<lfloor>- q\<rfloor> else \<lfloor>q\<rfloor>) else 0
     | _ \<Rightarrow> 0)"

definition as_integral :: "json_lib \<Rightarrow> int \<Rightarrow> int \<Rightarrow> json \<Rightarrow> int" where
  "as_integral lib lo hi j =
     (case j of
       JString s \<Rightarrow> (case parseNumber lib s of Some v \<Rightarrow> number_in lo hi v | None \<Rightarrow> 0)
     | _ \<Rightarrow> number_in lo hi j)"

definition as_u8 :: "json_lib \<Rightarrow> json \<Rightarrow> u8" where
  "as_u8 lib j = word_of_int (as_integral lib 0 255 j)"

definition as_i16 :: "json_lib \<Rightarrow> json \<Rightarrow> int" where
  "as_i16 lib j = as_integral lib (- 32768) 32767 j"

definition as_bool :: "json \<Rightarrow> bool" where
  "as_bool j = (case j of
       JPos n \<Rightarrow> n \<noteq> 0 | JNeg n \<Rightarrow> n \<noteq> 0 | JBool b \<Rightarrow> b | JFloat x \<Rightarrow> x \<noteq> Finite 0
     | JNull \<Rightarrow> False | _ \<Rightarrow> True)"

definition as_string :: "json_lib \<Rightarrow> json \<Rightarrow> string" where
  "as_string lib j = (case j of JString s \<Rightarrow> s | _ \<Rightarrow> serialize lib j)"

text \<open>\<open>copyArray\<close> into an array of bytes: at most as many as the array has.\<close>

definition copyArray :: "json_lib \<Rightarrow> json list \<Rightarrow> u8 list \<Rightarrow> u8 list" where
  "copyArray lib xs dst =
     (let n = min (length xs) (length dst) in map (as_u8 lib) (take n xs) @ drop n dst)"

lemma copyArray_length [simp]: "length (copyArray lib xs dst) = length dst"
  by (simp add: copyArray_def Let_def)

lemma copyArray_nth:
  "i < length dst \<Longrightarrow>
   copyArray lib xs dst ! i = (if i < length xs then as_u8 lib (xs ! i) else dst ! i)"
  by (auto simp: copyArray_def Let_def nth_append min_def)

subsection \<open>What the conversions keep\<close>

text \<open>A signed type holds as many numbers below 0 as from 0 on.\<close>

definition int_type :: "int \<Rightarrow> int \<Rightarrow> bool" where
  "int_type lo hi \<longleftrightarrow> 1 \<le> hi \<and> (lo = 0 \<or> lo = - hi - 1)"

lemma number_in_range: "int_type lo hi \<Longrightarrow> lo \<le> number_in lo hi j \<and> number_in lo hi j \<le> hi"
proof (cases "\<exists>q. j = JFloat (Finite q)")
  case True
  then obtain q where q: "j = JFloat (Finite q)" ..
  assume "int_type lo hi"
  then have b: "lo \<le> 0" "1 \<le> hi" by (auto simp: int_type_def)
  have "lo \<le> (if q < 0 then - \<lfloor>- q\<rfloor> else \<lfloor>q\<rfloor>) \<and> (if q < 0 then - \<lfloor>- q\<rfloor> else \<lfloor>q\<rfloor>) \<le> hi"
    if "of_int lo \<le> q" "q \<le> of_int hi"
  proof (cases "q < 0")
    case True
    have "\<lfloor>- q\<rfloor> \<le> - lo" using that(1) by (simp add: floor_le_iff)
    moreover have "0 \<le> \<lfloor>- q\<rfloor>" using True by simp
    ultimately show ?thesis unfolding if_P [OF True] using b by linarith
  next
    case False
    have "\<lfloor>q\<rfloor> \<le> hi" using that(2) by (simp add: floor_le_iff)
    moreover have "0 \<le> \<lfloor>q\<rfloor>" using False by simp
    ultimately show ?thesis unfolding if_not_P [OF False] using b by linarith
  qed
  then show ?thesis using b q by (auto simp: number_in_def)
next
  case False
  assume t: "int_type lo hi"
  show ?thesis
  proof (cases j)
    case (JPos n)
    have n: "0 \<le> uint n" by simp
    show ?thesis
    proof (cases "uint n \<le> hi")
      case True
      then show ?thesis using t JPos order_trans [OF _ n, of lo] by (auto simp: number_in_def int_type_def)
    qed (use t JPos in \<open>auto simp: number_in_def int_type_def\<close>)
  next
    case (JNeg n)
    have n: "- uint n \<le> 0" by simp
    then show ?thesis using t JNeg order_trans [OF n, of hi] by (auto simp: number_in_def int_type_def)
  next
    case (JFloat x)
    then show ?thesis using t False by (cases x) (auto simp: number_in_def int_type_def)
  qed (use t in \<open>auto simp: number_in_def int_type_def\<close>)
qed

lemma as_integral_range:
  "int_type lo hi \<Longrightarrow> lo \<le> as_integral lib lo hi j \<and> as_integral lib lo hi j \<le> hi"
proof (cases j)
  case (JString s)
  assume t: "int_type lo hi"
  show ?thesis
  proof (cases "parseNumber lib s")
    case None
    then show ?thesis using t JString by (auto simp: as_integral_def int_type_def)
  next
    case (Some v)
    then show ?thesis using number_in_range [OF t] JString by (simp add: as_integral_def)
  qed
qed (simp_all add: as_integral_def number_in_range)

lemma as_u8_value: "uint (as_u8 lib j) = as_integral lib 0 255 j"
proof -
  have "0 \<le> as_integral lib 0 255 j \<and> as_integral lib 0 255 j \<le> 255"
    by (rule as_integral_range) (simp add: int_type_def)
  then show ?thesis by (simp add: as_u8_def unsigned_of_int take_bit_int_eq_self)
qed

lemma as_u8_small: "n \<le> 255 \<Longrightarrow> as_u8 lib (JPos n) = ucast n"
  by (simp add: as_u8_def as_integral_def number_in_def word_le_def)

lemma as_u8_overflow: "255 < n \<Longrightarrow> as_u8 lib (JPos n) = 0"
  by (simp add: as_u8_def as_integral_def number_in_def word_less_def)

text \<open>A finite number below 1, such as the colour coordinates of a lamp, becomes 0.\<close>

lemma as_u8_fraction: "0 \<le> q \<Longrightarrow> q < 1 \<Longrightarrow> as_u8 lib (JFloat (Finite q)) = 0"
proof -
  assume "0 \<le> q" "q < 1"
  moreover from this have "\<lfloor>q\<rfloor> = 0" by (simp add: floor_eq_iff)
  ultimately show ?thesis by (simp add: as_u8_def as_integral_def number_in_def)
qed

text \<open>
  The bridge writes light numbers as texts in JSON, and the application writes them back
  with \<open>String(uint8_t)\<close>: reading such a text gives the number again.
\<close>

lemma digits_value_ge: "acc \<le> digits_value acc cs"
proof (induction cs arbitrary: acc)
  case (Cons c cs)
  show ?case using Cons.IH [of "acc * 10 + (of_char c - 48)"] by simp
qed simp

lemma parse_mantissa_digits:
  assumes "list_all isdigit s" "digits_value m s \<le> maxUint"
  shows "parse_mantissa m s = (digits_value m s, [])"
  using assms
proof (induction s arbitrary: m)
  case (Cons c cs)
  define d :: nat where "d = of_char c - 48"
  have "isdigit c" using Cons.prems(1) by simp
  then have d: "d < 10" unfolding d_def isdigit_def by linarith
  have "m * 10 + d \<le> maxUint"
    using Cons.prems(2) digits_value_ge [of "m * 10 + d" cs] by (simp add: d_def)
  then have "\<not> m > maxUint div 10" "\<not> m * 10 > maxUint - d"
    by (simp_all add: maxUint_def)
  moreover have "parse_mantissa (m * 10 + d) cs = (digits_value (m * 10 + d) cs, [])"
    by (rule Cons.IH) (use Cons.prems in \<open>simp_all add: d_def\<close>)
  ultimately show ?case using Cons.prems(1) by (simp add: d_def Let_def)
qed simp

lemma isdigit_not_sign: "isdigit c \<Longrightarrow> c \<noteq> CHR ''-'' \<and> c \<noteq> CHR ''+''"
  by (auto simp: isdigit_def)

lemma parseNumber_digits:
  assumes "list_all isdigit s" "s \<noteq> ''''" "digits_value 0 s \<le> maxUint"
  shows "parseNumber lib s = Some (JPos (of_nat (digits_value 0 s)))"
    "parseNumber lib (CHR ''-'' # s) = Some (JNeg (of_nat (digits_value 0 s)))"
proof -
  obtain c cs where c: "s = c # cs" using assms(2) by (cases s) auto
  then have d: "isdigit c" using assms(1) by simp
  show "parseNumber lib s = Some (JPos (of_nat (digits_value 0 s)))"
    "parseNumber lib (CHR ''-'' # s) = Some (JNeg (of_nat (digits_value 0 s)))"
    using parse_mantissa_digits [OF assms(1,3)] isdigit_not_sign [OF d] d
    by (simp_all add: parseNumber_def c)
qed

lemma strtol_digits_value:
  "set s \<subseteq> set ''0123456789'' \<Longrightarrow> list_all isdigit s \<and> digits_value m s = strtol_digits 10 m s"
proof (induction s arbitrary: m)
  case (Cons c cs)
  then have "isdigit c" "digit_val c = Some (of_char c - 48)" "of_char c - 48 < (10 :: nat)"
    by (auto simp: isdigit_def digit_val_def)
  then show ?case using Cons by simp
qed simp

lemma parseNumber_String_uint:
  assumes "n \<le> maxUint"
  shows "parseNumber lib (String_uint n) = Some (JPos (of_nat n))"
  using parseNumber_digits(1) [of "String_uint n" lib] strtol_digits_value [of "String_uint n" 0]
    ultoa_10_digits [of n] assms by simp

lemma as_u8_String_uint:
  assumes "n < 256"
  shows "as_u8 lib (JString (String_uint n)) = of_nat n"
proof -
  have "parseNumber lib (String_uint n) = Some (JPos (of_nat n))"
    using assms by (intro parseNumber_String_uint) (simp add: maxUint_def)
  moreover have "uint (of_nat n :: u64) = int n"
    using assms by (simp add: unsigned_of_nat take_bit_nat_eq_self)
  ultimately show ?thesis using assms by (simp add: as_u8_def as_integral_def number_in_def)
qed

end
