(* ===== verification/Json_Pool.thy ===== *)
theory Json_Pool
  imports Json_Values
begin

section \<open>The memory of a JSON document\<close>

text \<open>
  A document owns one block of memory (\<^verbatim>\<open>MemoryPool.hpp\<close>): strings are put one after the other from
  its start, each with its NUL, and the slots of elements and members are taken from its end. The pool
  holds the bytes of the string zone, so its \<open>_left\<close> is their number; \<open>pright\<close> and \<open>pend\<close> are the
  offsets of \<open>_right\<close> and \<open>_end\<close>. A string that is already in the zone is not stored again.
  \<^verbatim>\<open>VariantData::memoryUsage\<close> and \<^verbatim>\<open>nesting\<close> measure a value.
\<close>

record pool =
  zone :: string
  pright :: nat
  pend :: nat

definition memory_pool :: "nat \<Rightarrow> pool" where
  "memory_pool capa = \<lparr>zone = '''', pright = capa, pend = capa\<rparr>"

text \<open>
  \<open>sizeof(VariantSlot)\<close>: eight bytes of content, aligned to eight, the flags, the offset of the next slot
  (four bytes, aligned to four) and the key (a pointer of four bytes), rounded up to the alignment.
\<close>

definition align_up :: "nat \<Rightarrow> nat \<Rightarrow> nat" where
  "align_up a n = (n + a - 1) div a * a"

definition slot_size :: nat where
  "slot_size = (let flags_end = 8 + 1; next_end = align_up 4 flags_end + 4; key_end = align_up 4 next_end + 4
     in align_up 8 key_end)"

lemma slot_size_eq: "slot_size = 24"
  by (simp add: slot_size_def align_up_def)

definition pool_size :: "pool \<Rightarrow> nat" where
  "pool_size P = length (zone P) + pend P - pright P"

definition canAlloc :: "nat \<Rightarrow> pool \<Rightarrow> bool" where
  "canAlloc bytes P \<longleftrightarrow> length (zone P) + bytes \<le> pright P"

definition free_size :: "pool \<Rightarrow> nat" where
  "free_size P = pright P - length (zone P)"

definition allocVariant :: "pool \<Rightarrow> pool option" where
  "allocVariant P = (if canAlloc slot_size P then Some (P\<lparr>pright := pright P - slot_size\<rparr>) else None)"

subsection \<open>Looking for a string\<close>

text \<open>The comparison that starts at one string of the zone: whether it matches, and where it stopped.\<close>

fun match_string :: "string \<Rightarrow> string \<Rightarrow> bool \<times> string" where
  "match_string it [] = (False, [])"
| "match_string it (n # ns) =
     (if (case it of [] \<Rightarrow> NUL | c # _ \<Rightarrow> c) = n
      then (if n = NUL then (True, n # ns) else match_string (tl it) ns)
      else (False, n # ns))"

lemma match_string_rest: "length (snd (match_string it ns)) \<le> length ns"
  by (induction it ns rule: match_string.induct) (auto simp: le_SucI)

function findString :: "string \<Rightarrow> string \<Rightarrow> bool" where
  "findString s z =
     (if z = [] then False
      else case match_string s z of (found, next) \<Rightarrow>
        found \<or> findString s (drop 1 (dropWhile (\<lambda>c. c \<noteq> NUL) next)))"
  by pat_completeness auto
termination
proof (relation "measure (\<lambda>(s, z). length z)", goal_cases)
  case (2 s z p found)
  then have "length found \<le> length z" using match_string_rest [of s z] by (metis snd_conv)
  moreover have "length (dropWhile (\<lambda>c. c \<noteq> NUL) found) \<le> length found" by (rule length_dropWhile_le)
  ultimately show ?case using 2(1) by (cases z) auto
qed simp

declare findString.simps [simp del]

definition saveStringFromFreeZone :: "string \<Rightarrow> pool \<Rightarrow> pool" where
  "saveStringFromFreeZone s P = (if findString s (zone P) then P else P\<lparr>zone := zone P @ s @ [NUL]\<rparr>)"

text \<open>The bytes of a list of strings, and what the search finds there.\<close>

definition zone_of :: "string list \<Rightarrow> string" where
  "zone_of ss = concat (map (\<lambda>s. s @ [NUL]) ss)"

lemma drop_to_NUL: "NUL \<notin> set t \<Longrightarrow> dropWhile (\<lambda>c. c \<noteq> NUL) (t @ NUL # r) = NUL # r"
  by (subst dropWhile_append2) auto

lemma match_string_spec:
  assumes "NUL \<notin> set s" "NUL \<notin> set t"
  shows "fst (match_string s (t @ NUL # r)) = (s = t)"
    "\<not> fst (match_string s (t @ NUL # r)) \<Longrightarrow>
     dropWhile (\<lambda>c. c \<noteq> NUL) (snd (match_string s (t @ NUL # r))) = NUL # r"
  using assms
proof (induction t arbitrary: s)
  case Nil
  { case 1 then show ?case by (cases s) auto }
  { case 2 then show ?case by (cases s) auto }
next
  case (Cons a t)
  { case 1 then show ?case using Cons.IH(1) by (cases s) auto }
  { case 2 then show ?case using Cons.IH(2) [of "tl s"] by (cases s) (auto simp: drop_to_NUL split: if_splits) }
qed

lemma findString_zone:
  assumes "NUL \<notin> set s" "\<forall>t \<in> set ss. NUL \<notin> set t"
  shows "findString s (zone_of ss) \<longleftrightarrow> s \<in> set ss"
  using assms(2)
proof (induction ss)
  case Nil
  then show ?case by (simp add: zone_of_def findString.simps)
next
  case (Cons t ss)
  have z: "zone_of (t # ss) = t @ NUL # zone_of ss" by (simp add: zone_of_def)
  have t: "NUL \<notin> set t" using Cons.prems by simp
  obtain f nx where m: "match_string s (t @ NUL # zone_of ss) = (f, nx)" by fastforce
  have "f = (s = t)" "\<not> f \<Longrightarrow> dropWhile (\<lambda>c. c \<noteq> NUL) nx = NUL # zone_of ss"
    using match_string_spec [OF assms(1) t, of "zone_of ss"] m by simp_all
  then show ?case
    using Cons m by (subst findString.simps) (auto simp: z)
qed

subsection \<open>The pool stays within its block\<close>

definition pool_ok :: "nat \<Rightarrow> pool \<Rightarrow> bool" where
  "pool_ok capa P \<longleftrightarrow> length (zone P) \<le> pright P \<and> pright P \<le> pend P \<and> pend P = capa"

lemma pool_ok_start [simp]: "pool_ok capa (memory_pool capa)"
  by (simp add: pool_ok_def memory_pool_def)

lemma pool_ok_size: "pool_ok capa P \<Longrightarrow> pool_size P \<le> capa"
  by (auto simp: pool_ok_def pool_size_def)

lemma pool_ok_slot: "pool_ok capa P \<Longrightarrow> allocVariant P = Some Q \<Longrightarrow> pool_ok capa Q"
  by (auto simp: pool_ok_def allocVariant_def canAlloc_def split: if_splits)

lemma pool_ok_save:
  "pool_ok capa P \<Longrightarrow> length s < free_size P \<Longrightarrow> pool_ok capa (saveStringFromFreeZone s P)"
  by (auto simp: pool_ok_def saveStringFromFreeZone_def free_size_def)

lemma free_after_slot:
  "slot_size \<le> free_size P \<Longrightarrow> \<exists>Q. allocVariant P = Some Q \<and> free_size Q = free_size P - slot_size"
  by (auto simp: free_size_def allocVariant_def canAlloc_def slot_size_eq)

lemma free_after_save: "free_size P - (length s + 1) \<le> free_size (saveStringFromFreeZone s P)"
  by (simp add: free_size_def saveStringFromFreeZone_def diff_le_mono2)

subsection \<open>What a value needs\<close>

fun memoryUsage :: "json \<Rightarrow> nat"
  and elements_memory :: "json list \<Rightarrow> nat"
  and members_memory :: "(string \<times> json) list \<Rightarrow> nat"
where
  "memoryUsage (JString s) = length s + 1"
| "memoryUsage (JArray xs) = elements_memory xs"
| "memoryUsage (JObject ms) = members_memory ms"
| "memoryUsage _ = 0"
| "elements_memory [] = 0"
| "elements_memory (x # xs) = slot_size + memoryUsage x + elements_memory xs"
| "members_memory [] = 0"
| "members_memory ((k, x) # ms) = slot_size + memoryUsage x + (length k + 1) + members_memory ms"

fun nesting :: "json \<Rightarrow> nat"
  and elements_nesting :: "json list \<Rightarrow> nat"
  and members_nesting :: "(string \<times> json) list \<Rightarrow> nat"
where
  "nesting (JArray xs) = elements_nesting xs + 1"
| "nesting (JObject ms) = members_nesting ms + 1"
| "nesting _ = 0"
| "elements_nesting [] = 0"
| "elements_nesting (x # xs) = max (nesting x) (elements_nesting xs)"
| "members_nesting [] = 0"
| "members_nesting ((k, x) # ms) = max (nesting x) (members_nesting ms)"

end
