(* ===== verification/Json_Parser.thy ===== *)
theory Json_Parser
  imports Json_Pool "HOL-Library.AList"
begin

section \<open>Reading JSON texts\<close>

text \<open>
  The deserializer of ArduinoJson (\<^verbatim>\<open>JsonDeserializer.hpp\<close>, \<^verbatim>\<open>Latch.hpp\<close>, \<^verbatim>\<open>StringCopier.hpp\<close>), as
  the application uses it: no filter, no comments, Unicode escapes decoded. The parser holds the unread
  text, the one character of the latch, the string being copied into the free zone, the memory pool and
  the error. Every function takes the parser and returns the next one, with the value of the C++
  function in front. The text ends at its end or at a NUL.

  A value is parsed into a variant that may already hold one (a member that appears twice), so the
  functions for values take the old value. The elements of an array and the members of an object are
  read by loops (\<open>arrayLoop\<close>, \<open>objectLoop\<close>) that take the parser of one value as an argument:
  \<open>None\<close> stands for a reached nesting limit. That the loops end is a theorem of \<open>Json_Safety\<close>.
\<close>

datatype json_error = JOk | EmptyInput | IncompleteInput | InvalidInput | NoMemory | NotSupported | TooDeep

record jparser =
  rest :: string
  held :: char
  loaded :: bool
  found :: bool
  ctext :: string
  cvalid :: bool
  ccapacity :: nat
  pool :: pool
  jerror :: json_error

subsection \<open>The latch\<close>

text \<open>\<open>load\<close> is the first half of \<open>current()\<close>: afterwards \<open>held\<close> is the current character.\<close>

definition load :: "jparser \<Rightarrow> jparser" where
  "load p = (if loaded p then p
     else case rest p of
       [] \<Rightarrow> p\<lparr>held := NUL, loaded := True\<rparr>
     | c # cs \<Rightarrow> p\<lparr>rest := cs, held := c, loaded := True\<rparr>)"

definition move :: "jparser \<Rightarrow> jparser" where
  "move p = p\<lparr>loaded := False\<rparr>"

definition fail :: "json_error \<Rightarrow> jparser \<Rightarrow> jparser" where
  "fail e p = p\<lparr>jerror := e\<rparr>"

definition eat :: "char \<Rightarrow> jparser \<Rightarrow> bool \<times> jparser" where
  "eat c p = (let p = load p in if held p \<noteq> c then (False, p) else (True, move p))"

text \<open>How much there is still to read: the measure of the loops.\<close>

definition unread :: "jparser \<Rightarrow> nat" where
  "unread p = length (rest p) + (if loaded p \<and> held p \<noteq> NUL then 1 else 0)"

lemma unread_load: "unread (load p) \<le> unread p"
  by (auto simp: unread_def load_def split: list.split)

lemma unread_move_le: "unread (move p) \<le> unread p"
  by (simp add: unread_def move_def)

lemma unread_move: "held (load p) \<noteq> NUL \<Longrightarrow> unread (move (load p)) < unread p"
  by (auto simp: unread_def load_def move_def split: list.split if_splits)

lemma unread_fail [simp]: "unread (fail e p) = unread p"
  by (simp add: unread_def fail_def)

definition white_space :: "char \<Rightarrow> bool" where
  "white_space c \<longleftrightarrow> c = CHR '' '' \<or> c = CHR 0x09 \<or> c = CHR 0x0D \<or> c = CHR 0x0A"

function skipSpacesAndComments :: "jparser \<Rightarrow> bool \<times> jparser" where
  "skipSpacesAndComments p =
     (let p = load p; c = held p
      in if c = NUL then (False, fail (if found p then IncompleteInput else EmptyInput) p)
         else if white_space c then skipSpacesAndComments (move p)
         else (True, p\<lparr>found := True\<rparr>))"
  by pat_completeness auto
termination
  by (relation "measure unread") (auto simp: unread_move)

declare skipSpacesAndComments.simps [simp del]

subsection \<open>The string under construction\<close>

definition startString :: "jparser \<Rightarrow> jparser" where
  "startString p = p\<lparr>ctext := '''', cvalid := True, ccapacity := free_size (pool p)\<rparr>"

definition append_char :: "char \<Rightarrow> jparser \<Rightarrow> jparser" where
  "append_char c p =
     (if \<not> cvalid p then p
      else if length (ctext p) \<ge> ccapacity p then p\<lparr>cvalid := False\<rparr>
      else p\<lparr>ctext := ctext p @ [c]\<rparr>)"

fun append_chars :: "string \<Rightarrow> jparser \<Rightarrow> jparser" where
  "append_chars [] p = p"
| "append_chars (c # cs) p = append_chars cs (append_char c p)"

definition c_str :: "jparser \<Rightarrow> string" where
  "c_str p = takeWhile (\<lambda>c. c \<noteq> NUL) (ctext p)"

definition save :: "jparser \<Rightarrow> jparser" where
  "save p = p\<lparr>pool := saveStringFromFreeZone (c_str p) (pool p)\<rparr>"

lemma unread_append [simp]: "unread (append_char c p) = unread p" "unread (append_chars s p) = unread p"
proof -
  show a: "unread (append_char c p) = unread p" for c p by (simp add: append_char_def unread_def)
  show "unread (append_chars s p) = unread p" by (induction s arbitrary: p) (simp_all add: a)
qed

subsection \<open>Strings and keys\<close>

fun parseHex4 :: "nat \<Rightarrow> u16 \<Rightarrow> jparser \<Rightarrow> u16 option \<times> jparser" where
  "parseHex4 0 result p = (Some result, p)"
| "parseHex4 (Suc i) result p =
     (let p = load p; digit = held p
      in if digit = NUL then (None, fail IncompleteInput p)
         else let value = decodeHex digit
              in if value > 0x0F then (None, fail InvalidInput p)
                 else parseHex4 i (push_bit 4 result OR ucast value) (move p))"

lemma unread_parseHex4: "unread (snd (parseHex4 i r p)) \<le> unread p"
proof (induction i r p rule: parseHex4.induct)
  case (2 i r p)
  have m: "unread (move (load p)) \<le> unread p"
    using unread_load [of p] unread_move_le [of "load p"] by linarith
  show ?case
    using 2 unread_load [of p] order_trans [OF _ m] by (auto simp: Let_def)
qed simp

function quotedLoop :: "char \<Rightarrow> u16 \<Rightarrow> jparser \<Rightarrow> bool \<times> jparser" where
  "quotedLoop stopChar highSurrogate p =
     (let p = load p; c = held p; p = move p
      in if c = stopChar then (True, p)
         else if c = NUL then (False, fail IncompleteInput p)
         else if c = backslash then
           (let p = load p; c = held p
            in if c = NUL then (False, fail IncompleteInput p)
               else if c = CHR ''u'' then
                 (case parseHex4 4 0 (move p) of
                    (None, p) \<Rightarrow> (False, p)
                  | (Some codeunit, p) \<Rightarrow>
                      (case codepoint_append highSurrogate codeunit of
                         (high, None) \<Rightarrow> quotedLoop stopChar high p
                       | (high, Some codepoint) \<Rightarrow>
                           quotedLoop stopChar high (append_chars (encodeCodepoint codepoint) p)))
               else let c = unescapeChar c
                    in if c = NUL then (False, fail InvalidInput p)
                       else quotedLoop stopChar highSurrogate (append_char c (move p)))
         else quotedLoop stopChar highSurrogate (append_char c p))"
  by pat_completeness auto
termination
proof (relation "measure (\<lambda>(s, h, p). unread p)", goal_cases)
  case (2 s h p p1 c p2 p3 d r q cu a hi)
  then have "unread p2 < unread p" "unread (move p3) < unread p2" "unread q \<le> unread (move p3)"
    using unread_parseHex4 [of 4 0 "move p3"] by (auto simp: unread_move dest: arg_cong [where f = snd])
  with 2 show ?case by simp
next
  case (3 s h p p1 c p2 p3 d r q cu a hi cp)
  then have "unread p2 < unread p" "unread (move p3) < unread p2" "unread q \<le> unread (move p3)"
    using unread_parseHex4 [of 4 0 "move p3"] by (auto simp: unread_move dest: arg_cong [where f = snd])
  with 3 show ?case by simp
next
  case (4 s h p p1 c p2 p3 d e)
  then have "unread p2 < unread p" "unread (move p3) < unread p2" by (auto simp: unread_move)
  with 4 show ?case by simp
qed (auto simp: unread_move)

declare quotedLoop.simps [simp del]

text \<open>The end of both kinds of strings: the NUL, and the test whether everything fitted.\<close>

definition finishString :: "jparser \<Rightarrow> bool \<times> jparser" where
  "finishString p = (let p = append_char NUL p in if cvalid p then (True, p) else (False, fail NoMemory p))"

definition parseQuotedString :: "jparser \<Rightarrow> bool \<times> jparser" where
  "parseQuotedString p =
     (let p = load p; stopChar = held p
      in case quotedLoop stopChar 0 (move p) of (good, p) \<Rightarrow> if \<not> good then (False, p) else finishString p)"

function nonQuotedLoop :: "jparser \<Rightarrow> jparser" where
  "nonQuotedLoop p =
     (let p = load p; c = held p
      in if canBeInNonQuotedString c then nonQuotedLoop (append_char c (move p)) else p)"
  by pat_completeness auto
termination
  by (relation "measure unread") (auto simp: canBeInNonQuotedString_def isBetween_def intro!: unread_move)

declare nonQuotedLoop.simps [simp del]

definition parseNonQuotedString :: "jparser \<Rightarrow> bool \<times> jparser" where
  "parseNonQuotedString p =
     (let p = load p
      in if canBeInNonQuotedString (held p) then finishString (nonQuotedLoop p)
         else (False, fail InvalidInput p))"

definition parseKey :: "jparser \<Rightarrow> bool \<times> jparser" where
  "parseKey p =
     (let p = load (startString p) in if isQuote (held p) then parseQuotedString p else parseNonQuotedString p)"

type_synonym variant_parser = "json \<Rightarrow> jparser \<Rightarrow> (bool \<times> json \<times> jparser) option"

definition parseStringValue :: "json \<Rightarrow> jparser \<Rightarrow> bool \<times> json \<times> jparser" where
  "parseStringValue v p =
     (case parseQuotedString (startString p) of (good, p) \<Rightarrow>
        if \<not> good then (False, v, p) else (True, JString (c_str p), save p))"

subsection \<open>Numbers, true, false and null\<close>

function numberLoop :: "string \<Rightarrow> jparser \<Rightarrow> string \<times> jparser" where
  "numberLoop buffer p =
     (let p = load p; c = held p
      in if canBeInNonQuotedString c \<and> length buffer < 63 then numberLoop (buffer @ [c]) (move p)
         else (buffer, p))"
  by pat_completeness auto
termination
  by (relation "measure (\<lambda>(buffer, p). 63 - length buffer)") auto

declare numberLoop.simps [simp del]

definition parseNumericValue :: "json_lib \<Rightarrow> json \<Rightarrow> jparser \<Rightarrow> bool \<times> json \<times> jparser" where
  "parseNumericValue lib v p =
     (case numberLoop '''' p of (buffer, p) \<Rightarrow>
        let c = (case buffer of [] \<Rightarrow> NUL | c # _ \<Rightarrow> c); n = length buffer
        in if c = CHR ''t'' then (if n \<noteq> 4 then (False, JBool True, fail IncompleteInput p) else (True, JBool True, p))
           else if c = CHR ''f'' then
             (if n \<noteq> 5 then (False, JBool False, fail IncompleteInput p) else (True, JBool False, p))
           else if c = CHR ''n'' then (if n \<noteq> 4 then (False, v, fail IncompleteInput p) else (True, v, p))
           else (case parseNumber lib buffer of
                   None \<Rightarrow> (False, v, fail InvalidInput p) | Some w \<Rightarrow> (True, w, p)))"

subsection \<open>Arrays, objects and values\<close>

definition addSlot :: "jparser \<Rightarrow> bool \<times> jparser" where
  "addSlot p = (case allocVariant (pool p) of None \<Rightarrow> (False, p) | Some P \<Rightarrow> (True, p\<lparr>pool := P\<rparr>))"

text \<open>
  After a value: a closing bracket ends the loop with \<open>true\<close>, a comma goes on, and anything else ends
  it with \<open>false\<close>. The first component says whether the loop goes on, the second what it returns.
\<close>

definition after_value :: "char \<Rightarrow> jparser \<Rightarrow> bool \<times> bool \<times> jparser" where
  "after_value close p =
     (case skipSpacesAndComments p of (good, p) \<Rightarrow>
        if \<not> good then (False, False, p)
        else case eat close p of (ended, p) \<Rightarrow>
          if ended then (False, True, p)
          else case eat CHR '','' p of (comma, p) \<Rightarrow>
            if \<not> comma then (False, False, fail InvalidInput p) else (True, True, p))"

partial_function (option) arrayLoop ::
  "variant_parser \<Rightarrow> json list \<Rightarrow> jparser \<Rightarrow> (bool \<times> json list \<times> jparser) option"
where
  [code]: "arrayLoop f xs p =
     (case addSlot p of (good, p) \<Rightarrow>
        if \<not> good then Some (False, xs, fail NoMemory p)
        else Option.bind (f JNull p) (\<lambda>(good, v, p).
          if \<not> good then Some (False, xs @ [v], p)
          else case after_value CHR '']'' p of (again, good, p) \<Rightarrow>
            if again then arrayLoop f (xs @ [v]) p else Some (good, xs @ [v], p)))"

definition parseArray :: "variant_parser option \<Rightarrow> jparser \<Rightarrow> (bool \<times> json \<times> jparser) option" where
  "parseArray sub p =
     (case sub of
        None \<Rightarrow> Some (False, JArray [], fail TooDeep p)
      | Some f \<Rightarrow>
          (case skipSpacesAndComments (move (load p)) of (good, p) \<Rightarrow>
             if \<not> good then Some (False, JArray [], p)
             else case eat CHR '']'' p of (ended, p) \<Rightarrow>
               if ended then Some (True, JArray [], p)
               else map_option (\<lambda>(good, xs, p). (good, JArray xs, p)) (arrayLoop f [] p)))"

text \<open>The key up to its colon.\<close>

definition parseMemberKey :: "jparser \<Rightarrow> bool \<times> jparser" where
  "parseMemberKey p =
     (case parseKey p of (good, p) \<Rightarrow>
        if \<not> good then (False, p)
        else case skipSpacesAndComments p of (good, p) \<Rightarrow>
          if \<not> good then (False, p)
          else case eat CHR '':'' p of (colon, p) \<Rightarrow>
            if \<not> colon then (False, fail InvalidInput p) else (True, p))"

text \<open>The variant of the member with the key just read: the one that is there, or a new slot.\<close>

definition member_slot :: "(string \<times> json) list \<Rightarrow> jparser \<Rightarrow> bool \<times> json \<times> jparser" where
  "member_slot ms p =
     (case map_of ms (c_str p) of
        Some v \<Rightarrow> (True, v, p)
      | None \<Rightarrow> (case addSlot (save p) of (good, p) \<Rightarrow> if \<not> good then (False, JNull, fail NoMemory p) else (True, JNull, p)))"

partial_function (option) objectLoop ::
  "variant_parser \<Rightarrow> (string \<times> json) list \<Rightarrow> jparser \<Rightarrow> (bool \<times> (string \<times> json) list \<times> jparser) option"
where
  [code]: "objectLoop f ms p =
     (case parseMemberKey p of (good, p) \<Rightarrow>
        if \<not> good then Some (False, ms, p)
        else let key = c_str p in case member_slot ms p of (good, old, p) \<Rightarrow>
          if \<not> good then Some (False, ms, p)
          else Option.bind (f old p) (\<lambda>(good, v, p).
            if \<not> good then Some (False, AList.update key v ms, p)
            else case after_value CHR ''}'' p of (again, good, p) \<Rightarrow>
              if \<not> again then Some (good, AList.update key v ms, p)
              else case skipSpacesAndComments p of (good, p) \<Rightarrow>
                if \<not> good then Some (False, AList.update key v ms, p)
                else objectLoop f (AList.update key v ms) p))"

definition parseObject :: "variant_parser option \<Rightarrow> jparser \<Rightarrow> (bool \<times> json \<times> jparser) option" where
  "parseObject sub p =
     (case sub of
        None \<Rightarrow> Some (False, JObject [], fail TooDeep p)
      | Some f \<Rightarrow>
          (case skipSpacesAndComments (move (load p)) of (good, p) \<Rightarrow>
             if \<not> good then Some (False, JObject [], p)
             else case eat CHR ''}'' p of (ended, p) \<Rightarrow>
               if ended then Some (True, JObject [], p)
               else map_option (\<lambda>(good, ms, p). (good, JObject ms, p)) (objectLoop f [] p)))"

text \<open>One value; \<open>sub\<close> is the parser of the values inside it.\<close>

definition parse_value :: "json_lib \<Rightarrow> variant_parser option \<Rightarrow> variant_parser" where
  "parse_value lib sub v p =
     (case skipSpacesAndComments p of (good, p) \<Rightarrow>
        if \<not> good then Some (False, v, p)
        else let p = load p; c = held p
          in if c = CHR ''['' then parseArray sub p
             else if c = CHR ''{'' then parseObject sub p
             else if isQuote c then Some (parseStringValue v p)
             else Some (parseNumericValue lib v p))"

text \<open>\<open>parseVariant\<close> with the number of levels that are left.\<close>

primrec parseVariant :: "json_lib \<Rightarrow> nat \<Rightarrow> variant_parser" where
  "parseVariant lib 0 = parse_value lib None"
| "parseVariant lib (Suc n) = parse_value lib (Some (parseVariant lib n))"

definition DEFAULT_NESTING_LIMIT :: nat where "DEFAULT_NESTING_LIMIT = 50"

subsection \<open>Documents\<close>

definition start_parser :: "nat \<Rightarrow> string \<Rightarrow> jparser" where
  "start_parser capa s = \<lparr>rest = s, held = NUL, loaded = False, found = False, ctext = '''',
     cvalid = False, ccapacity = 0, pool = memory_pool capa, jerror = JOk\<rparr>"

text \<open>\<open>deserializeJson\<close> into a document of the given capacity: the error, and the document it leaves.\<close>

definition deserializeJson :: "json_lib \<Rightarrow> nat \<Rightarrow> string \<Rightarrow> (json_error \<times> json) option" where
  "deserializeJson lib capa s =
     map_option (\<lambda>(good, v, p).
         (if jerror p = JOk \<and> held p \<noteq> NUL \<and> \<not> isEnclosed v then InvalidInput else jerror p, v))
       (parseVariant lib DEFAULT_NESTING_LIMIT JNull (start_parser capa s))"

text \<open>The application ignores the error and reads the document.\<close>

definition deserialize :: "json_lib \<Rightarrow> nat \<Rightarrow> string \<Rightarrow> json" where
  "deserialize lib capa s = (case deserializeJson lib capa s of Some (e, v) \<Rightarrow> v | None \<Rightarrow> JNull)"

text \<open>An empty text leaves the document empty.\<close>

lemma deserializeJson_empty: "deserializeJson lib capa '''' = Some (EmptyInput, JNull)"
proof -
  have "skipSpacesAndComments (start_parser capa '''') =
      (False, fail EmptyInput (load (start_parser capa '''')))"
    by (subst skipSpacesAndComments.simps) (simp add: load_def start_parser_def)
  then have "parseVariant lib n JNull (start_parser capa '''') =
      Some (False, JNull, fail EmptyInput (load (start_parser capa '''')))" for n
    by (cases n) (simp_all add: parse_value_def)
  then show ?thesis by (simp add: deserializeJson_def fail_def)
qed

lemma deserialize_empty: "deserialize lib capa '''' = JNull"
  by (simp add: deserialize_def deserializeJson_empty)

end
