(* ===== verification/Json_Floats.thy ===== *)
theory Json_Floats
  imports Json_Printer "HOL-Library.Log_Nat"
begin

section \<open>Double-precision numbers\<close>

text \<open>
  The arithmetic behind the numbers with a fraction or an exponent: \<^verbatim>\<open>FloatTraits.hpp\<close> for eight bytes, which
  scales a mantissa by powers of ten from three tables, and \<^verbatim>\<open>FloatParts.hpp\<close>, which splits a number for
  printing. A \<open>double\<close> is a
  rational number, an infinity or no number; every operation computes exactly and rounds to the nearest
  number with 53 significant bits, ties to the even one (IEEE 754, and no fused operations). A negative
  zero is the number 0: nothing here tells them apart. Reading behind the tables of powers gives what the
  parameter \<open>behind\<close> says. The entries of the tables, given by their bits, are the numbers nearest to the
  powers of ten.
\<close>

subsection \<open>Rounding\<close>

text \<open>The exponent of the leading bit of a positive number.\<close>

definition leading_bit :: "rat \<Rightarrow> int" where
  "leading_bit q = (case quotient_of q of (n, d) \<Rightarrow>
     let k = bitlen n - bitlen d in if 2 powi k \<le> q then k else k - 1)"

definition round_even :: "rat \<Rightarrow> int" where
  "round_even x = (let f = \<lfloor>x\<rfloor>; r = x - of_int f in if r < 1 / 2 \<or> r = 1 / 2 \<and> even f then f else f + 1)"

text \<open>The distance of two neighbours around a number; below the normal numbers it stays the same.\<close>

definition last_bit :: "rat \<Rightarrow> int" where
  "last_bit q = max (leading_bit q) (- 1022) - 52"

definition double :: "rat \<Rightarrow> flt" where
  "double q =
     (if q = 0 then Finite 0
      else let e = last_bit \<bar>q\<bar>; x = of_int (round_even (\<bar>q\<bar> / 2 powi e)) * 2 powi e
        in if x \<ge> 2 ^ 1024 then Infinite (q < 0) else Finite (if q < 0 then - x else x))"

subsection \<open>Operations\<close>

definition f_mult :: "flt \<Rightarrow> flt \<Rightarrow> flt" where
  "f_mult x y = (case (x, y) of
       (Finite a, Finite b) \<Rightarrow> double (a * b)
     | (Infinite s, Finite b) \<Rightarrow> if b = 0 then NotANumber else Infinite (s \<noteq> (b < 0))
     | (Finite a, Infinite t) \<Rightarrow> if a = 0 then NotANumber else Infinite ((a < 0) \<noteq> t)
     | (Infinite s, Infinite t) \<Rightarrow> Infinite (s \<noteq> t)
     | _ \<Rightarrow> NotANumber)"

definition f_minus :: "flt \<Rightarrow> flt \<Rightarrow> flt" where
  "f_minus x y = (case (x, y) of
       (Finite a, Finite b) \<Rightarrow> double (a - b)
     | (Infinite s, Finite b) \<Rightarrow> Infinite s
     | (Finite a, Infinite t) \<Rightarrow> Infinite (\<not> t)
     | (Infinite s, Infinite t) \<Rightarrow> if s \<noteq> t then Infinite s else NotANumber
     | _ \<Rightarrow> NotANumber)"

text \<open>Comparisons and the conversion to an unsigned integer; they are only made with finite numbers.\<close>

definition f_less :: "flt \<Rightarrow> flt \<Rightarrow> bool" where
  "f_less x y = (case (x, y) of
       (Finite a, Finite b) \<Rightarrow> a < b | (Finite a, Infinite t) \<Rightarrow> \<not> t | (Infinite s, Finite b) \<Rightarrow> s
     | (Infinite s, Infinite t) \<Rightarrow> s \<and> \<not> t | _ \<Rightarrow> False)"

definition f_floor :: "flt \<Rightarrow> nat" where
  "f_floor x = (case x of Finite q \<Rightarrow> nat \<lfloor>q\<rfloor> | _ \<Rightarrow> 0)"

subsection \<open>Powers of ten\<close>

text \<open>\<open>forge\<close>: the number with the given bits.\<close>

definition forge :: "u32 \<Rightarrow> u32 \<Rightarrow> flt" where
  "forge msb lsb =
     (let negative = 0x80000000 \<le> msb; e = unat (drop_bit 20 msb) mod 2048;
          m = int (unat (take_bit 20 msb) * 2 ^ 32 + unat lsb)
      in if e = 2047 then (if m = 0 then Infinite negative else NotANumber)
         else let x = (if e = 0 then of_int m * 2 powi (- 1074) else of_int (2 ^ 52 + m) * 2 powi (int e - 1075))
           in Finite (if negative then - x else x))"

type_synonym behind = "bool \<Rightarrow> nat \<Rightarrow> flt"

text \<open>The tables of factors.\<close>

definition positive_factors :: "(u32 \<times> u32) list" where
  "positive_factors =
    [(0x40240000, 0x00000000), (0x40590000, 0x00000000), (0x40C38800, 0x00000000),
     (0x4197D784, 0x00000000), (0x4341C379, 0x37E08000), (0x4693B8B5, 0xB5056E17),
     (0x4D384F03, 0xE93FF9F5), (0x5A827748, 0xF9301D32), (0x75154FDD, 0x7F73BF3C)]"

definition negative_factors :: "(u32 \<times> u32) list" where
  "negative_factors =
    [(0x3FB99999, 0x9999999A), (0x3F847AE1, 0x47AE147B), (0x3F1A36E2, 0xEB1C432D),
     (0x3E45798E, 0xE2308C3A), (0x3C9CD2B2, 0x97D889BC), (0x3949F623, 0xD5A8A733),
     (0x32A50FFD, 0x44F4A73D), (0x255BBA08, 0xCF8C979D), (0x0AC80628, 0x64AC6F43)]"

definition negative_factors_plus_one :: "(u32 \<times> u32) list" where
  "negative_factors_plus_one =
    [(0x3FF00000, 0x00000000), (0x3FB99999, 0x9999999A), (0x3F50624D, 0xD2F1A9FC),
     (0x3E7AD7F2, 0x9ABCAF48), (0x3CD203AF, 0x9EE75616), (0x398039D6, 0x65896880),
     (0x32DA53FC, 0x9631D10D), (0x25915445, 0x81B7DEC2), (0x0AFE07B2, 0x7DD78B14)]"

definition positiveBinaryPowerOfTen :: "behind \<Rightarrow> nat \<Rightarrow> flt" where
  "positiveBinaryPowerOfTen junk i =
     (if i < 9 then case positive_factors ! i of (msb, lsb) \<Rightarrow> forge msb lsb else junk True i)"

definition negativeBinaryPowerOfTen :: "behind \<Rightarrow> nat \<Rightarrow> flt" where
  "negativeBinaryPowerOfTen junk i =
     (if i < 9 then case negative_factors ! i of (msb, lsb) \<Rightarrow> forge msb lsb else junk False i)"

text \<open>Only called with an index below 9.\<close>

definition negativeBinaryPowerOfTenPlusOne :: "nat \<Rightarrow> flt" where
  "negativeBinaryPowerOfTenPlusOne i = (case negative_factors_plus_one ! i of (msb, lsb) \<Rightarrow> forge msb lsb)"

fun scale_float :: "(nat \<Rightarrow> flt) \<Rightarrow> nat \<Rightarrow> nat \<Rightarrow> flt \<Rightarrow> flt" where
  "scale_float table index e m =
     (if e = 0 then m
      else scale_float table (index + 1) (e div 2) (if odd e then f_mult m (table index) else m))"

declare scale_float.simps [simp del]

definition double_make_float :: "behind \<Rightarrow> nat \<Rightarrow> int \<Rightarrow> flt" where
  "double_make_float junk m e =
     (if e > 0 then scale_float (positiveBinaryPowerOfTen junk) 0 (nat e) (double (of_nat m))
      else scale_float (negativeBinaryPowerOfTen junk) 0 (nat (- e)) (double (of_nat m)))"

subsection \<open>The parts of a number\<close>

fun normalize_large :: "nat list \<Rightarrow> flt \<Rightarrow> int \<Rightarrow> flt \<times> int" where
  "normalize_large [] value powersOf10 = (value, powersOf10)"
| "normalize_large (index # idx) value powersOf10 =
     (if \<not> f_less value (positiveBinaryPowerOfTen (\<lambda>_ _. NotANumber) index)
      then normalize_large idx (f_mult value (negativeBinaryPowerOfTen (\<lambda>_ _. NotANumber) index)) (powersOf10 + 2 ^ index)
      else normalize_large idx value powersOf10)"

fun normalize_small :: "nat list \<Rightarrow> flt \<Rightarrow> int \<Rightarrow> flt \<times> int" where
  "normalize_small [] value powersOf10 = (value, powersOf10)"
| "normalize_small (index # idx) value powersOf10 =
     (if f_less value (negativeBinaryPowerOfTenPlusOne index)
      then normalize_small idx (f_mult value (positiveBinaryPowerOfTen (\<lambda>_ _. NotANumber) index)) (powersOf10 - 2 ^ index)
      else normalize_small idx value powersOf10)"

text \<open>The first loop leaves no index for the second, so at most one of them does anything.\<close>

definition normalize_float :: "rat \<Rightarrow> flt \<times> int" where
  "normalize_float value =
     (if \<not> f_less (Finite value) (double 10000000) then normalize_large [8, 7, 6, 5, 4, 3, 2, 1, 0] (Finite value) 0
      else if value > 0 \<and> \<not> f_less (double (1 / 100000)) (Finite value)
      then normalize_small [8, 7, 6, 5, 4, 3, 2, 1, 0] (Finite value) 0
      else (Finite value, 0))"

text \<open>The number of decimal places and their range, reduced by the number of integral places.\<close>

fun reduce_places :: "nat \<Rightarrow> nat \<Rightarrow> nat \<Rightarrow> nat \<times> nat" where
  "reduce_places tmp maxDecimalPart decimalPlaces =
     (if tmp \<ge> 10 then reduce_places (tmp div 10) (maxDecimalPart div 10) (decimalPlaces - 1)
      else (maxDecimalPart, decimalPlaces))"

declare reduce_places.simps [simp del]

fun strip_zeros :: "nat \<Rightarrow> nat \<Rightarrow> nat \<times> nat" where
  "strip_zeros decimal 0 = (decimal, 0)"
| "strip_zeros decimal (Suc places) =
     (if decimal mod 10 = 0 then strip_zeros (decimal div 10) places else (decimal, Suc places))"

definition double_float_parts :: "rat \<Rightarrow> u32 \<times> u32 \<times> nat \<times> int" where
  "double_float_parts value =
     (case normalize_float value of (v, exponent) \<Rightarrow>
      let integral = f_floor v in
      case reduce_places integral 1000000000 9 of (maxDecimalPart, decimalPlaces) \<Rightarrow>
      let remainder = f_mult (f_minus v (double (of_nat integral))) (double (of_nat maxDecimalPart));
          decimal = f_floor remainder;
          remainder = f_minus remainder (double (of_nat decimal));
          decimal = decimal + f_floor (f_mult remainder (Finite 2));
          (decimal, integral, exponent) =
            (if decimal \<ge> maxDecimalPart
             then if exponent \<noteq> 0 \<and> integral + 1 \<ge> 10 then (0, 1, exponent + 1) else (0, integral + 1, exponent)
             else (decimal, integral, exponent));
          (decimal, decimalPlaces) = strip_zeros decimal decimalPlaces
      in (of_nat integral, of_nat decimal, decimalPlaces, exponent))"

definition double_floats :: "behind \<Rightarrow> json_lib" where
  "double_floats junk = \<lparr>make_float = double_make_float junk, float_parts = double_float_parts\<rparr>"

subsection \<open>What rounding gives\<close>

lemma powi_two_less: "2 powi a < (2 powi b :: rat) \<longleftrightarrow> a < b"
  by (metis less_le_not_le linorder_le_less_linear one_less_numeral_iff power_int_increasing
      power_int_strict_increasing semiring_norm(76) order.asym)

lemma leading_bit_bounds:
  assumes "0 < q"
  shows "2 powi leading_bit q \<le> q" "q < 2 powi (leading_bit q + 1)"
proof -
  obtain n d where nd: "quotient_of q = (n, d)" by fastforce
  then have d: "0 < d" and q: "q = of_int n / of_int d" using quotient_of_denom_pos quotient_of_div by auto
  then have n: "0 < n" using assms by (simp add: zero_less_divide_iff)
  define k where "k = bitlen n - bitlen d"
  have bits: "1 \<le> bitlen x" if "0 < x" for x
    using bitlen_bounds [OF that] that by (cases "bitlen x \<le> 0") auto
  have up: "of_int x < (2 powi bitlen x :: rat)" and low: "(2 powi (bitlen x - 1) :: rat) \<le> of_int x" if "0 < x" for x
  proof -
    have "of_int x < (of_int (2 ^ nat (bitlen x)) :: rat)" "(of_int (2 ^ nat (bitlen x - 1)) :: rat) \<le> of_int x"
      using bitlen_bounds [OF that] by (simp_all only: of_int_less_iff of_int_le_iff)
    then show "of_int x < (2 powi bitlen x :: rat)" "(2 powi (bitlen x - 1) :: rat) \<le> of_int x"
      using bits [OF that] by (simp_all add: power_int_def)
  qed
  have e: "(2 powi (k + 1) :: rat) = 2 powi bitlen n / 2 powi (bitlen d - 1)"
    "(2 powi (k - 1) :: rat) = 2 powi (bitlen n - 1) / 2 powi bitlen d"
    by (simp_all add: power_int_diff [symmetric] k_def algebra_simps)
  have "q < 2 powi (k + 1)"
    unfolding q e by (rule frac_less) (use n d up [OF n] low [OF d] in simp_all)
  moreover have "2 powi (k - 1) \<le> q"
    unfolding q e by (rule frac_le) (use n d low [OF n] up [OF d] in \<open>simp_all add: less_imp_le\<close>)
  ultimately show "2 powi leading_bit q \<le> q" "q < 2 powi (leading_bit q + 1)"
    by (simp_all add: leading_bit_def nd k_def [symmetric] Let_def)
qed

lemma leading_bit_unique:
  assumes "2 powi k \<le> q" "q < 2 powi (k + 1)"
  shows "leading_bit q = k"
proof -
  have "0 < q" using assms(1) by (rule order.strict_trans2 [rotated]) simp
  note b = leading_bit_bounds [OF this]
  have "2 powi k < (2 powi (leading_bit q + 1) :: rat)" "2 powi leading_bit q < (2 powi (k + 1) :: rat)"
    using assms b by (auto intro: le_less_trans)
  then show ?thesis unfolding powi_two_less by simp
qed

lemma round_even_error: "\<bar>of_int (round_even x) - x\<bar> \<le> 1 / 2"
proof -
  define r where "r = x - of_int \<lfloor>x\<rfloor>"
  have "0 \<le> r" "r < 1" unfolding r_def by linarith+
  moreover have "of_int (round_even x) - x = (if r < 1 / 2 \<or> r = 1 / 2 \<and> even \<lfloor>x\<rfloor> then - r else 1 - r)"
    by (simp add: round_even_def r_def Let_def)
  ultimately show ?thesis by (auto simp: abs_if)
qed

lemma round_even_int [simp]: "round_even (of_int i) = i"
  by (simp add: round_even_def)

lemma round_even_nearest:
  assumes "\<bar>x - of_int i\<bar> < 1 / 2"
  shows "round_even x = i"
proof -
  have "\<bar>of_int (round_even x) - of_int i\<bar> < (1 :: rat)" using round_even_error [of x] assms by linarith
  then have "\<bar>of_int (round_even x - i)\<bar> < (1 :: rat)" by simp
  then have "\<bar>round_even x - i\<bar> < 1" by (simp only: of_int_abs [symmetric] of_int_less_1_iff)
  then show ?thesis by simp
qed

text \<open>The rounding error is at most half of the distance of two neighbours.\<close>

lemma double_error:
  assumes "double q = Finite x"
  shows "\<bar>x - q\<bar> \<le> 2 powi last_bit \<bar>q\<bar> / 2"
proof (cases "q = 0")
  case False
  define e where "e = last_bit \<bar>q\<bar>"
  define y :: rat where "y = of_int (round_even (\<bar>q\<bar> / 2 powi e)) * 2 powi e"
  have p: "0 < (2 powi e :: rat)" by simp
  define z where "z = \<bar>q\<bar> / 2 powi e"
  have "y - \<bar>q\<bar> = (of_int (round_even z) - z) * 2 powi e"
    using p by (simp add: y_def z_def left_diff_distrib)
  then have "\<bar>y - \<bar>q\<bar>\<bar> = \<bar>of_int (round_even z) - z\<bar> * 2 powi e" using p by (simp add: abs_mult)
  also have "\<dots> \<le> 1 / 2 * 2 powi e" by (intro mult_right_mono round_even_error) simp
  finally have "\<bar>y - \<bar>q\<bar>\<bar> \<le> 2 powi e / 2" by simp
  moreover have "x = (if q < 0 then - y else y)"
    using assms False by (simp add: double_def e_def y_def Let_def split: if_splits)
  ultimately show ?thesis by (auto simp: e_def abs_if split: if_splits)
qed (use assms in \<open>simp add: double_def\<close>)

lemma double_value:
  assumes "2 powi k \<le> q" "q < 2 powi (k + 1)" "- 1022 \<le> k"
    "\<bar>q / 2 powi (k - 52) - of_int i\<bar> < 1 / 2" "x = of_int i * 2 powi (k - 52)" "x < 2 ^ 1024"
  shows "double q = Finite x"
proof -
  have q: "0 < q" using assms(1) by (rule order.strict_trans2 [rotated]) simp
  then have "last_bit \<bar>q\<bar> = k - 52" using leading_bit_unique [OF assms(1,2)] assms(3) by (simp add: last_bit_def)
  then show ?thesis using q assms(5,6) round_even_nearest [OF assms(4)] by (simp add: double_def Let_def)
qed

subsection \<open>The tables\<close>

text \<open>The bits of a positive normal number.\<close>

lemma forge_normal:
  assumes "msb < 0x80000000" "e = unat (drop_bit 20 msb) mod 2048" "0 < e" "e < 2047"
    "m = int (unat (take_bit 20 msb) * 2 ^ 32 + unat lsb)"
  shows "forge msb lsb = Finite (of_int (2 ^ 52 + m) * 2 powi (int e - 1075))"
proof -
  have "\<not> 0x80000000 \<le> msb" using assms(1) by simp
  moreover have "e \<noteq> 2047" "e \<noteq> 0" using assms(3,4) by simp_all
  ultimately show ?thesis
    by (simp only: forge_def Let_def assms(2) [symmetric] assms(5) [symmetric] if_False)
qed

text \<open>A number within half of the distance of two neighbours is rounded to the number with these bits.\<close>

lemma double_forge:
  assumes "msb < 0x80000000" "unat (drop_bit 20 msb) mod 2048 = e" "0 < e" "e < 2047"
    "int (unat (take_bit 20 msb) * 2 ^ 32 + unat lsb) = m" "k = int e - 1023"
    "2 powi k \<le> q" "q < 2 powi (k + 1)" "\<bar>q / 2 powi (k - 52) - of_int (2 ^ 52 + m)\<bar> < 1 / 2"
    "of_int (2 ^ 52 + m) * 2 powi (k - 52) < (2 ^ 1024 :: rat)"
  shows "double q = forge msb lsb"
proof -
  have "int e - 1075 = k - 52" using assms(6) by simp
  then have "forge msb lsb = Finite (of_int (2 ^ 52 + m) * 2 powi (k - 52))"
    using forge_normal [OF assms(1) assms(2) [symmetric] assms(3,4) assms(5) [symmetric]] by simp
  moreover have "- 1022 \<le> k" using assms(3,6) by simp
  ultimately show ?thesis using double_value [OF assms(7,8) _ assms(9) refl assms(10)] by simp
qed

text \<open>Every entry of the tables is the number nearest to its power of ten.\<close>

lemma positive_powers:
  assumes "i < 9"
  shows "positiveBinaryPowerOfTen junk i = double (10 ^ 2 ^ i)"
proof -
  note exact = power_int_def power_divide
  have p0: "double (10 ^ 1) = forge 0x40240000 0"
    by (rule double_forge [of _ 1026 _ 1125899906842624 3], simp_all add: exact)
  have p1: "double (10 ^ 2) = forge 0x40590000 0"
    by (rule double_forge [of _ 1029 _ 2533274790395904 6], simp_all add: exact)
  have p2: "double (10 ^ 4) = forge 0x40C38800 0"
    by (rule double_forge [of _ 1036 _ 993958511509504 13], simp_all add: exact)
  have p3: "double (10 ^ 8) = forge 0x4197D784 0"
    by (rule double_forge [of _ 1049 _ 2207286772629504 26], simp_all add: exact)
  have p4: "double (10 ^ 16) = forge 0x4341C379 0x37E08000"
    by (rule double_forge [of _ 1076 _ 496400372629504 53], simp_all add: exact)
  have p5: "double (10 ^ 32) = forge 0x4693B8B5 0xB5056E17"
    by (rule double_forge [of _ 1129 _ 1047515495755287 106], simp_all add: exact)
  have p6: "double (10 ^ 64) = forge 0x4D384F03 0xE93FF9F5"
    by (rule double_forge [of _ 1235 _ 2338678030465525 212], simp_all add: exact)
  have p7: "double (10 ^ 128) = forge 0x5A827748 0xF9301D32"
    by (rule double_forge [of _ 1448 _ 694105255451954 425], simp_all add: exact)
  have p8: "double (10 ^ 256) = forge 0x75154FDD 0x7F73BF3C"
    by (rule double_forge [of _ 1873 _ 1495187628212028 850], simp_all add: exact)
  have "i \<in> {0, 1, 2, 3, 4, 5, 6, 7, 8}" using assms by auto
  then show ?thesis
    using p0 p1 p2 p3 p4 p5 p6 p7 p8 by (elim insertE emptyE) (simp_all add: positiveBinaryPowerOfTen_def positive_factors_def)
qed

lemma negative_powers:
  assumes "i < 9"
  shows "negativeBinaryPowerOfTen junk i = double (1 / 10 ^ 2 ^ i)"
proof -
  note exact = power_int_def power_divide
  have p0: "double (1 / 10 ^ 1) = forge 0x3FB99999 0x9999999A"
    by (rule double_forge [of _ 1019 _ 2702159776422298 "- 4"], simp_all add: exact)
  have p1: "double (1 / 10 ^ 2) = forge 0x3F847AE1 0x47AE147B"
    by (rule double_forge [of _ 1016 _ 1261007895663739 "- 7"], simp_all add: exact)
  have p2: "double (1 / 10 ^ 4) = forge 0x3F1A36E2 0xEB1C432D"
    by (rule double_forge [of _ 1009 _ 2875098002113325 "- 14"], simp_all add: exact)
  have p3: "double (1 / 10 ^ 8) = forge 0x3E45798E 0xE2308C3A"
    by (rule double_forge [of _ 996 _ 1541029470702650 "- 27"], simp_all add: exact)
  have p4: "double (1 / 10 ^ 16) = forge 0x3C9CD2B2 0x97D889BC"
    by (rule double_forge [of _ 969 _ 3609364214090172 "- 54"], simp_all add: exact)
  have p5: "double (1 / 10 ^ 32) = forge 0x3949F623 0xD5A8A733"
    by (rule double_forge [of _ 916 _ 2803908559284019 "- 107"], simp_all add: exact)
  have p6: "double (1 / 10 ^ 64) = forge 0x32A50FFD 0x44F4A73D"
    by (rule double_forge [of _ 810 _ 1424955341580093 "- 213"], simp_all add: exact)
  have p7: "double (1 / 10 ^ 128) = forge 0x255BBA08 0xCF8C979D"
    by (rule double_forge [of _ 597 _ 3300771748419485 "- 426"], simp_all add: exact)
  have p8: "double (1 / 10 ^ 256) = forge 0x0AC80628 0x64AC6F43"
    by (rule double_forge [of _ 172 _ 2258570371166019 "- 851"], simp_all add: exact)
  have "i \<in> {0, 1, 2, 3, 4, 5, 6, 7, 8}" using assms by auto
  then show ?thesis
    using p0 p1 p2 p3 p4 p5 p6 p7 p8 by (elim insertE emptyE) (simp_all add: negativeBinaryPowerOfTen_def negative_factors_def)
qed

lemma negative_powers_plus_one:
  assumes "i < 9"
  shows "negativeBinaryPowerOfTenPlusOne i = double (1 / 10 ^ (2 ^ i - 1))"
proof -
  note exact = power_int_def power_divide
  have p0: "double (1 / 10 ^ 0) = forge 0x3FF00000 0"
    by (rule double_forge [of _ 1023 _ 0 0], simp_all add: exact)
  have p1: "double (1 / 10 ^ 1) = forge 0x3FB99999 0x9999999A"
    by (rule double_forge [of _ 1019 _ 2702159776422298 "- 4"], simp_all add: exact)
  have p2: "double (1 / 10 ^ 3) = forge 0x3F50624D 0xD2F1A9FC"
    by (rule double_forge [of _ 1013 _ 108086391056892 "- 10"], simp_all add: exact)
  have p3: "double (1 / 10 ^ 7) = forge 0x3E7AD7F2 0x9ABCAF48"
    by (rule double_forge [of _ 999 _ 3052186745220936 "- 24"], simp_all add: exact)
  have p4: "double (1 / 10 ^ 15) = forge 0x3CD203AF 0x9EE75616"
    by (rule double_forge [of _ 973 _ 567002773542422 "- 50"], simp_all add: exact)
  have p5: "double (1 / 10 ^ 31) = forge 0x398039D6 0x65896880"
    by (rule double_forge [of _ 920 _ 63592989288576 "- 103"], simp_all add: exact)
  have p6: "double (1 / 10 ^ 63) = forge 0x32DA53FC 0x9631D10D"
    by (rule double_forge [of _ 813 _ 2907094083817741 "- 210"], simp_all add: exact)
  have p7: "double (1 / 10 ^ 127) = forge 0x25915445 0x81B7DEC2"
    by (rule double_forge [of _ 601 _ 374132482498242 "- 422"], simp_all add: exact)
  have p8: "double (1 / 10 ^ 255) = forge 0x0AFE07B2 0x7DD78B14"
    by (rule double_forge [of _ 175 _ 3949112870800148 "- 848"], simp_all add: exact)
  have "i \<in> {0, 1, 2, 3, 4, 5, 6, 7, 8}" using assms by auto
  then show ?thesis
    using p0 p1 p2 p3 p4 p5 p6 p7 p8 by (elim insertE emptyE) (simp_all add: negativeBinaryPowerOfTenPlusOne_def negative_factors_plus_one_def)
qed

lemma special_numbers:
  "forge 0x7FF80000 0 = NotANumber" "forge 0x7FF00000 0 = Infinite False"
  by (simp_all add: forge_def)

text \<open>The numbers of the colour coordinates in the recorded answers, four decimal places.\<close>

lemma recorded_coordinates:
  "double_make_float junk 3171 (- 4) = Finite (5712365767356737 / 18014398509481984)"
  "double_make_float junk 3366 (- 4) = Finite (1515911634572909 / 4503599627370496)"
proof -
  have p: "negativeBinaryPowerOfTen junk (Suc (Suc 0)) = Finite (7378697629483821 / 73786976294838206464)"
    by (simp add: negativeBinaryPowerOfTen_def negative_factors_def forge_def power_int_def power_divide)
  have m: "double 3171 = Finite 3171" "double 3366 = Finite 3366"
    by (rule double_value [of 11 _ "3171 * 2 ^ 41"], simp_all add: power_int_def power_divide)
      (rule double_value [of 11 _ "3366 * 2 ^ 41"], simp_all add: power_int_def power_divide)
  have s: "double (23397850183093196391 / 73786976294838206464) = Finite (5712365767356737 / 18014398509481984)"
    "double (12418348110421270743 / 36893488147419103232) = Finite (1515911634572909 / 4503599627370496)"
    by (rule double_value [of "- 2" _ 5712365767356737], simp_all add: power_int_def power_divide)
      (rule double_value [of "- 2" _ 6063646538291636], simp_all add: power_int_def power_divide)
  show "double_make_float junk 3171 (- 4) = Finite (5712365767356737 / 18014398509481984)"
    "double_make_float junk 3366 (- 4) = Finite (1515911634572909 / 4503599627370496)"
    using m s by (simp_all add: double_make_float_def scale_float.simps p f_mult_def)
qed

end
