(* ===== verification/Rotary.thy ===== *)
theory Rotary
  imports Prelude
begin

section \<open>Rotary encoders\<close>

text \<open>
  \<^verbatim>\<open>components/arduino/libraries/RotaryEncoder\<close>: the quadrature decoder behind both dials.
  \<open>tick\<close> takes the levels of the two pins and the millisecond clock. A position is an
  \<open>int\<close>; a knob does not turn two thousand million steps.
\<close>

datatype Direction = NOROTATION | CLOCKWISE | COUNTERCLOCKWISE
datatype LatchMode = FOUR3 | FOUR0 | TWO03

fun direction_step :: "Direction \<Rightarrow> int" where
  "direction_step NOROTATION = 0"
| "direction_step CLOCKWISE = 1"
| "direction_step COUNTERCLOCKWISE = - 1"

record rotary =
  mode :: LatchMode
  oldState :: nat
  position :: int
  positionExt :: int
  positionExtPrev :: int
  positionExtTime :: u32
  positionExtTimePrev :: u32

definition LATCH0 :: nat where "LATCH0 = 0"
definition LATCH3 :: nat where "LATCH3 = 3"

definition KNOBDIR :: "int list" where
  "KNOBDIR = [0, - 1, 1, 0,  1, 0, 0, - 1,  - 1, 0, 0, 1,  0, 1, - 1, 0]"

definition rotary_new :: "LatchMode \<Rightarrow> rotary" where
  "rotary_new m = \<lparr>mode = m, oldState = 3, position = 0, positionExt = 0,
     positionExtPrev = 0, positionExtTime = 0, positionExtTimePrev = 0\<rparr>"

definition getDirection :: "rotary \<Rightarrow> Direction \<times> rotary" where
  "getDirection e =
     ((if positionExtPrev e > positionExt e then COUNTERCLOCKWISE
       else if positionExtPrev e < positionExt e then CLOCKWISE else NOROTATION),
      e\<lparr>positionExtPrev := positionExt e\<rparr>)"

definition setPosition :: "int \<Rightarrow> rotary \<Rightarrow> rotary" where
  "setPosition n e =
     e\<lparr>position := (case mode e of TWO03 \<Rightarrow> 2 * n + position e mod 2
                                  | _ \<Rightarrow> 4 * n + position e mod 4),
       positionExt := n, positionExtPrev := n\<rparr>"

definition latch :: "int \<Rightarrow> u32 \<Rightarrow> rotary \<Rightarrow> rotary" where
  "latch n now e = e\<lparr>positionExt := n, positionExtTimePrev := positionExtTime e,
                     positionExtTime := now\<rparr>"

definition tick :: "bool \<Rightarrow> bool \<Rightarrow> u32 \<Rightarrow> rotary \<Rightarrow> rotary" where
  "tick sig1 sig2 now e =
     (let this = (if sig1 then 1 else 0) + (if sig2 then 2 else 0)
      in if oldState e \<noteq> this then
           (let e = e\<lparr>position := position e + KNOBDIR ! (this + 4 * oldState e)\<rparr>;
                e = (case mode e of
                       FOUR3 \<Rightarrow> if this = LATCH3 then latch (position e div 4) now e else e
                     | FOUR0 \<Rightarrow> if this = LATCH0 then latch (position e div 4) now e else e
                     | TWO03 \<Rightarrow> if this = LATCH0 \<or> this = LATCH3
                               then latch (position e div 2) now e else e)
            in e\<lparr>oldState := this\<rparr>)
         else e)"

definition getMillisBetweenRotations :: "rotary \<Rightarrow> u32" where
  "getMillisBetweenRotations e = positionExtTime e - positionExtTimePrev e"

subsection \<open>The decoder follows the knob\<close>

text \<open>
  \<open>phase\<close> numbers the four pin states in the order of a clockwise turn. A legal transition
  changes one pin. The position then stays in step with the phase, and in mode \<open>FOUR0\<close> the
  external position counts whole turns of the four states, latched at state 0.
\<close>

definition phase :: "nat \<Rightarrow> int" where
  "phase s = [0, 3, 1, 2] ! s"

definition pin_state :: "bool \<times> bool \<Rightarrow> nat" where
  "pin_state p = (if fst p then 1 else 0) + (if snd p then 2 else 0)"

definition one_pin :: "nat \<Rightarrow> nat \<Rightarrow> bool" where
  "one_pin s t \<longleftrightarrow> s = t \<or> phase t = (phase s + 1) mod 4 \<or> phase s = (phase t + 1) mod 4"

definition turn :: "nat \<Rightarrow> nat \<Rightarrow> int" where
  "turn s t = (if s = t then 0 else if phase t = (phase s + 1) mod 4 then 1 else - 1)"

fun legal :: "nat \<Rightarrow> (bool \<times> bool) list \<Rightarrow> bool" where
  "legal s [] = True"
| "legal s (p # ps) = (one_pin s (pin_state p) \<and> legal (pin_state p) ps)"

fun run_ticks :: "(bool \<times> bool) list \<Rightarrow> u32 \<Rightarrow> rotary \<Rightarrow> rotary" where
  "run_ticks [] now e = e"
| "run_ticks (p # ps) now e = run_ticks ps now (tick (fst p) (snd p) now e)"

definition in_step :: "rotary \<Rightarrow> bool" where
  "in_step e \<longleftrightarrow> mode e = FOUR0 \<and> oldState e < 4 \<and> (position e - phase (oldState e)) mod 4 = 2 \<and>
     (oldState e = LATCH0 \<longrightarrow> position e = 4 * positionExt e + 2)"

lemma rotary_new_in_step: "in_step (rotary_new FOUR0)"
  by (simp add: in_step_def rotary_new_def phase_def LATCH0_def)

lemma four_states: "(s :: nat) < 4 \<Longrightarrow> s = 0 \<or> s = 1 \<or> s = 2 \<or> s = 3"
  by auto

lemma knobdir_turn:
  assumes "s < 4" "t < 4" "s \<noteq> t" "one_pin s t"
  shows "KNOBDIR ! (t + 4 * s) = turn s t"
  using four_states [OF assms(1)] four_states [OF assms(2)] assms(3,4)
  by (auto simp: KNOBDIR_def turn_def one_pin_def phase_def)

lemma tick_in_step:
  assumes "in_step e" "one_pin (oldState e) (pin_state (a, b))"
  shows "in_step (tick a b now e) \<and> oldState (tick a b now e) = pin_state (a, b)"
proof -
  have t: "pin_state (a, b) < 4" by (simp add: pin_state_def)
  have old: "oldState e < 4" "mode e = FOUR0" using assms(1) by (auto simp: in_step_def)
  show ?thesis
  proof (cases "oldState e = pin_state (a, b)")
    case True
    then show ?thesis using assms(1) by (simp add: tick_def pin_state_def)
  next
    case False
    define d where "d = KNOBDIR ! (pin_state (a, b) + 4 * oldState e)"
    have d: "d = turn (oldState e) (pin_state (a, b))"
      unfolding d_def by (rule knobdir_turn) (use False t old assms(2) in auto)
    have ph: "(position e + d - phase (pin_state (a, b))) mod 4 = 2"
      using four_states [OF old(1)] four_states [OF t] assms False
      by (auto simp: d turn_def phase_def one_pin_def in_step_def) presburger+
    have tick: "tick a b now e =
        (if pin_state (a, b) = LATCH0
         then (latch ((position e + d) div 4) now (e\<lparr>position := position e + d\<rparr>))\<lparr>oldState := pin_state (a, b)\<rparr>
         else e\<lparr>position := position e + d, oldState := pin_state (a, b)\<rparr>)"
      using False old by (simp add: tick_def pin_state_def d_def Let_def latch_def)
    show ?thesis
    proof (cases "pin_state (a, b) = LATCH0")
      case True
      then have "(position e + d) mod 4 = 2" using ph by (simp add: phase_def LATCH0_def)
      then have "position e + d = 4 * ((position e + d) div 4) + 2"
        by (metis mult_div_mod_eq)
      then show ?thesis using True ph old t by (simp add: tick in_step_def latch_def)
    next
      case False
      then show ?thesis using ph old t by (simp add: tick in_step_def)
    qed
  qed
qed

lemma run_ticks_in_step:
  "in_step e \<Longrightarrow> legal (oldState e) ps \<Longrightarrow> in_step (run_ticks ps now e)"
proof (induction ps arbitrary: e)
  case (Cons p ps)
  then have "one_pin (oldState e) (pin_state (fst p, snd p))" by simp
  with Cons tick_in_step [OF Cons.prems(1) this, of now] show ?case by simp
qed simp

text \<open>The number of clockwise steps less the number of counterclockwise ones.\<close>

fun net_turn :: "nat \<Rightarrow> (bool \<times> bool) list \<Rightarrow> int" where
  "net_turn s [] = 0"
| "net_turn s (p # ps) = turn s (pin_state p) + net_turn (pin_state p) ps"

lemma tick_position:
  assumes "in_step e" "one_pin (oldState e) (pin_state (a, b))"
  shows "position (tick a b now e) = position e + turn (oldState e) (pin_state (a, b))"
proof -
  have t: "pin_state (a, b) < 4" by (simp add: pin_state_def)
  have old: "oldState e < 4" "mode e = FOUR0" using assms(1) by (auto simp: in_step_def)
  show ?thesis
    using knobdir_turn [OF old(1) t _ assms(2)] old
    by (auto simp: tick_def pin_state_def Let_def latch_def turn_def)
qed

lemma run_ticks_position:
  assumes "in_step e" "legal (oldState e) ps"
  shows "position (run_ticks ps now e) = position e + net_turn (oldState e) ps"
  using assms
proof (induction ps arbitrary: e)
  case (Cons p ps)
  then have one: "one_pin (oldState e) (pin_state (fst p, snd p))" by simp
  show ?case
    using Cons tick_in_step [OF Cons.prems(1) one, of now] tick_position [OF Cons.prems(1) one, of now]
    by simp
qed simp

text \<open>From one latch to the next, the external position moves by the turns made, and
  \<open>getDirection\<close> reports their sign.\<close>

lemma latched_turns:
  assumes "in_step e" "oldState e = LATCH0" "legal LATCH0 ps"
    and "oldState (run_ticks ps now e) = LATCH0"
  shows "4 * (positionExt (run_ticks ps now e) - positionExt e) = net_turn LATCH0 ps"
proof -
  have "in_step (run_ticks ps now e)" using run_ticks_in_step assms by simp
  then have "position (run_ticks ps now e) = 4 * positionExt (run_ticks ps now e) + 2"
    using assms(4) by (simp add: in_step_def)
  moreover have "position e = 4 * positionExt e + 2"
    using assms(1,2) by (simp add: in_step_def)
  moreover have "position (run_ticks ps now e) = position e + net_turn LATCH0 ps"
    using run_ticks_position [of e ps now] assms(1-3) by simp
  ultimately show ?thesis by simp
qed

end
