(* ===== verification/Device.thy ===== *)
theory Device
  imports Canvas Json_Parser Json_Floats Rotary
begin

section \<open>The device: data types, global state, and the outside world\<close>

text \<open>
  The structures of \<^verbatim>\<open>hue.h\<close>, \<^verbatim>\<open>eink.h\<close> and \<^verbatim>\<open>entertainment.h\<close>, and the global variables of
  the firmware as one record \<open>dev\<close>. What the firmware sends is appended to \<open>out\<close>; what it
  gets back (HTTP answers, the clock, the state of the WiFi connection, Firebase values, mDNS, sockets) is a function of \<open>out\<close>
  in the record \<open>env\<close>, so any behaviour of the outside world is an \<open>env\<close>. Log output over
  the serial line is left out. Fields of \<open>uint8_t\<close> are words; \<open>int\<close> and \<open>int16_t\<close> are \<open>int\<close>.
\<close>

subsection \<open>Data\<close>

record room =
  rkey :: string
  rid :: u8
  rname :: string
  ron :: u8
  bri :: int
  rlightIds :: "u8 list"
  rlightCounter :: u8

record light =
  lkey :: string
  lid :: u8
  lname :: string
  lon :: bool
  brightness :: int
  lhue :: u8
  lsat :: u8
  leffect :: string
  lalert :: string
  colormode :: string
  lct :: u8
  lxy :: "u8 \<times> u8"
  onlyDimmable :: bool

record RGBCommand =
  red :: u8
  green :: u8
  blue :: u8

record behavior =
  bname :: string
  enterainmentGroup :: u8
  blightIds :: "u8 list"
  blightCounter :: u8
  activated :: bool
  behaviorId :: u8
  entries :: "RGBCommand list"
  entriesCount :: u8
  bdelay :: int

definition timeBehavior :: u8 where "timeBehavior = 1"
definition repeatedBehavior :: u8 where "repeatedBehavior = 2"
definition transitionBehavior :: u8 where "transitionBehavior = 3"

lemmas behavior_kinds = timeBehavior_def repeatedBehavior_def transitionBehavior_def

text \<open>The functions whose addresses the application stores in buttons and in \<open>prevPage\<close>.\<close>

datatype handler =
    EGoBack | EDrawHomeFromHomeButton | EFetchData | EDrawHome | EDrawAllGroups | EDrawRoom
  | EDrawLight | EDrawAllLights | EDrawAllBehaviors | EDrawBehavior | ESwitch | EToggleRGBMode
  | ESelectLight | EToggleBehavior | EDrawNextPage | EDrawPrevPage
  | EChangeBehaviorForTraining | EChangeBehaviorForAlarm | EChangeBehaviorForFest
  | EIncrementBlinkingLightsSpeed | EDecrementBlinkingLightsSpeed
  | EIncrementBlinkingLightsCount | EDecrementBlinkingLightsCount
  | EIncrementAlarmDuration | EDecrementAlarmDuration
  | EIncrementAlarmFlashCount | EDecrementAlarmFlashCount
  | EIncrementFestSpeed | EDecrementFestSpeed

record button =
  btn_x :: int
  btn_y :: int
  btn_width :: int
  btn_height :: int
  btn_on :: int
  btn_id :: int
  buttonId :: u16
  btn_brightness :: int
  btn_name :: string
  btn_event :: "handler option"
  isSelected :: bool

definition no_button :: button where
  "no_button = \<lparr>btn_x = 0, btn_y = 0, btn_width = 0, btn_height = 0, btn_on = 0, btn_id = 0,
     buttonId = 0, btn_brightness = 0, btn_name = '''', btn_event = None, isSelected = False\<rparr>"

definition no_room :: room where
  "no_room = \<lparr>rkey = '''', rid = 0, rname = '''', ron = 0, bri = 0,
     rlightIds = replicate 20 0, rlightCounter = 0\<rparr>"

definition no_light :: light where
  "no_light = \<lparr>lkey = '''', lid = 0, lname = '''', lon = False, brightness = 0, lhue = 0, lsat = 0,
     leffect = '''', lalert = '''', colormode = '''', lct = 0, lxy = (0, 0), onlyDimmable = False\<rparr>"

definition no_behavior :: behavior where
  "no_behavior = \<lparr>bname = '''', enterainmentGroup = 0, blightIds = replicate 20 0,
     blightCounter = 0, activated = False, behaviorId = 0,
     entries = replicate 500 \<lparr>red = 0, green = 0, blue = 0\<rparr>, entriesCount = 0, bdelay = 0\<rparr>"

subsection \<open>Effects and the outside world\<close>

datatype http_method = GET | PUT | POST

datatype tls_call =
    NetConnect string | ConfigDefaults | SslSetup | SetHostname
  | ConfPsk "u8 list" string | Handshake | SslWrite nat nat | CloseNotify | FreeContext

datatype fb_value = FbString string | FbInt int

datatype event =
    Http http_method string string
  | Delay int
  | Ticks int
  | Millis
  | MdnsQuery
  | FbWait nat | FbTime | FbPush string "(string \<times> fb_value) list"
  | FbGet string | FbSet string fb_value | FbNew | FbEnd
  | Tls tls_call
  | Random
  | AnalogRead
  | DigitalRead nat
  | TaskCreate string
  | WifiDisconnect | WifiBegin string string | WifiStatus | WifiAutoReconnect
  | FbBegin | FbReconnect

text \<open>The TLS context: not allocated, allocated and initialised, or freed by \<open>free()\<close>.\<close>

datatype tls = NoContext | Live | Freed

record mdns_answer =
  mdns_ip :: string
  mdns_port :: nat

record env =
  junk_factors :: behind
  env_http :: "event list \<Rightarrow> int \<times> string"
  env_clock :: "event list \<Rightarrow> u32"
  env_wifi :: "event list \<Rightarrow> bool"
  env_mdns :: "event list \<Rightarrow> mdns_answer option"
  env_fb_ready :: "event list \<Rightarrow> nat option"
  env_fb_now :: "event list \<Rightarrow> bool"
  env_fb_get :: "event list \<Rightarrow> fb_value option"
  env_fb_set :: "event list \<Rightarrow> bool"
  env_fb_date :: "event list \<Rightarrow> string option"
  env_tls :: "event list \<Rightarrow> int"
  env_handshake :: "event list \<Rightarrow> int option"
  env_patience :: nat
  env_adc :: "event list \<Rightarrow> nat"
  env_pin :: "event list \<Rightarrow> bool"
  env_rand :: "event list \<Rightarrow> u8"
  junk_light :: light
  junk_room :: room
  junk_behavior :: behavior
  junk_button :: button

text \<open>The floating-point arithmetic of the JSON library.\<close>

definition env_lib :: "env \<Rightarrow> json_lib" where
  "env_lib E = double_floats (junk_factors E)"

record dev =
  hueBridgeIP :: string
  hueBridgeBareIP :: string
  userId :: string
  clientKey :: string
  entertainmentGroup :: u8
  groupIds :: "string list"
  numGroups :: u8
  display :: panel
  buttons :: "button list"
  buttonCount :: int
  pressedButton :: button
  topIndex :: u8
  prevHeaderText :: string
  prevPage :: "handler option"
  currentPageOnScreen :: string
  pagePath :: "int list"
  pagePageCounter :: int
  isGoingBack :: bool
  currentRoomID :: int
  currentScreenType :: string
  RGBMode :: bool
  currentRoom :: room
  lastRoom :: int
  roomsCount :: u8
  rooms :: "room list"
  roomPagination :: bool
  lights :: "light list"
  lightCount :: u8
  lightIds :: "light list"
  allLightCount :: u8
  allLightsPagination :: bool
  currentLight :: light
  uiLevel :: int
  entertainmentRoom :: room
  entertainmentLights :: "light list"
  behaviors :: "behavior list"
  lastBehavior :: behavior
  lastBehaviorId :: u8
  behaviorCount :: u8
  blinkingLightsEntries :: int
  blinkingLightsDelay :: int
  alarmEntries :: int
  alarmDelay :: int
  festEntries :: int
  festDelay :: int
  entertainment_msg :: "u8 list"
  entertainment_num_lights :: u8
  startBehaviorNow :: bool
  fest :: bool
  tls :: tls
  tempInteraction :: string
  tempAction :: string
  tempContext :: string
  tempWhat :: string
  tempValue :: int
  sendMessage :: bool
  sendMessageWithWhat :: bool
  sendMessageWithWhatAndValue :: bool
  timeSinceLastLog :: u32
  fbdo :: bool
  encoder :: rotary
  encoderCont :: rotary
  currentScreen :: string
  calledFromEncoder :: bool
  batteryVoltage :: rat
  out :: "event list"

text \<open>The values of the globals when \<open>app_main\<close> is entered.\<close>

definition boot_state :: dev where
  "boot_state =
     \<lparr>hueBridgeIP = '''',
      hueBridgeBareIP = '''',
      userId = ''fR6aF1RbFHE-Iw3FPnj5umxK1plZaBn7D5lOA4Fu'',
      clientKey = ''D5592C72985F881182F9CF599B28FAFA'',
      entertainmentGroup = 8,
      groupIds = replicate 64 '''',
      numGroups = 0,
      display = panel_new,
      buttons = replicate 30 no_button,
      buttonCount = 0,
      pressedButton = no_button,
      topIndex = 0,
      prevHeaderText = '''',
      prevPage = None,
      currentPageOnScreen = '''',
      pagePath = replicate 10 0,
      pagePageCounter = 0,
      isGoingBack = False,
      currentRoomID = 0,
      currentScreenType = '''',
      RGBMode = False,
      currentRoom = no_room,
      lastRoom = 0,
      roomsCount = 0,
      rooms = replicate 50 no_room,
      roomPagination = False,
      lights = replicate 50 no_light,
      lightCount = 0,
      lightIds = replicate 50 no_light,
      allLightCount = 0,
      allLightsPagination = False,
      currentLight = no_light,
      uiLevel = 3,
      entertainmentRoom = no_room,
      entertainmentLights = replicate 20 no_light,
      behaviors = replicate 20 no_behavior,
      lastBehavior = no_behavior,
      lastBehaviorId = 0,
      behaviorCount = 0,
      blinkingLightsEntries = 100,
      blinkingLightsDelay = 1000,
      alarmEntries = 10,
      alarmDelay = 60000,
      festEntries = 100,
      festDelay = 10,
      entertainment_msg = [],
      entertainment_num_lights = 0,
      startBehaviorNow = False,
      fest = False,
      tls = NoContext,
      tempInteraction = '''',
      tempAction = '''',
      tempContext = '''',
      tempWhat = '''',
      tempValue = 0,
      sendMessage = False,
      sendMessageWithWhat = False,
      sendMessageWithWhatAndValue = False,
      timeSinceLastLog = 0,
      fbdo = True,
      encoder = rotary_new FOUR0,
      encoderCont = rotary_new FOUR0,
      currentScreen = '''',
      calledFromEncoder = False,
      batteryVoltage = 0,
      out = []\<rparr>"


subsection \<open>Emitting and asking\<close>

definition emit :: "event \<Rightarrow> dev \<Rightarrow> dev" where
  "emit e d = d\<lparr>out := out d @ [e]\<rparr>"

definition delay_ms :: "int \<Rightarrow> dev \<Rightarrow> dev" where
  "delay_ms n = emit (Delay n)"

text \<open>\<open>vTaskDelay\<close> counts ticks of the scheduler, ten milliseconds each in \<^verbatim>\<open>sdkconfig\<close>.\<close>

definition portTICK_PERIOD_MS :: int where "portTICK_PERIOD_MS = 10"

definition vTaskDelay :: "int \<Rightarrow> dev \<Rightarrow> dev" where
  "vTaskDelay n = emit (Ticks n)"

definition millis :: "env \<Rightarrow> dev \<Rightarrow> u32 \<times> dev" where
  "millis E d = (let d = emit Millis d in (env_clock E (out d), d))"

text \<open>An HTTP request, and the status and the body that come back.\<close>

definition http_request ::
  "env \<Rightarrow> http_method \<Rightarrow> string \<Rightarrow> string \<Rightarrow> dev \<Rightarrow> int \<times> string \<times> dev" where
  "http_request E m url body d =
     (let d = emit (Http m url body) d; (status, answer) = env_http E (out d) in (status, answer, d))"

lemma emit_simps [simp]:
  "out (emit e d) = out d @ [e]" "display (emit e d) = display d"
  by (simp_all add: emit_def)

end
