(* ===== verification/Firebase.thy ===== *)
theory Firebase
  imports Device
begin

section \<open>The usage log and the stored settings (\<^verbatim>\<open>Firebase.cpp\<close>)\<close>

text \<open>
  User actions are put into one set of global variables by \<open>firebaseAppendUserAction\<close>, at
  most one per second, and pushed by \<open>firebaseTask\<close>. \<open>fbdo\<close> says whether the global
  \<open>FirebaseData\<close> object exists: \<open>firebaseEnd\<close> deletes it and \<open>begin\<close> creates it; every call
  that is passed \<open>*fbdo\<close> faults while it does not exist. A wait for \<open>Firebase.ready()\<close> or for
  the time server that never ends is the fault \<open>Hang\<close>.
\<close>

definition HOUSEHOLD_ID :: string where "HOUSEHOLD_ID = ''3''"

definition touchScreenInteraction :: string where "touchScreenInteraction = ''touchScreenInteraction''"
definition topDialInteraction :: string where "topDialInteraction = ''topDialInteraction''"
definition lowerDialInteraction :: string where "lowerDialInteraction = ''lowerDialInteraction''"
definition allLightOn :: string where "allLightOn = ''allLightOn''"
definition allLightOff :: string where "allLightOff = ''allLightOff''"
definition behaviorOn :: string where "behaviorOn = ''behaviorOn''"
definition behaviorOff :: string where "behaviorOff = ''behaviorOff''"
definition rgbSwitch :: string where "rgbSwitch = ''rgbSwitch''"
definition navigate :: string where "navigate = ''navigate''"
definition setBrigthness :: string where "setBrigthness = ''setBrigthness''"
definition setColorTemp :: string where "setColorTemp = ''setColorTemp''"
definition switchLight :: string where "switchLight = ''switchLight''"

subsection \<open>The connection object\<close>

definition fb_begin :: "dev \<Rightarrow> dev" where
  "fb_begin d = emit FbNew (d\<lparr>fbdo := True\<rparr>)"

text \<open>The credentials and the address of the database are fields of the library's objects.\<close>

definition firebaseInit :: "dev \<Rightarrow> dev" where
  "firebaseInit d = emit FbReconnect (emit FbBegin d)"

definition need_fbdo :: "dev \<Rightarrow> dev res" where
  "need_fbdo d = (if fbdo d then Inr d else Inl BadPointer)"

definition firebaseEnd :: "dev \<Rightarrow> dev res" where
  "firebaseEnd = seqr [need_fbdo, ok (emit FbEnd), ok (\<lambda>d. d\<lparr>fbdo := False\<rparr>)]"

definition wait_ready :: "env \<Rightarrow> dev \<Rightarrow> dev res" where
  "wait_ready E d = (case env_fb_ready E (out d) of
       None \<Rightarrow> Inl Hang | Some n \<Rightarrow> Inr (emit (FbWait n) d))"

definition fb_is_ready :: "env \<Rightarrow> dev \<Rightarrow> bool" where
  "fb_is_ready E d = env_fb_now E (out d)"

subsection \<open>Pushing an action\<close>

definition log_path :: string where
  "log_path = ''/test/'' @ HOUSEHOLD_ID"

definition push_json :: "env \<Rightarrow> (dev \<Rightarrow> (string \<times> fb_value) list) \<Rightarrow> dev \<Rightarrow> dev res" where
  "push_json E payload d =
     (if fb_is_ready E d then
        (let d = emit FbTime d
         in case env_fb_date E (out d) of
              None \<Rightarrow> Inl Hang
            | Some date \<Rightarrow> andThen (need_fbdo d)
                (ok (emit (FbPush log_path ((''timestamp'', FbString date) # payload d)))))
      else Inr d)"

definition action_fields :: "dev \<Rightarrow> (string \<times> fb_value) list" where
  "action_fields d = [(''interaction'', FbString (tempInteraction d)),
     (''action'', FbString (tempAction d)), (''context'', FbString (tempContext d))]"

definition taskFireBaseAppendUserAction :: "env \<Rightarrow> dev \<Rightarrow> dev res" where
  "taskFireBaseAppendUserAction E = seqr [wait_ready E, push_json E action_fields]"

definition taskFireBaseAppendUserActionWithWhat :: "env \<Rightarrow> dev \<Rightarrow> dev res" where
  "taskFireBaseAppendUserActionWithWhat E = seqr [wait_ready E,
     push_json E (\<lambda>d. action_fields d @ [(''what'', FbString (tempWhat d))])]"

definition taskFireBaseAppendUserActionWithWhatAndValue :: "env \<Rightarrow> dev \<Rightarrow> dev res" where
  "taskFireBaseAppendUserActionWithWhatAndValue E = seqr [wait_ready E,
     push_json E (\<lambda>d. action_fields d @
       [(''what'', FbString (tempWhat d)), (''value'', FbInt (tempValue d))])]"

subsection \<open>Recording an action, at most one per second\<close>

definition may_log :: "env \<Rightarrow> (dev \<Rightarrow> dev) \<Rightarrow> dev \<Rightarrow> dev" where
  "may_log E f d =
     (let (now, d) = millis E d
      in if now > timeSinceLastLog d + 1000
         then (let (now, d) = millis E d in f (d\<lparr>timeSinceLastLog := now\<rparr>))
         else d)"

definition append_action :: "env \<Rightarrow> string \<Rightarrow> string \<Rightarrow> string \<Rightarrow> dev \<Rightarrow> dev" where
  "append_action E interaction action ctxt d = may_log E
     (\<lambda>d. d\<lparr>tempInteraction := interaction, tempAction := action, tempContext := ctxt,
            sendMessage := True\<rparr>) d"

definition append_action_what :: "env \<Rightarrow> string \<Rightarrow> string \<Rightarrow> string \<Rightarrow> string \<Rightarrow> dev \<Rightarrow> dev" where
  "append_action_what E interaction action ctxt what d = may_log E
     (\<lambda>d. d\<lparr>tempInteraction := interaction, tempAction := action, tempContext := ctxt,
            tempWhat := what, sendMessageWithWhat := True\<rparr>) d"

definition append_action_value ::
  "env \<Rightarrow> string \<Rightarrow> string \<Rightarrow> string \<Rightarrow> string \<Rightarrow> int \<Rightarrow> dev \<Rightarrow> dev" where
  "append_action_value E interaction action ctxt what val d = may_log E
     (\<lambda>d. d\<lparr>tempInteraction := interaction, tempAction := action, tempContext := ctxt,
            tempWhat := what, tempValue := val, sendMessageWithWhatAndValue := True\<rparr>) d"

definition runTaskFireBaseAppendUserActionWithWhat ::
  "env \<Rightarrow> string \<Rightarrow> string \<Rightarrow> string \<Rightarrow> string \<Rightarrow> dev \<Rightarrow> dev res" where
  "runTaskFireBaseAppendUserActionWithWhat E interaction action ctxt what = seqr
     [ok (\<lambda>d. d\<lparr>tempInteraction := interaction, tempAction := action, tempContext := ctxt,
               tempWhat := what\<rparr>),
      taskFireBaseAppendUserActionWithWhat E]"

subsection \<open>Stored settings\<close>

definition config_path :: "string \<Rightarrow> string" where
  "config_path k = ''/Hjem_'' @ HOUSEHOLD_ID @ ''_Config/'' @ k"

definition fb_get :: "env \<Rightarrow> string \<Rightarrow> dev \<Rightarrow> (fb_value option \<times> dev) res" where
  "fb_get E path d = andThen (need_fbdo d)
     (\<lambda>d. let d = emit (FbGet path) d in Inr (env_fb_get E (out d), d))"

definition fb_set :: "env \<Rightarrow> string \<Rightarrow> fb_value \<Rightarrow> dev \<Rightarrow> (bool \<times> dev) res" where
  "fb_set E path v d = andThen (need_fbdo d)
     (\<lambda>d. let d = emit (FbSet path v) d in Inr (env_fb_set E (out d), d))"

definition getUILevel :: "env \<Rightarrow> dev \<Rightarrow> dev res" where
  "getUILevel E d = andThen (wait_ready E d) (\<lambda>d.
     if fb_is_ready E d then
       andThen (fb_get E (config_path ''UI_Level'') d)
         (\<lambda>(v, d). Inr (case v of Some (FbInt n) \<Rightarrow> d\<lparr>uiLevel := n\<rparr> | _ \<Rightarrow> d))
     else Inr d)"

text \<open>The getters return whether they have set their result argument.\<close>

definition getEntertainmentGroupId :: "env \<Rightarrow> dev \<Rightarrow> (int option \<times> dev) res" where
  "getEntertainmentGroupId E d = andThen (wait_ready E d) (\<lambda>d.
     if fb_is_ready E d then
       andThen (fb_get E (config_path ''EntertainmentGroupId'') d)
         (\<lambda>(v, d). Inr (case v of Some (FbInt n) \<Rightarrow> Some n | _ \<Rightarrow> None, d))
     else Inr (None, d))"

definition setEntertainmentGroupId :: "env \<Rightarrow> int \<Rightarrow> dev \<Rightarrow> (bool \<times> dev) res" where
  "setEntertainmentGroupId E n d = andThen (wait_ready E d) (\<lambda>d.
     if fb_is_ready E d then fb_set E (config_path ''EntertainmentGroupId'') (FbInt n) d
     else Inr (False, d))"

definition getUserId :: "env \<Rightarrow> dev \<Rightarrow> (string option \<times> dev) res" where
  "getUserId E d = andThen (wait_ready E d) (\<lambda>d.
     if fb_is_ready E d then
       andThen (fb_get E (config_path ''UserId'') d)
         (\<lambda>(v, d). Inr (case v of
             Some (FbString s) \<Rightarrow> if s = ''null'' \<or> s = '''' then None else Some s
           | _ \<Rightarrow> None, d))
     else Inr (None, d))"

definition getClientKey :: "env \<Rightarrow> dev \<Rightarrow> (string option \<times> dev) res" where
  "getClientKey E d =
     (if fb_is_ready E d then
       andThen (fb_get E (config_path ''ClientKey'') d)
         (\<lambda>(v, d). Inr (case v of
             Some (FbString s) \<Rightarrow> if s = ''null'' then None else Some s
           | _ \<Rightarrow> None, d))
     else Inr (None, d))"

definition setUserId :: "env \<Rightarrow> string \<Rightarrow> dev \<Rightarrow> (bool \<times> dev) res" where
  "setUserId E s d =
     (if fb_is_ready E d then fb_set E (config_path ''UserId'') (FbString s) d else Inr (False, d))"

definition setClientKey :: "env \<Rightarrow> string \<Rightarrow> dev \<Rightarrow> (bool \<times> dev) res" where
  "setClientKey E s d =
     (if fb_is_ready E d then fb_set E (config_path ''ClientKey'') (FbString s) d else Inr (False, d))"

subsection \<open>One round of \<open>firebaseTask\<close>\<close>

definition firebaseTask_round :: "env \<Rightarrow> dev \<Rightarrow> dev res" where
  "firebaseTask_round E = seqr
     [\<lambda>d. whenr (sendMessage d)
        (seqr [taskFireBaseAppendUserAction E, ok (\<lambda>d. d\<lparr>sendMessage := False\<rparr>)]) d,
      \<lambda>d. whenr (sendMessageWithWhat d)
        (seqr [taskFireBaseAppendUserActionWithWhat E,
               ok (\<lambda>d. d\<lparr>sendMessageWithWhat := False\<rparr>)]) d,
      \<lambda>d. whenr (sendMessageWithWhatAndValue d)
        (seqr [taskFireBaseAppendUserActionWithWhatAndValue E,
               ok (\<lambda>d. d\<lparr>sendMessageWithWhatAndValue := False\<rparr>)]) d,
      ok (vTaskDelay 100)]"

subsection \<open>What recording an action leaves alone\<close>

text \<open>Everything but the log variables and the trace.\<close>

lemma append_action_frame [simp]:
  "hueBridgeIP (append_action E i a c d) = hueBridgeIP d"
  "hueBridgeBareIP (append_action E i a c d) = hueBridgeBareIP d"
  "userId (append_action E i a c d) = userId d"
  "clientKey (append_action E i a c d) = clientKey d"
  "entertainmentGroup (append_action E i a c d) = entertainmentGroup d"
  "groupIds (append_action E i a c d) = groupIds d"
  "numGroups (append_action E i a c d) = numGroups d"
  "display (append_action E i a c d) = display d" "buttons (append_action E i a c d) = buttons d"
  "buttonCount (append_action E i a c d) = buttonCount d"
  "pressedButton (append_action E i a c d) = pressedButton d"
  "topIndex (append_action E i a c d) = topIndex d"
  "prevHeaderText (append_action E i a c d) = prevHeaderText d"
  "prevPage (append_action E i a c d) = prevPage d"
  "currentPageOnScreen (append_action E i a c d) = currentPageOnScreen d"
  "pagePath (append_action E i a c d) = pagePath d"
  "pagePageCounter (append_action E i a c d) = pagePageCounter d"
  "isGoingBack (append_action E i a c d) = isGoingBack d"
  "currentRoomID (append_action E i a c d) = currentRoomID d"
  "currentScreenType (append_action E i a c d) = currentScreenType d"
  "RGBMode (append_action E i a c d) = RGBMode d"
  "currentRoom (append_action E i a c d) = currentRoom d"
  "lastRoom (append_action E i a c d) = lastRoom d"
  "roomsCount (append_action E i a c d) = roomsCount d"
  "rooms (append_action E i a c d) = rooms d"
  "roomPagination (append_action E i a c d) = roomPagination d"
  "lights (append_action E i a c d) = lights d"
  "lightCount (append_action E i a c d) = lightCount d"
  "lightIds (append_action E i a c d) = lightIds d"
  "allLightCount (append_action E i a c d) = allLightCount d"
  "allLightsPagination (append_action E i a c d) = allLightsPagination d"
  "currentLight (append_action E i a c d) = currentLight d"
  "uiLevel (append_action E i a c d) = uiLevel d"
  "entertainmentRoom (append_action E i a c d) = entertainmentRoom d"
  "entertainmentLights (append_action E i a c d) = entertainmentLights d"
  "behaviors (append_action E i a c d) = behaviors d"
  "lastBehavior (append_action E i a c d) = lastBehavior d"
  "lastBehaviorId (append_action E i a c d) = lastBehaviorId d"
  "behaviorCount (append_action E i a c d) = behaviorCount d"
  "blinkingLightsEntries (append_action E i a c d) = blinkingLightsEntries d"
  "blinkingLightsDelay (append_action E i a c d) = blinkingLightsDelay d"
  "alarmEntries (append_action E i a c d) = alarmEntries d"
  "alarmDelay (append_action E i a c d) = alarmDelay d"
  "festEntries (append_action E i a c d) = festEntries d"
  "festDelay (append_action E i a c d) = festDelay d"
  "entertainment_msg (append_action E i a c d) = entertainment_msg d"
  "entertainment_num_lights (append_action E i a c d) = entertainment_num_lights d"
  "startBehaviorNow (append_action E i a c d) = startBehaviorNow d"
  "fest (append_action E i a c d) = fest d" "tls (append_action E i a c d) = tls d"
  "fbdo (append_action E i a c d) = fbdo d" "encoder (append_action E i a c d) = encoder d"
  "encoderCont (append_action E i a c d) = encoderCont d"
  "currentScreen (append_action E i a c d) = currentScreen d"
  "calledFromEncoder (append_action E i a c d) = calledFromEncoder d"
  "batteryVoltage (append_action E i a c d) = batteryVoltage d"
  by (simp_all add: append_action_def may_log_def millis_def emit_def Let_def)

lemma append_action_what_frame [simp]:
  "hueBridgeIP (append_action_what E i a c w d) = hueBridgeIP d"
  "hueBridgeBareIP (append_action_what E i a c w d) = hueBridgeBareIP d"
  "userId (append_action_what E i a c w d) = userId d"
  "clientKey (append_action_what E i a c w d) = clientKey d"
  "entertainmentGroup (append_action_what E i a c w d) = entertainmentGroup d"
  "groupIds (append_action_what E i a c w d) = groupIds d"
  "numGroups (append_action_what E i a c w d) = numGroups d"
  "display (append_action_what E i a c w d) = display d"
  "buttons (append_action_what E i a c w d) = buttons d"
  "buttonCount (append_action_what E i a c w d) = buttonCount d"
  "pressedButton (append_action_what E i a c w d) = pressedButton d"
  "topIndex (append_action_what E i a c w d) = topIndex d"
  "prevHeaderText (append_action_what E i a c w d) = prevHeaderText d"
  "prevPage (append_action_what E i a c w d) = prevPage d"
  "currentPageOnScreen (append_action_what E i a c w d) = currentPageOnScreen d"
  "pagePath (append_action_what E i a c w d) = pagePath d"
  "pagePageCounter (append_action_what E i a c w d) = pagePageCounter d"
  "isGoingBack (append_action_what E i a c w d) = isGoingBack d"
  "currentRoomID (append_action_what E i a c w d) = currentRoomID d"
  "currentScreenType (append_action_what E i a c w d) = currentScreenType d"
  "RGBMode (append_action_what E i a c w d) = RGBMode d"
  "currentRoom (append_action_what E i a c w d) = currentRoom d"
  "lastRoom (append_action_what E i a c w d) = lastRoom d"
  "roomsCount (append_action_what E i a c w d) = roomsCount d"
  "rooms (append_action_what E i a c w d) = rooms d"
  "roomPagination (append_action_what E i a c w d) = roomPagination d"
  "lights (append_action_what E i a c w d) = lights d"
  "lightCount (append_action_what E i a c w d) = lightCount d"
  "lightIds (append_action_what E i a c w d) = lightIds d"
  "allLightCount (append_action_what E i a c w d) = allLightCount d"
  "allLightsPagination (append_action_what E i a c w d) = allLightsPagination d"
  "currentLight (append_action_what E i a c w d) = currentLight d"
  "uiLevel (append_action_what E i a c w d) = uiLevel d"
  "entertainmentRoom (append_action_what E i a c w d) = entertainmentRoom d"
  "entertainmentLights (append_action_what E i a c w d) = entertainmentLights d"
  "behaviors (append_action_what E i a c w d) = behaviors d"
  "lastBehavior (append_action_what E i a c w d) = lastBehavior d"
  "lastBehaviorId (append_action_what E i a c w d) = lastBehaviorId d"
  "behaviorCount (append_action_what E i a c w d) = behaviorCount d"
  "blinkingLightsEntries (append_action_what E i a c w d) = blinkingLightsEntries d"
  "blinkingLightsDelay (append_action_what E i a c w d) = blinkingLightsDelay d"
  "alarmEntries (append_action_what E i a c w d) = alarmEntries d"
  "alarmDelay (append_action_what E i a c w d) = alarmDelay d"
  "festEntries (append_action_what E i a c w d) = festEntries d"
  "festDelay (append_action_what E i a c w d) = festDelay d"
  "entertainment_msg (append_action_what E i a c w d) = entertainment_msg d"
  "entertainment_num_lights (append_action_what E i a c w d) = entertainment_num_lights d"
  "startBehaviorNow (append_action_what E i a c w d) = startBehaviorNow d"
  "fest (append_action_what E i a c w d) = fest d" "tls (append_action_what E i a c w d) = tls d"
  "fbdo (append_action_what E i a c w d) = fbdo d"
  "encoder (append_action_what E i a c w d) = encoder d"
  "encoderCont (append_action_what E i a c w d) = encoderCont d"
  "currentScreen (append_action_what E i a c w d) = currentScreen d"
  "calledFromEncoder (append_action_what E i a c w d) = calledFromEncoder d"
  "batteryVoltage (append_action_what E i a c w d) = batteryVoltage d"
  by (simp_all add: append_action_what_def may_log_def millis_def emit_def Let_def)

lemma append_action_value_frame [simp]:
  "hueBridgeIP (append_action_value E i a c w v d) = hueBridgeIP d"
  "hueBridgeBareIP (append_action_value E i a c w v d) = hueBridgeBareIP d"
  "userId (append_action_value E i a c w v d) = userId d"
  "clientKey (append_action_value E i a c w v d) = clientKey d"
  "entertainmentGroup (append_action_value E i a c w v d) = entertainmentGroup d"
  "groupIds (append_action_value E i a c w v d) = groupIds d"
  "numGroups (append_action_value E i a c w v d) = numGroups d"
  "display (append_action_value E i a c w v d) = display d"
  "buttons (append_action_value E i a c w v d) = buttons d"
  "buttonCount (append_action_value E i a c w v d) = buttonCount d"
  "pressedButton (append_action_value E i a c w v d) = pressedButton d"
  "topIndex (append_action_value E i a c w v d) = topIndex d"
  "prevHeaderText (append_action_value E i a c w v d) = prevHeaderText d"
  "prevPage (append_action_value E i a c w v d) = prevPage d"
  "currentPageOnScreen (append_action_value E i a c w v d) = currentPageOnScreen d"
  "pagePath (append_action_value E i a c w v d) = pagePath d"
  "pagePageCounter (append_action_value E i a c w v d) = pagePageCounter d"
  "isGoingBack (append_action_value E i a c w v d) = isGoingBack d"
  "currentRoomID (append_action_value E i a c w v d) = currentRoomID d"
  "currentScreenType (append_action_value E i a c w v d) = currentScreenType d"
  "RGBMode (append_action_value E i a c w v d) = RGBMode d"
  "currentRoom (append_action_value E i a c w v d) = currentRoom d"
  "lastRoom (append_action_value E i a c w v d) = lastRoom d"
  "roomsCount (append_action_value E i a c w v d) = roomsCount d"
  "rooms (append_action_value E i a c w v d) = rooms d"
  "roomPagination (append_action_value E i a c w v d) = roomPagination d"
  "lights (append_action_value E i a c w v d) = lights d"
  "lightCount (append_action_value E i a c w v d) = lightCount d"
  "lightIds (append_action_value E i a c w v d) = lightIds d"
  "allLightCount (append_action_value E i a c w v d) = allLightCount d"
  "allLightsPagination (append_action_value E i a c w v d) = allLightsPagination d"
  "currentLight (append_action_value E i a c w v d) = currentLight d"
  "uiLevel (append_action_value E i a c w v d) = uiLevel d"
  "entertainmentRoom (append_action_value E i a c w v d) = entertainmentRoom d"
  "entertainmentLights (append_action_value E i a c w v d) = entertainmentLights d"
  "behaviors (append_action_value E i a c w v d) = behaviors d"
  "lastBehavior (append_action_value E i a c w v d) = lastBehavior d"
  "lastBehaviorId (append_action_value E i a c w v d) = lastBehaviorId d"
  "behaviorCount (append_action_value E i a c w v d) = behaviorCount d"
  "blinkingLightsEntries (append_action_value E i a c w v d) = blinkingLightsEntries d"
  "blinkingLightsDelay (append_action_value E i a c w v d) = blinkingLightsDelay d"
  "alarmEntries (append_action_value E i a c w v d) = alarmEntries d"
  "alarmDelay (append_action_value E i a c w v d) = alarmDelay d"
  "festEntries (append_action_value E i a c w v d) = festEntries d"
  "festDelay (append_action_value E i a c w v d) = festDelay d"
  "entertainment_msg (append_action_value E i a c w v d) = entertainment_msg d"
  "entertainment_num_lights (append_action_value E i a c w v d) = entertainment_num_lights d"
  "startBehaviorNow (append_action_value E i a c w v d) = startBehaviorNow d"
  "fest (append_action_value E i a c w v d) = fest d"
  "tls (append_action_value E i a c w v d) = tls d"
  "fbdo (append_action_value E i a c w v d) = fbdo d"
  "encoder (append_action_value E i a c w v d) = encoder d"
  "encoderCont (append_action_value E i a c w v d) = encoderCont d"
  "currentScreen (append_action_value E i a c w v d) = currentScreen d"
  "calledFromEncoder (append_action_value E i a c w v d) = calledFromEncoder d"
  "batteryVoltage (append_action_value E i a c w v d) = batteryVoltage d"
  by (simp_all add: append_action_value_def may_log_def millis_def emit_def Let_def)

subsection \<open>The rate limit\<close>

text \<open>
  Between two recorded actions the clock has moved on by more than a second, as long as the
  millisecond clock does not wrap around in between.
\<close>

lemma may_log_out: "may_log E f d = d\<lparr>out := out d @ [Millis]\<rparr> \<or>
   (\<exists>now now'. now = env_clock E (out d @ [Millis]) \<and> now' = env_clock E (out d @ [Millis, Millis]) \<and>
      now > timeSinceLastLog d + 1000 \<and>
      may_log E f d = f (d\<lparr>out := out d @ [Millis, Millis], timeSinceLastLog := now'\<rparr>))"
  by (simp add: may_log_def millis_def emit_def Let_def)

end
