(* ===== verification/Hue.thy ===== *)
theory Hue
  imports Firebase
begin

section \<open>The bridge client (\<^verbatim>\<open>hue.cpp\<close>)\<close>

text \<open>
  Every method of class \<open>Hue\<close>: the URLs and bodies of its requests, and what it makes of the
  answers. A method that returns the answer's body returns it here as well. \<open>_checkStatus\<close>
  only writes to the log.
\<close>

subsection \<open>Endpoints\<close>

definition api_base :: "dev \<Rightarrow> string" where
  "api_base d = hueBridgeIP d @ ''/api/'' @ userId d"

definition lightEndpoint :: "dev \<Rightarrow> u8 \<Rightarrow> string" where
  "lightEndpoint d i = api_base d @ ''/lights/'' @ String_uint (unat i)"

definition lightStateEndpoint :: "dev \<Rightarrow> u8 \<Rightarrow> string" where
  "lightStateEndpoint d i = api_base d @ ''/lights/'' @ String_uint (unat i) @ ''/state''"

definition groupEndpoint :: "dev \<Rightarrow> u8 \<Rightarrow> string" where
  "groupEndpoint d i = api_base d @ ''/groups/'' @ String_uint (unat i)"

definition groupActionEndpoint :: "dev \<Rightarrow> u8 \<Rightarrow> string" where
  "groupActionEndpoint d i = api_base d @ ''/groups/'' @ String_uint (unat i) @ ''/action''"

subsection \<open>Requests\<close>

definition LIGHT_ON :: string where "LIGHT_ON = ''{\"on\":true}''"
definition LIGHT_OFF :: string where "LIGHT_OFF = ''{\"on\":false}''"
definition COLOR_LOOP_ON :: string where
  "COLOR_LOOP_ON = ''{\"transitiontime\":0, \"effect\":\"colorloop\"}''"
definition COLOR_LOOP_OFF :: string where
  "COLOR_LOOP_OFF = ''{\"transitiontime\":0, \"effect\":\"none\"}''"

lemmas light_bodies = LIGHT_ON_def LIGHT_OFF_def COLOR_LOOP_ON_def COLOR_LOOP_OFF_def

definition put_request :: "env \<Rightarrow> string \<Rightarrow> string \<Rightarrow> dev \<Rightarrow> string \<times> dev" where
  "put_request E url body d = (case http_request E PUT url body d of (st, answer, d) \<Rightarrow> (answer, d))"

definition get_request :: "env \<Rightarrow> string \<Rightarrow> dev \<Rightarrow> string \<times> dev" where
  "get_request E url d = (case http_request E GET url '''' d of (st, answer, d) \<Rightarrow> (answer, d))"

definition lightOn :: "env \<Rightarrow> u8 \<Rightarrow> dev \<Rightarrow> string \<times> dev" where
  "lightOn E i d = put_request E (lightStateEndpoint d i) LIGHT_ON d"

definition lightOff :: "env \<Rightarrow> u8 \<Rightarrow> dev \<Rightarrow> string \<times> dev" where
  "lightOff E i d = put_request E (lightStateEndpoint d i) LIGHT_OFF d"

definition groupOn :: "env \<Rightarrow> u8 \<Rightarrow> dev \<Rightarrow> string \<times> dev" where
  "groupOn E i d = put_request E (groupActionEndpoint d i) LIGHT_ON d"

definition groupOff :: "env \<Rightarrow> u8 \<Rightarrow> dev \<Rightarrow> string \<times> dev" where
  "groupOff E i d = put_request E (groupActionEndpoint d i) LIGHT_OFF d"

definition brightness_body :: "nat \<Rightarrow> u8 \<Rightarrow> string" where
  "brightness_body t v =
     ''{\"transitiontime\":'' @ String_uint t @ '', \"bri\":'' @ String_uint (unat v) @ ''}''"

definition hue_body :: "u16 \<Rightarrow> string" where
  "hue_body v = ''{\"transitiontime\":0, \"hue\":'' @ String_uint (unat v) @ ''}''"

definition sat_body :: "u8 \<Rightarrow> string" where
  "sat_body v = ''{\"transitiontime\":0, \"sat\":'' @ String_uint (unat v) @ ''}''"

definition ct_body :: "u16 \<Rightarrow> string" where
  "ct_body v = ''{\"transitiontime\":0, \"ct\":'' @ String_uint (unat v) @ ''}''"

definition alert_body :: "string \<Rightarrow> string" where
  "alert_body s = ''{\"transitiontime\":0, \"alert\":\"'' @ s @ ''\"}''"

definition hue_brightness :: "env \<Rightarrow> u8 \<Rightarrow> u8 \<Rightarrow> dev \<Rightarrow> string \<times> dev" where
  "hue_brightness E i v d = put_request E (lightStateEndpoint d i) (brightness_body 1 v) d"

definition hue_hue :: "env \<Rightarrow> u8 \<Rightarrow> u16 \<Rightarrow> dev \<Rightarrow> string \<times> dev" where
  "hue_hue E i v d = put_request E (lightStateEndpoint d i) (hue_body v) d"

definition hue_sat :: "env \<Rightarrow> u8 \<Rightarrow> u8 \<Rightarrow> dev \<Rightarrow> string \<times> dev" where
  "hue_sat E i v d = put_request E (lightStateEndpoint d i) (sat_body v) d"

definition ct_of_temp :: "u16 \<Rightarrow> u16" where
  "ct_of_temp temp = word_of_int (map_arduino (uint temp) 2000 6500 153 500)"

definition out_of_range_text :: string where
  "out_of_range_text = ''Temperature out of range, 2000K-6500K only!''"

definition colorTemp :: "env \<Rightarrow> u8 \<Rightarrow> u16 \<Rightarrow> dev \<Rightarrow> string \<times> dev" where
  "colorTemp E i temp d =
     (let v = ct_of_temp temp
      in if v > 500 \<or> v < 153 then (out_of_range_text, d)
         else put_request E (lightStateEndpoint d i) (ct_body v) d)"

definition colorLoop :: "env \<Rightarrow> u8 \<Rightarrow> bool \<Rightarrow> dev \<Rightarrow> string \<times> dev" where
  "colorLoop E i enable d =
     put_request E (lightStateEndpoint d i) (if enable then COLOR_LOOP_ON else COLOR_LOOP_OFF) d"

definition hue_alert :: "env \<Rightarrow> u8 \<Rightarrow> string \<Rightarrow> dev \<Rightarrow> string \<times> dev" where
  "hue_alert E i s d = put_request E (lightStateEndpoint d i) (alert_body s) d"

definition flash :: "env \<Rightarrow> u8 \<Rightarrow> dev \<Rightarrow> string \<times> dev" where
  "flash E i d = (case put_request E (lightStateEndpoint d i) (alert_body ''select'') d of
     (answer, d) \<Rightarrow> (answer, delay_ms 800 d))"

definition groupBrightness :: "env \<Rightarrow> u8 \<Rightarrow> u8 \<Rightarrow> dev \<Rightarrow> string \<times> dev" where
  "groupBrightness E i v d = put_request E (groupActionEndpoint d i) (brightness_body 0 v) d"

definition groupHue :: "env \<Rightarrow> u8 \<Rightarrow> u16 \<Rightarrow> dev \<Rightarrow> string \<times> dev" where
  "groupHue E i v d = put_request E (groupActionEndpoint d i) (hue_body v) d"

definition groupSat :: "env \<Rightarrow> u8 \<Rightarrow> u8 \<Rightarrow> dev \<Rightarrow> string \<times> dev" where
  "groupSat E i v d = put_request E (groupActionEndpoint d i) (sat_body v) d"

definition groupColorLoop :: "env \<Rightarrow> u8 \<Rightarrow> bool \<Rightarrow> dev \<Rightarrow> string \<times> dev" where
  "groupColorLoop E i enable d =
     put_request E (groupActionEndpoint d i) (if enable then COLOR_LOOP_ON else COLOR_LOOP_OFF) d"

definition groupAlert :: "env \<Rightarrow> u8 \<Rightarrow> string \<Rightarrow> dev \<Rightarrow> string \<times> dev" where
  "groupAlert E i s d = put_request E (groupActionEndpoint d i) (alert_body s) d"

definition groupFlash :: "env \<Rightarrow> u8 \<Rightarrow> dev \<Rightarrow> string \<times> dev" where
  "groupFlash E i d = (case put_request E (groupActionEndpoint d i) (alert_body ''select'') d of
     (answer, d) \<Rightarrow> (answer, delay_ms 800 d))"

definition groupColorTemp :: "env \<Rightarrow> u8 \<Rightarrow> u16 \<Rightarrow> dev \<Rightarrow> string \<times> dev" where
  "groupColorTemp E i temp d =
     (let v = ct_of_temp temp
      in if v > 500 \<or> v < 153 then (out_of_range_text, d)
         else put_request E (groupActionEndpoint d i) (ct_body v) d)"

definition startStreaming :: "env \<Rightarrow> u8 \<Rightarrow> dev \<Rightarrow> bool \<times> dev" where
  "startStreaming E i d =
     (case put_request E (groupEndpoint d i) ''{\"stream\":{\"active\":true}}'' d of
        (answer, d) \<Rightarrow> (True, d))"

subsection \<open>Reading lights and groups\<close>

definition getLights :: "env \<Rightarrow> dev \<Rightarrow> string \<times> dev" where
  "getLights E d = get_request E (api_base d @ ''/lights'') d"

definition getGroups_raw :: "env \<Rightarrow> dev \<Rightarrow> string \<times> dev" where
  "getGroups_raw E d = get_request E (api_base d @ ''/groups'') d"

definition getGroup_raw :: "env \<Rightarrow> u8 \<Rightarrow> dev \<Rightarrow> string \<times> dev" where
  "getGroup_raw E i d = get_request E (groupEndpoint d i) d"

definition parse_doc :: "env \<Rightarrow> string \<Rightarrow> json" where
  "parse_doc E s = deserialize (env_lib E) 14000 s"

text \<open>A local \<open>Light\<close> or \<open>Room\<close>: its strings are empty, its numbers are whatever is on the
  stack.\<close>

definition fresh_light :: "env \<Rightarrow> light" where
  "fresh_light E = (junk_light E)\<lparr>lname := '''', leffect := '''', lalert := '''', colormode := ''''\<rparr>"

definition fresh_room :: "env \<Rightarrow> room" where
  "fresh_room E = (junk_room E)\<lparr>rname := ''''\<rparr>"

definition id_of_key :: "string \<Rightarrow> u8" where
  "id_of_key k = word_of_int (strtol k 0)"

definition light_of_member :: "env \<Rightarrow> string \<times> json \<Rightarrow> light" where
  "light_of_member E m = (fresh_light E)\<lparr>
     lkey := fst m, lid := id_of_key (fst m),
     lname := as_string (env_lib E) (member (snd m) ''name''),
     lon := as_bool (member (member (snd m) ''state'') ''on''),
     brightness := as_i16 (env_lib E) (member (member (snd m) ''state'') ''bri'')\<rparr>"

definition room_of_member :: "env \<Rightarrow> string \<times> json \<Rightarrow> room" where
  "room_of_member E m =
     (let ids = as_array (member (snd m) ''lights'')
      in (fresh_room E)\<lparr>
        rkey := fst m, rid := id_of_key (fst m),
        rname := as_string (env_lib E) (member (snd m) ''name''),
        ron := (if as_bool (member (member (snd m) ''action'') ''on'') then 1 else 0),
        bri := as_i16 (env_lib E) (member (member (snd m) ''action'') ''bri''),
        rlightIds := copyArray (env_lib E) ids (rlightIds (fresh_room E)),
        rlightCounter := of_nat (length ids)\<rparr>)"

text \<open>The loops \<open>lights[i] = light; i++\<close> and \<open>rooms[i] = room; i++\<close>.\<close>

fun store_members :: "('m \<Rightarrow> 'a) \<Rightarrow> nat \<Rightarrow> 'm list \<Rightarrow> 'a list \<Rightarrow> 'a list res" where
  "store_members f i [] xs = Inr xs"
| "store_members f i (m # ms) xs = andThen (wr xs (int i) (f m)) (store_members f (Suc i) ms)"

definition getLightIds :: "env \<Rightarrow> dev \<Rightarrow> dev res" where
  "getLightIds E d =
     (case getLights E d of (answer, d) \<Rightarrow>
        let root = as_object (parse_doc E answer)
        in andThen (store_members (light_of_member E) 0 root (lightIds d))
             (\<lambda>ls. let n = of_nat (length root) :: u8
                   in Inr (d\<lparr>lightIds := ls, allLightCount := n, allLightsPagination := n > 4\<rparr>)))"

definition getGroups :: "env \<Rightarrow> dev \<Rightarrow> dev res" where
  "getGroups E d =
     (case getGroups_raw E d of (answer, d) \<Rightarrow>
        let root = as_object (parse_doc E answer)
        in andThen (store_members (room_of_member E) 0 root (rooms d))
             (\<lambda>rs. let n = of_nat (length root) - 1 :: u8
                   in Inr (d\<lparr>rooms := rs, roomsCount := n, roomPagination := n > 4\<rparr>)))"

definition getGroup :: "env \<Rightarrow> u8 \<Rightarrow> room \<Rightarrow> dev \<Rightarrow> room \<times> dev" where
  "getGroup E i rm d =
     (case getGroup_raw E i d of (answer, d) \<Rightarrow>
        let root = parse_doc E answer; ids = as_array (member root ''lights'')
        in (rm\<lparr>rid := i, rname := as_string (env_lib E) (member root ''name''),
               ron := (if as_bool (member (member root ''action'') ''on'') then 1 else 0),
               rlightIds := copyArray (env_lib E) ids (rlightIds rm),
               rlightCounter := of_nat (length ids)\<rparr>, d))"

definition light_of_answer :: "env \<Rightarrow> u8 \<Rightarrow> json \<Rightarrow> light" where
  "light_of_answer E i j =
     (let st = member j ''state''; L = env_lib E;
          l = (fresh_light E)\<lparr>lid := i, lname := as_string L (member j ''name''),
                lon := as_bool (member st ''on''),
                brightness := uint (as_u8 L (member st ''bri'')),
                lalert := as_string L (member st ''alert'')\<rparr>
      in if as_string L (member j ''productname'') = ''Hue white lamp''
         then l\<lparr>onlyDimmable := True\<rparr>
         else l\<lparr>lhue := as_u8 L (member st ''hue''), lsat := as_u8 L (member st ''sat''),
                leffect := as_string L (member st ''effect''),
                lxy := (as_u8 L (element (member st ''xy'') 0), as_u8 L (element (member st ''xy'') 1)),
                lct := as_u8 L (member st ''ct''),
                colormode := as_string L (member st ''colormode''),
                onlyDimmable := False\<rparr>)"

definition getLightState :: "env \<Rightarrow> u8 list \<Rightarrow> nat \<Rightarrow> light list \<times> dev \<Rightarrow> (light list \<times> dev) res" where
  "getLightState E ids i s = (case s of (ls, d) \<Rightarrow>
     andThen (rd ids (int i)) (\<lambda>n.
       case get_request E (lightEndpoint d n) d of (answer, d) \<Rightarrow>
         andThen (wr ls (int i) (light_of_answer E n (parse_doc E answer))) (\<lambda>ls. Inr (ls, d))))"

definition getLightStates :: "env \<Rightarrow> light list \<Rightarrow> u8 list \<Rightarrow> u8 \<Rightarrow> dev \<Rightarrow> (light list \<times> dev) res" where
  "getLightStates E ls ids n d = forr [0..<unat n] (getLightState E ids) (ls, d)"

subsection \<open>All groups at once\<close>

definition all_groups :: "env \<Rightarrow> (env \<Rightarrow> u8 \<Rightarrow> dev \<Rightarrow> string \<times> dev) \<Rightarrow> dev \<Rightarrow> dev res" where
  "all_groups E f = seqr
     [ok (\<lambda>d. snd (getGroups_raw E d)), ok (delay_ms 1000),
      \<lambda>d. forr [0..<unat (numGroups d)]
        (\<lambda>i d. andThen (rd (groupIds d) (int i))
           (\<lambda>s. Inr (delay_ms 1000 (snd (f E (word_of_int (atol s)) d))))) d]"

definition turnAllLightsOff :: "env \<Rightarrow> dev \<Rightarrow> dev res" where
  "turnAllLightsOff E = all_groups E groupOff"

definition turnAllLightsOn :: "env \<Rightarrow> dev \<Rightarrow> dev res" where
  "turnAllLightsOn E = all_groups E groupOn"

subsection \<open>Discovery and registration\<close>

definition discoverBridges :: "env \<Rightarrow> dev \<Rightarrow> string \<times> dev" where
  "discoverBridges E d =
     (let d = emit MdnsQuery d
      in case env_mdns E (out d) of
           None \<Rightarrow> ('''', d)
         | Some a \<Rightarrow> (''https://'' @ mdns_ip a @ '':'' @ String_uint (mdns_port a),
                      d\<lparr>hueBridgeBareIP := mdns_ip a\<rparr>))"

definition hue_begin :: "env \<Rightarrow> dev \<Rightarrow> dev" where
  "hue_begin E d = (case discoverBridges E d of (s, d) \<Rightarrow> d\<lparr>hueBridgeIP := s\<rparr>)"

definition register_body :: "string \<Rightarrow> string" where
  "register_body username = ''{\"devicetype\":\"'' @ username @ ''\",\"generateclientkey\":true'' @ ''}''"

definition registerApp :: "env \<Rightarrow> string \<Rightarrow> string \<Rightarrow> dev \<Rightarrow> dev" where
  "registerApp E username bridgePath d =
     (case http_request E POST (bridgePath @ ''/api'') (register_body username) d of
        (status, payload, d) \<Rightarrow>
          if status > 0 then
            (let s = member (element (deserialize (env_lib E) 200 payload) 0) ''success''
             in d\<lparr>userId := as_string (env_lib E) (member s ''username''),
                  clientKey := as_string (env_lib E) (member s ''clientkey'')\<rparr>)
          else d)"

definition getNewIds :: "env \<Rightarrow> dev \<Rightarrow> dev res" where
  "getNewIds E d = andThen (getUserId E d) (\<lambda>(u, d). case u of
     Some s \<Rightarrow> andThen (getClientKey E (d\<lparr>userId := s\<rparr>))
       (\<lambda>(k, d). Inr (case k of Some s \<Rightarrow> d\<lparr>clientKey := s\<rparr> | None \<Rightarrow> d))
   | None \<Rightarrow>
       (let d = registerApp E ''Simon'' (hueBridgeIP d) d
        in andThen (setUserId E (userId d) d)
             (\<lambda>(_, d). andThen (setClientKey E (clientKey d) d) (\<lambda>(_, d). Inr d))))"

fun entertainment_lights_body :: "light list \<Rightarrow> string" where
  "entertainment_lights_body [] = ''''"
| "entertainment_lights_body [l] = ''\"'' @ String_uint (unat (lid l)) @ ''\"''"
| "entertainment_lights_body (l # ls) =
     ''\"'' @ String_uint (unat (lid l)) @ ''\"'' @ '','' @ entertainment_lights_body ls"

definition createEntertainmentGroupWithAllLights :: "env \<Rightarrow> dev \<Rightarrow> (bool \<times> dev) res" where
  "createEntertainmentGroupWithAllLights E d = andThen (getEntertainmentGroupId E d) (\<lambda>(i, d).
     case i of Some n \<Rightarrow> Inr (True, d\<lparr>entertainmentGroup := word_of_int n\<rparr>)
     | None \<Rightarrow>
       (let endpoint = api_base d @ ''/groups/''
        in andThen (getLightIds E d) (\<lambda>d.
             let body = ''{\"type\": \"Entertainment\", \"lights\":['' @
                   entertainment_lights_body (take (unat (allLightCount d)) (lightIds d)) @
                   ''], \"class\": \"TV\"}''
             in case http_request E POST endpoint body d of (status, payload, d) \<Rightarrow>
                  if status > 0 then
                    (let s = member (element (deserialize (env_lib E) 200 payload) 0) ''success'';
                         g = as_u8 (env_lib E) (member s ''id'')
                     in andThen (setEntertainmentGroupId E (uint g) (d\<lparr>entertainmentGroup := g\<rparr>))
                          (\<lambda>(_, d). Inr (True, d)))
                  else Inr (False, d))))"

end
