(* ===== verification/Worlds.thy ===== *)
theory Worlds
  imports Device
begin

section \<open>Concrete outside worlds\<close>

text \<open>
  \<open>quiet\<close> is a world in which no server answers: requests fail, the clock stands at zero, the WiFi is
  connected, the pins read as released, TLS calls succeed and a write takes the rest of the message. The examples of the development run in it, or in a variant.
\<close>

definition quiet_tls :: "event list \<Rightarrow> int" where
  "quiet_tls es = (case last es of Tls (SslWrite k n) \<Rightarrow> int (n - k) | _ \<Rightarrow> 0)"

definition quiet :: env where
  "quiet = \<lparr>junk_factors = (\<lambda>b i. NotANumber), env_http = (\<lambda>es. (- 1, '''')), env_clock = (\<lambda>es. 0), env_wifi = (\<lambda>es. True),
     env_mdns = (\<lambda>es. None), env_fb_ready = (\<lambda>es. Some 0), env_fb_now = (\<lambda>es. False),
     env_fb_get = (\<lambda>es. None), env_fb_set = (\<lambda>es. True), env_fb_date = (\<lambda>es. Some ''now''),
     env_tls = quiet_tls, env_handshake = (\<lambda>es. Some 0), env_patience = 2, env_adc = (\<lambda>es. 0),
     env_pin = (\<lambda>es. True), env_rand = (\<lambda>es. 0), junk_light = no_light, junk_room = no_room,
     junk_behavior = no_behavior, junk_button = no_button\<rparr>"

end
