(* ===== verification/Http_Bridge.thy ===== *)
theory Http_Bridge
  imports Http_Failures Hue Worlds
begin

section \<open>The bridge client on top of the HTTP client\<close>

text \<open>
  The device model takes the answers to its requests from the environment, as a function of what it has
  sent so far. Here the environment is the HTTP client itself, run on the requests in the history, over one
  connection to a bridge. \<open>wired\<close> is that function; after a fault of the client there are no answers.
\<close>

fun method_name :: "http_method \<Rightarrow> string" where
  "method_name GET = ''GET''"
| "method_name PUT = ''PUT''"
| "method_name POST = ''POST''"

fun http_requests :: "event list \<Rightarrow> (string \<times> string \<times> string) list" where
  "http_requests [] = []"
| "http_requests (Http m url body # es) = (method_name m, url, body) # http_requests es"
| "http_requests (e # es) = http_requests es"

fun replies :: "(string \<times> string \<times> string) list \<Rightarrow> http \<Rightarrow> ((int \<times> string) list \<times> http) res" where
  "replies [] h = Inr ([], h)"
| "replies ((type, url, body) # qs) h =
     andThen (exchange type url body h) (\<lambda>(status, answer, h).
     andThen (replies qs h) (\<lambda>(as, h). Inr ((status, answer) # as, h)))"

definition wired :: "http \<Rightarrow> event list \<Rightarrow> int \<times> string" where
  "wired h es =
     (case replies (http_requests es) h of
        Inr (as, _) \<Rightarrow> if as = [] then (HTTPC_ERROR_CONNECTION_REFUSED, '''') else last as
      | Inl _ \<Rightarrow> (HTTPC_ERROR_CONNECTION_REFUSED, ''''))"

text \<open>A bridge that answers the requests \<open>rs\<close>, and the client that is going to talk to it.\<close>

definition bridge_client :: "nat \<Rightarrow> round list \<Rightarrow> http" where
  "bridge_client m rs = http_new m [Some \<lparr>on_polls = session_script rs, on_writes = []\<rparr>]"

definition round_request :: "string \<Rightarrow> nat \<Rightarrow> round \<Rightarrow> string \<times> string \<times> string" where
  "round_request ip p r = (r_type r, bridge_url ip p (r_path r), r_payload r)"

lemma http_requests_append: "http_requests (es @ fs) = http_requests es @ http_requests fs"
  by (induction es rule: http_requests.induct) auto

lemma replies_rounds: "replies (map (round_request ip p) rs) h = exchanges ip p rs h"
  by (induction rs arbitrary: h) (simp_all add: round_request_def)

lemma replies_session:
  assumes "http_requests es = map (round_request ip p) rs" "rs \<noteq> []" "list_all (good_round ip p m) rs"
  shows "\<exists>h. replies (http_requests es) (bridge_client m rs) = Inr (map (\<lambda>r. (int (r_code r), r_body r)) rs, h) \<and>
    wire (net h) = Dial ip p # concat (map (round_wire ip p) rs)"
  using new_session [OF assms(3,2)] assms(1) by (simp add: bridge_client_def replies_rounds)

lemma requests_on_the_wire:
  assumes "http_requests (out d) = map (round_request ip p) rs" "list_all (good_round ip p m) (rs @ [r])"
    "env_http E = wired (bridge_client m (rs @ [r]))"
    "round_request ip p r = (method_name method, url, body)"
  shows "\<exists>d'. http_request E method url body d = (int (r_code r), r_body r, d') \<and>
    (\<exists>as h. replies (http_requests (out d')) (bridge_client m (rs @ [r])) = Inr (as, h) \<and>
       wire (net h) = Dial ip p # concat (map (round_wire ip p) rs) @ sending (method_name method) ip p (r_path r) body)"
proof -
  let ?d = "emit (Http method url body) d"
  have q: "http_requests (out ?d) = map (round_request ip p) (rs @ [r])"
    using assms(1,4) by (simp add: http_requests_append)
  obtain h where h: "replies (http_requests (out ?d)) (bridge_client m (rs @ [r])) =
      Inr (map (\<lambda>r. (int (r_code r), r_body r)) (rs @ [r]), h)"
    "wire (net h) = Dial ip p # concat (map (round_wire ip p) (rs @ [r]))"
    using replies_session [OF q _ assms(2)] by auto
  have w: "env_http E (out ?d) = (int (r_code r), r_body r)" using assms(3) h(1) by (simp add: wired_def)
  have "round_wire ip p r = sending (method_name method) ip p (r_path r) body"
    using assms(4) by (simp add: round_request_def round_wire_def)
  with h w show ?thesis
    by (intro exI [of _ ?d]) (simp add: http_request_def)
qed

text \<open>
  C6: Switching a lamp on, down to the wire: with the HTTP client as the environment that answers the device's requests, over a connection on which all earlier requests were
  answered, lightOn returns the body the bridge sent, and the bytes that leave the device for it are the PUT request for the lamp's state with the body that switches it on.
\<close>

theorem light_on_the_wire:
  assumes "http_requests (out d) = map (round_request ip p) rs" "list_all (good_round ip p m) (rs @ [r])"
    "env_http E = wired (bridge_client m (rs @ [r]))"
    "hueBridgeIP d = ''https://'' @ ip @ '':'' @ String_uint p"
    "r_type r = ''PUT''" "r_path r = ''/api/'' @ userId d @ ''/lights/'' @ String_uint (unat i) @ ''/state''"
    "r_payload r = LIGHT_ON"
  shows "\<exists>d'. lightOn E i d = (r_body r, d') \<and>
    (\<exists>as h. replies (http_requests (out d')) (bridge_client m (rs @ [r])) = Inr (as, h) \<and>
       wire (net h) = Dial ip p # concat (map (round_wire ip p) rs) @
         [Sent (request_text ''PUT'' ip p (r_path r) LIGHT_ON), Sent LIGHT_ON])"
proof -
  have "round_request ip p r = (method_name PUT, lightStateEndpoint d i, LIGHT_ON)"
    using assms(4-7) by (simp add: round_request_def bridge_url_def lightStateEndpoint_def api_base_def)
  then obtain d' where "http_request E PUT (lightStateEndpoint d i) LIGHT_ON d = (int (r_code r), r_body r, d')"
    "\<exists>as h. replies (http_requests (out d')) (bridge_client m (rs @ [r])) = Inr (as, h) \<and>
       wire (net h) = Dial ip p # concat (map (round_wire ip p) rs) @ sending (method_name PUT) ip p (r_path r) LIGHT_ON"
    using requests_on_the_wire [OF assms(1-3)] by blast
  then show ?thesis
    by (intro exI [of _ d']) (simp add: lightOn_def put_request_def sending_def LIGHT_ON_def)
qed

theorem light_on_the_wire_witness:
  "\<exists>d'. lightOn (quiet\<lparr>env_http := wired (bridge_client 1000 ([] @ [sample_round]))\<rparr>) 3
      (boot_state\<lparr>hueBridgeIP := ''https://'' @ ''10.0.0.2'' @ '':'' @ String_uint 443, userId := ''u''\<rparr>) = (''[]'', d') \<and>
    (\<exists>as h. replies (http_requests (out d')) (bridge_client 1000 ([] @ [sample_round])) = Inr (as, h) \<and>
       wire (net h) = [Dial ''10.0.0.2'' 443,
         Sent (request_text ''PUT'' ''10.0.0.2'' 443 ''/api/u/lights/3/state'' LIGHT_ON), Sent LIGHT_ON])"
proof -
  let ?d = "boot_state\<lparr>hueBridgeIP := ''https://'' @ ''10.0.0.2'' @ '':'' @ String_uint 443, userId := ''u''\<rparr>"
  let ?E = "quiet\<lparr>env_http := wired (bridge_client 1000 ([] @ [sample_round]))\<rparr>"
  have 1: "http_requests (out ?d) = map (round_request ''10.0.0.2'' 443) []" by (simp add: boot_state_def)
  have 2: "list_all (good_round ''10.0.0.2'' 443 1000) ([] @ [sample_round])" using sample_good by simp
  have three: "String_uint (unat (3 :: u8)) = ''3''" by code_simp
  show ?thesis
    using light_on_the_wire [OF 1 2, of ?E 3] three by (simp add: sample_round_def LIGHT_ON_def)
qed

end
