(* ===== verification/Tls_Setup.thy ===== *)
theory Tls_Setup
  imports Tls_Client
begin

section \<open>Setting up the encrypted connection (\<^verbatim>\<open>ssl_client.cpp\<close>)\<close>

text \<open>
  How \<open>WiFiClientSecure\<close> connects: \<open>start_ssl_client\<close>, \<open>stop_ssl_socket\<close>, and the checks of a certificate
  against a fingerprint or a name. Tls_Client takes the outcome of a connection from its script; here it is
  computed from what the calls of lwIP and of mbedtls return. The record \<open>tls_lib\<close> says what every call
  returns, after the calls before it, and what the millisecond clock shows; \<open>calls\<close> is the trace.
  Log output is left out; the call for the record expansion is kept, because its result can be returned.
\<close>

subsection \<open>Calls and state\<close>

datatype setup_call =
    OpenSocket | HostByName string | TcpConnect nat | SetRecvTimeout int | SetSendTimeout int
  | SetNoDelay | SetKeepAlive | NonBlocking
  | EntropyInit | DrbgSeed | ConfigDefaults
  | CaInit | ConfAuthRequired | CaParse string | ConfCaChain | ConfPsk "u8 list" string | ConfAuthNone
  | CertInit | KeyInit | CertParse string | KeyParse string | ConfOwnCert
  | SetHostname string | ConfRng | SslSetup | SetBio | Handshake | WaitTick | RecordExpansion | VerifyResult
  | CaFree | CertFree | KeyFree | CloseSocket int | SslFree | ConfigFree | DrbgFree | EntropyFree
  | SslInit | ConfigInit | DrbgInit

record tls_lib =
  result :: "setup_call list \<Rightarrow> int"
  millis :: "setup_call list \<Rightarrow> nat"

record secure =
  socket :: int
  handshake_timeout :: u32
  is_connected :: bool
  lastError :: int
  timeout :: int
  ca_cert :: "string option"
  own_cert :: "string option"
  private_key :: "string option"
  psk_ident :: "string option"
  psk_key :: "string option"
  calls :: "setup_call list"

definition call :: "setup_call \<Rightarrow> secure \<Rightarrow> secure" where
  "call c s = s\<lparr>calls := calls s @ [c]\<rparr>"

definition ask :: "tls_lib \<Rightarrow> setup_call \<Rightarrow> secure \<Rightarrow> int \<times> secure" where
  "ask L c s = (result L (calls s @ [c]), call c s)"

text \<open>A call whose failure ends the set-up with its result.\<close>

type_synonym establish = "secure \<Rightarrow> (int \<times> secure) res"

definition step :: "tls_lib \<Rightarrow> (int \<Rightarrow> bool) \<Rightarrow> setup_call \<Rightarrow> establish \<Rightarrow> establish" where
  "step L bad c k s = (case ask L c s of (ret, s) \<Rightarrow> if bad ret then Inr (ret, s) else k s)"

definition secure_new :: secure where
  "secure_new = \<lparr>socket = - 1, handshake_timeout = 120000, is_connected = False, lastError = 0, timeout = 0,
     ca_cert = None, own_cert = None, private_key = None, psk_ident = None, psk_key = None,
     calls = [SslInit, ConfigInit, DrbgInit]\<rparr>"


definition setPreSharedKey :: "string option \<Rightarrow> string option \<Rightarrow> secure \<Rightarrow> secure" where
  "setPreSharedKey i k s = s\<lparr>psk_ident := i, psk_key := k\<rparr>"

definition setHandshakeTimeout :: "u32 \<Rightarrow> secure \<Rightarrow> secure" where
  "setHandshakeTimeout t s = s\<lparr>handshake_timeout := t * 1000\<rparr>"

subsection \<open>The pre-shared key\<close>

definition MBEDTLS_PSK_MAX_LEN :: nat where "MBEDTLS_PSK_MAX_LEN = 32"

definition psk_nibble :: "char \<Rightarrow> u8 option" where
  "psk_nibble c =
     (let v = of_char c :: u8
      in if 48 \<le> v \<and> v \<le> 57 then Some (v - 48)
         else if 65 \<le> v \<and> v \<le> 70 then Some (v - (65 - 10))
         else if 97 \<le> v \<and> v \<le> 102 then Some (v - (97 - 10))
         else None)"

fun psk_bytes :: "string \<Rightarrow> u8 list option" where
  "psk_bytes [] = Some []"
| "psk_bytes [c] = None"
| "psk_bytes (c # d # cs) =
     (case psk_nibble c of
        None \<Rightarrow> None
      | Some h \<Rightarrow> (case psk_nibble d of
          None \<Rightarrow> None
        | Some l \<Rightarrow> (case psk_bytes cs of None \<Rightarrow> None | Some bs \<Rightarrow> Some ((push_bit 4 h OR l) # bs))))"

subsection \<open>\<open>start_ssl_client\<close>\<close>

text \<open>The values of \<^verbatim>\<open>mbedtls/ssl.h\<close> for a call that would block.\<close>

definition WANT_READ :: int where "WANT_READ = - 0x6900"
definition WANT_WRITE :: int where "WANT_WRITE = - 0x6880"

definition stop_ssl_socket :: "secure \<Rightarrow> secure" where
  "stop_ssl_socket s =
     (let s = (if socket s \<ge> 0 then (call (CloseSocket (socket s)) s)\<lparr>socket := - 1\<rparr> else s)
      in call EntropyFree (call DrbgFree (call ConfigFree (call SslFree s))))"

text \<open>The socket: opened, resolved, connected, with its options.\<close>

definition open_socket :: "tls_lib \<Rightarrow> string \<Rightarrow> nat \<Rightarrow> int \<Rightarrow> establish \<Rightarrow> establish" where
  "open_socket L host port tmo k s =
     (case ask L OpenSocket s of (sock, s) \<Rightarrow>
        let s = s\<lparr>socket := sock\<rparr>
        in if sock < 0 then Inr (sock, s)
           else (case ask L (HostByName host) s of (found, s) \<Rightarrow>
             if found = 0 then Inr (- 1, s)
             else (case ask L (TcpConnect port) s of (ret, s) \<Rightarrow>
               if ret \<noteq> 0 then Inr (- 1, s)
               else let t = (if tmo \<le> 0 then 30000 else tmo)
                 in k (call NonBlocking (call SetKeepAlive (call SetNoDelay (call (SetSendTimeout t) (call (SetRecvTimeout t) s))))))))"

definition credentials :: "tls_lib \<Rightarrow> string option \<Rightarrow> string option \<Rightarrow> string option \<Rightarrow> establish \<Rightarrow> establish" where
  "credentials L ca pskIdent psKey k s =
     (case ca of
        Some pem \<Rightarrow>
          (case ask L (CaParse pem) (call ConfAuthRequired (call CaInit s)) of (ret, s) \<Rightarrow>
             let s = call ConfCaChain s in if ret < 0 then Inr (ret, s) else k s)
      | None \<Rightarrow>
          (case (pskIdent, psKey) of
             (Some ident, Some key) \<Rightarrow>
               if odd (length key) \<or> length key > 2 * MBEDTLS_PSK_MAX_LEN then Inr (- 1, s)
               else (case psk_bytes key of
                 None \<Rightarrow> Inr (- 1, s)
               | Some psk \<Rightarrow> step L (\<lambda>r. r \<noteq> 0) (ConfPsk psk ident) k s)
           | _ \<Rightarrow> k (call ConfAuthNone s)))"

definition client_certificate :: "tls_lib \<Rightarrow> string option \<Rightarrow> string option \<Rightarrow> establish \<Rightarrow> establish" where
  "client_certificate L cert key k s =
     (case (cert, key) of
        (Some c, Some p) \<Rightarrow>
          step L (\<lambda>r. r < 0) (CertParse c)
            (step L (\<lambda>r. r \<noteq> 0) (KeyParse p) (\<lambda>s. k (call ConfOwnCert s))) (call KeyInit (call CertInit s))
      | _ \<Rightarrow> k s)"

text \<open>The handshake is repeated while it would block, until the time limit; \<open>fuel\<close> bounds the rounds that are followed.\<close>

fun handshake_rounds :: "tls_lib \<Rightarrow> nat \<Rightarrow> nat \<Rightarrow> establish \<Rightarrow> establish" where
  "handshake_rounds L 0 start k s = Inl Hang"
| "handshake_rounds L (Suc fuel) start k s =
     (case ask L Handshake s of (ret, s) \<Rightarrow>
        if ret = 0 then k s
        else if ret \<noteq> WANT_READ \<and> ret \<noteq> WANT_WRITE then Inr (ret, s)
        else if (of_nat (millis L (calls s)) - of_nat start :: u32) > handshake_timeout s then Inr (- 1, s)
        else handshake_rounds L fuel start k (call WaitTick s))"

text \<open>
  After the handshake: \<open>ret\<close> is its 0, or the record expansion when there is a client certificate. It is what
  is returned when the certificate of the other side was not accepted.
\<close>

definition check_peer :: "tls_lib \<Rightarrow> string option \<Rightarrow> string option \<Rightarrow> string option \<Rightarrow> establish" where
  "check_peer L ca cert key s =
     (let (ret, s) = (if cert \<noteq> None \<and> key \<noteq> None then ask L RecordExpansion s else (0, s));
          (flags, s) = ask L VerifyResult s
      in if flags \<noteq> 0 then Inr (ret, stop_ssl_socket s)
         else let s = (if ca \<noteq> None then call CaFree s else s);
                  s = (if cert \<noteq> None then call CertFree s else s);
                  s = (if key \<noteq> None then call KeyFree s else s)
              in Inr (socket s, s))"

definition negotiate :: "tls_lib \<Rightarrow> nat \<Rightarrow> string \<Rightarrow> establish \<Rightarrow> establish" where
  "negotiate L fuel host k =
     step L (\<lambda>r. r \<noteq> 0) (SetHostname host) (\<lambda>s.
       step L (\<lambda>r. r \<noteq> 0) SslSetup (\<lambda>s.
         let s = call SetBio s in handshake_rounds L fuel (millis L (calls s)) k s) (call ConfRng s))"

definition start_ssl_client ::
  "tls_lib \<Rightarrow> nat \<Rightarrow> string \<Rightarrow> nat \<Rightarrow> int \<Rightarrow> string option \<Rightarrow> string option \<Rightarrow> string option \<Rightarrow>
   string option \<Rightarrow> string option \<Rightarrow> establish" where
  "start_ssl_client L fuel host port tmo ca cert key pskIdent psKey =
     open_socket L host port tmo (\<lambda>s.
       step L (\<lambda>r. r < 0) DrbgSeed (step L (\<lambda>r. r \<noteq> 0) ConfigDefaults
         (credentials L ca pskIdent psKey (client_certificate L cert key
           (negotiate L fuel host (check_peer L ca cert key))))) (call EntropyInit s))"

subsection \<open>\<open>WiFiClientSecure\<close>\<close>

definition secure_stop :: "secure \<Rightarrow> secure" where
  "secure_stop s =
     stop_ssl_socket (if socket s \<ge> 0
       then (call (CloseSocket (socket s)) s)\<lparr>socket := - 1, is_connected := False\<rparr> else s)"

definition connected_with :: "int \<times> secure \<Rightarrow> bool \<times> secure" where
  "connected_with = (\<lambda>(ret, s). let s = s\<lparr>lastError := ret\<rparr>
     in if ret < 0 then (False, secure_stop s) else (True, s\<lparr>is_connected := True\<rparr>))"

definition limit_handshake :: "secure \<Rightarrow> secure" where
  "limit_handshake s = (if timeout s > 0 then s\<lparr>handshake_timeout := word_of_int (timeout s)\<rparr> else s)"

definition connect_certified ::
  "tls_lib \<Rightarrow> nat \<Rightarrow> string \<Rightarrow> nat \<Rightarrow> string option \<Rightarrow> string option \<Rightarrow> string option \<Rightarrow> secure \<Rightarrow> (bool \<times> secure) res" where
  "connect_certified L fuel host port ca cert key s =
     andThen (start_ssl_client L fuel host port (timeout s) ca cert key None None (limit_handshake s))
       (\<lambda>r. Inr (connected_with r))"






subsection \<open>Fingerprints and names\<close>

definition parseHexNibble :: "char \<Rightarrow> u8 option" where
  "parseHexNibble pb =
     (let v = of_char pb :: u8
      in if 48 \<le> v \<and> v \<le> 57 then Some (v - 48)
         else if 97 \<le> v \<and> v \<le> 102 then Some (v - 97 + 10)
         else if 65 \<le> v \<and> v \<le> 70 then Some (v - 65 + 10)
         else None)"

definition separator :: "char \<Rightarrow> bool" where
  "separator c \<longleftrightarrow> c = CHR '' '' \<or> c = CHR '':''"

text \<open>The loop over the bytes of a fingerprint; the text is what is left of it.\<close>

fun fingerprint_bytes :: "nat \<Rightarrow> string \<Rightarrow> u8 list option" where
  "fingerprint_bytes 0 fp = Some []"
| "fingerprint_bytes (Suc n) fp =
     (case dropWhile separator fp of
        a # b # rest \<Rightarrow>
          (case (parseHexNibble a, parseHexNibble b) of
             (Some high, Some low) \<Rightarrow>
               (case fingerprint_bytes n rest of None \<Rightarrow> None | Some bs \<Rightarrow> Some ((low OR push_bit 4 high) # bs))
           | _ \<Rightarrow> None)
      | _ \<Rightarrow> None)"

definition matchName :: "string \<Rightarrow> string \<Rightarrow> bool" where
  "matchName name domainName =
     (case find_char (CHR ''*'') name of
        None \<Rightarrow> name = domainName
      | Some wildcardPos \<Rightarrow>
          (case find_char (CHR ''.'') name of
             None \<Rightarrow> False
           | Some firstDotPos \<Rightarrow>
               if wildcardPos > firstDotPos then False
               else if wildcardPos \<noteq> 0 \<or> firstDotPos \<noteq> 1 then False
               else (case find_char (CHR ''.'') domainName of
                 None \<Rightarrow> False
               | Some domainNameFirstDotPos \<Rightarrow> drop domainNameFirstDotPos domainName = drop firstDotPos name)))"

record certificate =
  fingerprint :: "u8 list"
  alt_names :: "string list"
  subject_names :: "(bool \<times> string) list"

text \<open>The common names are compared as they are, the alternative names in lower case, with the domain in lower case.\<close>

definition verify_ssl_dn :: "certificate option \<Rightarrow> string \<Rightarrow> bool res" where
  "verify_ssl_dn cert domain =
     (case cert of
        None \<Rightarrow> Inl BadPointer
      | Some c \<Rightarrow> Inr (list_ex (\<lambda>n. matchName (map lower n) (map lower domain)) (alt_names c) \<or>
          list_ex (\<lambda>(cn, n). cn \<and> matchName n (map lower domain)) (subject_names c)))"

definition verify_ssl_fingerprint :: "certificate option \<Rightarrow> string \<Rightarrow> string option \<Rightarrow> bool res" where
  "verify_ssl_fingerprint cert fp domain =
     (case fingerprint_bytes 32 fp of
        None \<Rightarrow> Inr False
      | Some local \<Rightarrow>
          (case cert of
             None \<Rightarrow> Inr False
           | Some c \<Rightarrow>
               if local \<noteq> fingerprint c then Inr False
               else (case domain of None \<Rightarrow> Inr True | Some d \<Rightarrow> verify_ssl_dn cert d)))"

subsection \<open>What a connection does\<close>

text \<open>A library whose results depend on the call only, and everything that is asked for succeeds.\<close>

definition library_answers :: "tls_lib \<Rightarrow> (setup_call \<Rightarrow> int) \<Rightarrow> bool" where
  "library_answers L f \<longleftrightarrow> (\<forall>cs c. result L (cs @ [c]) = f c)"

definition willing :: "(setup_call \<Rightarrow> int) \<Rightarrow> bool" where
  "willing f \<longleftrightarrow> 0 \<le> f OpenSocket \<and> (\<forall>h. f (HostByName h) \<noteq> 0) \<and> (\<forall>p. f (TcpConnect p) = 0) \<and> 0 \<le> f DrbgSeed \<and>
     f ConfigDefaults = 0 \<and> (\<forall>c. 0 \<le> f (CaParse c)) \<and> (\<forall>h. f (SetHostname h) = 0) \<and> f SslSetup = 0 \<and> f Handshake = 0"

lemma ask_answers [simp]: "library_answers L f \<Longrightarrow> ask L c s = (f c, call c s)"
  by (simp add: ask_def library_answers_def)

lemma call_simps [simp]:
  "socket (call c s) = socket s" "is_connected (call c s) = is_connected s" "calls (call c s) = calls s @ [c]"
  "handshake_timeout (call c s) = handshake_timeout s" "timeout (call c s) = timeout s"
  by (simp_all add: call_def)

definition setup_trace :: "string \<Rightarrow> nat \<Rightarrow> int \<Rightarrow> string option \<Rightarrow> setup_call list" where
  "setup_trace host port t ca =
     [OpenSocket, HostByName host, TcpConnect port, SetRecvTimeout t, SetSendTimeout t, SetNoDelay, SetKeepAlive,
      NonBlocking, EntropyInit, DrbgSeed, ConfigDefaults] @
     (case ca of None \<Rightarrow> [ConfAuthNone] | Some pem \<Rightarrow> [CaInit, ConfAuthRequired, CaParse pem, ConfCaChain]) @
     [SetHostname host, ConfRng, SslSetup, SetBio, Handshake, VerifyResult]"

lemmas setup_defs = start_ssl_client_def open_socket_def step_def credentials_def client_certificate_def negotiate_def
  check_peer_def stop_ssl_socket_def Let_def

lemma start_willing:
  assumes "library_answers L f" "willing f"
  shows "\<exists>s'. start_ssl_client L (Suc n) host port tmo ca None None None None s =
      Inr (if f VerifyResult = 0 then f OpenSocket else 0, s') \<and>
    socket s' = (if f VerifyResult = 0 then f OpenSocket else - 1) \<and> is_connected s' = is_connected s \<and>
    calls s' = calls s @ setup_trace host port (if tmo \<le> 0 then 30000 else tmo) ca @
      (if f VerifyResult \<noteq> 0 then [CloseSocket (f OpenSocket), SslFree, ConfigFree, DrbgFree, EntropyFree]
       else if ca \<noteq> None then [CaFree] else [])"
  using assms by (cases ca) (simp_all add: setup_defs willing_def setup_trace_def not_less)

text \<open>An accepted connection, and what it asked of the library.\<close>

lemma accepted_certificate:
  assumes "library_answers L f" "willing f" "f VerifyResult = 0"
  shows "\<exists>s'. connect_certified L (Suc n) host port ca None None s = Inr (True, s') \<and> socket s' = f OpenSocket \<and>
    is_connected s' \<and> \<not> is_connected (secure_stop s') \<and>
    calls s' = calls s @ setup_trace host port (if timeout s \<le> 0 then 30000 else timeout s) ca @ (if ca \<noteq> None then [CaFree] else [])"
proof -
  have c: "calls (limit_handshake s) = calls s" by (simp add: limit_handshake_def)
  have pos: "0 \<le> f OpenSocket" using assms(2) by (simp add: willing_def)
  obtain t where "start_ssl_client L (Suc n) host port (timeout s) ca None None None None (limit_handshake s) = Inr (f OpenSocket, t)"
    "socket t = f OpenSocket"
    "calls t = calls s @ setup_trace host port (if timeout s \<le> 0 then 30000 else timeout s) ca @ (if ca \<noteq> None then [CaFree] else [])"
    using start_willing [OF assms(1,2), of n host port "timeout s" ca "limit_handshake s"] assms(3) c by auto
  then show ?thesis using pos
    by (intro exI [of _ "t\<lparr>lastError := f OpenSocket, is_connected := True\<rparr>"])
      (simp add: connect_certified_def connected_with_def secure_stop_def stop_ssl_socket_def)
qed

text \<open>
  A connection that is refused: the set-up ends before the entropy context is initialised, and \<open>stop\<close> frees it all the same.
\<close>

lemma refused_frees_entropy:
  assumes "library_answers L f" "0 \<le> f OpenSocket" "f (HostByName host) \<noteq> 0" "f (TcpConnect port) \<noteq> 0"
  shows "\<exists>s'. connect_certified L n host port ca cert key secure_new = Inr (False, s') \<and>
    EntropyFree \<in> set (calls s') \<and> EntropyInit \<notin> set (calls s')"
  using assms
  by (simp add: connect_certified_def start_ssl_client_def open_socket_def connected_with_def secure_stop_def
      stop_ssl_socket_def Let_def limit_handshake_def secure_new_def)

text \<open>A second connection of an object uses contexts that were freed and not initialised again.\<close>

lemma reconnect_uses_freed:
  assumes "library_answers L f" "willing f" "f VerifyResult = 0"
  shows "\<exists>s1 s2 cs. connect_certified L (Suc n) host port None None None secure_new = Inr (True, s1) \<and>
    connect_certified L (Suc n) host port None None None (secure_stop s1) = Inr (True, s2) \<and>
    calls s2 = calls (secure_stop s1) @ cs \<and> SslFree \<in> set (calls (secure_stop s1)) \<and> SslSetup \<in> set cs \<and> SslInit \<notin> set cs"
proof -
  obtain s1 where s1: "connect_certified L (Suc n) host port None None None secure_new = Inr (True, s1)"
    using accepted_certificate [OF assms, of n host port None secure_new] by blast
  obtain s2 where s2: "connect_certified L (Suc n) host port None None None (secure_stop s1) = Inr (True, s2)"
    "calls s2 = calls (secure_stop s1) @ setup_trace host port
       (if timeout (secure_stop s1) \<le> 0 then 30000 else timeout (secure_stop s1)) None"
    using accepted_certificate [OF assms, of n host port None "secure_stop s1"] by auto
  moreover have "SslFree \<in> set (calls (secure_stop s1))" by (simp add: secure_stop_def stop_ssl_socket_def Let_def)
  ultimately show ?thesis using s1 by (auto simp: setup_trace_def)
qed

subsection \<open>Certificates handed to the HTTP client\<close>

text \<open>The trace grows, and a part of it asks for no verification.\<close>

definition unverified :: "secure \<Rightarrow> secure \<Rightarrow> bool" where
  "unverified s s' \<longleftrightarrow> (\<exists>cs. calls s' = calls s @ cs \<and> ConfAuthRequired \<notin> set cs)"

lemma unverified_refl: "unverified s s"
  by (simp add: unverified_def)
















subsection \<open>The handshake ends\<close>

text \<open>
  A clock that goes on by at least a millisecond while the task waits, and by no more than a minute over one
  turn of the loop. Then the loop ends after at most as many turns as the time limit has milliseconds, and two.
\<close>

definition clock_goes_on :: "tls_lib \<Rightarrow> bool" where
  "clock_goes_on L \<longleftrightarrow> (\<forall>cs. millis L cs < millis L (cs @ [WaitTick, Handshake]) \<and>
     millis L (cs @ [WaitTick, Handshake]) \<le> millis L cs + 60000)"

lemma clock_difference:
  assumes "start \<le> t" "t - start < 2 ^ 32"
  shows "unat (of_nat t - of_nat start :: u32) = t - start"
proof -
  have "(of_nat t - of_nat start :: u32) = of_nat (t - start)" using assms(1) by (simp add: of_nat_diff)
  then show ?thesis using assms(2) by (simp add: unat_of_nat)
qed

lemma handshake_returns:
  assumes "clock_goes_on L" "\<And>s. \<exists>r. k s = Inr r" "unat (handshake_timeout s) < 2 ^ 31"
    "start \<le> millis L (calls s @ [Handshake])" "millis L (calls s @ [Handshake]) \<le> start + unat (handshake_timeout s) + 60000"
    "Suc (unat (handshake_timeout s) + start) < millis L (calls s @ [Handshake]) + fuel"
    "0 < fuel"
  shows "\<exists>r. handshake_rounds L fuel start k s = Inr r"
  using assms(3-)
proof (induction fuel arbitrary: s)
  case (Suc fuel)
  let ?t = "call Handshake s"
  let ?now = "millis L (calls s @ [Handshake])"
  let ?next = "millis L ((calls s @ [Handshake]) @ [WaitTick, Handshake])"
  have d: "unat (of_nat ?now - of_nat start :: u32) = ?now - start"
    using Suc.prems(1-3) by (intro clock_difference) auto
  show ?case
  proof (cases "(of_nat ?now - of_nat start :: u32) > handshake_timeout s")
    case True
    then show ?thesis using assms(2) [of ?t] by (auto simp: ask_def)
  next
    case False
    then have early: "?now \<le> start + unat (handshake_timeout s)" using d Suc.prems(2) by (simp add: word_less_nat_alt)
    have n: "?now < ?next" "?next \<le> ?now + 60000" using assms(1) unfolding clock_goes_on_def by blast+
    have "\<exists>r. handshake_rounds L fuel start k (call WaitTick ?t) = Inr r"
      using Suc.prems early n by (intro Suc.IH) auto
    then show ?thesis using assms(2) [of ?t] by (auto simp: ask_def)
  qed
qed simp

subsection \<open>Names and numbers\<close>

lemma find_char_absent: "find_char c s = None \<longleftrightarrow> c \<notin> set s"
  by (induction s) auto

lemma find_char_Some: "find_char c s = Some i \<longleftrightarrow> i < length s \<and> s ! i = c \<and> c \<notin> set (take i s)"
proof (induction s arbitrary: i)
  case (Cons d s)
  then show ?case by (cases i) auto
qed simp

lemma find_char_split: "c \<notin> set l \<Longrightarrow> find_char c (l @ c # r) = Some (length l)"
  by (induction l) auto

text \<open>A name without a star matches itself; a name that starts with a star and a dot matches what has one more label, possibly empty, at its place.\<close>

lemma matchName_iff:
  "matchName name domain \<longleftrightarrow>
    CHR ''*'' \<notin> set name \<and> name = domain \<or>
    (\<exists>l rest. name = CHR ''*'' # CHR ''.'' # rest \<and> domain = l @ CHR ''.'' # rest \<and> CHR ''.'' \<notin> set l)"
proof (cases "find_char (CHR ''*'') name")
  case None
  then have "CHR ''*'' \<notin> set name" by (simp add: find_char_absent)
  then show ?thesis using None by (auto simp: matchName_def)
next
  case (Some w)
  then have star: "CHR ''*'' \<in> set name" using find_char_Some nth_mem by fastforce
  show ?thesis
  proof (cases "\<exists>rest. name = CHR ''*'' # CHR ''.'' # rest")
    case True
    then obtain rest where name: "name = CHR ''*'' # CHR ''.'' # rest" ..
    have "matchName name domain \<longleftrightarrow> (\<exists>l. domain = l @ CHR ''.'' # rest \<and> CHR ''.'' \<notin> set l)"
    proof (cases "find_char (CHR ''.'') domain")
      case None
      then show ?thesis by (auto simp: matchName_def name find_char_absent)
    next
      case (Some i)
      then have i: "i < length domain" "domain ! i = CHR ''.''" "CHR ''.'' \<notin> set (take i domain)"
        by (auto simp: find_char_Some)
      then have d: "domain = take i domain @ CHR ''.'' # drop (Suc i) domain" by (metis id_take_nth_drop)
      have "matchName name domain \<longleftrightarrow> drop (Suc i) domain = rest"
        using Some i(1,2) Cons_nth_drop_Suc [OF i(1)] by (auto simp: matchName_def name)
      also have "\<dots> \<longleftrightarrow> (\<exists>l. domain = l @ CHR ''.'' # rest \<and> CHR ''.'' \<notin> set l)"
      proof
        assume "drop (Suc i) domain = rest"
        with d i(3) show "\<exists>l. domain = l @ CHR ''.'' # rest \<and> CHR ''.'' \<notin> set l" by metis
      next
        assume "\<exists>l. domain = l @ CHR ''.'' # rest \<and> CHR ''.'' \<notin> set l"
        then obtain l where l: "domain = l @ CHR ''.'' # rest" "CHR ''.'' \<notin> set l" by blast
        then have "i = length l" using Some find_char_split by fastforce
        then show "drop (Suc i) domain = rest" using l(1) by simp
      qed
      finally show ?thesis .
    qed
    then show ?thesis using name star by auto
  next
    case False
    have "\<not> matchName name domain"
    proof
      assume m: "matchName name domain"
      then obtain j where "w = 0" "find_char (CHR ''.'') name = Some j" "j = 1"
        using Some by (auto simp: matchName_def split: option.splits if_splits)
      then have "0 < length name" "name ! 0 = CHR ''*''" "1 < length name" "name ! 1 = CHR ''.''"
        using Some by (auto simp: find_char_Some)
      then have "\<exists>rest. name = CHR ''*'' # CHR ''.'' # rest"
        by (cases name; cases "tl name") auto
      with False show False ..
    qed
    then show ?thesis using star False by auto
  qed
qed

text \<open>Texts of bytes in hexadecimal digits, as keys and fingerprints are given.\<close>

definition hex_digits :: "u8 \<Rightarrow> string" where
  "hex_digits b = [''0123456789abcdef'' ! (unat b div 16), ''0123456789abcdef'' ! (unat b mod 16)]"

lemma nibble_digit:
  assumes "n < 16"
  shows "psk_nibble (''0123456789abcdef'' ! n) = Some (of_nat n)" "parseHexNibble (''0123456789abcdef'' ! n) = Some (of_nat n)"
    "\<not> separator (''0123456789abcdef'' ! n)"
proof -
  have "\<forall>n \<in> set [0..<16]. psk_nibble (''0123456789abcdef'' ! n) = Some (of_nat n) \<and>
      parseHexNibble (''0123456789abcdef'' ! n) = Some (of_nat n) \<and> \<not> separator (''0123456789abcdef'' ! n)"
    by code_simp
  with assms show "psk_nibble (''0123456789abcdef'' ! n) = Some (of_nat n)"
    "parseHexNibble (''0123456789abcdef'' ! n) = Some (of_nat n)" "\<not> separator (''0123456789abcdef'' ! n)" by auto
qed

lemma nibbles_join: "push_bit 4 (of_nat (unat b div 16)) OR of_nat (unat b mod 16) = (b :: u8)"
proof -
  have "of_nat (unat b div 16) = drop_bit 4 b"
    using u8_bound [of b] by (simp add: word_unat_eq_iff drop_bit_eq_div unat_of_nat unat_div)
  moreover have "of_nat (unat b mod 16) = take_bit 4 b"
    by (simp add: word_unat_eq_iff take_bit_eq_mod unat_of_nat unat_mod)
  moreover have "push_bit 4 (drop_bit 4 b) OR take_bit 4 b = b"
  proof (rule bit_eqI)
    fix n assume "possible_bit TYPE(u8) n"
    then show "bit (push_bit 4 (drop_bit 4 b) OR take_bit 4 b) n \<longleftrightarrow> bit b n"
      by (cases "n < 4") (auto simp: bit_simps)
  qed
  ultimately show ?thesis by simp
qed

lemma digit_bounds: "unat (b :: u8) div 16 < 16" "unat b mod 16 < 16"
  using u8_bound [of b] by auto

lemma psk_of_hex: "psk_bytes (concat (map hex_digits bs)) = Some bs"
  by (induction bs) (simp_all add: hex_digits_def nibble_digit digit_bounds nibbles_join)

text \<open>A fingerprint, with any mixture of blanks and colons before its bytes.\<close>

lemma dropWhile_separators:
  "list_all separator g \<Longrightarrow> \<not> separator c \<Longrightarrow> dropWhile separator (g @ c # cs) = c # cs"
  by (induction g) auto

lemma fingerprint_of_hex:
  assumes "list_all (list_all separator) gs" "length gs = length bs"
  shows "fingerprint_bytes (length bs) (concat (map (\<lambda>(g, b). g @ hex_digits b) (zip gs bs)) @ rest) = Some bs"
  using assms(2,1)
proof (induction gs bs rule: list_induct2)
  case (Cons g gs b bs)
  then have "dropWhile separator (g @ hex_digits b @ cs) = hex_digits b @ cs" for cs
    using dropWhile_separators [of g] by (simp add: hex_digits_def nibble_digit digit_bounds)
  with Cons show ?case
    by (simp add: hex_digits_def nibble_digit digit_bounds) (subst or.commute, rule nibbles_join)
qed simp

end
