(* ===== verification/Gfx_Shapes.thy ===== *)
theory Gfx_Shapes
  imports Panel
begin

section \<open>Triangles, images and buttons of Adafruit\_GFX\<close>

text \<open>
  The rest of the drawing functions of \<^verbatim>\<open>Adafruit_GFX.cpp\<close>: triangles, images of one, eight and sixteen bits
  a pixel, and the class \<open>Adafruit_GFX_Button\<close>. The two versions of each image function, for images in
  flash and in memory, are the same code on this target. Coordinates are \<open>int\<close>, as in Gfx.
\<close>

subsection \<open>Triangles\<close>

definition drawTriangle :: "int \<Rightarrow> int \<Rightarrow> int \<Rightarrow> int \<Rightarrow> int \<Rightarrow> int \<Rightarrow> pix list" where
  "drawTriangle x0 y0 x1 y1 x2 y2 = drawLine x0 y0 x1 y1 @ drawLine x1 y1 x2 y2 @ drawLine x2 y2 x0 y0"

definition lower_first :: "pix \<Rightarrow> pix \<Rightarrow> pix \<times> pix" where
  "lower_first p q = (if snd p > snd q then (q, p) else (p, q))"

definition sort_by_y :: "pix \<Rightarrow> pix \<Rightarrow> pix \<Rightarrow> pix \<times> pix \<times> pix" where
  "sort_by_y p0 p1 p2 =
     (let (p0, p1) = lower_first p0 p1;
          (p1, p2) = lower_first p1 p2;
          (p0, p1) = lower_first p0 p1
      in (p0, p1, p2))"

definition one_row :: "int \<Rightarrow> int \<Rightarrow> int \<Rightarrow> int \<Rightarrow> pix list" where
  "one_row x0 x1 x2 y =
     (let (a, b) = (if x1 < x0 then (x1, x0) else if x1 > x0 then (x0, x1) else (x0, x0));
          (a, b) = (if x2 < a then (x2, b) else if x2 > b then (a, x2) else (a, b))
      in drawFastHLine a y (b - a + 1))"

text \<open>The scan lines between two edges; \<open>sa\<close> and \<open>sb\<close> grow by the widths of the edges from row to row.\<close>

fun edge_rows :: "int \<times> int \<times> int \<Rightarrow> int \<times> int \<times> int \<Rightarrow> int \<Rightarrow> int \<Rightarrow> int list \<Rightarrow> pix list res" where
  "edge_rows ea eb sa sb [] = Inr []"
| "edge_rows (xa, dxa, dya) (xb, dxb, dyb) sa sb (y # ys) =
     (if dya = 0 \<or> dyb = 0 then Inl DivByZero
      else let a = xa + sa sdiv dya; b = xb + sb sdiv dyb;
               (a, b) = (if a > b then (b, a) else (a, b))
        in andThen (edge_rows (xa, dxa, dya) (xb, dxb, dyb) (sa + dxa) (sb + dxb) ys)
             (\<lambda>rest. Inr (drawFastHLine a y (b - a + 1) @ rest)))"

definition fillTriangle :: "int \<Rightarrow> int \<Rightarrow> int \<Rightarrow> int \<Rightarrow> int \<Rightarrow> int \<Rightarrow> pix list res" where
  "fillTriangle x0 y0 x1 y1 x2 y2 =
     (let ((x0, y0), (x1, y1), (x2, y2)) = sort_by_y (x0, y0) (x1, y1) (x2, y2)
      in if y0 = y2 then Inr (one_row x0 x1 x2 y0)
         else
           (let dx01 = x1 - x0; dy01 = y1 - y0; dx02 = x2 - x0; dy02 = y2 - y0; dx12 = x2 - x1; dy12 = y2 - y1;
                last = (if y1 = y2 then y1 else y1 - 1);
                y = (if y0 \<le> last then last + 1 else y0)
            in andThen (edge_rows (x0, dx01, dy01) (x0, dx02, dy02) 0 0 [y0..last]) (\<lambda>upper.
               andThen (edge_rows (x1, dx12, dy12) (x0, dx02, dy02) (dx12 * (y - y1)) (dx02 * (y - y0)) [y..y2]) (\<lambda>lower.
                 Inr (upper @ lower)))))"

text \<open>
  The comments of the code give the crossing of an edge with a row in \<open>longhand\<close>. The loops, which only
  add, find the same points: a filled triangle is the rows between its edges.
\<close>

definition crossing :: "pix \<Rightarrow> pix \<Rightarrow> int \<Rightarrow> int" where
  "crossing p q y = fst p + ((fst q - fst p) * (y - snd p)) sdiv (snd q - snd p)"

definition between :: "int \<Rightarrow> int \<Rightarrow> int \<Rightarrow> bool" where
  "between a b x \<longleftrightarrow> min a b \<le> x \<and> x \<le> max a b"

lemma set_hline: "a \<le> b \<Longrightarrow> set (drawFastHLine a y (b - a + 1)) = {a..b} \<times> {y}"
  by (auto simp: drawFastHLine_pixels)

lemma edge_rows_spec:
  assumes "dya \<noteq> 0" "dyb \<noteq> 0"
  shows "\<exists>ps. edge_rows (xa, dxa, dya) (xb, dxb, dyb) (dxa * (y - ya)) (dxb * (y - yb)) [y..z] = Inr ps \<and>
    set ps = {(x, v). y \<le> v \<and> v \<le> z \<and>
      between (xa + (dxa * (v - ya)) sdiv dya) (xb + (dxb * (v - yb)) sdiv dyb) x}"
proof (induction "nat (z + 1 - y)" arbitrary: y)
  case 0
  then show ?case by (auto simp: between_def)
next
  case (Suc n)
  define a where "a = xa + (dxa * (y - ya)) sdiv dya"
  define b where "b = xb + (dxb * (y - yb)) sdiv dyb"
  have y: "y \<le> z" "[y..z] = y # [y + 1..z]" using Suc(2) by (simp_all add: upto_rec1)
  have next_row: "dxa * (y - ya) + dxa = dxa * (y + 1 - ya)" "dxb * (y - yb) + dxb = dxb * (y + 1 - yb)"
    by (simp_all add: algebra_simps)
  have "n = nat (z + 1 - (y + 1))" using Suc(2) by simp
  from Suc(1) [OF this] obtain ps where ps:
    "edge_rows (xa, dxa, dya) (xb, dxb, dyb) (dxa * (y + 1 - ya)) (dxb * (y + 1 - yb)) [y + 1..z] = Inr ps"
    "set ps = {(x, v). y + 1 \<le> v \<and> v \<le> z \<and>
      between (xa + (dxa * (v - ya)) sdiv dya) (xb + (dxb * (v - yb)) sdiv dyb) x}"
    by blast
  have "edge_rows (xa, dxa, dya) (xb, dxb, dyb) (dxa * (y - ya)) (dxb * (y - yb)) [y..z] =
      Inr (drawFastHLine (min a b) y (max a b - min a b + 1) @ ps)"
    using assms ps(1) by (simp add: y(2) next_row a_def [symmetric] b_def [symmetric] min_def max_def)
  moreover have "set (drawFastHLine (min a b) y (max a b - min a b + 1)) = {(x, v). v = y \<and> between a b x}"
    using set_hline [of "min a b" "max a b" y] by (auto simp: between_def)
  moreover have "{(x, v). y \<le> v \<and> v \<le> z \<and>
      between (xa + (dxa * (v - ya)) sdiv dya) (xb + (dxb * (v - yb)) sdiv dyb) x} =
    {(x, v). v = y \<and> between a b x} \<union> {(x, v). y + 1 \<le> v \<and> v \<le> z \<and>
      between (xa + (dxa * (v - ya)) sdiv dya) (xb + (dxb * (v - yb)) sdiv dyb) x}"
  proof -
    have "y \<le> v \<longleftrightarrow> v = y \<or> y + 1 \<le> v" for v by auto
    then show ?thesis using y(1) by (auto simp: a_def b_def)
  qed
  ultimately show ?case using ps(2) by simp
qed

lemma sort_by_y_sorted:
  assumes "sort_by_y p q r = (p0, p1, p2)"
  shows "snd p0 \<le> snd p1" "snd p1 \<le> snd p2" "{p0, p1, p2} = {p, q, r}"
  using assms by (auto simp: sort_by_y_def lower_first_def Let_def split: if_splits)

lemma one_row_set:
  "set (one_row x0 x1 x2 y) = {(x, v). v = y \<and> min x0 (min x1 x2) \<le> x \<and> x \<le> max x0 (max x1 x2)}"
proof -
  have "one_row x0 x1 x2 y = drawFastHLine (min x0 (min x1 x2)) y (max x0 (max x1 x2) - min x0 (min x1 x2) + 1)"
    by (auto simp: one_row_def Let_def min_def max_def)
  then show ?thesis using set_hline [of "min x0 (min x1 x2)" "max x0 (max x1 x2)" y] by auto
qed

lemma fillTriangle_rows:
  assumes "sort_by_y (x0, y0) (x1, y1) (x2, y2) = (p0, p1, p2)" "snd p0 \<noteq> snd p2"
  shows "\<exists>ps. fillTriangle x0 y0 x1 y1 x2 y2 = Inr ps \<and>
    set ps = {(x, y). snd p0 \<le> y \<and> y \<le> snd p2 \<and>
      between (if y < snd p1 \<or> snd p1 = snd p2 then crossing p0 p1 y else crossing p1 p2 y) (crossing p0 p2 y) x}"
proof -
  obtain a0 b0 a1 b1 a2 b2 where p: "p0 = (a0, b0)" "p1 = (a1, b1)" "p2 = (a2, b2)"
    by (cases p0, cases p1, cases p2) auto
  have b: "b0 \<le> b1" "b1 \<le> b2" "b0 < b2" using sort_by_y_sorted [OF assms(1)] assms(2) by (simp_all add: p)
  define l where "l = (if b1 = b2 then b1 else b1 - 1)"
  have y: "(if b0 \<le> l then l + 1 else b0) = l + 1" using b by (auto simp: l_def)
  have upper: "\<exists>ps. edge_rows (a0, a1 - a0, b1 - b0) (a0, a2 - a0, b2 - b0) 0 0 [b0..l] = Inr ps \<and>
      set ps = {(x, y). b0 \<le> y \<and> y \<le> l \<and> between (crossing p0 p1 y) (crossing p0 p2 y) x}"
  proof (cases "b0 = b1")
    case True
    then have "l < b0" using b by (simp add: l_def)
    then show ?thesis by auto
  next
    case False
    then show ?thesis
      using edge_rows_spec [of "b1 - b0" "b2 - b0" a0 "a1 - a0" a0 "a2 - a0" b0 b0 b0 l] b
      by (simp add: crossing_def p)
  qed
  have lower: "\<exists>ps. edge_rows (a1, a2 - a1, b2 - b1) (a0, a2 - a0, b2 - b0) ((a2 - a1) * (l + 1 - b1))
        ((a2 - a0) * (l + 1 - b0)) [l + 1..b2] = Inr ps \<and>
      set ps = {(x, y). l + 1 \<le> y \<and> y \<le> b2 \<and> between (crossing p1 p2 y) (crossing p0 p2 y) x}"
  proof (cases "b1 = b2")
    case True
    then have "b2 < l + 1" by (simp add: l_def)
    then show ?thesis by auto
  next
    case False
    then show ?thesis
      using edge_rows_spec [of "b2 - b1" "b2 - b0" a1 "a2 - a1" a0 "a2 - a0" "l + 1" b1 b0 b2] b
      by (simp add: crossing_def p)
  qed
  from upper lower obtain us ls where ul:
    "edge_rows (a0, a1 - a0, b1 - b0) (a0, a2 - a0, b2 - b0) 0 0 [b0..l] = Inr us"
    "set us = {(x, y). b0 \<le> y \<and> y \<le> l \<and> between (crossing p0 p1 y) (crossing p0 p2 y) x}"
    "edge_rows (a1, a2 - a1, b2 - b1) (a0, a2 - a0, b2 - b0) ((a2 - a1) * (l + 1 - b1))
        ((a2 - a0) * (l + 1 - b0)) [l + 1..b2] = Inr ls"
    "set ls = {(x, y). l + 1 \<le> y \<and> y \<le> b2 \<and> between (crossing p1 p2 y) (crossing p0 p2 y) x}"
    by blast
  have f: "fillTriangle x0 y0 x1 y1 x2 y2 = Inr (us @ ls)"
    using ul(1,3) assms(1) b(3) unfolding fillTriangle_def
    by (simp only: p Let_def prod.case l_def [symmetric] y andThen_simps) simp
  have "y \<le> l \<longleftrightarrow> y < b1 \<or> b1 = b2" if "y \<le> b2" for y using that by (auto simp: l_def)
  then have "set (us @ ls) = {(x, y). b0 \<le> y \<and> y \<le> b2 \<and>
      between (if y < b1 \<or> b1 = b2 then crossing p0 p1 y else crossing p1 p2 y) (crossing p0 p2 y) x}"
    using ul(2,4) b by (auto simp: l_def)
  with f show ?thesis by (simp add: p)
qed

lemma fillTriangle_returns: "\<exists>ps. fillTriangle x0 y0 x1 y1 x2 y2 = Inr ps"
proof -
  obtain p0 p1 p2 where s: "sort_by_y (x0, y0) (x1, y1) (x2, y2) = (p0, p1, p2)" by (metis prod_cases3)
  show ?thesis
  proof (cases "snd p0 = snd p2")
    case True
    then show ?thesis using s by (cases p0; cases p1; cases p2) (simp add: fillTriangle_def)
  next
    case False
    then show ?thesis using fillTriangle_rows [OF s] by blast
  qed
qed

subsection \<open>Images\<close>

text \<open>
  The loops over an image of one bit a pixel: at every eighth column a byte is read, in the others the
  byte is shifted by one place; \<open>put\<close> is what is done with the byte at a column.
\<close>

fun bits_row :: "(u8 \<Rightarrow> u8) \<Rightarrow> u8 list \<Rightarrow> int \<Rightarrow> int \<Rightarrow> (nat \<Rightarrow> u8 \<Rightarrow> 'a list res) \<Rightarrow> u8 \<Rightarrow> nat list \<Rightarrow> 'a list res" where
  "bits_row shift bm bw j put byte [] = Inr []"
| "bits_row shift bm bw j put byte (i # is) =
     andThen (if i mod 8 \<noteq> 0 then Inr (shift byte) else rd bm (j * bw + int i div 8))
       (\<lambda>byte. andThen (put i byte)
          (\<lambda>ps. andThen (bits_row shift bm bw j put byte is) (\<lambda>rest. Inr (ps @ rest))))"

fun image_rows :: "(nat \<Rightarrow> 'a list res) \<Rightarrow> nat list \<Rightarrow> 'a list res" where
  "image_rows row [] = Inr []"
| "image_rows row (j # js) = andThen (row j) (\<lambda>ps. andThen (image_rows row js) (\<lambda>rest. Inr (ps @ rest)))"

definition bits_image ::
  "(u8 \<Rightarrow> u8) \<Rightarrow> u8 list \<Rightarrow> int \<Rightarrow> int \<Rightarrow> (nat \<Rightarrow> nat \<Rightarrow> u8 \<Rightarrow> 'a list res) \<Rightarrow> 'a list res" where
  "bits_image shift bm w h put =
     image_rows (\<lambda>j. bits_row shift bm ((w + 7) div 8) (int j) (put j) 0 [0..<nat w]) [0..<nat h]"

definition gfx_drawBitmap :: "int \<Rightarrow> int \<Rightarrow> u8 list \<Rightarrow> int \<Rightarrow> int \<Rightarrow> u16 \<Rightarrow> (pix \<times> u16) list res" where
  "gfx_drawBitmap x y bm w h color = bits_image (push_bit 1) bm w h
     (\<lambda>j i byte. Inr (if byte AND 0x80 \<noteq> 0 then [((x + int i, y + int j), color)] else []))"

definition gfx_drawBitmap_bg :: "int \<Rightarrow> int \<Rightarrow> u8 list \<Rightarrow> int \<Rightarrow> int \<Rightarrow> u16 \<Rightarrow> u16 \<Rightarrow> (pix \<times> u16) list res" where
  "gfx_drawBitmap_bg x y bm w h color bg = bits_image (push_bit 1) bm w h
     (\<lambda>j i byte. Inr [((x + int i, y + int j), if byte AND 0x80 \<noteq> 0 then color else bg)])"

definition drawXBitmap :: "int \<Rightarrow> int \<Rightarrow> u8 list \<Rightarrow> int \<Rightarrow> int \<Rightarrow> u16 \<Rightarrow> (pix \<times> u16) list res" where
  "drawXBitmap x y bm w h color = bits_image (drop_bit 1) bm w h
     (\<lambda>j i byte. Inr (if byte AND 0x01 \<noteq> 0 then [((x + int i, y + int j), color)] else []))"

definition colour_row :: "('v \<Rightarrow> u16) \<Rightarrow> int \<Rightarrow> int \<Rightarrow> 'v list \<Rightarrow> int \<Rightarrow> nat \<Rightarrow> nat \<Rightarrow> (pix \<times> u16) list res" where
  "colour_row enc x y bm w j i =
     andThen (rd bm (int j * w + int i)) (\<lambda>v. Inr [((x + int i, y + int j), enc v)])"

definition drawGrayscaleBitmap :: "int \<Rightarrow> int \<Rightarrow> u8 list \<Rightarrow> int \<Rightarrow> int \<Rightarrow> (pix \<times> u16) list res" where
  "drawGrayscaleBitmap x y bm w h =
     image_rows (\<lambda>j. image_rows (colour_row ucast x y bm w j) [0..<nat w]) [0..<nat h]"

definition drawGrayscaleBitmap_mask :: "int \<Rightarrow> int \<Rightarrow> u8 list \<Rightarrow> u8 list \<Rightarrow> int \<Rightarrow> int \<Rightarrow> (pix \<times> u16) list res" where
  "drawGrayscaleBitmap_mask x y bm opaque w h = bits_image (push_bit 1) opaque w h
     (\<lambda>j i byte. if byte AND 0x80 \<noteq> 0 then colour_row ucast x y bm w j i else Inr [])"

definition drawRGBBitmap :: "int \<Rightarrow> int \<Rightarrow> u16 list \<Rightarrow> int \<Rightarrow> int \<Rightarrow> (pix \<times> u16) list res" where
  "drawRGBBitmap x y bm w h =
     image_rows (\<lambda>j. image_rows (colour_row id x y bm w j) [0..<nat w]) [0..<nat h]"

definition drawRGBBitmap_mask :: "int \<Rightarrow> int \<Rightarrow> u16 list \<Rightarrow> u8 list \<Rightarrow> int \<Rightarrow> int \<Rightarrow> (pix \<times> u16) list res" where
  "drawRGBBitmap_mask x y bm opaque w h = bits_image (push_bit 1) opaque w h
     (\<lambda>j i byte. if byte AND 0x80 \<noteq> 0 then colour_row id x y bm w j i else Inr [])"

text \<open>
  The byte that the loop holds at column \<open>i\<close> is byte \<open>i div 8\<close> of the row, shifted \<open>i mod 8\<close> times; so what
  the loop does is said column by column, when the image has its bytes.
\<close>

lemma image_rows_cong: "(\<And>j. j \<in> set js \<Longrightarrow> row j = row' j) \<Longrightarrow> image_rows row js = image_rows row' js"
  by (induction js) auto

lemma image_rows_Inr: "image_rows (\<lambda>j. Inr (f j)) js = Inr (concat (map f js))"
  by (induction js) simp_all

definition held :: "(u8 \<Rightarrow> u8) \<Rightarrow> u8 list \<Rightarrow> int \<Rightarrow> int \<Rightarrow> nat \<Rightarrow> u8" where
  "held shift bm bw j i = (shift ^^ (i mod 8)) (bm ! nat (j * bw + int i div 8))"

lemma next_column:
  assumes "k mod 8 \<noteq> 0"
  shows "k mod 8 = Suc ((k - 1) mod 8)" "int (k - 1) div 8 = int k div 8"
proof -
  obtain n where n: "k = Suc n" using assms by (cases k) auto
  with assms have "Suc (n mod 8) \<noteq> 8" by (metis mod_Suc)
  then show "k mod 8 = Suc ((k - 1) mod 8)" using n by (simp add: mod_Suc)
  from \<open>Suc (n mod 8) \<noteq> 8\<close> have "(k - 1) div 8 = k div 8" using n by (simp add: div_Suc mod_Suc)
  then have "int ((k - 1) div 8) = int (k div 8)" by (rule arg_cong)
  then show "int (k - 1) div 8 = int k div 8" by (simp only: zdiv_int of_nat_numeral)
qed

lemma bits_row_columns:
  assumes "0 \<le> j" "0 \<le> bw" "(j + 1) * bw \<le> int (length bm)" "int w \<le> 8 * bw" "k \<le> w"
    and "k mod 8 \<noteq> 0 \<Longrightarrow> byte = held shift bm bw j (k - 1)"
  shows "bits_row shift bm bw j put byte [k..<w] = image_rows (\<lambda>i. put i (held shift bm bw j i)) [k..<w]"
  using assms(5,6)
proof (induction "w - k" arbitrary: k byte)
  case (Suc n)
  have kw: "k < w" using Suc.hyps(2) by simp
  have "int k div 8 < bw" using kw assms(4) by linarith
  then have "j * bw + int k div 8 < (j + 1) * bw" by (simp add: algebra_simps)
  then have in_range: "0 \<le> j * bw + int k div 8" "j * bw + int k div 8 < int (length bm)"
    using assms(1-3) by simp_all
  have step: "(if k mod 8 \<noteq> 0 then Inr (shift byte) else rd bm (j * bw + int k div 8)) = Inr (held shift bm bw j k)"
  proof (cases "k mod 8 = 0")
    case True
    then show ?thesis using in_range by (simp add: rd_in held_def)
  next
    case False
    have "held shift bm bw j k = shift (held shift bm bw j (k - 1))"
      unfolding held_def next_column [OF False] by simp
    with False Suc.prems(2) show ?thesis by simp
  qed
  have "bits_row shift bm bw j put (held shift bm bw j k) [Suc k..<w] =
      image_rows (\<lambda>i. put i (held shift bm bw j i)) [Suc k..<w]"
    using Suc.hyps kw by simp
  with step show ?case by (simp only: upt_conv_Cons [OF kw] bits_row.simps image_rows.simps andThen_simps)
qed simp

definition image_ok :: "'v list \<Rightarrow> int \<Rightarrow> int \<Rightarrow> bool" where
  "image_ok bm w h \<longleftrightarrow> 0 \<le> w \<and> 0 \<le> h \<and> h * w \<le> int (length bm)"

definition bits_ok :: "u8 list \<Rightarrow> int \<Rightarrow> int \<Rightarrow> bool" where
  "bits_ok bm w h \<longleftrightarrow> 0 \<le> w \<and> 0 \<le> h \<and> h * ((w + 7) div 8) \<le> int (length bm)"

lemma bits_image_columns:
  assumes "bits_ok bm w h"
  shows "bits_image shift bm w h put =
    image_rows (\<lambda>j. image_rows (\<lambda>i. put j i (held shift bm ((w + 7) div 8) (int j) i)) [0..<nat w]) [0..<nat h]"
  unfolding bits_image_def
proof (rule image_rows_cong)
  fix j assume "j \<in> set [0..<nat h]"
  then have "(int j + 1) * ((w + 7) div 8) \<le> h * ((w + 7) div 8)"
    using assms by (intro mult_right_mono) (auto simp: bits_ok_def)
  then have "(int j + 1) * ((w + 7) div 8) \<le> int (length bm)" using assms by (simp add: bits_ok_def)
  then show "bits_row shift bm ((w + 7) div 8) (int j) (put j) 0 [0..<nat w] =
      image_rows (\<lambda>i. put j i (held shift bm ((w + 7) div 8) (int j) i)) [0..<nat w]"
    using assms by (intro bits_row_columns) (auto simp: bits_ok_def)
qed

lemma funpow_push_bit: "(push_bit 1 ^^ n) (b :: u8) = push_bit n b"
  by (induction n) (simp_all add: push_bit_push_bit flip: push_bit_Suc)

lemma funpow_drop_bit: "(drop_bit 1 ^^ n) (b :: u8) = drop_bit n b"
  by (induction n) simp_all

text \<open>The pixel at column \<open>i\<close> of row \<open>j\<close>: the highest bit of a byte is the leftmost pixel.\<close>

definition pixel_bit :: "u8 list \<Rightarrow> int \<Rightarrow> nat \<Rightarrow> nat \<Rightarrow> bool" where
  "pixel_bit bm w j i = bit (bm ! nat (int j * ((w + 7) div 8) + int i div 8)) (7 - i mod 8)"

lemma held_left: "held (push_bit 1) bm ((w + 7) div 8) (int j) i AND 0x80 \<noteq> 0 \<longleftrightarrow> pixel_bit bm w j i"
  by (simp only: held_def pixel_bit_def funpow_push_bit) (simp add: and_0x80_shifted)

definition raster :: "int \<Rightarrow> int \<Rightarrow> (nat \<times> nat) list" where
  "raster w h = concat (map (\<lambda>j. map (Pair j) [0..<nat w]) [0..<nat h])"

lemma image_rows_raster:
  "image_rows (\<lambda>j. image_rows (\<lambda>i. Inr (f j i)) [0..<nat w]) [0..<nat h] = Inr (concat (map (\<lambda>(j, i). f j i) (raster w h)))"
proof -
  have "concat (map (\<lambda>j. concat (map (f j) is)) js) = concat (map (\<lambda>(j, i). f j i) (concat (map (\<lambda>j. map (Pair j) is) js)))"
    for js "is" :: "nat list"
    by (induction js) (simp_all add: comp_def)
  then show ?thesis by (simp add: image_rows_Inr raster_def)
qed

lemma gfx_drawBitmap_pixels:
  assumes "bits_ok bm w h"
  shows "gfx_drawBitmap x y bm w h c =
    Inr (concat (map (\<lambda>(j, i). if pixel_bit bm w j i then [((x + int i, y + int j), c)] else []) (raster w h)))"
  unfolding gfx_drawBitmap_def bits_image_columns [OF assms] held_left by (rule image_rows_raster)

text \<open>The background version is the transparent one on top of a filled rectangle, and what the panel's own \<open>drawBitmap\<close> does.\<close>

lemma gfx_drawBitmap_bg_pixels:
  assumes "bits_ok bm w h"
  shows "gfx_drawBitmap_bg x y bm w h c b =
    Inr (map (\<lambda>(j, i). ((x + int i, y + int j), if pixel_bit bm w j i then c else b)) (raster w h))"
proof -
  have "concat (map (\<lambda>(j, i). [f j i]) xs) = map (\<lambda>(j, i). f j i) xs" for f :: "nat \<Rightarrow> nat \<Rightarrow> pix \<times> u16" and xs
    by (induction xs) auto
  then show ?thesis
    unfolding gfx_drawBitmap_bg_def bits_image_columns [OF assms] held_left by (simp only: image_rows_raster)
qed

text \<open>A mask lets through the pixels of the colour image whose bit is set.\<close>

lemma colour_row_in:
  assumes "image_ok bm w h" "j < nat h" "i < nat w"
  shows "colour_row enc x y bm w j i = Inr [((x + int i, y + int j), enc (bm ! nat (int j * w + int i)))]"
proof -
  have "int j * w + int i < (int j + 1) * w" using assms(3) by (simp add: algebra_simps)
  also have "\<dots> \<le> h * w" using assms by (intro mult_right_mono) (auto simp: image_ok_def)
  also have "\<dots> \<le> int (length bm)" using assms(1) by (simp add: image_ok_def)
  finally show ?thesis using assms by (simp add: colour_row_def rd_in image_ok_def)
qed

lemma drawRGBBitmap_pixels:
  assumes "image_ok bm w h"
  shows "drawRGBBitmap x y bm w h =
    Inr (map (\<lambda>(j, i). ((x + int i, y + int j), bm ! nat (int j * w + int i))) (raster w h))"
proof -
  have "drawRGBBitmap x y bm w h = image_rows (\<lambda>j. image_rows (\<lambda>i.
      Inr [((x + int i, y + int j), bm ! nat (int j * w + int i))]) [0..<nat w]) [0..<nat h]"
    unfolding drawRGBBitmap_def
    by (intro image_rows_cong) (use colour_row_in [OF assms, of _ _ id] in auto)
  moreover have "concat (map (\<lambda>(j, i). [f j i]) xs) = map (\<lambda>(j, i). f j i) xs" for f :: "nat \<Rightarrow> nat \<Rightarrow> pix \<times> u16" and xs
    by (induction xs) auto
  ultimately show ?thesis by (simp only: image_rows_raster)
qed

lemma drawRGBBitmap_mask_pixels:
  assumes "image_ok bm w h" "bits_ok opaque w h"
  shows "drawRGBBitmap_mask x y bm opaque w h =
    Inr (map (\<lambda>(j, i). ((x + int i, y + int j), bm ! nat (int j * w + int i)))
      (filter (\<lambda>(j, i). pixel_bit opaque w j i) (raster w h)))"
proof -
  have "drawRGBBitmap_mask x y bm opaque w h = image_rows (\<lambda>j. image_rows (\<lambda>i.
      Inr (if pixel_bit opaque w j i then [((x + int i, y + int j), bm ! nat (int j * w + int i))] else [])) [0..<nat w]) [0..<nat h]"
    unfolding drawRGBBitmap_mask_def bits_image_columns [OF assms(2)] held_left
    by (intro image_rows_cong) (use colour_row_in [OF assms(1), of _ _ id] in auto)
  moreover have "concat (map (\<lambda>(j, i). if P j i then [f j i] else []) xs) = map (\<lambda>(j, i). f j i) (filter (\<lambda>(j, i). P j i) xs)"
    for f :: "nat \<Rightarrow> nat \<Rightarrow> pix \<times> u16" and P xs
    by (induction xs) auto
  ultimately show ?thesis by (simp only: image_rows_raster)
qed

lemma drawXBitmap_pixels:
  assumes "bits_ok bm w h"
  shows "drawXBitmap x y bm w h c =
    Inr (concat (map (\<lambda>(j, i). if bit (bm ! nat (int j * ((w + 7) div 8) + int i div 8)) (i mod 8)
      then [((x + int i, y + int j), c)] else []) (raster w h)))"
proof -
  have "held (drop_bit 1) bm ((w + 7) div 8) (int j) i AND 1 \<noteq> 0 \<longleftrightarrow>
      bit (bm ! nat (int j * ((w + 7) div 8) + int i div 8)) (i mod 8)" for j i
    by (simp only: held_def funpow_drop_bit) (simp add: bit_iff_odd_drop_bit and_one_eq odd_iff_mod_2_eq_one)
  then show ?thesis unfolding drawXBitmap_def bits_image_columns [OF assms] by (simp only: image_rows_raster)
qed

text \<open>An image in the order of XBM files is the same image as one with every byte mirrored.\<close>

lemma drawXBitmap_mirrored:
  assumes "bits_ok bm w h" "length mirrored = length bm"
    and "\<And>k n. k < length bm \<Longrightarrow> n < 8 \<Longrightarrow> bit (mirrored ! k) (7 - n) = bit (bm ! k) n"
  shows "drawXBitmap x y bm w h c = gfx_drawBitmap x y mirrored w h c"
proof -
  have "pixel_bit mirrored w j i = bit (bm ! nat (int j * ((w + 7) div 8) + int i div 8)) (i mod 8)"
    if "(j, i) \<in> set (raster w h)" for j i
  proof -
    have r: "j < nat h" "i < nat w" using that by (auto simp: raster_def)
    then have "int i div 8 < (w + 7) div 8" by linarith
    then have "int j * ((w + 7) div 8) + int i div 8 < (int j + 1) * ((w + 7) div 8)" by (simp add: algebra_simps)
    also have "\<dots> \<le> h * ((w + 7) div 8)" using r assms(1) by (intro mult_right_mono) (auto simp: bits_ok_def)
    also have "\<dots> \<le> int (length bm)" using assms(1) by (simp add: bits_ok_def)
    finally have "int j * ((w + 7) div 8) + int i div 8 < int (length bm)" .
    moreover have "0 \<le> int j * ((w + 7) div 8) + int i div 8"
      using assms(1) by (intro add_nonneg_nonneg mult_nonneg_nonneg) (auto simp: bits_ok_def)
    ultimately have "nat (int j * ((w + 7) div 8) + int i div 8) < length bm" by (simp only: nat_less_iff)
    then show ?thesis using assms(3) by (simp add: pixel_bit_def)
  qed
  moreover have "bits_ok mirrored w h" using assms(1,2) by (simp add: bits_ok_def)
  ultimately show ?thesis
    unfolding drawXBitmap_pixels [OF assms(1)] gfx_drawBitmap_pixels [OF \<open>bits_ok mirrored w h\<close>]
    by (intro arg_cong [where f = "\<lambda>xs. Inr (concat xs)"] map_cong) auto
qed

lemma bitmap_row_columns: "bitmap_row bm bw (int j) x y byte is =
    bits_row (push_bit 1) bm bw (int j) (\<lambda>i byte. Inr [((x + int i, y + int j), if byte AND 0x80 \<noteq> 0 then 255 else 0)]) byte is"
  by (induction "is" arbitrary: byte) (simp_all add: andThen_def split: sum.splits)

lemma panel_image: "bitmap_pixels x y bm w h = gfx_drawBitmap_bg x y bm w h 255 0"
proof -
  have "bitmap_rows bm bw x y w js = image_rows (\<lambda>j. bitmap_row bm bw (int j) x y 0 [0..<w]) js" for bw w js
    by (induction js) simp_all
  then show ?thesis by (simp add: bitmap_pixels_def gfx_drawBitmap_bg_def bits_image_def bitmap_row_columns)
qed

subsection \<open>Buttons\<close>

text \<open>
  The members of a new button other than \<open>_gfx\<close> have whatever values the memory had. A label that is not
  terminated inside its ten characters is read past its end.
\<close>

record gbutton =
  ui_gfx :: bool
  ui_x1 :: int
  ui_y1 :: int
  ui_w :: u16
  ui_h :: u16
  ui_size_x :: u8
  ui_size_y :: u8
  ui_outline :: u16
  ui_fill :: u16
  ui_text :: u16
  ui_label :: string
  currstate :: bool
  laststate :: bool

definition gbutton_new :: "gbutton \<Rightarrow> gbutton" where
  "gbutton_new memory = memory\<lparr>ui_gfx := False\<rparr>"

definition c_text :: "string \<Rightarrow> string" where
  "c_text s = takeWhile (\<lambda>c. c \<noteq> CHR 0x00) s"

definition strncpy :: "string \<Rightarrow> string \<Rightarrow> nat \<Rightarrow> string" where
  "strncpy dst src n = take n (c_text src @ replicate n (CHR 0x00)) @ drop n dst"

definition initButtonUL ::
  "int \<Rightarrow> int \<Rightarrow> u16 \<Rightarrow> u16 \<Rightarrow> u16 \<Rightarrow> u16 \<Rightarrow> u16 \<Rightarrow> string \<Rightarrow> u8 \<Rightarrow> u8 \<Rightarrow> gbutton \<Rightarrow> gbutton" where
  "initButtonUL x1 y1 w h outline fill ink label sx sy b =
     b\<lparr>ui_x1 := x1, ui_y1 := y1, ui_w := w, ui_h := h, ui_outline := outline, ui_fill := fill,
       ui_text := ink, ui_size_x := sx, ui_size_y := sy, ui_gfx := True,
       ui_label := strncpy (ui_label b) label 9\<rparr>"

definition initButtonUL_size ::
  "int \<Rightarrow> int \<Rightarrow> u16 \<Rightarrow> u16 \<Rightarrow> u16 \<Rightarrow> u16 \<Rightarrow> u16 \<Rightarrow> string \<Rightarrow> u8 \<Rightarrow> gbutton \<Rightarrow> gbutton" where
  "initButtonUL_size x1 y1 w h outline fill ink label s =
     initButtonUL x1 y1 w h outline fill ink label s s"

definition initButton ::
  "int \<Rightarrow> int \<Rightarrow> u16 \<Rightarrow> u16 \<Rightarrow> u16 \<Rightarrow> u16 \<Rightarrow> u16 \<Rightarrow> string \<Rightarrow> u8 \<Rightarrow> u8 \<Rightarrow> gbutton \<Rightarrow> gbutton" where
  "initButton x y w h outline fill ink label sx sy =
     initButtonUL (to_i16 (x - uint w div 2)) (to_i16 (y - uint h div 2)) w h outline fill ink label sx sy"

definition initButton_size ::
  "int \<Rightarrow> int \<Rightarrow> u16 \<Rightarrow> u16 \<Rightarrow> u16 \<Rightarrow> u16 \<Rightarrow> u16 \<Rightarrow> string \<Rightarrow> u8 \<Rightarrow> gbutton \<Rightarrow> gbutton" where
  "initButton_size x y w h outline fill ink label s =
     initButtonUL_size (to_i16 (x - uint w div 2)) (to_i16 (y - uint h div 2)) w h outline fill ink label s"

definition setTextSize_xy :: "u8 \<Rightarrow> u8 \<Rightarrow> gfx \<Rightarrow> gfx" where
  "setTextSize_xy sx sy g =
     g\<lparr>textsize_x := (if sx > 0 then uint sx else 1), textsize_y := (if sy > 0 then uint sy else 1)\<rparr>"

fun gfx_print :: "nat list \<Rightarrow> gfx \<Rightarrow> ((pix \<times> u16) list \<times> gfx) res" where
  "gfx_print [] g = Inr ([], g)"
| "gfx_print (c # cs) g =
     andThen (gfx_write c g) (\<lambda>(ps, g). andThen (gfx_print cs g) (\<lambda>(qs, g). Inr (ps @ qs, g)))"

definition button_body :: "gbutton \<Rightarrow> pix list" where
  "button_body b =
     fillRoundRect (ui_x1 b) (ui_y1 b) (to_i16 (uint (ui_w b))) (to_i16 (uint (ui_h b)))
       (uint (min (ui_w b) (ui_h b)) div 4 mod 256)"

definition button_outline :: "gbutton \<Rightarrow> pix list" where
  "button_outline b =
     drawRoundRect (ui_x1 b) (ui_y1 b) (to_i16 (uint (ui_w b))) (to_i16 (uint (ui_h b)))
       (uint (min (ui_w b) (ui_h b)) div 4 mod 256)"

definition drawButton :: "bool \<Rightarrow> gbutton \<Rightarrow> gfx \<Rightarrow> ((pix \<times> u16) list \<times> gfx) res" where
  "drawButton inverted b g =
     (if \<not> ui_gfx b then Inl BadPointer
      else let (fill, text) = (if \<not> inverted then (ui_fill b, ui_text b) else (ui_text b, ui_fill b));
               body = map (\<lambda>q. (q, fill)) (button_body b) @ map (\<lambda>q. (q, ui_outline b)) (button_outline b)
      in if CHR 0x00 \<notin> set (ui_label b) then Inl OutOfBounds
         else let label = c_text (ui_label b);
                  g = setCursor (to_i16 (ui_x1 b + uint (ui_w b) div 2 - int (length label) * 3 * uint (ui_size_x b)))
                        (to_i16 (ui_y1 b + uint (ui_h b) div 2 - 4 * uint (ui_size_y b))) g;
                  g = setTextSize_xy (ui_size_x b) (ui_size_y b) (setTextColor text g)
         in andThen (gfx_print (map of_char label) g) (\<lambda>(ps, g). Inr (body @ ps, g)))"

definition contains :: "int \<Rightarrow> int \<Rightarrow> gbutton \<Rightarrow> bool" where
  "contains x y b \<longleftrightarrow> x \<ge> ui_x1 b \<and> x < to_i16 (ui_x1 b + uint (ui_w b)) \<and>
     y \<ge> ui_y1 b \<and> y < to_i16 (ui_y1 b + uint (ui_h b))"

definition press :: "bool \<Rightarrow> gbutton \<Rightarrow> gbutton" where
  "press p b = b\<lparr>laststate := currstate b, currstate := p\<rparr>"

definition justPressed :: "gbutton \<Rightarrow> bool" where
  "justPressed b \<longleftrightarrow> currstate b \<and> \<not> laststate b"

definition justReleased :: "gbutton \<Rightarrow> bool" where
  "justReleased b \<longleftrightarrow> \<not> currstate b \<and> laststate b"

definition isPressed :: "gbutton \<Rightarrow> bool" where
  "isPressed b = currstate b"

text \<open>A button that lies in the range of \<open>int16_t\<close> contains every pixel of its body, and no pixel when it does not.\<close>

definition button_fits :: "gbutton \<Rightarrow> bool" where
  "button_fits b \<longleftrightarrow> 1 \<le> uint (ui_w b) \<and> 1 \<le> uint (ui_h b) \<and> - 32768 \<le> ui_x1 b \<and> - 32768 \<le> ui_y1 b \<and>
     ui_x1 b + uint (ui_w b) < 32768 \<and> ui_y1 b + uint (ui_h b) < 32768 \<and>
     uint (ui_w b) < 32768 \<and> uint (ui_h b) < 32768"

lemma body_contained:
  assumes "button_fits b" "(x, y) \<in> set (button_body b)"
  shows "contains x y b"
proof -
  have i: "to_i16 (uint (ui_w b)) = uint (ui_w b)" "to_i16 (uint (ui_h b)) = uint (ui_h b)"
    "to_i16 (ui_x1 b + uint (ui_w b)) = ui_x1 b + uint (ui_w b)"
    "to_i16 (ui_y1 b + uint (ui_h b)) = ui_y1 b + uint (ui_h b)"
    using assms(1) by (auto simp: button_fits_def intro!: to_i16_id)
  have "in_box (ui_x1 b) (ui_y1 b) (uint (ui_w b)) (uint (ui_h b)) (button_body b)"
    unfolding button_body_def i(1,2) using assms(1) by (intro in_box_fillRoundRect) (auto simp: button_fits_def)
  then show ?thesis using assms(2) by (auto simp: in_box_def contains_def i)
qed

lemma wide_button_contains_nothing:
  assumes "ui_x1 b + uint (ui_w b) = 32768"
  shows "\<not> contains x y b"
proof
  assume c: "contains x y b"
  have "to_i16 32768 = - 32768" by (simp add: to_i16_def)
  with c assms have "ui_x1 b < - 32768" by (simp add: contains_def)
  moreover have "uint (ui_w b) < 65536" using uint_lt2p [of "ui_w b"] by simp
  ultimately show False using assms by simp
qed

text \<open>A label of nine characters or more is not terminated when the last byte of the member was not zero.\<close>

lemma long_label_overread:
  assumes "length (ui_label m) = 10" "ui_label m ! 9 \<noteq> CHR 0x00" "9 \<le> length (c_text label)"
  shows "drawButton i (initButtonUL x1 y1 w h ol f t label sx sy m) g = Inl OutOfBounds"
proof -
  have "drop 9 (ui_label m) = [ui_label m ! 9]"
    using assms(1) Cons_nth_drop_Suc [of 9 "ui_label m"] by simp
  then have "strncpy (ui_label m) label 9 = take 9 (c_text label) @ [ui_label m ! 9]"
    using assms(3) by (simp add: strncpy_def)
  moreover have "CHR 0x00 \<notin> set (take 9 (c_text label))"
    by (auto simp: c_text_def dest!: in_set_takeD dest: set_takeWhileD)
  ultimately show ?thesis using assms(2) by (simp add: drawButton_def initButtonUL_def Let_def split_beta)
qed

end
