(* ===== verification/Offscreen.thy ===== *)
theory Offscreen
  imports Canvas Gfx_Shapes
begin

section \<open>Off-screen canvases\<close>

text \<open>
  The classes \<open>GFXcanvas1\<close>, \<open>GFXcanvas8\<close> and \<open>GFXcanvas16\<close> of \<^verbatim>\<open>Adafruit_GFX.cpp\<close>: pictures in memory with
  one, eight and sixteen bits a pixel. A canvas whose memory could not be allocated has no buffer. The
  width and height given to the constructor are \<open>uint16_t\<close>, the members \<open>int16_t\<close>; both are taken to be
  below 32768 where a whole buffer is filled. The destructors, which free the buffer, are left out.
\<close>

subsection \<open>The interface: a store of pixels\<close>

text \<open>
  The contract behind all of them, and behind the panel: writing a pixel changes this pixel, if it is in the
  area, to what the store makes of the colour (\<open>enc\<close>), and no other.
\<close>

locale pixel_store =
  fixes put :: "pix \<Rightarrow> u16 \<Rightarrow> 's \<Rightarrow> 's res"
    and shade :: "'s \<Rightarrow> pix \<Rightarrow> 'v"
    and enc :: "u16 \<Rightarrow> 'v"
    and area :: "'s \<Rightarrow> pix \<Rightarrow> bool"
    and good :: "'s \<Rightarrow> bool"
  assumes put_stays: "good s \<Longrightarrow> \<exists>s'. put q c s = Inr s' \<and> good s' \<and> area s' = area s"
    and put_shade: "good s \<Longrightarrow> put q c s = Inr s' \<Longrightarrow>
      shade s' = (if area s q then (shade s)(q := enc c) else shade s)"
begin

fun shaded :: "(pix \<Rightarrow> bool) \<Rightarrow> (pix \<times> u16) list \<Rightarrow> (pix \<Rightarrow> 'v) \<Rightarrow> (pix \<Rightarrow> 'v)" where
  "shaded a [] d = d"
| "shaded a ((q, c) # ps) d = shaded a ps (if a q then d(q := enc c) else d)"

lemma store_paint:
  assumes "good s"
  shows "\<exists>s'. forr ps (\<lambda>(q, c). put q c) s = Inr s' \<and> good s' \<and> area s' = area s \<and>
              shade s' = shaded (area s) ps (shade s)"
  using assms
proof (induction ps arbitrary: s)
  case (Cons pc ps)
  obtain q c where pc: "pc = (q, c)" by (cases pc)
  obtain t where t: "put q c s = Inr t" "good t" "area t = area s"
    using put_stays [OF Cons.prems] by blast
  with Cons.IH [OF t(2)] put_shade [OF Cons.prems t(1)] show ?case
    by (auto simp: pc)
qed simp

lemma shaded_solid:
  "shaded a (map (\<lambda>q. (q, c)) qs) d q = (if q \<in> set qs \<and> a q then enc c else d q)"
  by (induction qs arbitrary: d) auto

lemma store_solid:
  assumes "good s"
  shows "\<exists>s'. forr (map (\<lambda>q. (q, c)) qs) (\<lambda>(q, c). put q c) s = Inr s' \<and> good s' \<and> area s' = area s \<and>
              (\<forall>q. shade s' q = (if q \<in> set qs \<and> area s q then enc c else shade s q))"
  using store_paint [OF assms, of "map (\<lambda>q. (q, c)) qs"] shaded_solid by auto

end

sublocale canvas \<subseteq> store: pixel_store put dark "\<lambda>c. c = 0" area good
  by unfold_locales (use put_good put_dark in auto)

subsection \<open>State\<close>

record 'v offscreen =
  c_WIDTH :: int
  c_HEIGHT :: int
  c_width :: int
  c_height :: int
  c_rotation :: nat
  c_buffer :: "'v list option"

definition canvas_init :: "u16 \<Rightarrow> u16 \<Rightarrow> 'v list option \<Rightarrow> 'v offscreen" where
  "canvas_init w h buf = \<lparr>c_WIDTH = to_i16 (uint w), c_HEIGHT = to_i16 (uint h), c_width = to_i16 (uint w),
     c_height = to_i16 (uint h), c_rotation = 0, c_buffer = buf\<rparr>"

definition canvas_rotate :: "nat \<Rightarrow> 'v offscreen \<Rightarrow> 'v offscreen" where
  "canvas_rotate x c =
     (let r = x mod 4
      in if even r then c\<lparr>c_rotation := r, c_width := c_WIDTH c, c_height := c_HEIGHT c\<rparr>
         else c\<lparr>c_rotation := r, c_width := c_HEIGHT c, c_height := c_WIDTH c\<rparr>)"

definition canvas_point :: "'v offscreen \<Rightarrow> int \<Rightarrow> int \<Rightarrow> pix" where
  "canvas_point c x y =
     (if c_rotation c = 1 then (c_WIDTH c - 1 - y, x)
      else if c_rotation c = 2 then (c_WIDTH c - 1 - x, c_HEIGHT c - 1 - y)
      else if c_rotation c = 3 then (y, c_HEIGHT c - 1 - x)
      else (x, y))"

definition outside :: "'v offscreen \<Rightarrow> int \<Rightarrow> int \<Rightarrow> bool" where
  "outside c x y \<longleftrightarrow> x < 0 \<or> y < 0 \<or> x \<ge> c_width c \<or> y \<ge> c_height c"

text \<open>\<open>memset\<close> on a part of the buffer; a negative length is a huge one.\<close>

definition mem_set :: "int \<Rightarrow> int \<Rightarrow> 'v \<Rightarrow> 'v list \<Rightarrow> 'v list res" where
  "mem_set i n v xs =
     (if n = 0 then Inr xs
      else if 0 \<le> i \<and> 0 < n \<and> i + n \<le> int (length xs) then
        Inr (take (nat i) xs @ replicate (nat n) v @ drop (nat (i + n)) xs)
      else Inl OutOfBounds)"

subsection \<open>\<open>GFXcanvas1\<close>\<close>

definition canvas1_bytes :: "int \<Rightarrow> int \<Rightarrow> int" where
  "canvas1_bytes w h = (w + 7) div 8 * h mod 65536"

definition canvas1_new :: "bool \<Rightarrow> u16 \<Rightarrow> u16 \<Rightarrow> u8 offscreen" where
  "canvas1_new memory w h =
     canvas_init w h (if memory then Some (replicate (nat (canvas1_bytes (uint w) (uint h))) 0) else None)"

definition canvas1_drawPixel :: "int \<Rightarrow> int \<Rightarrow> u16 \<Rightarrow> u8 offscreen \<Rightarrow> u8 offscreen res" where
  "canvas1_drawPixel x y color c =
     (case c_buffer c of
        None \<Rightarrow> Inr c
      | Some bs \<Rightarrow>
          if outside c x y then Inr c
          else let (x, y) = canvas_point c x y;
                   i = x div 8 + y * ((c_WIDTH c + 7) div 8);
                   m = drop_bit (nat (x mod 8)) 0x80
            in andThen (rd bs i) (\<lambda>b. andThen (wr bs i (if color \<noteq> 0 then b OR m else b AND NOT m))
                 (\<lambda>bs. Inr (c\<lparr>c_buffer := Some bs\<rparr>))))"

definition canvas1_fillScreen :: "u16 \<Rightarrow> u8 offscreen \<Rightarrow> u8 offscreen res" where
  "canvas1_fillScreen color c =
     (case c_buffer c of
        None \<Rightarrow> Inr c
      | Some bs \<Rightarrow> andThen (mem_set 0 (canvas1_bytes (c_WIDTH c) (c_HEIGHT c)) (if color \<noteq> 0 then 0xFF else 0x00) bs)
          (\<lambda>bs. Inr (c\<lparr>c_buffer := Some bs\<rparr>)))"

subsection \<open>\<open>GFXcanvas8\<close>\<close>

definition canvas8_new :: "bool \<Rightarrow> u16 \<Rightarrow> u16 \<Rightarrow> u8 offscreen" where
  "canvas8_new memory w h = canvas_init w h (if memory then Some (replicate (unat w * unat h) 0) else None)"

definition put_value :: "(u16 \<Rightarrow> 'v) \<Rightarrow> int \<Rightarrow> int \<Rightarrow> u16 \<Rightarrow> 'v offscreen \<Rightarrow> 'v offscreen res" where
  "put_value enc x y color c =
     (case c_buffer c of
        None \<Rightarrow> Inr c
      | Some bs \<Rightarrow>
          if outside c x y then Inr c
          else let (x, y) = canvas_point c x y
            in andThen (wr bs (x + y * c_WIDTH c) (enc color)) (\<lambda>bs. Inr (c\<lparr>c_buffer := Some bs\<rparr>)))"

definition canvas8_drawPixel :: "int \<Rightarrow> int \<Rightarrow> u16 \<Rightarrow> u8 offscreen \<Rightarrow> u8 offscreen res" where
  "canvas8_drawPixel = put_value ucast"

definition canvas8_fillScreen :: "u16 \<Rightarrow> u8 offscreen \<Rightarrow> u8 offscreen res" where
  "canvas8_fillScreen color c =
     (case c_buffer c of
        None \<Rightarrow> Inr c
      | Some bs \<Rightarrow> andThen (mem_set 0 (c_WIDTH c * c_HEIGHT c) (ucast color) bs) (\<lambda>bs. Inr (c\<lparr>c_buffer := Some bs\<rparr>)))"

text \<open>The horizontal line writes a run of bytes, in every rotation, and does not look whether there is a buffer.\<close>

definition canvas8_writeFastHLine :: "int \<Rightarrow> int \<Rightarrow> int \<Rightarrow> u16 \<Rightarrow> u8 offscreen \<Rightarrow> u8 offscreen res" where
  "canvas8_writeFastHLine x y w color c =
     (if x \<ge> c_width c \<or> y < 0 \<or> y \<ge> c_height c then Inr c
      else let x2 = x + w - 1
      in if x2 < 0 then Inr c
         else let (x, w) = (if x < 0 then (0, x2 + 1) else (x, w));
                  w = (if x2 \<ge> c_width c then c_width c - x else w);
                  (x, y) = canvas_point c x y
           in case c_buffer c of
                None \<Rightarrow> if w = 0 then Inr c else Inl BadPointer
              | Some bs \<Rightarrow> andThen (mem_set (y * c_WIDTH c + x) w (ucast color) bs)
                  (\<lambda>bs. Inr (c\<lparr>c_buffer := Some bs\<rparr>)))"

subsection \<open>\<open>GFXcanvas16\<close>\<close>

definition canvas16_new :: "bool \<Rightarrow> u16 \<Rightarrow> u16 \<Rightarrow> u16 offscreen" where
  "canvas16_new memory w h = canvas_init w h
     (if memory then Some (replicate (nat (uint w * uint h * 2 mod 2 ^ 32) div 2) 0) else None)"

definition canvas16_drawPixel :: "int \<Rightarrow> int \<Rightarrow> u16 \<Rightarrow> u16 offscreen \<Rightarrow> u16 offscreen res" where
  "canvas16_drawPixel = put_value id"

text \<open>Both branches of \<open>fillScreen\<close> write the colour to every pixel; with two equal bytes \<open>memset\<close> does it.\<close>

definition canvas16_fillScreen :: "u16 \<Rightarrow> u16 offscreen \<Rightarrow> u16 offscreen res" where
  "canvas16_fillScreen color c =
     (case c_buffer c of
        None \<Rightarrow> Inr c
      | Some bs \<Rightarrow>
          let hi = drop_bit 8 color; lo = color AND 0xFF; pixels = c_WIDTH c * c_HEIGHT c
          in if hi = lo then andThen (mem_set 0 pixels (lo OR push_bit 8 lo) bs) (\<lambda>bs. Inr (c\<lparr>c_buffer := Some bs\<rparr>))
             else andThen (forr [0..pixels - 1] (\<lambda>i bs. wr bs i color) bs) (\<lambda>bs. Inr (c\<lparr>c_buffer := Some bs\<rparr>)))"

definition bswap16 :: "u16 \<Rightarrow> u16" where
  "bswap16 v = push_bit 8 v OR drop_bit 8 v"

definition canvas16_byteSwap :: "u16 offscreen \<Rightarrow> u16 offscreen res" where
  "canvas16_byteSwap c =
     (case c_buffer c of
        None \<Rightarrow> Inr c
      | Some bs \<Rightarrow> andThen (forr [0..c_WIDTH c * c_HEIGHT c - 1]
           (\<lambda>i bs. andThen (rd bs i) (\<lambda>v. wr bs i (bswap16 v))) bs) (\<lambda>bs. Inr (c\<lparr>c_buffer := Some bs\<rparr>)))"

subsection \<open>Canvases are stores of pixels\<close>

definition canvas_ok :: "'v offscreen \<Rightarrow> bool" where
  "canvas_ok c \<longleftrightarrow> 0 \<le> c_WIDTH c \<and> 0 \<le> c_HEIGHT c \<and> c_rotation c < 4 \<and>
     c_width c = (if even (c_rotation c) then c_WIDTH c else c_HEIGHT c) \<and>
     c_height c = (if even (c_rotation c) then c_HEIGHT c else c_WIDTH c)"

definition canvas_area :: "'v offscreen \<Rightarrow> pix \<Rightarrow> bool" where
  "canvas_area c q \<longleftrightarrow> c_buffer c \<noteq> None \<and> \<not> outside c (fst q) (snd q)"

lemma four_rotations: "canvas_ok c \<Longrightarrow> c_rotation c = 0 \<or> c_rotation c = 1 \<or> c_rotation c = 2 \<or> c_rotation c = 3"
  by (auto simp: canvas_ok_def)

lemma canvas_point_in:
  assumes "canvas_ok c" "\<not> outside c x y" "canvas_point c x y = (a, b)"
  shows "0 \<le> a" "a < c_WIDTH c" "0 \<le> b" "b < c_HEIGHT c"
  using four_rotations [OF assms(1)] assms by (auto simp: canvas_ok_def outside_def canvas_point_def)

lemma canvas_point_inj:
  "canvas_ok c \<Longrightarrow> canvas_point c x y = canvas_point c u v \<Longrightarrow> x = u \<and> y = v"
  using four_rotations [of c] by (auto simp: canvas_point_def)

lemma canvas_buffer_simps [simp]:
  "canvas_point (c\<lparr>c_buffer := b\<rparr>) = canvas_point c" "outside (c\<lparr>c_buffer := b\<rparr>) = outside c"
  "canvas_ok (c\<lparr>c_buffer := b\<rparr>) = canvas_ok c"
  by (simp_all add: canvas_point_def outside_def canvas_ok_def fun_eq_iff)

lemma canvas_rotate_ok: "canvas_ok c \<Longrightarrow> canvas_ok (canvas_rotate r c)"
  by (auto simp: canvas_ok_def canvas_rotate_def Let_def)

text \<open>Positions in a buffer of rows of equal length.\<close>

lemma row_major_bounds:
  fixes x y :: int
  assumes "0 \<le> x" "x < w" "0 \<le> y" "y < h"
  shows "0 \<le> x + y * w" "x + y * w < w * h"
proof -
  show "0 \<le> x + y * w" using assms by simp
  have "x + y * w < (y + 1) * w" using assms by (simp add: algebra_simps)
  also have "\<dots> \<le> h * w" using assms by (intro mult_right_mono) auto
  finally show "x + y * w < w * h" by (simp add: mult.commute)
qed

lemma row_major_inj:
  fixes x y u v :: int
  assumes "0 \<le> x" "x < w" "0 \<le> u" "u < w" "x + y * w = u + v * w"
  shows "x = u \<and> y = v"
proof -
  have "(x + y * w) div w = (u + v * w) div w" "(x + y * w) mod w = (u + v * w) mod w" using assms(5) by simp_all
  then show ?thesis using assms(1-4) by (simp add: div_pos_pos_trivial)
qed

definition value_at :: "'v offscreen \<Rightarrow> pix \<Rightarrow> 'v option" where
  "value_at c q =
     (if canvas_area c q then
        (case canvas_point c (fst q) (snd q) of (x, y) \<Rightarrow> Some (the (c_buffer c) ! nat (x + y * c_WIDTH c)))
      else None)"

definition values_ok :: "'v offscreen \<Rightarrow> bool" where
  "values_ok c \<longleftrightarrow> canvas_ok c \<and> (\<forall>bs. c_buffer c = Some bs \<longrightarrow> int (length bs) = c_WIDTH c * c_HEIGHT c)"

lemma put_value_inside:
  assumes "values_ok c" "canvas_area c (x, y)" "canvas_point c x y = (a, b)"
  shows "put_value enc x y color c = Inr (c\<lparr>c_buffer := Some ((the (c_buffer c))[nat (a + b * c_WIDTH c) := enc color])\<rparr>)"
proof -
  obtain bs where bs: "c_buffer c = Some bs" "\<not> outside c x y" using assms(2) by (auto simp: canvas_area_def)
  have "0 \<le> a + b * c_WIDTH c \<and> a + b * c_WIDTH c < int (length bs)"
    using row_major_bounds [of a "c_WIDTH c" b "c_HEIGHT c"] canvas_point_in [OF _ bs(2) assms(3)] assms(1) bs(1)
    by (simp add: values_ok_def)
  then show ?thesis using bs assms(3) by (simp add: put_value_def wr_in)
qed

lemma put_value_outside: "\<not> canvas_area c (x, y) \<Longrightarrow> put_value enc x y color c = Inr c"
  by (auto simp: put_value_def canvas_area_def split: option.splits)

lemma put_value_stays:
  assumes "values_ok c"
  shows "\<exists>c'. put_value enc x y color c = Inr c' \<and> values_ok c' \<and> canvas_area c' = canvas_area c"
proof (cases "canvas_area c (x, y)")
  case True
  obtain a b where ab: "canvas_point c x y = (a, b)" by fastforce
  obtain bs where "c_buffer c = Some bs" using True by (auto simp: canvas_area_def)
  then show ?thesis
    using put_value_inside [OF assms True ab] assms by (simp add: values_ok_def canvas_area_def fun_eq_iff)
qed (simp add: put_value_outside assms)

lemma put_value_shade:
  assumes "values_ok c" "put_value enc x y color c = Inr c'"
  shows "value_at c' = (if canvas_area c (x, y) then (value_at c)((x, y) := Some (enc color)) else value_at c)"
proof (cases "canvas_area c (x, y)")
  case False
  then show ?thesis using assms(2) put_value_outside by fastforce
next
  case True
  obtain a b where ab: "canvas_point c x y = (a, b)" by fastforce
  obtain bs where bs: "c_buffer c = Some bs" "\<not> outside c x y" using True by (auto simp: canvas_area_def)
  let ?i = "nat (a + b * c_WIDTH c)"
  have c': "c' = c\<lparr>c_buffer := Some (bs[?i := enc color])\<rparr>"
    using put_value_inside [OF assms(1) True ab] assms(2) bs by simp
  have ok: "canvas_ok c" "int (length bs) = c_WIDTH c * c_HEIGHT c" using assms(1) bs by (simp_all add: values_ok_def)
  note r = canvas_point_in [OF ok(1) bs(2) ab]
  have area: "canvas_area c' = canvas_area c" using bs by (simp add: c' canvas_area_def fun_eq_iff)
  have "value_at c' (u, v) = ((value_at c)((x, y) := Some (enc color))) (u, v)" for u v
  proof (cases "canvas_area c (u, v)")
    case False
    then show ?thesis using True area by (auto simp: value_at_def)
  next
    case uv: True
    obtain p q where pq: "canvas_point c u v = (p, q)" by fastforce
    have r': "0 \<le> p" "p < c_WIDTH c" "0 \<le> q" "q < c_HEIGHT c"
      using canvas_point_in [OF ok(1) _ pq] uv by (auto simp: canvas_area_def)
    have same: "nat (p + q * c_WIDTH c) = ?i \<longleftrightarrow> (u, v) = (x, y)"
    proof
      assume "nat (p + q * c_WIDTH c) = ?i"
      then have "p + q * c_WIDTH c = a + b * c_WIDTH c"
        using row_major_bounds [OF r'] row_major_bounds [OF r] by linarith
      then have "(p, q) = (a, b)" using row_major_inj [OF r'(1,2) r(1,2)] by simp
      then show "(u, v) = (x, y)" using canvas_point_inj [OF ok(1), of u v x y] ab pq by simp
    qed (use ab pq in auto)
    have "?i < length bs" using row_major_bounds [OF r] ok(2) by linarith
    then show ?thesis using uv True area bs(1) pq same by (auto simp: value_at_def c')
  qed
  then show ?thesis using True by auto
qed

interpretation gray: pixel_store "\<lambda>q. canvas8_drawPixel (fst q) (snd q)" value_at "\<lambda>c. Some (ucast c)" canvas_area values_ok
  by unfold_locales (auto simp: canvas8_drawPixel_def intro: put_value_stays dest: put_value_shade)

interpretation colour: pixel_store "\<lambda>q. canvas16_drawPixel (fst q) (snd q)" value_at Some canvas_area values_ok
  by unfold_locales (auto simp: canvas16_drawPixel_def intro: put_value_stays dest: put_value_shade)

text \<open>One bit a pixel.\<close>

definition bits_at :: "u8 offscreen \<Rightarrow> pix \<Rightarrow> bool" where
  "bits_at c q \<longleftrightarrow> canvas_area c q \<and>
     (case canvas_point c (fst q) (snd q) of (x, y) \<Rightarrow>
        bit (the (c_buffer c) ! nat (x div 8 + y * ((c_WIDTH c + 7) div 8))) (nat (7 - x mod 8)))"

definition canvas1_ok :: "u8 offscreen \<Rightarrow> bool" where
  "canvas1_ok c \<longleftrightarrow> canvas_ok c \<and>
     (\<forall>bs. c_buffer c = Some bs \<longrightarrow> int (length bs) = (c_WIDTH c + 7) div 8 * c_HEIGHT c)"

definition set_bit1 :: "int \<Rightarrow> u16 \<Rightarrow> u8 \<Rightarrow> u8" where
  "set_bit1 x color b = (if color \<noteq> 0 then b OR drop_bit (nat (x mod 8)) 0x80 else b AND NOT (drop_bit (nat (x mod 8)) 0x80))"

lemma bit_0x80: "k < 8 \<Longrightarrow> bit (drop_bit k (0x80 :: u8)) n \<longleftrightarrow> n = 7 - k"
proof -
  assume "k < 8"
  have "(0x80 :: u8) = push_bit 7 1" by simp
  then show ?thesis using \<open>k < 8\<close>
    by (simp only: bit_drop_bit_eq comp_apply bit_push_bit_iff bit_1_iff) auto
qed

lemma bit_set_bit1: "n < 8 \<Longrightarrow> bit (set_bit1 x color b) n = (if n = nat (7 - x mod 8) then color \<noteq> 0 else bit b n)"
proof -
  assume n: "n < 8"
  have k: "nat (x mod 8) < 8" "7 - nat (x mod 8) = nat (7 - x mod 8)"
    using pos_mod_bound [of 8 x] pos_mod_sign [of 8 x] by linarith+
  show ?thesis using n bit_0x80 [OF k(1), of n] k(2)
    by (auto simp: set_bit1_def bit_or_iff bit_and_iff bit_not_iff)
qed

lemma canvas1_inside:
  assumes "canvas1_ok c" "canvas_area c (x, y)" "canvas_point c x y = (a, b)"
  defines "i \<equiv> nat (a div 8 + b * ((c_WIDTH c + 7) div 8))"
  shows "canvas1_drawPixel x y color c =
    Inr (c\<lparr>c_buffer := Some ((the (c_buffer c))[i := set_bit1 a color (the (c_buffer c) ! i)])\<rparr>)"
    and "i < length (the (c_buffer c))" "0 \<le> a div 8 + b * ((c_WIDTH c + 7) div 8)"
proof -
  obtain bs where bs: "c_buffer c = Some bs" "\<not> outside c x y" using assms(2) by (auto simp: canvas_area_def)
  have r: "0 \<le> a" "a < c_WIDTH c" "0 \<le> b" "b < c_HEIGHT c"
    using canvas_point_in [OF _ bs(2) assms(3)] assms(1) by (simp_all add: canvas1_ok_def)
  then have "0 \<le> a div 8" "a div 8 < (c_WIDTH c + 7) div 8" by linarith+
  with r(3,4) have "0 \<le> a div 8 + b * ((c_WIDTH c + 7) div 8)" "a div 8 + b * ((c_WIDTH c + 7) div 8) < int (length bs)"
    using row_major_bounds [of "a div 8" "(c_WIDTH c + 7) div 8" b "c_HEIGHT c"] assms(1) bs(1)
    by (simp_all add: canvas1_ok_def)
  then show "canvas1_drawPixel x y color c =
    Inr (c\<lparr>c_buffer := Some ((the (c_buffer c))[i := set_bit1 a color (the (c_buffer c) ! i)])\<rparr>)"
    and "i < length (the (c_buffer c))" "0 \<le> a div 8 + b * ((c_WIDTH c + 7) div 8)"
    using bs assms(3) unfolding i_def by (simp_all add: canvas1_drawPixel_def set_bit1_def rd_in wr_in Let_def)
qed

lemma canvas1_outside: "\<not> canvas_area c (x, y) \<Longrightarrow> canvas1_drawPixel x y color c = Inr c"
  by (auto simp: canvas1_drawPixel_def canvas_area_def split: option.splits)

lemma canvas1_stays:
  assumes "canvas1_ok c"
  shows "\<exists>c'. canvas1_drawPixel x y color c = Inr c' \<and> canvas1_ok c' \<and> canvas_area c' = canvas_area c"
proof (cases "canvas_area c (x, y)")
  case True
  obtain a b where ab: "canvas_point c x y = (a, b)" by fastforce
  obtain bs where "c_buffer c = Some bs" using True by (auto simp: canvas_area_def)
  then show ?thesis
    using canvas1_inside(1) [OF assms True ab] assms by (simp add: canvas1_ok_def canvas_area_def fun_eq_iff)
qed (simp add: canvas1_outside assms)

lemma canvas1_shade:
  assumes "canvas1_ok c" "canvas1_drawPixel x y color c = Inr c'"
  shows "bits_at c' = (if canvas_area c (x, y) then (bits_at c)((x, y) := (color \<noteq> 0)) else bits_at c)"
proof (cases "canvas_area c (x, y)")
  case False
  then show ?thesis using assms(2) canvas1_outside by fastforce
next
  case True
  obtain a b where ab: "canvas_point c x y = (a, b)" by fastforce
  obtain bs where bs: "c_buffer c = Some bs" "\<not> outside c x y" using True by (auto simp: canvas_area_def)
  define W where "W = (c_WIDTH c + 7) div 8"
  let ?i = "nat (a div 8 + b * W)"
  note ins = canvas1_inside [OF assms(1) True ab, folded W_def]
  have c': "c' = c\<lparr>c_buffer := Some (bs[?i := set_bit1 a color (bs ! ?i)])\<rparr>"
    using ins(1) assms(2) bs by simp
  have ok: "canvas_ok c" using assms(1) by (simp add: canvas1_ok_def)
  note r = canvas_point_in [OF ok bs(2) ab]
  have area: "canvas_area c' = canvas_area c" using bs by (simp add: c' canvas_area_def fun_eq_iff)
  have "bits_at c' (u, v) = ((bits_at c)((x, y) := (color \<noteq> 0))) (u, v)" for u v
  proof (cases "canvas_area c (u, v)")
    case False
    then show ?thesis using True area by (auto simp: bits_at_def)
  next
    case uv: True
    obtain p q where pq: "canvas_point c u v = (p, q)" by fastforce
    have r': "0 \<le> p" "p < c_WIDTH c" "0 \<le> q" "q < c_HEIGHT c"
      using canvas_point_in [OF ok _ pq] uv by (auto simp: canvas_area_def)
    have cols: "0 \<le> p div 8" "p div 8 < W" "0 \<le> a div 8" "a div 8 < W" using r r' by (simp_all add: W_def)
    have n: "nat (7 - p mod 8) < 8" using pos_mod_sign [of 8 p] by linarith
    have same: "(u, v) = (x, y)" if "nat (p div 8 + q * W) = ?i" "nat (7 - p mod 8) = nat (7 - a mod 8)"
    proof -
      have "p div 8 + q * W = a div 8 + b * W"
        using that(1) ins(3) row_major_bounds [OF cols(1,2) r'(3,4)] by linarith
      then have d: "p div 8 = a div 8" "q = b" using row_major_inj [OF cols] by auto
      moreover have "p mod 8 = a mod 8"
        using that(2) pos_mod_bound [of 8 p] pos_mod_bound [of 8 a] by linarith
      ultimately have "(p, q) = (a, b)" by (metis mult_div_mod_eq)
      then show ?thesis using canvas_point_inj [OF ok, of u v x y] ab pq by simp
    qed
    have at: "bits_at c' (u, v) = bit (bs[?i := set_bit1 a color (bs ! ?i)] ! nat (p div 8 + q * W)) (nat (7 - p mod 8))"
      "bits_at c (u, v) = bit (bs ! nat (p div 8 + q * W)) (nat (7 - p mod 8))"
      using uv area pq bs(1) by (simp_all add: bits_at_def c' W_def)
    show ?thesis
    proof (cases "(u, v) = (x, y)")
      case True
      then show ?thesis using at(1) ab pq ins(2) bs(1) n by (auto simp: bit_set_bit1)
    next
      case False
      then show ?thesis using at same ins(2) bs(1) n
        by (cases "nat (p div 8 + q * W) = ?i") (auto simp: bit_set_bit1)
    qed
  qed
  then show ?thesis using True by auto
qed

interpretation mono: pixel_store "\<lambda>q. canvas1_drawPixel (fst q) (snd q)" bits_at "\<lambda>c. c \<noteq> 0" canvas_area canvas1_ok
  by unfold_locales (auto intro: canvas1_stays dest: canvas1_shade)

text \<open>New canvases, as long as their size fits the members; the buffer of a large one-bit canvas is too short.\<close>

lemma i16_of_u16: "uint (w :: u16) < 32768 \<Longrightarrow> to_i16 (uint w) = uint w"
  by (rule to_i16_id) (use uint_ge_0 [of w] in linarith)+

lemma canvas_init_ok: "uint w < 32768 \<Longrightarrow> uint h < 32768 \<Longrightarrow> canvas_ok (canvas_init w h b)"
  by (simp add: canvas_ok_def canvas_init_def i16_of_u16)

lemma canvas_init_members:
  "c_buffer (canvas_init w h b) = b"
  "uint w < 32768 \<Longrightarrow> c_WIDTH (canvas_init w h b) = uint w"
  "uint h < 32768 \<Longrightarrow> c_HEIGHT (canvas_init w h b) = uint h"
  by (simp_all add: canvas_init_def i16_of_u16)

lemma canvas8_new_ok: "uint w < 32768 \<Longrightarrow> uint h < 32768 \<Longrightarrow> values_ok (canvas8_new m w h)"
  by (simp add: values_ok_def canvas8_new_def canvas_init_ok canvas_init_members)

lemma canvas16_new_ok:
  assumes "uint w < 32768" "uint h < 32768"
  shows "values_ok (canvas16_new m w h)"
proof -
  define p where "p = uint w * uint h"
  have "p \<le> 32767 * 32767" unfolding p_def using assms by (intro mult_mono) auto
  moreover have "0 \<le> p" by (simp add: p_def)
  ultimately have "p * 2 mod 2 ^ 32 = p * 2" by (simp add: mod_pos_pos_trivial)
  then have "uint w * uint h * 2 mod 2 ^ 32 = uint w * uint h * 2" by (simp only: p_def)
  then have "int (nat (uint w * uint h * 2 mod 2 ^ 32) div 2) = uint w * uint h" by (simp add: nat_mult_distrib)
  then show ?thesis using assms by (simp add: values_ok_def canvas16_new_def canvas_init_ok canvas_init_members)
qed

lemma canvas1_new_ok:
  assumes "uint w < 32768" "uint h < 32768" "(uint w + 7) div 8 * uint h < 65536"
  shows "canvas1_ok (canvas1_new m w h)"
proof -
  have "0 \<le> (uint w + 7) div 8 * uint h"
    by (intro mult_nonneg_nonneg) (simp_all add: pos_imp_zdiv_nonneg_iff)
  then have "(uint w + 7) div 8 * uint h mod 65536 = (uint w + 7) div 8 * uint h"
    using assms(3) by (intro mod_pos_pos_trivial)
  then show ?thesis
    using assms(1,2) \<open>0 \<le> _\<close> by (simp add: canvas1_ok_def canvas1_new_def canvas1_bytes_def canvas_init_ok canvas_init_members)
qed

lemma large_canvas1_overrun: "canvas1_drawPixel 0 0 1 (canvas1_new True 1024 512) = Inl OutOfBounds"
  by (simp add: canvas1_drawPixel_def canvas1_new_def canvas_init_def canvas1_bytes_def outside_def canvas_point_def
      to_i16_id rd_def)

subsection \<open>Filling\<close>

lemma mem_set_nth:
  assumes "mem_set i n v xs = Inr ys" "k < length xs"
  shows "length ys = length xs \<and> ys ! k = (if i \<le> int k \<and> int k < i + n then v else xs ! k)"
proof (cases "n = 0")
  case True
  then show ?thesis using assms by (auto simp: mem_set_def)
next
  case False
  then have i: "0 \<le> i" "0 < n" "i + n \<le> int (length xs)" and
    ys: "ys = take (nat i) xs @ replicate (nat n) v @ drop (nat (i + n)) xs"
    using assms(1) by (auto simp: mem_set_def split: if_splits)
  obtain A B where ab: "i = int A" "n = int B" using i by (metis nonneg_int_cases less_imp_le)
  then have ys: "ys = take A xs @ replicate B v @ drop (A + B) xs" and l: "A + B \<le> length xs"
    using i ys by (simp_all add: nat_int_add)
  have "ys ! k = (if A \<le> k \<and> k < A + B then v else xs ! k)"
    using assms(2) l by (auto simp: ys nth_append)
  then show ?thesis using l by (simp add: ab ys)
qed

text \<open>
  The run of bytes and the pixels one by one: the optimised line is the line of the base class when the
  canvas is upright.
\<close>

definition draw_line8 :: "int \<Rightarrow> int \<Rightarrow> int \<Rightarrow> u16 \<Rightarrow> u8 offscreen \<Rightarrow> u8 offscreen res" where
  "draw_line8 x y w color = forr (map (\<lambda>q. (q, color)) (drawFastHLine x y w)) (\<lambda>(q, k). canvas8_drawPixel (fst q) (snd q) k)"

lemma upright_line_values:
  assumes "values_ok c" "c_rotation c = 0" "c_buffer c \<noteq> None" "1 \<le> w"
  shows "\<exists>c'. canvas8_writeFastHLine x y w color c = Inr c' \<and>
    (\<forall>q. value_at c' q = (if q \<in> set (drawFastHLine x y w) \<and> canvas_area c q then Some (ucast color) else value_at c q))"
proof -
  obtain bs where bs: "c_buffer c = Some bs" using assms(3) by auto
  define W H where "W = c_WIDTH c" and "H = c_HEIGHT c"
  have dims: "c_width c = W" "c_height c = H" "int (length bs) = W * H" "0 \<le> W" "0 \<le> H"
    using assms(1,2) bs by (simp_all add: values_ok_def canvas_ok_def W_def H_def)
  have line: "(u, v) \<in> set (drawFastHLine x y w) \<longleftrightarrow> v = y \<and> x \<le> u \<and> u \<le> x + w - 1" for u v
    using assms(4) by (auto simp: drawFastHLine_pixels)
  have area: "canvas_area c (u, v) \<longleftrightarrow> 0 \<le> u \<and> u < W \<and> 0 \<le> v \<and> v < H" for u v
    using bs dims by (auto simp: canvas_area_def outside_def)
  define a n where "a = max 0 x" and "n = (if W \<le> x + w - 1 then W - max 0 x else if x < 0 then x + w else w)"
  have an: "a + n = min W (x + w)" by (auto simp: a_def n_def)
  show ?thesis
  proof (cases "x \<ge> W \<or> y < 0 \<or> y \<ge> H \<or> x + w - 1 < 0")
    case True
    then have "canvas8_writeFastHLine x y w color c = Inr c" using dims by (auto simp: canvas8_writeFastHLine_def)
    moreover have "\<not> (q \<in> set (drawFastHLine x y w) \<and> canvas_area c q)" for q
      using True line area by (cases q) auto
    ultimately show ?thesis by auto
  next
    case False
    then have n: "0 \<le> n" "0 \<le> a" "a + n \<le> W" "0 \<le> y" "y < H" using assms(4) dims(4) by (auto simp: a_def n_def)
    then have i: "0 \<le> y * W + a" "y * W + a + n \<le> int (length bs)"
    proof -
      have "y * W + a + n \<le> (y + 1) * W" using n by (simp add: algebra_simps)
      also have "\<dots> \<le> H * W" using n dims by (intro mult_right_mono) auto
      finally show "y * W + a + n \<le> int (length bs)" using dims by (simp add: mult.commute)
    qed (use dims n in simp)
    obtain ys where ys: "mem_set (y * W + a) n (ucast color) bs = Inr ys" using n(1) i by (cases "n = 0") (auto simp: mem_set_def)
    have pt: "canvas_point c u v = (u, v)" for u v using assms(2) by (simp add: canvas_point_def)
    have "canvas8_writeFastHLine x y w color c =
        andThen (mem_set (y * W + a) n (ucast color) bs) (\<lambda>bs. Inr (c\<lparr>c_buffer := Some bs\<rparr>))"
      using False dims(1,2) bs pt unfolding canvas8_writeFastHLine_def
      by (auto simp: Let_def W_def [symmetric] H_def [symmetric] a_def n_def max_def min_def)
    then have h: "canvas8_writeFastHLine x y w color c = Inr (c\<lparr>c_buffer := Some ys\<rparr>)" using ys by simp
    have "value_at (c\<lparr>c_buffer := Some ys\<rparr>) (u, v) =
        (if (u, v) \<in> set (drawFastHLine x y w) \<and> canvas_area c (u, v) then Some (ucast color) else value_at c (u, v))" for u v
    proof (cases "canvas_area c (u, v)")
      case False
      then show ?thesis using bs by (auto simp: value_at_def canvas_area_def)
    next
      case True
      then have uv: "0 \<le> u" "u < W" "0 \<le> v" "v < H" using area by auto
      have k: "nat (u + v * W) < length bs" "int (nat (u + v * W)) = u + v * W"
        using row_major_bounds [OF uv] dims(3) by linarith+
      have "(y * W + a \<le> u + v * W \<and> u + v * W < y * W + a + n) \<longleftrightarrow> v = y \<and> a \<le> u \<and> u < a + n"
      proof
        assume r: "y * W + a \<le> u + v * W \<and> u + v * W < y * W + a + n"
        have "u + v * W = (u + v * W - y * W) + y * W" by simp
        moreover have "0 \<le> u + v * W - y * W" "u + v * W - y * W < W" using r n by linarith+
        ultimately have "u = u + v * W - y * W \<and> v = y" using row_major_inj [OF uv(1,2)] by blast
        then show "v = y \<and> a \<le> u \<and> u < a + n" using r by auto
      qed auto
      also have "\<dots> \<longleftrightarrow> (u, v) \<in> set (drawFastHLine x y w)" using uv an by (auto simp: line a_def)
      finally show ?thesis using mem_set_nth [OF ys k(1)] True k(2) bs pt
        by (simp add: value_at_def canvas_area_def W_def [symmetric])
    qed
    with h show ?thesis by auto
  qed
qed

lemma upright_line:
  assumes "values_ok c" "c_rotation c = 0" "c_buffer c \<noteq> None" "1 \<le> w"
  shows "\<exists>c1 c2. canvas8_writeFastHLine x y w color c = Inr c1 \<and> draw_line8 x y w color c = Inr c2 \<and>
    value_at c1 = value_at c2"
  using upright_line_values [OF assms, of x y color] gray.store_solid [OF assms(1), of color "drawFastHLine x y w"]
  by (auto simp: draw_line8_def fun_eq_iff)

text \<open>
  On a canvas turned by 180 degrees the run starts at the right end and goes on to the right, behind the
  end of the buffer for the first row; on one turned by 90 degrees it is horizontal in the buffer, where the line is vertical.
\<close>

lemma turned_line_overrun:
  assumes "values_ok c" "c_rotation c = 2" "c_buffer c \<noteq> None" "2 \<le> c_WIDTH c" "1 \<le> c_HEIGHT c"
  shows "canvas8_writeFastHLine 0 0 (c_WIDTH c) color c = Inl OutOfBounds"
proof -
  obtain bs where bs: "c_buffer c = Some bs" using assms(3) by auto
  have d: "c_width c = c_WIDTH c" "c_height c = c_HEIGHT c" "int (length bs) = c_WIDTH c * c_HEIGHT c"
    using assms(1,2) bs by (simp_all add: values_ok_def canvas_ok_def)
  have "\<not> (c_HEIGHT c - 1) * c_WIDTH c + (c_WIDTH c - 1) + c_WIDTH c \<le> int (length bs)"
    using assms(4) d(3) by (simp add: algebra_simps)
  then show ?thesis
    using assms(2,4,5) d(1,2) bs by (simp add: canvas8_writeFastHLine_def canvas_point_def mem_set_def Let_def)
qed

lemma quarter_turn_line:
  "andThen (canvas8_writeFastHLine 0 0 2 7 (canvas_rotate 1 (canvas8_new True 3 3))) (\<lambda>c. Inr (map (value_at c) [(0, 0), (1, 0), (0, 1)])) =
     Inr [Some 7, Some 0, Some 0]"
  by code_simp

text \<open>The eight-bit canvas keeps the low byte of a colour only.\<close>

lemma put_value_same: "enc k = enc l \<Longrightarrow> put_value enc x y k c = put_value enc x y l c"
  by (simp only: put_value_def)

lemma high_byte_lost: "canvas8_drawPixel x y (push_bit 8 v) c = canvas8_drawPixel x y 0 c"
  unfolding canvas8_drawPixel_def by (rule put_value_same, rule bit_eqI) (auto simp: bit_simps)

subsection \<open>Swapping bytes\<close>

lemma upto_int: "[0..int n - 1] = map int [0..<n]"
  by (induction n) (simp_all add: upto_rec2)

lemma forr_wr_map:
  assumes "int (length xs) = n"
  shows "forr [0..n - 1] (\<lambda>i bs. andThen (rd bs i) (\<lambda>v. wr bs i (f v))) xs = Inr (map f xs)"
proof -
  have "forr (map int [k..<k + length zs]) (\<lambda>i bs. andThen (rd bs i) (\<lambda>v. wr bs i (f v))) (ys @ zs) = Inr (ys @ map f zs)"
    if "length ys = k" for k ys zs
    using that
  proof (induction zs arbitrary: k ys)
    case (Cons z zs)
    then have "forr (map int [Suc k..<Suc k + length zs]) (\<lambda>i bs. andThen (rd bs i) (\<lambda>v. wr bs i (f v))) ((ys @ [f z]) @ zs) =
        Inr ((ys @ [f z]) @ map f zs)" by (intro Cons.IH) simp
    moreover have "[k..<k + length (z # zs)] = k # [Suc k..<Suc k + length zs]" by (simp add: upt_conv_Cons del: upt_Suc)
    ultimately show ?case using Cons.prems by (simp add: list_update_append nth_append del: upt_Suc)
  qed simp
  from this [of "[]" 0 xs] have "forr (map int [0..<length xs]) (\<lambda>i bs. andThen (rd bs i) (\<lambda>v. wr bs i (f v))) xs = Inr (map f xs)"
    by simp
  then show ?thesis using upto_int [of "length xs"] assms by simp
qed

lemma bswap16_twice: "bswap16 (bswap16 v) = v"
  by (rule bit_eqI) (auto simp: bswap16_def bit_simps)

lemma byteSwap_twice:
  assumes "values_ok c"
  shows "\<exists>c'. canvas16_byteSwap c = Inr c' \<and> values_ok c' \<and> canvas16_byteSwap c' = Inr c"
proof (cases "c_buffer c")
  case None
  then show ?thesis using assms by (simp add: canvas16_byteSwap_def)
next
  case (Some bs)
  then have l: "int (length bs) = c_WIDTH c * c_HEIGHT c" using assms by (simp add: values_ok_def)
  then have l': "int (length (map bswap16 bs)) = c_WIDTH c * c_HEIGHT c" by simp
  have "map bswap16 (map bswap16 bs) = bs" by (simp add: comp_def bswap16_twice)
  let ?c = "c\<lparr>c_buffer := Some (map bswap16 bs)\<rparr>"
  have "canvas16_byteSwap c = Inr ?c" using Some by (simp add: canvas16_byteSwap_def forr_wr_map [OF l])
  moreover have "canvas16_byteSwap ?c = Inr (c\<lparr>c_buffer := Some bs\<rparr>)"
    using \<open>map bswap16 (map bswap16 bs) = bs\<close> by (simp add: canvas16_byteSwap_def forr_wr_map [OF l'] del: map_map)
  moreover have "c\<lparr>c_buffer := Some bs\<rparr> = c" using Some by (cases c) simp
  moreover have "values_ok ?c" using assms l by (simp add: values_ok_def)
  ultimately show ?thesis by auto
qed

subsection \<open>Filling the colour canvas\<close>

lemma wr_reads: "wr xs i v = andThen (rd xs i) (\<lambda>_. wr xs i v)"
  by (simp add: rd_def wr_def)

lemma canvas16_filled:
  assumes "values_ok c" "c_buffer c = Some bs"
  shows "canvas16_fillScreen color c = Inr (c\<lparr>c_buffer := Some (replicate (length bs) color)\<rparr>)"
proof -
  have l: "int (length bs) = c_WIDTH c * c_HEIGHT c" using assms by (simp add: values_ok_def)
  have loop: "forr [0..c_WIDTH c * c_HEIGHT c - 1] (\<lambda>i bs. wr bs i color) bs = Inr (map (\<lambda>_. color) bs)"
  proof -
    have "(\<lambda>i bs. wr bs i color) = (\<lambda>i bs. andThen (rd bs i) (\<lambda>_. wr bs i color))"
      by (intro ext) (rule wr_reads)
    then show ?thesis using forr_wr_map [OF l, of "\<lambda>_. color"] by (simp only:)
  qed
  have set: "mem_set 0 (c_WIDTH c * c_HEIGHT c) color bs = Inr (replicate (length bs) color)"
    unfolding l [symmetric] by (auto simp: mem_set_def)
  have "(color AND 0xFF) OR push_bit 8 (color AND 0xFF) = color" if "drop_bit 8 color = color AND 0xFF"
  proof -
    have "(0xFF :: u16) = mask 8" by (simp add: mask_eq_exp_minus_1)
    then have "color AND 0xFF = take_bit 8 color" by (simp only: take_bit_eq_mask)
    moreover have "color = take_bit 8 color OR push_bit 8 (drop_bit 8 color)"
    proof (rule bit_eqI)
      fix n assume "possible_bit TYPE(u16) n"
      then show "bit color n \<longleftrightarrow> bit (take_bit 8 color OR push_bit 8 (drop_bit 8 color)) n"
        by (cases "n < 8") (auto simp: bit_simps)
    qed
    ultimately have "color = (color AND 0xFF) OR push_bit 8 (drop_bit 8 color)" by (simp only:)
    with that show ?thesis by simp
  qed
  then show ?thesis
    using assms(2) loop set by (simp add: canvas16_fillScreen_def Let_def map_replicate_const)
qed

subsection \<open>A triangle on a canvas\<close>

text \<open>
  The triangle of \<open>fillTriangle\<close> in closed form, and that painting it on a canvas, in any rotation, changes
  the pixels of the triangle on the canvas and no others.
\<close>

definition in_triangle :: "pix \<Rightarrow> pix \<Rightarrow> pix \<Rightarrow> pix \<Rightarrow> bool" where
  "in_triangle p q r = (\<lambda>(x, y). case sort_by_y p q r of (p0, p1, p2) \<Rightarrow>
     if snd p0 = snd p2 then
       y = snd p0 \<and> min (fst p0) (min (fst p1) (fst p2)) \<le> x \<and> x \<le> max (fst p0) (max (fst p1) (fst p2))
     else snd p0 \<le> y \<and> y \<le> snd p2 \<and>
       between (if y < snd p1 \<or> snd p1 = snd p2 then crossing p0 p1 y else crossing p1 p2 y) (crossing p0 p2 y) x)"

lemma fillTriangle_set:
  "\<exists>ps. fillTriangle x0 y0 x1 y1 x2 y2 = Inr ps \<and> set ps = Collect (in_triangle (x0, y0) (x1, y1) (x2, y2))"
proof -
  obtain p0 p1 p2 where s: "sort_by_y (x0, y0) (x1, y1) (x2, y2) = (p0, p1, p2)" by (metis prod_cases3)
  show ?thesis
  proof (cases "snd p0 = snd p2")
    case True
    then have "fillTriangle x0 y0 x1 y1 x2 y2 = Inr (one_row (fst p0) (fst p1) (fst p2) (snd p0))"
      using s by (cases p0; cases p1; cases p2) (simp add: fillTriangle_def)
    then show ?thesis using s True by (auto simp: one_row_set in_triangle_def)
  next
    case False
    then show ?thesis using fillTriangle_rows [OF s] s by (auto simp: in_triangle_def)
  qed
qed

lemma sdiv_exact: "b \<noteq> 0 \<Longrightarrow> (a * b) sdiv b = (a :: int)"
  by (auto simp: signed_divide_int_def abs_mult sgn_if zero_less_mult_iff)

lemma triangle_vertices:
  assumes "sort_by_y p q r = (p0, p1, p2)"
  shows "in_triangle p q r p0" "in_triangle p q r p1" "in_triangle p q r p2"
proof -
  obtain a0 b0 a1 b1 a2 b2 where p: "p0 = (a0, b0)" "p1 = (a1, b1)" "p2 = (a2, b2)"
    by (cases p0, cases p1, cases p2) auto
  have b: "b0 \<le> b1" "b1 \<le> b2" using sort_by_y_sorted(1,2) [OF assms] by (simp_all add: p)
  have c: "crossing (a, b) q b = a" "b \<noteq> b' \<Longrightarrow> crossing (a, b) (a', b') b' = a'" for a b a' b' q
    by (simp_all add: crossing_def sdiv_exact)
  show "in_triangle p q r p0" "in_triangle p q r p1" "in_triangle p q r p2"
    using assms b by (auto simp: in_triangle_def between_def p c)
qed

lemma triangle_on_canvas:
  assumes "values_ok c"
  shows "\<exists>ps c'. fillTriangle x0 y0 x1 y1 x2 y2 = Inr ps \<and>
    forr (map (\<lambda>q. (q, color)) ps) (\<lambda>(q, k). canvas16_drawPixel (fst q) (snd q) k) c = Inr c' \<and>
    (\<forall>q. value_at c' q =
       (if in_triangle (x0, y0) (x1, y1) (x2, y2) q \<and> canvas_area c q then Some color else value_at c q))"
proof -
  obtain ps where ps: "fillTriangle x0 y0 x1 y1 x2 y2 = Inr ps" "set ps = Collect (in_triangle (x0, y0) (x1, y1) (x2, y2))"
    using fillTriangle_set by blast
  then show ?thesis using colour.store_solid [OF assms, of color ps] by auto
qed

end
