(* ===== verification/Entertainment.thy ===== *)
theory Entertainment
  imports Hue
begin

section \<open>The entertainment stream (\<^verbatim>\<open>entertainment.cpp\<close>)\<close>

text \<open>
  The message buffer of the streaming protocol, the set-up and use of the TLS connection,
  and the tables of colours of the three behaviours. A call into mbedtls is an event and its
  result comes from the environment; a call with the TLS context before it is allocated is
  the fault \<open>BadPointer\<close>. The task that plays a behaviour is in theory Tasks.
\<close>

definition HUE_ENTERTAINMENT_HEADER_SIZE :: int where "HUE_ENTERTAINMENT_HEADER_SIZE = 16"
definition HUE_ENTERTAINMENT_LIGHT_SIZE :: int where "HUE_ENTERTAINMENT_LIGHT_SIZE = 9"
definition ENTERTAINMENT_ID :: u8 where "ENTERTAINMENT_ID = 2"

lemmas ent_sizes = HUE_ENTERTAINMENT_HEADER_SIZE_def HUE_ENTERTAINMENT_LIGHT_SIZE_def

subsection \<open>The client key\<close>

fun hexToBytes :: "string \<Rightarrow> u8 list" where
  "hexToBytes [] = []"
| "hexToBytes [c] = [word_of_int (strtol [c] 16)]"
| "hexToBytes (c # c' # cs) = word_of_int (strtol [c, c'] 16) # hexToBytes cs"

subsection \<open>The message buffer\<close>

definition resize :: "nat \<Rightarrow> u8 list \<Rightarrow> u8 list" where
  "resize n xs = take n xs @ replicate (n - length xs) 0"

definition message_header :: "u8 list" where
  "message_header = map of_char ''HueStream'' @ [0x01, 0x00, 0x00, 0x00, 0x00, 0x00, 0x00]"

definition message_size :: "u8 \<Rightarrow> nat" where
  "message_size n = nat (HUE_ENTERTAINMENT_HEADER_SIZE + int (unat n) * HUE_ENTERTAINMENT_LIGHT_SIZE)"

definition initEntertainmentMode :: "env \<Rightarrow> u8 \<Rightarrow> u8 \<Rightarrow> dev \<Rightarrow> dev" where
  "initEntertainmentMode E roomId n d =
     (let d = snd (startStreaming E roomId (d\<lparr>tls := Live\<rparr>));
          msg = resize (message_size n) (entertainment_msg d)
      in d\<lparr>entertainment_num_lights := n,
           entertainment_msg := message_header @ drop (length message_header) msg\<rparr>)"

definition message_index :: "u8 \<Rightarrow> int" where
  "message_index i = HUE_ENTERTAINMENT_HEADER_SIZE + int (unat i) * HUE_ENTERTAINMENT_LIGHT_SIZE"

fun store_bytes :: "int \<Rightarrow> u8 list \<Rightarrow> u8 list \<Rightarrow> u8 list res" where
  "store_bytes i [] msg = Inr msg"
| "store_bytes i (v # vs) msg = andThen (wr msg i v) (store_bytes (i + 1) vs)"

definition light_bytes :: "u8 \<Rightarrow> u8 \<Rightarrow> u8 \<Rightarrow> u8 \<Rightarrow> u8 list" where
  "light_bytes lightId cr cg cb =
     [0x00, drop_bit 8 lightId, lightId AND 0xFF, cr, cr, cg, cg, cb, cb]"

definition setColorRGB :: "u8 \<Rightarrow> u8 \<Rightarrow> u8 \<Rightarrow> u8 \<Rightarrow> u8 \<Rightarrow> dev \<Rightarrow> (bool \<times> dev) res" where
  "setColorRGB i lightId cr cg cb d =
     (if i < entertainment_num_lights d then
        andThen (store_bytes (message_index i) (light_bytes lightId cr cg cb) (entertainment_msg d))
          (\<lambda>msg. Inr (True, d\<lparr>entertainment_msg := msg\<rparr>))
      else Inr (False, d))"

definition light_bytes_converted :: "u8 \<Rightarrow> u8 \<Rightarrow> u8 \<Rightarrow> u8 \<Rightarrow> u8 list" where
  "light_bytes_converted lightId cr cg cb =
     [0x00, drop_bit 8 lightId, lightId AND 0xFF, drop_bit 8 cr, cr AND 0xFF,
      drop_bit 8 cg, cg AND 0xFF, drop_bit 8 cb, cb AND 0xFF]"

definition setColorRGBAndConvert :: "u8 \<Rightarrow> u8 \<Rightarrow> u8 \<Rightarrow> u8 \<Rightarrow> u8 \<Rightarrow> dev \<Rightarrow> (bool \<times> dev) res" where
  "setColorRGBAndConvert i lightId cr cg cb d =
     (if i < entertainment_num_lights d then
        andThen (store_bytes (message_index i) (light_bytes_converted lightId cr cg cb) (entertainment_msg d))
          (\<lambda>msg. Inr (True, d\<lparr>entertainment_msg := msg\<rparr>))
      else Inr (False, d))"

subsection \<open>The TLS connection\<close>

definition tls_call :: "env \<Rightarrow> tls_call \<Rightarrow> dev \<Rightarrow> (int \<times> dev) res" where
  "tls_call E c d =
     (if tls d = NoContext then Inl BadPointer
      else let d = emit (Tls c) d in Inr (env_tls E (out d), d))"

definition close_notify :: "env \<Rightarrow> dev \<Rightarrow> dev res" where
  "close_notify E d = andThen (tls_call E CloseNotify d) (\<lambda>(_, d). Inr d)"

text \<open>One step of \<open>connect\<close>: a call whose failure closes the connection and returns false.\<close>

definition connect_step :: "env \<Rightarrow> tls_call \<Rightarrow> (dev \<Rightarrow> (bool \<times> dev) res) \<Rightarrow> dev \<Rightarrow> (bool \<times> dev) res" where
  "connect_step E c k d = andThen (tls_call E c d) (\<lambda>(ret, d).
     if ret \<noteq> 0 then andThen (close_notify E d) (\<lambda>d. Inr (False, d)) else k d)"

text \<open>The loop around the handshake repeats while the call would block.\<close>

definition handshake :: "env \<Rightarrow> dev \<Rightarrow> (bool \<times> dev) res" where
  "handshake E d =
     (if tls d = NoContext then Inl BadPointer
      else let d = emit (Tls Handshake) d
           in case env_handshake E (out d) of
                None \<Rightarrow> Inl Hang
              | Some ret \<Rightarrow> if ret \<noteq> 0 then andThen (close_notify E d) (\<lambda>d. Inr (False, d))
                            else Inr (True, d))"

definition connect :: "env \<Rightarrow> u8 \<Rightarrow> dev \<Rightarrow> (bool \<times> dev) res" where
  "connect E roomId d =
     (case startStreaming E roomId d of (started, d) \<Rightarrow>
        if started then
          connect_step E (NetConnect (hueBridgeBareIP d))
            (connect_step E ConfigDefaults
              (connect_step E SslSetup
                (connect_step E SetHostname
                  (connect_step E (ConfPsk (hexToBytes (clientKey d)) (userId d)) (handshake E))))) d
        else Inr (False, d))"

definition disconnect :: "env \<Rightarrow> dev \<Rightarrow> dev res" where
  "disconnect E = seqr [close_notify E,
     \<lambda>d. andThen (tls_call E FreeContext d) (\<lambda>(_, d). Inr (d\<lparr>tls := Freed\<rparr>))]"

text \<open>
  \<open>update\<close> hands the buffer to \<open>mbedtls_ssl_write\<close>, from offset \<open>total\<close> (here \<open>done_n\<close>) on but always with
  the whole buffer's size as the length. A write that takes more bytes than are left reads
  past the end of the buffer. \<open>env_patience\<close> bounds the number of rounds that are followed.
\<close>

fun update_loop :: "env \<Rightarrow> nat \<Rightarrow> nat \<Rightarrow> dev \<Rightarrow> (bool \<times> dev) res" where
  "update_loop E 0 done_n d = Inl Hang"
| "update_loop E (Suc fuel) done_n d =
     (let size = length (entertainment_msg d)
      in if done_n < size then
           andThen (tls_call E (SslWrite done_n size) d) (\<lambda>(ret, d).
             if ret < 0 then Inr (False, d)
             else if done_n + nat ret > size then Inl OutOfBounds
             else update_loop E fuel (done_n + nat ret) d)
         else Inr (True, d))"

definition stream_update :: "env \<Rightarrow> dev \<Rightarrow> (bool \<times> dev) res" where
  "stream_update E = update_loop E (env_patience E) 0"

definition activateBehavior :: "dev \<Rightarrow> dev" where
  "activateBehavior d = d\<lparr>startBehaviorNow := True\<rparr>"

subsection \<open>The three behaviours\<close>

definition two_colours :: "nat \<Rightarrow> RGBCommand" where
  "two_colours i = (if i mod 2 = 0 then \<lparr>red = 0xff, green = 0x00, blue = 0x00\<rparr>
                    else \<lparr>red = 0xfc, green = 0xc5, blue = 0x73\<rparr>)"

definition fill_entries :: "u8 \<Rightarrow> RGBCommand list \<Rightarrow> RGBCommand list res" where
  "fill_entries n es = forr [0..<unat n] (\<lambda>i es. wr es (int i) (two_colours i)) es"

definition TRAENING :: string where "TRAENING = ''TR'' @ [CHR 0xC3, CHR 0x86] @ ''NING''"

definition put_behavior :: "int \<Rightarrow> behavior \<Rightarrow> dev \<Rightarrow> dev res" where
  "put_behavior i v d = andThen (wr (behaviors d) i v) (\<lambda>bs. Inr (d\<lparr>behaviors := bs\<rparr>))"

definition createTransitionBehavior :: "env \<Rightarrow> dev \<Rightarrow> dev res" where
  "createTransitionBehavior E d =
     (if festDelay d = 0 then Inl DivByZero
      else put_behavior 2 ((junk_behavior E)\<lparr>behaviorId := transitionBehavior,
             enterainmentGroup := entertainmentGroup d, bname := ''FEST'', activated := False,
             bdelay := (1000 sdiv festDelay d) sdiv 10, blightCounter := 0, entriesCount := 100\<rparr>) d)"

definition createTimebasedBehavior :: "env \<Rightarrow> dev \<Rightarrow> dev res" where
  "createTimebasedBehavior E d =
     (let v = (junk_behavior E)\<lparr>behaviorId := timeBehavior,
             enterainmentGroup := entertainmentGroup d, bname := ''ALARM'', activated := False,
             bdelay := alarmDelay d sdiv 10, blightCounter := 0,
             entriesCount := word_of_int (alarmEntries d)\<rparr>
      in andThen (fill_entries (entriesCount v) (entries v))
           (\<lambda>es. put_behavior 1 (v\<lparr>entries := es\<rparr>) d))"

definition createRepeatingBehavior :: "env \<Rightarrow> dev \<Rightarrow> dev res" where
  "createRepeatingBehavior E d =
     (let v = (junk_behavior E)\<lparr>behaviorId := repeatedBehavior,
             enterainmentGroup := entertainmentGroup d, bname := TRAENING, activated := False,
             blightCounter := 0, entriesCount := word_of_int (blinkingLightsEntries d),
             bdelay := blinkingLightsDelay d sdiv 10\<rparr>
      in andThen (fill_entries (entriesCount v) (entries v))
           (\<lambda>es. put_behavior 0 (v\<lparr>entries := es\<rparr>) d))"

definition refill :: "int \<Rightarrow> dev \<Rightarrow> dev res" where
  "refill k d = andThen (rd (behaviors d) k) (\<lambda>v.
     andThen (fill_entries (entriesCount v) (entries v))
       (\<lambda>es. put_behavior k (v\<lparr>entries := es\<rparr>) d))"

definition updateBlinkingLightsEntries :: "dev \<Rightarrow> dev res" where
  "updateBlinkingLightsEntries = refill 0"

definition updateAlarmLightsEntries :: "dev \<Rightarrow> dev res" where
  "updateAlarmLightsEntries = refill 1"

definition initBehaviors :: "env \<Rightarrow> dev \<Rightarrow> dev res" where
  "initBehaviors E = seqr [createRepeatingBehavior E, createTimebasedBehavior E,
     createTransitionBehavior E, ok (\<lambda>d. d\<lparr>behaviorCount := 3\<rparr>)]"

subsection \<open>The message stays a message\<close>

lemma store_bytes_spec:
  assumes "0 \<le> i" "i + int (length vs) \<le> int (length msg)"
  shows "store_bytes i vs msg = Inr (take (nat i) msg @ vs @ drop (nat i + length vs) msg)"
  using assms
proof (induction vs arbitrary: i msg)
  case (Cons v vs)
  have "nat i < length msg" "nat (i + 1) = Suc (nat i)" using Cons.prems by auto
  moreover have "store_bytes (i + 1) vs (msg[nat i := v]) =
      Inr (take (nat (i + 1)) (msg[nat i := v]) @ vs @ drop (nat (i + 1) + length vs) (msg[nat i := v]))"
    using Cons.prems by (intro Cons.IH) simp_all
  ultimately show ?case
    using Cons.prems by (simp add: wr_def take_Suc_conv_app_nth)
qed simp

lemma store_bytes_int:
  "n + length vs \<le> length msg \<Longrightarrow>
   store_bytes (int n) vs msg = Inr (take n msg @ vs @ drop (n + length vs) msg)"
  using store_bytes_spec [of "int n" vs msg] by simp

definition stream_ok :: "dev \<Rightarrow> bool" where
  "stream_ok d \<longleftrightarrow> length (entertainment_msg d) = message_size (entertainment_num_lights d)"

lemma message_size_eq: "message_size n = 16 + 9 * unat n"
  by (simp add: message_size_def ent_sizes nat_add_distrib nat_mult_distrib)

lemma message_index_eq: "message_index i = int (16 + 9 * unat i)"
  by (simp add: message_index_def ent_sizes)

lemma length_resize [simp]: "length (resize n xs) = n"
  by (simp add: resize_def)

lemma message_header_length [simp]: "length message_header = 16"
  by (simp add: message_header_def)

lemma initEntertainmentMode_ok:
  "stream_ok (initEntertainmentMode E roomId n d)"
  "entertainment_num_lights (initEntertainmentMode E roomId n d) = n"
  "take 16 (entertainment_msg (initEntertainmentMode E roomId n d)) = message_header"
  "tls (initEntertainmentMode E roomId n d) = Live"
  by (simp_all add: initEntertainmentMode_def stream_ok_def message_size_eq startStreaming_def
      put_request_def http_request_def emit_def Let_def split: prod.split)

text \<open>The bytes of one light in the message.\<close>

definition light_slot :: "u8 list \<Rightarrow> u8 \<Rightarrow> u8 list" where
  "light_slot msg i = take 9 (drop (16 + 9 * unat i) msg)"

lemma setColorRGB_stores:
  assumes "stream_ok d" "i < entertainment_num_lights d"
  shows "setColorRGB i l cr cg cb d = Inr (True, d\<lparr>entertainment_msg :=
     take (16 + 9 * unat i) (entertainment_msg d) @ light_bytes l cr cg cb @
     drop (25 + 9 * unat i) (entertainment_msg d)\<rparr>)"
proof -
  have "unat i < unat (entertainment_num_lights d)" using assms(2) by (simp add: word_less_nat_alt)
  then have "store_bytes (message_index i) (light_bytes l cr cg cb) (entertainment_msg d) =
      Inr (take (16 + 9 * unat i) (entertainment_msg d) @ light_bytes l cr cg cb @
           drop (25 + 9 * unat i) (entertainment_msg d))"
    using assms(1) store_bytes_int [of "16 + 9 * unat i" "light_bytes l cr cg cb" "entertainment_msg d"]
    unfolding message_index_eq by (simp add: stream_ok_def message_size_eq light_bytes_def add.commute)
  then show ?thesis using assms(2) by (simp add: setColorRGB_def)
qed

lemma setColorRGB_ok:
  assumes "stream_ok d"
  shows "\<exists>v d'. setColorRGB i l cr cg cb d = Inr (v, d') \<and> stream_ok d' \<and>
    (\<exists>msg. d' = d\<lparr>entertainment_msg := msg\<rparr>)"
proof (cases "i < entertainment_num_lights d")
  case True
  then have "unat i < unat (entertainment_num_lights d)" by (simp add: word_less_nat_alt)
  with True assms show ?thesis
    by (auto simp: setColorRGB_stores stream_ok_def message_size_eq light_bytes_def)
next
  case False
  then show ?thesis using assms by (auto simp: setColorRGB_def intro: exI [of _ "entertainment_msg d"])
qed

subsection \<open>The colour tables\<close>

lemma fill_entries_upto:
  assumes "m \<le> length es"
  shows "forr [0..<m] (\<lambda>i es. wr es (int i) (f i)) es = Inr (map f [0..<m] @ drop m es)"
  using assms
proof (induction m)
  case (Suc m)
  have "forr [0..<Suc m] (\<lambda>i es. wr es (int i) (f i)) es =
      andThen (forr [0..<m] (\<lambda>i es. wr es (int i) (f i)) es) (\<lambda>es. wr es (int m) (f m))"
    by (simp add: forr_append forr_single)
  also have "\<dots> = wr (map f [0..<m] @ drop m es) (int m) (f m)"
    using Suc by simp
  also have "\<dots> = Inr (map f [0..<Suc m] @ drop (Suc m) es)"
    using Suc.prems by (simp add: list_update_append Cons_nth_drop_Suc [symmetric])
  finally show ?case .
qed simp

lemma fill_entries_spec:
  "unat n \<le> length es \<Longrightarrow>
   fill_entries n es = Inr (map two_colours [0..<unat n] @ drop (unat n) es)"
  by (simp add: fill_entries_def fill_entries_upto)

end
