(* ===== verification/Eink.thy ===== *)
theory Eink
  imports Entertainment
begin

section \<open>The user interface toolkit (\<^verbatim>\<open>eink.cpp\<close>)\<close>

text \<open>
  Drawing on the screen and the buttons that come with it, text, bars and circles; lists of
  rooms and lights with their pages; the handlers of the light switch, of the selection of
  lamps for a behaviour, of start and stop, and of the colour mode. Everything drawn goes
  through the panel of theory Panel; everything else is state of \<open>dev\<close>.
\<close>

subsection \<open>Drawing\<close>

definition on_display :: "(panel \<Rightarrow> panel res) \<Rightarrow> dev \<Rightarrow> dev res" where
  "on_display f d = andThen (f (display d)) (\<lambda>p. Inr (d\<lparr>display := p\<rparr>))"

definition window :: "int \<Rightarrow> int \<Rightarrow> int \<Rightarrow> int \<Rightarrow> panel \<Rightarrow> panel res" where
  "window x y w h = ok (updateWindow x y w h)"

definition globalFont :: "panel \<Rightarrow> panel res" where
  "globalFont = gfx_setting (setFont (Some IBMPlexMono_M6pt7b))"

definition text_colour_on :: "u16 \<Rightarrow> u16" where
  "text_colour_on color = (if color = EPD_BLACK then EPD_WHITE else EPD_BLACK)"

text \<open>The panel parts of the functions of \<^verbatim>\<open>eink.cpp\<close>.\<close>

definition square_frame :: "int \<Rightarrow> int \<Rightarrow> int \<Rightarrow> int \<Rightarrow> int \<Rightarrow> u16 \<Rightarrow> bool \<Rightarrow> u16 \<Rightarrow> panel \<Rightarrow> panel res" where
  "square_frame x y w h rad color bordered borderColor = seqr
     [paint_all (fillRoundRect x y w h rad) color,
      whenr bordered (paint_all (drawRoundRect x y w h rad) borderColor),
      gfx_setting (setTextColor (text_colour_on color)), globalFont]"

definition square_text :: "int \<Rightarrow> int \<Rightarrow> int \<Rightarrow> int \<Rightarrow> string \<Rightarrow> panel \<Rightarrow> panel res" where
  "square_text x y width height text p = andThen (textBounds text x y p) (\<lambda>(x1, y1, w, h).
     seqr [gfx_setting (setCursor (x + width sdiv 2 - w sdiv 2) (y + height sdiv 2 + 5)),
           epd_print text] p)"

definition icon_text :: "int \<Rightarrow> int \<Rightarrow> int \<Rightarrow> int \<Rightarrow> string \<Rightarrow> panel \<Rightarrow> panel res" where
  "icon_text x y width height text p = andThen (textBounds text x (y + height) p) (\<lambda>(x1, y1, w, h).
     seqr [gfx_setting (setCursor (x + width sdiv 2 - w sdiv 2) (y + height + h sdiv 2 + 5)),
           epd_print text] p)"

definition bitmap_pointer :: "int \<Rightarrow> int \<Rightarrow> bitmap option \<Rightarrow> int \<Rightarrow> int \<Rightarrow> panel \<Rightarrow> panel res" where
  "bitmap_pointer x y bm w h p =
     (case bm of None \<Rightarrow> Inl BadPointer | Some m \<Rightarrow> panel_drawBitmap x y (bitmap_data m) w h p)"

definition text_line :: "int \<Rightarrow> int \<Rightarrow> int \<Rightarrow> string \<Rightarrow> u16 \<Rightarrow> bool \<Rightarrow> panel \<Rightarrow> panel res" where
  "text_line x0 y sz text textColor center = seqr
     [globalFont, gfx_setting (setTextColor textColor), gfx_setting (setTextSize sz),
      \<lambda>p. andThen (textBounds text x0 y p) (\<lambda>(x1, y1, w, h).
        let x = (if center then x0 - w sdiv 2 else x0)
        in seqr [gfx_setting (setCursor x y), epd_println text,
             if center then window (x - w sdiv 2 - 5) (y - h sdiv 2 - 5) (w * 2 + 5) (h + 5)
             else window (x - 5) (y - h sdiv 2 - 5) (w + 10) (h + 5)] p)]"

definition drawText :: "int \<Rightarrow> int \<Rightarrow> int \<Rightarrow> string \<Rightarrow> u16 \<Rightarrow> bool \<Rightarrow> dev \<Rightarrow> dev res" where
  "drawText x y sz text textColor center =
     on_display (text_line x y sz text textColor center)"

definition ui_fillRect :: "int \<Rightarrow> int \<Rightarrow> int \<Rightarrow> int \<Rightarrow> u16 \<Rightarrow> dev \<Rightarrow> dev res" where
  "ui_fillRect x y w h color = on_display (seqr [paint_all (fillRect x y w h) color, window x y w h])"

definition ui_drawLine :: "int \<Rightarrow> int \<Rightarrow> int \<Rightarrow> int \<Rightarrow> u16 \<Rightarrow> dev \<Rightarrow> dev res" where
  "ui_drawLine x0 y0 x y color = on_display (paint_all (drawLine x0 y0 x y) color)"

definition drawRectAndUpdate :: "int \<Rightarrow> int \<Rightarrow> int \<Rightarrow> int \<Rightarrow> u16 \<Rightarrow> dev \<Rightarrow> dev res" where
  "drawRectAndUpdate x y w h color =
     on_display (seqr [paint_all (drawRect x y w h) color, window (x - 2) (y - 2) (w + 2) (h + 2)])"

definition refreshBody :: "dev \<Rightarrow> dev res" where
  "refreshBody = on_display (window 0 19 175 225)"

definition refreshPagination :: "dev \<Rightarrow> dev res" where
  "refreshPagination = on_display (window 0 40 175 170)"

definition screen_width :: "dev \<Rightarrow> int" where
  "screen_width d = display_width (display d)"

definition screen_height :: "dev \<Rightarrow> int" where
  "screen_height d = display_height (display d)"

subsection \<open>Buttons\<close>

definition clearButtons :: "dev \<Rightarrow> dev" where
  "clearButtons d = d\<lparr>buttons := replicate (length (buttons d)) no_button\<rparr>"

definition new_button ::
  "env \<Rightarrow> int \<Rightarrow> int \<Rightarrow> int \<Rightarrow> int \<Rightarrow> handler \<Rightarrow> int \<Rightarrow> string \<Rightarrow> bool \<Rightarrow> int \<Rightarrow> bool \<Rightarrow> button" where
  "new_button E x y w h ev bulbId bulbName isOn bright selected =
     \<lparr>btn_x = x, btn_y = y, btn_width = w, btn_height = h, btn_on = (if isOn then 1 else 0),
      btn_id = to_i16 bulbId, buttonId = buttonId (junk_button E), btn_brightness = bright,
      btn_name = bulbName, btn_event = Some ev, isSelected = selected\<rparr>"

definition push_button :: "button \<Rightarrow> dev \<Rightarrow> dev res" where
  "push_button v d = andThen (wr (buttons d) (buttonCount d) v)
     (\<lambda>bs. Inr (d\<lparr>buttons := bs, buttonCount := buttonCount d + 1\<rparr>))"

text \<open>\<open>if (event) addButtonToArray(...)\<close>\<close>

definition add_button ::
  "env \<Rightarrow> int \<Rightarrow> int \<Rightarrow> int \<Rightarrow> int \<Rightarrow> handler option \<Rightarrow> int \<Rightarrow> string \<Rightarrow> bool \<Rightarrow> int \<Rightarrow> bool \<Rightarrow> dev \<Rightarrow> dev res" where
  "add_button E x y w h ev bulbId bulbName isOn bright selected d =
     (case ev of None \<Rightarrow> Inr d
      | Some e \<Rightarrow> push_button (new_button E x y w h e bulbId bulbName isOn bright selected) d)"

definition drawSquareWithBitmapInside ::
  "env \<Rightarrow> int \<Rightarrow> int \<Rightarrow> int \<Rightarrow> int \<Rightarrow> int \<Rightarrow> u16 \<Rightarrow> bool \<Rightarrow> u16 \<Rightarrow> bitmap \<Rightarrow> handler option \<Rightarrow> int \<Rightarrow> dev \<Rightarrow> dev res" where
  "drawSquareWithBitmapInside E x y width height radius color bordered borderColor bm ev bulbId =
     seqr [on_display (seqr [square_frame x y width height radius color bordered borderColor,
             panel_drawBitmap (x + width sdiv 2 - bitmap_width bm sdiv 2)
               (y + height sdiv 2 - bitmap_height bm sdiv 2)
               (bitmap_data bm) (bitmap_width bm) (bitmap_height bm)]),
           add_button E x y width height ev bulbId '' '' False 0 False]"

definition drawSquare ::
  "env \<Rightarrow> int \<Rightarrow> int \<Rightarrow> int \<Rightarrow> int \<Rightarrow> int \<Rightarrow> u16 \<Rightarrow> string \<Rightarrow> bool \<Rightarrow> u16 \<Rightarrow> handler option \<Rightarrow> int \<Rightarrow> dev \<Rightarrow> dev res" where
  "drawSquare E x y width height radius color text bordered borderColor ev bulbId =
     seqr [on_display (seqr [square_frame x y width height radius color bordered borderColor,
             square_text x y width height text]),
           add_button E x y width height ev bulbId text False 0 False]"

definition drawBitmap ::
  "env \<Rightarrow> int \<Rightarrow> int \<Rightarrow> int \<Rightarrow> int \<Rightarrow> bitmap option \<Rightarrow> bitmap option \<Rightarrow> int \<Rightarrow> int \<Rightarrow> string \<Rightarrow>
   handler option \<Rightarrow> int \<Rightarrow> bool \<Rightarrow> bool \<Rightarrow> int \<Rightarrow> bool \<Rightarrow> dev \<Rightarrow> dev res" where
  "drawBitmap E x0 y0 xPad yPad onBitmap offBitmap w h text ev bulbId center isOn bright border =
     (let x = (if center then x0 - w sdiv 2 else x0);
          y = (if center then y0 - h sdiv 2 else y0)
      in seqr [on_display (seqr [bitmap_pointer x y (if isOn then onBitmap else offBitmap) w h,
                 whenr border (paint_all (drawRect x y w h) EPD_BLACK),
                 gfx_setting (setTextColor EPD_BLACK), globalFont, icon_text x y w h text]),
               add_button E (x - xPad sdiv 2) (y - yPad sdiv 2) (w + xPad) (h + yPad) ev bulbId text
                 isOn bright border])"

definition circle_panel ::
  "int \<Rightarrow> int \<Rightarrow> int \<Rightarrow> u16 \<Rightarrow> bool \<Rightarrow> bool \<Rightarrow> string \<Rightarrow> panel \<Rightarrow> panel res" where
  "circle_panel x y rad color selected withText text =
     (if \<not> selected then
        seqr [paint_all (fillCircle x y rad) EPD_BLACK, paint_all (fillCircle x y (rad - 3)) EPD_WHITE,
              whenr withText (text_line x y 1 text EPD_BLACK True)]
      else seqr [paint_all (fillCircle x y rad) color,
                 whenr withText (text_line x y 1 text EPD_WHITE True)])"

definition ui_drawCircle ::
  "env \<Rightarrow> int \<Rightarrow> int \<Rightarrow> int \<Rightarrow> u16 \<Rightarrow> bool \<Rightarrow> bool \<Rightarrow> string \<Rightarrow> handler option \<Rightarrow> int \<Rightarrow> bool \<Rightarrow> dev \<Rightarrow> dev res" where
  "ui_drawCircle E x y rad color selected withText text ev bulbId isOn =
     seqr [on_display (circle_panel x y rad color selected withText text),
           add_button E (x - rad) (y - rad) (rad * 2) (rad * 2) ev bulbId text isOn 0 False]"

subsection \<open>The brightness bar\<close>

definition bar_length :: "int \<Rightarrow> u8 \<Rightarrow> u8" where
  "bar_length width v =
     (let percentage = word_of_int (map_arduino (uint v) 1 254 0 100) :: u8
      in word_of_int (map_arduino (uint percentage) 0 100 0 (width - 28)))"

definition drawBar :: "env \<Rightarrow> int \<Rightarrow> int \<Rightarrow> u8 \<Rightarrow> dev \<Rightarrow> dev res" where
  "drawBar E x y v d =
     (let w = screen_width d
      in seqr [ui_drawLine x (y - 2) x (y + 7) EPD_BLACK,
               ui_drawLine (x + w - 28) (y - 2) (x + w - 28) (y + 7) EPD_BLACK,
               ui_drawLine x (y + 2) (x + w - 28) (y + 2) EPD_BLACK,
               drawSquare E x y (uint (bar_length w v)) 5 0 EPD_BLACK '''' False EPD_BLACK None 0] d)"

definition updateBar :: "env \<Rightarrow> int \<Rightarrow> int \<Rightarrow> u8 \<Rightarrow> dev \<Rightarrow> dev res" where
  "updateBar E x y v = seqr
     [\<lambda>d. ui_fillRect x (y - 2) (screen_width d) 15 EPD_WHITE d, drawBar E x y v,
      on_display (window x (y - 2) 150 15)]"

subsection \<open>The battery symbol\<close>

definition batteryPositionX :: int where "batteryPositionX = GDEW027W3_WIDTH - 16 - 5"
definition batteryPositionY :: int where "batteryPositionY = 6"

text \<open>\<open>ReadBatteryVoltage\<close> (\<^verbatim>\<open>utils.cpp\<close>); voltages are exact fractions here.\<close>

definition ReadBatteryVoltage :: "env \<Rightarrow> dev \<Rightarrow> rat \<times> dev" where
  "ReadBatteryVoltage E d =
     (let d = emit AnalogRead d in (of_nat (env_adc E (out d)) / 4096 * 7445 / 1000, d))"

definition battery_bars :: "rat \<Rightarrow> nat" where
  "battery_bars v =
     (let percentage = (if v > 43 / 10 then 0 else 100 * (v - 32 / 10) / (42 / 10 - 32 / 10))
      in nat \<lceil>12 / 100 * percentage\<rceil>)"

definition battery_icon :: "env \<Rightarrow> bitmap \<Rightarrow> dev \<Rightarrow> dev res" where
  "battery_icon E b = drawBitmap E batteryPositionX batteryPositionY 0 0 None (Some b)
     (bitmap_width b) (bitmap_height b) '''' None 0 False False 0 False"

definition battery_pixels :: "nat \<Rightarrow> pix list" where
  "battery_pixels n = concat (map (\<lambda>i. map (\<lambda>y.
     (batteryPositionX + 1 + int i, batteryPositionY + 1 + int y)) [0..<6]) [0..<n])"

definition drawBattery_round :: "env \<Rightarrow> dev \<Rightarrow> dev res" where
  "drawBattery_round E d =
     (case ReadBatteryVoltage E d of (v, d) \<Rightarrow>
        seqr [whenr (v \<noteq> batteryVoltage d) (seqr
               [battery_icon E BatteryBitMap,
                ok (\<lambda>d. case ReadBatteryVoltage E d of (v, d) \<Rightarrow> d\<lparr>batteryVoltage := v\<rparr>),
                \<lambda>d. whenr (batteryVoltage d > 43 / 10) (battery_icon E BatteryChargeBitMap) d,
                \<lambda>d. on_display (paint_all (battery_pixels (battery_bars (batteryVoltage d))) EPD_BLACK) d,
                on_display (window (batteryPositionX - 2) (batteryPositionY - 2) (16 + 2) (8 + 2))]),
              ok (vTaskDelay 200000)] d)"

subsection \<open>Switching a lamp and a room\<close>

definition setCurrentLight :: "u8 \<Rightarrow> dev \<Rightarrow> dev res" where
  "setCurrentLight i d0 = forr [0..<unat (allLightCount d0)]
     (\<lambda>k d. andThen (rd (lightIds d) (int k))
        (\<lambda>l. Inr (if i = lid l then d\<lparr>currentLight := l\<rparr> else d))) d0"

definition bulb_icon :: "bitmap \<Rightarrow> button \<Rightarrow> dev \<Rightarrow> dev res" where
  "bulb_icon b v = on_display (seqr
     [panel_drawBitmap (btn_x v) (btn_y v) (bitmap_data b) (bitmap_width b) (bitmap_height b),
      window (btn_x v) (btn_y v) (bitmap_width b) (bitmap_height b)])"

definition Switch :: "env \<Rightarrow> dev \<Rightarrow> dev res" where
  "Switch E d = andThen (rd (buttons d) 2) (\<lambda>v.
     seqr [if lon (currentLight d) then seqr
             [bulb_icon BulbBitmap v,
              ok (\<lambda>d. snd (lightOff E (lid (currentLight d)) d)),
              ok (\<lambda>d. d\<lparr>currentLight := (currentLight d)\<lparr>lon := False\<rparr>\<rparr>),
              ok (append_action_what E touchScreenInteraction ''lightOff'' ''Switch'' (btn_name v))]
           else seqr
             [bulb_icon BulbOutlinedBitmap v,
              ok (\<lambda>d. snd (lightOn E (lid (currentLight d)) d)),
              ok (\<lambda>d. d\<lparr>currentLight := (currentLight d)\<lparr>lon := True\<rparr>\<rparr>),
              ok (append_action_what E touchScreenInteraction ''lightOn'' ''Switch'' (btn_name v))],
           ok (vTaskDelay (100 div portTICK_PERIOD_MS))] d)"

definition switchGroup :: "env \<Rightarrow> int \<Rightarrow> dev \<Rightarrow> dev res" where
  "switchGroup E i d = andThen (rd (buttons d) i) (\<lambda>v.
     let off = (btn_on v = 1); v' = v\<lparr>btn_on := (if off then 0 else 1)\<rparr>
     in seqr [bulb_icon (if off then BulbBitmap else BulbOutlinedBitmap) v',
              ok (\<lambda>d. snd ((if off then groupOff else groupOn) E (word_of_int (btn_id v')) d)),
              \<lambda>d. andThen (wr (buttons d) i v') (\<lambda>bs. Inr (d\<lparr>buttons := bs\<rparr>))] d)"

subsection \<open>Selecting the lamps of a behaviour\<close>

text \<open>
  \<open>arrayShift\<close> removes the elements equal to \<open>value\<close>, filling up with zeros. Its outer loop
  repeats an index after a removal. The fuel is enough for every value but zero, which never
  goes away once it is at the end.
\<close>

definition close_gap :: "nat \<Rightarrow> nat \<Rightarrow> u8 list \<Rightarrow> u8 list res" where
  "close_gap i n a = andThen
     (forr [i..<n - 1] (\<lambda>k a. andThen (rd a (int (k + 1))) (\<lambda>x. wr a (int k) x)) a)
     (\<lambda>a. wr a (int n - 1) 0)"

fun shift_loop :: "nat \<Rightarrow> nat \<Rightarrow> nat \<Rightarrow> int \<Rightarrow> u8 list \<Rightarrow> u8 list res" where
  "shift_loop 0 i n v a = Inl Hang"
| "shift_loop (Suc fuel) i n v a =
     (if i < n then andThen (rd a (int i)) (\<lambda>x.
        if uint x = v then andThen (close_gap i n a) (shift_loop fuel i n v)
        else shift_loop fuel (Suc i) n v a)
      else Inr a)"

definition arrayShift :: "u8 list \<Rightarrow> u8 \<Rightarrow> int \<Rightarrow> u8 list res" where
  "arrayShift a n v = shift_loop (2 * unat n + 1) 0 (unat n) v a"

definition mark_selected :: "int \<Rightarrow> bool \<Rightarrow> dev \<Rightarrow> dev res" where
  "mark_selected i s d = andThen (rd (buttons d) i) (\<lambda>v.
     andThen (wr (buttons d) i (v\<lparr>isSelected := s\<rparr>)) (\<lambda>bs. Inr (d\<lparr>buttons := bs\<rparr>)))"

definition frame_button :: "int \<Rightarrow> u16 \<Rightarrow> dev \<Rightarrow> dev res" where
  "frame_button i color d = andThen (rd (buttons d) i)
     (\<lambda>v. drawRectAndUpdate (btn_x v) (btn_y v) (btn_width v) (btn_height v) color d)"

definition log_button :: "env \<Rightarrow> string \<Rightarrow> string \<Rightarrow> int \<Rightarrow> dev \<Rightarrow> dev res" where
  "log_button E action ctxt i d = andThen (rd (buttons d) i)
     (\<lambda>v. Inr (append_action_what E touchScreenInteraction action ctxt (btn_name v) d))"

definition on_last_behavior :: "(behavior \<Rightarrow> behavior res) \<Rightarrow> dev \<Rightarrow> dev res" where
  "on_last_behavior f d = andThen (rd (behaviors d) (uint (lastBehaviorId d)))
     (\<lambda>v. andThen (f v) (\<lambda>v. put_behavior (uint (lastBehaviorId d)) v d))"

definition selectLight :: "env \<Rightarrow> int \<Rightarrow> int \<Rightarrow> dev \<Rightarrow> dev res" where
  "selectLight E lightId i d = andThen (rd (buttons d) i) (\<lambda>v.
     if isSelected v then seqr
       [on_last_behavior (\<lambda>h. andThen (arrayShift (blightIds h) (blightCounter h) lightId)
          (\<lambda>a. Inr (h\<lparr>blightIds := a, blightCounter := blightCounter h - 1\<rparr>))),
        mark_selected i False, ok (\<lambda>d. snd (flash E (word_of_int lightId) d)),
        frame_button i EPD_WHITE, log_button E ''removeBehaviorLight'' ''selectLight'' i] d
     else seqr
       [on_last_behavior (\<lambda>h. andThen (wr (blightIds h) (uint (blightCounter h)) (word_of_int lightId))
          (\<lambda>a. Inr (h\<lparr>blightIds := a, blightCounter := blightCounter h + 1\<rparr>))),
        mark_selected i True, ok (\<lambda>d. snd (flash E (word_of_int lightId) d)),
        frame_button i EPD_BLACK, log_button E ''adddedBehaviorLight'' ''selectLight'' i] d)"

subsection \<open>Lists of rooms and lights, two in a row\<close>

text \<open>The loops over an index range that stop at an entry without a name.\<close>

fun grid_loop ::
  "(int \<Rightarrow> dev \<Rightarrow> bool res) \<Rightarrow> (int \<Rightarrow> int \<Rightarrow> int \<Rightarrow> dev \<Rightarrow> dev res) \<Rightarrow> int \<Rightarrow> int \<Rightarrow>
   int list \<Rightarrow> int \<Rightarrow> int \<Rightarrow> dev \<Rightarrow> dev res" where
  "grid_loop stop draw x0 step [] x y d = Inr d"
| "grid_loop stop draw x0 step (i # is) x y d =
     andThen (stop i d) (\<lambda>s. if s then Inr d
       else andThen (draw i x y d)
         (if i mod 2 = 1 then grid_loop stop draw x0 step is x0 (y + step)
          else grid_loop stop draw x0 step is (x + step) y))"

definition set_topIndex :: "int \<Rightarrow> dev \<Rightarrow> dev" where
  "set_topIndex n d = d\<lparr>topIndex := word_of_int n\<rparr>"

definition light_icon :: "env \<Rightarrow> light \<Rightarrow> handler \<Rightarrow> bool \<Rightarrow> int \<Rightarrow> int \<Rightarrow> dev \<Rightarrow> dev res" where
  "light_icon E l ev border x y = drawBitmap E x y 0 0 (Some BulbOutlinedBitmap) (Some BulbBitmap)
     (bitmap_width BulbBitmap) (bitmap_height BulbBitmap) (lname l) (Some ev) (uint (lid l)) False
     (lon l) (brightness l) border"

definition drawLightsFromArray :: "env \<Rightarrow> int \<Rightarrow> int \<Rightarrow> dev \<Rightarrow> dev res" where
  "drawLightsFromArray E first last_i d =
     (let d = set_topIndex last_i d
      in grid_loop (\<lambda>i d. andThen (rd (lights d) i) (\<lambda>l. Inr (lname l = '''')))
           (\<lambda>i x y d. andThen (rd (lights d) i) (\<lambda>l. light_icon E l EDrawLight False x y d))
           22 85 [first..min last_i (uint (lightCount d)) - 1] 22 56 d)"

definition is_behavior_light :: "u8 \<Rightarrow> dev \<Rightarrow> bool res" where
  "is_behavior_light i d = andThen (rd (behaviors d) (uint (lastBehaviorId d))) (\<lambda>h.
     forr [0..<unat (blightCounter h)]
       (\<lambda>p s. andThen (rd (blightIds h) (int p)) (\<lambda>x. Inr (s \<or> x = i))) False)"

definition drawSelectableLightsFromArray :: "env \<Rightarrow> int \<Rightarrow> int \<Rightarrow> dev \<Rightarrow> dev res" where
  "drawSelectableLightsFromArray E first last_i d =
     grid_loop (\<lambda>i d. andThen (rd (entertainmentLights d) i) (\<lambda>l. Inr (lname l = '''')))
       (\<lambda>i x y d. andThen (rd (entertainmentLights d) i) (\<lambda>l.
          andThen (is_behavior_light (lid l) d) (\<lambda>s. light_icon E l ESelectLight s x y d)))
       22 85 [first..last_i - 1] 22 56 (set_topIndex last_i d)"

definition drawRoomsFromArray :: "env \<Rightarrow> int \<Rightarrow> int \<Rightarrow> dev \<Rightarrow> dev res" where
  "drawRoomsFromArray E first last_i d =
     grid_loop (\<lambda>i d. andThen (rd (rooms d) i) (\<lambda>m. Inr (rname m = '''')))
       (\<lambda>i x y d. andThen (rd (rooms d) i) (\<lambda>m.
          drawBitmap E x y 0 0 None (Some AllRoomsBitmap) (bitmap_width AllRoomsBitmap)
            (bitmap_height AllRoomsBitmap) (rname m) (Some EDrawRoom) i False False 0 False d))
       22 85 [first..last_i - 1] 22 56 (set_topIndex last_i d)"

definition drawPaginationButtons :: "env \<Rightarrow> u8 \<Rightarrow> dev \<Rightarrow> dev res" where
  "drawPaginationButtons E counter = seqr
     [ok (\<lambda>d. d\<lparr>buttonCount := 7\<rparr>),
      \<lambda>d. (if topIndex d \<noteq> 4
           then drawSquareWithBitmapInside E 29 212 55 20 0 EPD_WHITE True EPD_BLACK LeftArrowBitmap
                  (Some EDrawPrevPage) 1
           else ui_fillRect 29 212 55 20 EPD_BLACK) d,
      \<lambda>d. (if topIndex d < counter
           then drawSquareWithBitmapInside E (55 + 29) 212 55 20 0 EPD_WHITE True EPD_BLACK
                  RightArrowBitmap (Some EDrawNextPage) 1
           else ui_fillRect (55 + 29) 212 55 20 EPD_BLACK) d]"

text \<open>Texts with Danish letters, as the UTF-8 bytes the compiler puts into the strings.\<close>

definition AE :: string where "AE = [CHR 0xC3, CHR 0x86]"
definition OE :: string where "OE = [CHR 0xC3, CHR 0x98]"

definition turn_page :: "env \<Rightarrow> int \<Rightarrow> int \<Rightarrow> dev \<Rightarrow> dev res" where
  "turn_page E a b d =
     (let t = uint (topIndex d)
      in if currentPageOnScreen d = ''ALLE RUM'' then seqr
           [drawRoomsFromArray E (t + a) (t + b), \<lambda>d. drawPaginationButtons E (roomsCount d) d] d
         else if currentPageOnScreen d = ''RUM'' then seqr
           [drawLightsFromArray E (t + a) (t + b), \<lambda>d. drawPaginationButtons E (lightCount d) d] d
         else if currentPageOnScreen d = ''ALLE LAMPER'' then seqr
           [drawSelectableLightsFromArray E (t + a) (t + b),
            \<lambda>d. drawPaginationButtons E (allLightCount d) d] d
         else Inr d)"

definition drawNextPage :: "env \<Rightarrow> dev \<Rightarrow> dev res" where
  "drawNextPage E = seqr
     [ui_fillRect 1 40 175 223 EPD_WHITE, ok (\<lambda>d. d\<lparr>buttonCount := 3\<rparr>), turn_page E 0 4,
      refreshBody]"

definition drawPrevPage :: "env \<Rightarrow> dev \<Rightarrow> dev res" where
  "drawPrevPage E = seqr
     [ui_fillRect 1 40 175 223 EPD_WHITE, ok (\<lambda>d. d\<lparr>buttonCount := 3\<rparr>), turn_page E (- 8) (- 4),
      on_display (window 1 40 175 223), refreshBody]"

subsection \<open>Start and stop of a behaviour\<close>

definition start_stop :: "env \<Rightarrow> u16 \<Rightarrow> u16 \<Rightarrow> handler option \<Rightarrow> int \<Rightarrow> dev \<Rightarrow> dev res" where
  "start_stop E c1 c2 ev bulbId = seqr
     [drawSquare E 14 184 74 40 0 c1 ''START'' True EPD_BLACK ev bulbId,
      drawSquare E (14 + 74) 184 74 40 0 c2 ''STOP'' True EPD_BLACK ev bulbId]"

definition set_activated :: "int \<Rightarrow> bool \<Rightarrow> dev \<Rightarrow> dev res" where
  "set_activated i s d = andThen (rd (behaviors d) i) (\<lambda>h. put_behavior i (h\<lparr>activated := s\<rparr>) d)"

definition toggleBehavior :: "env \<Rightarrow> int \<Rightarrow> int \<Rightarrow> dev \<Rightarrow> dev res" where
  "toggleBehavior E i buttonIndex d = andThen (rd (behaviors d) i) (\<lambda>h.
     if buttonIndex = 5 then
       (if activated h then seqr
          [\<lambda>d. whenr (currentPageOnScreen d = ''drawBehavior'')
                 (start_stop E EPD_WHITE EPD_BLACK None 0) d,
           set_activated i False,
           ok (\<lambda>d. d\<lparr>startBehaviorNow := False, fest := False\<rparr>),
           ok fb_begin,
           ok (append_action_what E touchScreenInteraction behaviorOff ''toggleBehavior'' (bname h)),
           on_display (window 14 184 (74 + 74) 40),
           disconnect E] d
        else Inr d)
     else if blightCounter h \<noteq> 0 then seqr
          [runTaskFireBaseAppendUserActionWithWhat E touchScreenInteraction behaviorOn
             ''toggleBehavior'' (bname h),
           firebaseEnd,
           start_stop E EPD_BLACK EPD_WHITE None 0,
           set_activated i True,
           on_display (window 14 184 (74 + 74) 40),
           ok activateBehavior] d
     else Inr d)"

definition getBehaviorType :: "u8 \<Rightarrow> string \<Rightarrow> string" where
  "getBehaviorType i t =
     (if i = timeBehavior then ''TIDSBASERET''
      else if i = repeatedBehavior then ''GENTAGELSES''
      else if i = transitionBehavior then ''OVERGANGS'' else t)"

subsection \<open>Colour or temperature\<close>

definition toggleRGBMode :: "env \<Rightarrow> dev \<Rightarrow> dev res" where
  "toggleRGBMode E d =
     (if btn_on (pressedButton d) \<noteq> 0 then seqr
        [ok (\<lambda>d. d\<lparr>RGBMode := True\<rparr>),
         ok (append_action_what E touchScreenInteraction rgbSwitch ''toggleRGBMode''
               ''From Brightness to RGB''),
         ui_drawCircle E (14 + 35) (152 + 35) 35 EPD_BLACK True True ''FARVE'' None 0 False,
         ui_drawCircle E 127 (152 + 35) 35 EPD_BLACK False True ''TEMP'' None 0 False,
         on_display (window 14 152 150 70)] d
      else seqr
        [ok (\<lambda>d. d\<lparr>RGBMode := False\<rparr>),
         ok (append_action_what E touchScreenInteraction rgbSwitch ''toggleRGBMode''
               ''From RGB to Brightness''),
         ui_fillRect (14 + 35) (152 + 35) 150 70 EPD_WHITE,
         ui_drawCircle E (14 + 35) (152 + 35) 35 EPD_BLACK False True ''FARVE'' None 0 False,
         ui_drawCircle E 127 (152 + 35) 35 EPD_BLACK True True ''TEMP'' None 0 False,
         on_display (window 14 152 150 70)] d)"

subsection \<open>Drawing changes the display only\<close>

named_theorems ui_simps \<open>drawing as an update of the display and of the buttons\<close>

lemma panel_ready_shown [simp]: "safe f \<Longrightarrow> panel_ready p \<Longrightarrow> panel_ready (shown f p)"
  using safe_shown by blast

lemma on_display_safe [ui_simps]:
  "safe f \<Longrightarrow> panel_ready (display d) \<Longrightarrow>
   on_display f d = Inr (d\<lparr>display := shown f (display d)\<rparr>)"
  using safe_shown [of f "display d"] by (simp add: on_display_def)

lemma safe_window [simp, safe_intros]: "safe (window x y w h)"
  by (simp add: window_def safe_def)

lemma safe_globalFont [simp, safe_intros]: "safe globalFont"
  unfolding globalFont_def by (rule safe_settings)

lemma safe_square_frame [simp, safe_intros]: "safe (square_frame x y w h rad c bo bc)"
  unfolding square_frame_def by (intro safe_intros)

lemma safe_square_text [simp, safe_intros]: "safe (square_text x y w h s)"
  unfolding square_text_def [abs_def] by (intro safe_textBounds) (simp only: prod.case, intro safe_intros)

lemma safe_icon_text [simp, safe_intros]: "safe (icon_text x y w h s)"
  unfolding icon_text_def [abs_def] by (intro safe_textBounds) (simp only: prod.case, intro safe_intros)

lemma safe_text_line [simp, safe_intros]: "safe (text_line x y sz s c ce)"
  unfolding text_line_def
  by (intro safe_intros safe_textBounds)
    (simp only: prod.case Let_def, cases ce, simp_all only: if_True if_False, (intro safe_intros)+)

lemma safe_circle_panel [simp, safe_intros]: "safe (circle_panel x y rad c sel wt s)"
  unfolding circle_panel_def by (auto intro!: safe_intros)

definition icon_panel ::
  "int \<Rightarrow> int \<Rightarrow> bitmap option \<Rightarrow> int \<Rightarrow> int \<Rightarrow> string \<Rightarrow> bool \<Rightarrow> panel \<Rightarrow> panel res" where
  "icon_panel x y bm w h text border =
     seqr [bitmap_pointer x y bm w h, whenr border (paint_all (drawRect x y w h) EPD_BLACK),
           gfx_setting (setTextColor EPD_BLACK), globalFont, icon_text x y w h text]"

definition fits :: "bitmap option \<Rightarrow> int \<Rightarrow> int \<Rightarrow> bool" where
  "fits bm w h \<longleftrightarrow> (case bm of None \<Rightarrow> False
     | Some m \<Rightarrow> 0 \<le> w \<and> 0 \<le> h \<and> h * ((w + 7) div 8) \<le> int (length (bitmap_data m)))"

lemma fits_own [simp]: "fits (Some b) (bitmap_width b) (bitmap_height b)"
  using bitmap_dims_pos [of b] by (simp add: fits_def bitmap_data_length mult.commute)

lemma safe_bitmap_pointer: "fits bm w h \<Longrightarrow> safe (bitmap_pointer x y bm w h)"
  by (cases bm)
    (simp_all add: fits_def bitmap_pointer_def [abs_def] safe_bitmap flip: safe_def)

lemma safe_icon_panel [simp]: "fits bm w h \<Longrightarrow> safe (icon_panel x y bm w h s bo)"
  unfolding icon_panel_def by (intro safe_intros safe_bitmap_pointer)

lemma safe_icon_data [simp]:
  "safe (panel_drawBitmap x y (bitmap_data b) (bitmap_width b) (bitmap_height b))"
  by (rule safe_icon)

lemma safe_paint_all_simp [simp]: "safe (paint_all ps c)"
  by (rule safe_paint_all)

lemma safe_seqr2 [simp]: "safe f \<Longrightarrow> safe (seqr fs) \<Longrightarrow> safe (seqr (f # fs))"
  by (rule safe_Cons)

lemma safe_seqr_Nil [simp]: "safe (seqr [])"
  by (rule safe_Nil)

lemma drawText_effect [ui_simps]:
  "panel_ready (display d) \<Longrightarrow>
   drawText x y sz s c ce d = Inr (d\<lparr>display := shown (text_line x y sz s c ce) (display d)\<rparr>)"
  by (simp add: drawText_def on_display_safe)

lemma ui_fillRect_effect [ui_simps]:
  "panel_ready (display d) \<Longrightarrow> ui_fillRect x y w h c d =
   Inr (d\<lparr>display := shown (seqr [paint_all (fillRect x y w h) c, window x y w h]) (display d)\<rparr>)"
  by (simp add: ui_fillRect_def on_display_safe)

lemma ui_drawLine_effect [ui_simps]:
  "panel_ready (display d) \<Longrightarrow> ui_drawLine x0 y0 x y c d =
   Inr (d\<lparr>display := shown (paint_all (drawLine x0 y0 x y) c) (display d)\<rparr>)"
  by (simp add: ui_drawLine_def on_display_safe)

lemma drawRectAndUpdate_effect [ui_simps]:
  "panel_ready (display d) \<Longrightarrow> drawRectAndUpdate x y w h c d =
   Inr (d\<lparr>display := shown (seqr [paint_all (drawRect x y w h) c,
                                   window (x - 2) (y - 2) (w + 2) (h + 2)]) (display d)\<rparr>)"
  by (simp add: drawRectAndUpdate_def on_display_safe)

lemma refreshBody_effect [ui_simps]:
  "panel_ready (display d) \<Longrightarrow>
   refreshBody d = Inr (d\<lparr>display := shown (window 0 19 175 225) (display d)\<rparr>)"
  by (simp add: refreshBody_def on_display_safe)

lemma drawSquare_effect [ui_simps]:
  "panel_ready (display d) \<Longrightarrow> drawSquare E x y w h rad c s bo bc ev i d =
   add_button E x y w h ev i s False 0 False
     (d\<lparr>display := shown (seqr [square_frame x y w h rad c bo bc, square_text x y w h s]) (display d)\<rparr>)"
  by (simp add: drawSquare_def on_display_safe)

lemma drawSquareWithBitmapInside_effect [ui_simps]:
  "panel_ready (display d) \<Longrightarrow> drawSquareWithBitmapInside E x y w h rad c bo bc bm ev i d =
   add_button E x y w h ev i '' '' False 0 False
     (d\<lparr>display := shown (seqr [square_frame x y w h rad c bo bc,
        panel_drawBitmap (x + w sdiv 2 - bitmap_width bm sdiv 2) (y + h sdiv 2 - bitmap_height bm sdiv 2)
          (bitmap_data bm) (bitmap_width bm) (bitmap_height bm)]) (display d)\<rparr>)"
  by (simp add: drawSquareWithBitmapInside_def on_display_safe)

lemma drawBitmap_effect [ui_simps]:
  assumes "panel_ready (display d)" "fits (if isOn then onB else offB) w h"
  shows "drawBitmap E x0 y0 xp yp onB offB w h s ev i ce isOn br bo d =
    add_button E ((if ce then x0 - w sdiv 2 else x0) - xp sdiv 2)
      ((if ce then y0 - h sdiv 2 else y0) - yp sdiv 2) (w + xp) (h + yp) ev i s isOn br bo
      (d\<lparr>display := shown (icon_panel (if ce then x0 - w sdiv 2 else x0)
          (if ce then y0 - h sdiv 2 else y0) (if isOn then onB else offB) w h s bo) (display d)\<rparr>)"
  unfolding drawBitmap_def Let_def icon_panel_def [symmetric]
  using assms by (simp add: on_display_safe)

lemma ui_drawCircle_effect [ui_simps]:
  "panel_ready (display d) \<Longrightarrow> ui_drawCircle E x y rad c sel wt s ev i isOn d =
   add_button E (x - rad) (y - rad) (rad * 2) (rad * 2) ev i s isOn 0 False
     (d\<lparr>display := shown (circle_panel x y rad c sel wt s) (display d)\<rparr>)"
  by (simp add: ui_drawCircle_def on_display_safe)

lemma add_button_None [ui_simps]: "add_button E x y w h None i s isOn br sel d = Inr d"
  by (simp add: add_button_def)

lemma add_button_Some [ui_simps]:
  "0 \<le> buttonCount d \<Longrightarrow> buttonCount d < int (length (buttons d)) \<Longrightarrow>
   add_button E x y w h (Some e) i s isOn br sel d =
   Inr (d\<lparr>buttons := (buttons d)[nat (buttonCount d) := new_button E x y w h e i s isOn br sel],
          buttonCount := buttonCount d + 1\<rparr>)"
  by (simp add: add_button_def push_button_def wr_in)

end
