(* ===== verification/Touch.thy ===== *)
theory Touch
  imports Panel
begin

section \<open>The touch controller\<close>

text \<open>
  \<^verbatim>\<open>components/FT6X36-IDF/FT6X36.cpp\<close>: the reading of the chip's registers, the turning of a position
  into the coordinates of the rotated display, and the state machine that makes gestures of raw events.
  What the chip answers, and the microseconds since the start at the first and the last reading of the
  clock, are arguments. A call of \<open>processTouch\<close> yields the events it hands to the registered function,
  in order. Members that nothing reads (\<open>_touches\<close>, \<open>_pointIdx\<close>, \<open>_intPin\<close>) are left out.
\<close>

datatype TRawEvent = PressDown | LiftUp | Contact | NoEvent

datatype TEvent = TE_None | TouchStart | TouchMove | TouchEnd | Tap | DragStart | DragMove | DragEnd

type_synonym TPoint = "u16 \<times> u16"

text \<open>Transfers on the bus: one register read or written, the pointer set to the first register.\<close>

datatype i2c = ReadReg u8 | WriteReg u8 u8 | SetPointer u8 | ReadBlock nat

record touch =
  touch_rotation :: u8
  touch_width :: u16
  touch_height :: u16
  touchX :: "u16 list"
  touchY :: "u16 list"
  touchEv :: "u16 list"
  touch_points :: "TPoint list"
  touchStartTime :: u32
  touchEndTime :: u32
  lastEvent :: u8
  lastX :: u16
  lastY :: u16
  dragMode :: bool
  touchHandler :: bool
  touchSemaphore :: bool
  i2c_bus :: "i2c list"

definition maxDeviation :: int where "maxDeviation = 5"

definition touch_new :: touch where
  "touch_new = \<lparr>touch_rotation = 0, touch_width = 0, touch_height = 0, touchX = [0, 0], touchY = [0, 0],
     touchEv = [0, 0], touch_points = replicate 10 (0, 0), touchStartTime = 0, touchEndTime = 0,
     lastEvent = 3, lastX = 0, lastY = 0, dragMode = False, touchHandler = False,
     touchSemaphore = False, i2c_bus = []\<rparr>"

subsection \<open>Registers\<close>

text \<open>\<open>regs\<close> is what a read of a register leaves in the byte (on a bus error, what was there before).\<close>

definition readRegister8 :: "(u8 \<Rightarrow> u8) \<Rightarrow> u8 \<Rightarrow> touch \<Rightarrow> u8 \<times> touch" where
  "readRegister8 regs r t = (regs r, t\<lparr>i2c_bus := i2c_bus t @ [ReadReg r]\<rparr>)"

definition writeRegister8 :: "u8 \<Rightarrow> u8 \<Rightarrow> touch \<Rightarrow> touch" where
  "writeRegister8 r v t = t\<lparr>i2c_bus := i2c_bus t @ [WriteReg r v]\<rparr>"

definition touched :: "(u8 \<Rightarrow> u8) \<Rightarrow> touch \<Rightarrow> u8 \<times> touch" where
  "touched regs t = (case readRegister8 regs 0x02 t of (n, t) \<Rightarrow> (if n > 2 then 0 else n, t))"

definition touch_begin :: "(u8 \<Rightarrow> u8) \<Rightarrow> u8 \<Rightarrow> u16 \<Rightarrow> u16 \<Rightarrow> touch \<Rightarrow> bool \<times> touch" where
  "touch_begin regs threshold width height t =
     (case readRegister8 regs 0xA8 (t\<lparr>touch_width := width, touch_height := height\<rparr>) of (panel_id, t) \<Rightarrow>
        if panel_id \<noteq> 0x11 then (False, t)
        else (case readRegister8 regs 0xA3 t of (chip_id, t) \<Rightarrow>
          if chip_id \<noteq> 0x06 \<and> chip_id \<noteq> 0x36 \<and> chip_id \<noteq> 0x64 then (False, t)
          else (True, writeRegister8 0x88 0x0E (writeRegister8 0x80 threshold (writeRegister8 0x00 0x00 t)))))"

definition touch_setRotation :: "u8 \<Rightarrow> touch \<Rightarrow> touch" where
  "touch_setRotation r t = t\<lparr>touch_rotation := r\<rparr>"

definition registerTouchHandler :: "touch \<Rightarrow> touch" where
  "registerTouchHandler t = t\<lparr>touchHandler := True\<rparr>"

text \<open>The interrupt gives a binary semaphore.\<close>

definition isr :: "touch \<Rightarrow> touch" where
  "isr t = t\<lparr>touchSemaphore := True\<rparr>"

subsection \<open>\<open>readData\<close>\<close>

definition read_axis :: "u8 list \<Rightarrow> nat \<Rightarrow> nat \<Rightarrow> u16" where
  "read_axis data hi lo = push_bit 8 (ucast (data ! hi AND 0x0F)) OR ucast (data ! lo)"

definition rotate_touch :: "u8 \<Rightarrow> u16 \<Rightarrow> u16 \<Rightarrow> TPoint \<Rightarrow> TPoint" where
  "rotate_touch r w h q = (case q of (x, y) \<Rightarrow>
     if r = 1 then (y, w - x - 1)
     else if r = 2 then (w - x - 1, h - y - 1)
     else if r = 3 then (h - y - 1, x)
     else (x, y))"

definition touch_point :: "touch \<Rightarrow> u8 list \<Rightarrow> nat \<Rightarrow> TPoint" where
  "touch_point t data i = rotate_touch (touch_rotation t) (touch_width t) (touch_height t)
     (read_axis data (3 + i * 6) (4 + i * 6), read_axis data (5 + i * 6) (6 + i * 6))"

text \<open>
  \<open>None\<close>: the first transfer fails, and the members keep what they had; \<open>Some data\<close>: the sixteen bytes
  of the array after the second transfer, whose result is not looked at. The result is true in both
  cases: an error code converts to true.
\<close>

definition readData :: "u8 list option \<Rightarrow> touch \<Rightarrow> bool \<times> touch" where
  "readData block t =
     (let t = t\<lparr>i2c_bus := i2c_bus t @ [ReadReg 0x02, SetPointer 0]\<rparr>
      in case block of
           None \<Rightarrow> (True, t)
         | Some data \<Rightarrow> (True, t\<lparr>i2c_bus := i2c_bus t @ [ReadBlock 16],
              touchX := map (\<lambda>i. fst (touch_point t data i)) [0, 1],
              touchY := map (\<lambda>i. snd (touch_point t data i)) [0, 1],
              touchEv := map (\<lambda>i. ucast (drop_bit 6 (data ! (3 + i * 6)))) [0, 1]\<rparr>))"

subsection \<open>\<open>processTouch\<close>\<close>

definition raw_event :: "u16 \<Rightarrow> TRawEvent" where
  "raw_event e = (if e = 0 then PressDown else if e = 1 then LiftUp else if e = 2 then Contact else NoEvent)"

definition to_millis :: "int \<Rightarrow> u32" where
  "to_millis us = word_of_int (us div 1000)"

definition fireEvent :: "touch \<Rightarrow> TPoint \<Rightarrow> TEvent \<Rightarrow> (TPoint \<times> TEvent) list" where
  "fireEvent t p e = (if touchHandler t then [(p, e)] else [])"

definition press_down :: "TPoint \<Rightarrow> int \<Rightarrow> touch \<Rightarrow> (TPoint \<times> TEvent) list \<times> touch" where
  "press_down p us t = (fireEvent t p TouchStart,
     t\<lparr>touch_points := (touch_points t)[0 := p], dragMode := False, touchStartTime := to_millis us\<rparr>)"

definition near_last :: "touch \<Rightarrow> TPoint \<Rightarrow> bool" where
  "near_last t p \<longleftrightarrow> \<bar>uint (lastX t) - uint (fst p)\<bar> \<le> maxDeviation \<or>
                    \<bar>uint (lastY t) - uint (snd p)\<bar> \<le> maxDeviation"

text \<open>The first clock reading is compared in 64 bits, as \<open>esp_timer_get_time\<close> returns it.\<close>

definition contact :: "TPoint \<Rightarrow> int \<Rightarrow> int \<Rightarrow> touch \<Rightarrow> (TPoint \<times> TEvent) list \<times> touch" where
  "contact p us us' t =
     (let start = \<not> dragMode t \<and> near_last t p \<and> us div 1000 - uint (touchStartTime t) > 300;
          drag = (if start then fireEvent t p DragStart
                  else if dragMode t then fireEvent t p DragMove else [])
      in (drag @ fireEvent t p TouchMove,
          t\<lparr>dragMode := dragMode t \<or> start, touchStartTime := to_millis us'\<rparr>))"

definition lift_up :: "TPoint \<Rightarrow> int \<Rightarrow> touch \<Rightarrow> (TPoint \<times> TEvent) list \<times> touch" where
  "lift_up p us t =
     (let t = t\<lparr>touch_points := (touch_points t)[9 := p], touchEndTime := to_millis us\<rparr>;
          es = fireEvent t p TouchEnd @ (if dragMode t then fireEvent t p DragEnd else []);
          t = t\<lparr>dragMode := False\<rparr>
      in if touchEndTime t - touchStartTime t \<le> 900
         then (es @ fireEvent t p Tap,
               t\<lparr>touch_points := (touch_points t)[0 := (0, 0)], touchStartTime := 0, dragMode := False\<rparr>)
         else (es, t))"

definition processTouch ::
  "u8 list option \<Rightarrow> int \<Rightarrow> int \<Rightarrow> touch \<Rightarrow> (TPoint \<times> TEvent) list \<times> touch" where
  "processTouch block us us' t =
     (case readData block (t\<lparr>touchSemaphore := False\<rparr>) of (_, t) \<Rightarrow>
        let event = raw_event (touchEv t ! 0); p = (touchX t ! 0, touchY t ! 0)
        in case (case event of
                   PressDown \<Rightarrow> press_down p us t
                 | Contact \<Rightarrow> contact p us us' t
                 | LiftUp \<Rightarrow> lift_up p us t
                 | NoEvent \<Rightarrow> ([], t)) of
             (es, t) \<Rightarrow> (es, t\<lparr>lastEvent := ucast (touchEv t ! 0), lastX := touchX t ! 0,
                             lastY := touchY t ! 0\<rparr>))"

text \<open>The task that runs \<open>loop\<close> waits for the interrupt; both can happen at any time.\<close>

inductive touch_step :: "touch \<Rightarrow> (TPoint \<times> TEvent) list \<Rightarrow> touch \<Rightarrow> bool" where
  interrupt: "touch_step t [] (isr t)"
| process: "touchSemaphore t \<Longrightarrow> processTouch block us us' t = (es, t') \<Longrightarrow> touch_step t es t'"

inductive touch_run :: "touch \<Rightarrow> (TPoint \<times> TEvent) list \<Rightarrow> touch \<Rightarrow> bool" where
  run_start: "touch_run t [] t"
| run_step: "touch_run t es t' \<Longrightarrow> touch_step t' es' t'' \<Longrightarrow> touch_run t (es @ es') t''"

inductive_cases touch_stepE: "touch_step t es t'"

end
