(* ===== verification/Utils.thy ===== *)
theory Utils
  imports Device
begin

section \<open>Connecting to the network\<close>

text \<open>
  \<open>connectToWiFi\<close> of \<^verbatim>\<open>main/utils.cpp\<close>, called once at the start. Whether the station is connected is
  asked of the environment at every turn of the loop, which is followed for \<open>env_patience\<close> turns; the
  program goes on when the time limit has passed. \<open>ReadBatteryVoltage\<close> of the same file is in theory
  Eink, next to the battery symbol.
\<close>

definition SSID :: string where "SSID = ''Stofa60209''"
definition SSID_PASSWORD :: string where "SSID_PASSWORD = ''skakt83senat06''"
definition CONNECT_TIMEOUT_MS :: u32 where "CONNECT_TIMEOUT_MS = 30000"

fun wifi_wait :: "env \<Rightarrow> nat \<Rightarrow> u32 \<Rightarrow> dev \<Rightarrow> (bool \<times> dev) res" where
  "wifi_wait E 0 startTime d = Inl Hang"
| "wifi_wait E (Suc n) startTime d =
     (let d = emit WifiStatus d
      in if env_wifi E (out d) then Inr (True, d)
         else (case millis E (delay_ms 500 d) of (now, d) \<Rightarrow>
           if now - startTime > CONNECT_TIMEOUT_MS then Inr (False, d)
           else wifi_wait E n startTime d))"

definition connectToWiFi :: "env \<Rightarrow> dev \<Rightarrow> dev res" where
  "connectToWiFi E d = (case millis E d of (startTime, d) \<Rightarrow>
     andThen (wifi_wait E (env_patience E) startTime (emit (WifiBegin SSID SSID_PASSWORD) (emit WifiDisconnect d)))
       (\<lambda>(connected, d). Inr (if connected then emit WifiAutoReconnect d else d)))"

text \<open>What the loop changes: it adds to the events.\<close>

lemma wifi_wait_out: "wifi_wait E n t d = Inr (b, e) \<Longrightarrow> \<exists>es. e = d\<lparr>out := es\<rparr>"
proof (induction n arbitrary: d)
  case (Suc n)
  show ?case
  proof (cases "env_wifi E (out d @ [WifiStatus])")
    case False
    with Suc show ?thesis
      by (fastforce simp: Let_def millis_def emit_def delay_ms_def split: if_splits)
  qed (use Suc.prems in \<open>auto simp: Let_def emit_def\<close>)
qed simp

lemma connectToWiFi_out: "connectToWiFi E d = Inr e \<Longrightarrow> \<exists>es. e = d\<lparr>out := es\<rparr>"
  by (auto simp: connectToWiFi_def millis_def emit_def Let_def andThen_eq_Inr dest!: wifi_wait_out
      split: if_splits)

subsection \<open>A clock that keeps time\<close>

text \<open>
  \<open>keeps_time E T\<close>: the clock shows the time \<open>T\<close> in 32 bits; a delay of \<open>n\<close> milliseconds takes \<open>n\<close>, and
  everything takes at most a second more than the delays in it.
\<close>

fun pause :: "event \<Rightarrow> int" where
  "pause (Delay n) = n"
| "pause (Ticks n) = n * portTICK_PERIOD_MS"
| "pause _ = 0"

definition keeps_time :: "env \<Rightarrow> (event list \<Rightarrow> int) \<Rightarrow> bool" where
  "keeps_time E T \<longleftrightarrow> (\<forall>es. env_clock E es = word_of_int (T es)) \<and>
     (\<forall>es e. T es + pause e \<le> T (es @ [e]) \<and> T (es @ [e]) \<le> T es + pause e + 1000)"

lemma keeps_timeD:
  assumes "keeps_time E T"
  shows "env_clock E es = word_of_int (T es)" "T es + pause e \<le> T (es @ [e])"
    "T (es @ [e]) \<le> T es + pause e + 1000"
  using assms by (simp_all add: keeps_time_def)

lemma elapsed_word:
  "0 \<le> b - a \<Longrightarrow> b - a < 2 ^ 32 \<Longrightarrow> uint (word_of_int b - word_of_int a :: u32) = b - a"
  by (simp only: of_int_diff [symmetric] unsigned_of_int) (simp add: take_bit_int_eq_self)

lemma wifi_wait_ends:
  assumes "keeps_time E T" "t0 = word_of_int a" "a \<le> T (out d)" "T (out d) \<le> a + 30000"
    and "a + 30000 < T (out d) + 500 * int n"
  shows "\<exists>b es. wifi_wait E n t0 d = Inr (b, d\<lparr>out := out d @ es\<rparr>) \<and>
    T (out d @ es) \<le> a + 33500 \<and> (\<not> b \<longrightarrow> a + 30000 < T (out d @ es)) \<and>
    (b \<longrightarrow> env_wifi E (out d @ es)) \<and> es \<noteq> [] \<and> last es \<in> {WifiStatus, Millis}"
  using assms(3-5)
proof (induction n arbitrary: d)
  case (Suc n)
  define o1 where "o1 = out d @ [WifiStatus]"
  define o3 where "o3 = (o1 @ [Delay 500]) @ [Millis]"
  have t: "T (out d) \<le> T o1" "T o1 \<le> T (out d) + 1000" "T o1 + 500 \<le> T o3" "T o3 \<le> T o1 + 2500"
    using keeps_timeD(2,3) [OF assms(1), of "out d" WifiStatus] keeps_timeD(2,3) [OF assms(1), of o1 "Delay 500"]
      keeps_timeD(2,3) [OF assms(1), of "o1 @ [Delay 500]" Millis] by (simp_all add: o1_def o3_def)
  have late: "env_clock E o3 - t0 > CONNECT_TIMEOUT_MS \<longleftrightarrow> a + 30000 < T o3"
  proof -
    have "uint (word_of_int (T o3) - word_of_int a :: u32) = T o3 - a"
      using t Suc.prems by (intro elapsed_word) simp_all
    then show ?thesis
      by (simp add: keeps_timeD(1) [OF assms(1)] assms(2) CONNECT_TIMEOUT_MS_def word_less_def)
        linarith
  qed
  consider "env_wifi E o1" | "\<not> env_wifi E o1" "a + 30000 < T o3" | "\<not> env_wifi E o1" "T o3 \<le> a + 30000"
    by linarith
  then show ?case
  proof cases
    case 1
    then show ?thesis using t Suc.prems
      by (intro exI [of _ True] exI [of _ "[WifiStatus]"]) (simp add: Let_def emit_def o1_def)
  next
    case 2
    then have "wifi_wait E (Suc n) t0 d = Inr (False, d\<lparr>out := out d @ [WifiStatus, Delay 500, Millis]\<rparr>)"
      using late by (simp add: Let_def emit_def delay_ms_def millis_def o1_def o3_def)
    then show ?thesis using 2 t Suc.prems
      by (intro exI [of _ False] exI [of _ "[WifiStatus, Delay 500, Millis]"]) (simp add: o1_def o3_def)
  next
    case 3
    from Suc.IH [of "d\<lparr>out := o3\<rparr>"] 3 t Suc.prems obtain b es where
      "wifi_wait E n t0 (d\<lparr>out := o3\<rparr>) = Inr (b, d\<lparr>out := o3 @ es\<rparr>)" "T (o3 @ es) \<le> a + 33500"
      "\<not> b \<longrightarrow> a + 30000 < T (o3 @ es)" "b \<longrightarrow> env_wifi E (o3 @ es)"
      "es \<noteq> []" "last es \<in> {WifiStatus, Millis}" by auto
    moreover have "wifi_wait E (Suc n) t0 d = wifi_wait E n t0 (d\<lparr>out := o3\<rparr>)"
      using 3 late by (simp add: Let_def emit_def delay_ms_def millis_def o1_def o3_def)
    ultimately show ?thesis
      by (intro exI [of _ b] exI [of _ "[WifiStatus, Delay 500, Millis] @ es"]) (simp add: o1_def o3_def)
  qed
qed simp

end
