(* ===== verification/Pages.thy ===== *)
theory Pages
  imports Eink Touch Utils
begin

section \<open>The pages and the navigation (\<^verbatim>\<open>pages.cpp\<close>, \<^verbatim>\<open>eink.cpp\<close>)\<close>

text \<open>
  Every page of the user interface, the header with the navigation buttons and the path of
  visited pages, the settings pages of the behaviours, the refresh of all data, and the
  dispatch of a touch to the handler of the first button that contains it.
\<close>

definition drawHomeID :: int where "drawHomeID = 0"
definition drawAllRoomsID :: int where "drawAllRoomsID = 1"
definition drawRoomID :: int where "drawRoomID = 2"
definition drawLightID :: int where "drawLightID = 3"
definition drawAllLightsID :: int where "drawAllLightsID = 4"
definition drawAllBehaviorID :: int where "drawAllBehaviorID = 5"
definition drawBehaviorID :: int where "drawBehaviorID = 6"
definition changeBehaviorID :: int where "changeBehaviorID = 7"

lemmas page_ids = drawHomeID_def drawAllRoomsID_def drawRoomID_def drawLightID_def
  drawAllLightsID_def drawAllBehaviorID_def drawBehaviorID_def changeBehaviorID_def

subsection \<open>The header\<close>

definition addPageToPagePath :: "dev \<Rightarrow> dev res" where
  "addPageToPagePath d =
     (if isGoingBack d then Inr (d\<lparr>isGoingBack := False\<rparr>)
      else andThen (wr (pagePath d) (pagePageCounter d) (currentRoomID d))
        (\<lambda>ps. Inr (d\<lparr>pagePath := ps, pagePageCounter := pagePageCounter d + 1,
                      isGoingBack := False\<rparr>)))"

definition nav_icon :: "env \<Rightarrow> int \<Rightarrow> int \<Rightarrow> bitmap \<Rightarrow> handler \<Rightarrow> dev \<Rightarrow> dev res" where
  "nav_icon E x pw b ev = drawBitmap E x (238 + 26 sdiv 2) (pw - bitmap_width b) (26 - bitmap_height b)
     None (Some b) (bitmap_width b) (bitmap_height b) '' '' (Some ev) 12 True False 0 False"

definition drawHeader :: "env \<Rightarrow> string \<Rightarrow> handler \<Rightarrow> bool \<Rightarrow> dev \<Rightarrow> dev res" where
  "drawHeader E text page persistButtons = seqr
     [whenr (\<not> persistButtons) (ok (\<lambda>d. clearButtons (d\<lparr>buttonCount := 0\<rparr>))),
      addPageToPagePath,
      ok (\<lambda>d. d\<lparr>currentPageOnScreen := text\<rparr>),
      \<lambda>d. ui_drawLine 0 18 (screen_width d) 18 EPD_BLACK d,
      \<lambda>d. drawText (screen_width d sdiv 2) 12 1 (prevHeaderText d) EPD_WHITE True d,
      \<lambda>d. drawText (screen_width d sdiv 2) 12 1 text EPD_BLACK True d,
      on_display (window 1 1 175 19),
      ok (\<lambda>d. d\<lparr>prevHeaderText := text\<rparr>),
      ui_fillRect 0 19 175 (264 - 40) EPD_WHITE,
      \<lambda>d. let w = screen_width d
          in (if text \<noteq> ''HJEM'' then seqr
                [nav_icon E ((w sdiv 3) sdiv 2) (w sdiv 3) BackArrowBitmap EGoBack,
                 nav_icon E (w sdiv 2) (w sdiv 3) HomeBitmap EDrawHomeFromHomeButton]
              else seqr
                [nav_icon E ((w sdiv 3) sdiv 2) (w sdiv 3) RefreshBitmap EFetchData,
                 nav_icon E (w sdiv 2) (w sdiv 3) HomeBitmap EDrawHomeFromHomeButton]) d,
      \<lambda>d. on_display (window 1 238 (screen_width d - 2) 23) d,
      ok (\<lambda>d. d\<lparr>prevPage := Some page\<rparr>)]"

subsection \<open>Home, rooms and lights\<close>

definition goto :: "int \<Rightarrow> dev \<Rightarrow> dev" where
  "goto page d = d\<lparr>currentRoomID := page\<rparr>"

definition set_screen :: "string \<Rightarrow> dev \<Rightarrow> dev" where
  "set_screen s d = d\<lparr>currentScreenType := s\<rparr>"

definition drawHome :: "env \<Rightarrow> dev \<Rightarrow> dev res" where
  "drawHome E = seqr
     [ok (append_action E touchScreenInteraction navigate ''drawHome''),
      \<lambda>d. (if uiLevel d = 1 then seqr
             [ok (set_screen ''HOME''), ok (goto 1),
              \<lambda>d. andThen (rd (rooms d) (currentRoomID d)) (\<lambda>m. Inr (d\<lparr>currentRoom := m\<rparr>)),
              drawHeader E ''HJEM'' EDrawHome False,
              \<lambda>d. drawText (screen_width d sdiv 2) 50 1 ''JEG ER I'' EPD_BLACK True d,
              \<lambda>d. drawText (screen_width d sdiv 2) 100 1 (rname (currentRoom d)) EPD_BLACK True d]
           else whenr (uiLevel d \<ge> 2) (seqr
             [ok (set_screen ''HOME''), ok (goto drawHomeID),
              drawHeader E ''HJEM'' EDrawHome False,
              \<lambda>d. drawText 20 33 1
                (if rname (currentRoom d) = '''' then ''V'' @ AE @ ''LG ET RUM''
                 else ''JEG ER I '' @ rname (currentRoom d)) EPD_BLACK False d,
              drawBitmap E 30 56 0 0 None (Some AllRoomsBitmap) (bitmap_width AllRoomsBitmap)
                (bitmap_height AllRoomsBitmap) ''ALLE RUM'' (Some EDrawAllGroups) 0 False False 0 False,
              \<lambda>d. whenr (uiLevel d = 3)
                (drawBitmap E (30 + 80) 56 0 0 None (Some BehaviorBitmap) (bitmap_width BehaviorBitmap)
                  (bitmap_width BehaviorBitmap) (''OPF'' @ OE @ ''RSEL'') (Some EDrawAllBehaviors)
                  0 False False 0 False) d])) d,
      refreshBody]"

definition drawAllGroups :: "env \<Rightarrow> dev \<Rightarrow> dev res" where
  "drawAllGroups E = seqr
     [ok (append_action E touchScreenInteraction navigate ''drawAllRooms''),
      ok (set_screen ''ROOMS''), ok (goto drawAllRoomsID),
      ok (\<lambda>d. d\<lparr>currentPageOnScreen := ''ALLE RUM''\<rparr>),
      drawHeader E ''ALLE RUM'' EDrawAllGroups False,
      drawText 20 33 1 (''V'' @ AE @ ''LG ET RUM'') EPD_BLACK False,
      \<lambda>d. whenr (roomPagination d) (seqr
        [ok (set_topIndex 4), \<lambda>d. drawPaginationButtons E (roomsCount d) d]) d,
      drawRoomsFromArray E 0 4,
      refreshBody]"

definition drawRoom :: "env \<Rightarrow> int \<Rightarrow> dev \<Rightarrow> dev res" where
  "drawRoom E rm = seqr
     [ok (set_screen ''ROOM''), ok (goto drawRoomID),
      \<lambda>d. whenr (lastRoom d \<noteq> rm)
        (\<lambda>d. andThen (rd (rooms d) rm) (\<lambda>m. Inr (d\<lparr>currentRoom := m\<rparr>))) d,
      ok (\<lambda>d. d\<lparr>lastRoom := rm\<rparr>),
      \<lambda>d. drawHeader E (rname (currentRoom d)) EDrawRoom False d,
      ok (\<lambda>d. d\<lparr>currentPageOnScreen := ''RUM''\<rparr>),
      ok (\<lambda>d. append_action_what E touchScreenInteraction navigate ''drawRoom''
                (rname (currentRoom d)) d),
      drawText 20 33 1 (''V'' @ AE @ ''LG EN LAMPE'') EPD_BLACK False,
      ok (\<lambda>d. d\<lparr>lightCount := rlightCounter (currentRoom d)\<rparr>),
      \<lambda>d. andThen (getLightStates E (lights d) (rlightIds (currentRoom d))
                     (rlightCounter (currentRoom d)) d)
            (\<lambda>(ls, d). Inr (d\<lparr>lights := ls\<rparr>)),
      \<lambda>d. whenr (rlightCounter (currentRoom d) > 4) (seqr
        [ok (set_topIndex 4), \<lambda>d. drawPaginationButtons E (lightCount d) d]) d,
      drawLightsFromArray E 0 4,
      refreshBody]"

definition find_light :: "int \<Rightarrow> dev \<Rightarrow> dev res" where
  "find_light i d0 = forr [0..<unat (allLightCount d0)]
     (\<lambda>k d. andThen (rd (lights d) (int k))
        (\<lambda>l. Inr (if uint (lid l) = i then d\<lparr>currentLight := l\<rparr> else d))) d0"

definition drawLight_page :: "env \<Rightarrow> string \<Rightarrow> dev \<Rightarrow> dev res" where
  "drawLight_page E nm = seqr
     [ok (set_screen ''LIGHT''), ok (goto drawLightID),
      drawHeader E nm EDrawLight False,
      drawText 14 28 0 (''SKIFT P'' @ AE @ ''RENS UDSEENDE'') EPD_BLACK False,
      \<lambda>d. drawBitmap E (screen_width d sdiv 2) 60 0 0 (Some BulbOutlinedBitmap) (Some BulbBitmap)
            (bitmap_width BulbBitmap) (bitmap_height BulbBitmap) nm (Some ESwitch)
            (uint (lid (currentLight d))) True (lon (currentLight d)) 0 False d,
      \<lambda>d. drawBar E 14 110 (word_of_int (brightness (currentLight d))) d,
      \<lambda>d. whenr (\<not> onlyDimmable (currentLight d)) (seqr
        [drawText 14 135 0 (''V'' @ AE @ ''LG FARVE SKALA'') EPD_BLACK False,
         ui_drawCircle E (14 + 35) (152 + 35) 35 EPD_BLACK False True ''FARVE'' (Some EToggleRGBMode)
           (uint (lid (currentLight d))) True,
         ui_drawCircle E 127 (152 + 35) 35 EPD_BLACK True True ''TEMP'' (Some EToggleRGBMode)
           (uint (lid (currentLight d))) False]) d,
      refreshBody]"

definition drawLight :: "env \<Rightarrow> int \<Rightarrow> dev \<Rightarrow> dev res" where
  "drawLight E lightId d =
     (if \<not> calledFromEncoder d then seqr
        [ok (\<lambda>d. append_action_what E touchScreenInteraction navigate ''drawLight''
                   (lname (currentLight d)) d),
         ok (\<lambda>d. d\<lparr>calledFromEncoder := False\<rparr>),
         \<lambda>d. find_light (btn_id (pressedButton d)) d,
         \<lambda>d. drawLight_page E (btn_name (pressedButton d)) d] d
      else seqr
        [find_light lightId, \<lambda>d. drawLight_page E (lname (currentLight d)) d] d)"

definition drawAllLights :: "env \<Rightarrow> dev \<Rightarrow> dev res" where
  "drawAllLights E = seqr
     [ok (append_action E touchScreenInteraction navigate ''drawAllLightsInBehavior''),
      ok (goto drawAllLightsID),
      drawHeader E ''ALLE LAMPER'' EDrawAllLights False,
      drawText 14 33 0 (''V'' @ AE @ ''LG LAMPER'') EPD_BLACK False,
      \<lambda>d. (if allLightsPagination d then seqr
             [ok (set_topIndex 4), \<lambda>d. drawPaginationButtons E (rlightCounter (entertainmentRoom d)) d,
              \<lambda>d. drawSelectableLightsFromArray E 0 (uint (topIndex d)) d]
           else drawSelectableLightsFromArray E 0 (uint (rlightCounter (entertainmentRoom d)))) d,
      refreshBody]"

subsection \<open>Behaviours\<close>

definition drawAllBehaviors :: "env \<Rightarrow> dev \<Rightarrow> dev res" where
  "drawAllBehaviors E = seqr
     [ok (append_action E touchScreenInteraction navigate ''drawAllBehaviors''),
      ok (goto drawAllBehaviorID),
      drawHeader E (''OPF'' @ OE @ ''RSLER'') EDrawAllBehaviors False,
      drawText 14 33 1 (''V'' @ AE @ ''LG EN OPF'' @ OE @ ''RSEL'') EPD_BLACK False,
      \<lambda>d. grid_loop (\<lambda>i d. Inr False)
        (\<lambda>i x y d. andThen (rd (behaviors d) i) (\<lambda>h.
           drawBitmap E x y 0 0 None (Some BulbOutlinedBitmap) (bitmap_width BulbBitmap)
             (bitmap_height BulbBitmap) (bname h) (Some EDrawBehavior) i False False 0 False d))
        20 80 [0..uint (behaviorCount d) - 1] 20 56 d,
      refreshBody]"

definition enter_behavior :: "env \<Rightarrow> int \<Rightarrow> int \<Rightarrow> dev \<Rightarrow> dev res" where
  "enter_behavior E page i d = andThen (rd (behaviors d) i) (\<lambda>h. seqr
     [ok (\<lambda>d. d\<lparr>currentRoomID := page, lastBehavior := h, lastBehaviorId := word_of_int i\<rparr>),
      drawHeader E (bname h) EDrawBehavior False] d)"

definition log_behavior :: "env \<Rightarrow> string \<Rightarrow> int \<Rightarrow> dev \<Rightarrow> dev res" where
  "log_behavior E ctxt i d = andThen (rd (behaviors d) i)
     (\<lambda>h. Inr (append_action_what E touchScreenInteraction navigate ctxt (bname h) d))"

definition edit_button :: "env \<Rightarrow> handler \<Rightarrow> int \<Rightarrow> dev \<Rightarrow> dev res" where
  "edit_button E ev i = drawSquare E 23 110 130 30 0 EPD_BLACK (''REDIGER OPF'' @ OE @ ''RSEL'')
     True EPD_BLACK (Some ev) i"

definition drawBehavior :: "env \<Rightarrow> int \<Rightarrow> dev \<Rightarrow> dev res" where
  "drawBehavior E i = seqr
     [enter_behavior E drawBehaviorID i,
      ok (\<lambda>d. d\<lparr>currentPageOnScreen := ''drawBehavior''\<rparr>),
      log_behavior E ''drawBehavior'' i,
      \<lambda>d. andThen (rd (behaviors d) i) (\<lambda>h. seqr
        [drawText 14 33 1 (String_uint (unat (blightCounter h)) @ '' P'' @ AE @ ''RER ER VALGT I EN '')
           EPD_BLACK False,
         drawText 14 48 1 (getBehaviorType (behaviorId h) '''' @ '' OPF'' @ OE @ ''RSEL'') EPD_BLACK False,
         drawSquare E 23 65 130 30 0 EPD_BLACK (''REDIGER P'' @ AE @ ''RER'') True EPD_BLACK
           (Some EDrawAllLights) i,
         whenr (behaviorId h = repeatedBehavior) (edit_button E EChangeBehaviorForTraining i),
         whenr (behaviorId h = timeBehavior) (edit_button E EChangeBehaviorForAlarm i),
         whenr (behaviorId h = transitionBehavior) (edit_button E EChangeBehaviorForFest i),
         drawText 14 162 1 ''START ELLER STOP'' EPD_BLACK False,
         drawText 14 177 1 (''OPF'' @ OE @ ''RSEL'') EPD_BLACK False,
         (if \<not> activated h then start_stop E EPD_WHITE EPD_BLACK (Some EToggleBehavior) i
          else start_stop E EPD_BLACK EPD_WHITE (Some EToggleBehavior) i)] d),
      refreshBody]"

text \<open>A label drawn over its old text in white and then, after the change, in black.\<close>

definition relabel :: "int \<Rightarrow> (dev \<Rightarrow> string) \<Rightarrow> (dev \<Rightarrow> dev) \<Rightarrow> dev \<Rightarrow> dev res" where
  "relabel y label change = seqr
     [\<lambda>d. drawText 14 y 1 (label d) EPD_WHITE False d, ok change,
      \<lambda>d. drawText 14 y 1 (label d) EPD_BLACK False d]"

definition set_delay :: "int \<Rightarrow> (dev \<Rightarrow> int) \<Rightarrow> dev \<Rightarrow> dev res" where
  "set_delay i f d = andThen (rd (behaviors d) i) (\<lambda>h. put_behavior i (h\<lparr>bdelay := f d\<rparr>) d)"

definition seconds :: "int \<Rightarrow> string" where
  "seconds n = String_int (n sdiv 1000) @ '' sekunder''"

definition times :: "int \<Rightarrow> string" where
  "times n = String_int n @ '' gange''"

definition per_second :: "int \<Rightarrow> string" where
  "per_second n = String_int n @ '' blink per sekund''"

definition spawn_update :: "dev \<Rightarrow> dev" where
  "spawn_update = emit (TaskCreate ''behavior_update_task'')"

definition incrementBlinkingLightsSpeed :: "dev \<Rightarrow> dev res" where
  "incrementBlinkingLightsSpeed = seqr
     [relabel 69 (\<lambda>d. seconds (blinkingLightsDelay d))
        (\<lambda>d. d\<lparr>blinkingLightsDelay := blinkingLightsDelay d + 1000\<rparr>),
      set_delay 0 (\<lambda>d. blinkingLightsDelay d sdiv 10)]"

definition decrementBlinkingLightsSpeed :: "dev \<Rightarrow> dev res" where
  "decrementBlinkingLightsSpeed = seqr
     [relabel 69 (\<lambda>d. seconds (blinkingLightsDelay d))
        (\<lambda>d. if blinkingLightsDelay d > 1000
              then d\<lparr>blinkingLightsDelay := blinkingLightsDelay d - 1000\<rparr> else d),
      set_delay 0 (\<lambda>d. blinkingLightsDelay d sdiv 10)]"

definition incrementBlinkingLightsCount :: "dev \<Rightarrow> dev res" where
  "incrementBlinkingLightsCount = seqr
     [relabel 169 (\<lambda>d. times (blinkingLightsEntries d))
        (\<lambda>d. d\<lparr>blinkingLightsEntries := blinkingLightsEntries d + 10\<rparr>), ok spawn_update]"

definition decrementBlinkingLightsCount :: "dev \<Rightarrow> dev res" where
  "decrementBlinkingLightsCount = seqr
     [relabel 169 (\<lambda>d. times (blinkingLightsEntries d))
        (\<lambda>d. if blinkingLightsEntries d > 10
              then d\<lparr>blinkingLightsEntries := blinkingLightsEntries d - 10\<rparr> else d), ok spawn_update]"

definition incrementAlarmDuration :: "dev \<Rightarrow> dev res" where
  "incrementAlarmDuration = seqr
     [relabel 69 (\<lambda>d. seconds (alarmDelay d)) (\<lambda>d. d\<lparr>alarmDelay := alarmDelay d + 10000\<rparr>),
      set_delay 1 (\<lambda>d. alarmDelay d sdiv 10)]"

definition decrementAlarmDuration :: "dev \<Rightarrow> dev res" where
  "decrementAlarmDuration = seqr
     [relabel 69 (\<lambda>d. seconds (alarmDelay d))
        (\<lambda>d. if alarmDelay d > 1000 then d\<lparr>alarmDelay := alarmDelay d - 10000\<rparr> else d),
      set_delay 1 (\<lambda>d. alarmDelay d sdiv 10)]"

definition incrementAlarmFlashCount :: "dev \<Rightarrow> dev res" where
  "incrementAlarmFlashCount = seqr
     [relabel 169 (\<lambda>d. times (alarmEntries d)) (\<lambda>d. d\<lparr>alarmEntries := alarmEntries d + 10\<rparr>),
      ok spawn_update]"

definition decrementAlarmFlashCount :: "dev \<Rightarrow> dev res" where
  "decrementAlarmFlashCount = seqr
     [relabel 169 (\<lambda>d. times (alarmEntries d))
        (\<lambda>d. if alarmEntries d > 10 then d\<lparr>alarmEntries := alarmEntries d - 10\<rparr> else d),
      ok spawn_update]"

definition fest_delay_res :: "dev \<Rightarrow> dev res" where
  "fest_delay_res d = (if festDelay d = 0 then Inl DivByZero
     else set_delay 2 (\<lambda>d. (1000 sdiv festDelay d) sdiv 10) d)"

definition incrementFestSpeed :: "dev \<Rightarrow> dev res" where
  "incrementFestSpeed = seqr
     [relabel 169 (\<lambda>d. per_second (festDelay d)) (\<lambda>d. d\<lparr>festDelay := festDelay d + 1\<rparr>),
      fest_delay_res]"

definition decrementFestSpeed :: "dev \<Rightarrow> dev res" where
  "decrementFestSpeed = seqr
     [relabel 169 (\<lambda>d. per_second (festDelay d))
        (\<lambda>d. if festDelay d > 1 then d\<lparr>festDelay := festDelay d - 1\<rparr> else d),
      fest_delay_res]"

definition blinks :: "int \<Rightarrow> string" where
  "blinks n = String_int (n sdiv 1000) @ '' blink i alt''"

definition incrementFestDuration :: "dev \<Rightarrow> dev res" where
  "incrementFestDuration = seqr
     [relabel 69 (\<lambda>d. blinks (festEntries d))
        (\<lambda>d. if festEntries d < 500 then d\<lparr>festEntries := festEntries d + 50\<rparr> else d), ok spawn_update]"

definition decrementFestDuration :: "dev \<Rightarrow> dev res" where
  "decrementFestDuration = seqr
     [relabel 69 (\<lambda>d. blinks (festEntries d))
        (\<lambda>d. if festEntries d > 1 then d\<lparr>festEntries := festEntries d - 50\<rparr> else d), ok spawn_update]"

text \<open>A row of two squares marked \<open>-\<close> and \<open>+\<close>, in text size 2.\<close>

definition minus_plus :: "env \<Rightarrow> int \<Rightarrow> handler \<Rightarrow> handler \<Rightarrow> int \<Rightarrow> dev \<Rightarrow> dev res" where
  "minus_plus E y minus_ev plus_ev i = seqr
     [on_display (gfx_setting (setTextSize 2)),
      drawSquare E 14 y 74 40 0 EPD_WHITE ''-'' True EPD_BLACK (Some minus_ev) i,
      drawSquare E (14 + 74) y 74 40 0 EPD_WHITE ''+'' True EPD_BLACK (Some plus_ev) i,
      on_display (gfx_setting (setTextSize 1))]"

definition changeBehaviorForTraining :: "env \<Rightarrow> int \<Rightarrow> dev \<Rightarrow> dev res" where
  "changeBehaviorForTraining E i = seqr
     [enter_behavior E changeBehaviorID i, log_behavior E ''changeBehaviorForTraining'' i,
      drawText 14 34 1 (AE @ ''NDRE HVOR HURTIGT'') EPD_BLACK False,
      drawText 14 49 1 ''LYSET SKAL BLINKE'' EPD_BLACK False,
      \<lambda>d. drawText 14 69 1 (seconds (blinkingLightsDelay d)) EPD_BLACK False d,
      minus_plus E 82 EDecrementBlinkingLightsSpeed EIncrementBlinkingLightsSpeed i,
      drawText 14 134 1 (AE @ ''NDRE HVOR MANGE GANGE'') EPD_BLACK False,
      drawText 14 149 1 ''LYSET SKAL BLINKE'' EPD_BLACK False,
      \<lambda>d. drawText 14 169 1 (times (blinkingLightsEntries d)) EPD_BLACK False d,
      minus_plus E 184 EDecrementBlinkingLightsCount EIncrementBlinkingLightsCount i,
      refreshBody]"

definition changeBehaviorForAlarm :: "env \<Rightarrow> int \<Rightarrow> dev \<Rightarrow> dev res" where
  "changeBehaviorForAlarm E i = seqr
     [enter_behavior E changeBehaviorID i, log_behavior E ''changeBehaviorForAlarm'' i,
      drawText 14 34 1 (AE @ ''NDRE HVOR LANG TID'') EPD_BLACK False,
      drawText 14 49 1 ''ALARM VARER'' EPD_BLACK False,
      \<lambda>d. drawText 14 69 1 (seconds (alarmDelay d)) EPD_BLACK False d,
      minus_plus E 82 EDecrementAlarmDuration EIncrementAlarmDuration i,
      drawText 14 134 1 (AE @ ''NDRE HVOR MANGE GANGE'') EPD_BLACK False,
      drawText 14 149 1 ''ALARMEN SKAL BLINKE'' EPD_BLACK False,
      \<lambda>d. drawText 14 169 1 (times (blinkingLightsEntries d)) EPD_BLACK False d,
      minus_plus E 184 EDecrementAlarmFlashCount EIncrementAlarmFlashCount i,
      refreshBody]"

definition changeBehaviorForFest :: "env \<Rightarrow> int \<Rightarrow> dev \<Rightarrow> dev res" where
  "changeBehaviorForFest E i = seqr
     [enter_behavior E changeBehaviorID i, log_behavior E ''changeBehaviorForFest'' i,
      on_display (gfx_setting (setTextSize 1)),
      drawText 14 134 1 (AE @ ''NDRE HVOR HURTIGT'') EPD_BLACK False,
      drawText 14 149 1 ''LYSENE SKAL BLINKE'' EPD_BLACK False,
      \<lambda>d. drawText 14 169 1 (per_second (festDelay d)) EPD_BLACK False d,
      minus_plus E 184 EDecrementFestSpeed EIncrementFestSpeed i,
      refreshBody]"

subsection \<open>Navigation and refresh\<close>

definition drawHomeFromHomeButton :: "env \<Rightarrow> dev \<Rightarrow> dev res" where
  "drawHomeFromHomeButton E = seqr [ok (\<lambda>d. d\<lparr>pagePageCounter := 0\<rparr>), drawHome E]"

definition goBack :: "env \<Rightarrow> dev \<Rightarrow> dev res" where
  "goBack E d = andThen (rd (pagePath d) (pagePageCounter d - 2)) (\<lambda>pageID. seqr
     [ok (\<lambda>d. d\<lparr>pagePageCounter := pagePageCounter d - 1, isGoingBack := True\<rparr>),
      \<lambda>d. (if pageID = drawHomeID then drawHome E
           else if pageID = drawAllRoomsID then drawAllGroups E
           else if pageID = drawRoomID then drawRoom E (lastRoom d)
           else if pageID = drawLightID then drawLight E 0
           else if pageID = drawAllLightsID then drawAllLights E
           else if pageID = drawAllBehaviorID then drawAllBehaviors E
           else if pageID = drawBehaviorID then drawBehavior E (uint (lastBehaviorId d))
           else Inr) d] d)"

definition fetchData :: "env \<Rightarrow> dev \<Rightarrow> dev res" where
  "fetchData E = seqr
     [\<lambda>d. drawText (screen_width d sdiv 2) (screen_height d sdiv 2) 1 ''OPDATERER'' EPD_BLACK True d,
      ok (\<lambda>d. snd (discoverBridges E d)),
      getNewIds E,
      ok (\<lambda>d. case getGroup E ENTERTAINMENT_ID (entertainmentRoom d) d of
                (m, d) \<Rightarrow> d\<lparr>entertainmentRoom := m\<rparr>),
      \<lambda>d. andThen (getLightStates E (entertainmentLights d) (rlightIds (entertainmentRoom d))
                     (rlightCounter (entertainmentRoom d)) d)
            (\<lambda>(ls, d). Inr (d\<lparr>entertainmentLights := ls\<rparr>)),
      getGroups E,
      getLightIds E,
      firebaseEnd,
      ok fb_begin,
      initBehaviors E,
      getUILevel E,
      drawHome E,
      ok (\<lambda>d. d\<lparr>display := panel_update (display d)\<rparr>)]"

subsection \<open>Touch\<close>

definition invoke :: "env \<Rightarrow> handler \<Rightarrow> int \<Rightarrow> int \<Rightarrow> dev \<Rightarrow> dev res" where
  "invoke E h i k = (case h of
       EGoBack \<Rightarrow> goBack E
     | EDrawHomeFromHomeButton \<Rightarrow> drawHomeFromHomeButton E
     | EFetchData \<Rightarrow> fetchData E
     | EDrawHome \<Rightarrow> drawHome E
     | EDrawAllGroups \<Rightarrow> drawAllGroups E
     | EDrawRoom \<Rightarrow> drawRoom E i
     | EDrawLight \<Rightarrow> drawLight E i
     | EDrawAllLights \<Rightarrow> drawAllLights E
     | EDrawAllBehaviors \<Rightarrow> drawAllBehaviors E
     | EDrawBehavior \<Rightarrow> drawBehavior E i
     | ESwitch \<Rightarrow> Switch E
     | EToggleRGBMode \<Rightarrow> toggleRGBMode E
     | ESelectLight \<Rightarrow> selectLight E i k
     | EToggleBehavior \<Rightarrow> toggleBehavior E i k
     | EDrawNextPage \<Rightarrow> drawNextPage E
     | EDrawPrevPage \<Rightarrow> drawPrevPage E
     | EChangeBehaviorForTraining \<Rightarrow> changeBehaviorForTraining E i
     | EChangeBehaviorForAlarm \<Rightarrow> changeBehaviorForAlarm E i
     | EChangeBehaviorForFest \<Rightarrow> changeBehaviorForFest E i
     | EIncrementBlinkingLightsSpeed \<Rightarrow> incrementBlinkingLightsSpeed
     | EDecrementBlinkingLightsSpeed \<Rightarrow> decrementBlinkingLightsSpeed
     | EIncrementBlinkingLightsCount \<Rightarrow> incrementBlinkingLightsCount
     | EDecrementBlinkingLightsCount \<Rightarrow> decrementBlinkingLightsCount
     | EIncrementAlarmDuration \<Rightarrow> incrementAlarmDuration
     | EDecrementAlarmDuration \<Rightarrow> decrementAlarmDuration
     | EIncrementAlarmFlashCount \<Rightarrow> incrementAlarmFlashCount
     | EDecrementAlarmFlashCount \<Rightarrow> decrementAlarmFlashCount
     | EIncrementFestSpeed \<Rightarrow> incrementFestSpeed
     | EDecrementFestSpeed \<Rightarrow> decrementFestSpeed)"

definition hit :: "int \<Rightarrow> int \<Rightarrow> button \<Rightarrow> bool" where
  "hit px py v \<longleftrightarrow> btn_x v < px \<and> px < btn_width v + btn_x v \<and>
                   btn_y v < py \<and> py < btn_y v + btn_height v"

fun touch_loop :: "env \<Rightarrow> int \<Rightarrow> int \<Rightarrow> nat list \<Rightarrow> dev \<Rightarrow> (bool \<times> dev) res" where
  "touch_loop E px py [] d = Inr (False, d)"
| "touch_loop E px py (k # ks) d = andThen (rd (buttons d) (int k)) (\<lambda>v.
     if hit px py v then
       (case btn_event v of
          None \<Rightarrow> Inl NullCall
        | Some h \<Rightarrow> andThen (invoke E h (btn_id v) (int k) (d\<lparr>pressedButton := v\<rparr>))
                     (\<lambda>d. Inr (True, d)))
     else touch_loop E px py ks d)"

definition onTouchEvent :: "env \<Rightarrow> int \<Rightarrow> int \<Rightarrow> dev \<Rightarrow> (bool \<times> dev) res" where
  "onTouchEvent E px py d = touch_loop E px py [0..<nat (buttonCount d)] d"

definition touchEvent :: "env \<Rightarrow> int \<Rightarrow> int \<Rightarrow> TEvent \<Rightarrow> dev \<Rightarrow> dev res" where
  "touchEvent E px py e d =
     (if e = Tap then andThen (onTouchEvent E px py d) (\<lambda>(_, d). Inr d) else Inr d)"

subsection \<open>Start-up\<close>

definition initEink :: "env \<Rightarrow> dev \<Rightarrow> dev res" where
  "initEink E = seqr
     [ok (\<lambda>d. d\<lparr>display := displayRotation 2 (fillScreen EPD_WHITE (display d))\<rparr>),
      ok (emit (TaskCreate ''encoder_task'')), ok (emit (TaskCreate ''battery_task'')),
      ok (emit (TaskCreate ''firebase_task'')), ok (emit (TaskCreate ''behavior_task'')),
      fetchData E]"

definition initEncoders :: "dev \<Rightarrow> dev" where
  "initEncoders d = d\<lparr>encoder := setPosition 0 (encoder d), encoderCont := setPosition 0 (encoderCont d)\<rparr>"

text \<open>\<open>setup\<close> of \<^verbatim>\<open>main.cpp\<close>.\<close>

definition setup_device :: "env \<Rightarrow> dev \<Rightarrow> dev res" where
  "setup_device E = seqr
     [connectToWiFi E, ok firebaseInit, ok (hue_begin E), initEink E, ok initEncoders]"

end
