(* ===== verification/Encoder.thy ===== *)
theory Encoder
  imports Pages
begin

section \<open>The dials (\<^verbatim>\<open>encoder.cpp\<close>)\<close>

text \<open>
  The brightness scales, and the three loops of the encoder task. A loop is given by its
  local variables (a record) and its body (one round, up to \<open>vTaskDelay\<close>); \<open>encoder_step\<close>
  is one round of whichever loop the task is in.
\<close>

subsection \<open>The brightness scales\<close>

definition increaseBrightnessArr :: "int list" where
  "increaseBrightnessArr = [0, 15, 35, 54, 72, 90, 106, 122, 136, 150, 163, 175, 186, 196, 205,
     214, 221, 228, 234, 239, 242, 246, 248, 254]"

definition decreaseBrightnessArr :: "int list" where
  "decreaseBrightnessArr = [0, 6, 10, 14, 16, 18, 23, 31, 42, 55, 71, 89, 109, 132, 158, 186,
     217, 250, 254]"

definition getNearest :: "int \<Rightarrow> int \<Rightarrow> int \<Rightarrow> int" where
  "getNearest x y target = (if target - x \<ge> y - target then y else x)"

fun nearest_loop :: "int list \<Rightarrow> nat \<Rightarrow> int \<Rightarrow> bool \<Rightarrow> nat list \<Rightarrow> int" where
  "nearest_loop arr n target increase [] = 0"
| "nearest_loop arr n target increase (i # is) =
     (if increase then
        (if arr ! i \<le> target \<and> target < arr ! (i + 1)
         then (if i + 1 = n then arr ! i else arr ! (i + 1))
         else nearest_loop arr n target increase is)
      else if arr ! i < target \<and> target \<le> arr ! (i + 1) then arr ! i
      else nearest_loop arr n target increase is)"

definition getNearestElementInSortedArray :: "int list \<Rightarrow> nat \<Rightarrow> int \<Rightarrow> bool \<Rightarrow> int" where
  "getNearestElementInSortedArray arr n target increase =
     nearest_loop arr n target increase [0..<n - 1]"

definition calcBrightness :: "int \<Rightarrow> bool \<Rightarrow> int" where
  "calcBrightness current increase =
     (if increase then
        (let v = getNearestElementInSortedArray increaseBrightnessArr 24 current True
         in if v = 0 then 254 else v)
      else getNearestElementInSortedArray decreaseBrightnessArr 19 current False)"

lemma brightness_up_table:
  "\<forall>b \<in> set [0..253]. b < calcBrightness b True \<and> calcBrightness b True \<le> 254"
  by code_simp

lemma brightness_down_table:
  "\<forall>b \<in> set [1..254]. 0 \<le> calcBrightness b False \<and> calcBrightness b False < b"
  by code_simp

text \<open>A step up raises the brightness and a step down lowers it, within 0 and 254.\<close>

lemma calcBrightness_up: "0 \<le> b \<Longrightarrow> b < 254 \<Longrightarrow> b < calcBrightness b True \<and> calcBrightness b True \<le> 254"
  using brightness_up_table by simp

lemma calcBrightness_down: "0 < b \<Longrightarrow> b \<le> 254 \<Longrightarrow> 0 \<le> calcBrightness b False \<and> calcBrightness b False < b"
  using brightness_down_table by simp

subsection \<open>Reading the dials\<close>

definition read_pin :: "env \<Rightarrow> nat \<Rightarrow> dev \<Rightarrow> bool \<times> dev" where
  "read_pin E n d = (let d = emit (DigitalRead n) d in (env_pin E (out d), d))"

definition tick_encoder :: "env \<Rightarrow> dev \<Rightarrow> dev" where
  "tick_encoder E d = (case read_pin E 32 d of (a, d) \<Rightarrow> case read_pin E 33 d of (c, d) \<Rightarrow>
     d\<lparr>encoder := tick a c (env_clock E (out d)) (encoder d)\<rparr>)"

definition tick_encoderCont :: "env \<Rightarrow> dev \<Rightarrow> dev" where
  "tick_encoderCont E d = (case read_pin E 25 d of (a, d) \<Rightarrow> case read_pin E 26 d of (c, d) \<Rightarrow>
     d\<lparr>encoderCont := tick a c (env_clock E (out d)) (encoderCont d)\<rparr>)"

definition step_of_encoder :: "dev \<Rightarrow> int \<times> dev" where
  "step_of_encoder d = (case getDirection (encoder d) of (s, e) \<Rightarrow> (direction_step s, d\<lparr>encoder := e\<rparr>))"

definition step_of_encoderCont :: "dev \<Rightarrow> int \<times> dev" where
  "step_of_encoderCont d =
     (case getDirection (encoderCont d) of (s, e) \<Rightarrow> (direction_step s, d\<lparr>encoderCont := e\<rparr>))"

definition encoderBtn :: nat where "encoderBtn = 13"

definition lift_d :: "(dev \<Rightarrow> dev res) \<Rightarrow> 'v \<times> dev \<Rightarrow> ('v \<times> dev) res" where
  "lift_d f s = andThen (f (snd s)) (\<lambda>d. Inr (fst s, d))"

definition sync_screen :: "dev \<Rightarrow> dev" where
  "sync_screen d = d\<lparr>currentScreen := currentScreenType d\<rparr>"

subsection \<open>\<open>chooseLightInRoom\<close>\<close>

record room_vars =
  rv_counter :: u8
  rv_lightId :: u8

definition chooseLightInRoom_start :: "dev \<Rightarrow> room_vars res" where
  "chooseLightInRoom_start d = andThen (rd (rlightIds (currentRoom d)) 0)
     (\<lambda>i. Inr \<lparr>rv_counter = 0, rv_lightId = i\<rparr>)"

text \<open>The counter after a step of the dial: it runs over the lamps and one more place, the
  whole room. The log line in the source reads the lamp's number at the counter first.\<close>

definition next_counter :: "int \<Rightarrow> u8 \<Rightarrow> u8 \<Rightarrow> u8" where
  "next_counter s c n =
     (if s = 1 then (if c + 1 > n then 0 else c + 1)
      else if s = - 1 then (if c - 1 > n then n else c - 1) else c)"

definition flash_choice :: "env \<Rightarrow> u8 \<Rightarrow> u8 \<Rightarrow> dev \<Rightarrow> (u8 \<times> dev) res" where
  "flash_choice E c cur d =
     andThen (rd (rlightIds (currentRoom d)) (uint c)) (\<lambda>i.
       if c = rlightCounter (currentRoom d)
       then Inr (cur, snd (groupFlash E (rid (currentRoom d)) d))
       else Inr (i, snd (flash E i d)))"

definition chooseLightInRoom_body :: "env \<Rightarrow> room_vars \<times> dev \<Rightarrow> (room_vars \<times> dev) res" where
  "chooseLightInRoom_body E = seqr
     [\<lambda>(v, d). Inr (v, tick_encoder E d),
      \<lambda>(v, d). case step_of_encoder d of (s, d) \<Rightarrow>
         if s = 1 \<or> s = - 1 then
           (let c = next_counter s (rv_counter v) (rlightCounter (currentRoom d))
            in andThen (flash_choice E c (rv_lightId v) d)
                 (\<lambda>(i, d). Inr (v\<lparr>rv_counter := c, rv_lightId := i\<rparr>, d)))
         else Inr (v, d),
      \<lambda>(v, d). Inr (v, vTaskDelay 1 (sync_screen d))]"

subsection \<open>\<open>adjustLight\<close>\<close>

record light_vars =
  lv_lightId :: u16
  lv_brightness :: int
  lv_hueCounter :: u8
  lv_tempCounter :: u8

definition adjustLight_start :: "dev \<Rightarrow> light_vars" where
  "adjustLight_start d =
     \<lparr>lv_lightId = of_nat (unat (lid (currentLight d))), lv_brightness = brightness (currentLight d),
      lv_hueCounter = 0, lv_tempCounter = 10\<rparr>"

definition light_id8 :: "light_vars \<Rightarrow> u8" where
  "light_id8 v = of_nat (unat (lv_lightId v))"

definition set_brightness :: "int \<Rightarrow> dev \<Rightarrow> dev" where
  "set_brightness n d = d\<lparr>currentLight := (currentLight d)\<lparr>brightness := n\<rparr>\<rparr>"

definition adjust_brightness :: "env \<Rightarrow> bool \<Rightarrow> light_vars \<times> dev \<Rightarrow> (light_vars \<times> dev) res" where
  "adjust_brightness E up s = (case s of (v, d) \<Rightarrow>
     let n = (if up then min 254 (to_i16 (lv_brightness v + 20))
              else max 1 (to_i16 (lv_brightness v - 20)));
         d = set_brightness (calcBrightness n up) d
     in lift_d (seqr
          [ok (\<lambda>d. snd (hue_brightness E (light_id8 v) (word_of_int (brightness (currentLight d))) d)),
           \<lambda>d. updateBar E 14 110 (word_of_int (brightness (currentLight d))) d,
           ok (\<lambda>d. append_action_value E topDialInteraction setBrigthness ''drawLight''
                     (lname (currentLight d)) (brightness (currentLight d)) d)])
          (v\<lparr>lv_brightness := n\<rparr>, d))"

definition next_hue :: "int \<Rightarrow> u8 \<Rightarrow> u8" where
  "next_hue s c = (if s = 1 then (if c + 1 \<ge> 20 then 0 else c + 1)
                   else (if c - 1 = 0 then 20 else c - 1))"

definition hue_of_counter :: "u8 \<Rightarrow> u16" where
  "hue_of_counter c = word_of_int (map_arduino (uint c) 0 20 0 65535)"

definition next_temp :: "int \<Rightarrow> u8 \<Rightarrow> u8" where
  "next_temp s c = (if s = 1 then (if c + 1 > 20 then 20 else c + 1)
                    else (if c - 1 < 0 then 0 else c - 1))"

definition temp_of_counter :: "u8 \<Rightarrow> u16" where
  "temp_of_counter c = word_of_int (map_arduino (uint c) 0 20 6500 2000)"

definition adjust_colour :: "env \<Rightarrow> bool \<Rightarrow> int \<Rightarrow> light_vars \<times> dev \<Rightarrow> (light_vars \<times> dev) res" where
  "adjust_colour E rgb s st = (case st of (v, d) \<Rightarrow>
     if rgb then
       (let c = next_hue s (lv_hueCounter v);
            d = snd (hue_hue E (light_id8 v) (hue_of_counter c) d)
        in Inr (v\<lparr>lv_hueCounter := c\<rparr>,
             append_action_value E lowerDialInteraction ''setHue'' ''drawLight''
               (lname (currentLight d)) (uint (lhue (currentLight d))) d))
     else
       (let c = next_temp s (lv_tempCounter v);
            d = snd (colorTemp E (light_id8 v) (temp_of_counter c) d)
        in Inr (v\<lparr>lv_tempCounter := c\<rparr>,
             append_action_value E lowerDialInteraction setColorTemp ''drawLight''
               (lname (currentLight d)) (uint (lct (currentLight d))) d)))"

definition adjustLight_body :: "env \<Rightarrow> light_vars \<times> dev \<Rightarrow> (light_vars \<times> dev) res" where
  "adjustLight_body E s0 = (case s0 of (v0, d0) \<Rightarrow>
     let rgb = RGBMode d0
     in seqr
       [\<lambda>(v, d). Inr (v, tick_encoderCont E (tick_encoder E d)),
        \<lambda>(v, d). case read_pin E encoderBtn d of (released, d) \<Rightarrow>
           whenr (\<not> released) (lift_d (seqr [Switch E,
             ok (\<lambda>d. append_action_what E topDialInteraction switchLight ''drawLight''
                       (lname (currentLight d)) d)])) (v, d),
        \<lambda>(v, d). case step_of_encoderCont d of (dir, d) \<Rightarrow> case step_of_encoder d of (s, d) \<Rightarrow>
           seqr [\<lambda>st. whenr (dir = 1) (adjust_brightness E True) st,
                 \<lambda>st. whenr (dir = - 1) (adjust_brightness E False) st,
                 \<lambda>st. whenr (s = 1 \<or> s = - 1) (adjust_colour E rgb s) st] (v, d),
        \<lambda>(v, d). Inr (v, vTaskDelay 1 (sync_screen d))] (v0, d0))"

subsection \<open>\<open>chooseAndAlterLightInRoom\<close>\<close>

record home_vars =
  hv_counter :: u8
  hv_lightId :: u8
  hv_roomState :: bool
  hv_elapsed :: u32
  hv_dialTurned :: bool

definition chooseAndAlter_start :: "dev \<Rightarrow> home_vars res" where
  "chooseAndAlter_start d =
     (let c = rlightCounter (currentRoom d)
      in andThen (rd (rlightIds (currentRoom d)) (uint c))
           (\<lambda>i. Inr \<lparr>hv_counter = c, hv_lightId = i, hv_roomState = ron (currentRoom d) \<noteq> 0,
                     hv_elapsed = 0, hv_dialTurned = False\<rparr>))"

definition home_or :: "string \<Rightarrow> dev \<Rightarrow> string" where
  "home_or s d = (if currentScreenType d = ''HOME'' then ''drawHome'' else s)"

definition whole_room :: "home_vars \<Rightarrow> dev \<Rightarrow> bool" where
  "whole_room v d \<longleftrightarrow> hv_counter v = rlightCounter (currentRoom d)"

definition log_room :: "env \<Rightarrow> string \<Rightarrow> dev \<Rightarrow> dev" where
  "log_room E action d =
     append_action_what E topDialInteraction action (home_or ''drawRooms'' d) (rname (currentRoom d)) d"

definition press_button :: "env \<Rightarrow> home_vars \<times> dev \<Rightarrow> (home_vars \<times> dev) res" where
  "press_button E s = (case s of (v, d) \<Rightarrow>
     if hv_roomState v \<and> whole_room v d then
       Inr (v\<lparr>hv_roomState := False\<rparr>,
            log_room E allLightOff (vTaskDelay 10 (snd (groupOff E (rid (currentRoom d)) d))))
     else if whole_room v d then
       Inr (v\<lparr>hv_roomState := True\<rparr>,
            log_room E allLightOn (vTaskDelay 10 (snd (groupOn E (rid (currentRoom d)) d))))
     else if lon (currentLight d) then
       (let d = snd (lightOff E (hv_lightId v) d)
        in Inr (v, vTaskDelay 10 (d\<lparr>currentLight := (currentLight d)\<lparr>lon := False\<rparr>\<rparr>)))
     else
       (let d = snd (lightOn E (hv_lightId v) d)
        in Inr (v, vTaskDelay 10 (d\<lparr>currentLight := (currentLight d)\<lparr>lon := True\<rparr>\<rparr>))))"

definition turn_brightness :: "env \<Rightarrow> bool \<Rightarrow> home_vars \<Rightarrow> dev \<Rightarrow> dev" where
  "turn_brightness E up v d =
     (if \<not> whole_room v d then
        (let d = set_brightness (calcBrightness (brightness (currentLight d)) up) d;
             d = snd (hue_brightness E (hv_lightId v) (word_of_int (brightness (currentLight d))) d)
         in append_action_value E topDialInteraction setBrigthness
              (home_or (if up then ''drawRooms'' else ''drawRoom'') d)
              (lname (currentLight d)) (brightness (currentLight d)) d)
      else
        (let d = d\<lparr>currentRoom := (currentRoom d)\<lparr>bri := calcBrightness (bri (currentRoom d)) up\<rparr>\<rparr>;
             d = snd (groupBrightness E (rid (currentRoom d)) (word_of_int (bri (currentRoom d))) d)
         in append_action_value E topDialInteraction setBrigthness (home_or ''drawRooms'' d)
              (rname (currentRoom d)) (bri (currentRoom d)) d))"

definition choose_bulb :: "env \<Rightarrow> int \<Rightarrow> home_vars \<times> dev \<Rightarrow> (home_vars \<times> dev) res" where
  "choose_bulb E s st = (case st of (v, d) \<Rightarrow>
     let c = next_counter s (hv_counter v) (rlightCounter (currentRoom d))
     in andThen (flash_choice E c (hv_lightId v) d) (\<lambda>(i, d).
          andThen (if c = rlightCounter (currentRoom d) then Inr d else setCurrentLight i d)
            (\<lambda>d. Inr (v\<lparr>hv_counter := c, hv_lightId := i\<rparr>, d))))"

definition chooseAndAlter_timer :: "u32 \<Rightarrow> home_vars \<Rightarrow> home_vars" where
  "chooseAndAlter_timer now v =
     (let v = (if now - hv_elapsed v > 10000 \<and> hv_dialTurned v
               then v\<lparr>hv_elapsed := now, hv_dialTurned := False\<rparr> else v)
      in if \<not> hv_dialTurned v then v\<lparr>hv_elapsed := now\<rparr> else v)"

definition chooseAndAlter_body :: "env \<Rightarrow> home_vars \<times> dev \<Rightarrow> (home_vars \<times> dev) res" where
  "chooseAndAlter_body E s0 = (case s0 of (v0, d0) \<Rightarrow>
     case millis E d0 of (now, d) \<Rightarrow>
     case step_of_encoder (tick_encoderCont E (tick_encoder E d)) of (dir, d) \<Rightarrow>
     case step_of_encoderCont d of (dirCont, d) \<Rightarrow>
     case read_pin E encoderBtn d of (released, d) \<Rightarrow>
     let v = chooseAndAlter_timer now v0;
         v = (if uiLevel d = 1 then v\<lparr>hv_dialTurned := False\<rparr> else v)
     in seqr
       [\<lambda>(v, d). whenr (hv_dialTurned v \<and> \<not> released \<and> \<not> whole_room v d) (lift_d (seqr
          [ok (\<lambda>d. d\<lparr>calledFromEncoder := True\<rparr>),
           ok (\<lambda>d. append_action_what E topDialInteraction navigate ''drawLight''
                     (lname (currentLight d)) d),
           drawLight E (uint (hv_lightId v))])) (v, d),
        \<lambda>(v, d). whenr (\<not> released) (press_button E) (v, d),
        \<lambda>(v, d). Inr (v, if dirCont = 1 then turn_brightness E True v d
                         else if dirCont = - 1 then turn_brightness E False v d else d),
        \<lambda>(v, d). whenr (dir = 1 \<or> dir = - 1)
           (\<lambda>(v, d). choose_bulb E dir (v\<lparr>hv_dialTurned := True, hv_elapsed := now\<rparr>, d)) (v, d),
        \<lambda>(v, d). Inr (v, vTaskDelay 3 (sync_screen d))] (v, d))"

subsection \<open>The encoder task\<close>

datatype encoder_pc =
    EncoderTop | InRoom room_vars | InLight light_vars | InHome home_vars

definition encoder_step :: "env \<Rightarrow> encoder_pc \<times> dev \<Rightarrow> (encoder_pc \<times> dev) res" where
  "encoder_step E s = (case s of (pc, d) \<Rightarrow> case pc of
       EncoderTop \<Rightarrow>
         (let d = sync_screen d
          in if currentScreen d = ''HOME'' \<or> currentScreen d = ''ROOMS''
             then andThen (chooseAndAlter_start d) (\<lambda>v. Inr (InHome v, d))
             else if currentScreen d = ''ROOM''
             then andThen (chooseLightInRoom_start d) (\<lambda>v. Inr (InRoom v, d))
             else if currentScreen d = ''LIGHT'' then Inr (InLight (adjustLight_start d), d)
             else Inr (EncoderTop, d))
     | InRoom v \<Rightarrow>
         (if currentScreen d = ''ROOM''
          then andThen (chooseLightInRoom_body E (v, d)) (\<lambda>(v, d). Inr (InRoom v, d))
          else Inr (EncoderTop, d))
     | InLight v \<Rightarrow>
         (if currentScreen d = ''LIGHT''
          then andThen (adjustLight_body E (v, d)) (\<lambda>(v, d). Inr (InLight v, d))
          else Inr (EncoderTop, d))
     | InHome v \<Rightarrow>
         (if currentScreenType d = ''HOME'' \<or> currentScreenType d = ''ROOMS''
          then andThen (chooseAndAlter_body E (v, d)) (\<lambda>(v, d). Inr (InHome v, d))
          else Inr (EncoderTop, d)))"

end
