(* ===== verification/Tasks.thy ===== *)
theory Tasks
  imports Encoder
begin

section \<open>The tasks and their interleaving\<close>

text \<open>
  The behaviour task (\<open>startBehavior\<close>) and the task that recomputes a behaviour's table
  (\<open>updateBehaviors\<close>), as state machines whose steps end where the source calls
  \<open>vTaskDelay\<close> or \<open>delay\<close>; and the whole firmware after start-up as a step relation that
  runs the touch handler, the encoder task, the behaviour task, the log task, the battery
  task and the update tasks in any order. The body of \<open>startBehavior\<close> reads
  \<open>behaviors[lastBehaviorId]\<close> anew at every use, and so does its model.
\<close>

subsection \<open>\<open>startBehavior\<close>\<close>

datatype behavior_pc =
    BIdle | BTrain nat | BTrainWait nat u32 | BAlarmWait u32 | BAlarm nat | BParty | BDone

definition last_b :: "dev \<Rightarrow> behavior res" where
  "last_b d = rd (behaviors d) (uint (lastBehaviorId d))"

definition colour_lights :: "env \<Rightarrow> (nat \<Rightarrow> dev \<Rightarrow> (RGBCommand \<times> dev) res) \<Rightarrow> dev \<Rightarrow> dev res" where
  "colour_lights E colour d0 = andThen (last_b d0) (\<lambda>h0.
     forr [0..<unat (blightCounter h0)]
       (\<lambda>l d. andThen (last_b d) (\<lambda>h. andThen (rd (blightIds h) (int l)) (\<lambda>i.
          andThen (colour l d) (\<lambda>(c, d).
            andThen (setColorRGB (of_nat l) i (red c) (green c) (blue c) d) (\<lambda>(_, d). Inr d))))) d0)"

definition table_colour :: "nat \<Rightarrow> nat \<Rightarrow> dev \<Rightarrow> (RGBCommand \<times> dev) res" where
  "table_colour i l d = andThen (last_b d) (\<lambda>h. andThen (rd (entries h) (int i)) (\<lambda>c. Inr (c, d)))"

definition random_byte :: "env \<Rightarrow> dev \<Rightarrow> u8 \<times> dev" where
  "random_byte E d = (let d = emit Random d in (env_rand E (out d), d))"

definition random_colour :: "env \<Rightarrow> nat \<Rightarrow> dev \<Rightarrow> (RGBCommand \<times> dev) res" where
  "random_colour E l d =
     (case random_byte E d of (x, d) \<Rightarrow> case random_byte E d of (y, d) \<Rightarrow>
      case random_byte E d of (z, d) \<Rightarrow> Inr (\<lparr>red = x, green = y, blue = z\<rparr>, d))"

definition send_update :: "env \<Rightarrow> dev \<Rightarrow> dev res" where
  "send_update E d = andThen (stream_update E d) (\<lambda>(_, d). Inr d)"

definition still_waiting :: "env \<Rightarrow> u32 \<Rightarrow> dev \<Rightarrow> (bool \<times> dev) res" where
  "still_waiting E start d = (case millis E d of (now, d) \<Rightarrow>
     andThen (last_b d) (\<lambda>h. Inr (now - start < word_of_int (bdelay h * 10), d)))"

definition stop_behavior :: "env \<Rightarrow> dev \<Rightarrow> dev res" where
  "stop_behavior E = seqr
     [\<lambda>d. toggleBehavior E (uint (lastBehaviorId d)) 5 d, ok (\<lambda>d. d\<lparr>startBehaviorNow := False\<rparr>)]"

definition start_stream :: "env \<Rightarrow> dev \<Rightarrow> (behavior_pc \<times> dev) res" where
  "start_stream E d = andThen (last_b d) (\<lambda>h.
     andThen (connect E ENTERTAINMENT_ID (initEntertainmentMode E ENTERTAINMENT_ID (blightCounter h) d))
       (\<lambda>(connected, d).
          if connected then andThen (last_b d) (\<lambda>h.
            if behaviorId h = repeatedBehavior then Inr (BTrain 0, d)
            else if behaviorId h = timeBehavior
            then (case millis E d of (now, d) \<Rightarrow> Inr (BAlarmWait now, d))
            else if behaviorId h = transitionBehavior then Inr (BParty, d\<lparr>fest := True\<rparr>)
            else Inr (BDone, d))
          else andThen (stop_behavior E d) (\<lambda>d. Inr (BIdle, d))))"

definition behavior_step :: "env \<Rightarrow> behavior_pc \<times> dev \<Rightarrow> (behavior_pc \<times> dev) res" where
  "behavior_step E s = (case s of (pc, d) \<Rightarrow> case pc of
       BIdle \<Rightarrow> if startBehaviorNow d then start_stream E d else Inr (BIdle, vTaskDelay 100 d)
     | BTrain i \<Rightarrow> andThen (last_b d) (\<lambda>h.
         if i < unat (entriesCount h) then
           (case millis E d of (now, d) \<Rightarrow>
              andThen (seqr [colour_lights E (table_colour i), send_update E] d)
                (\<lambda>d. Inr (BTrainWait i now, d)))
         else Inr (BDone, d))
     | BTrainWait i start \<Rightarrow> andThen (still_waiting E start d) (\<lambda>(w, d).
         if w then andThen (send_update E d) (\<lambda>d. Inr (BTrainWait i start, vTaskDelay 50 d))
         else Inr (BTrain (Suc i), d))
     | BAlarmWait start \<Rightarrow> andThen (still_waiting E start d) (\<lambda>(w, d).
         if w then andThen (send_update E d) (\<lambda>d. Inr (BAlarmWait start, vTaskDelay 50 d))
         else Inr (BAlarm 0, d))
     | BAlarm i \<Rightarrow> andThen (last_b d) (\<lambda>h.
         if i < unat (entriesCount h) then
           andThen (seqr [colour_lights E (table_colour i), send_update E] d)
             (\<lambda>d. Inr (BAlarm (Suc i), vTaskDelay 100 d))
         else Inr (BDone, d))
     | BParty \<Rightarrow>
         (if fest d then
            andThen (seqr [colour_lights E (random_colour E), send_update E] d)
              (\<lambda>d. andThen (last_b d) (\<lambda>h. Inr (BParty, vTaskDelay (bdelay h) d)))
          else Inr (BDone, d))
     | BDone \<Rightarrow> andThen (seqr [stop_behavior E, stop_behavior E] d) (\<lambda>d. Inr (BIdle, d)))"

subsection \<open>\<open>updateBehaviors\<close>\<close>

definition set_count :: "int \<Rightarrow> (dev \<Rightarrow> int) \<Rightarrow> dev \<Rightarrow> dev res" where
  "set_count i f d = andThen (rd (behaviors d) i)
     (\<lambda>h. put_behavior i (h\<lparr>entriesCount := word_of_int (f d)\<rparr>) d)"

text \<open>One round; the result says whether the task has ended.\<close>

definition updateBehaviors_round :: "dev \<Rightarrow> (bool \<times> dev) res" where
  "updateBehaviors_round d =
     (let k = behaviorId (lastBehavior d)
      in if activated (lastBehavior d) then Inr (False, delay_ms 5000 d)
         else andThen ((if k = timeBehavior then
                          seqr [set_count 1 alarmEntries, updateAlarmLightsEntries]
                        else if k = repeatedBehavior then
                          seqr [set_count 0 blinkingLightsEntries, updateBlinkingLightsEntries]
                        else if k = transitionBehavior then set_count 2 blinkingLightsEntries
                        else Inr) d) (\<lambda>d. Inr (True, d)))"

subsection \<open>The firmware\<close>

record firmware =
  dev_of :: dev
  enc_pc :: encoder_pc
  beh_pc :: behavior_pc
  updaters :: nat

text \<open>The tasks of kind \<open>updateBehaviors\<close> that a step has created.\<close>

definition spawned :: "event list \<Rightarrow> nat" where
  "spawned es = length (filter (\<lambda>e. e = TaskCreate ''behavior_update_task'') es)"

datatype action =
    ATouch int int TEvent | AEncoder | ABehavior | AFirebase | ABattery | AUpdater

definition act :: "env \<Rightarrow> action \<Rightarrow> firmware \<Rightarrow> firmware res" where
  "act E a s = (case a of
       ATouch px py e \<Rightarrow> andThen (touchEvent E px py e (dev_of s)) (\<lambda>d.
         Inr (s\<lparr>dev_of := d, updaters := updaters s + (spawned (out d) - spawned (out (dev_of s)))\<rparr>))
     | AEncoder \<Rightarrow> andThen (encoder_step E (enc_pc s, dev_of s))
         (\<lambda>(pc, d). Inr (s\<lparr>enc_pc := pc, dev_of := d\<rparr>))
     | ABehavior \<Rightarrow> andThen (behavior_step E (beh_pc s, dev_of s))
         (\<lambda>(pc, d). Inr (s\<lparr>beh_pc := pc, dev_of := d\<rparr>))
     | AFirebase \<Rightarrow> andThen (firebaseTask_round E (dev_of s)) (\<lambda>d. Inr (s\<lparr>dev_of := d\<rparr>))
     | ABattery \<Rightarrow> andThen (drawBattery_round E (dev_of s)) (\<lambda>d. Inr (s\<lparr>dev_of := d\<rparr>))
     | AUpdater \<Rightarrow>
         (if updaters s = 0 then Inr s
          else andThen (updateBehaviors_round (dev_of s)) (\<lambda>(finished, d).
            Inr (s\<lparr>dev_of := d, updaters := (if finished then updaters s - 1 else updaters s)\<rparr>))))"

definition started :: "dev \<Rightarrow> firmware" where
  "started d = \<lparr>dev_of = d, enc_pc = EncoderTop, beh_pc = BIdle, updaters = 0\<rparr>"

inductive reachable :: "env \<Rightarrow> firmware \<Rightarrow> bool" for E where
  reach_start: "setup_device E boot_state = Inr d \<Longrightarrow> reachable E (started d)"
| reach_step: "reachable E s \<Longrightarrow> act E a s = Inr s' \<Longrightarrow> reachable E s'"

inductive_cases reachableE: "reachable E s"

end
