(* ===== verification/Invariant.thy ===== *)
theory Invariant
  imports Tasks
begin

section \<open>The state invariant of the firmware\<close>

text \<open>
  \<open>wf\<close>: the arrays have their sizes, the display is ready (so no drawing faults), the counters
  of buttons and of the page path are inside their arrays, the settings of the behaviours are
  in range, and the stream buffer has the size for its number of lamps once the TLS context
  exists. Every operation keeps it, whatever the outside world answers. \<open>env_ok\<close> says that
  uninitialised structures have arrays of the right size.
\<close>

subsection \<open>Rules for results\<close>

definition pres :: "('a \<Rightarrow> bool) \<Rightarrow> 'a res \<Rightarrow> bool" where
  "pres P r \<longleftrightarrow> (\<forall>a. r = Inr a \<longrightarrow> P a)"

named_theorems pres_intros \<open>what an operation keeps\<close>

lemma presD: "pres P r \<Longrightarrow> r = Inr a \<Longrightarrow> P a"
  by (simp add: pres_def)

lemma pres_Inr [pres_intros]: "P a \<Longrightarrow> pres P (Inr a)"
  by (simp add: pres_def)

lemma pres_Inl [pres_intros]: "pres P (Inl e)"
  by (simp add: pres_def)

lemma pres_andThen: "pres Q r \<Longrightarrow> (\<And>a. Q a \<Longrightarrow> pres P (f a)) \<Longrightarrow> pres P (andThen r f)"
  by (auto simp: pres_def andThen_eq_Inr)

lemma pres_ok [pres_intros]: "P (f s) \<Longrightarrow> pres P (ok f s)"
  by (simp add: pres_def)

lemma pres_Nil [pres_intros]: "P s \<Longrightarrow> pres P (seqr [] s)"
  by (simp add: pres_def)

lemma pres_Cons [pres_intros]:
  "pres P (c s) \<Longrightarrow> (\<And>t. P t \<Longrightarrow> pres P (seqr cs t)) \<Longrightarrow> pres P (seqr (c # cs) s)"
  by (auto simp: pres_def andThen_eq_Inr)

lemma pres_whenr [pres_intros]: "P s \<Longrightarrow> (b \<Longrightarrow> pres P (c s)) \<Longrightarrow> pres P (whenr b c s)"
  by (cases b) (simp_all add: pres_def)

lemma pres_if [pres_intros]:
  "(b \<Longrightarrow> pres P r) \<Longrightarrow> (\<not> b \<Longrightarrow> pres P r') \<Longrightarrow> pres P (if b then r else r')"
  by simp

lemma pres_if_fun [pres_intros]:
  "(b \<Longrightarrow> pres P (f s)) \<Longrightarrow> (\<not> b \<Longrightarrow> pres P (g s)) \<Longrightarrow> pres P ((if b then f else g) s)"
  by simp

lemma pres_forr [pres_intros]:
  "P s \<Longrightarrow> (\<And>i t. i \<in> set is \<Longrightarrow> P t \<Longrightarrow> pres P (c i t)) \<Longrightarrow> pres P (forr is c s)"
proof (induction "is" arbitrary: s)
  case (Cons i "is")
  have "pres P (c i s)" using Cons.prems by simp
  then have "pres P (andThen (c i s) (forr is c))"
    by (rule pres_andThen) (use Cons in auto)
  then show ?case by simp
qed (simp add: pres_def)

lemma pres_rd: "pres (\<lambda>x. x \<in> set xs) (rd xs i)"
  by (auto simp: pres_def rd_eq_Inr)

lemma pres_wr: "pres (\<lambda>ys. length ys = length xs \<and> set ys \<subseteq> insert v (set xs)) (wr xs i v)"
  using set_update_subset_insert by (fastforce simp: pres_def wr_eq_Inr)

lemma pres_True: "pres (\<lambda>_. True) r"
  by (simp add: pres_def)

lemma pres_mono: "pres P r \<Longrightarrow> (\<And>a. P a \<Longrightarrow> Q a) \<Longrightarrow> pres Q r"
  by (simp add: pres_def)

subsection \<open>The invariant\<close>

definition wf_room :: "room \<Rightarrow> bool" where
  "wf_room m \<longleftrightarrow> length (rlightIds m) = 20"

definition wf_behavior :: "behavior \<Rightarrow> bool" where
  "wf_behavior h \<longleftrightarrow> length (blightIds h) = 20 \<and> length (entries h) = 500"

definition wf_ui :: "dev \<Rightarrow> bool" where
  "wf_ui d \<longleftrightarrow> panel_ready (display d) \<and> length (buttons d) = 30 \<and>
     0 \<le> buttonCount d \<and> buttonCount d \<le> 30 \<and> length (pagePath d) = 10 \<and>
     0 \<le> pagePageCounter d \<and> pagePageCounter d \<le> 10"

definition wf_data :: "dev \<Rightarrow> bool" where
  "wf_data d \<longleftrightarrow> length (rooms d) = 50 \<and> (\<forall>m \<in> set (rooms d). wf_room m) \<and>
     wf_room (currentRoom d) \<and> wf_room (entertainmentRoom d) \<and> length (lights d) = 50 \<and>
     length (lightIds d) = 50 \<and> length (entertainmentLights d) = 20 \<and>
     length (groupIds d) = 64 \<and> numGroups d = 0"

definition wf_settings :: "dev \<Rightarrow> bool" where
  "wf_settings d \<longleftrightarrow> length (behaviors d) = 20 \<and> (\<forall>h \<in> set (behaviors d). wf_behavior h) \<and>
     1 \<le> festDelay d \<and> 0 \<le> alarmDelay d \<and> alarmDelay d mod 10000 = 0 \<and>
     1000 \<le> blinkingLightsDelay d \<and> blinkingLightsDelay d mod 1000 = 0 \<and>
     10 \<le> alarmEntries d \<and> alarmEntries d mod 10 = 0 \<and>
     10 \<le> blinkingLightsEntries d \<and> blinkingLightsEntries d mod 10 = 0"

definition wf_stream :: "dev \<Rightarrow> bool" where
  "wf_stream d \<longleftrightarrow> (tls d = NoContext \<longrightarrow> entertainment_num_lights d = 0) \<and>
     (tls d \<noteq> NoContext \<longrightarrow> length (entertainment_msg d) = message_size (entertainment_num_lights d))"

definition wf :: "dev \<Rightarrow> bool" where
  "wf d \<longleftrightarrow> wf_ui d \<and> wf_data d \<and> wf_settings d \<and> wf_stream d"

lemmas wf_defs = wf_def wf_ui_def wf_data_def wf_settings_def wf_stream_def

definition env_ok :: "env \<Rightarrow> bool" where
  "env_ok E \<longleftrightarrow> wf_room (junk_room E) \<and> wf_behavior (junk_behavior E)"

lemma boot_state_data: "wf_data boot_state \<and> wf_settings boot_state \<and> wf_stream boot_state"
  by (simp add: wf_defs boot_state_def wf_room_def wf_behavior_def no_room_def no_behavior_def)

lemma boot_state_wf: "wf boot_state"
  using boot_state_data panel_new_ready by (simp add: wf_def wf_ui_def boot_state_def)

subsection \<open>Updates that do not matter, and updates that do\<close>

lemma wf_irrelevant [simp]:
  "wf (d\<lparr>out := o1\<rparr>) = wf d" "wf (d\<lparr>currentPageOnScreen := s1\<rparr>) = wf d"
  "wf (d\<lparr>prevHeaderText := s1\<rparr>) = wf d" "wf (d\<lparr>prevPage := h1\<rparr>) = wf d"
  "wf (d\<lparr>currentRoomID := i1\<rparr>) = wf d" "wf (d\<lparr>currentScreenType := s1\<rparr>) = wf d"
  "wf (d\<lparr>RGBMode := b1\<rparr>) = wf d" "wf (d\<lparr>lastRoom := i1\<rparr>) = wf d"
  "wf (d\<lparr>roomsCount := u1\<rparr>) = wf d" "wf (d\<lparr>roomPagination := b1\<rparr>) = wf d"
  "wf (d\<lparr>lightCount := u1\<rparr>) = wf d" "wf (d\<lparr>allLightCount := u1\<rparr>) = wf d"
  "wf (d\<lparr>allLightsPagination := b1\<rparr>) = wf d" "wf (d\<lparr>currentLight := l1\<rparr>) = wf d"
  "wf (d\<lparr>uiLevel := i1\<rparr>) = wf d" "wf (d\<lparr>lastBehavior := h2\<rparr>) = wf d"
  "wf (d\<lparr>lastBehaviorId := u1\<rparr>) = wf d" "wf (d\<lparr>behaviorCount := u1\<rparr>) = wf d"
  "wf (d\<lparr>festEntries := i1\<rparr>) = wf d" "wf (d\<lparr>startBehaviorNow := b1\<rparr>) = wf d"
  "wf (d\<lparr>fest := b1\<rparr>) = wf d" "wf (d\<lparr>fbdo := b1\<rparr>) = wf d" "wf (d\<lparr>encoder := e1\<rparr>) = wf d"
  "wf (d\<lparr>encoderCont := e1\<rparr>) = wf d" "wf (d\<lparr>currentScreen := s1\<rparr>) = wf d"
  "wf (d\<lparr>calledFromEncoder := b1\<rparr>) = wf d" "wf (d\<lparr>batteryVoltage := q1\<rparr>) = wf d"
  "wf (d\<lparr>sendMessage := b1\<rparr>) = wf d" "wf (d\<lparr>sendMessageWithWhat := b1\<rparr>) = wf d"
  "wf (d\<lparr>sendMessageWithWhatAndValue := b1\<rparr>) = wf d" "wf (d\<lparr>tempInteraction := s1\<rparr>) = wf d"
  "wf (d\<lparr>tempAction := s1\<rparr>) = wf d" "wf (d\<lparr>tempContext := s1\<rparr>) = wf d"
  "wf (d\<lparr>tempWhat := s1\<rparr>) = wf d" "wf (d\<lparr>isGoingBack := b1\<rparr>) = wf d"
  "wf (d\<lparr>topIndex := u1\<rparr>) = wf d" "wf (d\<lparr>pressedButton := v1\<rparr>) = wf d"
  "wf (d\<lparr>userId := s1\<rparr>) = wf d" "wf (d\<lparr>clientKey := s1\<rparr>) = wf d"
  "wf (d\<lparr>hueBridgeIP := s1\<rparr>) = wf d" "wf (d\<lparr>hueBridgeBareIP := s1\<rparr>) = wf d"
  "wf (d\<lparr>entertainmentGroup := u1\<rparr>) = wf d"
  by (simp_all add: wf_defs)

lemma wf_logged [simp]:
  "wf (append_action E i a c d) = wf d" "wf (append_action_what E i a c w d) = wf d"
  "wf (append_action_value E i a c w v d) = wf d"
  by (simp_all add: wf_defs)

lemma wf_emit [simp]: "wf (emit e d) = wf d" "wf (delay_ms n d) = wf d" "wf (vTaskDelay n d) = wf d" "wf (fb_begin d) = wf d"
  by (simp_all add: emit_def delay_ms_def vTaskDelay_def fb_begin_def)

lemma wf_display: "wf d \<Longrightarrow> panel_ready p \<Longrightarrow> wf (d\<lparr>display := p\<rparr>)"
  by (simp add: wf_defs)

lemma wf_buttons: "wf d \<Longrightarrow> length bs = 30 \<Longrightarrow> wf (d\<lparr>buttons := bs\<rparr>)"
  by (simp add: wf_defs)

lemma wf_buttonCount: "wf d \<Longrightarrow> 0 \<le> n \<Longrightarrow> n \<le> 30 \<Longrightarrow> wf (d\<lparr>buttonCount := n\<rparr>)"
  by (simp add: wf_defs)

lemma wf_sizes:
  "wf d \<Longrightarrow> panel_ready (display d)" "wf d \<Longrightarrow> length (buttons d) = 30"
  "wf d \<Longrightarrow> length (behaviors d) = 20" "wf d \<Longrightarrow> wf_room (currentRoom d)"
  "wf d \<Longrightarrow> wf_room (entertainmentRoom d)" "wf d \<Longrightarrow> length (pagePath d) = 10"
  "wf d \<Longrightarrow> h \<in> set (behaviors d) \<Longrightarrow> wf_behavior h" "wf d \<Longrightarrow> m \<in> set (rooms d) \<Longrightarrow> wf_room m"
  by (simp_all add: wf_defs)

text \<open>Requests to the bridge change the trace only.\<close>

lemma put_request_out:
  "snd (put_request E url body d) = d\<lparr>out := out d @ [Http PUT url body]\<rparr>"
  by (simp add: put_request_def http_request_def emit_def Let_def split: prod.split)

lemma get_request_out:
  "snd (get_request E url d) = d\<lparr>out := out d @ [Http GET url '''']\<rparr>"
  by (simp add: get_request_def http_request_def emit_def Let_def split: prod.split)

lemma wf_put_request [simp]: "wf (snd (put_request E url body d)) = wf d"
  by (simp add: put_request_out)

lemma wf_get_request [simp]: "wf (snd (get_request E url d)) = wf d"
  by (simp add: get_request_out)

lemma wf_requests [simp]:
  "wf (snd (lightOn E i d)) = wf d" "wf (snd (lightOff E i d)) = wf d"
  "wf (snd (groupOn E i d)) = wf d" "wf (snd (groupOff E i d)) = wf d"
  "wf (snd (hue_brightness E i v d)) = wf d" "wf (snd (hue_hue E i w d)) = wf d"
  "wf (snd (colorTemp E i w d)) = wf d" "wf (snd (flash E i d)) = wf d"
  "wf (snd (groupBrightness E i v d)) = wf d" "wf (snd (groupFlash E i d)) = wf d"
  "wf (snd (startStreaming E i d)) = wf d" "wf (snd (discoverBridges E d)) = wf d"
  by (simp_all add: lightOn_def lightOff_def groupOn_def groupOff_def hue_brightness_def hue_hue_def
      colorTemp_def flash_def groupBrightness_def groupFlash_def startStreaming_def
      discoverBridges_def Let_def split_beta split: option.split)

lemma wf_http_request: "http_request E m url body d = (st, ans, d') \<Longrightarrow> wf d' = wf d"
  by (auto simp: http_request_def Let_def split: prod.splits)

lemma wf_registerApp [simp]: "wf (registerApp E u p d) = wf d"
  by (auto simp: registerApp_def Let_def dest: wf_http_request split: prod.split)

end
