(* ===== verification/Preservation.thy ===== *)
theory Preservation
  imports Invariant
begin

section \<open>Every operation keeps the invariant\<close>

text \<open>
  One rule per operation, collected in \<open>pres_intros\<close>, from the drawing functions up to the
  steps of the tasks.
\<close>

subsection \<open>Sequencing\<close>

lemma pres_then_dev [pres_intros]:
  "pres wf r \<Longrightarrow> (\<And>t. wf t \<Longrightarrow> pres P (f t)) \<Longrightarrow> pres P (andThen r f)"
  by (rule pres_andThen)

lemma pres_then_rd [pres_intros]:
  "(\<And>x. x \<in> set xs \<Longrightarrow> pres P (f x)) \<Longrightarrow> pres P (andThen (rd xs i) f)"
  by (rule pres_andThen [OF pres_rd])

lemma pres_then_wr [pres_intros]:
  "(\<And>ys. length ys = length xs \<Longrightarrow> set ys \<subseteq> insert v (set xs) \<Longrightarrow> pres P (f ys)) \<Longrightarrow>
   pres P (andThen (wr xs i v) f)"
  by (rule pres_andThen [OF pres_wr]) simp

definition wf2 :: "'a \<times> dev \<Rightarrow> bool" where
  "wf2 s \<longleftrightarrow> wf (snd s)"

lemma wf2_pair [simp]: "wf2 (x, d) = wf d"
  by (simp add: wf2_def)

lemma pres_then_pair [pres_intros]:
  "pres wf2 r \<Longrightarrow> (\<And>x d. wf d \<Longrightarrow> pres P (f (x, d))) \<Longrightarrow> pres P (andThen r f)"
  by (rule pres_andThen [of wf2]) (auto simp: wf2_def)

lemma pres_case_prod [pres_intros]: "(\<And>x y. s = (x, y) \<Longrightarrow> pres P (f x y)) \<Longrightarrow> pres P (case s of (x, y) \<Rightarrow> f x y)"
  by (cases s) simp

lemma pres_Let [pres_intros]: "pres P (f x) \<Longrightarrow> pres P (let y = x in f y)"
  by simp

subsection \<open>Drawing and buttons\<close>

lemma pres_on_display [pres_intros]: "wf d \<Longrightarrow> safe f \<Longrightarrow> pres wf (on_display f d)"
  using wf_sizes(1) by (simp add: on_display_safe pres_def wf_display)

lemma pres_drawText [pres_intros]: "wf d \<Longrightarrow> pres wf (drawText x y sz s c ce d)"
  unfolding drawText_def by (intro pres_intros) simp_all

lemma pres_ui_fillRect [pres_intros]: "wf d \<Longrightarrow> pres wf (ui_fillRect x y w h c d)"
  unfolding ui_fillRect_def by (intro pres_intros) simp_all

lemma pres_ui_drawLine [pres_intros]: "wf d \<Longrightarrow> pres wf (ui_drawLine x0 y0 x y c d)"
  unfolding ui_drawLine_def by (intro pres_intros) simp_all

lemma pres_drawRectAndUpdate [pres_intros]: "wf d \<Longrightarrow> pres wf (drawRectAndUpdate x y w h c d)"
  unfolding drawRectAndUpdate_def by (intro pres_intros) simp_all

lemma pres_refreshBody [pres_intros]: "wf d \<Longrightarrow> pres wf (refreshBody d)"
  unfolding refreshBody_def by (intro pres_intros) simp_all

lemma pres_add_button [pres_intros]: "wf d \<Longrightarrow> pres wf (add_button E x y w h ev i s isOn br sel d)"
  by (cases ev) (auto simp: add_button_def push_button_def pres_def andThen_eq_Inr wr_eq_Inr wf_defs)

lemma pres_drawSquare [pres_intros]: "wf d \<Longrightarrow> pres wf (drawSquare E x y w h rad c s bo bc ev i d)"
  unfolding drawSquare_def by (intro pres_intros) simp_all

lemma pres_drawSquareWithBitmapInside [pres_intros]:
  "wf d \<Longrightarrow> pres wf (drawSquareWithBitmapInside E x y w h rad c bo bc bm ev i d)"
  unfolding drawSquareWithBitmapInside_def by (intro pres_intros) simp_all

lemma pres_drawBitmap [pres_intros]:
  assumes "wf d" "fits (if isOn then onB else offB) w h"
  shows "pres wf (drawBitmap E x0 y0 xp yp onB offB w h s ev i ce isOn br bo d)"
  using assms wf_sizes(1) [OF assms(1)]
  by (simp add: drawBitmap_effect pres_add_button wf_display)

lemma pres_ui_drawCircle [pres_intros]:
  "wf d \<Longrightarrow> pres wf (ui_drawCircle E x y rad c sel wt s ev i isOn d)"
  unfolding ui_drawCircle_def by (intro pres_intros) simp_all

lemma pres_drawBar [pres_intros]: "wf d \<Longrightarrow> pres wf (drawBar E x y v d)"
  unfolding drawBar_def by (intro pres_intros)

lemma pres_updateBar [pres_intros]: "wf d \<Longrightarrow> pres wf (updateBar E x y v d)"
  unfolding updateBar_def by (intro pres_intros) simp_all

lemma icon_lengths [simp]:
  "length bulbOutlinedBitmap = 288" "length bulbBitmap = 288" "length behaviorBitmap = 200"
  using bitmap_data_length [of BulbOutlinedBitmap] bitmap_data_length [of BulbBitmap]
    bitmap_data_length [of BehaviorBitmap]
  by (simp_all add: bitmap_dim_defs)

lemma fits_pairs [simp]:
  "fits (if b then Some BulbOutlinedBitmap else Some BulbBitmap) (bitmap_width BulbBitmap) (bitmap_height BulbBitmap)"
  "fits (Some BulbOutlinedBitmap) (bitmap_width BulbBitmap) (bitmap_height BulbBitmap)"
  "fits (Some BehaviorBitmap) (bitmap_width BehaviorBitmap) (bitmap_width BehaviorBitmap)"
  by (simp_all add: fits_def bitmap_data_length, simp_all add: bitmap_dim_defs)

lemma wf_clear [simp]: "wf d \<Longrightarrow> wf (clearButtons (d\<lparr>buttonCount := 0\<rparr>))"
  by (simp add: clearButtons_def wf_defs)

subsection \<open>Behaviours\<close>

lemma pres_put_behavior [pres_intros]: "wf d \<Longrightarrow> wf_behavior h \<Longrightarrow> pres wf (put_behavior i h d)"
  by (auto simp: put_behavior_def pres_def andThen_eq_Inr wr_eq_Inr wf_defs
      dest!: set_update_subset_insert [THEN subsetD])

lemma wf_behavior_updates [simp]:
  "wf_behavior (h\<lparr>activated := b1\<rparr>) = wf_behavior h"
  "wf_behavior (h\<lparr>bdelay := n\<rparr>) = wf_behavior h"
  "wf_behavior (h\<lparr>entriesCount := u\<rparr>) = wf_behavior h"
  "wf_behavior (h\<lparr>blightCounter := u\<rparr>) = wf_behavior h"
  "wf_behavior (h\<lparr>behaviorId := u\<rparr>) = wf_behavior h"
  "wf_behavior (h\<lparr>enterainmentGroup := u\<rparr>) = wf_behavior h"
  "wf_behavior (h\<lparr>bname := s\<rparr>) = wf_behavior h"
  by (simp_all add: wf_behavior_def)

lemma pres_set_activated [pres_intros]: "wf d \<Longrightarrow> pres wf (set_activated i b d)"
  unfolding set_activated_def by (intro pres_intros) (simp_all add: wf_sizes)

lemma pres_set_delay [pres_intros]: "wf d \<Longrightarrow> pres wf (set_delay i f d)"
  unfolding set_delay_def by (intro pres_intros) (simp_all add: wf_sizes)

lemma pres_set_count [pres_intros]: "wf d \<Longrightarrow> pres wf (set_count i f d)"
  unfolding set_count_def by (intro pres_intros) (simp_all add: wf_sizes)

lemma fill_entries_length: "pres (\<lambda>es'. length es' = length es) (fill_entries n es)"
  unfolding fill_entries_def by (rule pres_forr) (auto simp: pres_def wr_eq_Inr)

lemma pres_refill [pres_intros]: "wf d \<Longrightarrow> pres wf (refill k d)"
proof -
  assume wf: "wf d"
  have "pres wf (andThen (fill_entries (entriesCount h) (entries h)) (\<lambda>es. put_behavior k (h\<lparr>entries := es\<rparr>) d))"
    if "h \<in> set (behaviors d)" for h
    by (rule pres_andThen [OF fill_entries_length], rule pres_put_behavior [OF wf])
      (use wf_sizes(7) [OF wf that] in \<open>simp add: wf_behavior_def\<close>)
  then show ?thesis unfolding refill_def by (intro pres_then_rd)
qed

lemma pres_create:
  assumes "wf d" "\<And>es'. length es' = length es \<Longrightarrow> wf_behavior (g es')"
  shows "pres wf (andThen (fill_entries n es) (\<lambda>es. put_behavior k (g es) d))"
  by (rule pres_andThen [OF fill_entries_length], rule pres_put_behavior [OF assms(1)])
    (use assms(2) in blast)

lemma pres_initBehaviors [pres_intros]:
  assumes "env_ok E" "wf d"
  shows "pres wf (initBehaviors E d)"
proof -
  have junk: "wf_behavior (junk_behavior E)" using assms(1) by (simp add: env_ok_def)
  have "pres wf (createRepeatingBehavior E t)" "pres wf (createTimebasedBehavior E t)"
    "pres wf (createTransitionBehavior E t)" if "wf t" for t
    unfolding createRepeatingBehavior_def createTimebasedBehavior_def createTransitionBehavior_def Let_def
    using that junk by (auto intro!: pres_create pres_intros simp: wf_behavior_def)
  then show ?thesis unfolding initBehaviors_def using assms(2) by (intro pres_intros) simp_all
qed

subsection \<open>The stored settings and the bridge\<close>

lemma pres_need_fbdo [pres_intros]: "wf d \<Longrightarrow> pres wf (need_fbdo d)"
  by (simp add: need_fbdo_def pres_def)

lemma wf_emit_fb [simp]: "wf (emit e (d\<lparr>fbdo := b\<rparr>)) = wf d"
  by simp

lemma pres_firebaseEnd [pres_intros]: "wf d \<Longrightarrow> pres wf (firebaseEnd d)"
  unfolding firebaseEnd_def by (intro pres_intros) simp_all

lemma pres_wait_ready [pres_intros]: "wf d \<Longrightarrow> pres wf (wait_ready E d)"
  by (simp add: wait_ready_def pres_def split: option.split)

lemma pres_push_json [pres_intros]: "wf d \<Longrightarrow> pres wf (push_json E payload d)"
  by (auto simp: push_json_def Let_def intro!: pres_intros split: option.split)

lemma pres_fb_get [pres_intros]: "wf d \<Longrightarrow> pres wf2 (fb_get E path d)"
  unfolding fb_get_def Let_def by (intro pres_intros) simp_all

lemma pres_fb_set [pres_intros]: "wf d \<Longrightarrow> pres wf2 (fb_set E path v d)"
  unfolding fb_set_def Let_def by (intro pres_intros) simp_all

lemma pres_fb_tasks [pres_intros]:
  "wf d \<Longrightarrow> pres wf (taskFireBaseAppendUserAction E d)"
  "wf d \<Longrightarrow> pres wf (taskFireBaseAppendUserActionWithWhat E d)"
  "wf d \<Longrightarrow> pres wf (taskFireBaseAppendUserActionWithWhatAndValue E d)"
  unfolding taskFireBaseAppendUserAction_def taskFireBaseAppendUserActionWithWhat_def
    taskFireBaseAppendUserActionWithWhatAndValue_def
  by (intro pres_intros; assumption)+

lemma pres_runTask [pres_intros]:
  "wf d \<Longrightarrow> pres wf (runTaskFireBaseAppendUserActionWithWhat E i a c w d)"
  unfolding runTaskFireBaseAppendUserActionWithWhat_def by (intro pres_intros) simp_all

lemma pres_firebaseTask_round [pres_intros]: "wf d \<Longrightarrow> pres wf (firebaseTask_round E d)"
  unfolding firebaseTask_round_def by (intro pres_intros) simp_all

lemma pres_getUILevel [pres_intros]: "wf d \<Longrightarrow> pres wf (getUILevel E d)"
  unfolding getUILevel_def by (intro pres_intros) (auto split: option.split fb_value.split)

lemma pres_getters [pres_intros]:
  "wf d \<Longrightarrow> pres wf2 (getUserId E d)" "wf d \<Longrightarrow> pres wf2 (getClientKey E d)"
  "wf d \<Longrightarrow> pres wf2 (setUserId E s d)" "wf d \<Longrightarrow> pres wf2 (setClientKey E s d)"
  unfolding getUserId_def getClientKey_def setUserId_def setClientKey_def
  by (intro pres_intros; simp)+

lemma pres_getNewIds [pres_intros]: "wf d \<Longrightarrow> pres wf (getNewIds E d)"
  unfolding getNewIds_def Let_def
  by (intro pres_intros) (auto intro!: pres_intros split: option.split)

lemma store_members_keeps:
  "(\<And>m. m \<in> set ms \<Longrightarrow> Q (f m)) \<Longrightarrow> (\<forall>x \<in> set xs. Q x) \<Longrightarrow>
   pres (\<lambda>ys. length ys = length xs \<and> (\<forall>y \<in> set ys. Q y)) (store_members f i ms xs)"
proof (induction ms arbitrary: i xs)
  case (Cons m ms)
  have "pres (\<lambda>ys. length ys = length xs \<and> (\<forall>y \<in> set ys. Q y)) (wr xs (int i) (f m))"
    by (rule pres_mono [OF pres_wr]) (use Cons.prems in auto)
  moreover have "pres (\<lambda>zs. length zs = length xs \<and> (\<forall>y \<in> set zs. Q y)) (store_members f (Suc i) ms ys)"
    if "length ys = length xs \<and> (\<forall>y \<in> set ys. Q y)" for ys
    using Cons.IH [of ys "Suc i"] Cons.prems that by simp
  ultimately show ?case
    unfolding store_members.simps by (rule pres_andThen)
qed (simp add: pres_def)

lemma wf_lightIds: "wf d \<Longrightarrow> length ls = 50 \<Longrightarrow> wf (d\<lparr>lightIds := ls\<rparr>)"
  by (simp add: wf_defs)

lemma wf_lights: "wf d \<Longrightarrow> length ls = 50 \<Longrightarrow> wf (d\<lparr>lights := ls\<rparr>)"
  by (simp add: wf_defs)

lemma wf_entertainmentLights: "wf d \<Longrightarrow> length ls = 20 \<Longrightarrow> wf (d\<lparr>entertainmentLights := ls\<rparr>)"
  by (simp add: wf_defs)

lemma wf_rooms: "wf d \<Longrightarrow> length rs = 50 \<Longrightarrow> (\<forall>m \<in> set rs. wf_room m) \<Longrightarrow> wf (d\<lparr>rooms := rs\<rparr>)"
  by (simp add: wf_defs)

lemma wf_currentRoom: "wf d \<Longrightarrow> wf_room m \<Longrightarrow> wf (d\<lparr>currentRoom := m\<rparr>)"
  by (simp add: wf_defs)

lemma wf_entertainmentRoom: "wf d \<Longrightarrow> wf_room m \<Longrightarrow> wf (d\<lparr>entertainmentRoom := m\<rparr>)"
  by (simp add: wf_defs)

lemma wf_data_sizes:
  "wf d \<Longrightarrow> length (lights d) = 50" "wf d \<Longrightarrow> length (lightIds d) = 50"
  "wf d \<Longrightarrow> length (rooms d) = 50" "wf d \<Longrightarrow> length (entertainmentLights d) = 20"
  by (simp_all add: wf_defs)

lemma wf_getLights [simp]: "wf (snd (getLights E d)) = wf d" "wf (snd (getGroups_raw E d)) = wf d"
  "wf (snd (getGroup_raw E i d)) = wf d"
  by (simp_all add: getLights_def getGroups_raw_def getGroup_raw_def)

lemma wf_room_of_member: "env_ok E \<Longrightarrow> wf_room (room_of_member E m)"
  by (simp add: room_of_member_def wf_room_def fresh_room_def env_ok_def Let_def)

lemma pres_getLightIds [pres_intros]: "wf d \<Longrightarrow> pres wf (getLightIds E d)"
proof -
  assume w: "wf d"
  obtain a e where g: "getLights E d = (a, e)" by (cases "getLights E d")
  have e: "wf e" using wf_getLights(1) [of E d] w g by simp
  show ?thesis unfolding getLightIds_def g prod.case Let_def
    by (rule pres_andThen [OF store_members_keeps [where Q = "\<lambda>_. True"]])
      (use e in \<open>auto intro!: pres_Inr wf_lightIds simp: wf_data_sizes\<close>)
qed

lemma pres_getGroups [pres_intros]: "env_ok E \<Longrightarrow> wf d \<Longrightarrow> pres wf (getGroups E d)"
proof -
  assume ok: "env_ok E" and w: "wf d"
  obtain a e where g: "getGroups_raw E d = (a, e)" by (cases "getGroups_raw E d")
  have e: "wf e" using wf_getLights(2) [of E d] w g by simp
  show ?thesis unfolding getGroups_def g prod.case Let_def
    by (rule pres_andThen [OF store_members_keeps [where Q = wf_room]])
      (use e ok wf_sizes(8) [OF e] in
        \<open>auto intro!: pres_Inr wf_rooms simp: wf_data_sizes wf_room_of_member\<close>)
qed

lemma getGroup_wf:
  "wf d \<Longrightarrow> wf_room m \<Longrightarrow> getGroup E i m d = (m', d') \<Longrightarrow> wf d' \<and> wf_room m'"
  using wf_getLights(3) [of E i d]
  by (cases "getGroup_raw E i d") (auto simp: getGroup_def Let_def wf_room_def)

lemma getLightState_keeps:
  assumes "wf d"
  shows "pres (\<lambda>(ls', d'). length ls' = length ls \<and> wf d') (getLightState E ids i (ls, d))"
proof -
  have w: "wf (snd (get_request E (lightEndpoint d n) d))" for n using assms by simp
  show ?thesis unfolding getLightState_def split_beta fst_conv snd_conv
    by (rule pres_andThen [OF pres_True], rule pres_andThen [OF pres_wr]) (use w in \<open>simp add: pres_def\<close>)
qed

lemma pres_getLightStates:
  assumes "wf d"
  shows "pres (\<lambda>(ls', d'). length ls' = length ls \<and> wf d') (getLightStates E ls ids n d)"
  unfolding getLightStates_def
proof (rule pres_forr)
  fix i and s :: "light list \<times> dev"
  assume "case s of (ls', d') \<Rightarrow> length ls' = length ls \<and> wf d'"
  then show "pres (\<lambda>(ls', d'). length ls' = length ls \<and> wf d') (getLightState E ids i s)"
    using getLightState_keeps [of "snd s" "fst s" E ids i] by (cases s) simp
qed (use assms in simp)

end
