(* ===== verification/Reachability.thy ===== *)
theory Reachability
  imports Preservation
begin

section \<open>Every reachable state is well formed\<close>

text \<open>
  The rules for the handlers of the buttons, the pages, the entertainment stream, the dials and
  the tasks, and their consequence for the whole firmware.
\<close>

subsection \<open>The entertainment stream\<close>

lemma message_size_0 [simp]: "message_size 0 = 16"
  by (simp add: message_size_eq)

lemma wf_startStreaming: "wf d \<Longrightarrow> startStreaming E i d = (b, d') \<Longrightarrow> wf d' \<and> tls d' = tls d"
  by (auto simp: startStreaming_def put_request_def http_request_def Let_def emit_def
      split: prod.splits)

lemma wf_stream_data:
  "wf d \<Longrightarrow> length m = message_size n \<Longrightarrow> c \<noteq> NoContext \<Longrightarrow>
   wf (d\<lparr>tls := c, out := es, entertainment_num_lights := n, entertainment_msg := m\<rparr>)"
  by (simp add: wf_defs)

lemma startStreaming_out:
  "snd (startStreaming E i d) =
   d\<lparr>out := out d @ [Http PUT (groupEndpoint d i) ''{\"stream\":{\"active\":true}}'']\<rparr>"
  by (simp add: startStreaming_def split_beta put_request_out)

lemma wf_initEntertainmentMode: "wf d \<Longrightarrow> wf (initEntertainmentMode E r n d)"
  by (simp add: initEntertainmentMode_def Let_def startStreaming_out message_size_eq wf_defs)

lemma pres_tls_call: "wf d \<Longrightarrow> pres (\<lambda>(r, t). wf t \<and> tls t \<noteq> NoContext) (tls_call E c d)"
  by (simp add: tls_call_def pres_def Let_def emit_def)

lemma wf_freed: "wf d \<Longrightarrow> tls d \<noteq> NoContext \<Longrightarrow> wf (d\<lparr>tls := Freed\<rparr>)"
  by (simp add: wf_defs)

lemma pres_close_notify [pres_intros]: "wf d \<Longrightarrow> pres wf (close_notify E d)"
  unfolding close_notify_def by (rule pres_andThen [OF pres_tls_call]) (auto intro: pres_Inr)

lemma pres_free: "wf d \<Longrightarrow> pres wf (andThen (tls_call E c d) (\<lambda>(_, d). Inr (d\<lparr>tls := Freed\<rparr>)))"
  by (rule pres_andThen [OF pres_tls_call]) (auto intro: pres_Inr wf_freed)

lemma pres_disconnect [pres_intros]: "wf d \<Longrightarrow> pres wf (disconnect E d)"
  unfolding disconnect_def
  by (rule pres_Cons [OF pres_close_notify], assumption, rule pres_Cons [OF pres_free])
    (simp_all add: pres_def)

lemma pres_connect_step:
  assumes "wf d" "\<And>t. wf t \<Longrightarrow> pres wf2 (k t)"
  shows "pres wf2 (connect_step E c k d)"
  unfolding connect_step_def
  by (rule pres_andThen [OF pres_tls_call [OF assms(1)]]) (auto intro!: pres_intros assms(2))

lemma pres_handshake: "wf d \<Longrightarrow> pres wf2 (handshake E d)"
  unfolding handshake_def Let_def by (auto intro!: pres_intros split: option.split)

lemma pres_connect [pres_intros]: "wf d \<Longrightarrow> pres wf2 (connect E r d)"
  unfolding connect_def
  by (auto dest: wf_startStreaming intro!: pres_connect_step pres_handshake pres_Inr split: prod.split)

lemma pres_update_loop: "wf d \<Longrightarrow> pres wf2 (update_loop E n k d)"
proof (induction n arbitrary: k d)
  case (Suc n)
  have "pres wf2 (andThen (tls_call E c d) (\<lambda>(ret, d).
      if ret < 0 then Inr (False, d) else if k + nat ret > z then Inl OutOfBounds
      else update_loop E n (k + nat ret) d))" for c z
    by (rule pres_andThen [OF pres_tls_call [OF Suc.prems]]) (auto intro!: pres_intros Suc.IH)
  then show ?case using Suc.prems by (auto simp: Let_def intro: pres_Inr)
qed (simp add: pres_def)

lemma pres_stream_update [pres_intros]: "wf d \<Longrightarrow> pres wf2 (stream_update E d)"
  unfolding stream_update_def by (rule pres_update_loop)

lemma store_bytes_length: "pres (\<lambda>msg'. length msg' = length msg) (store_bytes i vs msg)"
proof (induction vs arbitrary: i msg)
  case (Cons v vs)
  show ?case unfolding store_bytes.simps
    by (rule pres_andThen [OF pres_wr]) (metis (mono_tags, lifting) Cons.IH pres_mono)
qed (simp add: pres_def)

lemma wf_msg: "wf d \<Longrightarrow> length m = length (entertainment_msg d) \<Longrightarrow> wf (d\<lparr>entertainment_msg := m\<rparr>)"
  by (simp add: wf_defs)

lemma pres_setColorRGB [pres_intros]: "wf d \<Longrightarrow> pres wf2 (setColorRGB i l cr cg cb d)"
proof -
  assume "wf d"
  then have "pres wf2 (andThen (store_bytes j bs (entertainment_msg d))
      (\<lambda>msg. Inr (True, d\<lparr>entertainment_msg := msg\<rparr>)))" for j bs
    by (intro pres_andThen [OF store_bytes_length]) (simp add: pres_def wf_msg)
  with \<open>wf d\<close> show ?thesis by (simp add: setColorRGB_def pres_def)
qed

lemma fits_off [pres_intros]:
  "fits (if False then a else Some b) (bitmap_width b) (bitmap_height b)"
  "fits (if False then a else Some BehaviorBitmap) (bitmap_width BehaviorBitmap) (bitmap_width BehaviorBitmap)"
  "fits (if False then a else Some BulbBitmap) (bitmap_width BulbBitmap) (bitmap_height BulbBitmap)"
  "fits (if False then a else Some BulbOutlinedBitmap) (bitmap_width BulbBitmap) (bitmap_height BulbBitmap)"
  by (simp_all only: if_False fits_own fits_pairs)

lemmas fits_bulbs [pres_intros] = fits_pairs(1)

subsection \<open>The handlers of the lamps and of the behaviours\<close>

lemma pres_setCurrentLight [pres_intros]: "wf d \<Longrightarrow> pres wf (setCurrentLight i d)"
  unfolding setCurrentLight_def by (intro pres_intros) simp_all

lemma pres_bulb_icon [pres_intros]: "wf d \<Longrightarrow> pres wf (bulb_icon b v d)"
  unfolding bulb_icon_def by (intro pres_intros) simp_all

lemma pres_Switch [pres_intros]: "wf d \<Longrightarrow> pres wf (Switch E d)"
  unfolding Switch_def by (intro pres_intros) simp_all

lemma pres_set_button: "wf d \<Longrightarrow> pres wf (andThen (wr (buttons d) i v) (\<lambda>bs. Inr (d\<lparr>buttons := bs\<rparr>)))"
  by (auto simp: pres_def andThen_eq_Inr wr_eq_Inr wf_defs)

lemma pres_mark_selected [pres_intros]: "wf d \<Longrightarrow> pres wf (mark_selected i s d)"
  unfolding mark_selected_def by (rule pres_then_rd) (rule pres_set_button)

lemma pres_frame_button [pres_intros]: "wf d \<Longrightarrow> pres wf (frame_button i c d)"
  unfolding frame_button_def by (intro pres_intros)

lemma pres_log_button [pres_intros]: "wf d \<Longrightarrow> pres wf (log_button E a c i d)"
  unfolding log_button_def by (intro pres_intros) simp_all

lemma shift_loop_length: "pres (\<lambda>b. length b = length a) (shift_loop f i n v a)"
proof (induction f arbitrary: i a)
  case (Suc f)
  have gap: "pres (\<lambda>b. length b = length a) (close_gap i n a)"
    unfolding close_gap_def
    by (rule pres_andThen, rule pres_forr [where P = "\<lambda>b. length b = length a"])
      (auto simp: pres_def andThen_eq_Inr wr_eq_Inr)
  have "pres (\<lambda>b. length b = length a) (andThen (close_gap i n a) (shift_loop f i n v))"
    by (rule pres_andThen [OF gap]) (use Suc.IH in \<open>metis (mono_tags, lifting) pres_mono\<close>)
  with Suc.IH show ?case by (auto intro!: pres_intros)
qed (simp add: pres_def)

lemma pres_on_last_behavior:
  assumes "wf d" "\<And>h. wf_behavior h \<Longrightarrow> pres wf_behavior (f h)"
  shows "pres wf (on_last_behavior f d)"
  unfolding on_last_behavior_def
  by (rule pres_then_rd, rule pres_andThen [OF assms(2)])
    (use assms(1) in \<open>auto intro: pres_put_behavior dest: wf_sizes(7)\<close>)

lemma pres_remove_lamp:
  "wf_behavior h \<Longrightarrow> pres wf_behavior (andThen (arrayShift (blightIds h) n v)
     (\<lambda>a. Inr (h\<lparr>blightIds := a, blightCounter := c\<rparr>)))"
  unfolding arrayShift_def
  by (rule pres_andThen [OF shift_loop_length]) (simp add: pres_def wf_behavior_def)

lemma pres_add_lamp:
  "wf_behavior h \<Longrightarrow> pres wf_behavior (andThen (wr (blightIds h) n v)
     (\<lambda>a. Inr (h\<lparr>blightIds := a, blightCounter := c\<rparr>)))"
  by (rule pres_andThen [OF pres_wr]) (simp add: pres_def wf_behavior_def)

lemma pres_selectLight [pres_intros]: "wf d \<Longrightarrow> pres wf (selectLight E l i d)"
  unfolding selectLight_def
  by (intro pres_intros pres_on_last_behavior pres_remove_lamp pres_add_lamp) simp_all

lemma pres_grid_loop [pres_intros]:
  assumes "\<And>i x y d. wf d \<Longrightarrow> pres wf (draw i x y d)"
  shows "wf d \<Longrightarrow> pres wf (grid_loop stop draw x0 step is x y d)"
proof (induction "is" arbitrary: x y d)
  case (Cons i "is")
  then show ?case
    unfolding grid_loop.simps
    by (intro pres_andThen [OF pres_True] pres_if pres_if_fun pres_Inr pres_then_dev assms)
qed (simp add: pres_def)

lemma wf_set_topIndex [simp]: "wf (set_topIndex n d) = wf d"
  by (simp add: set_topIndex_def)

lemma pres_light_icon [pres_intros]: "wf d \<Longrightarrow> pres wf (light_icon E l ev b x y d)"
  unfolding light_icon_def by (intro pres_intros) simp_all

lemma pres_drawLightsFromArray [pres_intros]: "wf d \<Longrightarrow> pres wf (drawLightsFromArray E a b d)"
  unfolding drawLightsFromArray_def Let_def by (intro pres_intros) simp_all

lemma pres_drawSelectable [pres_intros]: "wf d \<Longrightarrow> pres wf (drawSelectableLightsFromArray E a b d)"
  unfolding drawSelectableLightsFromArray_def
  by (intro pres_grid_loop pres_then_rd pres_andThen [OF pres_True] pres_light_icon) simp_all

lemma pres_drawRoomsFromArray [pres_intros]: "wf d \<Longrightarrow> pres wf (drawRoomsFromArray E a b d)"
  unfolding drawRoomsFromArray_def by (intro pres_intros) simp_all

lemma pres_drawPaginationButtons [pres_intros]: "wf d \<Longrightarrow> pres wf (drawPaginationButtons E n d)"
  unfolding drawPaginationButtons_def by (intro pres_intros) (simp_all add: wf_buttonCount)

lemma pres_turn_page [pres_intros]: "wf d \<Longrightarrow> pres wf (turn_page E a b d)"
  unfolding turn_page_def Let_def by (intro pres_intros)

lemma pres_pages_turned [pres_intros]:
  "wf d \<Longrightarrow> pres wf (drawNextPage E d)" "wf d \<Longrightarrow> pres wf (drawPrevPage E d)"
  unfolding drawNextPage_def drawPrevPage_def by (intro pres_intros; simp add: wf_buttonCount)+

lemma pres_start_stop [pres_intros]: "wf d \<Longrightarrow> pres wf (start_stop E a b ev i d)"
  unfolding start_stop_def by (intro pres_intros)

lemma pres_toggleBehavior [pres_intros]: "wf d \<Longrightarrow> pres wf (toggleBehavior E i k d)"
  unfolding toggleBehavior_def by (intro pres_intros) (simp_all add: activateBehavior_def)

lemma pres_toggleRGBMode [pres_intros]: "wf d \<Longrightarrow> pres wf (toggleRGBMode E d)"
  unfolding toggleRGBMode_def by (intro pres_intros) simp_all

lemma pres_drawBattery_round [pres_intros]: "wf d \<Longrightarrow> pres wf (drawBattery_round E d)"
  unfolding drawBattery_round_def ReadBatteryVoltage_def Let_def prod.case battery_icon_def
  by (intro pres_intros) simp_all

subsection \<open>The pages\<close>

lemma pres_addPageToPagePath [pres_intros]: "wf d \<Longrightarrow> pres wf (addPageToPagePath d)"
  by (auto simp: addPageToPagePath_def pres_def andThen_eq_Inr wr_eq_Inr wf_defs)

lemma pres_nav_icon [pres_intros]: "wf d \<Longrightarrow> pres wf (nav_icon E x pw b ev d)"
  unfolding nav_icon_def by (intro pres_intros)

lemma pres_drawHeader [pres_intros]: "wf d \<Longrightarrow> pres wf (drawHeader E s h b d)"
  unfolding drawHeader_def Let_def by (intro pres_intros) simp_all

lemma wf_goto [simp]: "wf (goto n d) = wf d" "wf (set_screen s d) = wf d"
  by (simp_all add: goto_def set_screen_def)

lemma pres_drawHome [pres_intros]: "wf d \<Longrightarrow> pres wf (drawHome E d)"
  unfolding drawHome_def by (intro pres_intros) (simp_all add: wf_currentRoom wf_sizes)

lemma pres_drawAllGroups [pres_intros]: "wf d \<Longrightarrow> pres wf (drawAllGroups E d)"
  unfolding drawAllGroups_def by (intro pres_intros) simp_all

lemma pres_fetch_room_lights [pres_intros]:
  "wf d \<Longrightarrow> pres wf (andThen (getLightStates E (lights d) ids n d) (\<lambda>(ls, d). Inr (d\<lparr>lights := ls\<rparr>)))"
  by (rule pres_andThen [OF pres_getLightStates]) (auto intro!: pres_Inr wf_lights simp: wf_data_sizes)

lemma pres_drawRoom [pres_intros]: "wf d \<Longrightarrow> pres wf (drawRoom E i d)"
  unfolding drawRoom_def by (intro pres_intros) (simp_all add: wf_currentRoom wf_sizes)

lemma pres_find_light [pres_intros]: "wf d \<Longrightarrow> pres wf (find_light i d)"
  unfolding find_light_def by (intro pres_intros) simp_all

lemma pres_drawLight_page [pres_intros]: "wf d \<Longrightarrow> pres wf (drawLight_page E s d)"
  unfolding drawLight_page_def by (intro pres_intros) simp_all

lemma pres_drawLight [pres_intros]: "wf d \<Longrightarrow> pres wf (drawLight E i d)"
  unfolding drawLight_def by (intro pres_intros) simp_all

lemma pres_drawAllLights [pres_intros]: "wf d \<Longrightarrow> pres wf (drawAllLights E d)"
  unfolding drawAllLights_def by (intro pres_intros) simp_all

lemma pres_drawAllBehaviors [pres_intros]: "wf d \<Longrightarrow> pres wf (drawAllBehaviors E d)"
  unfolding drawAllBehaviors_def by (intro pres_intros) simp_all

lemma pres_enter_behavior [pres_intros]: "wf d \<Longrightarrow> pres wf (enter_behavior E p i d)"
  unfolding enter_behavior_def by (intro pres_intros) simp_all

lemma pres_log_behavior [pres_intros]: "wf d \<Longrightarrow> pres wf (log_behavior E c i d)"
  unfolding log_behavior_def by (intro pres_intros) simp_all

lemma pres_drawBehavior [pres_intros]: "wf d \<Longrightarrow> pres wf (drawBehavior E i d)"
  unfolding drawBehavior_def edit_button_def by (intro pres_intros) simp_all

subsection \<open>The settings\<close>

lemma pres_relabel: "wf d \<Longrightarrow> (\<And>t. wf t \<Longrightarrow> wf (change t)) \<Longrightarrow> pres wf (relabel y label change d)"
  unfolding relabel_def by (intro pres_intros) simp_all

lemma wf_spawn_update [simp]: "wf (spawn_update d) = wf d"
  by (simp add: spawn_update_def)

lemma pres_fest_delay [pres_intros]: "wf d \<Longrightarrow> pres wf (fest_delay_res d)"
  unfolding fest_delay_res_def by (intro pres_intros)

lemmas setting_defs =
  incrementBlinkingLightsSpeed_def decrementBlinkingLightsSpeed_def incrementBlinkingLightsCount_def
  decrementBlinkingLightsCount_def incrementAlarmDuration_def decrementAlarmDuration_def
  incrementAlarmFlashCount_def decrementAlarmFlashCount_def incrementFestSpeed_def
  decrementFestSpeed_def incrementFestDuration_def decrementFestDuration_def

lemma wf_settings_sizes:
  "wf d \<Longrightarrow> 1000 \<le> blinkingLightsDelay d \<and> blinkingLightsDelay d mod 1000 = 0"
  "wf d \<Longrightarrow> 10 \<le> blinkingLightsEntries d \<and> blinkingLightsEntries d mod 10 = 0"
  "wf d \<Longrightarrow> 10 \<le> alarmEntries d \<and> alarmEntries d mod 10 = 0"
  "wf d \<Longrightarrow> 1 \<le> festDelay d" "wf d \<Longrightarrow> 0 \<le> alarmDelay d \<and> alarmDelay d mod 10000 = 0"
  by (simp_all add: wf_defs)

lemma wf_settings_change:
  "wf d \<Longrightarrow> 1000 \<le> n \<Longrightarrow> n mod 1000 = 0 \<Longrightarrow> wf (d\<lparr>blinkingLightsDelay := n\<rparr>)"
  "wf d \<Longrightarrow> 10 \<le> n \<Longrightarrow> n mod 10 = 0 \<Longrightarrow> wf (d\<lparr>blinkingLightsEntries := n\<rparr>)"
  "wf d \<Longrightarrow> 10 \<le> n \<Longrightarrow> n mod 10 = 0 \<Longrightarrow> wf (d\<lparr>alarmEntries := n\<rparr>)"
  "wf d \<Longrightarrow> 1 \<le> n \<Longrightarrow> wf (d\<lparr>festDelay := n\<rparr>)"
  "wf d \<Longrightarrow> 0 \<le> n \<Longrightarrow> n mod 10000 = 0 \<Longrightarrow> wf (d\<lparr>alarmDelay := n\<rparr>)"
  by (simp_all add: wf_defs)

lemma wf_setting_steps:
  assumes "wf d"
  shows "wf (d\<lparr>blinkingLightsDelay := blinkingLightsDelay d + 1000\<rparr>)"
    "1000 < blinkingLightsDelay d \<Longrightarrow> wf (d\<lparr>blinkingLightsDelay := blinkingLightsDelay d - 1000\<rparr>)"
    "wf (d\<lparr>blinkingLightsEntries := blinkingLightsEntries d + 10\<rparr>)"
    "10 < blinkingLightsEntries d \<Longrightarrow> wf (d\<lparr>blinkingLightsEntries := blinkingLightsEntries d - 10\<rparr>)"
    "wf (d\<lparr>alarmDelay := alarmDelay d + 10000\<rparr>)"
    "1000 < alarmDelay d \<Longrightarrow> wf (d\<lparr>alarmDelay := alarmDelay d - 10000\<rparr>)"
    "wf (d\<lparr>alarmEntries := alarmEntries d + 10\<rparr>)"
    "10 < alarmEntries d \<Longrightarrow> wf (d\<lparr>alarmEntries := alarmEntries d - 10\<rparr>)"
    "wf (d\<lparr>festDelay := festDelay d + 1\<rparr>)"
    "1 < festDelay d \<Longrightarrow> wf (d\<lparr>festDelay := festDelay d - 1\<rparr>)"
proof -
  have step: "k \<le> n - k" if "k < n" "n mod k = 0" "0 < k" for n k :: int
    using that by (auto elim!: dvdE simp: mod_eq_0_iff_dvd)
  have big: "10000 \<le> n" if "1000 < n" "n mod 10000 = 0" for n :: int
    using zdvd_imp_le [of 10000 n] that by (simp add: mod_eq_0_iff_dvd)
  note sizes = wf_settings_sizes [OF assms] and change = wf_settings_change [OF assms]
  show "wf (d\<lparr>blinkingLightsDelay := blinkingLightsDelay d + 1000\<rparr>)"
    using sizes(1) by (intro change) simp_all
  show "1000 < blinkingLightsDelay d \<Longrightarrow> wf (d\<lparr>blinkingLightsDelay := blinkingLightsDelay d - 1000\<rparr>)"
    using sizes(1) step [of 1000 "blinkingLightsDelay d"] by (intro change) simp_all
  show "wf (d\<lparr>blinkingLightsEntries := blinkingLightsEntries d + 10\<rparr>)"
    using sizes(2) by (intro change) simp_all
  show "10 < blinkingLightsEntries d \<Longrightarrow> wf (d\<lparr>blinkingLightsEntries := blinkingLightsEntries d - 10\<rparr>)"
    using sizes(2) step [of 10 "blinkingLightsEntries d"] by (intro change) simp_all
  show "wf (d\<lparr>alarmDelay := alarmDelay d + 10000\<rparr>)"
    using sizes(5) by (intro change) simp_all
  show "1000 < alarmDelay d \<Longrightarrow> wf (d\<lparr>alarmDelay := alarmDelay d - 10000\<rparr>)"
    using sizes(5) big [of "alarmDelay d"] by (intro change) simp_all
  show "wf (d\<lparr>alarmEntries := alarmEntries d + 10\<rparr>)"
    using sizes(3) by (intro change) simp_all
  show "10 < alarmEntries d \<Longrightarrow> wf (d\<lparr>alarmEntries := alarmEntries d - 10\<rparr>)"
    using sizes(3) step [of 10 "alarmEntries d"] by (intro change) simp_all
  show "wf (d\<lparr>festDelay := festDelay d + 1\<rparr>)"
    using sizes(4) by (intro change) simp_all
  show "1 < festDelay d \<Longrightarrow> wf (d\<lparr>festDelay := festDelay d - 1\<rparr>)"
    using sizes(4) by (intro change) simp_all
qed

lemma pres_setting:
  assumes "wf d" "\<And>t. wf t \<Longrightarrow> wf (change t)" "\<And>t. wf t \<Longrightarrow> pres wf (c t)"
  shows "pres wf (seqr [relabel y label change, c] d)"
  using assms by (intro pres_intros pres_relabel)

lemma pres_settings [pres_intros]:
  assumes "wf d"
  shows "pres wf (incrementBlinkingLightsSpeed d)" "pres wf (decrementBlinkingLightsSpeed d)"
    "pres wf (incrementBlinkingLightsCount d)" "pres wf (decrementBlinkingLightsCount d)"
    "pres wf (incrementAlarmDuration d)" "pres wf (decrementAlarmDuration d)"
    "pres wf (incrementAlarmFlashCount d)" "pres wf (decrementAlarmFlashCount d)"
    "pres wf (incrementFestSpeed d)" "pres wf (decrementFestSpeed d)"
  unfolding setting_defs
  by (rule pres_setting [OF assms], simp add: wf_setting_steps, (intro pres_intros; simp))+

lemma pres_minus_plus [pres_intros]: "wf d \<Longrightarrow> pres wf (minus_plus E y a b i d)"
  unfolding minus_plus_def by (intro pres_intros safe_settings)

lemma pres_setting_pages [pres_intros]:
  assumes "wf d"
  shows "pres wf (changeBehaviorForTraining E i d)" "pres wf (changeBehaviorForAlarm E i d)"
    "pres wf (changeBehaviorForFest E i d)"
  unfolding changeBehaviorForTraining_def changeBehaviorForAlarm_def changeBehaviorForFest_def
  by (intro pres_intros safe_settings assms; assumption)+

subsection \<open>Navigation\<close>

lemma pres_home_button [pres_intros]: "wf d \<Longrightarrow> pres wf (drawHomeFromHomeButton E d)"
  unfolding drawHomeFromHomeButton_def by (intro pres_intros) (simp_all add: wf_defs)

lemma pres_goBack [pres_intros]:
  assumes "wf d"
  shows "pres wf (goBack E d)"
proof (cases "2 \<le> pagePageCounter d")
  case True
  with assms have "wf (d\<lparr>pagePageCounter := pagePageCounter d - 1, isGoingBack := True\<rparr>)"
    by (simp add: wf_defs)
  then show ?thesis unfolding goBack_def by (intro pres_intros) simp_all
qed (simp add: goBack_def rd_out pres_def)

lemma wf_discoverBridges [simp]: "wf (snd (discoverBridges E d)) = wf d"
  by (rule wf_requests)

lemma pres_fetchData [pres_intros]: "env_ok E \<Longrightarrow> wf d \<Longrightarrow> pres wf (fetchData E d)"
proof -
  assume ok: "env_ok E" and w: "wf d"
  have group: "wf (case getGroup E ENTERTAINMENT_ID (entertainmentRoom t) t of
      (m, d) \<Rightarrow> d\<lparr>entertainmentRoom := m\<rparr>)" if "wf t" for t
    using getGroup_wf [OF that wf_sizes(5) [OF that]] by (auto intro: wf_entertainmentRoom split: prod.split)
  have lamps: "pres wf (andThen (getLightStates E (entertainmentLights t) ids n t)
      (\<lambda>(ls, d). Inr (d\<lparr>entertainmentLights := ls\<rparr>)))" if "wf t" for t ids n
    by (rule pres_andThen [OF pres_getLightStates [OF that]])
      (use that in \<open>auto intro!: pres_Inr wf_entertainmentLights simp: wf_data_sizes\<close>)
  show ?thesis unfolding fetchData_def
    by (intro pres_intros lamps ok) (simp_all add: w group wf_display wf_sizes)
qed

lemma pres_invoke [pres_intros]: "env_ok E \<Longrightarrow> wf d \<Longrightarrow> pres wf (invoke E h i k d)"
  unfolding invoke_def by (cases h) (simp_all only: handler.case, (intro pres_intros; assumption)+)

lemma pres_touch_loop: "env_ok E \<Longrightarrow> wf d \<Longrightarrow> pres wf2 (touch_loop E px py ks d)"
proof (induction ks)
  case (Cons k ks)
  have "pres wf2 (case btn_event v of None \<Rightarrow> Inl NullCall | Some h \<Rightarrow>
      andThen (invoke E h (btn_id v) (int k) (d\<lparr>pressedButton := v\<rparr>)) (\<lambda>d. Inr (True, d)))" for v
    using Cons.prems by (auto intro!: pres_intros split: option.split)
  then show ?case using Cons by (auto intro!: pres_intros)
qed (simp add: pres_def)

lemma pres_touchEvent: "env_ok E \<Longrightarrow> wf d \<Longrightarrow> pres wf (touchEvent E px py e d)"
  unfolding touchEvent_def onTouchEvent_def by (intro pres_intros pres_touch_loop) simp_all

lemma pres_connectToWiFi [pres_intros]: "wf d \<Longrightarrow> pres wf (connectToWiFi E d)"
  using connectToWiFi_out [of E d] by (fastforce simp: pres_def)

lemma panel_ready_rotated:
  "panel_ready p \<Longrightarrow> even r \<Longrightarrow> panel_ready (displayRotation r (fillScreen c p))"
  using displayRotation_ok [of "fillScreen c p" r]
  by (simp add: panel_ready_def panel_ok_def fillScreen_def displayRotation_def setRotation_def
      Let_def text_ready_def display_width_def display_height_def)

lemma pres_setup_device:
  assumes "env_ok E" "wf d"
  shows "pres wf (setup_device E d)"
proof -
  have "wf (hue_begin E t)" if "wf t" for t
    using that wf_discoverBridges [of E t] by (cases "discoverBridges E t") (simp add: hue_begin_def)
  moreover have "wf (t\<lparr>display := displayRotation 2 (fillScreen EPD_WHITE (display t))\<rparr>)" if "wf t" for t
    using that wf_sizes(1) by (intro wf_display panel_ready_rotated) simp_all
  ultimately show ?thesis unfolding setup_device_def initEink_def initEncoders_def
    using assms by (intro pres_intros) (simp_all add: firebaseInit_def)
qed

subsection \<open>The dials\<close>

lemma wf_ticks [simp]:
  "wf (tick_encoder E d) = wf d" "wf (tick_encoderCont E d) = wf d"
  "wf (snd (step_of_encoder d)) = wf d" "wf (snd (step_of_encoderCont d)) = wf d"
  "wf (snd (read_pin E n d)) = wf d" "wf (sync_screen d) = wf d" "wf (snd (millis E d)) = wf d"
  by (simp_all add: tick_encoder_def tick_encoderCont_def step_of_encoder_def step_of_encoderCont_def
      read_pin_def sync_screen_def millis_def Let_def split_beta)

lemma pair_wf: "wf (snd s) \<Longrightarrow> s = (x, d) \<Longrightarrow> wf d"
  by simp

lemma pres_pair_case:
  "wf (snd s) \<Longrightarrow> (\<And>x d. wf d \<Longrightarrow> pres P (f x d)) \<Longrightarrow> pres P (case s of (x, d) \<Rightarrow> f x d)"
  by (cases s) simp

lemma pres_wf2_case: "wf2 s \<Longrightarrow> (\<And>x d. wf d \<Longrightarrow> pres P (f x d)) \<Longrightarrow> pres P (case s of (x, d) \<Rightarrow> f x d)"
  by (cases s) simp

lemma pres_lift_d: "(\<And>d. wf d \<Longrightarrow> pres wf (f d)) \<Longrightarrow> wf2 s \<Longrightarrow> pres wf2 (lift_d f s)"
  by (auto simp: lift_d_def wf2_def pres_def andThen_eq_Inr)

lemma wf_set_brightness [simp]: "wf (set_brightness n d) = wf d"
  by (simp add: set_brightness_def)

lemma wf_bri [simp]: "wf (d\<lparr>currentRoom := (currentRoom d)\<lparr>bri := n\<rparr>\<rparr>) = wf d"
  by (simp add: wf_defs wf_room_def)

lemma wf_log_room [simp]: "wf (log_room E a d) = wf d"
  by (simp add: log_room_def)

lemma wf_turn_brightness [simp]: "wf (turn_brightness E up v d) = wf d"
  by (simp add: turn_brightness_def Let_def)

lemma pres_flash_choice: "wf d \<Longrightarrow> pres wf2 (flash_choice E c cur d)"
  unfolding flash_choice_def by (intro pres_intros) simp_all

declare pres_case_prod [pres_intros del]

lemma pres_asked [pres_intros]:
  assumes "wf d"
  shows "(\<And>x d. wf d \<Longrightarrow> pres P (f x d)) \<Longrightarrow> pres P (case step_of_encoder d of (x, d) \<Rightarrow> f x d)"
    "(\<And>x d. wf d \<Longrightarrow> pres P (f x d)) \<Longrightarrow> pres P (case step_of_encoderCont d of (x, d) \<Rightarrow> f x d)"
    "(\<And>x d. wf d \<Longrightarrow> pres P (g x d)) \<Longrightarrow> pres P (case read_pin E n d of (x, d) \<Rightarrow> g x d)"
    "(\<And>x d. wf d \<Longrightarrow> pres P (h x d)) \<Longrightarrow> pres P (case millis E d of (x, d) \<Rightarrow> h x d)"
  using assms by (auto intro!: pres_pair_case)

lemmas [pres_intros] = pres_wf2_case pres_flash_choice pres_lift_d

lemma wf2I: "wf d \<Longrightarrow> wf2 (x, d)"
  by simp

lemma wf2_asked [simp]:
  "wf2 (step_of_encoder d) = wf d" "wf2 (step_of_encoderCont d) = wf d"
  "wf2 (read_pin E n d) = wf d" "wf2 (millis E d) = wf d"
  by (simp_all add: wf2_def)

lemma pres_chooseLightInRoom_body [pres_intros]: "wf2 s \<Longrightarrow> pres wf2 (chooseLightInRoom_body E s)"
  unfolding chooseLightInRoom_body_def Let_def by (intro pres_intros) simp_all

lemma pres_adjust_brightness [pres_intros]: "wf2 s \<Longrightarrow> pres wf2 (adjust_brightness E up s)"
  unfolding adjust_brightness_def Let_def by (intro pres_intros) simp_all

lemma pres_adjust_colour [pres_intros]: "wf2 s \<Longrightarrow> pres wf2 (adjust_colour E rgb n s)"
  unfolding adjust_colour_def Let_def by (intro pres_intros) simp_all

lemma pres_adjustLight_body [pres_intros]: "wf2 s \<Longrightarrow> pres wf2 (adjustLight_body E s)"
  unfolding adjustLight_body_def Let_def by (intro pres_intros) simp_all

lemma pres_press_button [pres_intros]: "wf2 s \<Longrightarrow> pres wf2 (press_button E s)"
  unfolding press_button_def Let_def by (intro pres_intros) simp_all

lemma pres_choose_bulb [pres_intros]: "wf2 s \<Longrightarrow> pres wf2 (choose_bulb E n s)"
  unfolding choose_bulb_def Let_def by (intro pres_intros) simp_all

lemma pres_chooseAndAlter_body [pres_intros]: "wf2 s \<Longrightarrow> pres wf2 (chooseAndAlter_body E s)"
  unfolding chooseAndAlter_body_def Let_def by (intro pres_intros) simp_all

lemma pres_starts [pres_intros]:
  "(\<And>v. pres P (f v)) \<Longrightarrow> pres P (andThen (chooseAndAlter_start d) f)"
  "(\<And>v. pres P (g v)) \<Longrightarrow> pres P (andThen (chooseLightInRoom_start d) g)"
  by (rule pres_andThen [OF pres_True], assumption)+

lemma pres_case_encoder_pc [pres_intros]:
  "pres P f0 \<Longrightarrow> (\<And>v. pres P (f1 v)) \<Longrightarrow> (\<And>v. pres P (f2 v)) \<Longrightarrow> (\<And>v. pres P (f3 v)) \<Longrightarrow>
   pres P (case pc of EncoderTop \<Rightarrow> f0 | InRoom v \<Rightarrow> f1 v | InLight v \<Rightarrow> f2 v | InHome v \<Rightarrow> f3 v)"
  by (cases pc) simp_all

lemma pres_encoder_step: "wf2 s \<Longrightarrow> pres wf2 (encoder_step E s)"
  unfolding encoder_step_def Let_def by (intro pres_intros) simp_all

subsection \<open>The tasks\<close>

lemma pres_last_b: "(\<And>h. wf_behavior h \<Longrightarrow> pres P (f h)) \<Longrightarrow> wf d \<Longrightarrow> pres P (andThen (last_b d) f)"
  unfolding last_b_def by (rule pres_then_rd) (auto dest: wf_sizes(7))

lemma pres_last_b_any [pres_intros]: "(\<And>h. pres P (f h)) \<Longrightarrow> pres P (andThen (last_b d) f)"
  by (rule pres_andThen [OF pres_True])

lemma pres_colour_lights [pres_intros]:
  assumes "\<And>l d. wf d \<Longrightarrow> pres wf2 (colour l d)"
  shows "wf d \<Longrightarrow> pres wf (colour_lights E colour d)"
  unfolding colour_lights_def by (intro pres_intros assms) simp_all

lemma pres_table_colour [pres_intros]: "wf d \<Longrightarrow> pres wf2 (table_colour i l d)"
  unfolding table_colour_def by (intro pres_intros) simp_all

lemma pres_random_colour [pres_intros]: "wf d \<Longrightarrow> pres wf2 (random_colour E l d)"
  by (simp add: random_colour_def random_byte_def Let_def pres_def)

lemma pres_send_update [pres_intros]: "wf d \<Longrightarrow> pres wf (send_update E d)"
  unfolding send_update_def by (intro pres_intros) simp_all

lemma pres_still_waiting [pres_intros]: "wf d \<Longrightarrow> pres wf2 (still_waiting E t d)"
  unfolding still_waiting_def by (intro pres_intros) simp_all

lemma pres_stop_behavior [pres_intros]: "wf d \<Longrightarrow> pres wf (stop_behavior E d)"
  unfolding stop_behavior_def by (intro pres_intros) simp_all

lemma pres_start_stream [pres_intros]: "wf d \<Longrightarrow> pres wf2 (start_stream E d)"
  unfolding start_stream_def by (intro pres_intros wf_initEntertainmentMode) simp_all

lemma pres_case_behavior_pc [pres_intros]:
  "pres P f0 \<Longrightarrow> (\<And>i. pres P (f1 i)) \<Longrightarrow> (\<And>i t. pres P (f2 i t)) \<Longrightarrow> (\<And>t. pres P (f3 t)) \<Longrightarrow>
   (\<And>i. pres P (f4 i)) \<Longrightarrow> pres P f5 \<Longrightarrow> pres P f6 \<Longrightarrow>
   pres P (case pc of BIdle \<Rightarrow> f0 | BTrain i \<Rightarrow> f1 i | BTrainWait i t \<Rightarrow> f2 i t | BAlarmWait t \<Rightarrow> f3 t
     | BAlarm i \<Rightarrow> f4 i | BParty \<Rightarrow> f5 | BDone \<Rightarrow> f6)"
  by (cases pc) simp_all

lemma pres_behavior_step: "wf2 s \<Longrightarrow> pres wf2 (behavior_step E s)"
  unfolding behavior_step_def by (intro pres_intros) simp_all

lemma pres_updateBehaviors_round: "wf d \<Longrightarrow> pres wf2 (updateBehaviors_round d)"
  unfolding updateBehaviors_round_def Let_def updateAlarmLightsEntries_def updateBlinkingLightsEntries_def
  by (intro pres_intros) simp_all

subsection \<open>The firmware\<close>

lemma act_wf:
  assumes "env_ok E" "wf (dev_of s)" "act E a s = Inr s'"
  shows "wf (dev_of s')"
proof -
  note w = assms(2)
  have "pres (\<lambda>s. wf (dev_of s)) (act E a s)"
    by (cases a) (auto simp: act_def split_beta wf2_def [symmetric] intro!: pres_Inr w
        pres_andThen [OF pres_touchEvent [OF assms(1) w]] pres_andThen [OF pres_firebaseTask_round [OF w]]
        pres_andThen [OF pres_drawBattery_round [OF w]] pres_andThen [OF pres_updateBehaviors_round [OF w]]
        pres_andThen [OF pres_behavior_step [OF wf2I [OF w]]] pres_andThen [OF pres_encoder_step [OF wf2I [OF w]]])
  then show ?thesis using assms(3) by (rule presD)
qed

lemma reachable_wf:
  assumes "env_ok E" "reachable E s"
  shows "wf (dev_of s)"
  using assms(2)
proof induction
  case (reach_start d)
  then show ?case
    using pres_setup_device [OF assms(1) boot_state_wf] by (simp add: started_def pres_def)
next
  case (reach_step s a s')
  then show ?case using act_wf [OF assms(1)] by blast
qed

end
