(* ===== verification/Bridge.thy ===== *)
theory Bridge
  imports Hue Worlds
begin

section \<open>What goes to the bridge and what comes back\<close>

text \<open>
  The contract of a command to the bridge (one PUT request, nothing else changed), met by the
  methods of theory Hue, and what follows from it; the requests and results of the methods that
  read lights and groups.
\<close>

subsection \<open>Commands\<close>

text \<open>
  A command appends its events to the trace and changes nothing else. \<open>all_groups\<close> is a client
  of this contract.
\<close>

locale bridge_command =
  fixes cmd :: "env \<Rightarrow> u8 \<Rightarrow> dev \<Rightarrow> string \<times> dev"
    and sent :: "dev \<Rightarrow> u8 \<Rightarrow> event list"
  assumes cmd_trace: "snd (cmd E i d) = d\<lparr>out := out d @ sent d i\<rparr>"
    and sent_out: "sent (d\<lparr>out := es\<rparr>) i = sent d i"
begin

lemma loop_trace:
  assumes "k \<le> length (groupIds d)"
  shows "forr [0..<k] (\<lambda>i d. andThen (rd (groupIds d) (int i))
      (\<lambda>s. Inr (delay_ms 1000 (snd (cmd E (word_of_int (atol s)) d))))) d =
    Inr (d\<lparr>out := out d @ concat (map (\<lambda>i. sent d (word_of_int (atol (groupIds d ! i))) @ [Delay 1000])
      [0..<k])\<rparr>)"
  using assms
proof (induction k)
  case (Suc k)
  then show ?case
    by (simp add: forr_append cmd_trace sent_out delay_ms_def emit_def)
qed simp

lemma all_groups_trace:
  assumes "unat (numGroups d) \<le> length (groupIds d)"
  shows "all_groups E cmd d = Inr (d\<lparr>out := out d @ [Http GET (api_base d @ ''/groups'') '''', Delay 1000] @
    concat (map (\<lambda>i. sent d (word_of_int (atol (groupIds d ! i))) @ [Delay 1000])
      [0..<unat (numGroups d)])\<rparr>)"
proof -
  define t where "t = d\<lparr>out := out d @ [Http GET (api_base d @ ''/groups'') '''', Delay 1000]\<rparr>"
  have t: "delay_ms 1000 (snd (getGroups_raw E d)) = t"
    by (simp add: t_def getGroups_raw_def get_request_def http_request_def emit_def delay_ms_def
        Let_def split: prod.split)
  have "unat (numGroups t) \<le> length (groupIds t)" using assms by (simp add: t_def)
  then have "forr [0..<unat (numGroups t)] (\<lambda>i d. andThen (rd (groupIds d) (int i))
      (\<lambda>s. Inr (delay_ms 1000 (snd (cmd E (word_of_int (atol s)) d))))) t =
    Inr (t\<lparr>out := out t @ concat (map (\<lambda>i. sent t (word_of_int (atol (groupIds t ! i))) @ [Delay 1000])
      [0..<unat (numGroups t)])\<rparr>)"
    by (rule loop_trace)
  then show ?thesis by (simp add: all_groups_def t) (simp add: t_def sent_out)
qed

end

lemma put_trace: "snd (put_request E url body d) = d\<lparr>out := out d @ [Http PUT url body]\<rparr>"
  by (simp add: put_request_def http_request_def emit_def Let_def split: prod.split)

lemma get_trace: "snd (get_request E url d) = d\<lparr>out := out d @ [Http GET url '''']\<rparr>"
  by (simp add: get_request_def http_request_def emit_def Let_def split: prod.split)

lemma endpoint_out [simp]:
  "lightStateEndpoint (d\<lparr>out := es\<rparr>) i = lightStateEndpoint d i"
  "groupActionEndpoint (d\<lparr>out := es\<rparr>) i = groupActionEndpoint d i"
  "lightEndpoint (d\<lparr>out := es\<rparr>) i = lightEndpoint d i"
  "api_base (d\<lparr>out := es\<rparr>) = api_base d"
  by (simp_all add: lightStateEndpoint_def groupActionEndpoint_def lightEndpoint_def api_base_def)

interpretation light_on: bridge_command lightOn "\<lambda>d i. [Http PUT (lightStateEndpoint d i) LIGHT_ON]"
  by unfold_locales (simp_all add: lightOn_def put_trace)

interpretation light_off: bridge_command lightOff "\<lambda>d i. [Http PUT (lightStateEndpoint d i) LIGHT_OFF]"
  by unfold_locales (simp_all add: lightOff_def put_trace)

interpretation group_on: bridge_command groupOn "\<lambda>d i. [Http PUT (groupActionEndpoint d i) LIGHT_ON]"
  by unfold_locales (simp_all add: groupOn_def put_trace)

interpretation group_off: bridge_command groupOff "\<lambda>d i. [Http PUT (groupActionEndpoint d i) LIGHT_OFF]"
  by unfold_locales (simp_all add: groupOff_def put_trace)

interpretation light_flash: bridge_command flash
  "\<lambda>d i. [Http PUT (lightStateEndpoint d i) (alert_body ''select''), Delay 800]"
  by unfold_locales (simp_all add: flash_def split_beta put_trace delay_ms_def emit_def)

interpretation group_flash: bridge_command groupFlash
  "\<lambda>d i. [Http PUT (groupActionEndpoint d i) (alert_body ''select''), Delay 800]"
  by unfold_locales (simp_all add: groupFlash_def split_beta put_trace delay_ms_def emit_def)

subsection \<open>Addresses\<close>

lemma String_uint_u8_inj: "String_uint (unat (i :: u8)) = String_uint (unat j) \<longleftrightarrow> i = j"
proof
  assume "String_uint (unat i) = String_uint (unat j)"
  then have "min (2 ^ 31 - 1) (int (unat i)) = min (2 ^ 31 - 1) (int (unat j))"
    by (metis atol_String_uint)
  moreover have "uint i < 256" "uint j < 256"
    using unsigned_less [of i] unsigned_less [of j] by simp_all
  ultimately show "i = j" by (auto simp: min_def word_uint_eq_iff split: if_splits)
qed simp

text \<open>
  Switching a lamp or a group sends exactly one request and changes nothing else; requests
  for two different lamps, or for a lamp and a group, never go to the same address, and the bodies
  for on and off differ.
\<close>

lemma light_commands:
  "snd (lightOn E i d) = d\<lparr>out := out d @ [Http PUT (lightStateEndpoint d i) LIGHT_ON]\<rparr> \<and>
   snd (lightOff E i d) = d\<lparr>out := out d @ [Http PUT (lightStateEndpoint d i) LIGHT_OFF]\<rparr> \<and>
   snd (groupOn E i d) = d\<lparr>out := out d @ [Http PUT (groupActionEndpoint d i) LIGHT_ON]\<rparr> \<and>
   snd (groupOff E i d) = d\<lparr>out := out d @ [Http PUT (groupActionEndpoint d i) LIGHT_OFF]\<rparr> \<and>
   (lightStateEndpoint d i = lightStateEndpoint d j \<longleftrightarrow> i = j) \<and>
   (groupActionEndpoint d i = groupActionEndpoint d j \<longleftrightarrow> i = j) \<and>
   lightStateEndpoint d i \<noteq> groupActionEndpoint d j \<and> LIGHT_ON \<noteq> LIGHT_OFF"
proof -
  have "lightStateEndpoint d i \<noteq> groupActionEndpoint d j"
    by (simp add: lightStateEndpoint_def groupActionEndpoint_def)
  then show ?thesis
    by (simp add: light_on.cmd_trace light_off.cmd_trace group_on.cmd_trace group_off.cmd_trace
        lightStateEndpoint_def groupActionEndpoint_def String_uint_u8_inj light_bodies)
qed

subsection \<open>Colour temperature\<close>

lemma ct_of_temp_eq: "ct_of_temp t = word_of_int ((uint t - 2000) * 347 sdiv 4500 + 153)"
  by (simp add: ct_of_temp_def map_arduino_def)

lemma sdiv_pos: "0 < (b::int) \<Longrightarrow> a sdiv b = (if 0 \<le> a then a div b else - (- a div b))"
  by (cases "a = 0") (auto simp: signed_divide_int_def sgn_if)

lemma ct_range:
  fixes t :: u16
  shows "(ct_of_temp t > 500 \<or> ct_of_temp t < 153) \<longleftrightarrow> t < 1988 \<or> 6512 < t"
proof -
  define x where "x = uint t"
  have x: "0 \<le> x" "x < 65536" using unsigned_less [of t] by (simp_all add: x_def)
  define v where "v = (x - 2000) * 347 sdiv 4500 + 153"
  have lo: "x < 2000 \<Longrightarrow> v = 153 - (2000 - x) * 347 div 4500"
    by (simp add: v_def sdiv_pos algebra_simps)
  have hi: "2000 \<le> x \<Longrightarrow> v = 153 + (x - 2000) * 347 div 4500"
    by (simp add: v_def sdiv_pos)
  have v: "- 2 \<le> v" "v < 65536" using lo hi x by (cases "x < 2000"; simp; linarith)+
  have "(v + 65536) mod 65536 = v + 65536" if "v < 0"
    using v that by (intro mod_pos_pos_trivial) auto
  then have wrap: "v mod 65536 = (if v < 0 then v + 65536 else v)" using v by simp
  have u: "uint (ct_of_temp t) = v mod 65536"
    unfolding ct_of_temp_eq v_def x_def uint_word_of_int by simp
  have "(ct_of_temp t > 500 \<or> ct_of_temp t < 153) \<longleftrightarrow> v mod 65536 > 500 \<or> v mod 65536 < 153"
    by (simp add: word_less_def u)
  also have "\<dots> \<longleftrightarrow> v > 500 \<or> v < 153"
    using wrap v by auto
  also have "\<dots> \<longleftrightarrow> x < 1988 \<or> 6512 < x"
    using lo hi by (cases "x < 2000"; simp; linarith)
  also have "\<dots> \<longleftrightarrow> t < 1988 \<or> 6512 < t"
    by (simp add: word_less_def x_def)
  finally show ?thesis .
qed

text \<open>
  \<open>colorTemp\<close> sends a request exactly for the temperatures from 1988 to 6512 (rounding lets a
  few values beyond the documented 2000 to 6500 pass), and the value it sends is in the bridge's
  range 153 to 500; for any other temperature it changes nothing.
\<close>

lemma colorTemp_sends:
  "snd (colorTemp E i t d) =
     (if 1988 \<le> t \<and> t \<le> 6512
      then d\<lparr>out := out d @ [Http PUT (lightStateEndpoint d i) (ct_body (ct_of_temp t))]\<rparr> else d) \<and>
   (1988 \<le> t \<and> t \<le> 6512 \<longleftrightarrow> 153 \<le> ct_of_temp t \<and> ct_of_temp t \<le> 500)"
  using ct_range [of t] by (auto simp: colorTemp_def Let_def put_trace not_less)

subsection \<open>Reading lamps and groups\<close>

lemma store_members_spec:
  "i \<le> length xs \<Longrightarrow> store_members f i ms xs =
   (if i + length ms \<le> length xs then Inr (take i xs @ map f ms @ drop (i + length ms) xs)
    else Inl OutOfBounds)"
proof (induction ms arbitrary: i xs)
  case (Cons m ms)
  show ?case
  proof (cases "i < length xs")
    case True
    then show ?thesis
      using Cons.IH [of "Suc i" "xs[i := f m]"]
      by (auto simp: take_Suc_conv_app_nth list_update_beyond)
  next
    case False
    with Cons.prems have "i = length xs" by simp
    then show ?thesis by (simp add: wr_def)
  qed
qed simp

text \<open>
  \<open>getGroups\<close> asks once, and stores the groups of the answer in order from the start of
  \<open>rooms\<close>, leaving the rest of the array as it was. The count it keeps is one less than the number
  of groups, modulo 256 (so 255 for an answer without groups); an
  answer with more groups than \<open>rooms\<close> has places writes past the array.
\<close>

lemma getGroups_result:
  "getGroups E d =
   (let request = Http GET (api_base d @ ''/groups'') '''';
        groups = as_object (parse_doc E (snd (env_http E (out d @ [request])))); n = length groups
    in if n \<le> length (rooms d)
       then Inr (d\<lparr>out := out d @ [request],
              rooms := map (room_of_member E) groups @ drop n (rooms d),
              roomsCount := of_nat n - 1, roomPagination := (of_nat n - 1 > (4 :: u8))\<rparr>)
       else Inl OutOfBounds)"
  by (simp add: getGroups_def getGroups_raw_def get_request_def http_request_def emit_def Let_def
      split_beta store_members_spec)

lemma get_request_pair:
  "get_request E url d = (snd (env_http E (out d @ [Http GET url ''''])), d\<lparr>out := out d @ [Http GET url '''']\<rparr>)"
  by (simp add: get_request_def http_request_def emit_def Let_def split_beta)

definition light_requests :: "dev \<Rightarrow> u8 list \<Rightarrow> nat \<Rightarrow> event list" where
  "light_requests d ids k = map (\<lambda>i. Http GET (lightEndpoint d (ids ! i)) '''') [0..<k]"

lemma light_requests_Suc:
  "light_requests d ids (Suc k) = light_requests d ids k @ [Http GET (lightEndpoint d (ids ! k)) '''']"
  by (simp add: light_requests_def)

definition light_read :: "env \<Rightarrow> dev \<Rightarrow> u8 list \<Rightarrow> nat \<Rightarrow> light" where
  "light_read E d ids i = light_of_answer E (ids ! i)
     (parse_doc E (snd (env_http E (out d @ light_requests d ids (Suc i)))))"

lemma light_states_upto:
  assumes "k \<le> length ids" "k \<le> length ls"
  shows "forr [0..<k] (getLightState E ids) (ls, d) =
    Inr (map (light_read E d ids) [0..<k] @ drop k ls, d\<lparr>out := out d @ light_requests d ids k\<rparr>)"
  using assms
proof (induction k)
  case 0
  then show ?case by (simp add: light_requests_def)
next
  case (Suc k)
  have "lightEndpoint (d\<lparr>out := es\<rparr>) i = lightEndpoint d i" for es i by simp
  then show ?case
    using Suc
    by (simp add: forr_append forr_single getLightState_def get_request_pair light_requests_Suc
        light_read_def wr_def list_update_append Cons_nth_drop_Suc [symmetric] split_beta)
qed

lemma light_states_beyond:
  assumes "length ids < unat n \<or> length ls < unat n"
  shows "getLightStates E ls ids n d = Inl OutOfBounds"
proof -
  define k where "k = min (length ids) (length ls)"
  have k: "k < unat n" using assms by (auto simp: k_def)
  then have split: "[0..<unat n] = [0..<k] @ k # [Suc k..<unat n]"
    by (metis le_add1 le_add_diff_inverse less_imp_le_nat plus_nat.add_0 upt_add_eq_append upt_conv_Cons)
  have "forr [0..<k] (getLightState E ids) (ls, d) =
      Inr (map (light_read E d ids) [0..<k] @ drop k ls, d\<lparr>out := out d @ light_requests d ids k\<rparr>)"
    by (rule light_states_upto) (simp_all add: k_def)
  moreover have "getLightState E ids k (map (light_read E d ids) [0..<k] @ drop k ls, t) = Inl OutOfBounds" for t
    by (cases "k < length ids") (auto simp: getLightState_def get_request_pair rd_def wr_def k_def)
  ultimately show ?thesis by (simp add: getLightStates_def split forr_append)
qed

text \<open>
  C37: \<open>getLightStates\<close> asks for the lamps one by one in the order of their numbers; the state
  read for the number at index \<open>i\<close> is stored at index \<open>i\<close>, the other places of the array and the
  rest of the device are left alone. A count beyond one of the arrays (20 numbers per room, 50 lamps)
  makes it access memory outside.
\<close>

theorem getLightStates_result:
  "getLightStates E ls ids n d =
    (if unat n \<le> length ids \<and> unat n \<le> length ls
     then Inr (map (light_read E d ids) [0..<unat n] @ drop (unat n) ls,
            d\<lparr>out := out d @ map (\<lambda>i. Http GET (lightEndpoint d (ids ! i)) '''') [0..<unat n]\<rparr>)
     else Inl OutOfBounds)"
  using light_states_upto [of "unat n" ids ls E d] light_states_beyond [of ids n ls E d]
  by (auto simp: getLightStates_def light_requests_def not_le)

text \<open>
  The hue, saturation and colour temperature of a lamp are kept in bytes; a value from the
  bridge above 255 (a hue goes up to 65535, a colour temperature from 153 to 500) becomes 0.
\<close>

lemma hue_lost:
  "255 < h \<Longrightarrow> 255 < c \<Longrightarrow>
   light_of_answer E i (JObject [(''state'', JObject [(''on'', JBool True), (''hue'', JPos h), (''ct'', JPos c)]),
     (''name'', JString nm), (''productname'', JString ''Hue color lamp'')]) = l \<Longrightarrow>
   lhue l = 0 \<and> lct l = 0 \<and> lon l \<and> lname l = nm \<and> lid l = i \<and> \<not> onlyDimmable l"
  by (auto simp: light_of_answer_def Let_def member_def as_string_def as_u8_overflow as_bool_def)

text \<open>
  \<open>turnAllLightsOff\<close> sends, after one query of all groups, an off command to each of the first
  \<open>numGroups\<close> entries of \<open>groupIds\<close>, in order.
\<close>

lemma turnAllLightsOff_trace:
  assumes "unat (numGroups d) \<le> length (groupIds d)"
  shows "turnAllLightsOff E d = Inr (d\<lparr>out := out d @
    [Http GET (api_base d @ ''/groups'') '''', Delay 1000] @
    concat (map (\<lambda>i. [Http PUT (groupActionEndpoint d (word_of_int (atol (groupIds d ! i)))) LIGHT_OFF,
                      Delay 1000]) [0..<unat (numGroups d)])\<rparr>)"
  using group_off.all_groups_trace [OF assms] by (simp add: turnAllLightsOff_def)

end
