(* ===== verification/Navigation.thy ===== *)
theory Navigation
  imports Reachability Bridge
begin

section \<open>Headers, the path of pages, and touches\<close>

text \<open>
  What a page's header does to the buttons and to the path of visited pages, when the path
  overflows, where \<open>goBack\<close> leads, and which handler a touch runs. All of it rests on the
  invariant \<open>wf\<close> of the reachable states.
\<close>

subsection \<open>The header\<close>

lemma wf_ui_parts:
  "wf d \<Longrightarrow> panel_ready (display d)" "wf d \<Longrightarrow> length (buttons d) = 30"
  "wf d \<Longrightarrow> length (pagePath d) = 10" "wf d \<Longrightarrow> 0 \<le> pagePageCounter d"
  "wf d \<Longrightarrow> pagePageCounter d \<le> 10"
  by (simp_all add: wf_defs)

lemma clearButtons_simps [simp]:
  "display (clearButtons d) = display d" "buttonCount (clearButtons d) = buttonCount d"
  "pagePath (clearButtons d) = pagePath d" "pagePageCounter (clearButtons d) = pagePageCounter d"
  "isGoingBack (clearButtons d) = isGoingBack d" "currentRoomID (clearButtons d) = currentRoomID d"
  "buttons (clearButtons d) = replicate (length (buttons d)) no_button"
  "prevHeaderText (clearButtons d) = prevHeaderText d"
  by (simp_all add: clearButtons_def)

definition header_buttons :: "string \<Rightarrow> dev \<Rightarrow> bool" where
  "header_buttons text d \<longleftrightarrow> buttonCount d = 2 \<and>
     btn_event (buttons d ! 0) = Some (if text = ''HJEM'' then EFetchData else EGoBack) \<and>
     btn_event (buttons d ! 1) = Some EDrawHomeFromHomeButton \<and>
     228 \<le> btn_y (buttons d ! 0) \<and> 228 \<le> btn_y (buttons d ! 1) \<and>
     (\<forall>k. 2 \<le> k \<and> k < 30 \<longrightarrow> buttons d ! k = no_button)"

definition frame_ok :: "dev \<Rightarrow> dev \<Rightarrow> bool" where
  "frame_ok d d' \<longleftrightarrow> out d' = out d \<and> behaviors d' = behaviors d \<and> lastBehaviorId d' = lastBehaviorId d \<and>
     lastBehavior d' = lastBehavior d \<and> currentLight d' = currentLight d \<and> currentRoom d' = currentRoom d \<and>
     rooms d' = rooms d \<and> lights d' = lights d \<and> currentRoomID d' = currentRoomID d \<and>
     pressedButton d' = pressedButton d \<and> uiLevel d' = uiLevel d \<and> fbdo d' = fbdo d \<and>
     calledFromEncoder d' = calledFromEncoder d \<and> startBehaviorNow d' = startBehaviorNow d \<and>
     fest d' = fest d \<and> tls d' = tls d \<and> lightCount d' = lightCount d \<and> allLightCount d' = allLightCount d"

lemma frame_ok_trans: "frame_ok d e \<Longrightarrow> frame_ok e f \<Longrightarrow> frame_ok d f"
  by (simp add: frame_ok_def)

definition page_entered :: "dev \<Rightarrow> dev \<Rightarrow> bool" where
  "page_entered d d' \<longleftrightarrow> \<not> isGoingBack d' \<and>
     (if isGoingBack d then pagePath d' = pagePath d \<and> pagePageCounter d' = pagePageCounter d
      else pagePath d' = (pagePath d)[nat (pagePageCounter d) := currentRoomID d] \<and>
           pagePageCounter d' = pagePageCounter d + 1)"

lemma header_effect:
  assumes "wf d" "isGoingBack d \<or> pagePageCounter d < 10"
  shows "\<exists>d'. drawHeader E text page False d = Inr d' \<and> wf d' \<and> header_buttons text d' \<and>
    currentPageOnScreen d' = text \<and> prevPage d' = Some page \<and> page_entered d d' \<and> frame_ok d d'"
proof -
  note parts = wf_ui_parts [OF assms(1)]
  define t where "t = (if isGoingBack d then clearButtons (d\<lparr>buttonCount := 0, isGoingBack := False\<rparr>)
     else clearButtons (d\<lparr>buttonCount := 0, pagePath := (pagePath d)[nat (pagePageCounter d) := currentRoomID d],
       pagePageCounter := pagePageCounter d + 1, isGoingBack := False\<rparr>))"
  have add: "addPageToPagePath (clearButtons (d\<lparr>buttonCount := 0\<rparr>)) = Inr t"
    using assms(2) parts by (auto simp: addPageToPagePath_def wr_in t_def clearButtons_def)
  have t: "panel_ready (display t)" "buttons t = replicate 30 no_button" "buttonCount t = 0"
    using parts by (simp_all add: t_def)
  have "page_entered d t" "frame_ok d t"
    by (simp_all add: t_def page_entered_def frame_ok_def clearButtons_def)
  have "\<exists>d'. drawHeader E text page False d = Inr d' \<and> header_buttons text d' \<and>
      currentPageOnScreen d' = text \<and> prevPage d' = Some page \<and> isGoingBack d' = isGoingBack t \<and>
      pagePath d' = pagePath t \<and> pagePageCounter d' = pagePageCounter t \<and> frame_ok t d'"
    using add t unfolding drawHeader_def nav_icon_def
    by (simp add: ui_simps Let_def header_buttons_def new_button_def nth_list_update frame_ok_def
        del: bitmap_width.simps bitmap_height.simps) (simp add: bitmap_dim_defs signed_divide_int_def)
  then obtain d' where d': "drawHeader E text page False d = Inr d'" "header_buttons text d'"
      "currentPageOnScreen d' = text" "prevPage d' = Some page" "isGoingBack d' = isGoingBack t"
      "pagePath d' = pagePath t" "pagePageCounter d' = pagePageCounter t" "frame_ok t d'" by blast
  have "wf d'" using presD [OF pres_drawHeader [OF assms(1)] d'(1)] .
  moreover have "page_entered d d'" "frame_ok d d'"
    using \<open>page_entered d t\<close> \<open>frame_ok d t\<close> d'(5-8) by (auto simp: page_entered_def intro: frame_ok_trans)
  ultimately show ?thesis using d' by blast
qed

text \<open>
  C14: drawing the header of a page succeeds exactly when the page is reached by going back or the
  path of pages has a free place. It then replaces all buttons by the two of the header (back, or
  refresh on the home page, and home) and, unless going back, appends the page to the path; when
  ten pages are on the path already, it writes past the end of the array.
\<close>

theorem header_result:
  assumes "wf d"
  shows "if isGoingBack d \<or> pagePageCounter d < 10
    then \<exists>d'. drawHeader E text page False d = Inr d' \<and> wf d' \<and> header_buttons text d' \<and>
      currentPageOnScreen d' = text \<and> prevPage d' = Some page \<and> page_entered d d'
    else drawHeader E text page False d = Inl OutOfBounds"
proof (cases "isGoingBack d \<or> pagePageCounter d < 10")
  case True
  then show ?thesis using header_effect [OF assms True, of E "text" page] by auto
next
  case False
  then show ?thesis using wf_ui_parts [OF assms]
    by (simp add: drawHeader_def addPageToPagePath_def wr_out)
qed

theorem header_result_witness:
  "drawHeader quiet ''HJEM'' EDrawHome False (boot_state\<lparr>pagePageCounter := 10\<rparr>) = Inl OutOfBounds \<and>
   (\<exists>d'. drawHeader quiet ''HJEM'' EDrawHome False boot_state = Inr d' \<and> pagePageCounter d' = 1)"
proof -
  have "wf (boot_state\<lparr>pagePageCounter := 10\<rparr>)"
    using boot_state_wf by (simp add: wf_defs)
  then show ?thesis
    using header_result [of "boot_state\<lparr>pagePageCounter := 10\<rparr>" quiet "''HJEM''" EDrawHome]
      header_result [OF boot_state_wf, of quiet "''HJEM''" EDrawHome]
    by (auto simp: boot_state_def page_entered_def)
qed

subsection \<open>Touches\<close>

text \<open>
  a touch runs the handler of the first button, in the order of the array, whose inside
  contains the point, with the button's number and its index, and records the button as pressed;
  a touch outside all buttons changes nothing; a button without a handler is a call through null.
\<close>

lemma touch_dispatch:
  assumes "buttonCount d \<le> int (length (buttons d))"
  shows "onTouchEvent E px py d =
    (case List.find (\<lambda>k. hit px py (buttons d ! k)) [0..<nat (buttonCount d)] of
       None \<Rightarrow> Inr (False, d)
     | Some k \<Rightarrow> (case btn_event (buttons d ! k) of
         None \<Rightarrow> Inl NullCall
       | Some h \<Rightarrow> andThen (invoke E h (btn_id (buttons d ! k)) (int k) (d\<lparr>pressedButton := buttons d ! k\<rparr>))
                    (\<lambda>d. Inr (True, d))))"
proof -
  have "touch_loop E px py ks d = (case List.find (\<lambda>k. hit px py (buttons d ! k)) ks of
       None \<Rightarrow> Inr (False, d)
     | Some k \<Rightarrow> (case btn_event (buttons d ! k) of
         None \<Rightarrow> Inl NullCall
       | Some h \<Rightarrow> andThen (invoke E h (btn_id (buttons d ! k)) (int k) (d\<lparr>pressedButton := buttons d ! k\<rparr>))
                    (\<lambda>d. Inr (True, d))))" if "\<forall>k \<in> set ks. k < length (buttons d)" for ks
    using that by (induction ks) auto
  moreover have "\<forall>k \<in> set [0..<nat (buttonCount d)]. k < length (buttons d)" using assms by auto
  ultimately show ?thesis unfolding onTouchEvent_def by blast
qed

end
