(* ===== verification/Startup.thy ===== *)
theory Startup
  imports Navigation Utils Worlds
begin

section \<open>Start-up and refresh\<close>

text \<open>
  The wait for the network ends. The refresh of all data, which is also the last part of the start-up,
  succeeds for every world whose answers fit the arrays of the application, and leaves the home page on
  the screen. So reachable states exist, and everything that holds of them is not vacuous.
\<close>

subsection \<open>The network\<close>

lemma connectToWiFi_bounds:
  assumes "keeps_time E T" "61 \<le> env_patience E"
  shows "\<exists>es. connectToWiFi E d = Inr (d\<lparr>out := out d @ es\<rparr>) \<and> T (out d @ es) \<le> T (out d) + 35500 \<and>
    (last es = WifiAutoReconnect \<and> env_wifi E (out d @ butlast es) \<or>
     last es \<noteq> WifiAutoReconnect \<and> T (out d @ [Millis]) + 30000 < T (out d @ es))"
proof -
  define o1 where "o1 = out d @ [Millis]"
  define o3 where "o3 = (o1 @ [WifiDisconnect]) @ [WifiBegin SSID SSID_PASSWORD]"
  have t: "T o1 \<le> T (out d) + 1000" "T o1 \<le> T o3" "T o3 \<le> T o1 + 2000"
    using keeps_timeD(2,3) [OF assms(1), of "out d" Millis] keeps_timeD(2,3) [OF assms(1), of o1 WifiDisconnect]
      keeps_timeD(2,3) [OF assms(1), of "o1 @ [WifiDisconnect]" "WifiBegin SSID SSID_PASSWORD"]
    by (simp_all add: o1_def o3_def)
  obtain b es where w: "wifi_wait E (env_patience E) (env_clock E o1) (d\<lparr>out := o3\<rparr>) = Inr (b, d\<lparr>out := o3 @ es\<rparr>)"
    "T (o3 @ es) \<le> T o1 + 33500" "\<not> b \<longrightarrow> T o1 + 30000 < T (o3 @ es)" "b \<longrightarrow> env_wifi E (o3 @ es)"
    "es \<noteq> []" "last es \<in> {WifiStatus, Millis}"
    using wifi_wait_ends [OF assms(1), of "env_clock E o1" "T o1" "d\<lparr>out := o3\<rparr>" "env_patience E"] t assms(2)
    by (auto simp: keeps_timeD(1) [OF assms(1)])
  have c: "connectToWiFi E d = Inr (if b then d\<lparr>out := o3 @ es @ [WifiAutoReconnect]\<rparr> else d\<lparr>out := o3 @ es\<rparr>)"
    using w(1) by (simp add: connectToWiFi_def millis_def Let_def emit_def o1_def o3_def)
  show ?thesis
  proof (cases b)
    case True
    have "T (o3 @ es @ [WifiAutoReconnect]) \<le> T (o3 @ es) + 1000"
      using keeps_timeD(3) [OF assms(1), of "o3 @ es" WifiAutoReconnect] by simp
    with True c w t show ?thesis
      by (intro exI [of _ "[Millis, WifiDisconnect, WifiBegin SSID SSID_PASSWORD] @ es @ [WifiAutoReconnect]"])
        (simp add: o1_def o3_def butlast_append)
  next
    case False
    with c w t show ?thesis
      by (intro exI [of _ "[Millis, WifiDisconnect, WifiBegin SSID SSID_PASSWORD] @ es"])
        (auto simp: o1_def o3_def)
  qed
qed


lemma connectToWiFi_total:
  "keeps_time E T \<Longrightarrow> 61 \<le> env_patience E \<Longrightarrow> \<exists>es. connectToWiFi E d = Inr (d\<lparr>out := es\<rparr>)"
  using connectToWiFi_bounds by blast

text \<open>
  with a clock that keeps time, waiting for the network ends: within 61 turns of the loop
  (35.5 seconds) the program goes on. It turns automatic reconnection on exactly when the station
  was connected in time, and gives up only after 30 seconds.
\<close>

lemma connectToWiFi_ends:
  assumes "keeps_time E T" "61 \<le> env_patience E"
  shows "\<exists>es. connectToWiFi E d = Inr (d\<lparr>out := out d @ es\<rparr>) \<and> T (out d @ es) \<le> T (out d) + 35500 \<and>
    (last es = WifiAutoReconnect \<and> env_wifi E (out d @ butlast es) \<or>
     last es \<noteq> WifiAutoReconnect \<and> T (out d @ [Millis]) + 30000 < T (out d @ es))"
  by (rule connectToWiFi_bounds [OF assms])

definition ticking :: "env \<Rightarrow> env" where
  "ticking E = E\<lparr>env_clock := (\<lambda>es. word_of_int (sum_list (map pause es)))\<rparr>"

lemma ticking_keeps_time: "keeps_time (ticking E) (\<lambda>es. sum_list (map pause es))"
  by (simp add: keeps_time_def ticking_def)

subsection \<open>Operations that succeed\<close>

definition yields :: "('a \<Rightarrow> bool) \<Rightarrow> 'a res \<Rightarrow> bool" where
  "yields P r \<longleftrightarrow> (\<exists>a. r = Inr a \<and> P a)"

lemma yields_Inr [simp]: "yields P (Inr a) = P a"
  by (simp add: yields_def)

lemma yields_Cons: "yields Q (c s) \<Longrightarrow> (\<And>t. Q t \<Longrightarrow> yields P (seqr cs t)) \<Longrightarrow> yields P (seqr (c # cs) s)"
  by (auto simp: yields_def)

lemma yields_andThen: "yields Q r \<Longrightarrow> (\<And>a. Q a \<Longrightarrow> yields P (f a)) \<Longrightarrow> yields P (andThen r f)"
  by (auto simp: yields_def)

lemma yields_forr:
  "Q s \<Longrightarrow> (\<And>i t. i \<in> set is \<Longrightarrow> Q t \<Longrightarrow> yields Q (c i t)) \<Longrightarrow> yields Q (forr is c s)"
proof (induction "is" arbitrary: s)
  case (Cons i "is")
  have "yields Q (c i s)" using Cons.prems by simp
  then have "yields Q (andThen (c i s) (forr is c))"
    by (rule yields_andThen) (use Cons in auto)
  then show ?case by simp
qed simp

definition ready_to_draw :: "dev \<Rightarrow> bool" where
  "ready_to_draw d \<longleftrightarrow> wf d \<and> fbdo d \<and> (isGoingBack d \<or> pagePageCounter d < 10)"

text \<open>An operation that keeps \<open>wf\<close> and does not touch the page path keeps \<open>ready_to_draw\<close>; the level of the
  interface changes only when the database answers.\<close>

definition level_kept :: "env \<Rightarrow> dev \<Rightarrow> dev \<Rightarrow> bool" where
  "level_kept E d e \<longleftrightarrow> ((\<forall>es. \<not> env_fb_now E es) \<longrightarrow> uiLevel e = uiLevel d)"

definition same_path :: "env \<Rightarrow> dev \<Rightarrow> dev \<Rightarrow> bool" where
  "same_path E d e \<longleftrightarrow> fbdo e = fbdo d \<and> isGoingBack e = isGoingBack d \<and>
     pagePageCounter e = pagePageCounter d \<and> level_kept E d e"

lemma yields_ready:
  "ready_to_draw d \<Longrightarrow> pres wf r \<Longrightarrow> yields (same_path E d) r \<Longrightarrow> yields ready_to_draw r"
  by (auto simp: yields_def ready_to_draw_def same_path_def level_kept_def pres_def)

definition fits_device :: "env \<Rightarrow> bool" where
  "fits_device E \<longleftrightarrow> (\<forall>es. let answer = parse_doc E (snd (env_http E es)) in
     length (as_object answer) \<le> 50 \<and> length (as_array (member answer ''lights'')) \<le> 20)"

definition answers :: "env \<Rightarrow> bool" where
  "answers E \<longleftrightarrow> (\<forall>es. env_fb_ready E es \<noteq> None) \<and> (\<forall>es. env_fb_date E es \<noteq> None)"

lemma wait_ready_answers: "answers E \<Longrightarrow> \<exists>n. wait_ready E d = Inr (emit (FbWait n) d)"
  by (auto simp: answers_def wait_ready_def split: option.split)

lemma getUserId_same: "answers E \<Longrightarrow> fbdo d \<Longrightarrow> yields (\<lambda>(_, e). same_path E d e) (getUserId E d)"
  using wait_ready_answers [of E d]
  by (auto simp: getUserId_def fb_get_def need_fbdo_def emit_def Let_def same_path_def level_kept_def)

lemma getNewIds_same:
  assumes "answers E" "fbdo d"
  shows "yields (same_path E d) (getNewIds E d)"
proof -
  have key: "yields (\<lambda>(_, t). same_path E e t) (getClientKey E e)" if "fbdo e" for e
    using that by (auto simp: getClientKey_def fb_get_def need_fbdo_def emit_def Let_def same_path_def level_kept_def)
  have set: "yields (\<lambda>(_, t). same_path E e t) (setUserId E s e)" "yields (\<lambda>(_, t). same_path E e t) (setClientKey E s e)"
    if "fbdo e" for e s
    using that by (auto simp: setUserId_def setClientKey_def fb_set_def need_fbdo_def emit_def Let_def same_path_def level_kept_def)
  have reg: "same_path E e (registerApp E u p e)" for e u p
    by (simp add: registerApp_def http_request_def emit_def Let_def same_path_def level_kept_def split: prod.split)
  show ?thesis unfolding getNewIds_def
  proof (rule yields_andThen [OF getUserId_same [OF assms]])
    fix s :: "string option \<times> dev"
    assume "case s of (_, e) \<Rightarrow> same_path E d e"
    then obtain u e where s: "s = (u, e)" "same_path E d e" by (cases s) simp
    then have e: "fbdo e" using assms(2) by (simp add: same_path_def level_kept_def)
    show "yields (same_path E d) (case s of (u, d) \<Rightarrow> case u of
        None \<Rightarrow> let d = registerApp E ''Simon'' (hueBridgeIP d) d in andThen (setUserId E (userId d) d)
             (\<lambda>(_, d). andThen (setClientKey E (clientKey d) d) (\<lambda>(_, d). Inr d))
      | Some s \<Rightarrow> andThen (getClientKey E (d\<lparr>userId := s\<rparr>))
          (\<lambda>(k, d). Inr (case k of Some s \<Rightarrow> d\<lparr>clientKey := s\<rparr> | None \<Rightarrow> d)))"
    proof (cases u)
      case None
      define r where "r = registerApp E ''Simon'' (hueBridgeIP e) e"
      have r: "same_path E e r" by (simp add: r_def reg)
      with e have "fbdo r" by (simp add: same_path_def level_kept_def)
      from set(1) [OF this, of "userId r"] obtain b t where t: "setUserId E (userId r) r = Inr (b, t)" "same_path E r t"
        by (auto simp: yields_def)
      with \<open>fbdo r\<close> have "fbdo t" by (simp add: same_path_def level_kept_def)
      from set(2) [OF this, of "clientKey t"] obtain b' t' where "setClientKey E (clientKey t) t = Inr (b', t')" "same_path E t t'"
        by (auto simp: yields_def)
      with None s r t show ?thesis by (simp add: Let_def r_def [symmetric] same_path_def level_kept_def)
    next
      case (Some v)
      have "fbdo (e\<lparr>userId := v\<rparr>)" using e by simp
      from key [OF this] obtain k t where
        "getClientKey E (e\<lparr>userId := v\<rparr>) = Inr (k, t)" "same_path E e t"
        by (auto simp: yields_def same_path_def level_kept_def)
      with Some s show ?thesis by (simp add: same_path_def level_kept_def split: option.split)
    qed
  qed
qed

lemma getUILevel_same: "answers E \<Longrightarrow> fbdo d \<Longrightarrow> yields (same_path E d) (getUILevel E d)"
  using wait_ready_answers [of E d]
  by (auto simp: getUILevel_def fb_get_def need_fbdo_def emit_def Let_def same_path_def level_kept_def fb_is_ready_def
      split: option.split fb_value.split)

lemma fill_entries_total: "length es = 500 \<Longrightarrow> \<exists>es'. fill_entries n es = Inr es'"
proof -
  have "unat n < 256" using unsigned_less [of n] by simp
  then show "\<exists>es'. fill_entries n es = Inr es'" if "length es = 500"
    using fill_entries_spec [of n es] that by simp
qed

lemma same_path_discoverBridges: "same_path E d (snd (discoverBridges E d))"
  by (simp add: discoverBridges_def emit_def Let_def same_path_def level_kept_def split: option.split)

lemma initBehaviors_same:
  assumes "env_ok E" "wf d"
  shows "yields (same_path E d) (initBehaviors E d)"
proof -
  have "length (entries (junk_behavior E)) = 500"
    using assms(1) by (simp add: env_ok_def wf_behavior_def)
  note total = fill_entries_total [OF this]
  obtain es1 es2 where es:
    "fill_entries (word_of_int (blinkingLightsEntries d)) (entries (junk_behavior E)) = Inr es1"
    "fill_entries (word_of_int (alarmEntries d)) (entries (junk_behavior E)) = Inr es2"
    using total by meson
  have "length (behaviors d) = 20" "festDelay d \<noteq> 0" using assms(2) by (auto simp: wf_defs)
  with es show ?thesis
    by (simp add: initBehaviors_def createRepeatingBehavior_def createTimebasedBehavior_def
        createTransitionBehavior_def Let_def put_behavior_def wr_in same_path_def level_kept_def)
qed

subsection \<open>The home page\<close>

text \<open>The buttons of the home page: refresh and home, and from level 2 on the rooms, at level 3 the behaviours.\<close>

definition home_handlers :: "int \<Rightarrow> handler list" where
  "home_handlers l = [EFetchData, EDrawHomeFromHomeButton] @
     (if l \<ge> 2 then [EDrawAllGroups] else []) @ (if l = 3 then [EDrawAllBehaviors] else [])"

definition shows_home :: "dev \<Rightarrow> bool" where
  "shows_home d \<longleftrightarrow> currentPageOnScreen d = ''HJEM'' \<and> prevPage d = Some EDrawHome \<and>
     map btn_event (take (nat (buttonCount d)) (buttons d)) = map Some (home_handlers (uiLevel d))"

lemma fits_behavior: "fits (Some BehaviorBitmap) (bitmap_width BehaviorBitmap) (bitmap_width BehaviorBitmap)"
  by (simp add: fits_def bitmap_dim_defs bitmap_data_length)

lemma drawHome_effect:
  assumes "wf d" "isGoingBack d \<or> pagePageCounter d < 10" "1 \<le> uiLevel d"
  shows "yields (\<lambda>e. wf e \<and> fbdo e = fbdo d \<and> shows_home e \<and> uiLevel e = uiLevel d \<and> \<not> isGoingBack e \<and>
    pagePageCounter e = (if isGoingBack d then pagePageCounter d else pagePageCounter d + 1)) (drawHome E d)"
proof -
  define d1 where "d1 = append_action E touchScreenInteraction navigate ''drawHome'' d"
  have w1: "wf d1" "fbdo d1 = fbdo d" "uiLevel d1 = uiLevel d" "isGoingBack d1 = isGoingBack d"
    "pagePageCounter d1 = pagePageCounter d"
    using assms(1) by (simp_all add: d1_def)
  obtain m where m: "rd (rooms d1) 1 = Inr m" "wf_room m"
    using w1(1) by (auto simp: wf_defs rd_in)
  define d2 where "d2 = (if uiLevel d = 1 then goto 1 (set_screen ''HOME'' d1)\<lparr>currentRoom := m\<rparr>
    else goto drawHomeID (set_screen ''HOME'' d1))"
  have w2: "wf d2" "fbdo d2 = fbdo d" "uiLevel d2 = uiLevel d" "isGoingBack d2 = isGoingBack d"
    "pagePageCounter d2 = pagePageCounter d"
    using w1 m(2) by (auto simp: d2_def goto_def set_screen_def wf_currentRoom)
  have "isGoingBack d2 \<or> pagePageCounter d2 < 10"
    using assms(2) w2 by simp
  from header_effect [OF w2(1) this, of E "''HJEM''" EDrawHome] obtain d3 where
    d3: "drawHeader E ''HJEM'' EDrawHome False d2 = Inr d3" "wf d3" "header_buttons ''HJEM'' d3"
      "currentPageOnScreen d3 = ''HJEM''" "prevPage d3 = Some EDrawHome" "page_entered d2 d3" "frame_ok d2 d3"
    by blast
  have p3: "panel_ready (display d3)" "length (buttons d3) = 30" "buttonCount d3 = 2" "uiLevel d3 = uiLevel d"
    "fbdo d3 = fbdo d" "\<not> isGoingBack d3" "btn_event (buttons d3 ! 0) = Some EFetchData"
    "btn_event (buttons d3 ! 1) = Some EDrawHomeFromHomeButton"
    "pagePageCounter d3 = (if isGoingBack d then pagePageCounter d else pagePageCounter d + 1)"
    using d3 wf_ui_parts [OF d3(2)] w2 by (simp_all add: header_buttons_def frame_ok_def page_entered_def)
  have split: "take 2 xs = [xs ! 0, xs ! 1]" "take 3 xs = [xs ! 0, xs ! 1, xs ! 2]"
    "take 4 xs = [xs ! 0, xs ! 1, xs ! 2, xs ! 3]" if "length xs = 30" for xs :: "button list"
    using that by (simp_all add: take_Suc_conv_app_nth numeral_eq_Suc)
  have "yields (\<lambda>e. fbdo e = fbdo d \<and> shows_home e \<and> uiLevel e = uiLevel d \<and> \<not> isGoingBack e \<and>
      pagePageCounter e = (if isGoingBack d then pagePageCounter d else pagePageCounter d + 1)) (drawHome E d)"
  proof (cases "uiLevel d = 1")
    case True
    then have "d2 = goto 1 (set_screen ''HOME'' d1)\<lparr>currentRoom := m\<rparr>" by (simp add: d2_def)
    with True d3(1,4,5) p3 m(1) w1(3) show ?thesis
      by (simp add: drawHome_def d1_def [symmetric] goto_def set_screen_def ui_simps shows_home_def
          home_handlers_def split)
  next
    case False
    with assms(3) d3(1,4,5) p3 w1(3) show ?thesis
      by (cases "uiLevel d = 3") (simp_all add: drawHome_def d1_def [symmetric] d2_def ui_simps shows_home_def
          home_handlers_def split new_button_def nth_list_update fits_behavior
          del: bitmap_width.simps bitmap_height.simps)
  qed
  moreover have "pres wf (drawHome E d)" using assms(1) by (rule pres_drawHome)
  ultimately show ?thesis by (auto simp: yields_def pres_def)
qed

subsection \<open>Refresh\<close>

lemma getLightStates_same:
  "unat n \<le> length ids \<Longrightarrow> unat n \<le> length ls \<Longrightarrow> 
   \<exists>ls' es. length ls' = length ls \<and> getLightStates E ls ids n d = Inr (ls', d\<lparr>out := es\<rparr>)"
  using light_states_upto [of "unat n" ids ls E d] unfolding getLightStates_def by fastforce

lemma store_members_total: "length ms \<le> length xs \<Longrightarrow> \<exists>ys. store_members f 0 ms xs = Inr ys"
  by (simp add: store_members_spec)

lemma getGroup_fits:
  assumes "fits_device E" "getGroup E i m d = (m', e)"
  shows "unat (rlightCounter m') \<le> 20 \<and> (\<exists>es. e = d\<lparr>out := es\<rparr>)"
proof -
  obtain a b where g: "getGroup_raw E i d = (a, b)" by (cases "getGroup_raw E i d")
  then have b: "\<exists>es. b = d\<lparr>out := es\<rparr>" and a: "\<exists>es. a = snd (env_http E es)"
    by (auto simp: getGroup_raw_def get_request_pair)
  define n where "n = length (as_array (member (parse_doc E a) ''lights''))"
  have "n \<le> 20" using assms(1) a by (auto simp: fits_device_def n_def Let_def)
  then have "unat (of_nat n :: u8) = n" by (intro u8_of_nat_unat) simp
  with \<open>n \<le> 20\<close> g b assms(2) show ?thesis by (auto simp: getGroup_def Let_def n_def)
qed

lemma fetchData_blocks:
  "fetchData E d = andThen (seqr
     [\<lambda>d. drawText (screen_width d sdiv 2) (screen_height d sdiv 2) 1 ''OPDATERER'' EPD_BLACK True d,
      ok (\<lambda>d. snd (discoverBridges E d)), getNewIds E] d)
   (\<lambda>d. andThen (seqr
     [ok (\<lambda>d. case getGroup E ENTERTAINMENT_ID (entertainmentRoom d) d of
        (m, d) \<Rightarrow> d\<lparr>entertainmentRoom := m\<rparr>),
      \<lambda>d. andThen (getLightStates E (entertainmentLights d) (rlightIds (entertainmentRoom d))
            (rlightCounter (entertainmentRoom d)) d) (\<lambda>(ls, d). Inr (d\<lparr>entertainmentLights := ls\<rparr>))] d)
   (\<lambda>d. andThen (seqr [getGroups E, getLightIds E] d)
   (\<lambda>d. andThen (seqr [firebaseEnd, ok fb_begin] d)
   (\<lambda>d. andThen (seqr [initBehaviors E, getUILevel E] d)
     (seqr [drawHome E, ok (\<lambda>d. d\<lparr>display := panel_update (display d)\<rparr>)])))))"
  unfolding fetchData_def seqr_append [symmetric] by (simp only: append.simps)

lemma fetchData_total:
  assumes "env_ok E" "answers E" "fits_device E" "wf d" "fbdo d" "isGoingBack d \<or> pagePageCounter d < 10"
  shows "\<exists>e. fetchData E d = Inr e \<and> wf e \<and> fbdo e \<and> level_kept E d e \<and> (1 \<le> uiLevel e \<longrightarrow> shows_home e \<and>
    pagePageCounter e = (if isGoingBack d then pagePageCounter d else pagePageCounter d + 1))"
proof -
  have start: "ready_to_draw d" using assms by (simp add: ready_to_draw_def)
  define P where "P e \<longleftrightarrow> ready_to_draw e \<and> isGoingBack e = isGoingBack d \<and> pagePageCounter e = pagePageCounter d \<and>
    level_kept E d e" for e
  have step: "yields P r" if "P t" "pres wf r" "yields (same_path E t) r" for t r
    using that by (auto simp: P_def yields_def ready_to_draw_def same_path_def level_kept_def pres_def)
  have stay: "P e" if "P t" "wf e" "same_path E t e" for t e
    using that by (auto simp: P_def ready_to_draw_def same_path_def level_kept_def)
  have wfP: "wf t" "fbdo t" "panel_ready (display t)" if "P t" for t
    using that wf_ui_parts(1) by (auto simp: P_def ready_to_draw_def)
  have groups: "yields (same_path E t) (getGroups E t)" "yields (same_path E t) (getLightIds E t)" if "P t" for t
  proof -
    have "length (rooms t) = 50" "length (lightIds t) = 50" using wfP(1) [OF that] by (simp_all add: wf_defs)
    then have fits: "length (as_object (parse_doc E (snd (env_http E es)))) \<le> length (rooms t)"
      "length (as_object (parse_doc E (snd (env_http E es)))) \<le> length (lightIds t)" for es
      using assms(3) by (simp_all add: fits_device_def Let_def)
    obtain f g where
      "store_members (room_of_member E) 0 (as_object (parse_doc E (snd (env_http E es)))) (rooms t) = Inr (f es)"
      "store_members (light_of_member E) 0 (as_object (parse_doc E (snd (env_http E es)))) (lightIds t) = Inr (g es)" for es
      using store_members_total [OF fits(1), of "room_of_member E"]
        store_members_total [OF fits(2), of "light_of_member E"] by metis
    then show "yields (same_path E t) (getGroups E t)" "yields (same_path E t) (getLightIds E t)"
      by (simp_all add: getGroups_def getLightIds_def getGroups_raw_def getLights_def get_request_pair
          Let_def same_path_def level_kept_def)
  qed
  have lamps: "yields P (seqr [ok (\<lambda>d. case getGroup E ENTERTAINMENT_ID (entertainmentRoom d) d of
        (m, d) \<Rightarrow> d\<lparr>entertainmentRoom := m\<rparr>),
      \<lambda>d. andThen (getLightStates E (entertainmentLights d) (rlightIds (entertainmentRoom d))
            (rlightCounter (entertainmentRoom d)) d) (\<lambda>(ls, d). Inr (d\<lparr>entertainmentLights := ls\<rparr>))] t)"
    if "P t" for t
  proof -
    note w = wfP(1) [OF that]
    obtain m e where g: "getGroup E ENTERTAINMENT_ID (entertainmentRoom t) t = (m, e)"
      by (cases "getGroup E ENTERTAINMENT_ID (entertainmentRoom t) t")
    from getGroup_wf [OF w wf_sizes(5) [OF w] g] getGroup_fits [OF assms(3) g] obtain es where
      m: "wf_room m" "unat (rlightCounter m) \<le> 20" "e = t\<lparr>out := es\<rparr>" by blast
    have "unat (rlightCounter m) \<le> length (rlightIds m)" "unat (rlightCounter m) \<le> length (entertainmentLights t)"
      using w m by (simp_all add: wf_defs wf_room_def)
    from getLightStates_same [OF this, of E "e\<lparr>entertainmentRoom := m\<rparr>"] obtain ls os where
      "length ls = length (entertainmentLights t)"
      "getLightStates E (entertainmentLights t) (rlightIds m) (rlightCounter m) (e\<lparr>entertainmentRoom := m\<rparr>) =
       Inr (ls, e\<lparr>entertainmentRoom := m, out := os\<rparr>)" by auto
    moreover from this(1) w m have "wf (t\<lparr>entertainmentRoom := m, out := os, entertainmentLights := ls\<rparr>)"
      by (simp add: wf_defs)
    ultimately show ?thesis using g m that
      by (simp add: stay [OF that] same_path_def level_kept_def)
  qed
  have find_bridge: "yields P (seqr
     [\<lambda>d. drawText (screen_width d sdiv 2) (screen_height d sdiv 2) 1 ''OPDATERER'' EPD_BLACK True d,
      ok (\<lambda>d. snd (discoverBridges E d)), getNewIds E] t)" if "P t" for t
  proof (intro yields_Cons [where Q = P])
    show "yields P (drawText (screen_width t sdiv 2) (screen_height t sdiv 2) 1 ''OPDATERER'' EPD_BLACK True t)"
      using wfP [OF that] by (simp add: ui_simps stay [OF that] wf_display same_path_def level_kept_def)
    show "yields P (ok (\<lambda>d. snd (discoverBridges E d)) t)" if "P t" for t
      using wfP [OF that]
      by (simp add: stay [OF that] same_path_discoverBridges)
    show "yields P (getNewIds E t)" if "P t" for t
      using wfP [OF that] by (intro step [OF that] pres_getNewIds getNewIds_same assms)
  qed simp
  have lists: "yields P (seqr [getGroups E, getLightIds E] t)" if "P t" for t
    by (intro yields_Cons [where Q = P])
      (use that in \<open>auto intro!: step groups pres_intros assms wfP\<close>)
  have connection: "yields P (seqr [firebaseEnd, ok fb_begin] t)" if "P t" for t
    using wfP [OF that] by (simp add: firebaseEnd_def need_fbdo_def fb_begin_def emit_def stay [OF that] same_path_def level_kept_def)
  have settings: "yields P (seqr [initBehaviors E, getUILevel E] t)" if "P t" for t
    by (intro yields_Cons [where Q = P])
      (use that in \<open>auto intro!: step pres_intros initBehaviors_same getUILevel_same assms wfP\<close>)
  have start: "P d" using start by (simp add: P_def level_kept_def)
  have home: "yields (\<lambda>e. wf e \<and> fbdo e \<and> level_kept E d e \<and> (1 \<le> uiLevel e \<longrightarrow> shows_home e \<and>
      pagePageCounter e = (if isGoingBack d then pagePageCounter d else pagePageCounter d + 1)))
      (seqr [drawHome E, ok (\<lambda>d. d\<lparr>display := panel_update (display d)\<rparr>)] t)" if "P t" for t
  proof (cases "1 \<le> uiLevel t")
    case True
    have "isGoingBack t \<or> pagePageCounter t < 10" using that by (auto simp: P_def ready_to_draw_def)
    from drawHome_effect [OF wfP(1) [OF that] this True, of E] wfP(2) [OF that] obtain e where
      e: "drawHome E t = Inr e" "wf e" "fbdo e" "shows_home e" "uiLevel e = uiLevel t"
        "pagePageCounter e = (if isGoingBack t then pagePageCounter t else pagePageCounter t + 1)"
      by (auto simp: yields_def)
    then show ?thesis using that by (simp add: P_def shows_home_def wf_display wf_ui_parts(1) level_kept_def)
  next
    case False
    then show ?thesis using that wfP [OF that]
      by (simp add: drawHome_def ui_simps P_def wf_display level_kept_def)
  qed
  have "yields (\<lambda>e. wf e \<and> fbdo e \<and> level_kept E d e \<and> (1 \<le> uiLevel e \<longrightarrow> shows_home e \<and>
    pagePageCounter e = (if isGoingBack d then pagePageCounter d else pagePageCounter d + 1))) (fetchData E d)"
    unfolding fetchData_blocks
    by (rule yields_andThen [OF find_bridge [OF start]], rule yields_andThen [OF lamps], assumption,
        rule yields_andThen [OF lists], assumption, rule yields_andThen [OF connection], assumption,
        rule yields_andThen [OF settings], assumption, rule home)
  then show ?thesis by (auto simp: yields_def)
qed

text \<open>
  C30: refreshing all data succeeds, and shows the home page with its buttons, in every world in which
  the database answers and the bridge reports at most 50 groups, 50 lamps and 20 lamps in the
  entertainment group, when the log has its connection and the path of pages has room. Only the
  database changes the level of the interface.
\<close>

theorem fetchData_succeeds:
  assumes "env_ok E" "answers E" "fits_device E" "wf d" "fbdo d" "isGoingBack d \<or> pagePageCounter d < 10"
  shows "\<exists>e. fetchData E d = Inr e \<and> wf e \<and> fbdo e \<and> level_kept E d e \<and> (1 \<le> uiLevel e \<longrightarrow> shows_home e \<and>
    pagePageCounter e = (if isGoingBack d then pagePageCounter d else pagePageCounter d + 1))"
  by (rule fetchData_total [OF assms])

lemma quiet_env: "env_ok quiet" "answers quiet" "fits_device quiet"
  by (simp_all add: env_ok_def answers_def fits_device_def quiet_def no_room_def no_behavior_def
      wf_room_def wf_behavior_def parse_doc_def deserialize_empty as_object_def as_array_def member_def)

theorem fetchData_succeeds_witness:
  "\<exists>e. fetchData quiet boot_state = Inr e \<and> wf e"
  using fetchData_succeeds [OF quiet_env boot_state_wf] by (auto simp: boot_state_def)

lemma setup_total:
  assumes "env_ok E" "answers E" "fits_device E" "keeps_time E T" "61 \<le> env_patience E"
  shows "\<exists>d. setup_device E boot_state = Inr d \<and> reachable E (started d) \<and> wf d \<and> fbdo d \<and>
    level_kept E boot_state d \<and> (1 \<le> uiLevel d \<longrightarrow> shows_home d \<and> pagePageCounter d = 1)"
proof -
  obtain es where w: "connectToWiFi E boot_state = Inr (boot_state\<lparr>out := es\<rparr>)"
    using connectToWiFi_total [OF assms(4,5)] by blast
  obtain u ip where b: "discoverBridges E (firebaseInit (boot_state\<lparr>out := es\<rparr>)) = (u, ip)" by fastforce
  define d1 where "d1 = hue_begin E (firebaseInit (boot_state\<lparr>out := es\<rparr>))"
  define d2 where "d2 = d1\<lparr>display := displayRotation 2 (fillScreen EPD_WHITE (display d1)),
    out := out d1 @ [TaskCreate ''encoder_task'', TaskCreate ''battery_task'', TaskCreate ''firebase_task'',
      TaskCreate ''behavior_task'']\<rparr>"
  have "wf (snd (discoverBridges E (firebaseInit (boot_state\<lparr>out := es\<rparr>))))"
    using boot_state_wf by (simp add: firebaseInit_def)
  then have d1: "wf d1" by (simp add: d1_def hue_begin_def split_beta)
  have "same_path E boot_state d1"
    using same_path_discoverBridges [of E "firebaseInit (boot_state\<lparr>out := es\<rparr>)"]
    by (simp add: d1_def hue_begin_def split_beta same_path_def level_kept_def firebaseInit_def emit_def)
  then have "fbdo d2" "pagePageCounter d2 = 0" "\<not> isGoingBack d2" and level: "level_kept E boot_state d2"
    by (simp_all add: same_path_def level_kept_def d2_def boot_state_def)
  moreover have "wf d2" unfolding d2_def
    using d1 wf_sizes(1) [OF d1] by (simp add: wf_display panel_ready_rotated)
  ultimately obtain d where d: "fetchData E d2 = Inr d" "wf d" "fbdo d"
    "1 \<le> uiLevel d \<longrightarrow> shows_home d \<and> pagePageCounter d = 1" "level_kept E d2 d"
    using fetchData_total [OF assms(1-3), of d2] by auto
  have s: "setup_device E boot_state = Inr (initEncoders d)"
    using w d(1) by (simp add: setup_device_def initEink_def d1_def [symmetric] emit_def d2_def)
  moreover have "wf (initEncoders d)" "fbdo (initEncoders d)" "uiLevel (initEncoders d) = uiLevel d"
    "shows_home (initEncoders d) = shows_home d" "pagePageCounter (initEncoders d) = pagePageCounter d"
    using d(2,3) by (simp_all add: initEncoders_def shows_home_def)
  moreover have "level_kept E boot_state (initEncoders d)"
    using level d(5) by (simp add: level_kept_def initEncoders_def)
  ultimately show ?thesis using d(4) reach_start [OF s] by auto
qed

text \<open>
  C2: with a clock that keeps time, an answering database and answers of the bridge that fit the arrays,
  the start-up ends without a fault; at the levels from 1 on the home page is shown with its buttons and
  is the only page on the path.
\<close>

theorem setup_succeeds:
  assumes "env_ok E" "answers E" "fits_device E" "keeps_time E T" "61 \<le> env_patience E"
  shows "\<exists>d. setup_device E boot_state = Inr d \<and> reachable E (started d) \<and> wf d \<and> fbdo d \<and>
    level_kept E boot_state d \<and> (1 \<le> uiLevel d \<longrightarrow> shows_home d \<and> pagePageCounter d = 1)"
  by (rule setup_total [OF assms])

lemma ticking_env:
  "env_ok (ticking E) = env_ok E" "answers (ticking E) = answers E" "fits_device (ticking E) = fits_device E"
  by (simp_all add: env_ok_def answers_def fits_device_def ticking_def parse_doc_def env_lib_def)

lemma patient_env:
  "env_ok (E\<lparr>env_patience := n\<rparr>) = env_ok E" "answers (E\<lparr>env_patience := n\<rparr>) = answers E"
  "fits_device (E\<lparr>env_patience := n\<rparr>) = fits_device E" "keeps_time (E\<lparr>env_patience := n\<rparr>) T = keeps_time E T"
  by (simp_all add: env_ok_def answers_def fits_device_def keeps_time_def parse_doc_def env_lib_def)

text \<open>A quiet world with a clock, in which the start-up succeeds.\<close>

definition calm :: env where
  "calm = (ticking quiet)\<lparr>env_patience := 100\<rparr>"

lemma calm_ok:
  "env_ok calm" "answers calm" "fits_device calm" "keeps_time calm (\<lambda>es. sum_list (map pause es))"
  "61 \<le> env_patience calm"
  using quiet_env ticking_keeps_time [of quiet] by (simp_all add: calm_def ticking_env patient_env)

lemma calm_start: "\<exists>d. reachable calm (started d) \<and> uiLevel d = 3"
proof -
  have "\<not> env_fb_now calm es" for es by (simp add: calm_def ticking_def quiet_def)
  moreover have "uiLevel boot_state = 3" by (simp add: boot_state_def)
  ultimately show ?thesis using setup_total [OF calm_ok] by (auto simp: level_kept_def)
qed

theorem setup_succeeds_witness:
  "\<exists>d. setup_device calm boot_state = Inr d \<and> reachable calm (started d) \<and> wf d"
  using setup_succeeds [OF calm_ok] by blast

end
