(* ===== verification/Lamp_Choice.thy ===== *)
theory Lamp_Choice
  imports Eink Bridge
begin

section \<open>Choosing the lamps of a behaviour\<close>

text \<open>
  What the loop of \<open>arrayShift\<close> computes, when it does not end, and that pressing a lamp twice
  takes back the choice.
\<close>

subsection \<open>\<open>arrayShift\<close>\<close>

lemma gap_upto:
  assumes "i \<le> m" "m < length a"
  shows "forr [i..<m] (\<lambda>k a. andThen (rd a (int (k + 1))) (\<lambda>x. wr a (int k) x)) a =
    Inr (take i a @ take (m - i) (drop (Suc i) a) @ drop m a)"
  using assms
proof (induction m)
  case (Suc m)
  show ?case
  proof (cases "i \<le> m")
    case True
    define c where "c = take i a @ take (m - i) (drop (Suc i) a) @ drop m a"
    have len: "length c = length a" using Suc.prems True by (simp add: c_def)
    have "\<not> Suc m - i < m - i" by linarith
    then have c: "c ! Suc m = a ! Suc m" using Suc.prems True by (simp add: c_def nth_append)
    have "c[m := a ! Suc m] = take i a @ take (Suc m - i) (drop (Suc i) a) @ drop (Suc m) a"
    proof -
      have "drop m a = a ! m # drop (Suc m) a" using Suc.prems by (simp add: Cons_nth_drop_Suc)
      moreover have "take (Suc m - i) (drop (Suc i) a) = take (m - i) (drop (Suc i) a) @ [a ! Suc m]"
        using Suc.prems True by (simp add: Suc_diff_le take_Suc_conv_app_nth)
      ultimately show ?thesis
        using Suc.prems True by (simp add: c_def list_update_append)
    qed
    then show ?thesis
      using Suc True len c rd_int [of "Suc m" c] wr_int [of m c "a ! Suc m"]
      by (simp add: forr_append forr_single c_def [symmetric] del: rd_int wr_int of_nat_Suc)
  next
    case False
    then have "i = Suc m" using Suc.prems by simp
    then show ?thesis by simp
  qed
qed simp

lemma close_gap_spec:
  assumes "i < n" "n \<le> length a"
  shows "close_gap i n a = Inr (take i a @ take (n - Suc i) (drop (Suc i) a) @ 0 # drop n a)"
proof -
  define c where "c = take i a @ take (n - 1 - i) (drop (Suc i) a) @ drop (n - 1) a"
  have "drop (n - 1) a = a ! (n - 1) # drop n a"
    using assms by (metis Cons_nth_drop_Suc One_nat_def Suc_pred less_eq_Suc_le less_imp_diff_less less_le_trans
        not_less_eq_eq zero_le)
  moreover have "\<not> n - Suc 0 < i" using assms by linarith
  ultimately have "c[n - 1 := 0] = take i a @ take (n - Suc i) (drop (Suc i) a) @ 0 # drop n a"
    using assms by (simp add: c_def list_update_append)
  moreover have "length c = length a" using assms by (simp add: c_def)
  ultimately have W: "wr c (int n - 1) 0 = Inr (take i a @ take (n - Suc i) (drop (Suc i) a) @ 0 # drop n a)"
    using assms wr_int [of "n - 1" c 0] by (simp add: of_nat_diff)
  have F: "forr [i..<n - 1] (\<lambda>k a. andThen (rd a (int (k + 1))) (\<lambda>x. wr a (int k) x)) a = Inr c"
    unfolding c_def by (rule gap_upto) (use assms in auto)
  show ?thesis unfolding close_gap_def by (simp only: F andThen_simps W)
qed

definition kept :: "int \<Rightarrow> u8 list \<Rightarrow> u8 list" where
  "kept v xs = filter (\<lambda>x. uint x \<noteq> v) xs @ replicate (length (filter (\<lambda>x. uint x = v) xs)) 0"

lemma kept_simps [simp]:
  "kept v [] = []" "uint x \<noteq> v \<Longrightarrow> kept v (x # xs) = x # kept v xs"
  "length (kept v xs) = length xs"
  using sum_length_filter_compl [of "\<lambda>x. uint x = v" xs] by (simp_all add: kept_def add.commute)

lemma kept_append_0: "v \<noteq> 0 \<Longrightarrow> kept v (x # xs) = (if uint x = v then kept v (xs @ [0]) else x # kept v xs)"
  by (simp add: kept_def replicate_append_same)

lemma shift_loop_spec:
  assumes "v \<noteq> 0" "i \<le> n" "n \<le> length a"
    and "n - i + length (filter (\<lambda>x. uint x = v) (take (n - i) (drop i a))) < fuel"
  shows "shift_loop fuel i n v a = Inr (take i a @ kept v (take (n - i) (drop i a)) @ drop n a)"
  using assms(2-4)
proof (induction fuel arbitrary: i a)
  case (Suc fuel)
  show ?case
  proof (cases "i < n")
    case False
    then show ?thesis using Suc.prems by simp
  next
    case True
    define s where "s = take (n - Suc i) (drop (Suc i) a)"
    have "drop i a = a ! i # drop (Suc i) a" using True Suc.prems by (simp add: Cons_nth_drop_Suc)
    then have seg: "take (n - i) (drop i a) = a ! i # s"
      using True by (simp add: s_def take_Cons' Suc_diff_Suc [symmetric] del: Suc_diff_Suc)
    have r: "rd a (int i) = Inr (a ! i)" using True Suc.prems by simp
    show ?thesis
    proof (cases "uint (a ! i) = v")
      case hit: True
      define a' where "a' = take i a @ s @ 0 # drop n a"
      have gap: "close_gap i n a = Inr a'"
        using close_gap_spec [OF True Suc.prems(2)] by (simp add: a'_def s_def)
      have len: "length s = n - Suc i" "length a' = length a"
        using True Suc.prems by (simp_all add: s_def a'_def)
      have parts: "take i a' = take i a" "take (n - i) (drop i a') = s @ [0]" "drop n a' = drop n a"
        using True Suc.prems len(1) by (simp_all add: a'_def)
      have "shift_loop fuel i n v a' = Inr (take i a' @ kept v (take (n - i) (drop i a')) @ drop n a')"
        using Suc.prems hit assms(1) len by (intro Suc.IH) (simp_all add: parts seg)
      then show ?thesis
        using True r hit gap kept_append_0 [OF assms(1), of "a ! i" s] by (simp add: parts seg)
    next
      case miss: False
      have "shift_loop fuel (Suc i) n v a =
          Inr (take (Suc i) a @ kept v (take (n - Suc i) (drop (Suc i) a)) @ drop n a)"
        using Suc.prems True miss seg by (intro Suc.IH) (simp_all add: s_def [symmetric])
      then show ?thesis
        using True r miss Suc.prems seg by (simp add: s_def [symmetric] take_Suc_conv_app_nth)
    qed
  qed
qed simp

lemma length_filter_le_seg: "length (filter P (take n a)) \<le> n"
  by (metis length_filter_le length_take min.cobounded2 order_trans)

text \<open>
  C22: for every value but 0, \<open>arrayShift\<close> ends and removes exactly the elements equal to the value
  from the first \<open>length\<close> places, keeping the order of the others and filling up with zeros; the
  rest of the array stays. For 0 the loop never ends if there is a zero among these places.
\<close>

theorem arrayShift_removes:
  assumes "unat n \<le> length a"
  shows "(v \<noteq> 0 \<longrightarrow> arrayShift a n v =
      Inr (filter (\<lambda>x. uint x \<noteq> v) (take (unat n) a) @
           replicate (length (filter (\<lambda>x. uint x = v) (take (unat n) a))) 0 @ drop (unat n) a)) \<and>
    (0 \<in> set (take (unat n) a) \<longrightarrow> (\<forall>fuel. shift_loop fuel 0 (unat n) 0 a = Inl Hang))"
proof (intro conjI impI allI)
  assume v: "v \<noteq> 0"
  have "unat n - 0 + length (filter (\<lambda>x. uint x = v) (take (unat n - 0) (drop 0 a))) < 2 * unat n + 1"
    using length_filter_le_seg [of "\<lambda>x. uint x = v" "unat n" a] by simp
  from shift_loop_spec [OF v _ assms this]
  show "arrayShift a n v =
      Inr (filter (\<lambda>x. uint x \<noteq> v) (take (unat n) a) @
           replicate (length (filter (\<lambda>x. uint x = v) (take (unat n) a))) 0 @ drop (unat n) a)"
    by (simp add: arrayShift_def kept_def)
next
  fix fuel
  have "shift_loop fuel i m 0 a = Inl Hang"
    if "m \<le> length a" "i < m" "0 \<in> set (take (m - i) (drop i a))" for i m and a :: "u8 list"
    using that
  proof (induction fuel arbitrary: i a)
    case (Suc fuel)
    define s where "s = take (m - Suc i) (drop (Suc i) a)"
    have "drop i a = a ! i # drop (Suc i) a" using Suc.prems by (simp add: Cons_nth_drop_Suc)
    then have seg: "take (m - i) (drop i a) = a ! i # s"
      using Suc.prems(2) by (simp add: s_def take_Cons' Suc_diff_Suc [symmetric] del: Suc_diff_Suc)
    have r: "rd a (int i) = Inr (a ! i)" using Suc.prems by simp
    have len: "length s = m - Suc i" using Suc.prems by (simp add: s_def)
    show ?case
    proof (cases "uint (a ! i) = 0")
      case True
      define a' where "a' = take i a @ s @ 0 # drop m a"
      have gap: "close_gap i m a = Inr a'"
        using close_gap_spec [OF Suc.prems(2,1)] by (simp add: a'_def s_def)
      have "take (m - i) (drop i a') = s @ [0]"
        using Suc.prems len by (simp add: a'_def)
      then have "shift_loop fuel i m 0 a' = Inl Hang"
        using Suc.prems len by (intro Suc.IH) (simp_all add: a'_def)
      then show ?thesis using Suc.prems(2) r True gap by simp
    next
      case False
      then have "a ! i \<noteq> 0" by auto
      with Suc.prems(3) seg have "0 \<in> set s" by simp
      then have "Suc i < m" using len by (cases s) auto
      then have "shift_loop fuel (Suc i) m 0 a = Inl Hang"
        using Suc.prems \<open>0 \<in> set s\<close> by (intro Suc.IH) (simp_all add: s_def)
      then show ?thesis using Suc.prems(2) r False by simp
    qed
  qed simp
  moreover assume z: "0 \<in> set (take (unat n) a)"
  moreover from z have "0 < unat n" by (cases "unat n") auto
  ultimately show "shift_loop fuel 0 (unat n) 0 a = Inl Hang" using assms by simp
qed

theorem arrayShift_removes_witness:
  "arrayShift [5, 7, 5, 9, 0] 4 5 = Inr [7, 9, 0, 0, 0]"
  using arrayShift_removes [of 4 "[5, 7, 5, 9, 0]" 5] by simp

subsection \<open>Pressing a lamp\<close>

definition chosen :: "dev \<Rightarrow> behavior" where
  "chosen d = behaviors d ! unat (lastBehaviorId d)"

definition pressable :: "nat \<Rightarrow> dev \<Rightarrow> bool" where
  "pressable k d \<longleftrightarrow> panel_ready (display d) \<and> k < length (buttons d) \<and>
     unat (lastBehaviorId d) < length (behaviors d) \<and>
     unat (blightCounter (chosen d)) \<le> length (blightIds (chosen d))"

definition pressed :: "nat \<Rightarrow> bool \<Rightarrow> behavior \<Rightarrow> dev \<Rightarrow> dev \<Rightarrow> bool" where
  "pressed k s h d d' \<longleftrightarrow> buttons d' = (buttons d)[k := (buttons d ! k)\<lparr>isSelected := s\<rparr>] \<and>
     behaviors d' = (behaviors d)[unat (lastBehaviorId d) := h] \<and>
     lastBehaviorId d' = lastBehaviorId d \<and> panel_ready (display d')"

lemma uint_rd: "unat (i :: u8) < length xs \<Longrightarrow> rd xs (uint i) = Inr (xs ! unat i)"
  by (metis rd_int uint_nat)

lemma uint_wr: "unat (i :: u8) < length xs \<Longrightarrow> wr xs (uint i) v = Inr (xs[unat i := v])"
  by (metis wr_int uint_nat)

lemma flash_frame [simp]:
  "snd (flash E i d) = d\<lparr>out := out d @ [Http PUT (lightStateEndpoint d i) (alert_body ''select''), Delay 800]\<rparr>"
  by (rule light_flash.cmd_trace)

lemma press_add:
  assumes "pressable k d" "\<not> isSelected (buttons d ! k)"
    and "unat (blightCounter (chosen d)) < length (blightIds (chosen d))"
  shows "\<exists>d'. selectLight E l (int k) d = Inr d' \<and> pressed k True ((chosen d)\<lparr>
      blightIds := (blightIds (chosen d))[unat (blightCounter (chosen d)) := word_of_int l],
      blightCounter := blightCounter (chosen d) + 1\<rparr>) d d'"
  using assms
  by (simp add: selectLight_def on_last_behavior_def chosen_def pressable_def uint_rd uint_wr
      put_behavior_def mark_selected_def frame_button_def log_button_def pressed_def ui_simps)

lemma press_remove:
  assumes "pressable k d" "isSelected (buttons d ! k)" "l \<noteq> 0"
  shows "\<exists>d'. selectLight E l (int k) d = Inr d' \<and> pressed k False ((chosen d)\<lparr>
      blightIds := kept l (take (unat (blightCounter (chosen d))) (blightIds (chosen d))) @
        drop (unat (blightCounter (chosen d))) (blightIds (chosen d)),
      blightCounter := blightCounter (chosen d) - 1\<rparr>) d d'"
proof -
  have "arrayShift (blightIds (chosen d)) (blightCounter (chosen d)) l =
      Inr (kept l (take (unat (blightCounter (chosen d))) (blightIds (chosen d))) @
        drop (unat (blightCounter (chosen d))) (blightIds (chosen d)))"
    using assms(1,3) length_filter_le_seg [of "\<lambda>x. uint x = l" "unat (blightCounter (chosen d))" "blightIds (chosen d)"]
    unfolding arrayShift_def by (subst shift_loop_spec) (simp_all add: pressable_def)
  with assms show ?thesis
    by (simp add: selectLight_def on_last_behavior_def chosen_def pressable_def uint_rd uint_wr
        put_behavior_def mark_selected_def frame_button_def log_button_def pressed_def ui_simps)
qed

text \<open>
  C13: pressing a lamp that is not chosen appends its number to the list of the behaviour that was
  opened last; pressing it again takes it out. The list, the count and the mark of the button are
  then what they were (a place after the list is left at zero); the other buttons and behaviours
  never change.
\<close>

theorem choose_lamp_twice:
  assumes "pressable k d" "\<not> isSelected (buttons d ! k)" "0 < l" "l < 256"
    and "unat (blightCounter (chosen d)) < length (blightIds (chosen d))"
    and "word_of_int l \<notin> set (take (unat (blightCounter (chosen d))) (blightIds (chosen d)))"
    and "length (blightIds (chosen d)) < 256"
  shows "\<exists>d1 d2. selectLight E l (int k) d = Inr d1 \<and> selectLight E l (int k) d1 = Inr d2 \<and>
    take (unat (blightCounter (chosen d1))) (blightIds (chosen d1)) =
      take (unat (blightCounter (chosen d))) (blightIds (chosen d)) @ [word_of_int l] \<and>
    buttons d2 = (buttons d)[k := (buttons d ! k)\<lparr>isSelected := False\<rparr>] \<and>
    behaviors d2 = (behaviors d)[unat (lastBehaviorId d) := (chosen d)\<lparr>blightIds :=
      (blightIds (chosen d))[unat (blightCounter (chosen d)) := 0]\<rparr>]"
proof -
  define n where "n = unat (blightCounter (chosen d))"
  define xs where "xs = blightIds (chosen d)"
  define w where "w = (word_of_int l :: u8)"
  have w: "uint w = l" using assms(3,4) by (simp add: w_def uint_word_of_int)
  obtain d1 where d1: "selectLight E l (int k) d = Inr d1" "pressed k True ((chosen d)\<lparr>
      blightIds := xs[n := w], blightCounter := blightCounter (chosen d) + 1\<rparr>) d d1"
    using press_add [OF assms(1,2,5)] unfolding n_def xs_def w_def by blast
  have len: "n < length xs" "length xs < 256" using assms(5,7) by (simp_all add: n_def xs_def)
  have ch1: "chosen d1 = (chosen d)\<lparr>blightIds := xs[n := w], blightCounter := blightCounter (chosen d) + 1\<rparr>"
    using d1(2) assms(1) by (simp add: chosen_def pressed_def pressable_def)
  have n1: "unat (blightCounter (chosen d) + 1) = Suc n"
    using len by (simp add: n_def unat_word_ariths)
  have "pressable k d1" "isSelected (buttons d1 ! k)"
    using d1(2) assms(1) len n1 ch1 by (auto simp: pressable_def pressed_def)
  from press_remove [OF this, of l E] assms(3) obtain d2 where d2: "selectLight E l (int k) d1 = Inr d2"
    "pressed k False ((chosen d1)\<lparr>blightIds := kept l (take (Suc n) (xs[n := w])) @ drop (Suc n) (xs[n := w]),
      blightCounter := blightCounter (chosen d)\<rparr>) d1 d2"
    by (auto simp: ch1 n1)
  have "\<forall>x \<in> set (take n xs). uint x \<noteq> l"
    using assms(6) w unfolding n_def xs_def w_def by (metis word_of_int_uint)
  then have "kept l (take (Suc n) (xs[n := w])) = take n xs @ [0]"
    using len w by (simp add: kept_def take_Suc_conv_app_nth)
  then have "kept l (take (Suc n) (xs[n := w])) @ drop (Suc n) (xs[n := w]) = xs[n := 0]"
    using len by (simp add: upd_conv_take_nth_drop)
  moreover have "k < length (buttons d)" using assms(1) by (simp add: pressable_def)
  ultimately show ?thesis
    using d1 d2 ch1 len n1 by (simp add: pressed_def xs_def [symmetric] n_def [symmetric] w_def [symmetric] take_Suc_conv_app_nth)
qed

definition choosing :: dev where
  "choosing = boot_state\<lparr>behaviors := [no_behavior\<lparr>blightCounter := 1, blightIds := [4, 0, 0]\<rparr>]\<rparr>"

theorem choose_lamp_twice_witness:
  "\<exists>d1 d2. selectLight quiet 7 (int 3) choosing = Inr d1 \<and> selectLight quiet 7 (int 3) d1 = Inr d2 \<and>
    take (unat (blightCounter (chosen d1))) (blightIds (chosen d1)) = [4, 7] \<and>
    behaviors d2 = behaviors choosing"
proof -
  have c: "chosen choosing = no_behavior\<lparr>blightCounter := 1, blightIds := [4, 0, 0]\<rparr>"
    "behaviors choosing = [no_behavior\<lparr>blightCounter := 1, blightIds := [4, 0, 0]\<rparr>]"
    "lastBehaviorId choosing = 0" "buttons choosing = replicate 30 no_button" "display choosing = panel_new"
    by (simp_all add: chosen_def choosing_def boot_state_def)
  have "pressable 3 choosing" using panel_new_ready by (simp add: pressable_def c)
  from choose_lamp_twice [OF this, of 7 quiet] show ?thesis
    by (simp add: c no_button_def) blast
qed

end
