(* ===== verification/Stream_Protocol.thy ===== *)
theory Stream_Protocol
  imports Entertainment Worlds
begin

section \<open>The entertainment protocol as a whole\<close>

text \<open>
  The client key, the message built for a list of lamps, the connection, and the transfer of a
  message; the tables of colours.
\<close>

subsection \<open>The client key\<close>

definition hex_of_byte :: "u8 \<Rightarrow> string" where
  "hex_of_byte v = [digit_chars ! (unat v div 16), digit_chars ! (unat v mod 16)]"

lemma hex_digit_plain:
  assumes "k < 16"
  shows "\<not> c_isspace (digit_chars ! k)" "digit_chars ! k \<noteq> CHR ''-''" "digit_chars ! k \<noteq> CHR ''+''"
proof -
  have "\<forall>k \<in> set [0..<16]. \<not> c_isspace (digit_chars ! k) \<and> digit_chars ! k \<noteq> CHR ''-'' \<and>
      digit_chars ! k \<noteq> CHR ''+''" by code_simp
  then show "\<not> c_isspace (digit_chars ! k)" "digit_chars ! k \<noteq> CHR ''-''" "digit_chars ! k \<noteq> CHR ''+''"
    using assms by auto
qed

lemma strtol_hex_byte: "strtol (hex_of_byte v) 16 = uint v"
proof -
  define m n where "m = unat v div 16" and "n = unat v mod 16"
  have mn: "m < 16" "n < 16" "m * 16 + n = unat v" using u8_bound [of v] by (simp_all add: m_def n_def)
  have "strtol [digit_chars ! m, digit_chars ! n] 16 = int (m * 16 + n)"
    using mn(1,2) hex_digit_plain [OF mn(1)]
    by (simp add: strtol_def strtol_magnitude_def digit_val_chars Let_def)
  then show ?thesis by (simp add: mn(3) hex_of_byte_def flip: m_def n_def)
qed

text \<open>
  Reading back the hexadecimal text of any byte string (two lower-case digits per byte) gives
  the bytes: the key that is handed to the TLS library is the one the bridge issued.
\<close>

lemma hexToBytes_roundtrip: "hexToBytes (concat (map hex_of_byte bs)) = bs"
proof (induction bs)
  case (Cons v bs)
  then show ?case using strtol_hex_byte [of v] by (simp add: hex_of_byte_def)
qed simp

subsection \<open>The message\<close>

lemma u8_and_255: "(v :: u8) AND 0xFF = v"
proof -
  have "(0xFF :: u8) = - 1" by simp
  then show ?thesis by (simp only: and.right_neutral)
qed

lemma u8_drop_8: "drop_bit 8 (v :: u8) = 0"
  by (rule bit_eqI) (auto simp: bit_drop_bit_eq dest: bit_imp_le_length)


definition set_lights :: "(u8 \<times> RGBCommand) list \<Rightarrow> dev \<Rightarrow> dev res" where
  "set_lights cs = forr [0..<length cs] (\<lambda>i d. case cs ! i of (l, c) \<Rightarrow>
     andThen (setColorRGB (of_nat i) l (red c) (green c) (blue c) d) (\<lambda>(_, d). Inr d))"

definition slot :: "u8 \<times> RGBCommand \<Rightarrow> u8 list" where
  "slot e = light_bytes (fst e) (red (snd e)) (green (snd e)) (blue (snd e))"

lemma length_slot [simp]: "length (slot e) = 9"
  by (simp add: slot_def light_bytes_def)

lemma length_slots [simp]: "length (concat (map slot es)) = 9 * length es"
  by (induction es) simp_all

lemma set_lights_upto:
  assumes "stream_ok d" "length cs = unat (entertainment_num_lights d)" "k \<le> length cs"
  shows "forr [0..<k] (\<lambda>i d. case cs ! i of (l, c) \<Rightarrow>
      andThen (setColorRGB (of_nat i) l (red c) (green c) (blue c) d) (\<lambda>(_, d). Inr d)) d =
    Inr (d\<lparr>entertainment_msg := take 16 (entertainment_msg d) @ concat (map slot (take k cs)) @
           drop (16 + 9 * k) (entertainment_msg d)\<rparr>)"
  using assms(3)
proof (induction k)
  case 0
  then show ?case by simp
next
  case (Suc k)
  define m where "m = entertainment_msg d"
  define t where "t = d\<lparr>entertainment_msg := take 16 m @ concat (map slot (take k cs)) @ drop (16 + 9 * k) m\<rparr>"
  obtain l c where lc: "cs ! k = (l, c)" by fastforce
  have len: "length m = 16 + 9 * length cs"
    using assms(1,2) by (simp add: m_def stream_ok_def message_size_eq)
  have small: "length cs < 256" using assms(2) u8_bound by metis
  have k: "unat (of_nat k :: u8) = k" using Suc.prems small by (intro u8_of_nat_unat) simp
  have "stream_ok t"
    using assms(1) Suc.prems len by (simp add: t_def stream_ok_def message_size_eq assms(2))
  moreover have "of_nat k < entertainment_num_lights t"
    using Suc.prems assms(2) by (simp add: word_less_nat_alt k t_def)
  ultimately have "setColorRGB (of_nat k) l (red c) (green c) (blue c) t = Inr (True, t\<lparr>entertainment_msg :=
     take (16 + 9 * k) (entertainment_msg t) @ slot (l, c) @ drop (25 + 9 * k) (entertainment_msg t)\<rparr>)"
    by (simp add: setColorRGB_stores k slot_def)
  also have "t\<lparr>entertainment_msg :=
     take (16 + 9 * k) (entertainment_msg t) @ slot (l, c) @ drop (25 + 9 * k) (entertainment_msg t)\<rparr> =
    d\<lparr>entertainment_msg := take 16 m @ concat (map slot (take (Suc k) cs)) @ drop (16 + 9 * Suc k) m\<rparr>"
    using Suc.prems len lc by (simp add: t_def take_Suc_conv_app_nth)
  finally show ?case
    using Suc by (simp add: forr_append forr_single lc m_def t_def)
qed

text \<open>
  C8: setting the colours of all lamps of a fresh stream leaves exactly the message of the protocol
  in the buffer: the sixteen bytes of the header and then, per lamp and in order, a zero byte, the
  lamp's number in two bytes and each colour twice.
\<close>

theorem stream_message:
  assumes "length cs < 256"
  shows "\<exists>d'. set_lights cs (initEntertainmentMode E r (of_nat (length cs)) d) = Inr d' \<and>
    entertainment_msg d' = message_header @ concat (map (\<lambda>(l, c).
      [0, 0, l, red c, red c, green c, green c, blue c, blue c]) cs)"
proof -
  define t where "t = initEntertainmentMode E r (of_nat (length cs)) d"
  have n: "unat (entertainment_num_lights t) = length cs"
    using assms by (simp add: t_def initEntertainmentMode_ok u8_of_nat_unat)
  have ok: "stream_ok t" by (simp add: t_def initEntertainmentMode_ok)
  have len: "length (entertainment_msg t) = 16 + 9 * length cs"
    using ok by (simp add: stream_ok_def message_size_eq n)
  have slots: "map slot cs = map (\<lambda>(l, c). [0, 0, l, red c, red c, green c, green c, blue c, blue c]) cs"
    by (auto simp only: slot_def light_bytes_def u8_drop_8 u8_and_255 fst_conv snd_conv prod.case intro: map_cong)
  have "set_lights cs t = Inr (t\<lparr>entertainment_msg := take 16 (entertainment_msg t) @
      concat (map slot cs) @ []\<rparr>)"
    using set_lights_upto [OF ok n [symmetric] order_refl] len by (simp add: set_lights_def)
  then show ?thesis
    using initEntertainmentMode_ok(3) [of E r "of_nat (length cs)" d] slots by (simp add: t_def)
qed

theorem stream_message_witness:
  "\<exists>d'. set_lights [(7, \<lparr>red = 0xff, green = 0, blue = 1\<rparr>)]
      (initEntertainmentMode quiet 2 1 boot_state) = Inr d' \<and>
    entertainment_msg d' = message_header @ [0, 0, 7, 0xff, 0xff, 0, 0, 1, 1]"
  using stream_message [of "[(7, \<lparr>red = 0xff, green = 0, blue = 1\<rparr>)]" quiet 2 boot_state] by simp

text \<open>
  Setting the colour of one lamp changes the nine bytes of its place in the message and no
  byte of another lamp or of the header; an index that has no place changes nothing.
\<close>

lemma setColorRGB_frame:
  assumes "stream_ok d"
  shows "\<exists>b d'. setColorRGB i l cr cg cb d = Inr (b, d') \<and> b = (i < entertainment_num_lights d) \<and>
    light_slot (entertainment_msg d') i =
      (if b then light_bytes l cr cg cb else light_slot (entertainment_msg d) i) \<and>
    (\<forall>j. j \<noteq> i \<longrightarrow> light_slot (entertainment_msg d') j = light_slot (entertainment_msg d) j) \<and>
    take 16 (entertainment_msg d') = take 16 (entertainment_msg d) \<and>
    d' = d\<lparr>entertainment_msg := entertainment_msg d'\<rparr>"
proof (cases "i < entertainment_num_lights d")
  case False
  then show ?thesis by (intro exI [of _ False] exI [of _ d]) (simp add: setColorRGB_def)
next
  case True
  define m where "m = entertainment_msg d"
  define k where "k = unat i"
  have len: "length m = 16 + 9 * unat (entertainment_num_lights d)"
    using assms by (simp add: m_def stream_ok_def message_size_eq)
  have k: "k < unat (entertainment_num_lights d)" using True by (simp add: k_def word_less_nat_alt)
  define m' where "m' = take (16 + 9 * k) m @ light_bytes l cr cg cb @ drop (25 + 9 * k) m"
  have b9: "length (light_bytes l cr cg cb) = 9" by (simp add: light_bytes_def)
  have own: "light_slot m' i = light_bytes l cr cg cb"
    using len k b9 by (simp add: light_slot_def m'_def k_def [symmetric])
  have other: "light_slot m' j = light_slot m j" if "j \<noteq> i" for j
  proof -
    define n where "n = unat j"
    have "n \<noteq> k" using that by (auto simp: n_def k_def word_unat_eq_iff)
    then consider "n < k" | "k < n" by linarith
    then show ?thesis
    proof cases
      case 1
      then have "take (9 + (16 + 9 * n)) m' = take (9 + (16 + 9 * n)) m"
        using len k by (simp add: m'_def)
      then show ?thesis by (simp add: light_slot_def take_drop n_def [symmetric])
    next
      case 2
      then have "drop (16 + 9 * n) m' = drop (16 + 9 * n) m"
        using len k b9 by (simp add: m'_def)
      then show ?thesis by (simp add: light_slot_def n_def [symmetric])
    qed
  qed
  have "take 16 m' = take 16 m" using len k by (simp add: m'_def min_def)
  with own other True show ?thesis
    by (intro exI [of _ True] exI [of _ "d\<lparr>entertainment_msg := m'\<rparr>"])
      (simp add: setColorRGB_stores [OF assms True] m'_def m_def k_def)
qed

subsection \<open>The connection\<close>

definition connect_calls :: "dev \<Rightarrow> tls_call list" where
  "connect_calls d = [NetConnect (hueBridgeBareIP d), ConfigDefaults, SslSetup, SetHostname,
     ConfPsk (hexToBytes (clientKey d)) (userId d)]"

definition start_request :: "u8 \<Rightarrow> dev \<Rightarrow> event" where
  "start_request r d = Http PUT (groupEndpoint d r) ''{\"stream\":{\"active\":true}}''"

lemma startStreaming_pair:
  "startStreaming E r d = (True, d\<lparr>out := out d @ [start_request r d]\<rparr>)"
  by (simp add: startStreaming_def put_request_def http_request_def emit_def Let_def start_request_def
      split_beta)

fun chain :: "env \<Rightarrow> tls_call list \<Rightarrow> dev \<Rightarrow> (bool \<times> dev) res" where
  "chain E [] d = handshake E d"
| "chain E (c # cs) d = connect_step E c (chain E cs) d"

lemma chain_fun: "chain E [] = handshake E" "chain E (c # cs) = connect_step E c (chain E cs)"
  by (simp_all add: fun_eq_iff)

lemma connect_chain:
  "connect E r d = chain E (connect_calls d) (d\<lparr>out := out d @ [start_request r d]\<rparr>)"
  unfolding connect_def startStreaming_pair connect_calls_def chain_fun by simp

text \<open>Whether the k-th of the calls succeeds, when the ones before it have been made.\<close>

definition succeeds :: "env \<Rightarrow> event list \<Rightarrow> tls_call list \<Rightarrow> nat \<Rightarrow> bool" where
  "succeeds E trace calls k \<longleftrightarrow>
     (if calls ! k = Handshake then env_handshake E (trace @ map Tls (take (Suc k) calls)) = Some 0
      else env_tls E (trace @ map Tls (take (Suc k) calls)) = 0)"

lemma succeeds_Suc: "succeeds E trace (c # cs) (Suc k) = succeeds E (trace @ [Tls c]) cs k"
  by (simp add: succeeds_def)

definition ends_at :: "env \<Rightarrow> event list \<Rightarrow> tls_call list \<Rightarrow> bool \<Rightarrow> tls_call list \<Rightarrow> bool" where
  "ends_at E trace calls b es \<longleftrightarrow>
     (if b then es = calls \<and> (\<forall>k < length calls. succeeds E trace calls k)
      else \<exists>k < length calls. es = take (Suc k) calls @ [CloseNotify] \<and>
        (\<forall>j < k. succeeds E trace calls j) \<and> \<not> succeeds E trace calls k)"

lemma ends_at_step:
  assumes "succeeds E trace (c # cs) 0" "ends_at E (trace @ [Tls c]) cs b es"
  shows "ends_at E trace (c # cs) b (c # es)"
proof (cases b)
  case True
  then show ?thesis using assms by (auto simp: ends_at_def less_Suc_eq_0_disj succeeds_Suc)
next
  case False
  then obtain k where k: "k < length cs" "es = take (Suc k) cs @ [CloseNotify]"
    "\<forall>j < k. succeeds E (trace @ [Tls c]) cs j" "\<not> succeeds E (trace @ [Tls c]) cs k"
    using assms(2) by (auto simp: ends_at_def)
  then have "Suc k < length (c # cs) \<and> c # es = take (Suc (Suc k)) (c # cs) @ [CloseNotify] \<and>
      (\<forall>j < Suc k. succeeds E trace (c # cs) j) \<and> \<not> succeeds E trace (c # cs) (Suc k)"
    using assms(1) by (auto simp: less_Suc_eq_0_disj succeeds_Suc)
  then show ?thesis using False unfolding ends_at_def by auto
qed

lemma chain_result:
  assumes "tls d \<noteq> NoContext" "\<And>es. env_handshake E es \<noteq> None" "Handshake \<notin> set cs"
  shows "\<exists>b es. chain E cs d = Inr (b, d\<lparr>out := out d @ map Tls es\<rparr>) \<and> ends_at E (out d) (cs @ [Handshake]) b es"
  using assms(1,3)
proof (induction cs arbitrary: d)
  case Nil
  obtain ret where ret: "env_handshake E (out d @ [Tls Handshake]) = Some ret" using assms(2) by auto
  then have s: "succeeds E (out d) ([] @ [Handshake]) 0 \<longleftrightarrow> ret = 0" by (simp add: succeeds_def)
  show ?case
  proof (cases "ret = 0")
    case True
    then have "chain E [] d = Inr (True, d\<lparr>out := out d @ map Tls [Handshake]\<rparr>)"
      using Nil ret by (simp add: handshake_def emit_def Let_def)
    moreover have "ends_at E (out d) ([] @ [Handshake]) True [Handshake]" using s True by (simp add: ends_at_def)
    ultimately show ?thesis by blast
  next
    case False
    then have "chain E [] d = Inr (False, d\<lparr>out := out d @ map Tls [Handshake, CloseNotify]\<rparr>)"
      using Nil ret by (simp add: handshake_def emit_def close_notify_def tls_call_def Let_def)
    moreover have "ends_at E (out d) ([] @ [Handshake]) False [Handshake, CloseNotify]"
      using s False by (simp add: ends_at_def)
    ultimately show ?thesis by blast
  qed
next
  case (Cons c cs)
  define ret where "ret = env_tls E (out d @ [Tls c])"
  have first: "succeeds E (out d) (c # cs @ [Handshake]) 0 \<longleftrightarrow> ret = 0"
    using Cons.prems(2) by (auto simp: succeeds_def ret_def)
  show ?case
  proof (cases "ret = 0")
    case False
    have "0 < length ((c # cs) @ [Handshake]) \<and> [c, CloseNotify] = take (Suc 0) ((c # cs) @ [Handshake]) @ [CloseNotify] \<and>
        (\<forall>j < 0. succeeds E (out d) ((c # cs) @ [Handshake]) j) \<and> \<not> succeeds E (out d) ((c # cs) @ [Handshake]) 0"
      using False first by simp
    then have "ends_at E (out d) ((c # cs) @ [Handshake]) False [c, CloseNotify]"
      unfolding ends_at_def if_False by (rule exI)
    then show ?thesis
      using Cons.prems False
      by (intro exI [of _ False] exI [of _ "[c, CloseNotify]"])
        (simp add: connect_step_def close_notify_def tls_call_def emit_def Let_def ret_def)
  next
    case True
    define t where "t = d\<lparr>out := out d @ [Tls c]\<rparr>"
    have t: "tls t \<noteq> NoContext" "Handshake \<notin> set cs" "out t = out d @ [Tls c]" using Cons.prems by (simp_all add: t_def)
    obtain b es where IH: "chain E cs t = Inr (b, t\<lparr>out := out t @ map Tls es\<rparr>)"
      "ends_at E (out t) (cs @ [Handshake]) b es"
      using Cons.IH [OF t(1,2)] by blast
    have "chain E (c # cs) d = Inr (b, d\<lparr>out := out d @ map Tls (c # es)\<rparr>)"
      using True Cons.prems IH(1) by (simp add: connect_step_def tls_call_def emit_def Let_def ret_def t_def)
    moreover have "ends_at E (out d) ((c # cs) @ [Handshake]) b (c # es)"
      using ends_at_step [of E "out d" c "cs @ [Handshake]" b es] first True IH(2) t(3) by simp
    ultimately show ?thesis by blast
  qed
qed

text \<open>
  C21: \<open>connect\<close> returns true when every call into the TLS library succeeds; then it has made all of them in order,
  ending with the handshake. Otherwise it stops at the first call that fails: all calls before that one
  succeeded, none after it is made, and it closes the connection and returns false. Nothing but the trace changes.
\<close>

theorem connect_result:
  assumes "tls d \<noteq> NoContext" "\<And>es. env_handshake E es \<noteq> None"
  shows "\<exists>b es. connect E r d = Inr (b, d\<lparr>out := out d @ start_request r d # map Tls es\<rparr>) \<and>
    (let calls = connect_calls d @ [Handshake]; trace = out d @ [start_request r d]
     in if b then es = calls \<and> (\<forall>k < length calls. succeeds E trace calls k)
        else \<exists>k < length calls. es = take (Suc k) calls @ [CloseNotify] \<and>
          (\<forall>j < k. succeeds E trace calls j) \<and> \<not> succeeds E trace calls k)"
proof -
  define t where "t = d\<lparr>out := out d @ [start_request r d]\<rparr>"
  have "tls t \<noteq> NoContext" "Handshake \<notin> set (connect_calls d)" using assms(1) by (simp_all add: t_def connect_calls_def)
  then obtain b es where R: "chain E (connect_calls d) t = Inr (b, t\<lparr>out := out t @ map Tls es\<rparr>)"
    "ends_at E (out t) (connect_calls d @ [Handshake]) b es"
    using chain_result [OF _ assms(2)] by blast
  then have "connect E r d = Inr (b, d\<lparr>out := out d @ start_request r d # map Tls es\<rparr>)"
    by (simp add: connect_chain t_def)
  moreover have "out t = out d @ [start_request r d]" by (simp add: t_def)
  ultimately show ?thesis using R(2) unfolding ends_at_def Let_def by metis
qed

definition connecting :: dev where "connecting = boot_state\<lparr>tls := Live\<rparr>"

text \<open>A library that refuses the fourth call, and what is left of the six.\<close>

definition refusing_tls :: env where
  "refusing_tls = quiet\<lparr>env_tls := (\<lambda>es. if last es = Tls SetHostname then - 1 else 0)\<rparr>"

theorem connect_result_witness:
  "connect refusing_tls 2 connecting = Inr (False, connecting\<lparr>out := out connecting @ start_request 2 connecting #
     map Tls [NetConnect (hueBridgeBareIP connecting), ConfigDefaults, SslSetup, SetHostname, CloseNotify]\<rparr>)"
proof -
  let ?cs = "connect_calls connecting @ [Handshake]" and ?tr = "out connecting @ [start_request 2 connecting]"
  have h: "env_handshake refusing_tls es = Some 0" for es by (simp add: refusing_tls_def quiet_def)
  have calls: "?cs = [NetConnect (hueBridgeBareIP connecting), ConfigDefaults, SslSetup, SetHostname,
      ConfPsk (hexToBytes (clientKey connecting)) (userId connecting), Handshake]"
    by (simp add: connect_calls_def)
  have ok: "succeeds refusing_tls ?tr ?cs 0" "succeeds refusing_tls ?tr ?cs 1" "succeeds refusing_tls ?tr ?cs 2"
    and bad: "\<not> succeeds refusing_tls ?tr ?cs 3"
    unfolding calls by (simp_all add: succeeds_def refusing_tls_def numeral_2_eq_2 numeral_3_eq_3)
  have "tls connecting \<noteq> NoContext" "\<And>es. env_handshake refusing_tls es \<noteq> None" by (simp_all add: connecting_def h)
  from connect_result [OF this, of 2] obtain b es where
    R: "connect refusing_tls 2 connecting = Inr (b, connecting\<lparr>out := out connecting @ start_request 2 connecting # map Tls es\<rparr>)"
    "if b then es = ?cs \<and> (\<forall>k < length ?cs. succeeds refusing_tls ?tr ?cs k)
     else \<exists>k < length ?cs. es = take (Suc k) ?cs @ [CloseNotify] \<and>
       (\<forall>j < k. succeeds refusing_tls ?tr ?cs j) \<and> \<not> succeeds refusing_tls ?tr ?cs k"
    unfolding Let_def by blast
  have "3 < length ?cs" unfolding calls by simp
  then have "\<not> b" using R(2) bad by auto
  then obtain k where k: "es = take (Suc k) ?cs @ [CloseNotify]" "\<forall>j < k. succeeds refusing_tls ?tr ?cs j"
    "\<not> succeeds refusing_tls ?tr ?cs k"
    using R(2) by auto
  have "\<not> 3 < k" using k(2) bad by blast
  moreover have "k \<noteq> 0" "k \<noteq> 1" "k \<noteq> 2" using k(3) ok by metis+
  ultimately have "k = 3" by simp
  then show ?thesis using R(1) \<open>\<not> b\<close> k(1) unfolding calls by simp
qed

subsection \<open>Sending a message\<close>

lemma update_loop_step:
  assumes "tls d \<noteq> NoContext" "done_n < length (entertainment_msg d)"
    and "env_tls E (out d @ [Tls (SslWrite done_n (length (entertainment_msg d)))]) = ret"
  shows "update_loop E (Suc fuel) done_n d =
    (let t = d\<lparr>out := out d @ [Tls (SslWrite done_n (length (entertainment_msg d)))]\<rparr>
     in if ret < 0 then Inr (False, t)
        else if length (entertainment_msg d) < done_n + nat ret then Inl OutOfBounds
        else update_loop E fuel (done_n + nat ret) t)"
  using assms by (simp add: tls_call_def emit_def Let_def)

lemma update_loop_end:
  "length (entertainment_msg d) \<le> done_n \<Longrightarrow> update_loop E (Suc fuel) done_n d = Inr (True, d)"
  by simp

declare update_loop.simps(2) [simp del]

text \<open>
  C38: if the TLS library takes the whole message in one write, \<open>update\<close> sends it once and returns
  true. If it takes only a part, the next write still asks for the full length from where the first
  one ended: when the library then takes all it is given, it reads past the end of the message.
\<close>

theorem update_short_write:
  assumes "tls d \<noteq> NoContext" "n = length (entertainment_msg d)" "0 < n" "2 \<le> env_patience E"
    and "env_tls E (out d @ [Tls (SslWrite 0 n)]) = int k" "0 < k" "k \<le> n"
    and "env_tls E (out d @ [Tls (SslWrite 0 n), Tls (SslWrite k n)]) = int n"
  shows "stream_update E d =
    (if k = n then Inr (True, d\<lparr>out := out d @ [Tls (SslWrite 0 n)]\<rparr>) else Inl OutOfBounds)"
proof -
  obtain fuel where fuel: "env_patience E = Suc (Suc fuel)"
    using assms(4) by (metis add_2_eq_Suc le_Suc_ex)
  define t where "t = d\<lparr>out := out d @ [Tls (SslWrite 0 n)]\<rparr>"
  have one: "update_loop E (Suc (Suc fuel)) 0 d = update_loop E (Suc fuel) k t"
    using assms update_loop_step [of d 0 E "int k" "Suc fuel"] by (simp add: t_def Let_def)
  have msg: "entertainment_msg t = entertainment_msg d" "tls t = tls d" "out t = out d @ [Tls (SslWrite 0 n)]"
    by (simp_all add: t_def)
  show ?thesis
  proof (cases "k = n")
    case True
    then show ?thesis
      using assms(2) update_loop_end [of t k E fuel] by (simp add: stream_update_def fuel one msg t_def)
  next
    case False
    then show ?thesis
      using assms(1,2,6,7,8) update_loop_step [of t k E "int n" fuel]
      by (simp add: stream_update_def fuel one msg)
  qed
qed

definition short_write_world :: env where
  "short_write_world = quiet\<lparr>env_tls := (\<lambda>es. case last es of Tls (SslWrite 0 n) \<Rightarrow> 10
     | Tls (SslWrite (Suc k) n) \<Rightarrow> int n | _ \<Rightarrow> 0)\<rparr>"

theorem update_short_write_witness:
  "stream_update short_write_world (boot_state\<lparr>tls := Live, entertainment_msg := replicate 25 0\<rparr>) =
   Inl OutOfBounds"
  using update_short_write [of "boot_state\<lparr>tls := Live, entertainment_msg := replicate 25 0\<rparr>" 25
      short_write_world 10]
  by (simp add: boot_state_def short_write_world_def quiet_def)

subsection \<open>The colour tables\<close>

text \<open>
  Recomputing the table of a behaviour fills its first \<open>entriesCount\<close> entries alternately with
  red and warm white, starting with red, and keeps the rest of the table and every other behaviour.
\<close>

lemma refill_table:
  assumes "0 \<le> k" "k < int (length (behaviors d))" "h = behaviors d ! nat k"
    and "unat (entriesCount h) \<le> length (entries h)"
  shows "refill k d = Inr (d\<lparr>behaviors := (behaviors d)[nat k := h\<lparr>entries :=
     map (\<lambda>i. if even i then \<lparr>red = 0xff, green = 0, blue = 0\<rparr> else \<lparr>red = 0xfc, green = 0xc5, blue = 0x73\<rparr>)
       [0..<unat (entriesCount h)] @ drop (unat (entriesCount h)) (entries h)\<rparr>]\<rparr>)"
proof -
  have "two_colours = (\<lambda>i. if even i then \<lparr>red = 0xff, green = 0, blue = 0\<rparr>
      else \<lparr>red = 0xfc, green = 0xc5, blue = 0x73\<rparr>)"
    by (auto simp: two_colours_def even_iff_mod_2_eq_zero)
  then show ?thesis
    using assms by (simp add: refill_def rd_in wr_in put_behavior_def fill_entries_spec)
qed

end
