(* ===== verification/Behavior_Control.thy ===== *)
theory Behavior_Control
  imports Startup Lamp_Choice Stream_Protocol
begin

section \<open>The page of a behaviour, and starting and stopping it\<close>

text \<open>
  The buttons that the page of a behaviour ends up with and what a touch on them does; the state
  after START and after STOP; why START twice fails.
\<close>

subsection \<open>The page\<close>

definition edit_handler :: "u8 \<Rightarrow> handler" where
  "edit_handler k = (if k = repeatedBehavior then EChangeBehaviorForTraining
     else if k = timeBehavior then EChangeBehaviorForAlarm else EChangeBehaviorForFest)"

definition behavior_buttons :: "int \<Rightarrow> behavior \<Rightarrow> dev \<Rightarrow> bool" where
  "behavior_buttons i h d \<longleftrightarrow> buttonCount d = 6 \<and> length (buttons d) = 30 \<and>
     map btn_event (take 6 (buttons d)) =
       [Some EGoBack, Some EDrawHomeFromHomeButton, Some EDrawAllLights, Some (edit_handler (behaviorId h)),
        Some EToggleBehavior, Some EToggleBehavior] \<and>
     228 \<le> btn_y (buttons d ! 0) \<and> 228 \<le> btn_y (buttons d ! 1) \<and>
     (\<forall>k \<in> {2, 3}. btn_y (buttons d ! k) + btn_height (buttons d ! k) \<le> 140) \<and>
     (let v = buttons d ! 4 in btn_name v = ''START'' \<and> btn_id v = to_i16 i \<and>
        btn_x v = 14 \<and> btn_y v = 184 \<and> btn_width v = 74 \<and> btn_height v = 40) \<and>
     (let v = buttons d ! 5 in btn_name v = ''STOP'' \<and> btn_id v = to_i16 i \<and>
        btn_x v = 88 \<and> btn_y v = 184 \<and> btn_width v = 74 \<and> btn_height v = 40)"

definition behavior_kind :: "behavior \<Rightarrow> bool" where
  "behavior_kind h \<longleftrightarrow> behaviorId h = timeBehavior \<or> behaviorId h = repeatedBehavior \<or>
     behaviorId h = transitionBehavior"

lemma drawBehavior_effect:
  assumes "wf d" "0 \<le> i" "i < 20" "h = behaviors d ! nat i" "behavior_kind h" "bname h \<noteq> ''HJEM''"
    and "isGoingBack d \<or> pagePageCounter d < 10"
  shows "\<exists>d'. drawBehavior E i d = Inr d' \<and> wf d' \<and> behavior_buttons i h d' \<and>
    currentPageOnScreen d' = ''drawBehavior'' \<and> behaviors d' = behaviors d \<and> fbdo d' = fbdo d \<and>
    lastBehaviorId d' = word_of_int i \<and> startBehaviorNow d' = startBehaviorNow d"
proof -
  have len: "length (behaviors d) = 20" using assms(1) by (rule wf_sizes)
  have r: "rd (behaviors d) i = Inr h" using assms(2-4) len by (simp add: rd_in)
  define d1 where "d1 = d\<lparr>currentRoomID := drawBehaviorID, lastBehavior := h, lastBehaviorId := word_of_int i\<rparr>"
  have "wf d1" "isGoingBack d1 \<or> pagePageCounter d1 < 10" using assms(1,7) by (simp_all add: d1_def)
  from header_effect [OF this, of E "bname h" EDrawBehavior] obtain d2 where
    d2: "drawHeader E (bname h) EDrawBehavior False d1 = Inr d2" "wf d2" "header_buttons (bname h) d2"
      "frame_ok d1 d2" by blast
  define d3 where "d3 = append_action_what E touchScreenInteraction navigate ''drawBehavior'' (bname h)
    (d2\<lparr>currentPageOnScreen := ''drawBehavior''\<rparr>)"
  have d3: "wf d3" "buttonCount d3 = 2" "length (buttons d3) = 30" "panel_ready (display d3)"
    "behaviors d3 = behaviors d" "currentPageOnScreen d3 = ''drawBehavior''" "fbdo d3 = fbdo d"
    "lastBehaviorId d3 = word_of_int i" "startBehaviorNow d3 = startBehaviorNow d"
    "btn_event (buttons d3 ! 0) = Some EGoBack" "btn_event (buttons d3 ! 1) = Some EDrawHomeFromHomeButton"
    "228 \<le> btn_y (buttons d3 ! 0)" "228 \<le> btn_y (buttons d3 ! 1)"
    using d2(2-4) wf_ui_parts [OF d2(2)] assms(6)
    by (simp_all add: d3_def header_buttons_def frame_ok_def d1_def)
  have split: "take 6 xs = [xs ! 0, xs ! 1, xs ! 2, xs ! 3, xs ! 4, xs ! 5]" if "length xs = 30" for xs :: "button list"
    using that by (simp add: take_Suc_conv_app_nth numeral_eq_Suc)
  have enter: "drawBehavior E i d = seqr
     [\<lambda>d. andThen (rd (behaviors d) i) (\<lambda>h. seqr
        [drawText 14 33 1 (String_uint (unat (blightCounter h)) @ '' P'' @ AE @ ''RER ER VALGT I EN '')
           EPD_BLACK False,
         drawText 14 48 1 (getBehaviorType (behaviorId h) '''' @ '' OPF'' @ OE @ ''RSEL'') EPD_BLACK False,
         drawSquare E 23 65 130 30 0 EPD_BLACK (''REDIGER P'' @ AE @ ''RER'') True EPD_BLACK
           (Some EDrawAllLights) i,
         whenr (behaviorId h = repeatedBehavior) (edit_button E EChangeBehaviorForTraining i),
         whenr (behaviorId h = timeBehavior) (edit_button E EChangeBehaviorForAlarm i),
         whenr (behaviorId h = transitionBehavior) (edit_button E EChangeBehaviorForFest i),
         drawText 14 162 1 ''START ELLER STOP'' EPD_BLACK False,
         drawText 14 177 1 (''OPF'' @ OE @ ''RSEL'') EPD_BLACK False,
         (if \<not> activated h then start_stop E EPD_WHITE EPD_BLACK (Some EToggleBehavior) i
          else start_stop E EPD_BLACK EPD_WHITE (Some EToggleBehavior) i)] d),
      refreshBody] d3"
    using d2(1,4) r by (simp add: drawBehavior_def enter_behavior_def log_behavior_def d1_def [symmetric]
        frame_ok_def d3_def) (simp add: d1_def)
  have "\<exists>d'. drawBehavior E i d = Inr d' \<and> behavior_buttons i h d' \<and>
    currentPageOnScreen d' = ''drawBehavior'' \<and> behaviors d' = behaviors d \<and> fbdo d' = fbdo d \<and>
    lastBehaviorId d' = word_of_int i \<and> startBehaviorNow d' = startBehaviorNow d"
    using d3 r assms(5) unfolding enter
    by (cases "activated h")
      (auto simp: behavior_kind_def behavior_kinds edit_button_def start_stop_def ui_simps
        behavior_buttons_def split new_button_def nth_list_update edit_handler_def Let_def)
  then show ?thesis using presD [OF pres_drawBehavior [OF assms(1)]] by blast
qed

lemma first_hit:
  assumes "k < n" "hit px py (bs ! k)" "\<And>j. j < k \<Longrightarrow> \<not> hit px py (bs ! j)"
  shows "List.find (\<lambda>k. hit px py (bs ! k)) [0..<n] = Some k"
  using assms by (auto simp: find_Some_iff)

text \<open>
  C5: after the page of a behaviour is drawn, a touch inside the START square calls
  \<open>toggleBehavior\<close> with the behaviour's number and button index 4, and a touch inside the STOP
  square calls it with index 5: the indices that \<open>toggleBehavior\<close> and the behaviour task rely on.
\<close>

theorem behavior_page_buttons:
  assumes "wf d" "0 \<le> i" "i < 20" "h = behaviors d ! nat i" "behavior_kind h" "bname h \<noteq> ''HJEM''"
    and "isGoingBack d \<or> pagePageCounter d < 10" "184 < py" "py < 224"
  shows "\<exists>d'. drawBehavior E i d = Inr d' \<and> wf d' \<and>
    (14 < px \<and> px < 88 \<longrightarrow> onTouchEvent E px py d' =
       andThen (toggleBehavior E i 4 (d'\<lparr>pressedButton := buttons d' ! 4\<rparr>)) (\<lambda>d. Inr (True, d))) \<and>
    (88 < px \<and> px < 162 \<longrightarrow> onTouchEvent E px py d' =
       andThen (toggleBehavior E i 5 (d'\<lparr>pressedButton := buttons d' ! 5\<rparr>)) (\<lambda>d. Inr (True, d)))"
proof -
  obtain d' where d': "drawBehavior E i d = Inr d'" "wf d'" "behavior_buttons i h d'"
    using drawBehavior_effect [OF assms(1-7), of E] by blast
  note B = d'(3) [unfolded behavior_buttons_def Let_def]
  have n: "nat (buttonCount d') = 6" "length (buttons d') = 30" using B by simp_all
  have id: "to_i16 i = i" using assms(2,3) by (intro to_i16_id) simp_all
  have ev: "btn_event (buttons d' ! 4) = Some EToggleBehavior" "btn_event (buttons d' ! 5) = Some EToggleBehavior"
  proof -
    have "map btn_event (take 6 (buttons d')) ! 4 = Some EToggleBehavior"
      "map btn_event (take 6 (buttons d')) ! 5 = Some EToggleBehavior" using B by simp_all
    then show "btn_event (buttons d' ! 4) = Some EToggleBehavior" "btn_event (buttons d' ! 5) = Some EToggleBehavior"
      using n(2) by simp_all
  qed
  have "(0::int) < 74" by simp
  have early: "\<not> hit px py (buttons d' ! j)" if "j < 4" for j
  proof -
    have "j = 0 \<or> j = 1 \<or> j = 2 \<or> j = 3" using that by auto
    then show ?thesis using B assms(8,9) by (auto simp: hit_def)
  qed
  have start: "List.find (\<lambda>k. hit px py (buttons d' ! k)) [0..<6] = Some 4" if "14 < px" "px < 88"
    using B that assms(8,9) early by (intro first_hit) (auto simp: hit_def)
  have stop: "List.find (\<lambda>k. hit px py (buttons d' ! k)) [0..<6] = Some 5" if "88 < px" "px < 162"
  proof (intro first_hit)
    fix j :: nat assume "j < 5"
    then consider "j < 4" | "j = 4" by linarith
    then show "\<not> hit px py (buttons d' ! j)"
      using early B that by cases (auto simp: hit_def)
  qed (use B that assms(8,9) in \<open>auto simp: hit_def\<close>)
  show ?thesis
    using d'(1,2) start stop B ev
    by (intro exI [of _ d']) (simp add: touch_dispatch n invoke_def id)
qed

definition training :: behavior where
  "training = no_behavior\<lparr>bname := ''T'', behaviorId := repeatedBehavior, blightCounter := 1\<rparr>"

definition with_training :: dev where
  "with_training = boot_state\<lparr>behaviors := replicate 20 training\<rparr>"

lemma with_training_wf: "wf with_training"
  using boot_state_wf
  by (simp add: with_training_def wf_defs training_def no_behavior_def wf_behavior_def)

theorem behavior_page_buttons_witness:
  "\<exists>d'. drawBehavior quiet 0 with_training = Inr d' \<and> onTouchEvent quiet 50 200 d' =
     andThen (toggleBehavior quiet 0 4 (d'\<lparr>pressedButton := buttons d' ! 4\<rparr>)) (\<lambda>d. Inr (True, d))"
proof -
  have "behaviors with_training ! nat 0 = training" by (simp add: with_training_def)
  moreover have "behavior_kind training" "bname training \<noteq> ''HJEM''"
    by (simp_all add: training_def behavior_kind_def no_behavior_def)
  moreover have "pagePageCounter with_training < 10" by (simp add: with_training_def boot_state_def)
  ultimately show ?thesis
    using behavior_page_buttons [OF with_training_wf, of 0 training 200 quiet 50] by auto
qed

subsection \<open>Start and stop\<close>

lemma run_task_effect:
  assumes "answers E" "fbdo d"
  shows "\<exists>es. runTaskFireBaseAppendUserActionWithWhat E a b c w d = Inr (d\<lparr>tempInteraction := a,
    tempAction := b, tempContext := c, tempWhat := w, out := es\<rparr>)"
  using assms
  by (auto simp: answers_def runTaskFireBaseAppendUserActionWithWhat_def taskFireBaseAppendUserActionWithWhat_def
      wait_ready_def push_json_def need_fbdo_def Let_def emit_def simp del: not_None_eq split: option.split)

lemma start_effect:
  assumes "wf d" "0 \<le> i" "i < 20" "h = behaviors d ! nat i" "fbdo d" "answers E" "blightCounter h \<noteq> 0"
  shows "\<exists>d'. toggleBehavior E i 4 d = Inr d' \<and> startBehaviorNow d' \<and> \<not> fbdo d' \<and>
      behaviors d' = (behaviors d)[nat i := h\<lparr>activated := True\<rparr>] \<and> buttons d' = buttons d \<and>
      tls d' = tls d"
proof -
  have len: "length (behaviors d) = 20" using assms(1) by (rule wf_sizes)
  have r: "rd (behaviors d) i = Inr h" using assms(2-4) len by (simp add: rd_in)
  obtain es where es: "runTaskFireBaseAppendUserActionWithWhat E touchScreenInteraction behaviorOn
      ''toggleBehavior'' (bname h) d = Inr (d\<lparr>tempInteraction := touchScreenInteraction,
      tempAction := behaviorOn, tempContext := ''toggleBehavior'', tempWhat := bname h, out := es\<rparr>)"
    using run_task_effect [OF assms(6,5)] by blast
  show ?thesis
    using assms(1-3,5,7) len r es wf_ui_parts(1) [OF assms(1)]
    by (simp add: toggleBehavior_def firebaseEnd_def need_fbdo_def start_stop_def ui_simps set_activated_def
        put_behavior_def wr_in rd_in activateBehavior_def emit_def)
qed

text \<open>
  START of a behaviour with chosen lamps marks it active, tells the behaviour task to run and
  gives up the log's connection; the colours of the two squares are drawn, no button changes.
  Without lamps it does nothing.
\<close>

lemma start_behavior:
  assumes "wf d" "0 \<le> i" "i < 20" "h = behaviors d ! nat i" "fbdo d" "answers E"
  shows "if blightCounter h = 0 then toggleBehavior E i 4 d = Inr d
    else \<exists>d'. toggleBehavior E i 4 d = Inr d' \<and> startBehaviorNow d' \<and> \<not> fbdo d' \<and>
      behaviors d' = (behaviors d)[nat i := h\<lparr>activated := True\<rparr>] \<and> buttons d' = buttons d \<and>
      tls d' = tls d \<and> wf d'"
proof (cases "blightCounter h = 0")
  case True
  have "rd (behaviors d) i = Inr h" using assms(2-4) wf_sizes(3) [OF assms(1)] by (simp add: rd_in)
  with True show ?thesis by (simp add: toggleBehavior_def)
next
  case False
  then show ?thesis using start_effect [OF assms False] presD [OF pres_toggleBehavior [OF assms(1)]] by auto
qed

lemma quiet_answers: "answers quiet"
  by (simp add: answers_def quiet_def)

text \<open>
  C39: START twice in a row (the START square stays active while a behaviour runs): the first START deletes the
  log's connection object and clears its pointer; the second one uses the null pointer, before it draws or marks
  anything: it pushes its log record through it or, when the library is not ready for the record, ends the stream
  of the object that is no longer there.
\<close>

theorem start_twice:
  assumes "wf d" "0 \<le> i" "i < 20" "blightCounter (behaviors d ! nat i) \<noteq> 0" "answers E"
    and "toggleBehavior E i 4 d = Inr e"
  shows "\<not> fbdo e \<and> toggleBehavior E i 4 e = Inl BadPointer \<and>
    andThen (runTaskFireBaseAppendUserActionWithWhat E touchScreenInteraction behaviorOn ''toggleBehavior''
      (bname (behaviors e ! nat i)) e) firebaseEnd = Inl BadPointer"
proof -
  have len: "length (behaviors d) = 20" using assms(1) by (rule wf_sizes)
  define h where "h = behaviors d ! nat i"
  have r: "rd (behaviors d) i = Inr h" using assms(2,3) len by (simp add: rd_in h_def)
  have fb: "fbdo d"
  proof (rule ccontr)
    assume "\<not> fbdo d"
    then show False using assms(4-6) r
      by (auto simp: toggleBehavior_def firebaseEnd_def need_fbdo_def h_def answers_def andThen_eq_Inr
          runTaskFireBaseAppendUserActionWithWhat_def taskFireBaseAppendUserActionWithWhat_def wait_ready_def
          push_json_def Let_def emit_def split: option.splits if_splits)
  qed
  from start_effect [OF assms(1-3) h_def fb assms(5)] assms(4,6) have e: "\<not> fbdo e"
    "behaviors e = (behaviors d)[nat i := h\<lparr>activated := True\<rparr>]" by (auto simp: h_def)
  have r': "rd (behaviors e) i = Inr (h\<lparr>activated := True\<rparr>)" using assms(2,3) len by (simp add: rd_in e(2))
  have log: "andThen (runTaskFireBaseAppendUserActionWithWhat E touchScreenInteraction behaviorOn ''toggleBehavior'' w e)
      firebaseEnd = Inl BadPointer" for w
    using e(1) assms(5)
    by (auto simp: firebaseEnd_def answers_def runTaskFireBaseAppendUserActionWithWhat_def taskFireBaseAppendUserActionWithWhat_def
        wait_ready_def need_fbdo_def push_json_def Let_def emit_def simp del: not_None_eq split: option.split)
  have first: "seqr (firebaseEnd # cs) = (\<lambda>a. andThen (firebaseEnd a) (seqr cs))" for cs
    by (rule ext) simp
  have "toggleBehavior E i 4 e = andThen (andThen (runTaskFireBaseAppendUserActionWithWhat E touchScreenInteraction
      behaviorOn ''toggleBehavior'' (bname h) e) firebaseEnd) (seqr [start_stop E EPD_BLACK EPD_WHITE None 0,
      set_activated i True, on_display (window 14 184 (74 + 74) 40), ok activateBehavior])"
    using r' assms(4) by (simp add: toggleBehavior_def h_def andThen_assoc first)
  then have "toggleBehavior E i 4 e = Inl BadPointer" by (simp add: log)
  then show ?thesis using e(1) log by simp
qed

theorem start_twice_witness:
  "\<exists>e. toggleBehavior quiet 0 4 with_training = Inr e \<and> toggleBehavior quiet 0 4 e = Inl BadPointer"
proof -
  have b: "fbdo with_training" "behaviors with_training ! nat 0 = training" "blightCounter training \<noteq> 0"
    by (simp_all add: with_training_def boot_state_def training_def no_behavior_def)
  obtain e where "toggleBehavior quiet 0 4 with_training = Inr e"
    using start_effect [OF with_training_wf, of 0 training quiet] quiet_answers b by auto
  then show ?thesis using start_twice [OF with_training_wf, of 0 quiet e] quiet_answers b by auto
qed

end
