(* ===== verification/Behavior_Run.thy ===== *)
theory Behavior_Run
  imports Behavior_Control
begin

section \<open>A behaviour that runs\<close>

text \<open>
  What STOP does to the state; that the party ends after STOP, and the training goes on with its table;
  that a training left alone sends the messages of its table in order and ends in the idle state with the
  stream closed.
\<close>

subsection \<open>STOP\<close>

lemma disconnect_effect:
  "tls d \<noteq> NoContext \<Longrightarrow> disconnect E d =
     Inr (d\<lparr>out := out d @ [Tls CloseNotify, Tls FreeContext], tls := Freed\<rparr>)"
  "tls d = NoContext \<Longrightarrow> disconnect E d = Inl BadPointer"
  by (simp_all add: disconnect_def close_notify_def tls_call_def emit_def Let_def)

definition stopped :: "int \<Rightarrow> dev \<Rightarrow> dev \<Rightarrow> bool" where
  "stopped i d e \<longleftrightarrow> behaviors e = (behaviors d)[nat i := (behaviors d ! nat i)\<lparr>activated := False\<rparr>] \<and>
     \<not> startBehaviorNow e \<and> \<not> fest e \<and> fbdo e \<and> tls e = Freed \<and> buttons e = buttons d \<and>
     lastBehaviorId e = lastBehaviorId d \<and> entertainment_msg e = entertainment_msg d \<and>
     entertainment_num_lights e = entertainment_num_lights d \<and>
     (\<exists>es. out e = out d @ es @ [Tls CloseNotify, Tls FreeContext] \<and> set es \<subseteq> {FbNew, Millis})"

lemma stop_effect:
  assumes "wf d" "0 \<le> i" "i < 20" "activated (behaviors d ! nat i)" "tls d \<noteq> NoContext"
  shows "\<exists>e. toggleBehavior E i 5 d = Inr e \<and> stopped i d e"
proof -
  have len: "length (behaviors d) = 20" using assms(1) by (rule wf_sizes)
  have r: "rd (behaviors d) i = Inr (behaviors d ! nat i)" using assms(2,3) len by (simp add: rd_in)
  have log: "\<exists>es. out (append_action_what E a b c w t) = out t @ es \<and> set es \<subseteq> {Millis}" for a b c w t
    using may_log_out [of E _ t] by (auto simp: append_action_what_def may_log_def millis_def emit_def Let_def)
  define h where "h = behaviors d ! nat i"
  obtain p where p: "whenr (currentPageOnScreen d = ''drawBehavior'') (start_stop E EPD_WHITE EPD_BLACK None 0) d =
      Inr (d\<lparr>display := p\<rparr>)" "panel_ready p"
    using wf_ui_parts(1) [OF assms(1)]
    by (cases "currentPageOnScreen d = ''drawBehavior''") (simp_all add: start_stop_def ui_simps that [of "display d"])
  define t where "t = d\<lparr>display := p, behaviors := (behaviors d)[nat i := h\<lparr>activated := False\<rparr>],
    startBehaviorNow := False, fest := False, fbdo := True, out := out d @ [FbNew]\<rparr>"
  define u where "u = append_action_what E touchScreenInteraction behaviorOff ''toggleBehavior'' (bname h) t"
  obtain es where u: "out u = out d @ [FbNew] @ es" "set es \<subseteq> {Millis}"
    using log [of touchScreenInteraction behaviorOff "''toggleBehavior''" "bname h" t]
    by (auto simp: u_def t_def)
  have "toggleBehavior E i 5 d = andThen (on_display (window 14 184 (74 + 74) 40) u) (disconnect E)"
    using assms(2-4) len r p
    by (simp add: toggleBehavior_def set_activated_def put_behavior_def wr_in rd_in fb_begin_def emit_def seqr_single
        h_def u_def t_def)
  also have "\<dots> = disconnect E (u\<lparr>display := shown (window 14 184 (74 + 74) 40) p\<rparr>)"
    using p(2) by (simp add: ui_simps u_def t_def)
  finally show ?thesis using u assms(5)
    by (auto simp: disconnect_effect stopped_def u_def t_def h_def intro!: exI [of _ "FbNew # es"])
qed

lemma stop_without_context:
  assumes "wf d" "0 \<le> i" "i < 20" "activated (behaviors d ! nat i)" "tls d = NoContext"
  shows "toggleBehavior E i 5 d = Inl BadPointer"
proof -
  have len: "length (behaviors d) = 20" using assms(1) by (rule wf_sizes)
  have r: "rd (behaviors d) i = Inr (behaviors d ! nat i)" using assms(2,3) len by (simp add: rd_in)
  show ?thesis
    using assms(2-5) len r wf_ui_parts(1) [OF assms(1)]
    by (cases "currentPageOnScreen d = ''drawBehavior''")
      (simp_all add: toggleBehavior_def start_stop_def ui_simps set_activated_def put_behavior_def wr_in
        rd_in fb_begin_def emit_def seqr_single disconnect_effect)
qed

text \<open>
  C27: STOP of a running behaviour marks it stopped, tells the tasks to end, opens the log's connection
  again and closes and frees the stream, in this order; STOP of a behaviour that does not run changes
  nothing; STOP before the task has ever allocated the TLS context (within 1000 milliseconds after the
  first START) uses a null pointer.
\<close>

theorem stop_behavior_result:
  assumes "wf d" "0 \<le> i" "i < 20"
  shows "if \<not> activated (behaviors d ! nat i) then toggleBehavior E i 5 d = Inr d
    else if tls d = NoContext then toggleBehavior E i 5 d = Inl BadPointer
    else \<exists>e. toggleBehavior E i 5 d = Inr e \<and> stopped i d e"
proof -
  have "rd (behaviors d) i = Inr (behaviors d ! nat i)"
    using assms(2,3) wf_sizes(3) [OF assms(1)] by (simp add: rd_in)
  then show ?thesis
    using stop_effect [OF assms] stop_without_context [OF assms] by (simp add: toggleBehavior_def)
qed

text \<open>A device on which behaviour 0, a training with one lamp and three entries, runs.\<close>

definition active_training :: behavior where
  "active_training = training\<lparr>activated := True, bdelay := 100, entriesCount := 3, entries := map two_colours [0..<500]\<rparr>"

definition running :: dev where
  "running = with_training\<lparr>behaviors := replicate 20 active_training, tls := Live,
     entertainment_num_lights := 1, entertainment_msg := message_header @ replicate 9 0\<rparr>"

lemma running_ok:
  "wf running" "tls running \<noteq> NoContext" "behaviors running ! 0 = active_training"
  "lastBehaviorId running = 0" "activated active_training" "take 16 (entertainment_msg running) = message_header"
  "entertainment_num_lights running = blightCounter active_training"
proof -
  show "wf running"
    using with_training_wf
    by (simp add: running_def wf_defs active_training_def training_def no_behavior_def wf_behavior_def message_size_eq)
qed (simp_all add: running_def active_training_def with_training_def training_def boot_state_def)

theorem stop_behavior_result_witness:
  "\<exists>e. toggleBehavior quiet 0 5 running = Inr e \<and> stopped 0 running e"
  using stop_behavior_result [OF running_ok(1), of 0 quiet] running_ok by simp


subsection \<open>The party ends, the training does not\<close>

lemma stop_inactive:
  "rd (behaviors d) (uint (lastBehaviorId d)) = Inr h \<Longrightarrow> \<not> activated h \<Longrightarrow>
   stop_behavior E d = Inr (d\<lparr>startBehaviorNow := False\<rparr>)"
  by (simp add: stop_behavior_def toggleBehavior_def)

lemma done_inactive:
  "rd (behaviors d) (uint (lastBehaviorId d)) = Inr h \<Longrightarrow> \<not> activated h \<Longrightarrow>
   behavior_step E (BDone, d) = Inr (BIdle, d\<lparr>startBehaviorNow := False\<rparr>)"
  by (simp add: behavior_step_def stop_inactive)

lemma stopped_last:
  assumes "stopped i d e" "wf d" "i = uint (lastBehaviorId d)" "0 \<le> i" "i < 20"
  shows "rd (behaviors e) (uint (lastBehaviorId e)) = Inr ((behaviors d ! nat i)\<lparr>activated := False\<rparr>)"
proof -
  have "nat i < 20" using assms(4,5) by simp
  then show ?thesis using assms wf_sizes(3) [OF assms(2)] by (simp add: stopped_def rd_in del: nat_uint_eq)
qed

text \<open>
  after STOP the task that plays a party is idle two steps later, has sent nothing more and leaves
  the stream closed; the next step waits.
\<close>

lemma party_stops:
  assumes "wf d" "i = uint (lastBehaviorId d)" "i < 20" "activated (behaviors d ! nat i)" "tls d \<noteq> NoContext"
  shows "\<exists>e. toggleBehavior E i 5 d = Inr e \<and>
    andThen (behavior_step E (BParty, e)) (behavior_step E) = Inr (BIdle, e) \<and>
    behavior_step E (BIdle, e) = Inr (BIdle, vTaskDelay 100 e) \<and> tls e = Freed"
proof -
  have i: "0 \<le> i" using assms(2) by simp
  obtain e where e: "toggleBehavior E i 5 d = Inr e" "stopped i d e"
    using stop_effect [OF assms(1) i assms(3-5)] by blast
  have "behavior_step E (BDone, e) = Inr (BIdle, e\<lparr>startBehaviorNow := False\<rparr>)"
    by (rule done_inactive [OF stopped_last [OF e(2) assms(1,2) i assms(3)]]) simp
  then show ?thesis using e by (auto simp: stopped_def behavior_step_def)
qed

subsection \<open>A training that is left alone\<close>

fun behavior_rounds :: "env \<Rightarrow> nat \<Rightarrow> behavior_pc \<times> dev \<Rightarrow> (behavior_pc \<times> dev) res" where
  "behavior_rounds E 0 s = Inr s"
| "behavior_rounds E (Suc n) s = andThen (behavior_step E s) (behavior_rounds E n)"

lemma rounds_add: "behavior_rounds E (m + n) s = andThen (behavior_rounds E m s) (behavior_rounds E n)"
proof (induction m arbitrary: s)
  case (Suc m)
  then show ?case by (cases "behavior_step E s") simp_all
qed simp

text \<open>
  The messages that the rounds hand to the TLS library: a step that starts a write, from offset 0, writes
  the buffer as the step leaves it.
\<close>

fun starts_write :: "event \<Rightarrow> bool" where
  "starts_write (Tls (SslWrite k n)) = (k = 0)"
| "starts_write e = False"

fun messages :: "env \<Rightarrow> nat \<Rightarrow> behavior_pc \<times> dev \<Rightarrow> u8 list list" where
  "messages E 0 s = []"
| "messages E (Suc n) s =
     (case behavior_step E s of
        Inl e \<Rightarrow> []
      | Inr s' \<Rightarrow>
          replicate (length (filter starts_write (drop (length (out (snd s))) (out (snd s'))))) (entertainment_msg (snd s')) @
          messages E n s')"

lemma messages_add:
  "behavior_rounds E m s = Inr s' \<Longrightarrow> messages E (m + n) s = messages E m s @ messages E n s'"
proof (induction m arbitrary: s)
  case (Suc m)
  then show ?case by (cases "behavior_step E s") simp_all
qed simp

text \<open>The TLS library takes the rest of a message in one write, or fails.\<close>

definition whole_writes :: "env \<Rightarrow> bool" where
  "whole_writes E \<longleftrightarrow> 2 \<le> env_patience E \<and>
     (\<forall>es k n. env_tls E (es @ [Tls (SslWrite k n)]) = int (n - k) \<or> env_tls E (es @ [Tls (SslWrite k n)]) < 0)"

definition playing :: "behavior \<Rightarrow> dev \<Rightarrow> bool" where
  "playing h d \<longleftrightarrow> wf d \<and> tls d \<noteq> NoContext \<and> last_b d = Inr h \<and> unat (blightCounter h) \<le> 20 \<and>
     entertainment_num_lights d = blightCounter h"

lemma playing_out: "playing h d \<Longrightarrow> playing h (d\<lparr>out := es\<rparr>)"
  by (simp add: playing_def last_b_def)

lemma send_update_effect:
  assumes "whole_writes E" "playing h d"
  shows "send_update E d = Inr (d\<lparr>out := out d @ [Tls (SslWrite 0 (length (entertainment_msg d)))]\<rparr>)"
proof -
  obtain f where f: "env_patience E = Suc (Suc f)"
    using assms(1) unfolding whole_writes_def by (metis add_2_eq_Suc le_Suc_ex)
  define n where "n = length (entertainment_msg d)"
  have d: "tls d \<noteq> NoContext" "0 < n"
    using assms(2) by (simp_all add: playing_def wf_defs n_def message_size_eq)
  define r where "r = env_tls E (out d @ [Tls (SslWrite 0 n)])"
  have "r = int n \<or> r < 0" using assms(1) unfolding whole_writes_def r_def by (metis diff_zero)
  moreover have "update_loop E (Suc (Suc f)) 0 d =
    (let t = d\<lparr>out := out d @ [Tls (SslWrite 0 n)]\<rparr>
     in if r < 0 then Inr (False, t)
        else if n < nat r then Inl OutOfBounds else update_loop E (Suc f) (nat r) t)"
    using update_loop_step [OF d(1), of 0 E r "Suc f"] d(2) by (simp add: n_def r_def Let_def)
  ultimately show ?thesis
    using update_loop_end [of "d\<lparr>out := out d @ [Tls (SslWrite 0 n)]\<rparr>" n E f]
    by (auto simp: send_update_def stream_update_def f n_def Let_def)
qed

text \<open>The message that shows an entry of the table: behind the header, the same colour for every lamp.\<close>

definition entry_message :: "u8 list \<Rightarrow> behavior \<Rightarrow> nat \<Rightarrow> u8 list" where
  "entry_message header h i = header @ concat (map (\<lambda>l. let c = entries h ! i
     in [0, 0, blightIds h ! l, red c, red c, green c, green c, blue c, blue c]) [0..<unat (blightCounter h)])"

lemma entry_slots:
  "entry_message header h i = header @ concat (map slot (map (\<lambda>l. (blightIds h ! l, entries h ! i)) [0..<unat (blightCounter h)]))"
  unfolding entry_message_def slot_def light_bytes_def u8_drop_8 u8_and_255 map_map comp_def by (simp add: Let_def)

lemma forr_same:
  "(\<And>k. k < n \<Longrightarrow> \<exists>t. forr [0..<k] f d = Inr t \<and> g k t = f k t) \<Longrightarrow> forr [0..<n] g d = forr [0..<n] f d"
proof (induction n)
  case (Suc n)
  then have "forr [0..<n] g d = forr [0..<n] f d" by auto
  then show ?case using Suc.prems [of n] by (auto simp: forr_append forr_single)
qed simp

lemma colour_lights_effect:
  assumes "playing h d" "i < 500" and m: "m = entry_message (take 16 (entertainment_msg d)) h i"
  shows "colour_lights E (table_colour i) d = Inr (d\<lparr>entertainment_msg := m\<rparr>) \<and>
    playing h (d\<lparr>entertainment_msg := m\<rparr>) \<and> take 16 m = take 16 (entertainment_msg d)"
proof -
  define n where "n = unat (blightCounter h)"
  define cs where "cs = map (\<lambda>l. (blightIds h ! l, entries h ! i)) [0..<n]"
  define f where "f = (\<lambda>k t. case cs ! k of (l, c) \<Rightarrow>
    andThen (setColorRGB (of_nat k) l (red c) (green c) (blue c) t) (\<lambda>(_, d). Inr d))"
  define g where "g = (\<lambda>l t. andThen (last_b t) (\<lambda>h. andThen (rd (blightIds h) (int l)) (\<lambda>j.
    andThen (table_colour i l t) (\<lambda>(c, d). andThen (setColorRGB (of_nat l) j (red c) (green c) (blue c) d)
      (\<lambda>(_, d). Inr d)))))"
  have w: "wf d" "last_b d = Inr h" "unat (entertainment_num_lights d) = n" "n \<le> 20" "tls d \<noteq> NoContext"
    using assms(1) by (simp_all add: playing_def n_def)
  have ok: "stream_ok d" using w(1,5) by (simp add: wf_defs stream_ok_def)
  have len: "length (entertainment_msg d) = 16 + 9 * n" using ok w(3) by (simp add: stream_ok_def message_size_eq)
  have cs: "length cs = unat (entertainment_num_lights d)" "length cs = n" using w(3) by (simp_all add: cs_def)
  have hr: "rd (behaviors d) (uint (lastBehaviorId d)) = Inr h" using w(2) by (simp add: last_b_def)
  have h: "wf_behavior h" by (rule wf_sizes(7) [OF w(1) presD [OF pres_rd hr]])
  have step: "\<exists>t. forr [0..<k] f d = Inr t \<and> g k t = f k t" if k: "k < n" for k
  proof -
    define t where "t = d\<lparr>entertainment_msg := take 16 (entertainment_msg d) @ concat (map slot (take k cs)) @
      drop (16 + 9 * k) (entertainment_msg d)\<rparr>"
    have "forr [0..<k] f d = Inr t"
      using set_lights_upto [OF ok cs(1), of k] k cs(2) by (simp add: f_def t_def)
    moreover have "last_b t = Inr h" using w(2) by (simp add: last_b_def t_def)
    moreover have "rd (blightIds h) (int k) = Inr (blightIds h ! k)" "rd (entries h) (int i) = Inr (entries h ! i)"
      using h k w(4) assms(2) by (simp_all add: wf_behavior_def)
    ultimately show ?thesis using k by (simp add: g_def f_def table_colour_def cs_def)
  qed
  have "colour_lights E (table_colour i) d = forr [0..<n] g d"
    using w(2) by (simp add: colour_lights_def g_def n_def)
  also have "\<dots> = forr [0..<n] f d" by (rule forr_same [OF step])
  also have "\<dots> = Inr (d\<lparr>entertainment_msg := m\<rparr>)"
    using set_lights_upto [OF ok cs(1) order_refl] len
    by (simp add: f_def cs(2) m entry_slots cs_def n_def)
  finally have "colour_lights E (table_colour i) d = Inr (d\<lparr>entertainment_msg := m\<rparr>)" .
  moreover have "length m = length (entertainment_msg d)"
    using len by (simp add: m entry_slots n_def del: map_map)
  then have "playing h (d\<lparr>entertainment_msg := m\<rparr>)" using assms(1) by (simp add: playing_def wf_defs last_b_def)
  ultimately show ?thesis using len by (simp add: m entry_message_def)
qed

lemma train_step:
  assumes "whole_writes E" "keeps_time E T" "playing h d" "i < unat (entriesCount h)"
  shows "\<exists>a e. behavior_step E (BTrain i, d) = Inr (BTrainWait i (word_of_int a), e) \<and> playing h e \<and>
    a \<le> T (out e) \<and> T (out e) \<le> a + 1000 \<and>
    entertainment_msg e = entry_message (take 16 (entertainment_msg d)) h i \<and>
    take 16 (entertainment_msg e) = take 16 (entertainment_msg d) \<and>
    messages E 1 (BTrain i, d) = [entertainment_msg e] \<and> tls e = tls d"
proof -
  define o1 where "o1 = out d @ [Millis]"
  define msg where "msg = entry_message (take 16 (entertainment_msg d)) h i"
  have i: "i < 500" using assms(4) u8_bound [of "entriesCount h"] by simp
  have c: "colour_lights E (table_colour i) (d\<lparr>out := o1\<rparr>) = Inr (d\<lparr>out := o1, entertainment_msg := msg\<rparr>)"
    "playing h (d\<lparr>out := o1, entertainment_msg := msg\<rparr>)" "take 16 msg = take 16 (entertainment_msg d)"
    using colour_lights_effect [OF playing_out [OF assms(3), of o1] i, of msg E] by (simp_all add: msg_def)
  define w where "w = Tls (SslWrite 0 (length msg))"
  have "T o1 + pause w \<le> T (o1 @ [w]) \<and> T (o1 @ [w]) \<le> T o1 + pause w + 1000"
    using keeps_timeD(2,3) [OF assms(2)] by blast
  moreover have s: "behavior_step E (BTrain i, d) =
      Inr (BTrainWait i (word_of_int (T o1)), d\<lparr>entertainment_msg := msg, out := o1 @ [w]\<rparr>)"
    using assms(3,4) c send_update_effect [OF assms(1) c(2)]
    by (simp add: behavior_step_def playing_def millis_def emit_def Let_def o1_def w_def keeps_timeD(1) [OF assms(2)])
  moreover have "playing h (d\<lparr>entertainment_msg := msg, out := o1 @ [w]\<rparr>)"
    using playing_out [OF c(2), of "o1 @ [w]"] by simp
  ultimately show ?thesis using c(3)
    by (intro exI [of _ "T o1"] exI [of _ "d\<lparr>entertainment_msg := msg, out := o1 @ [w]\<rparr>"])
      (simp add: w_def o1_def msg_def [symmetric])
qed

text \<open>While the task waits it sends the same message again and again.\<close>

lemma train_wait:
  assumes "whole_writes E" "keeps_time E T" "0 \<le> bdelay h" "bdelay h * 10 < 2 ^ 31"
    and "playing h d" "a \<le> T (out d)" "T (out d) \<le> a + bdelay h * 10 + 4000"
  shows "\<exists>n e r. behavior_rounds E n (BTrainWait i (word_of_int a), d) = Inr (BTrain (Suc i), e) \<and> playing h e \<and>
    entertainment_msg e = entertainment_msg d \<and> tls e = tls d \<and>
    messages E n (BTrainWait i (word_of_int a), d) = replicate r (entertainment_msg d)"
  using assms(5-7)
proof (induction "nat (a + bdelay h * 10 - T (out d))" arbitrary: d rule: less_induct)
  case less
  define o1 where "o1 = out d @ [Millis]"
  have t1: "T (out d) \<le> T o1" "T o1 \<le> T (out d) + 1000"
    using keeps_timeD(2,3) [OF assms(2), of "out d" Millis] by (simp_all add: o1_def)
  have "uint (word_of_int (T o1) - word_of_int a :: u32) = T o1 - a"
    using t1 less.prems assms(3,4) by (intro elapsed_word) simp_all
  moreover have "uint (word_of_int (bdelay h * 10) :: u32) = bdelay h * 10"
    using assms(3,4) by (simp only: unsigned_of_int) (simp add: take_bit_int_eq_self)
  ultimately have waits: "(word_of_int (T o1) - word_of_int a :: u32) < word_of_int (bdelay h * 10) \<longleftrightarrow>
      T o1 - a < bdelay h * 10" by (simp only: word_less_def)
  have asked: "still_waiting E (word_of_int a) d = Inr (T o1 - a < bdelay h * 10, d\<lparr>out := o1\<rparr>)"
    using less.prems(1) waits
    by (simp add: still_waiting_def playing_def millis_def emit_def Let_def last_b_def o1_def
        keeps_timeD(1) [OF assms(2)])
  show ?case
  proof (cases "T o1 - a < bdelay h * 10")
    case False
    then have s: "behavior_step E (BTrainWait i (word_of_int a), d) = Inr (BTrain (Suc i), d\<lparr>out := o1\<rparr>)"
      using asked by (simp add: behavior_step_def)
    then have "messages E 1 (BTrainWait i (word_of_int a), d) = replicate 0 (entertainment_msg d)"
      by (simp add: o1_def)
    moreover have "behavior_rounds E 1 (BTrainWait i (word_of_int a), d) = Inr (BTrain (Suc i), d\<lparr>out := o1\<rparr>)"
      using s by simp
    ultimately show ?thesis using playing_out [OF less.prems(1), of o1]
      by (intro exI [of _ 1] exI [of _ "d\<lparr>out := o1\<rparr>"] exI [of _ 0]) simp
  next
    case True
    define w where "w = Tls (SslWrite 0 (length (entertainment_msg d)))"
    define o3 where "o3 = (o1 @ [w]) @ [Ticks 50]"
    have t3: "T o1 + 500 \<le> T o3" "T o3 \<le> T o1 + 2500"
      using keeps_timeD(2,3) [OF assms(2), of o1 w] keeps_timeD(2,3) [OF assms(2), of "o1 @ [w]" "Ticks 50"]
      by (simp_all add: o3_def w_def portTICK_PERIOD_MS_def)
    have s: "behavior_step E (BTrainWait i (word_of_int a), d) = Inr (BTrainWait i (word_of_int a), d\<lparr>out := o3\<rparr>)"
      using asked True send_update_effect [OF assms(1) playing_out [OF less.prems(1)]]
      by (simp add: behavior_step_def vTaskDelay_def emit_def o3_def w_def)
    have "\<exists>n e r. behavior_rounds E n (BTrainWait i (word_of_int a), d\<lparr>out := o3\<rparr>) =
        Inr (BTrain (Suc i), e) \<and> playing h e \<and> entertainment_msg e = entertainment_msg (d\<lparr>out := o3\<rparr>) \<and>
        tls e = tls (d\<lparr>out := o3\<rparr>) \<and> messages E n (BTrainWait i (word_of_int a), d\<lparr>out := o3\<rparr>) = replicate r (entertainment_msg (d\<lparr>out := o3\<rparr>))"
      using True t1 t3 less.prems by (intro less.hyps playing_out) simp_all
    then obtain n e r where n: "behavior_rounds E n (BTrainWait i (word_of_int a), d\<lparr>out := o3\<rparr>) =
        Inr (BTrain (Suc i), e)" "playing h e" "entertainment_msg e = entertainment_msg d" "tls e = tls d"
      "messages E n (BTrainWait i (word_of_int a), d\<lparr>out := o3\<rparr>) = replicate r (entertainment_msg d)" by auto
    have "messages E (Suc n) (BTrainWait i (word_of_int a), d) = replicate (Suc r) (entertainment_msg d)"
      using s n(5) by (simp add: o3_def o1_def w_def)
    moreover have "behavior_rounds E (Suc n) (BTrainWait i (word_of_int a), d) = Inr (BTrain (Suc i), e)"
      using s n(1) by simp
    ultimately show ?thesis using n(2-4) by blast
  qed
qed

text \<open>The messages that show the entries of the table from \<open>i\<close> on, each some more times than once.\<close>

definition shown_entries :: "u8 list \<Rightarrow> behavior \<Rightarrow> nat \<Rightarrow> (nat \<Rightarrow> nat) \<Rightarrow> u8 list list" where
  "shown_entries header h i extra =
     concat (map (\<lambda>j. replicate (Suc (extra j)) (entry_message header h j)) [i..<unat (entriesCount h)])"

lemma shown_entries_step:
  "i < unat (entriesCount h) \<Longrightarrow> shown_entries header h i (extra(i := r)) =
     replicate (Suc r) (entry_message header h i) @ shown_entries header h (Suc i) extra"
proof -
  assume i: "i < unat (entriesCount h)"
  have "map (\<lambda>j. replicate (Suc ((extra(i := r)) j)) (entry_message header h j)) [Suc i..<unat (entriesCount h)] =
      map (\<lambda>j. replicate (Suc (extra j)) (entry_message header h j)) [Suc i..<unat (entriesCount h)]"
    by (rule map_cong) auto
  then show ?thesis
    unfolding shown_entries_def upt_conv_Cons [OF i] list.map concat.simps by (simp only: fun_upd_same)
qed

lemma train_rounds:
  assumes "whole_writes E" "keeps_time E T" "0 \<le> bdelay h" "bdelay h * 10 < 2 ^ 31" "playing h d"
  shows "\<exists>n e extra. behavior_rounds E n (BTrain i, d) = Inr (BDone, e) \<and> playing h e \<and> tls e = tls d \<and>
    messages E n (BTrain i, d) = shown_entries (take 16 (entertainment_msg d)) h i extra"
  using assms(5)
proof (induction "unat (entriesCount h) - i" arbitrary: i d)
  case 0
  then have s: "behavior_step E (BTrain i, d) = Inr (BDone, d)"
    by (simp add: behavior_step_def playing_def)
  have "messages E 1 (BTrain i, d) = shown_entries (take 16 (entertainment_msg d)) h i (\<lambda>_. 0)"
    using s 0 by (simp add: shown_entries_def)
  moreover have "behavior_rounds E 1 (BTrain i, d) = Inr (BDone, d)" using s by simp
  ultimately show ?case using 0(2) by blast
next
  case (Suc k)
  let ?head = "take 16 (entertainment_msg d)"
  have i: "i < unat (entriesCount h)" using Suc.hyps(2) by simp
  from train_step [OF assms(1,2) Suc.prems i] obtain a e where
    e: "behavior_step E (BTrain i, d) = Inr (BTrainWait i (word_of_int a), e)" "playing h e"
    "a \<le> T (out e)" "T (out e) \<le> a + 1000" "entertainment_msg e = entry_message ?head h i"
    "take 16 (entertainment_msg e) = ?head" "messages E 1 (BTrain i, d) = [entertainment_msg e]" "tls e = tls d" by blast
  have "T (out e) \<le> a + bdelay h * 10 + 4000" using e(4) assms(3) by simp
  from train_wait [OF assms(1-4) e(2,3) this, of i] obtain m f r where
    f: "behavior_rounds E m (BTrainWait i (word_of_int a), e) = Inr (BTrain (Suc i), f)" "playing h f"
    "entertainment_msg f = entertainment_msg e" "tls f = tls e"
    "messages E m (BTrainWait i (word_of_int a), e) = replicate r (entertainment_msg e)" by blast
  have "k = unat (entriesCount h) - Suc i" using Suc.hyps(2) by simp
  from Suc.hyps(1) [OF this f(2)] obtain n g extra where
    g: "behavior_rounds E n (BTrain (Suc i), f) = Inr (BDone, g)" "playing h g" "tls g = tls f"
    "messages E n (BTrain (Suc i), f) = shown_entries (take 16 (entertainment_msg f)) h (Suc i) extra" by blast
  have one: "behavior_rounds E 1 (BTrain i, d) = Inr (BTrainWait i (word_of_int a), e)" using e(1) by simp
  have "behavior_rounds E (1 + (m + n)) (BTrain i, d) = Inr (BDone, g)"
    unfolding rounds_add [of E 1] one using f(1) g(1) by (simp add: rounds_add)
  moreover have "messages E (1 + (m + n)) (BTrain i, d) = shown_entries ?head h i (extra(i := r))"
    unfolding messages_add [OF one] messages_add [OF f(1)] shown_entries_step [OF i]
    using e(5-7) f(3,5) g(4) by simp
  ultimately show ?case using g(2,3) e(8) f(4) by metis
qed

lemma done_running:
  assumes "playing h d" "activated h"
  shows "\<exists>e. behavior_step E (BDone, d) = Inr (BIdle, e) \<and> tls e = Freed \<and> fbdo e \<and> \<not> startBehaviorNow e \<and>
    last_b e = Inr (h\<lparr>activated := False\<rparr>) \<and> messages E 1 (BDone, d) = []"
proof -
  define i where "i = uint (lastBehaviorId d)"
  have h: "rd (behaviors d) i = Inr h" "wf d" "tls d \<noteq> NoContext" using assms(1) by (simp_all add: playing_def last_b_def i_def)
  then have i: "0 \<le> i" "i < 20" "behaviors d ! nat i = h" using wf_sizes(3) [OF h(2)] by (auto simp: rd_eq_Inr)
  from stop_effect [OF h(2) i(1,2) _ h(3), of E] i(3) assms(2) obtain f where
    f: "toggleBehavior E i 5 d = Inr f" "stopped i d f" by auto
  note last = stopped_last [OF f(2) h(2) i_def i(1,2), unfolded i(3)]
  define g where "g = f\<lparr>startBehaviorNow := False\<rparr>"
  have g: "rd (behaviors g) (uint (lastBehaviorId g)) = Inr (h\<lparr>activated := False\<rparr>)"
    using last by (simp add: g_def)
  have "behavior_step E (BDone, d) = andThen (stop_behavior E g) (\<lambda>d. Inr (BIdle, d))"
    using f(1) by (simp add: behavior_step_def stop_behavior_def [of E] i_def g_def)
  then have s: "behavior_step E (BDone, d) = Inr (BIdle, g\<lparr>startBehaviorNow := False\<rparr>)"
    using stop_inactive [OF g] by simp
  obtain es where es: "out f = out d @ es @ [Tls CloseNotify, Tls FreeContext]" "set es \<subseteq> {FbNew, Millis}"
    using f(2) by (auto simp: stopped_def)
  have "filter starts_write es = []" using es(2) by (auto simp: filter_empty_conv)
  then have "messages E 1 (BDone, d) = []" using s es(1) by (simp add: g_def)
  moreover have "tls g = Freed" "fbdo g" using f(2) by (simp_all add: g_def stopped_def)
  ultimately show ?thesis using s g
    by (intro exI [of _ "g\<lparr>startBehaviorNow := False\<rparr>"]) (simp add: last_b_def)
qed

text \<open>
  C19: a training that nobody stops ends: after finitely many rounds of the task the behaviour is marked as
  stopped, the stream is closed and the log's connection is open again; the task is idle. By then the
  messages that it has handed to the TLS library show all entries of its table in order: each message has the
  header and then, per lamp, a zero byte, the lamp's number in two bytes and the colour of the entry, and
  each entry is sent at least once before the next one. (With a clock that keeps time and a TLS library that
  takes messages whole or fails.)
\<close>

theorem training_ends:
  assumes "whole_writes E" "keeps_time E T" "wf d" "tls d \<noteq> NoContext" "uint (lastBehaviorId d) < 20"
    and "h = behaviors d ! unat (lastBehaviorId d)" "activated h" "unat (blightCounter h) \<le> 20"
    and "entertainment_num_lights d = blightCounter h" "0 \<le> bdelay h" "bdelay h * 10 < 2 ^ 31"
  shows "\<exists>n e extra. behavior_rounds E n (BTrain 0, d) = Inr (BIdle, e) \<and> tls e = Freed \<and> fbdo e \<and>
    \<not> startBehaviorNow e \<and> last_b e = Inr (h\<lparr>activated := False\<rparr>) \<and>
    messages E n (BTrain 0, d) = concat (map (\<lambda>i. replicate (Suc (extra i))
      (entry_message (take 16 (entertainment_msg d)) h i)) [0..<unat (entriesCount h)])"
proof -
  have "last_b d = Inr h" using assms(5,6) wf_sizes(3) [OF assms(3)] by (simp add: last_b_def rd_in)
  then have "playing h d" using assms(3,4,8,9) by (simp add: playing_def)
  from train_rounds [OF assms(1,2,10,11) this, of 0] obtain n e extra where
    e: "behavior_rounds E n (BTrain 0, d) = Inr (BDone, e)" "playing h e"
    "messages E n (BTrain 0, d) = shown_entries (take 16 (entertainment_msg d)) h 0 extra" by blast
  obtain g where g: "behavior_step E (BDone, e) = Inr (BIdle, g)" "tls g = Freed" "fbdo g" "\<not> startBehaviorNow g"
    "last_b g = Inr (h\<lparr>activated := False\<rparr>)" "messages E 1 (BDone, e) = []"
    using done_running [OF e(2) assms(7), of E] by blast
  have "behavior_rounds E (n + 1) (BTrain 0, d) = Inr (BIdle, g)" unfolding rounds_add e(1) using g(1) by simp
  moreover have "messages E (n + 1) (BTrain 0, d) = shown_entries (take 16 (entertainment_msg d)) h 0 extra"
    unfolding messages_add [OF e(1)] using e(3) g(6) by simp
  ultimately show ?thesis using g(2-5) unfolding shown_entries_def by blast
qed

lemma calm_writes: "whole_writes calm"
proof -
  have "env_tls calm = quiet_tls" "env_patience calm = 100" by (simp_all add: calm_def ticking_def quiet_def)
  then show ?thesis by (simp add: whole_writes_def quiet_tls_def)
qed

theorem training_ends_witness:
  "\<exists>n e extra. behavior_rounds calm n (BTrain 0, running) = Inr (BIdle, e) \<and> tls e = Freed \<and> \<not> startBehaviorNow e \<and>
     messages calm n (BTrain 0, running) =
       replicate (Suc (extra 0)) (entry_message message_header active_training 0) @
       replicate (Suc (extra 1)) (entry_message message_header active_training 1) @
       replicate (Suc (extra (2 :: nat))) (entry_message message_header active_training 2)"
proof -
  have n: "[0..<unat (entriesCount active_training)] = [0, 1, 2]"
    by (simp add: active_training_def upt_rec)
  have "unat (blightCounter active_training) \<le> 20" "0 \<le> bdelay active_training"
    "bdelay active_training * 10 < 2 ^ 31" "uint (lastBehaviorId running) < 20"
    "active_training = behaviors running ! unat (lastBehaviorId running)"
    using running_ok by (simp_all add: active_training_def training_def no_behavior_def)
  then show ?thesis
    using training_ends [OF calm_writes calm_ok(4) running_ok(1,2) _ _ running_ok(5) _ running_ok(7)] running_ok(6)
    unfolding n by (simp del: replicate_Suc) blast
qed

subsection \<open>STOP of a training\<close>

text \<open>
  C28: the task that plays a training does not look at \<open>activated\<close>: after STOP, which frees the TLS context,
  it goes on, handing the message that waits some more times and then all remaining entries of the table, in order
  and each at least once, to the freed context, and only then it ends. (While it waits for the
  clock behind entry \<open>k\<close>; the writes may all fail.)
\<close>

theorem training_ignores_stop:
  assumes "whole_writes E" "keeps_time E T" "wf d" "tls d \<noteq> NoContext" "i = uint (lastBehaviorId d)" "i < 20"
    and "h = behaviors d ! nat i" "activated h" "unat (blightCounter h) \<le> 20"
    and "entertainment_num_lights d = blightCounter h" "0 \<le> bdelay h" "bdelay h * 10 < 2 ^ 31"
    and "toggleBehavior E i 5 d = Inr e" "a \<le> T (out e)" "T (out e) \<le> a + bdelay h * 10 + 4000"
  shows "tls e = Freed \<and> entertainment_msg e = entertainment_msg d \<and>
    (\<exists>n f again extra. behavior_rounds E n (BTrainWait k (word_of_int a), e) = Inr (BIdle, f) \<and> tls f = Freed \<and>
      messages E n (BTrainWait k (word_of_int a), e) = replicate again (entertainment_msg d) @
        concat (map (\<lambda>j. replicate (Suc (extra j)) (entry_message (take 16 (entertainment_msg d)) h j))
          [Suc k..<unat (entriesCount h)]))"
proof -
  let ?h = "h\<lparr>activated := False\<rparr>"
  have i: "0 \<le> i" using assms(5) by simp
  have st: "stopped i d e" using stop_effect [OF assms(3) i assms(6), of E] assms(4,7,8,13) by auto
  have same: "tls e = Freed" "entertainment_msg e = entertainment_msg d" using st by (simp_all add: stopped_def)
  have "rd (behaviors e) (uint (lastBehaviorId e)) = Inr ?h"
    using stopped_last [OF st assms(3,5) i assms(6)] assms(7) by simp
  moreover have "wf e" by (rule presD [OF pres_toggleBehavior [OF assms(3)] assms(13)])
  ultimately have "playing ?h e" using assms(9,10) st by (simp add: playing_def last_b_def stopped_def)
  then obtain m f again where f: "behavior_rounds E m (BTrainWait k (word_of_int a), e) = Inr (BTrain (Suc k), f)"
    "playing ?h f" "entertainment_msg f = entertainment_msg e" "tls f = tls e"
    "messages E m (BTrainWait k (word_of_int a), e) = replicate again (entertainment_msg e)"
    using train_wait [OF assms(1,2) _ _ _ assms(14), of ?h k] assms(11,12,15) by auto
  obtain n g extra where g: "behavior_rounds E n (BTrain (Suc k), f) = Inr (BDone, g)" "playing ?h g" "tls g = tls f"
    "messages E n (BTrain (Suc k), f) = shown_entries (take 16 (entertainment_msg f)) ?h (Suc k) extra"
    using train_rounds [OF assms(1,2) _ _ f(2), of "Suc k"] assms(11,12) by auto
  define u where "u = g\<lparr>startBehaviorNow := False\<rparr>"
  have s: "behavior_step E (BDone, g) = Inr (BIdle, u)"
    unfolding u_def by (rule done_inactive [of _ ?h]) (use g(2) in \<open>simp_all add: playing_def last_b_def\<close>)
  then have last: "messages E 1 (BDone, g) = []" by (simp add: u_def)
  let ?w = "(BTrainWait k (word_of_int a), e)"
  have "behavior_rounds E (m + (n + 1)) ?w = Inr (BIdle, u)"
    unfolding rounds_add f(1) andThen_simps g(1) using s by simp
  moreover have "messages E (m + (n + 1)) ?w = replicate again (entertainment_msg d) @
      shown_entries (take 16 (entertainment_msg d)) h (Suc k) extra"
    unfolding messages_add [OF f(1)] messages_add [OF g(1)] last f(5) g(4) f(3) same(2)
    by (simp add: shown_entries_def entry_message_def)
  moreover have "tls u = Freed" using g(3) f(4) same(1) by (simp add: u_def)
  ultimately show ?thesis using same unfolding shown_entries_def by blast
qed

theorem training_ignores_stop_witness:
  "\<exists>e n f again extra. toggleBehavior calm 0 5 running = Inr e \<and> tls e = Freed \<and>
     behavior_rounds calm n (BTrainWait 0 (word_of_int (sum_list (map pause (out e)))), e) = Inr (BIdle, f) \<and>
     messages calm n (BTrainWait 0 (word_of_int (sum_list (map pause (out e)))), e) =
       replicate again (entertainment_msg running) @
       replicate (Suc (extra 1)) (entry_message message_header active_training 1) @
       replicate (Suc (extra (2 :: nat))) (entry_message message_header active_training 2)"
proof -
  obtain e where e: "toggleBehavior calm 0 5 running = Inr e"
    using stop_effect [OF running_ok(1), of 0 calm] running_ok by auto
  define a where "a = sum_list (map pause (out e))"
  have n: "[Suc 0..<unat (entriesCount active_training)] = [1, 2]"
    by (simp add: active_training_def upt_rec)
  have h: "unat (blightCounter active_training) \<le> 20" "0 \<le> bdelay active_training"
    "bdelay active_training * 10 < 2 ^ 31" "a \<le> a + bdelay active_training * 10 + 4000"
    "(0 :: int) = uint (lastBehaviorId running)" "active_training = behaviors running ! nat 0"
    using running_ok(3,4) by (simp_all add: active_training_def training_def no_behavior_def)
  have t: "entertainment_num_lights running = blightCounter active_training" by (rule running_ok(7))
  obtain n f again extra where "tls e = Freed"
    "behavior_rounds calm n (BTrainWait 0 (word_of_int a), e) = Inr (BIdle, f)"
    "messages calm n (BTrainWait 0 (word_of_int a), e) = replicate again (entertainment_msg running) @
      concat (map (\<lambda>j. replicate (Suc (extra j)) (entry_message message_header active_training j)) [1, 2])"
    using training_ignores_stop [OF calm_writes calm_ok(4) running_ok(1,2) h(5) _ h(6) running_ok(5) h(1) t h(2,3) e _ h(4) [unfolded a_def],
        of 0, unfolded n running_ok(6)]
    unfolding a_def by auto
  then show ?thesis using e unfolding a_def
    by (intro exI [of _ e] exI [of _ n] exI [of _ f] exI [of _ again] exI [of _ extra])
      (simp only: list.map concat.simps append_Nil2 append_assoc simp_thms)
qed

end
