(* ===== verification/Touch_Input.thy ===== *)
theory Touch_Input
  imports Touch Startup
begin

section \<open>From the finger to the handler\<close>

text \<open>
  The position the touch driver reports is the pixel under the finger, in every rotation; the gestures
  it reports are well-formed; when a lift is a tap; and a press and release on the screen runs the
  handler of the button that is drawn there.
\<close>

subsection \<open>Positions\<close>

text \<open>
  The registers of the chip for an event code \<open>ev\<close> at the raw position \<open>q\<close>: twelve bits per axis, the
  event in the two top bits of the first byte, the number \<open>tid\<close> of the finger in the high half of the
  third.
\<close>

definition byte :: "int \<Rightarrow> u8" where
  "byte v = word_of_int v"

definition touch_bytes :: "nat \<Rightarrow> nat \<Rightarrow> pix \<Rightarrow> u8 list" where
  "touch_bytes ev tid q =
     [0, 0, 1, byte (int ev * 64 + fst q div 256), byte (fst q mod 256),
      byte (int tid * 16 + snd q div 256), byte (snd q mod 256)] @ replicate 9 0"

lemma uint_byte: "uint (byte v) = v mod 256"
  by (simp only: byte_def unsigned_of_int) (simp add: take_bit_eq_mod)

lemma read_axis_value:
  "read_axis data hi lo = word_of_int (uint (data ! hi) mod 16 * 256 + uint (data ! lo))"
proof -
  define b c where "b = data ! hi" and "c = data ! lo"
  have "(0x0F :: u8) = mask 4" by (simp add: mask_eq_exp_minus_1)
  then have low: "b AND 0x0F = take_bit 4 b" by (simp only: take_bit_eq_mask)
  have "\<not> bit (push_bit 8 (ucast (take_bit 4 b)) :: u16) n \<or> \<not> bit (ucast c :: u16) n" for n
    by (auto simp: bit_push_bit_iff bit_unsigned_iff dest: bit_imp_le_length)
  then have either: "push_bit 8 (ucast (take_bit 4 b)) OR ucast c = (push_bit 8 (ucast (take_bit 4 b)) + ucast c :: u16)"
    by (rule disjunctive_add [symmetric])
  have sum: "read_axis data hi lo = push_bit 8 (ucast (take_bit 4 b)) + ucast c"
    by (simp only: read_axis_def low either b_def [symmetric] c_def [symmetric])
  have "ucast (take_bit 4 b) = (word_of_int (uint b mod 16) :: u16)"
    by (simp only: ucast_eq unsigned_take_bit_eq) (simp add: take_bit_eq_mod)
  moreover have "ucast c = (word_of_int (uint c) :: u16)" by (rule ucast_eq)
  ultimately show ?thesis
    unfolding sum b_def [symmetric] c_def [symmetric] push_bit_eq_mult by (simp only: of_int_add of_int_mult) simp
qed

lemma touch_bytes_nth:
  "touch_bytes ev tid q ! 3 = byte (int ev * 64 + fst q div 256)"
  "touch_bytes ev tid q ! 4 = byte (fst q mod 256)"
  "touch_bytes ev tid q ! 5 = byte (int tid * 16 + snd q div 256)"
  "touch_bytes ev tid q ! 6 = byte (snd q mod 256)"
  by (simp_all add: touch_bytes_def nth_Cons')

lemma touch_axis:
  assumes "0 \<le> v" "v < (4096 :: int)"
  shows "(k * 16 + v div 256) mod 256 mod 16 * 256 + v mod 256 mod 256 = v"
proof -
  have "v div 256 < 16" "0 \<le> v div 256" using assms by auto
  then have "(k * 16 + v div 256) mod 256 mod 16 = v div 256"
    by (simp add: mod_mod_cancel)
  then show ?thesis by simp
qed

lemma touch_bytes_axes:
  assumes "0 \<le> x" "x < 4096" "0 \<le> y" "y < 4096"
  shows "read_axis (touch_bytes ev tid (x, y)) 3 4 = word_of_int x"
    "read_axis (touch_bytes ev tid (x, y)) 5 6 = word_of_int y"
proof -
  have "int ev * 64 = int ev * 4 * 16" by simp
  then show "read_axis (touch_bytes ev tid (x, y)) 3 4 = word_of_int x"
    using touch_axis [OF assms(1,2), of "int ev * 4"]
    by (simp only: read_axis_value touch_bytes_nth uint_byte fst_conv)
  show "read_axis (touch_bytes ev tid (x, y)) 5 6 = word_of_int y"
    using touch_axis [OF assms(3,4), of "int tid"]
    by (simp only: read_axis_value touch_bytes_nth uint_byte snd_conv)
qed

lemma touch_bytes_event:
  assumes "0 \<le> x" "x < 4096" "ev < 4"
  shows "ucast (drop_bit 6 (touch_bytes ev tid (x, y) ! 3)) = (of_nat ev :: u16)"
proof -
  have "x div 256 < 16" "0 \<le> x div 256" using assms by auto
  then have "(int ev * 64 + x div 256) mod 256 = int ev * 64 + x div 256" "(int ev * 64 + x div 256) div 64 = int ev"
    using assms(3) by (auto intro!: mod_pos_pos_trivial)
  then have "uint (drop_bit 6 (byte (int ev * 64 + x div 256))) = int ev"
    by (simp only: unsigned_drop_bit_eq uint_byte) (simp add: drop_bit_eq_div take_bit_eq_mod)
  then show ?thesis by (simp only: touch_bytes_nth fst_conv ucast_eq) simp
qed

lemma rotate_touch_inverse:
  assumes "panel_ok p" "on_screen p (x, y)" "rotate_point (rotation p) x y = (rx, ry)"
  shows "rotate_touch (of_nat (rotation p)) 176 264 (word_of_int rx, word_of_int ry) = (word_of_int x, word_of_int y)"
proof -
  have "rotation p = 0 \<or> rotation p = 1 \<or> rotation p = 2 \<or> rotation p = 3"
    using assms(1) by (auto simp: panel_ok_def)
  then show ?thesis using assms(3)
    by (auto simp: rotate_touch_def rotate_point_def panel_consts)
qed

lemma touch_read:
  assumes "panel_ok p" "on_screen p (x, y)" "touch_rotation t = of_nat (rotation p)"
    and "touch_width t = 176" "touch_height t = 264" "ev < 4"
  shows "\<exists>t'. readData (Some (touch_bytes ev tid (rotate_point (rotation p) x y))) t = (True, t') \<and>
    touchX t' ! 0 = word_of_int x \<and> touchY t' ! 0 = word_of_int y \<and> touchEv t' ! 0 = of_nat ev"
proof -
  obtain rx ry where q: "rotate_point (rotation p) x y = (rx, ry)" by fastforce
  have "0 \<le> rx" "rx < 4096" "0 \<le> ry" "ry < 4096"
    using rotate_point_in [OF assms(1,2)] q by simp_all
  then show ?thesis
    using rotate_touch_inverse [OF assms(1,2) q] assms(3-6)
    by (simp add: readData_def Let_def q touch_point_def touch_bytes_axes touch_bytes_event)
qed

text \<open>
  C31: when the chip reports the physical pixel at which the display, in any of its four rotations,
  shows the point \<open>(x, y)\<close>, the driver (set to the same rotation and to the size of the panel) reads
  the position \<open>(x, y)\<close> and the event.
\<close>

theorem touched_pixel:
  assumes "panel_ok p" "on_screen p (x, y)" "touch_rotation t = of_nat (rotation p)"
    and "touch_width t = 176" "touch_height t = 264" "ev < 4"
  shows "\<exists>t'. readData (Some (touch_bytes ev tid (rotate_point (rotation p) x y))) t = (True, t') \<and>
    touchX t' ! 0 = word_of_int x \<and> touchY t' ! 0 = word_of_int y \<and> touchEv t' ! 0 = of_nat ev"
  using touch_read [OF assms] by blast

theorem touched_pixel_witness:
  "\<exists>t'. readData (Some (touch_bytes 1 0 (rotate_point 1 20 30)))
      (touch_new\<lparr>touch_rotation := 1, touch_width := 176, touch_height := 264\<rparr>) = (True, t') \<and>
    touchX t' ! 0 = 20 \<and> touchY t' ! 0 = 30 \<and> touchEv t' ! 0 = 1"
proof -
  have "panel_ok (displayRotation 1 panel_new)" "rotation (displayRotation 1 panel_new) = 1"
    using displayRotation_ok [OF panel_new_ok, of 1] by (simp_all add: displayRotation_def setRotation_def Let_def)
  moreover have "on_screen (displayRotation 1 panel_new) (20, 30)"
    by (simp add: on_screen_def displayRotation_def setRotation_def Let_def display_width_def
        display_height_def panel_consts)
  ultimately show ?thesis
    using touched_pixel [of "displayRotation 1 panel_new" 20 30
        "touch_new\<lparr>touch_rotation := 1, touch_width := 176, touch_height := 264\<rparr>" 1 0] by simp
qed

subsection \<open>Gestures\<close>

text \<open>What a client may expect: a drag starts, moves and ends; a touch and a tap are never inside a drag.\<close>

fun gesture :: "bool \<Rightarrow> TEvent \<Rightarrow> bool option" where
  "gesture dragging DragStart = (if dragging then None else Some True)"
| "gesture dragging DragMove = (if dragging then Some True else None)"
| "gesture dragging DragEnd = (if dragging then Some False else None)"
| "gesture dragging Tap = (if dragging then None else Some False)"
| "gesture dragging TouchStart = Some False"
| "gesture dragging TouchMove = Some dragging"
| "gesture dragging TouchEnd = Some dragging"
| "gesture dragging TE_None = None"

fun gestures :: "bool \<Rightarrow> TEvent list \<Rightarrow> bool option" where
  "gestures dragging [] = Some dragging"
| "gestures dragging (e # es) = (case gesture dragging e of None \<Rightarrow> None | Some d \<Rightarrow> gestures d es)"

lemma gestures_append:
  "gestures d (es @ es') = (case gestures d es of None \<Rightarrow> None | Some d' \<Rightarrow> gestures d' es')"
  by (induction es arbitrary: d) (auto split: option.split)

lemma readData_frame [simp]:
  "dragMode (snd (readData b t)) = dragMode t" "touchHandler (snd (readData b t)) = touchHandler t"
  "touchStartTime (snd (readData b t)) = touchStartTime t"
  by (simp_all add: readData_def Let_def split: option.split)

lemma processTouch_gestures:
  assumes "processTouch block us us' t = (es, t')" "touchHandler t"
  shows "gestures (dragMode t) (map snd es) = Some (dragMode t') \<and> touchHandler t'"
proof -
  obtain b u where r: "readData block (t\<lparr>touchSemaphore := False\<rparr>) = (b, u)" by fastforce
  have u: "dragMode u = dragMode t" "touchHandler u"
    using readData_frame [of block "t\<lparr>touchSemaphore := False\<rparr>"] assms(2) r by simp_all
  show ?thesis
    using assms(1) r u
    by (cases "raw_event (touchEv u ! 0)")
      (auto simp: processTouch_def press_down_def contact_def lift_up_def fireEvent_def Let_def split: if_splits)
qed

text \<open>
  C20: whatever the chip reports, whenever interrupts come, the events handed to the application are
  well-formed gestures, and the driver's \<open>_dragMode\<close> says whether a drag is going on.
\<close>

theorem touch_gestures:
  assumes "touch_run t es t'" "touchHandler t"
  shows "gestures (dragMode t) (map snd es) = Some (dragMode t')"
proof -
  from assms have "gestures (dragMode t) (map snd es) = Some (dragMode t') \<and> touchHandler t'"
  proof induction
    case (run_step t es t' es' t'')
    from run_step.hyps(2) have "gestures (dragMode t') (map snd es') = Some (dragMode t'') \<and> touchHandler t''"
      using run_step.IH run_step.prems
      by cases (auto simp: isr_def processTouch_gestures)
    with run_step.IH run_step.prems show ?case by (simp add: gestures_append)
  qed simp
  then show ?thesis ..
qed

theorem touch_gestures_witness:
  "let t = isr (registerTouchHandler touch_new)
   in \<exists>t'. touch_run t [((0, 0), TouchStart)] t' \<and> gestures False [TouchStart] = Some (dragMode t')"
proof -
  let ?t = "isr (registerTouchHandler touch_new)"
  obtain t' where p: "processTouch (Some (replicate 16 0)) 0 0 ?t = ([((0, 0), TouchStart)], t')"
    by (simp add: processTouch_def readData_def Let_def touch_point_def read_axis_def rotate_touch_def
        raw_event_def press_down_def fireEvent_def isr_def registerTouchHandler_def touch_new_def nth_Cons')
  have "touchSemaphore ?t" by (simp add: isr_def)
  from run_step [OF run_start touch_step.process [OF this p]] have r: "touch_run ?t [((0, 0), TouchStart)] t'"
    by simp
  have "touchHandler ?t" "\<not> dragMode ?t" by (simp_all add: isr_def registerTouchHandler_def touch_new_def)
  with touch_gestures [OF r] r show ?thesis by (auto simp: Let_def)
qed


subsection \<open>The touch loop of the application\<close>

text \<open>\<open>loopEink\<close>: the events of one round are handed to \<open>touchEvent\<close>, whose arguments are 16 bits signed.\<close>

definition loopEink :: "env \<Rightarrow> u8 list option \<Rightarrow> int \<Rightarrow> int \<Rightarrow> touch \<times> dev \<Rightarrow> (touch \<times> dev) res" where
  "loopEink E block us us' s = (case s of (t, d) \<Rightarrow>
     case processTouch block us us' t of (es, t) \<Rightarrow>
       andThen (forr es (\<lambda>(q, e). touchEvent E (sint (fst q)) (sint (snd q)) e) d) (\<lambda>d. Inr (t, d)))"

text \<open>The touch controller after the start-up: turned with the display, its handler registered.\<close>

definition touch_started :: touch where
  "touch_started = registerTouchHandler (touch_setRotation 2 (snd (touch_begin (\<lambda>r. 0) 22 176 264 touch_new)))"

lemma touch_started_settings:
  "touch_rotation touch_started = 2" "touch_width touch_started = 176" "touch_height touch_started = 264"
  "touchHandler touch_started" "\<not> dragMode touch_started"
  by (simp_all add: touch_started_def registerTouchHandler_def touch_setRotation_def touch_begin_def
      readRegister8_def touch_new_def)

lemma sint_coordinate: "0 \<le> x \<Longrightarrow> x < 4096 \<Longrightarrow> sint (word_of_int x :: u16) = x"
  by (simp add: signed_of_int signed_take_bit_int_eq_self)

lemma readData_keeps:
  "snd (readData b t) = t' \<Longrightarrow> touchHandler t' = touchHandler t \<and> touch_rotation t' = touch_rotation t \<and>
     touch_width t' = touch_width t \<and> touch_height t' = touch_height t \<and>
     touchStartTime t' = touchStartTime t \<and> dragMode t' = dragMode t"
  by (auto simp: readData_def Let_def split: option.splits)

definition turned_with :: "panel \<Rightarrow> touch \<Rightarrow> bool" where
  "turned_with p t \<longleftrightarrow> panel_ok p \<and> touch_rotation t = of_nat (rotation p) \<and> touch_width t = 176 \<and>
     touch_height t = 264 \<and> touchHandler t"

lemma touch_at:
  assumes "turned_with p t" "on_screen p (x, y)" "ev < 4"
  shows "\<exists>u. readData (Some (touch_bytes ev tid (rotate_point (rotation p) x y))) (t\<lparr>touchSemaphore := False\<rparr>)
      = (True, u) \<and> touchX u ! 0 = word_of_int x \<and> touchY u ! 0 = word_of_int y \<and> touchEv u ! 0 = of_nat ev \<and>
      turned_with p u \<and> touchStartTime u = touchStartTime t \<and> dragMode u = dragMode t"
proof -
  have "touch_rotation (t\<lparr>touchSemaphore := False\<rparr>) = of_nat (rotation p)" "panel_ok p"
    "touch_width (t\<lparr>touchSemaphore := False\<rparr>) = 176" "touch_height (t\<lparr>touchSemaphore := False\<rparr>) = 264"
    using assms(1) by (simp_all add: turned_with_def)
  from touch_read [OF this(2) assms(2) this(1,3,4) assms(3), of tid] obtain u where
    u: "readData (Some (touch_bytes ev tid (rotate_point (rotation p) x y))) (t\<lparr>touchSemaphore := False\<rparr>) = (True, u)"
      "touchX u ! 0 = word_of_int x" "touchY u ! 0 = word_of_int y" "touchEv u ! 0 = of_nat ev" by blast
  then have "snd (readData (Some (touch_bytes ev tid (rotate_point (rotation p) x y)))
    (t\<lparr>touchSemaphore := False\<rparr>)) = u" by simp
  from readData_keeps [OF this] u assms(1) show ?thesis by (auto simp: turned_with_def)
qed

lemma turned_panel: "turned_with (displayRotation 2 panel_new) touch_started"
  using displayRotation_ok [OF panel_new_ok, of 2] touch_started_settings
  by (simp add: turned_with_def displayRotation_def setRotation_def Let_def)

lemma turned_on_screen: "on_screen (displayRotation 2 panel_new) (20, 30)"
  by (simp add: on_screen_def displayRotation_def setRotation_def Let_def display_width_def display_height_def
      panel_consts)

lemma press_event:
  assumes "turned_with p t" "on_screen p (x, y)"
  shows "\<exists>t'. processTouch (Some (touch_bytes 0 tid (rotate_point (rotation p) x y))) us us' t =
      ([((word_of_int x, word_of_int y), TouchStart)], t') \<and> turned_with p t' \<and>
      touchStartTime t' = to_millis us \<and> \<not> dragMode t'"
proof -
  obtain u where "readData (Some (touch_bytes 0 tid (rotate_point (rotation p) x y))) (t\<lparr>touchSemaphore := False\<rparr>)
      = (True, u)" "touchX u ! 0 = word_of_int x" "touchY u ! 0 = word_of_int y" "touchEv u ! 0 = 0"
    "turned_with p u" using touch_at [OF assms, of 0 tid] by auto
  then show ?thesis
    by (simp add: processTouch_def raw_event_def press_down_def fireEvent_def turned_with_def Let_def)
qed

lemma lift_event:
  assumes "turned_with p t" "on_screen p (x, y)" "\<not> dragMode t"
  shows "\<exists>t'. processTouch (Some (touch_bytes 1 tid (rotate_point (rotation p) x y))) us us' t =
      (((word_of_int x, word_of_int y), TouchEnd) # (if to_millis us - touchStartTime t \<le> 900
        then [((word_of_int x, word_of_int y), Tap)] else []), t') \<and> turned_with p t' \<and>
      \<not> dragMode t'"
proof -
  obtain u where "readData (Some (touch_bytes 1 tid (rotate_point (rotation p) x y))) (t\<lparr>touchSemaphore := False\<rparr>)
      = (True, u)" "touchX u ! 0 = word_of_int x" "touchY u ! 0 = word_of_int y" "touchEv u ! 0 = 1"
    "turned_with p u" "touchStartTime u = touchStartTime t" "\<not> dragMode u"
    using touch_at [OF assms(1,2), of 1 tid] assms(3) by auto
  then show ?thesis
    by (simp add: processTouch_def raw_event_def lift_up_def fireEvent_def turned_with_def Let_def)
qed

text \<open>
  C4: pressing the point of the panel where \<open>(x, y)\<close> is shown changes nothing in the application;
  lifting the finger there, with no report in between, runs the touch dispatch once at \<open>(x, y)\<close> when at
  most 900 milliseconds have passed since, and does nothing otherwise.
\<close>

theorem press_and_lift:
  assumes "turned_with (display d) t" "on_screen (display d) (x, y)"
    and "u div 1000 \<le> v div 1000" "v div 1000 - u div 1000 < 2 ^ 32"
  shows "\<exists>t1 t2.
    loopEink E (Some (touch_bytes 0 tid (rotate_point (rotation (display d)) x y))) u u' (t, d) = Inr (t1, d) \<and>
    loopEink E (Some (touch_bytes 1 tid (rotate_point (rotation (display d)) x y))) v v' (t1, d) =
      (if v div 1000 - u div 1000 \<le> 900
       then andThen (onTouchEvent E x y d) (\<lambda>(_, e). Inr (t2, e)) else Inr (t2, d))"
proof -
  obtain t1 where t1: "processTouch (Some (touch_bytes 0 tid (rotate_point (rotation (display d)) x y))) u u' t =
      ([((word_of_int x, word_of_int y), TouchStart)], t1)" "turned_with (display d) t1"
      "touchStartTime t1 = to_millis u" "\<not> dragMode t1"
    using press_event [OF assms(1,2)] by blast
  have "uint (to_millis v - to_millis u) = v div 1000 - u div 1000"
    unfolding to_millis_def using assms(3,4) by (intro elapsed_word) simp_all
  then have "to_millis v - to_millis u \<le> 900 \<longleftrightarrow> v div 1000 - u div 1000 \<le> 900"
    by (simp add: word_le_def)
  with lift_event [OF t1(2) assms(2) t1(4), of tid v v'] obtain t2 where
    t2: "processTouch (Some (touch_bytes 1 tid (rotate_point (rotation (display d)) x y))) v v' t1 =
      (((word_of_int x, word_of_int y), TouchEnd) # (if v div 1000 - u div 1000 \<le> 900
        then [((word_of_int x, word_of_int y), Tap)] else []), t2)"
    by (auto simp: t1(3))
  have "panel_ok (display d)" using assms(1) by (simp add: turned_with_def)
  then have "0 \<le> x" "x < 4096" "0 \<le> y" "y < 4096"
    using assms(2) by (auto simp: panel_ok_def on_screen_def panel_consts split: if_splits)
  then have "sint (word_of_int x :: u16) = x" "sint (word_of_int y :: u16) = y"
    by (simp_all add: sint_coordinate)
  with t1(1) t2 have
    "loopEink E (Some (touch_bytes 0 tid (rotate_point (rotation (display d)) x y))) u u' (t, d) = Inr (t1, d)"
    "loopEink E (Some (touch_bytes 1 tid (rotate_point (rotation (display d)) x y))) v v' (t1, d) =
      (if v div 1000 - u div 1000 \<le> 900
       then andThen (onTouchEvent E x y d) (\<lambda>(_, e). Inr (t2, e)) else Inr (t2, d))"
    by (simp add: loopEink_def touchEvent_def, cases "onTouchEvent E x y d") (auto simp: loopEink_def touchEvent_def)
  then show ?thesis by blast
qed

theorem press_and_lift_witness:
  "let d = boot_state\<lparr>display := displayRotation 2 panel_new\<rparr>
   in \<exists>t1 t2. loopEink quiet (Some (touch_bytes 0 0 (rotate_point 2 20 30))) 1000000 1000000 (touch_started, d) =
        Inr (t1, d) \<and>
      loopEink quiet (Some (touch_bytes 1 0 (rotate_point 2 20 30))) 1100000 1100000 (t1, d) =
        andThen (onTouchEvent quiet 20 30 d) (\<lambda>(_, e). Inr (t2, e))"
  using press_and_lift [of "boot_state\<lparr>display := displayRotation 2 panel_new\<rparr>" touch_started 20 30
      1000000 1100000 quiet 0 1000000 1100000] turned_panel turned_on_screen
  by (simp add: displayRotation_def setRotation_def Let_def)


text \<open>
  After a tap, a failing transfer leaves the old reading in place, and the driver reports the lift
  again; it is not taken for a second tap, unless the clock's lower 32 bits are within 900 of zero.
\<close>

lemma stale_lift:
  assumes "lift_up p us t = (es, t')" "to_millis us - touchStartTime t \<le> 900" "900 < to_millis us'"
    and "raw_event (touchEv t ! 0) = LiftUp" "touchHandler t"
  shows "snd (last es) = Tap \<and> map snd (fst (processTouch None us' us'' t')) = [TouchEnd]"
  using assms
  by (auto simp: lift_up_def Let_def fireEvent_def processTouch_def readData_def)

end
