(* ===== verification/Screen.thy ===== *)
theory Screen
  imports Startup
begin

section \<open>What is on the screen, and what is sent to it\<close>

text \<open>
  Painting as an update of the set of black pixels; the picture of a rectangle and of an icon; the
  bytes of a full update; the windows of a partial update that are sent and those that are lost.
\<close>

subsection \<open>Pictures\<close>

context canvas
begin

lemma picture_other: "q \<notin> fst ` set ps \<Longrightarrow> picture a ps d q = d q"
proof (induction ps arbitrary: d)
  case (Cons pc ps)
  then have "picture a ps d' q = d' q" for d' by simp
  with Cons.prems show ?case by (cases pc) auto
qed simp

lemma picture_last:
  "(q, c) \<in> set ps \<Longrightarrow> (\<And>c'. (q, c') \<in> set ps \<Longrightarrow> c' = c) \<Longrightarrow>
   picture a ps d q = (if a q then c = 0 else d q)"
proof (induction ps arbitrary: d)
  case (Cons pc ps)
  obtain q' c' where pc: "pc = (q', c')" by (cases pc)
  show ?case
  proof (cases "q \<in> fst ` set ps")
    case True
    then obtain e where "(q, e) \<in> set ps" by force
    with Cons.prems(2) have m: "(q, c) \<in> set ps" by auto
    have "picture a ps d' q = (if a q then c = 0 else d' q)" for d'
      by (rule Cons.IH [OF m]) (use Cons.prems(2) in simp)
    then show ?thesis by (cases "q = q'") (simp_all add: pc)
  next
    case False
    then have "(q, c) \<notin> set ps" by force
    with Cons.prems(1) have "q' = q" "c' = c" by (simp_all add: pc)
    with picture_other [OF False] show ?thesis by (simp add: pc)
  qed
qed simp

end

text \<open>
  Painting a list of pixels never faults and refines the picture: the set of black pixels is
  changed as the list says, in its order, pixels outside the screen being ignored.
\<close>

lemma paint_refines_picture:
  assumes "panel_ok p"
  shows "\<exists>p'. paint ps p = Inr p' \<and> panel_ok p' \<and> on_screen p' = on_screen p \<and>
    black_at p' = screen.picture (on_screen p) ps (black_at p)"
  using screen.paint_picture [OF assms, of ps] by (simp add: paint_def)

text \<open>
  A filled rectangle colours exactly the pixels of the rectangle that are on the screen.
\<close>

lemma filled_rectangle:
  assumes "panel_ok p" "1 \<le> h"
  shows "\<exists>p'. paint_all (fillRect x y w h) c p = Inr p' \<and>
    (\<forall>i j. black_at p' (i, j) =
      (if x \<le> i \<and> i < x + w \<and> y \<le> j \<and> j < y + h \<and> on_screen p (i, j) then c = 0 else black_at p (i, j)))"
  using screen.paint_solid [OF assms(1), of c "fillRect x y w h"] assms(2)
  by (auto simp: paint_all_def paint_def set_fillRect)

definition icon_bit :: "bitmap \<Rightarrow> nat \<Rightarrow> nat \<Rightarrow> bool" where
  "icon_bit b i j = bit (bitmap_data b ! nat (int j * ((bitmap_width b + 7) div 8) + int i div 8)) (7 - i mod 8)"

lemma pixel_member:
  "((i, j), c) \<in> set (concat (map (\<lambda>j. map (\<lambda>i. ((x + int i, y + int j), f i j)) [0..<nat w]) [0..<nat h])) \<longleftrightarrow>
   x \<le> i \<and> i < x + w \<and> y \<le> j \<and> j < y + h \<and> c = f (nat (i - x)) (nat (j - y))"
proof
  assume "x \<le> i \<and> i < x + w \<and> y \<le> j \<and> j < y + h \<and> c = f (nat (i - x)) (nat (j - y))"
  then show "((i, j), c) \<in> set (concat (map (\<lambda>j. map (\<lambda>i. ((x + int i, y + int j), f i j)) [0..<nat w]) [0..<nat h]))"
    by (auto intro!: bexI [of _ "nat (j - y)"] image_eqI [of _ _ "nat (i - x)"])
qed auto

lemma icon_pixels:
  "bitmap_pixels x y (bitmap_data b) (bitmap_width b) (bitmap_height b) =
    Inr (concat (map (\<lambda>j. map (\<lambda>i. ((x + int i, y + int j), if icon_bit b i j then 255 else 0))
      [0..<nat (bitmap_width b)]) [0..<nat (bitmap_height b)]))"
  using bitmap_dims_pos [of b] bitmap_pixels_spec [of "bitmap_width b" "bitmap_height b" "bitmap_data b" x y]
  by (simp add: bitmap_data_length icon_bit_def mult.commute)

text \<open>
  an icon is drawn bit for bit: where it is on the screen, a clear bit of the icon is black and a set
  bit is white, and nothing outside its rectangle changes.
\<close>

lemma icon_drawn:
  assumes "panel_ok p"
  shows "\<exists>p'. panel_drawBitmap x y (bitmap_data b) (bitmap_width b) (bitmap_height b) p = Inr p' \<and>
    (\<forall>i j. black_at p' (i, j) =
      (if x \<le> i \<and> i < x + bitmap_width b \<and> y \<le> j \<and> j < y + bitmap_height b \<and> on_screen p (i, j)
       then \<not> icon_bit b (nat (i - x)) (nat (j - y)) else black_at p (i, j)))"
proof -
  define ps where "ps = concat (map (\<lambda>j. map (\<lambda>i. ((x + int i, y + int j), if icon_bit b i j then 255 else 0 :: u16))
      [0..<nat (bitmap_width b)]) [0..<nat (bitmap_height b)])"
  obtain p' where p': "paint ps p = Inr p'" "black_at p' = screen.picture (on_screen p) ps (black_at p)"
    using screen.paint_picture [OF assms, of ps] by (auto simp: paint_def)
  have mem: "((i, j), c) \<in> set ps \<longleftrightarrow> x \<le> i \<and> i < x + bitmap_width b \<and> y \<le> j \<and> j < y + bitmap_height b \<and>
      c = (if icon_bit b (nat (i - x)) (nat (j - y)) then 255 else 0)" for i j c
    using pixel_member [of i j c x y "\<lambda>i j. if icon_bit b i j then 255 else 0"] by (simp add: ps_def)
  have "black_at p' (i, j) =
      (if x \<le> i \<and> i < x + bitmap_width b \<and> y \<le> j \<and> j < y + bitmap_height b \<and> on_screen p (i, j)
       then \<not> icon_bit b (nat (i - x)) (nat (j - y)) else black_at p (i, j))" for i j
  proof (cases "x \<le> i \<and> i < x + bitmap_width b \<and> y \<le> j \<and> j < y + bitmap_height b")
    case True
    define c :: u16 where "c = (if icon_bit b (nat (i - x)) (nat (j - y)) then 255 else 0)"
    have "((i, j), c) \<in> set ps" "\<And>c'. ((i, j), c') \<in> set ps \<Longrightarrow> c' = c" using True by (simp_all add: mem c_def)
    from screen.picture_last [OF this] True show ?thesis by (simp add: p'(2) c_def)
  next
    case False
    then have "(i, j) \<notin> fst ` set ps" using mem by force
    with False show ?thesis by (auto simp: p'(2) screen.picture_other)
  qed
  moreover have "panel_drawBitmap x y (bitmap_data b) (bitmap_width b) (bitmap_height b) p = Inr p'"
    using p'(1) by (simp add: panel_drawBitmap_def icon_pixels ps_def)
  ultimately show ?thesis by blast
qed

subsection \<open>Transfers\<close>

lemma send_simps [simp]: "io (send xs p) = io p @ xs" "buffer (send xs p) = buffer p" "rotation (send xs p) = rotation p"
  by (simp_all add: send_def)

text \<open>The picture as the controller gets it: a bit of a byte is 0 where the pixel is black.\<close>

definition frame_bytes :: "panel \<Rightarrow> spi list" where
  "frame_bytes p = map (\<lambda>b. Data (NOT b)) (buffer p)"

text \<open>
  \<open>update\<close> sends the whole picture twice, as the new image and, after the refresh, as the old one for
  the next partial update, and leaves the panel asleep; on the first update the old image is sent as
  white before. The buffer does not change.
\<close>

lemma update_sends_frame:
  assumes "sleep_after_update p"
  shows "\<exists>wake. io (panel_update p) = io p @ wake @
      (if initial p then Cmd 0x10 # replicate 5808 (Data 0xFF) else []) @
      Cmd 0x13 # frame_bytes p @ [Cmd 0x12, WaitBusy] @ Cmd 0x10 # frame_bytes p @
      [Cmd 0x02, WaitBusy, Cmd 0x07, Data 0xa5] \<and>
    {Cmd 0x10, Cmd 0x12, Cmd 0x13} \<inter> set wake = {} \<and>
    buffer (panel_update p) = buffer p \<and> \<not> initial (panel_update p) \<and> isAsleep (panel_update p)"
proof -
  define wake where "wake = [ResetPin 10, Cmd 0x01, Data 0x03, Data 0x00, Data 0x2b, Data 0x2b] @
      Cmd 0x06 # map Data epd_soft_start @ [Cmd 0x16, Data 0x00, Cmd 0x04, WaitBusy,
      Cmd 0x00, Data 0x1f, Cmd 0x30, Data 0x3a, Cmd 0x82, Data 0x08, DelayMs 2, Cmd 0x50, Data 0x97]"
  have "io (panel_update p) = io p @ wake @
      (if initial p then Cmd 0x10 # replicate 5808 (Data 0xFF) else []) @
      Cmd 0x13 # frame_bytes p @ [Cmd 0x12, WaitBusy] @ Cmd 0x10 # frame_bytes p @
      [Cmd 0x02, WaitBusy, Cmd 0x07, Data 0xa5]"
    using assms by (simp add: panel_update_def wakeUp_def sleep_def send_def Let_def wake_def frame_bytes_def panel_consts)
  moreover have "{Cmd 0x10, Cmd 0x12, Cmd 0x13} \<inter> set wake = {}"
    by (auto simp: wake_def epd_soft_start_def)
  moreover have "buffer (panel_update p) = buffer p" "\<not> initial (panel_update p)" "isAsleep (panel_update p)"
    using assms by (simp_all add: panel_update_def wakeUp_def sleep_def send_def Let_def)
  ultimately show ?thesis by blast
qed

text \<open>What a partial update sends, and whether it sends pixels at all.\<close>

definition new_io :: "panel \<Rightarrow> panel \<Rightarrow> spi list" where
  "new_io p p' = drop (length (io p)) (io p')"

definition commands :: "spi list \<Rightarrow> u8 set" where
  "commands xs = {c. Cmd c \<in> set xs}"

lemma writeToWindow_io:
  "\<exists>es. io (writeToWindow c x y x y w h p) = io p @ es \<and>
     commands es = (if x \<ge> 176 \<or> y \<ge> 264 then {} else {0x91, c})"
proof (cases "x \<ge> 176 \<or> y \<ge> 264")
  case False
  then show ?thesis
    by (auto simp: writeToWindow_def Let_def partialRamArea_def window_params_def panel_consts hi_byte_def
        lo_byte_def lo_f8_def window_data_def commands_def)
qed (auto simp: writeToWindow_def panel_consts commands_def intro: exI [of _ "[]"])

lemma other_io:
  "\<exists>es. io (initPartialUpdate p) = io p @ es \<and> commands es = {0x00, 0x82, 0x50, 0x20, 0x21, 0x22, 0x23, 0x24}"
  "\<exists>es. io (refreshWindow x y w h p) = io p @ es \<and> commands es = {0x16}"
  "\<exists>es. io (wakeUp p) = io p @ es \<and> commands es = {0x01, 0x06, 0x16, 0x04, 0x00, 0x30, 0x82, 0x50}"
  by (auto simp: initPartialUpdate_def refreshWindow_def wakeUp_def Let_def window_params_def hi_byte_def
      lo_byte_def lo_f8_def commands_def epd_soft_start_def)

lemma commands_append [simp]:
  "commands (xs @ ys) = commands xs \<union> commands ys" "commands (WaitBusy # ys) = commands ys"
  by (auto simp: commands_def)

lemma updateWindow_commands:
  assumes "rotate_window (rotation p) (to_u16 x0, to_u16 y0, to_u16 w0, to_u16 h0) = (x, y, w, h)"
  shows "\<exists>es. io (updateWindow x0 y0 w0 h0 p) = io p @ es \<and>
    (0x15 \<in> commands es \<longleftrightarrow> x < 176 \<and> y < 264) \<and> (0x14 \<in> commands es \<longleftrightarrow> x < 176 \<and> y < 264)"
proof -
  define p0 where "p0 = (if \<not> using_partial_mode p \<or> isAsleep p then wakeUp p else p)"
  obtain e0 where e0: "io p0 = io p @ e0" "0x15 \<notin> commands e0" "0x14 \<notin> commands e0"
  proof (cases "\<not> using_partial_mode p \<or> isAsleep p")
    case True
    then show ?thesis using other_io(3) [of p] that by (auto simp: p0_def)
  next
    case False
    then show ?thesis using that [of "[]"] by (simp add: p0_def commands_def)
  qed
  define p1 where "p1 = initPartialUpdate (p0\<lparr>using_partial_mode := True\<rparr>)"
  obtain e1 where e1: "io p1 = io p0 @ e1" "0x15 \<notin> commands e1" "0x14 \<notin> commands e1"
    using other_io(1) [of "p0\<lparr>using_partial_mode := True\<rparr>"] by (auto simp: p1_def)
  define p2 where "p2 = writeToWindow 0x15 x y x y w h p1"
  obtain e2 where e2: "io p2 = io p1 @ e2" "commands e2 = (if x \<ge> 176 \<or> y \<ge> 264 then {} else {0x91, 0x15})"
    using writeToWindow_io [of "0x15" x y w h p1] by (auto simp: p2_def)
  define p3 where "p3 = refreshWindow x y w h p2"
  obtain e3 where e3: "io p3 = io p2 @ e3" "0x15 \<notin> commands e3" "0x14 \<notin> commands e3"
    using other_io(2) [of x y w h p2] by (auto simp: p3_def)
  obtain e4 where e4: "io (writeToWindow 0x14 x y x y w h (send [WaitBusy] p3)) = io p3 @ [WaitBusy] @ e4"
    "commands e4 = (if x \<ge> 176 \<or> y \<ge> 264 then {} else {0x91, 0x14})"
    using writeToWindow_io [of "0x14" x y w h "send [WaitBusy] p3"] by auto
  have "io (updateWindow x0 y0 w0 h0 p) = io p @ e0 @ e1 @ e2 @ e3 @ [WaitBusy] @ e4"
    using e4(1) e3(1) e2(1) e1(1) e0(1)
    by (simp add: updateWindow_def assms Let_def p0_def p1_def p2_def p3_def)
  moreover have "commands [] = {}" by (simp add: commands_def)
  ultimately show ?thesis using e0(2,3) e1(2,3) e2(2) e3(2,3) e4(2)
    by (intro exI [of _ "e0 @ e1 @ e2 @ e3 @ [WaitBusy] @ e4"]) auto
qed

lemma edge_word: "- 1 \<le> v \<Longrightarrow> v < 264 \<Longrightarrow> v mod 65536 = (if v = - 1 then 65535 else v)" for v :: int
  by (auto simp: mod_pos_pos_trivial)

text \<open>
  C29: on the display as the application sets it up (turned by 180 degrees), a partial update of a window
  inside the screen sends its pixels exactly when the window stays away from the right and from the
  lower edge: for a window that touches one of them the turned origin is computed one less than zero
  and becomes 65535, and nothing is sent.
\<close>

theorem window_at_edge_lost:
  assumes "rotation p = 2" "0 \<le> x" "0 < w" "x + w \<le> 176" "0 \<le> y" "0 < h" "y + h \<le> 264"
  shows "\<exists>es. io (updateWindow x y w h p) = io p @ es \<and>
    (0x15 \<in> commands es \<longleftrightarrow> x + w \<le> 175 \<and> y + h \<le> 263)"
proof -
  have "rotate_window (rotation p) (to_u16 x, to_u16 y, to_u16 w, to_u16 h) =
      (to_u16 (176 - x - w - 1), to_u16 (264 - y - h - 1), w, h)"
    using assms by (simp add: rotate_window_def panel_consts to_u16_def)
  from updateWindow_commands [OF this] obtain es where es: "io (updateWindow x y w h p) = io p @ es"
    "0x15 \<in> commands es \<longleftrightarrow> to_u16 (176 - x - w - 1) < 176 \<and> to_u16 (264 - y - h - 1) < 264" by blast
  have "to_u16 (176 - x - w - 1) < 176 \<longleftrightarrow> x + w \<le> 175"
    using assms(2-4) edge_word [of "175 - x - w"] by (simp add: to_u16_def algebra_simps)
  moreover have "to_u16 (264 - y - h - 1) < 264 \<longleftrightarrow> y + h \<le> 263"
    using assms(5-7) edge_word [of "263 - y - h"] by (simp add: to_u16_def algebra_simps)
  ultimately show ?thesis using es by blast
qed

theorem window_at_edge_lost_witness:
  "let p = displayRotation 2 panel_new
   in (\<exists>es. io (updateWindow 1 1 175 19 p) = io p @ es \<and> 0x15 \<notin> commands es) \<and>
      (\<exists>es. io (updateWindow 0 19 175 225 p) = io p @ es \<and> 0x15 \<in> commands es)"
proof -
  let ?p = "displayRotation 2 panel_new"
  have "rotation ?p = 2" by (simp add: displayRotation_def setRotation_def Let_def)
  from window_at_edge_lost [OF this, of 1 175 1 19] window_at_edge_lost [OF this, of 0 175 19 225]
  show ?thesis by (simp add: Let_def)
qed

end
