(* ===== verification/Usage_Log.thy ===== *)
theory Usage_Log
  imports Firebase Worlds
begin

section \<open>What the usage log records\<close>

text \<open>
  The rate limit over a sequence of user actions, and what a round of the log task pushes.
\<close>

subsection \<open>The rate limit\<close>

definition record_attempt :: "env \<Rightarrow> string \<times> string \<times> string \<Rightarrow> dev \<Rightarrow> dev" where
  "record_attempt E a d = append_action E (fst a) (fst (snd a)) (snd (snd a)) d"

fun stamps :: "env \<Rightarrow> (string \<times> string \<times> string) list \<Rightarrow> dev \<Rightarrow> u32 list" where
  "stamps E [] d = []"
| "stamps E (a # as) d =
     (let d' = record_attempt E a (d\<lparr>sendMessage := False\<rparr>)
      in (if sendMessage d' then [timeSinceLastLog d'] else []) @ stamps E as d')"

definition steady_clock :: "env \<Rightarrow> bool" where
  "steady_clock E \<longleftrightarrow> (\<forall>es. env_clock E es \<le> env_clock E (es @ [Millis])) \<and>
     (\<forall>es. uint (env_clock E es) < 2 ^ 32 - 1000)"

lemma add_1000: "uint (t :: u32) < 2 ^ 32 - 1000 \<Longrightarrow> uint (t + 1000) = uint t + 1000"
  by (simp add: uint_word_ariths)

lemma record_attempt_cases:
  assumes "steady_clock E" "uint (timeSinceLastLog d) < 2 ^ 32 - 1000" "\<not> sendMessage d"
  shows "(\<not> sendMessage (record_attempt E a d) \<and> timeSinceLastLog (record_attempt E a d) = timeSinceLastLog d) \<or>
    (sendMessage (record_attempt E a d) \<and>
     uint (timeSinceLastLog d) + 1000 < uint (timeSinceLastLog (record_attempt E a d)) \<and>
     uint (timeSinceLastLog (record_attempt E a d)) < 2 ^ 32 - 1000)"
proof -
  define now where "now = env_clock E (out d @ [Millis])"
  define later where "later = env_clock E (out d @ [Millis, Millis])"
  have "now \<le> env_clock E ((out d @ [Millis]) @ [Millis])" "uint later < 2 ^ 32 - 1000"
    using assms(1) unfolding steady_clock_def now_def later_def by blast+
  then have mono: "now \<le> later" "uint later < 2 ^ 32 - 1000" by (simp_all add: later_def)
  have "timeSinceLastLog d + 1000 < now \<Longrightarrow> uint (timeSinceLastLog d) + 1000 < uint later"
    using mono add_1000 [OF assms(2)] by (simp add: word_less_def word_le_def)
  with mono(2) assms(3) show ?thesis
    by (simp add: record_attempt_def append_action_def may_log_def millis_def emit_def Let_def
        now_def later_def)
qed

text \<open>
  while the millisecond clock runs forward and does not come within a second of its 32-bit
  limit, any two actions that are recorded are more than a second apart, whatever the sequence of
  actions the user makes.
\<close>

lemma log_rate:
  assumes "steady_clock E" "uint (timeSinceLastLog d) < 2 ^ 32 - 1000"
  shows "sorted_wrt (\<lambda>s t. uint s + 1000 < uint t) (timeSinceLastLog d # stamps E as d)"
  using assms(2)
proof (induction "as" arbitrary: d)
  case (Cons a "as")
  define e where "e = d\<lparr>sendMessage := False\<rparr>"
  define d' where "d' = record_attempt E a e"
  have e: "uint (timeSinceLastLog e) < 2 ^ 32 - 1000" "\<not> sendMessage e" "timeSinceLastLog e = timeSinceLastLog d"
    using Cons.prems by (simp_all add: e_def)
  from record_attempt_cases [OF assms(1) e(1,2), of a]
  have cases: "(\<not> sendMessage d' \<and> timeSinceLastLog d' = timeSinceLastLog d) \<or>
    (sendMessage d' \<and> uint (timeSinceLastLog d) + 1000 < uint (timeSinceLastLog d'))"
    "uint (timeSinceLastLog d') < 2 ^ 32 - 1000"
    using Cons.prems by (auto simp: d'_def e(3))
  have "sorted_wrt (\<lambda>s t. uint s + 1000 < uint t) (timeSinceLastLog d' # stamps E as d')"
    using Cons.IH [OF cases(2)] .
  then show ?case
    using cases(1) by (auto simp: Let_def d'_def [symmetric] e_def [symmetric])
qed simp

definition ticking :: env where
  "ticking = quiet\<lparr>env_clock := (\<lambda>es. of_nat (min (900 * length es) 4000000000))\<rparr>"

lemma ticking_steady: "steady_clock ticking"
proof -
  have "(of_nat (min (900 * n) 4000000000) :: u32) \<le> of_nat (min (900 * (n + 1)) 4000000000)" for n
    by (simp add: word_le_nat_alt unat_of_nat min_def)
  moreover have "uint (of_nat (min (900 * n) 4000000000) :: u32) < 2 ^ 32 - 1000" for n :: nat
    by (simp add: uint_nat unat_of_nat min_def)
  ultimately show ?thesis by (simp add: steady_clock_def ticking_def)
qed

subsection \<open>A round of the log task\<close>

definition is_push :: "event \<Rightarrow> bool" where
  "is_push e = (case e of FbPush p vs \<Rightarrow> True | _ \<Rightarrow> False)"

definition log_entry :: "string \<Rightarrow> (string \<times> fb_value) list \<Rightarrow> event" where
  "log_entry date vs = FbPush (''/test/'' @ HOUSEHOLD_ID) ((''timestamp'', FbString date) # vs)"

text \<open>
  When the connection exists and the server and the clock server answer, a round of the log
  task pushes one entry for each kind of record that is pending, each with the same interaction,
  action and context (the ones recorded last), and nothing is pending afterwards. The three kinds
  share their variables: of two records of different kinds made since the last round, only the
  second one's texts reach the log, and they do twice.
\<close>

lemma log_round:
  assumes "fbdo d" "\<And>es. env_fb_ready E es = Some (w es)" "\<And>es. env_fb_now E es"
    and "\<And>es. env_fb_date E es = Some date"
  shows "\<exists>d'. firebaseTask_round E d = Inr d' \<and>
    \<not> sendMessage d' \<and> \<not> sendMessageWithWhat d' \<and> \<not> sendMessageWithWhatAndValue d' \<and>
    filter is_push (out d') = filter is_push (out d) @
      (let base = [(''interaction'', FbString (tempInteraction d)), (''action'', FbString (tempAction d)),
                   (''context'', FbString (tempContext d))]
       in (if sendMessage d then [log_entry date base] else []) @
          (if sendMessageWithWhat d then [log_entry date (base @ [(''what'', FbString (tempWhat d))])] else []) @
          (if sendMessageWithWhatAndValue d
           then [log_entry date (base @ [(''what'', FbString (tempWhat d)), (''value'', FbInt (tempValue d))])]
           else []))"
  using assms
  by (cases "sendMessage d"; cases "sendMessageWithWhat d"; cases "sendMessageWithWhatAndValue d")
    (simp_all add: firebaseTask_round_def taskFireBaseAppendUserAction_def
      taskFireBaseAppendUserActionWithWhat_def taskFireBaseAppendUserActionWithWhatAndValue_def
      wait_ready_def push_json_def fb_is_ready_def need_fbdo_def emit_def vTaskDelay_def action_fields_def
      log_path_def log_entry_def is_push_def Let_def)

definition online :: env where
  "online = quiet\<lparr>env_fb_now := (\<lambda>es. True)\<rparr>"

text \<open>
  After \<open>firebaseEnd\<close> the connection object is gone until \<open>begin\<close> makes a new one: a round of
  the log task with something to push, and a second \<open>firebaseEnd\<close>, use the deleted object.
\<close>

lemma log_without_connection:
  assumes "firebaseEnd d = Inr e" "sendMessage d" "\<And>es. env_fb_ready E es = Some (w es)"
    and "\<And>es. env_fb_now E es" "\<And>es. env_fb_date E es = Some date"
  shows "firebaseEnd e = Inl BadPointer \<and> firebaseTask_round E e = Inl BadPointer \<and>
    (\<exists>e'. firebaseEnd (fb_begin e) = Inr e')"
  using assms
  by (auto simp: firebaseEnd_def need_fbdo_def emit_def fb_begin_def firebaseTask_round_def
      taskFireBaseAppendUserAction_def wait_ready_def push_json_def fb_is_ready_def Let_def
      split: if_splits)

end
