(* ===== verification/Dials.thy ===== *)
theory Dials
  imports Encoder Bridge
begin

section \<open>What the dials do\<close>

text \<open>
  A turn of a dial is counted right; the brightness, the choice of a lamp and the colour
  temperature follow it.
\<close>

text \<open>
  C34: while every change of the pins is a legal step of the knob, the position that the decoder
  reports, at each moment the knob rests in its latching state, is the number of steps turned one
  way less the number turned the other way, divided by four; \<open>getDirection\<close> reports its sign.
\<close>

theorem dial_counts_turns:
  assumes "in_step e" "oldState e = LATCH0" "legal LATCH0 ps"
    and "oldState (run_ticks ps now e) = LATCH0" "positionExtPrev (run_ticks ps now e) = positionExt e"
  shows "4 * (positionExt (run_ticks ps now e) - positionExt e) = net_turn LATCH0 ps \<and>
    direction_step (fst (getDirection (run_ticks ps now e))) = sgn (net_turn LATCH0 ps)"
  using latched_turns [OF assms(1-4)] assms(5)
  by (auto simp: getDirection_def sgn_if)

definition one_notch :: "(bool \<times> bool) list" where
  "one_notch = [(False, True), (True, True), (True, False), (False, False)]"

definition resting :: rotary where
  "resting = (rotary_new FOUR0)\<lparr>oldState := 0, position := 2\<rparr>"

theorem dial_counts_turns_witness:
  "4 * (positionExt (run_ticks one_notch 5 resting) - positionExt resting) = net_turn LATCH0 one_notch \<and>
   direction_step (fst (getDirection (run_ticks one_notch 5 resting))) = sgn (net_turn LATCH0 one_notch)"
proof (rule dial_counts_turns)
  show "in_step resting" by code_simp
  show "oldState resting = LATCH0" by code_simp
  show "legal LATCH0 one_notch" by code_simp
  show "oldState (run_ticks one_notch 5 resting) = LATCH0" by code_simp
  show "positionExtPrev (run_ticks one_notch 5 resting) = positionExt resting" by code_simp
qed

subsection \<open>Brightness\<close>

lemma brightness_mono_table:
  "list_all (\<lambda>b. calcBrightness b True \<le> calcBrightness (b + 1) True) [0..252] \<and>
   list_all (\<lambda>b. calcBrightness b False \<le> calcBrightness (b + 1) False) [1..253]"
  by code_simp

definition brighter :: "int \<Rightarrow> int" where "brighter b = calcBrightness b True"
definition darker :: "int \<Rightarrow> int" where "darker b = calcBrightness b False"

fun reaches :: "('a \<Rightarrow> 'a) \<Rightarrow> nat \<Rightarrow> 'a \<Rightarrow> 'a \<Rightarrow> bool" where
  "reaches f 0 b t = (b = t)"
| "reaches f (Suc n) b t = (b = t \<or> reaches f n (f b) t)"

lemma reaches_funpow: "reaches f n b t \<Longrightarrow> \<exists>k \<le> n. (f ^^ k) b = t"
proof (induction n arbitrary: b)
  case (Suc n)
  show ?case
  proof (cases "b = t")
    case True
    then show ?thesis by (intro exI [of _ 0]) simp
  next
    case False
    then obtain k where "k \<le> n" "(f ^^ k) (f b) = t" using Suc by auto
    then show ?thesis by (intro exI [of _ "Suc k"]) (simp add: funpow_swap1)
  qed
qed simp

lemma brightness_scale:
  "list_all (\<lambda>b. brighter b \<in> set (tl increaseBrightnessArr)) [0..253]"
  "list_all (\<lambda>b. reaches brighter 22 b 254) (tl increaseBrightnessArr)"
  "list_all (\<lambda>b. darker b \<in> set (butlast decreaseBrightnessArr)) [1..254]"
  "list_all (\<lambda>b. reaches darker 17 b 0) (butlast decreaseBrightnessArr)"
  by code_simp+

lemma brighter_reaches: "0 \<le> b \<Longrightarrow> b \<le> 254 \<Longrightarrow> reaches brighter 23 b 254"
proof (cases "b = 254")
  case False
  assume "0 \<le> b" "b \<le> 254"
  with False have "b \<in> set [0..253]" by simp
  then have "reaches brighter 22 (brighter b) 254"
    using brightness_scale(1,2) unfolding list_all_iff by blast
  then show ?thesis by (simp add: numeral_eq_Suc)
qed (simp add: numeral_eq_Suc)

lemma darker_reaches: "0 \<le> b \<Longrightarrow> b \<le> 254 \<Longrightarrow> reaches darker 18 b 0"
proof (cases "b = 0")
  case False
  assume "0 \<le> b" "b \<le> 254"
  with False have "b \<in> set [1..254]" by simp
  then have "reaches darker 17 (darker b) 0"
    using brightness_scale(3,4) unfolding list_all_iff by blast
  then show ?thesis by (simp add: numeral_eq_Suc)
qed (simp add: numeral_eq_Suc)

text \<open>
  For every brightness from 0 to 254, turning the dial up raises it and turning it down lowers
  it, within that range and monotonically; from any brightness some number of steps (23 are enough)
  reaches full brightness, and at most 18 steps down reach 0.
\<close>

lemma brightness_steps:
  assumes "0 \<le> b" "b \<le> 254"
  shows "(b < 254 \<longrightarrow> b < calcBrightness b True \<and> calcBrightness b True \<le> 254) \<and>
    (0 < b \<longrightarrow> 0 \<le> calcBrightness b False \<and> calcBrightness b False < b) \<and>
    (b < 253 \<longrightarrow> calcBrightness b True \<le> calcBrightness (b + 1) True) \<and>
    (0 < b \<and> b < 254 \<longrightarrow> calcBrightness b False \<le> calcBrightness (b + 1) False) \<and>
    (\<exists>k \<le> 23. ((\<lambda>b. calcBrightness b True) ^^ k) b = 254) \<and>
    (\<exists>k \<le> 18. ((\<lambda>b. calcBrightness b False) ^^ k) b = 0)"
proof -
  have eq: "(\<lambda>b. calcBrightness b True) = brighter" "(\<lambda>b. calcBrightness b False) = darker"
    by (simp_all add: fun_eq_iff brighter_def darker_def)
  have "\<exists>k \<le> 23. (brighter ^^ k) b = 254" "\<exists>k \<le> 18. (darker ^^ k) b = 0"
    using reaches_funpow [OF brighter_reaches [OF assms]] reaches_funpow [OF darker_reaches [OF assms]]
    by blast+
  with assms brightness_mono_table calcBrightness_up [of b] calcBrightness_down [of b]
  show ?thesis unfolding eq by (simp add: list_all_iff)
qed

subsection \<open>Choosing a lamp\<close>

lemma next_counter_up:
  "n < 255 \<Longrightarrow> c \<le> n \<Longrightarrow> unat (next_counter 1 c n) = (if c = n then 0 else Suc (unat c))"
  by (auto simp: next_counter_def unat_word_ariths word_less_nat_alt word_le_nat_alt word_unat_eq_iff
      Let_def not_less split: if_splits)

lemma next_counter_down:
  "n < 255 \<Longrightarrow> c \<le> n \<Longrightarrow> next_counter (- 1) c n = (if c = 0 then n else c - 1)"
  by (auto simp: next_counter_def word_less_nat_alt word_le_nat_alt unat_sub_if' word_unat_eq_iff
      split: if_splits)

text \<open>
  The counter of the dial runs through the lamps of a room and one more place (the whole
  room): it stays in this range, a step back undoes a step forth, and starting at 0 the \<open>k\<close>-th
  step forth stands at \<open>k\<close> modulo the number of places.
\<close>

lemma next_counter_cycle:
  assumes "n < (255 :: u8)" "c \<le> n"
  shows "next_counter 1 c n \<le> n \<and> next_counter (- 1) c n \<le> n \<and>
    next_counter (- 1) (next_counter 1 c n) n = c \<and> next_counter 1 (next_counter (- 1) c n) n = c \<and>
    unat (((\<lambda>c. next_counter 1 c n) ^^ k) 0) = k mod Suc (unat n)"
proof -
  have up: "next_counter 1 c n \<le> n" "unat (next_counter 1 c n) = (if c = n then 0 else Suc (unat c))"
    if "c \<le> n" for c
    using next_counter_up [OF assms(1) that] that
    by (auto simp: word_le_nat_alt word_unat_eq_iff)
  have down: "next_counter (- 1) c n \<le> n" if "c \<le> n" for c
    using next_counter_down [OF assms(1) that] that
    by (auto simp: word_le_nat_alt unat_sub_if' word_unat_eq_iff split: if_splits)
  have undo: "next_counter (- 1) (next_counter 1 c n) n = c"
    using next_counter_down [OF assms(1) up(1) [OF assms(2)]] up(2) [OF assms(2)] assms
    by (auto simp: word_unat_eq_iff word_le_nat_alt unat_sub_if' split: if_splits)
  have redo: "next_counter 1 (next_counter (- 1) c n) n = c"
  proof (cases "c = 0")
    case True
    then show ?thesis using next_counter_down [OF assms] up(2) [of n] by (simp add: unat_eq_zero)
  next
    case False
    then have "c - 1 \<le> n" "c - 1 \<noteq> n" "Suc (unat (c - 1)) = unat c"
      using assms(2) by (auto simp: word_le_nat_alt unat_sub_if' word_unat_eq_iff split: if_splits)
    with up(2) [of "c - 1"] have "unat (next_counter 1 (c - 1) n) = unat c" by simp
    then have "next_counter 1 (c - 1) n = c" by (simp only: word_unat_eq_iff)
    with False show ?thesis using next_counter_down [OF assms] by simp
  qed
  have iter: "((\<lambda>c. next_counter 1 c n) ^^ k) 0 \<le> n \<and>
      unat (((\<lambda>c. next_counter 1 c n) ^^ k) 0) = k mod Suc (unat n)"
  proof (induction k)
    case (Suc k)
    then show ?case using up [of "((\<lambda>c. next_counter 1 c n) ^^ k) 0"]
      by (auto simp: mod_Suc word_unat_eq_iff)
  qed simp
  show ?thesis using up(1) down assms(2) undo redo iter by blast
qed

subsection \<open>Colour temperature\<close>

lemma temp_table:
  "list_all (\<lambda>c. 2000 \<le> temp_of_counter (of_nat c) \<and> temp_of_counter (of_nat c) \<le> 6500) [0..<21]"
  "temp_of_counter 255 = 14661"
  by code_simp+

lemma temp_in_range: "c \<le> 20 \<Longrightarrow> 2000 \<le> temp_of_counter c \<and> temp_of_counter c \<le> 6500"
proof -
  assume "c \<le> 20"
  then have "unat c \<in> set [0..<21]" by (simp add: word_le_nat_alt)
  then have "2000 \<le> temp_of_counter (of_nat (unat c)) \<and> temp_of_counter (of_nat (unat c)) \<le> 6500"
    using temp_table(1) unfolding list_all_iff by blast
  then show ?thesis by simp
qed

text \<open>
  Turning the lower dial in temperature mode asks the bridge for a temperature as long as the
  counter stays within 0 to 20. The test \<open>tempCounter - 1 < 0\<close> never holds for a \<open>uint8_t\<close>: a step
  down from 0 takes the counter to 255, and no request is sent at all.
\<close>

lemma temperature_dial:
  assumes "lv_tempCounter v \<le> 20" "s = 1 \<or> s = - 1"
  shows "adjust_colour E False s (v, d) =
   (let c = (if s = 1 then (if lv_tempCounter v = 20 then 20 else lv_tempCounter v + 1)
             else lv_tempCounter v - 1);
        logged = append_action_value E lowerDialInteraction setColorTemp ''drawLight''
     in if c = 255 then Inr (v\<lparr>lv_tempCounter := 255\<rparr>,
          logged (lname (currentLight d)) (uint (lct (currentLight d))) d)
        else Inr (v\<lparr>lv_tempCounter := c\<rparr>, logged (lname (currentLight d)) (uint (lct (currentLight d)))
          (d\<lparr>out := out d @ [Http PUT (lightStateEndpoint d (light_id8 v))
                              (ct_body (ct_of_temp (temp_of_counter c)))]\<rparr>)))"
proof -
  define c where "c = (if s = 1 then (if lv_tempCounter v = 20 then 20 else lv_tempCounter v + 1)
             else lv_tempCounter v - 1)"
  have next_c: "next_temp s (lv_tempCounter v) = c"
    using assms by (auto simp: next_temp_def c_def word_less_nat_alt word_le_nat_alt
        unat_word_ariths word_unat_eq_iff split: if_splits)
  have "c = 255 \<or> c \<le> 20"
    using assms by (auto simp: c_def word_less_nat_alt word_le_nat_alt unat_word_ariths unat_sub_if'
        word_unat_eq_iff split: if_splits)
  then show ?thesis
  proof
    assume c: "c = 255"
    have "ct_of_temp 14661 = 1129" by code_simp
    then show ?thesis
      by (simp add: adjust_colour_def next_c c_def [symmetric] c colorTemp_def Let_def temp_table(2))
  next
    assume c: "c \<le> 20"
    then have "c \<noteq> 255" by auto
    moreover have "\<not> (temp_of_counter c < 1988 \<or> 6512 < temp_of_counter c)"
      using temp_in_range [OF c] by (auto simp: word_less_nat_alt word_le_nat_alt)
    then have "\<not> (ct_of_temp (temp_of_counter c) > 500 \<or> ct_of_temp (temp_of_counter c) < 153)"
      using ct_range by blast
    ultimately show ?thesis
      by (simp add: adjust_colour_def next_c c_def [symmetric] colorTemp_def Let_def put_request_def
          http_request_def emit_def split_beta)
  qed
qed


end
