(* ===== verification/Spi_Io.thy ===== *)
theory Spi_Io
  imports Touch
begin

section \<open>The wires to the panel\<close>

text \<open>
  \<^verbatim>\<open>components/CalEPD/epdspi.cpp\<close> and the functions \<open>init\<close> and \<open>_waitBusy\<close> of
  \<^verbatim>\<open>components/CalEPD/models/gdew027w3T.cpp\<close>: how the trace of commands, data bytes, resets and waits that
  Panel keeps is driven on the pins and the SPI bus, and what the controller reads there. The SPI and
  GPIO drivers are parameters. A failed call of the SPI driver ends the program: \<open>ESP_ERROR_CHECK\<close>
  and \<open>assert\<close>, which the configuration leaves on.
\<close>

datatype pin = CS | DC | RST | BUSY

datatype line =
    PinOutput pin | PinInput pin | PullUp pin | Level pin bool
  | BusInit nat | AddDevice int | Transmit "u8 list"
  | ReadBusy | ReadTimer | TaskDelay nat

text \<open>
  What the drivers answer after the events so far: whether the last call of the SPI driver succeeded,
  whether the pin BUSY is high, the microseconds since the start. The wait for BUSY is followed for
  \<open>busy_patience\<close> rounds.
\<close>

record line_env =
  driver_ok :: "line list \<Rightarrow> bool"
  busy_high :: "line list \<Rightarrow> bool"
  timer :: "line list \<Rightarrow> int"
  busy_patience :: nat

definition portTICK_RATE_MS :: nat where "portTICK_RATE_MS = 10"

subsection \<open>\<open>EpdSpi\<close>\<close>

definition driver :: "line_env \<Rightarrow> line \<Rightarrow> line list \<Rightarrow> line list res" where
  "driver L e s = (if driver_ok L (s @ [e]) then Inr (s @ [e]) else Inl Abort)"

definition drive :: "line list \<Rightarrow> line list \<Rightarrow> line list res" where
  "drive es s = Inr (s @ es)"

definition spi_clock :: "u8 \<Rightarrow> bool \<Rightarrow> int" where
  "spi_clock frequency debug =
     (let f = (if debug then 50 else uint frequency); multiplier = (if debug then 1 else 1000)
      in f * multiplier * 1000)"

definition spi_init :: "line_env \<Rightarrow> u8 \<Rightarrow> bool \<Rightarrow> line list \<Rightarrow> line list res" where
  "spi_init L frequency debug = seqr
     [drive [PinOutput CS, PinOutput DC, PinOutput RST, PinInput BUSY, PullUp BUSY,
             Level CS True, Level DC True, Level RST True],
      driver L (BusInit 4094),
      driver L (AddDevice (spi_clock frequency debug))]"

definition spi_cmd :: "line_env \<Rightarrow> u8 \<Rightarrow> line list \<Rightarrow> line list res" where
  "spi_cmd L c = seqr [drive [Level DC False], driver L (Transmit [c]), drive [Level DC True]]"

definition spi_data :: "line_env \<Rightarrow> u8 \<Rightarrow> line list \<Rightarrow> line list res" where
  "spi_data L b = driver L (Transmit [b])"

text \<open>\<open>dataBuffer\<close> does not look at the result.\<close>

definition spi_dataBuffer :: "u8 \<Rightarrow> line list \<Rightarrow> line list res" where
  "spi_dataBuffer b = drive [Transmit [b]]"

definition spi_data_block :: "line_env \<Rightarrow> u8 list \<Rightarrow> line list \<Rightarrow> line list res" where
  "spi_data_block L bs s = (if length bs = 0 then Inr s else driver L (Transmit bs) s)"

definition spi_reset :: "nat \<Rightarrow> line list \<Rightarrow> line list res" where
  "spi_reset ms = drive [Level RST False, TaskDelay (ms div portTICK_RATE_MS),
                         Level RST True, TaskDelay (ms div portTICK_RATE_MS)]"

subsection \<open>\<open>_waitBusy\<close> and \<open>init\<close> of the panel\<close>

fun busy_loop :: "line_env \<Rightarrow> nat \<Rightarrow> int \<Rightarrow> line list \<Rightarrow> line list res" where
  "busy_loop L 0 start s = Inl Hang"
| "busy_loop L (Suc n) start s =
     (let s = s @ [ReadBusy]
      in if busy_high L s then Inr s
         else let s = s @ [TaskDelay 1, ReadTimer]
              in if timer L s - start > 7000000 then Inr s else busy_loop L n start s)"

definition waitBusy :: "line_env \<Rightarrow> line list \<Rightarrow> line list res" where
  "waitBusy L s = (let s = s @ [ReadTimer] in busy_loop L (busy_patience L) (timer L s) s)"

text \<open>\<open>regs\<close> are the answers of the touch chip (theory Touch).\<close>

definition panel_init ::
  "line_env \<Rightarrow> (u8 \<Rightarrow> u8) \<Rightarrow> bool \<Rightarrow> panel \<times> touch \<times> line list \<Rightarrow> (panel \<times> touch \<times> line list) res" where
  "panel_init L regs debug = (\<lambda>(p, t, s).
     andThen (spi_init L 5 debug s)
       (\<lambda>s. case touch_begin regs 22 (word_of_int (display_width p)) (word_of_int (display_height p)) t of
          (_, t) \<Rightarrow> Inr (fillScreen EPD_WHITE p, t, s)))"

subsection \<open>The trace of the panel on the wires\<close>

text \<open>One element of the trace; delays are whole ticks, rounded down.\<close>

fun spi_step :: "line_env \<Rightarrow> spi \<Rightarrow> line list \<Rightarrow> line list res" where
  "spi_step L (Cmd c) = spi_cmd L c"
| "spi_step L (Data b) = spi_data L b"
| "spi_step L (ResetPin ms) = spi_reset ms"
| "spi_step L WaitBusy = waitBusy L"
| "spi_step L (DelayMs ms) = drive [TaskDelay (ms div portTICK_RATE_MS)]"

definition spi_run :: "line_env \<Rightarrow> spi list \<Rightarrow> line list \<Rightarrow> line list res" where
  "spi_run L xs = forr xs (spi_step L)"

text \<open>
  What the controller reads: it takes a byte for a command or for data by the level of the pin DC at the
  time of the transfer. \<open>dc\<close> is that level at the start.
\<close>

fun dc_after :: "bool \<Rightarrow> line list \<Rightarrow> bool" where
  "dc_after dc [] = dc"
| "dc_after dc (Level DC v # es) = dc_after v es"
| "dc_after dc (e # es) = dc_after dc es"

fun observe :: "bool \<Rightarrow> line list \<Rightarrow> spi list" where
  "observe dc [] = []"
| "observe dc (Level DC v # es) = observe v es"
| "observe dc (Transmit bs # es) = map (if dc then Data else Cmd) bs @ observe dc es"
| "observe dc (e # es) = observe dc es"

fun transfer :: "spi \<Rightarrow> bool" where
  "transfer (Cmd c) = True"
| "transfer (Data b) = True"
| "transfer x = False"

lemma dc_after_append [simp]: "dc_after dc (xs @ ys) = dc_after (dc_after dc xs) ys"
  by (induction dc xs rule: dc_after.induct) simp_all

lemma observe_append [simp]: "observe dc (xs @ ys) = observe dc xs @ observe (dc_after dc xs) ys"
  by (induction dc xs rule: observe.induct) simp_all

subsection \<open>The wait for the pin BUSY\<close>

text \<open>
  A timer that keeps time: it does not go back, and a delay of \<open>n\<close> ticks sees at least \<open>n\<close> tick interrupts,
  one each ten milliseconds.
\<close>

definition ticking :: "line_env \<Rightarrow> bool" where
  "ticking L \<longleftrightarrow> (\<forall>s e. timer L s \<le> timer L (s @ [e])) \<and>
     (\<forall>s n. timer L s div 10000 + int n \<le> timer L (s @ [TaskDelay n]) div 10000)"

definition polling :: "line list \<Rightarrow> bool" where
  "polling w \<longleftrightarrow> set w \<subseteq> {ReadBusy, ReadTimer, TaskDelay 1}"

lemma polling_append [simp]: "polling (v @ w) \<longleftrightarrow> polling v \<and> polling w"
  by (auto simp: polling_def)

lemma polling_observe: "polling w \<Longrightarrow> dc_after dc w = dc \<and> observe dc w = []"
  by (induction w) (auto simp: polling_def)

lemma busy_round_ticks:
  assumes "ticking L"
  shows "timer L s div 10000 + 1 \<le> timer L (s @ [ReadBusy, TaskDelay 1, ReadTimer]) div 10000"
proof -
  let ?a = "s @ [ReadBusy]"
  have "timer L s \<le> timer L ?a" "timer L ?a div 10000 + 1 \<le> timer L (?a @ [TaskDelay 1]) div 10000"
    "timer L (?a @ [TaskDelay 1]) \<le> timer L ((?a @ [TaskDelay 1]) @ [ReadTimer])"
    using assms unfolding ticking_def by (blast, metis of_nat_1, blast)
  then have "timer L s div 10000 + 1 \<le> timer L ((?a @ [TaskDelay 1]) @ [ReadTimer]) div 10000"
    using zdiv_mono1 [of "timer L s" "timer L ?a" 10000]
      zdiv_mono1 [of "timer L (?a @ [TaskDelay 1])" "timer L ((?a @ [TaskDelay 1]) @ [ReadTimer])" 10000]
    by (simp del: append_assoc)
  then show ?thesis by simp
qed

lemma busy_loop_ends:
  assumes "ticking L" "start div 10000 + int k \<le> timer L s div 10000" "k \<le> 700" "701 \<le> k + n"
  shows "\<exists>w. busy_loop L n start s = Inr (s @ w) \<and> polling w \<and> length (filter (\<lambda>e. e = ReadBusy) w) + k \<le> 701 \<and>
    (busy_high L (s @ w) \<or> 7000000 < timer L (s @ w) - start)"
  using assms(2-4)
proof (induction n arbitrary: k s)
  case (Suc n)
  let ?s = "s @ [ReadBusy, TaskDelay 1, ReadTimer]"
  have t: "start div 10000 + int (Suc k) \<le> timer L ?s div 10000"
    using busy_round_ticks [OF assms(1), of s] Suc.prems(1) by linarith
  consider "busy_high L (s @ [ReadBusy])"
    | "\<not> busy_high L (s @ [ReadBusy])" "7000000 < timer L ?s - start"
    | "\<not> busy_high L (s @ [ReadBusy])" "timer L ?s - start \<le> 7000000" by linarith
  then show ?case
  proof cases
    case 1
    then show ?thesis using Suc.prems
      by (intro exI [of _ "[ReadBusy]"]) (simp add: polling_def)
  next
    case 2
    then show ?thesis using Suc.prems
      by (intro exI [of _ "[ReadBusy, TaskDelay 1, ReadTimer]"]) (simp add: polling_def)
  next
    case 3
    have "k \<noteq> 700" using 3 t by auto
    with Suc.IH [OF t] Suc.prems obtain w where w: "busy_loop L n start ?s = Inr (?s @ w)" "polling w"
      "length (filter (\<lambda>e. e = ReadBusy) w) + Suc k \<le> 701" "busy_high L (?s @ w) \<or> 7000000 < timer L (?s @ w) - start" by auto
    with 3 show ?thesis
      by (intro exI [of _ "[ReadBusy, TaskDelay 1, ReadTimer] @ w"]) (auto simp: polling_def)
  qed
qed simp

text \<open>
  The wait ends after at most 701 readings of the pin: with the pin high, or when more than seven seconds
  have passed since the first reading of the timer.
\<close>

lemma waitBusy_total:
  assumes "ticking L" "701 \<le> busy_patience L"
  shows "\<exists>w. waitBusy L s = Inr (s @ w) \<and> polling w \<and> length (filter (\<lambda>e. e = ReadBusy) w) \<le> 701 \<and>
    (busy_high L (s @ w) \<or> 7000000 < timer L (s @ w) - timer L (s @ [ReadTimer]))"
proof -
  let ?s = "s @ [ReadTimer]"
  obtain w where "busy_loop L (busy_patience L) (timer L ?s) ?s = Inr (?s @ w)" "polling w"
    "length (filter (\<lambda>e. e = ReadBusy) w) \<le> 701" "busy_high L (?s @ w) \<or> 7000000 < timer L (?s @ w) - timer L ?s"
    using busy_loop_ends [OF assms(1), of "timer L ?s" 0 ?s "busy_patience L"] assms(2) by auto
  then show ?thesis
    by (intro exI [of _ "ReadTimer # w"]) (auto simp: waitBusy_def polling_def)
qed

text \<open>
  With a timer that keeps time, the wait for the pin BUSY ends after at most 701 readings of the pin:
  with the pin high, or when more than seven seconds have passed since the first reading of the timer.
\<close>

lemma waitBusy_ends:
  assumes "ticking L" "701 \<le> busy_patience L"
  shows "\<exists>w. waitBusy L s = Inr (s @ w) \<and> length (filter (\<lambda>e. e = ReadBusy) w) \<le> 701 \<and>
    (busy_high L (s @ w) \<or> 7000000 < timer L (s @ w) - timer L (s @ [ReadTimer]))"
  using waitBusy_total [OF assms, of s] by auto

text \<open>A world in which a tick lasts ten milliseconds, the calls take no time and the pin stays low.\<close>

fun ticks_of :: "line list \<Rightarrow> int" where
  "ticks_of [] = 0"
| "ticks_of (TaskDelay n # es) = int n + ticks_of es"
| "ticks_of (e # es) = ticks_of es"

lemma ticks_of_append: "ticks_of (xs @ ys) = ticks_of xs + ticks_of ys"
  by (induction xs rule: ticks_of.induct) simp_all

definition stuck_low :: line_env where
  "stuck_low = \<lparr>driver_ok = \<lambda>_. True, busy_high = \<lambda>_. False, timer = \<lambda>s. 10000 * ticks_of s,
     busy_patience = 701\<rparr>"

lemma ticks_of_single: "0 \<le> ticks_of [e]"
  by (cases e) simp_all

lemma stuck_low_ticking: "ticking stuck_low"
  by (simp add: ticking_def stuck_low_def ticks_of_append ticks_of_single)

subsection \<open>What the controller receives\<close>

definition reliable :: "line_env \<Rightarrow> bool" where
  "reliable L \<longleftrightarrow> (\<forall>s. driver_ok L s) \<and> ticking L \<and> 701 \<le> busy_patience L"

lemma spi_step_observe:
  assumes "reliable L" "dc_after dc s"
  shows "\<exists>w. spi_step L x s = Inr (s @ w) \<and> dc_after dc (s @ w) \<and>
    observe dc (s @ w) = observe dc s @ filter transfer [x]"
proof (cases x)
  case WaitBusy
  then show ?thesis
    using waitBusy_total [of L s] assms polling_observe [of _ True] by (auto simp: reliable_def)
qed (use assms in \<open>auto simp: spi_cmd_def spi_data_def spi_reset_def drive_def driver_def reliable_def\<close>)

lemma spi_run_observe:
  assumes "reliable L" "dc_after dc s"
  shows "\<exists>w. spi_run L xs s = Inr (s @ w) \<and> dc_after dc (s @ w) \<and>
    observe dc (s @ w) = observe dc s @ filter transfer xs"
  using assms(2)
proof (induction xs arbitrary: s)
  case Nil
  then show ?case by (simp add: spi_run_def)
next
  case (Cons x xs)
  obtain v where v: "spi_step L x s = Inr (s @ v)" "dc_after dc (s @ v)"
    "observe dc (s @ v) = observe dc s @ filter transfer [x]"
    using spi_step_observe [OF assms(1) Cons.prems] by blast
  from Cons.IH [OF v(2)] obtain w where "spi_run L xs (s @ v) = Inr ((s @ v) @ w)"
    "dc_after dc ((s @ v) @ w)" "observe dc ((s @ v) @ w) = observe dc (s @ v) @ filter transfer xs"
    by blast
  with v show ?case
    by (intro exI [of _ "v @ w"]) (simp add: spi_run_def)
qed

lemma spi_init_lines:
  assumes "reliable L"
  shows "\<exists>w. spi_init L f debug s = Inr (s @ w) \<and> dc_after dc (s @ w) \<and> observe dc (s @ w) = observe dc s"
  using assms by (auto simp: spi_init_def drive_def driver_def reliable_def)

text \<open>
  With an SPI driver that works and a timer that keeps time, the transfers after the initialisation of
  the bus end, and the controller receives exactly the commands and data bytes of the panel's trace, in
  order and each as what it is, whatever level the pin DC had before and however long each wait takes.
\<close>

lemma controller_receives:
  assumes "reliable L"
  shows "\<exists>s s'. spi_init L 5 debug [] = Inr s \<and> spi_run L (io p) s = Inr s' \<and>
    observe dc s' = filter transfer (io p)"
proof -
  obtain s where s: "spi_init L 5 debug [] = Inr s" "dc_after dc s" "observe dc s = []"
    using spi_init_lines [OF assms, of 5 debug "[]" dc] by auto
  with spi_run_observe [OF assms s(2), of "io p"] show ?thesis by auto
qed

text \<open>The delays of two milliseconds in the driver of the panel are delays of no tick.\<close>

lemma delay_of_two_ms: "spi_step L (DelayMs 2) s = Inr (s @ [TaskDelay 0])"
  by (simp add: drive_def portTICK_RATE_MS_def)

lemma panel_init_picture:
  assumes "reliable L"
  shows "\<exists>t' w. panel_init L regs debug (p, t, s) = Inr (fillScreen EPD_WHITE p, t', s @ w)"
  using spi_init_lines [OF assms, of 5 debug s True]
  by (auto simp: panel_init_def split: prod.splits)

end
