(* ===== verification/Display_Path.thy ===== *)
theory Display_Path
  imports Screen Spi_Io
begin

section \<open>From a drawing to the controller\<close>

text \<open>
  The frame buffer, the full update and the transfer on the wires put together: what is painted is what
  the controller of the panel holds when it is told to refresh.
\<close>

lemma paint_keeps: "paint ps p = Inr p' \<Longrightarrow> \<exists>bs. p' = p\<lparr>buffer := bs\<rparr>"
proof (induction ps arbitrary: p)
  case Nil
  then have "p' = p\<lparr>buffer := buffer p\<rparr>" by (simp add: paint_def)
  then show ?case by blast
next
  case (Cons x ps)
  then obtain p1 where p1: "(case x of (q, c) \<Rightarrow> drawPixel (fst q) (snd q) c p) = Inr p1" "paint ps p1 = Inr p'"
    by (auto simp: paint_def andThen_eq_Inr split: prod.splits)
  from p1(1) obtain b1 where "p1 = p\<lparr>buffer := b1\<rparr>"
    by (fastforce simp: drawPixel_def andThen_eq_Inr Let_def split: prod.splits if_splits
        intro: that [of "buffer p"])
  with Cons.IH [OF p1(2)] show ?case by auto
qed

text \<open>A bit of an image: set where the pixel is white.\<close>

definition white_bit :: "u8 list \<Rightarrow> pix \<Rightarrow> bool" where
  "white_bit f q = bit (f ! nat (buffer_index q)) (nat (7 - fst q mod 8))"

lemma white_bit_frame:
  assumes "panel_ok p" "on_screen p (x, y)"
  shows "white_bit (map NOT (buffer p)) (rotate_point (rotation p) x y) = (\<not> black_at p (x, y))"
proof -
  obtain a b where q: "rotate_point (rotation p) x y = (a, b)" by fastforce
  have "0 \<le> a" "a < 176" "0 \<le> b" "b < 264" using rotate_point_in [OF assms] by (simp_all add: q)
  note i = buffer_index_small(2,3) [OF this]
  have "length (buffer p) = 5808" using assms(1) by (simp add: panel_ok_def panel_consts)
  with i have "map NOT (buffer p) ! nat (buffer_index (a, b)) = NOT (buffer p ! nat (buffer_index (a, b)))"
    by (simp add: nat_less_iff)
  moreover have "nat (7 - a mod 8) < 8" by simp
  ultimately show ?thesis using assms(2) by (simp add: white_bit_def black_at_def q bit_not_iff)
qed

text \<open>The transfers of a full update: the image before the refresh, and no other.\<close>

lemma update_transfers:
  assumes "sleep_after_update p"
  shows "\<exists>pre post. filter transfer (new_io p (panel_update p)) =
      pre @ Cmd 0x13 # frame_bytes p @ Cmd 0x12 # post \<and> Cmd 0x13 \<notin> set pre \<union> set post"
proof -
  obtain wake where w: "io (panel_update p) = io p @ wake @
      (if initial p then Cmd 0x10 # replicate 5808 (Data 0xFF) else []) @
      Cmd 0x13 # frame_bytes p @ [Cmd 0x12, WaitBusy] @ Cmd 0x10 # frame_bytes p @
      [Cmd 0x02, WaitBusy, Cmd 0x07, Data 0xa5]" "{Cmd 0x10, Cmd 0x12, Cmd 0x13} \<inter> set wake = {}"
    using update_sends_frame [OF assms] by blast
  define old where "old = (if initial p then Cmd 0x10 # replicate 5808 (Data 0xFF) else [])"
  have f: "filter transfer (frame_bytes p) = frame_bytes p" "Cmd c \<notin> set (frame_bytes p)" for c
    by (auto simp: frame_bytes_def filter_id_conv)
  have "Cmd 0x13 \<notin> set wake" "Cmd 0x13 \<notin> set old" using w(2) by (auto simp: old_def)
  then show ?thesis
    by (intro exI [of _ "filter transfer (wake @ old)"]
        exI [of _ "Cmd 0x10 # frame_bytes p @ [Cmd 0x02, Cmd 0x07, Data 0xa5]"])
      (simp add: new_io_def w(1) old_def [symmetric] f)
qed

text \<open>
  C3: whatever is painted, one pixel after the other and in any rotation of the display, a full update brings it
  to the panel: with an SPI driver that works, the update ends and the controller receives one image
  before the command to refresh, and in that image the bit of every point on the screen is white or black
  as the last pixel painted there, or as it was when none was.
\<close>

theorem painted_is_received:
  assumes "reliable L" "panel_ok p" "sleep_after_update p" "dc_after dc s"
  shows "\<exists>p' s' pre f post. paint ps p = Inr p' \<and> spi_run L (new_io p' (panel_update p')) s = Inr s' \<and>
    observe dc s' = observe dc s @ pre @ Cmd 0x13 # map Data f @ Cmd 0x12 # post \<and>
    Cmd 0x13 \<notin> set pre \<union> set post \<and> length f = 5808 \<and>
    (\<forall>x y. on_screen p (x, y) \<longrightarrow> white_bit f (rotate_point (rotation p) x y) =
      (\<not> screen.picture (on_screen p) ps (black_at p) (x, y)))"
proof -
  obtain p' where p': "paint ps p = Inr p'" "panel_ok p'" "on_screen p' = on_screen p"
    "black_at p' = screen.picture (on_screen p) ps (black_at p)"
    using screen.paint_picture [OF assms(2), of ps] by (auto simp: paint_def)
  obtain bs where bs: "p' = p\<lparr>buffer := bs\<rparr>" using paint_keeps [OF p'(1)] by blast
  have "sleep_after_update p'" using assms(3) by (simp add: bs)
  from update_transfers [OF this] obtain pre post where t:
    "filter transfer (new_io p' (panel_update p')) = pre @ Cmd 0x13 # frame_bytes p' @ Cmd 0x12 # post"
    "Cmd 0x13 \<notin> set pre \<union> set post" by blast
  obtain w where "spi_run L (new_io p' (panel_update p')) s = Inr (s @ w)"
    "observe dc (s @ w) = observe dc s @ filter transfer (new_io p' (panel_update p'))"
    using spi_run_observe [OF assms(1,4)] by blast
  moreover have "frame_bytes p' = map Data (map NOT (buffer p'))" by (simp add: frame_bytes_def)
  moreover have "length (map NOT (buffer p')) = 5808" using p'(2) by (simp add: panel_ok_def panel_consts)
  moreover have "white_bit (map NOT (buffer p')) (rotate_point (rotation p) x y) =
      (\<not> screen.picture (on_screen p) ps (black_at p) (x, y))" if "on_screen p (x, y)" for x y
    using white_bit_frame [OF p'(2), of x y] that p'(3,4) by (simp add: bs)
  ultimately show ?thesis using p'(1) t by metis
qed

theorem painted_is_received_witness:
  "\<exists>p' s' pre f post. paint [((3, 4), 0)] panel_new = Inr p' \<and>
    spi_run stuck_low (new_io p' (panel_update p')) [Level DC True] = Inr s' \<and>
    observe False s' = pre @ Cmd 0x13 # map Data f @ Cmd 0x12 # post \<and> \<not> white_bit f (3, 4)"
proof -
  have "reliable stuck_low" using stuck_low_ticking by (simp add: reliable_def stuck_low_def)
  moreover have "sleep_after_update panel_new" "dc_after False [Level DC True]" "observe False [Level DC True] = []"
    by (simp_all add: panel_new_def)
  moreover have "on_screen panel_new (3, 4)" "rotate_point (rotation panel_new) 3 4 = (3, 4)"
    by (simp_all add: on_screen_def panel_new_def display_width_def display_height_def gfx_init_def
        panel_consts rotate_point_def)
  moreover from this have "screen.picture (on_screen panel_new) [((3, 4), 0)] (black_at panel_new) (3, 4)"
    by simp
  ultimately show ?thesis
    using painted_is_received [OF _ panel_new_ok, of stuck_low False "[Level DC True]" "[((3, 4), 0)]"]
    by fastforce
qed

end
