(* ===== verification/Dtls_Timer.thy ===== *)
theory Dtls_Timer
  imports Prelude
begin

section \<open>The timer of the encrypted stream\<close>

text \<open>
  \<open>my_mbedtls_timing_get_timer\<close>, \<open>my_mbedtls_timing_set_delay\<close> and \<open>my_mbedtls_timing_get_delay\<close> of
  \<^verbatim>\<open>main/entertainment.cpp\<close>: the TLS library calls them to time the retransmissions of the handshake. What
  \<open>gettimeofday\<close> stores is an argument. \<open>unsigned long\<close> has 32 bits; the differences of the
  fields are signed and the division of microseconds truncates.
\<close>

record timeval =
  tv_sec :: int
  tv_usec :: int

record timing_delay =
  start :: timeval
  int_ms :: u32
  fin_ms :: u32

definition timing_get_timer :: "timeval \<Rightarrow> timeval \<Rightarrow> bool \<Rightarrow> u32 \<times> timeval" where
  "timing_get_timer now t reset =
     (if reset then (0, now)
      else (word_of_int (tv_sec now - tv_sec t) * 1000 +
            word_of_int ((tv_usec now - tv_usec t) sdiv 1000), t))"

definition timing_set_delay :: "timeval \<Rightarrow> u32 \<Rightarrow> u32 \<Rightarrow> timing_delay \<Rightarrow> timing_delay" where
  "timing_set_delay now im fm ctx =
     (let ctx = ctx\<lparr>int_ms := im, fin_ms := fm\<rparr>
      in if fm \<noteq> 0 then ctx\<lparr>start := snd (timing_get_timer now (start ctx) True)\<rparr> else ctx)"

definition timing_get_delay :: "timeval \<Rightarrow> timing_delay \<Rightarrow> int" where
  "timing_get_delay now ctx =
     (if fin_ms ctx = 0 then - 1
      else let elapsed_ms = fst (timing_get_timer now (start ctx) False)
           in if elapsed_ms \<ge> fin_ms ctx then 2
              else if elapsed_ms \<ge> int_ms ctx then 1 else 0)"

subsection \<open>The promise of the timer\<close>

text \<open>
  The documentation of the library asks for: -1 when the timer is cancelled, 0 when no delay has passed,
  1 when only the intermediate one has, 2 when the final one has.
\<close>

definition delay_status :: "nat \<Rightarrow> nat \<Rightarrow> int \<Rightarrow> int" where
  "delay_status im fm ms =
     (if fm = 0 then - 1 else if int fm \<le> ms then 2 else if int im \<le> ms then 1 else 0)"

definition micros :: "timeval \<Rightarrow> int" where
  "micros t = 1000000 * tv_sec t + tv_usec t"

lemma sdiv_1000: "b sdiv (1000::int) = (if 0 \<le> b then b div 1000 else - ((- b) div 1000))"
  by (auto simp: signed_divide_int_def sgn_if)

text \<open>The milliseconds before they are reduced to 32 bits: less than one away from the elapsed time.\<close>

definition elapsed_millis :: "timeval \<Rightarrow> timeval \<Rightarrow> int" where
  "elapsed_millis t now = 1000 * (tv_sec now - tv_sec t) + (tv_usec now - tv_usec t) sdiv 1000"

lemma get_timer_elapsed:
  "fst (timing_get_timer now t False) = word_of_int (elapsed_millis t now)"
  by (simp add: timing_get_timer_def elapsed_millis_def mult.commute)

lemma elapsed_millis_near:
  "\<bar>1000 * elapsed_millis t now - (micros now - micros t)\<bar> < 1000"
proof -
  let ?b = "tv_usec now - tv_usec t"
  have "1000 * elapsed_millis t now - (micros now - micros t) = 1000 * (?b sdiv 1000) - ?b"
    by (simp add: elapsed_millis_def micros_def algebra_simps)
  moreover have "\<bar>1000 * (b sdiv 1000) - b\<bar> < 1000" for b :: int
    by (auto simp: sdiv_1000)
  ultimately show ?thesis by metis
qed

lemma elapsed_millis_nonneg:
  assumes "micros t \<le> micros now"
  shows "0 \<le> elapsed_millis t now"
proof (rule ccontr)
  assume "\<not> ?thesis"
  then show False using elapsed_millis_near [of t now] assms by linarith
qed

text \<open>
  A delay that was set answers as the TLS library asks for at every later time (up to the 49 days of a
  32-bit millisecond counter), for a time that is less than one millisecond away from the one
  that has passed: the final delay is reported at the latest when it has passed, never a whole
  millisecond too early, and a delay of zero cancels the timer.
\<close>

lemma delay_contract:
  assumes "micros t0 \<le> micros now" "micros now - micros t0 < 4294967295000"
  shows "\<exists>ms. \<bar>1000 * ms - (micros now - micros t0)\<bar> < 1000 \<and>
    timing_get_delay now (timing_set_delay t0 im fm ctx) = delay_status (unat im) (unat fm) ms"
proof (intro exI conjI)
  let ?ms = "elapsed_millis t0 now"
  show near: "\<bar>1000 * ?ms - (micros now - micros t0)\<bar> < 1000" by (rule elapsed_millis_near)
  have ms: "0 \<le> ?ms" "?ms < 2 ^ 32"
    using elapsed_millis_nonneg [OF assms(1)] near assms(2) by simp_all
  have cmp: "d \<le> word_of_int ?ms \<longleftrightarrow> int (unat d) \<le> ?ms" for d :: u32
    using ms by (simp add: word_le_def unsigned_of_int take_bit_int_eq_self)
  show "timing_get_delay now (timing_set_delay t0 im fm ctx) = delay_status (unat im) (unat fm) ?ms"
  proof (cases "fm = 0")
    case False
    then have "unat fm \<noteq> 0" by (simp add: unat_eq_zero)
    have "timing_set_delay t0 im fm ctx = ctx\<lparr>int_ms := im, fin_ms := fm, start := t0\<rparr>"
      using False by (simp add: timing_set_delay_def timing_get_timer_def)
    then show ?thesis using False \<open>unat fm \<noteq> 0\<close>
      by (simp only: timing_get_delay_def) (simp add: get_timer_elapsed Let_def cmp delay_status_def)
  qed (simp add: timing_set_delay_def timing_get_delay_def delay_status_def)
qed

text \<open>The rounding is off in both directions: one microsecond across a second is a millisecond.\<close>

lemma early_millisecond:
  "elapsed_millis \<lparr>tv_sec = 0, tv_usec = 999999\<rparr> \<lparr>tv_sec = 1, tv_usec = 0\<rparr> = 1"
  "elapsed_millis \<lparr>tv_sec = 0, tv_usec = 0\<rparr> \<lparr>tv_sec = 0, tv_usec = 999\<rparr> = 0"
  by (simp_all add: elapsed_millis_def sdiv_1000)

end
