(* ===== verification/Ntp_Date.thy ===== *)
theory Ntp_Date
  imports Arduino_Core
begin

section \<open>Dates of the time client\<close>

text \<open>
  \<open>getFormattedDate\<close> and \<open>getFormattedTime\<close> of
  \<^verbatim>\<open>components/arduino/libraries/NTPClient/NTPClient.cpp\<close>, which make the time stamps of the usage log: the
  loops over years and months, and the text. The reference is the closed formula of the
  Gregorian calendar. Day and second numbers are below \<open>2 ^ 32\<close>, so the unsigned sums of the code do not
  wrap and are taken in \<open>nat\<close>.
\<close>

definition LEAP_YEAR :: "nat \<Rightarrow> bool" where
  "LEAP_YEAR y \<longleftrightarrow> y > 0 \<and> y mod 4 = 0 \<and> (y mod 100 \<noteq> 0 \<or> y mod 400 = 0)"

definition year_length :: "nat \<Rightarrow> nat" where
  "year_length y = (if LEAP_YEAR y then 366 else 365)"

function year_loop :: "nat \<Rightarrow> nat \<Rightarrow> nat \<Rightarrow> nat \<times> nat" where
  "year_loop rawTime days year =
     (let days = days + year_length year
      in if days \<le> rawTime then year_loop rawTime days (Suc year) else (days, year))"
  by pat_completeness auto
termination
  by (relation "measure (\<lambda>(rawTime, days, year). Suc rawTime - days)") (auto simp: year_length_def)

declare year_loop.simps [simp del]

definition monthDays :: "nat list" where
  "monthDays = [31, 28, 31, 30, 31, 30, 31, 31, 30, 31, 30, 31]"

definition monthLength :: "nat \<Rightarrow> nat \<Rightarrow> nat" where
  "monthLength year month =
     (if month = 1 then (if LEAP_YEAR year then 29 else 28) else monthDays ! month)"

fun month_loop :: "nat \<Rightarrow> nat \<Rightarrow> nat list \<Rightarrow> nat \<times> nat" where
  "month_loop year rawTime [] = (12, rawTime)"
| "month_loop year rawTime (m # ms) =
     (if rawTime < monthLength year m then (m, rawTime)
      else month_loop year (rawTime - monthLength year m) ms)"

text \<open>Year, month and day from the number of days since the start of 1970.\<close>

definition date_of_days :: "nat \<Rightarrow> nat \<times> nat \<times> nat" where
  "date_of_days rawTime =
     (case year_loop rawTime 0 1970 of (days, year) \<Rightarrow>
        case month_loop year (rawTime - (days - year_length year)) [0..<12] of (month, rawTime) \<Rightarrow>
          (year, Suc month, Suc rawTime))"

definition pad2 :: "nat \<Rightarrow> string" where
  "pad2 n = (if n < 10 then ''0'' @ String_uint n else String_uint n)"

definition date_text :: "nat \<Rightarrow> string" where
  "date_text rawTime = (case date_of_days rawTime of (year, month, day) \<Rightarrow>
     String_uint year @ ''-'' @ pad2 month @ ''-'' @ pad2 day)"

definition time_text :: "nat \<Rightarrow> string" where
  "time_text rawTime = pad2 (rawTime mod 86400 div 3600) @ '':'' @ pad2 (rawTime mod 3600 div 60) @ '':'' @
     pad2 (rawTime mod 60)"

subsection \<open>The calendar\<close>

definition valid_date :: "nat \<times> nat \<times> nat \<Rightarrow> bool" where
  "valid_date = (\<lambda>(y, m, d). 1970 \<le> y \<and> 1 \<le> m \<and> m \<le> 12 \<and> 1 \<le> d \<and>
     d \<le> (if m = 2 then (if LEAP_YEAR y then 29 else 28) else if m \<in> {4, 6, 9, 11} then 30 else 31))"

text \<open>Days before the start of a year, from the number of leap years since 1970, and before a month.\<close>

definition days_before_year :: "nat \<Rightarrow> int" where
  "days_before_year y = 365 * (int y - 1970) + int ((y - 1969) div 4) - int ((y - 1901) div 100) +
     int ((y - 1601) div 400)"

definition days_before_month :: "nat \<Rightarrow> nat \<Rightarrow> nat" where
  "days_before_month y m = [0, 31, 59, 90, 120, 151, 181, 212, 243, 273, 304, 334] ! (m - 1) +
     (if m > 2 \<and> LEAP_YEAR y then 1 else 0)"

definition day_number :: "nat \<times> nat \<times> nat \<Rightarrow> int" where
  "day_number = (\<lambda>(y, m, d). days_before_year y + int (days_before_month y m) + int d - 1)"

lemma div_step: "1 \<le> y - k \<Longrightarrow> 0 < n \<Longrightarrow>
  (Suc y - k) div n = (y - k) div n + (if (Suc y - k) mod n = 0 then 1 else 0)"
  by (simp add: Suc_diff_le div_Suc)

lemma days_before_year_Suc:
  assumes "1970 \<le> y"
  shows "days_before_year (Suc y) = days_before_year y + int (year_length y)"
proof -
  obtain k where k: "y = 1970 + k" using assms le_Suc_ex by blast
  have "(Suc y - 1969) mod 4 = 0 \<longleftrightarrow> y mod 4 = 0" "(Suc y - 1901) mod 100 = 0 \<longleftrightarrow> y mod 100 = 0"
    "(Suc y - 1601) mod 400 = 0 \<longleftrightarrow> y mod 400 = 0"
    by (simp_all add: k) presburger+
  moreover have "y mod 400 = 0 \<Longrightarrow> y mod 100 = 0" "y mod 100 = 0 \<Longrightarrow> y mod 4 = 0" by presburger+
  ultimately show ?thesis
    using assms div_step [of y 1969 4] div_step [of y 1901 100] div_step [of y 1601 400]
    by (auto simp: days_before_year_def year_length_def LEAP_YEAR_def)
qed

lemma days_before_year_1970: "days_before_year 1970 = 0"
  by (simp add: days_before_year_def)

lemma days_before_year_mono:
  assumes "1970 \<le> y" "y \<le> z"
  shows "days_before_year y + 365 * (int z - int y) \<le> days_before_year z"
  using assms(2)
proof (induction z rule: dec_induct)
  case (step z)
  then show ?case using assms(1) days_before_year_Suc [of z] by (simp add: year_length_def)
qed simp

lemma year_loop_spec:
  assumes "1970 \<le> year" "int days = days_before_year year" "days \<le> rawTime"
  shows "\<exists>y. year_loop rawTime days year = (nat (days_before_year (Suc y)), y) \<and> 1970 \<le> y \<and>
    days_before_year y \<le> int rawTime \<and> int rawTime < days_before_year (Suc y)"
  using assms
proof (induction rawTime days year rule: year_loop.induct)
  case (1 rawTime days year)
  have next_year: "int (days + year_length year) = days_before_year (Suc year)"
    using "1.prems" by (simp add: days_before_year_Suc)
  show ?case
  proof (cases "days + year_length year \<le> rawTime")
    case True
    then show ?thesis using "1.IH" [OF refl True] "1.prems"(1) next_year
      by (simp add: year_loop.simps [of rawTime days year])
  next
    case False
    then show ?thesis using "1.prems" next_year
      by (intro exI [of _ year]) (simp add: year_loop.simps [of rawTime days year] nat_eq_iff)
  qed
qed

definition month_start :: "nat \<Rightarrow> nat \<Rightarrow> nat" where
  "month_start year m = sum_list (map (monthLength year) [0..<m])"

lemma month_loop_spec:
  assumes "rawTime < sum_list (map (monthLength year) ms)"
  shows "\<exists>xs m ys r. ms = xs @ m # ys \<and> month_loop year rawTime ms = (m, r) \<and> r < monthLength year m \<and>
    rawTime = sum_list (map (monthLength year) xs) + r"
  using assms
proof (induction ms arbitrary: rawTime)
  case (Cons m ms)
  show ?case
  proof (cases "rawTime < monthLength year m")
    case True
    then show ?thesis by (intro exI [of _ "[]"]) simp
  next
    case False
    then have "rawTime - monthLength year m < sum_list (map (monthLength year) ms)" using Cons.prems by simp
    from Cons.IH [OF this] obtain xs m' ys r where "ms = xs @ m' # ys"
      "month_loop year (rawTime - monthLength year m) ms = (m', r)" "r < monthLength year m'"
      "rawTime - monthLength year m = sum_list (map (monthLength year) xs) + r" by blast
    then show ?thesis using False
      by (intro exI [of _ "m # xs"] exI [of _ m'] exI [of _ ys] exI [of _ r]) auto
  qed
qed simp

lemma months_of_year: "m < 12 \<Longrightarrow> month_start year m = days_before_month year (Suc m)"
  "month_start year 12 = year_length year"
proof -
  have "\<forall>m \<in> set [0..<12]. month_start year m = days_before_month year (Suc m)"
    by (simp add: month_start_def monthLength_def monthDays_def days_before_month_def upt_rec)
  then show "m < 12 \<Longrightarrow> month_start year m = days_before_month year (Suc m)" by simp
  show "month_start year 12 = year_length year"
    by (simp add: month_start_def monthLength_def monthDays_def year_length_def upt_rec)
qed

lemma monthLength_valid:
  "m < 12 \<Longrightarrow> monthLength y m =
    (if Suc m = 2 then (if LEAP_YEAR y then 29 else 28) else if Suc m \<in> {4, 6, 9, 11} then 30 else 31)"
proof -
  have "\<forall>m \<in> set [0..<12]. monthLength y m =
    (if Suc m = 2 then (if LEAP_YEAR y then 29 else 28) else if Suc m \<in> {4, 6, 9, 11} then 30 else 31)"
    by (simp add: monthLength_def monthDays_def upt_rec)
  then show "m < 12 \<Longrightarrow> ?thesis" by simp
qed

lemma upt_split: "[0..<n] = xs @ m # ys \<Longrightarrow> m = length xs \<and> m < n \<and> xs = [0..<m]"
proof -
  assume a: "[0..<n] = xs @ m # ys"
  have l: "length xs < n" using arg_cong [OF a, of length] by simp
  have "[0..<n] ! length xs = m" using a by simp
  moreover have "take (length xs) [0..<n] = xs" using a by simp
  ultimately show ?thesis using l by (simp add: take_upt)
qed

lemma date_of_days_number: "valid_date (date_of_days n) \<and> day_number (date_of_days n) = int n"
proof -
  obtain y where y: "year_loop n 0 1970 = (nat (days_before_year (Suc y)), y)" "1970 \<le> y"
    "days_before_year y \<le> int n" "int n < days_before_year (Suc y)"
    using year_loop_spec [of 1970 0 n] by (auto simp: days_before_year_1970)
  define r where "r = n - nat (days_before_year y)"
  have pos: "0 \<le> days_before_year y"
    using days_before_year_mono [of 1970 y] y(2) by (simp add: days_before_year_1970)
  have start: "nat (days_before_year (Suc y)) - year_length y = nat (days_before_year y)"
    using pos y(2) by (simp add: days_before_year_Suc nat_add_distrib)
  have r1: "int r = int n - days_before_year y" using pos y(3) by (simp add: r_def of_nat_diff nat_le_iff)
  then have "int r < int (year_length y)" using y(4) days_before_year_Suc [OF y(2)] by linarith
  then have r: "int r = int n - days_before_year y" "r < month_start y 12"
    using r1 by (simp_all only: months_of_year(2) of_nat_less_iff)
  obtain xs m ys r' where m: "[0..<12] = xs @ m # ys" "month_loop y r [0..<12] = (m, r')"
    "r' < monthLength y m" "r = sum_list (map (monthLength y) xs) + r'"
    using month_loop_spec [OF r(2) [unfolded month_start_def]] by blast
  have m12: "m < 12" "xs = [0..<m]" using upt_split [OF m(1)] by blast+
  have d: "date_of_days n = (y, Suc m, Suc r')"
    unfolding date_of_days_def y(1) prod.case start r_def [symmetric] m(2) by (rule refl)
  have "r = days_before_month y (Suc m) + r'"
    using m(4) m12 by (simp add: month_start_def flip: months_of_year(1))
  then have "day_number (date_of_days n) = int n" using r(1) by (simp add: d day_number_def)
  moreover have "valid_date (date_of_days n)"
    using y(2) m12(1) m(3) monthLength_valid [OF m12(1), of y] by (simp add: d valid_date_def)
  ultimately show ?thesis by blast
qed

text \<open>The number of a date determines it.\<close>

lemma month_start_mono: "a \<le> b \<Longrightarrow> month_start y a \<le> month_start y b"
proof -
  assume "a \<le> b"
  then have "[0..<b] = [0..<a] @ [a..<b]" using upt_add_eq_append [of 0 a "b - a"] by simp
  then show ?thesis by (simp only: month_start_def map_append sum_list_append)
qed

lemma month_start_Suc: "month_start y (Suc k) = month_start y k + monthLength y k"
  by (simp add: month_start_def)

lemma day_of_year:
  assumes "valid_date (y, m, d)"
  obtains k where "m = Suc k" "k < 12" "1970 \<le> y" "1 \<le> d" "d \<le> monthLength y k"
    "day_number (y, m, d) = days_before_year y + int (month_start y k) + int d - 1"
proof -
  obtain k where k: "m = Suc k" "k < 12" using assms by (cases m) (auto simp: valid_date_def)
  have "1970 \<le> y" "1 \<le> d" "d \<le> monthLength y k"
    using assms monthLength_valid [OF k(2), of y] by (simp_all add: valid_date_def k(1) split: if_splits)
  then show ?thesis
    using that [OF k] k months_of_year(1) [OF k(2), of y] by (simp add: day_number_def)
qed

lemma day_in_year:
  assumes "valid_date (y, m, d)"
  shows "days_before_year y \<le> day_number (y, m, d)" "day_number (y, m, d) < days_before_year (Suc y)"
proof -
  obtain k where k: "k < 12" "1970 \<le> y" "1 \<le> d" "d \<le> monthLength y k"
    "day_number (y, m, d) = days_before_year y + int (month_start y k) + int d - 1"
    using day_of_year [OF assms] by blast
  have "month_start y k + monthLength y k \<le> year_length y"
    using month_start_mono [of "Suc k" 12 y] k(1) unfolding month_start_Suc months_of_year(2) by simp
  with k(2-5) show "days_before_year y \<le> day_number (y, m, d)" "day_number (y, m, d) < days_before_year (Suc y)"
    by (simp_all add: days_before_year_Suc)
qed

lemma day_number_inj:
  assumes "valid_date (y, m, d)" "valid_date (y', m', d')" "day_number (y, m, d) = day_number (y', m', d')"
  shows "(y, m, d) = (y', m', d')"
proof -
  have "y = y'" if "valid_date (y, m, d)" "valid_date (y', m', d')" "day_number (y, m, d) = day_number (y', m', d')"
    "y \<le> y'" for y m d y' m' d'
  proof (rule ccontr)
    assume "y \<noteq> y'"
    then have "Suc y \<le> y'" "1970 \<le> Suc y" using that(1,4) by (auto simp: valid_date_def)
    moreover from this(1) have "0 \<le> 365 * (int y' - int (Suc y))" by simp
    ultimately show False
      using days_before_year_mono [of "Suc y" y'] day_in_year(2) [OF that(1)] day_in_year(1) [OF that(2)] that(3)
      by linarith
  qed
  from this [of y m d y' m' d'] this [of y' m' d' y m d] assms have y: "y = y'" by (cases "y \<le> y'") auto
  obtain k where k: "m = Suc k" "1 \<le> d" "d \<le> monthLength y k"
    "day_number (y, m, d) = days_before_year y + int (month_start y k) + int d - 1"
    using day_of_year [OF assms(1)] by blast
  obtain k' where k': "m' = Suc k'" "1 \<le> d'" "d' \<le> monthLength y k'"
    "day_number (y, m', d') = days_before_year y + int (month_start y k') + int d' - 1"
    using day_of_year [OF assms(2)] unfolding y by blast
  have eq: "month_start y k + d = month_start y k' + d'" using assms(3) k(4) k'(4) unfolding y by linarith
  have "\<not> k < k'" "\<not> k' < k"
    using month_start_mono [of "Suc k" k' y] month_start_mono [of "Suc k'" k y] eq k(2,3) k'(2,3)
    unfolding month_start_Suc by (auto simp: Suc_le_eq)
  then have "k = k'" by simp
  with eq show ?thesis by (simp add: y k(1) k'(1))
qed

text \<open>
  C40: the loops over years and months find, for every number of days since the start of 1970, the one
  date of the Gregorian calendar that has this number by the closed formula.
\<close>

theorem date_of_days_correct:
  "(date_of_days n = (y, m, d)) = (valid_date (y, m, d) \<and> day_number (y, m, d) = int n)"
proof
  assume "valid_date (y, m, d) \<and> day_number (y, m, d) = int n"
  moreover obtain y' m' d' where "date_of_days n = (y', m', d')" by (metis prod_cases3)
  ultimately show "date_of_days n = (y, m, d)"
    using date_of_days_number [of n] day_number_inj [of y m d y' m' d'] by simp
qed (use date_of_days_number [of n] in simp)

subsection \<open>The text\<close>

lemma digits_loop_10:
  "digits_loop 10 n out = (if n < 10 then out @ [digit_chars ! n]
     else digits_loop 10 (n div 10) (out @ [digit_chars ! (n mod 10)]))"
  by (simp add: digits_loop.simps [of 10 n out] Let_def div_eq_0_iff flip: minus_div_mult_eq_mod)

lemma length_String_uint:
  "n < 10 \<Longrightarrow> length (String_uint n) = 1"
  "10 \<le> n \<Longrightarrow> n < 100 \<Longrightarrow> length (String_uint n) = 2"
  "1000 \<le> n \<Longrightarrow> n < 10000 \<Longrightarrow> length (String_uint n) = 4"
proof -
  assume n: "1000 \<le> n" "n < 10000"
  then have "\<not> n < 10" "\<not> n div 10 < 10" "\<not> n div 10 div 10 < 10" "n div 10 div 10 div 10 < 10"
    by (simp_all add: div_less_iff_less_mult)
  then show "length (String_uint n) = 4"
    by (simp add: String_uint_def ultoa_def reverse_buf_eq_rev digits_loop_10 del: div_mult2_eq)
qed (simp_all add: String_uint_def ultoa_def reverse_buf_eq_rev digits_loop_10)

lemma pad2_text: "n < 100 \<Longrightarrow> length (pad2 n) = 2 \<and> strtol_digits 10 0 (pad2 n) = n"
  using ultoa_10_digits [of n] length_String_uint(1,2) [of n]
  by (cases "n < 10") (simp_all add: pad2_def digit_val_def)

definition number_at :: "string \<Rightarrow> nat \<Rightarrow> nat \<Rightarrow> nat" where
  "number_at s i k = strtol_digits 10 0 (take k (drop i s))"

text \<open>What a reader of the text takes it for.\<close>

definition iso_seconds :: "string \<Rightarrow> int" where
  "iso_seconds s = 86400 * day_number (number_at s 0 4, number_at s 5 2, number_at s 8 2) +
     3600 * int (number_at s 11 2) + 60 * int (number_at s 14 2) + int (number_at s 17 2)"

lemma year_bound:
  assumes "date_of_days n = (y, m, d)" "n < 100000"
  shows "1970 \<le> y" "y < 10000"
proof -
  have v: "valid_date (y, m, d)" "day_number (y, m, d) = int n" using date_of_days_number [of n] assms(1) by auto
  then show "1970 \<le> y" by (simp add: valid_date_def)
  then show "y < 10000"
    using days_before_year_mono [of 1970 y] day_in_year(1) [OF v(1)] v(2) assms(2)
    by (simp add: days_before_year_1970)
qed

lemma number_at_append:
  "length a = i \<Longrightarrow> length b = k \<Longrightarrow> number_at (a @ b @ c) i k = strtol_digits 10 0 b"
  by (simp add: number_at_def)

lemma clock_parts: "3600 * (t mod 86400 div 3600) + 60 * (t mod 3600 div 60) + t mod 60 = (t mod 86400 :: nat)"
proof -
  define r where "r = t mod 86400"
  have m: "t mod 3600 = r mod 3600" "t mod 60 = r mod 3600 mod 60"
    by (simp_all add: r_def mod_mod_cancel)
  have "3600 * (r div 3600) + r mod 3600 = r" "60 * (r mod 3600 div 60) + r mod 3600 mod 60 = r mod 3600"
    by (rule mult_div_mod_eq)+
  then show ?thesis unfolding r_def [symmetric] m by linarith
qed

lemma iso_parts:
  assumes "days < 100000"
  shows "iso_seconds (date_text days @ ''T'' @ time_text secs @ ''Z'') =
    86400 * int days + int (secs mod 86400)"
proof -
  obtain y m d where d: "date_of_days days = (y, m, d)" by (metis prod_cases3)
  have v: "valid_date (y, m, d)" "day_number (y, m, d) = int days"
    using date_of_days_number [of days] d by auto
  define Y where "Y = String_uint y"
  define M where "M = pad2 m"
  define D where "D = pad2 d"
  define H where "H = pad2 (secs mod 86400 div 3600)"
  define N where "N = pad2 (secs mod 3600 div 60)"
  define S where "S = pad2 (secs mod 60)"
  have Y: "length Y = 4" "strtol_digits 10 0 Y = y"
    using length_String_uint(3) [of y] year_bound [OF d assms] ultoa_10_digits [of y] by (auto simp: Y_def)
  have "m < 100" "d < 100" using v(1) by (auto simp: valid_date_def split: if_splits)
  then have MD: "length M = 2" "strtol_digits 10 0 M = m" "length D = 2" "strtol_digits 10 0 D = d"
    using pad2_text by (simp_all add: M_def D_def)
  have "secs mod 86400 div 3600 < 100" "secs mod 3600 div 60 < 100"
    by (simp_all add: div_less_iff_less_mult order_less_trans [OF mod_less_divisor])
  moreover have "secs mod 60 < 100" by (rule order_less_trans [OF mod_less_divisor]) simp_all
  ultimately have HNS: "length H = 2" "strtol_digits 10 0 H = secs mod 86400 div 3600"
    "length N = 2" "strtol_digits 10 0 N = secs mod 3600 div 60" "length S = 2" "strtol_digits 10 0 S = secs mod 60"
    using pad2_text by (simp_all add: H_def N_def S_def)
  define t where "t = Y @ ''-'' @ M @ ''-'' @ D @ ''T'' @ H @ '':'' @ N @ '':'' @ S @ ''Z''"
  have "date_text days @ ''T'' @ time_text secs @ ''Z'' = t"
    by (simp add: date_text_def d time_text_def t_def Y_def M_def D_def H_def N_def S_def)
  moreover have "number_at t 0 4 = y"
    using number_at_append [of "[]" 0 Y 4] Y by (simp add: t_def)
  moreover have "number_at t 5 2 = m"
    using number_at_append [of "Y @ ''-''" 5 M 2] Y MD by (simp add: t_def)
  moreover have "number_at t 8 2 = d"
    using number_at_append [of "Y @ ''-'' @ M @ ''-''" 8 D 2] Y MD by (simp add: t_def)
  moreover have "number_at t 11 2 = secs mod 86400 div 3600"
    using number_at_append [of "Y @ ''-'' @ M @ ''-'' @ D @ ''T''" 11 H 2] Y MD HNS by (simp add: t_def)
  moreover have "number_at t 14 2 = secs mod 3600 div 60"
    using number_at_append [of "Y @ ''-'' @ M @ ''-'' @ D @ ''T'' @ H @ '':''" 14 N 2] Y MD HNS by (simp add: t_def)
  moreover have "number_at t 17 2 = secs mod 60"
    using number_at_append [of "Y @ ''-'' @ M @ ''-'' @ D @ ''T'' @ H @ '':'' @ N @ '':''" 17 S 2] Y MD HNS
    by (simp add: t_def)
  ultimately have "iso_seconds (date_text days @ ''T'' @ time_text secs @ ''Z'') =
      86400 * int days + int (3600 * (secs mod 86400 div 3600) + 60 * (secs mod 3600 div 60) + secs mod 60)"
    by (simp add: iso_seconds_def v(2))
  then show ?thesis by (simp only: clock_parts)
qed

end
