(* ===== verification/Ntp.thy ===== *)
theory Ntp
  imports Ntp_Date
begin

section \<open>The time client\<close>

text \<open>
  \<^verbatim>\<open>components/arduino/libraries/NTPClient/NTPClient.cpp\<close> with the calls \<^verbatim>\<open>main/Firebase.cpp\<close> makes for the time
  stamp of a log record. The UDP socket and the millisecond clock are parameters: the packet that the
  next \<open>parsePacket\<close> finds (empty when there is none) and the time, after the events so far. The
  field \<open>env_fb_date\<close> of the device's environment is what \<open>log_timestamp\<close> gives.
\<close>

datatype ntp_event =
    UdpBegin int | UdpParse | UdpFlush | UdpRead | UdpSend string nat "u8 list" | UdpStop
  | NtpDelay nat | NtpMillis

record udp_env =
  udp_packet :: "ntp_event list \<Rightarrow> u8 list"
  ntp_clock :: "ntp_event list \<Rightarrow> u32"
  ntp_patience :: nat

record ntp =
  udpSetup :: bool
  ntp_port :: int
  timeOffset :: int
  updateInterval :: u32
  currentEpoc :: u32
  lastUpdate :: u32
  packetBuffer :: "u8 list"
  ntp_out :: "ntp_event list"

definition SEVENZYYEARS :: u32 where "SEVENZYYEARS = 2208988800"
definition NTP_PACKET_SIZE :: nat where "NTP_PACKET_SIZE = 48"
definition NTP_DEFAULT_LOCAL_PORT :: int where "NTP_DEFAULT_LOCAL_PORT = 1337"
definition poolServerName :: string where "poolServerName = ''pool.ntp.org''"

definition ntp_new :: ntp where
  "ntp_new = \<lparr>udpSetup = False, ntp_port = NTP_DEFAULT_LOCAL_PORT, timeOffset = 0, updateInterval = 60000,
     currentEpoc = 0, lastUpdate = 0, packetBuffer = replicate NTP_PACKET_SIZE 0, ntp_out = []\<rparr>"

definition nemit :: "ntp_event \<Rightarrow> ntp \<Rightarrow> ntp" where
  "nemit e c = c\<lparr>ntp_out := ntp_out c @ [e]\<rparr>"

definition ntp_millis :: "udp_env \<Rightarrow> ntp \<Rightarrow> u32 \<times> ntp" where
  "ntp_millis E c = (let c = nemit NtpMillis c in (ntp_clock E (ntp_out c), c))"

subsection \<open>Set-up\<close>

definition ntp_begin_port :: "int \<Rightarrow> ntp \<Rightarrow> ntp" where
  "ntp_begin_port p c = (nemit (UdpBegin p) (c\<lparr>ntp_port := p\<rparr>))\<lparr>udpSetup := True\<rparr>"

definition ntp_begin :: "ntp \<Rightarrow> ntp" where
  "ntp_begin = ntp_begin_port NTP_DEFAULT_LOCAL_PORT"

definition ntp_end :: "ntp \<Rightarrow> ntp" where
  "ntp_end c = (nemit UdpStop c)\<lparr>udpSetup := False\<rparr>"

definition setTimeOffset :: "int \<Rightarrow> ntp \<Rightarrow> ntp" where
  "setTimeOffset n c = c\<lparr>timeOffset := n\<rparr>"

definition setUpdateInterval :: "u32 \<Rightarrow> ntp \<Rightarrow> ntp" where
  "setUpdateInterval n c = c\<lparr>updateInterval := n\<rparr>"

definition setEpochTime :: "u32 \<Rightarrow> ntp \<Rightarrow> ntp" where
  "setEpochTime secs c = c\<lparr>currentEpoc := secs\<rparr>"

subsection \<open>Packets\<close>

definition isValid :: "u8 list \<Rightarrow> bool" where
  "isValid b =
     (if b ! 0 AND 0xC0 = 0xC0 then False
      else if drop_bit 3 (b ! 0 AND 0x38) < 4 then False
      else if b ! 0 AND 0x07 \<noteq> 4 then False
      else if b ! 1 < 1 \<or> b ! 1 > 15 then False
      else if b ! 16 = 0 \<and> b ! 17 = 0 \<and> b ! 18 = 0 \<and> b ! 19 = 0 \<and>
              b ! 20 = 0 \<and> b ! 21 = 0 \<and> b ! 22 = 0 \<and> b ! 22 = 0 then False
      else True)"

definition ntp_request :: "u8 list" where
  "ntp_request = [0xE3, 0, 6, 0xEC] @ replicate 8 0 @ [0x49, 0x4E, 0x49, 0x52] @ replicate 32 0"

definition sendNTPPacket :: "ntp \<Rightarrow> ntp" where
  "sendNTPPacket c = nemit (UdpSend poolServerName 123 ntp_request) (c\<lparr>packetBuffer := ntp_request\<rparr>)"

text \<open>The seconds since 1900 in a packet, put together from two words.\<close>

definition secsSince1900 :: "u8 list \<Rightarrow> u32" where
  "secsSince1900 b = push_bit 16 (of_nat (makeWord (b ! 40) (b ! 41))) OR of_nat (makeWord (b ! 42) (b ! 43))"

subsection \<open>\<open>forceUpdate\<close> and \<open>update\<close>\<close>

fun udp_drain :: "udp_env \<Rightarrow> nat \<Rightarrow> ntp \<Rightarrow> ntp res" where
  "udp_drain E 0 c = Inl Hang"
| "udp_drain E (Suc n) c =
     (let c = nemit UdpParse c
      in if udp_packet E (ntp_out c) \<noteq> [] then udp_drain E n (nemit UdpFlush c) else Inr c)"

definition udp_read :: "u8 list \<Rightarrow> ntp \<Rightarrow> ntp" where
  "udp_read pkt c = nemit UdpRead
     (c\<lparr>packetBuffer := take NTP_PACKET_SIZE pkt @ drop (length pkt) (packetBuffer c)\<rparr>)"

text \<open>One turn of the waiting loop; the result says whether a packet is accepted.\<close>

definition ntp_turn :: "udp_env \<Rightarrow> ntp \<Rightarrow> bool \<times> ntp" where
  "ntp_turn E c =
     (let c = nemit UdpParse (nemit (NtpDelay 10) c); pkt = udp_packet E (ntp_out c)
      in if pkt \<noteq> [] then (let c = udp_read pkt c in (isValid (packetBuffer c), c)) else (False, c))"

text \<open>The loop with its counter; \<open>Some\<close> of the counter after a valid packet, \<open>None\<close> when the time is up.\<close>

function ntp_wait :: "udp_env \<Rightarrow> nat \<Rightarrow> ntp \<Rightarrow> nat option \<times> ntp" where
  "ntp_wait E timeout c =
     (case ntp_turn E c of (got, c) \<Rightarrow>
        if timeout > 100 then (None, c)
        else if got then (Some (Suc timeout), c)
        else ntp_wait E (Suc timeout) c)"
  by pat_completeness auto
termination
  by (relation "measure (\<lambda>(E, timeout, c). 102 - timeout)") auto

declare ntp_wait.simps [simp del]

definition forceUpdate :: "udp_env \<Rightarrow> ntp \<Rightarrow> (bool \<times> ntp) res" where
  "forceUpdate E c = andThen (udp_drain E (ntp_patience E) c) (\<lambda>c.
     case ntp_wait E 0 (sendNTPPacket c) of
       (None, c) \<Rightarrow> Inr (False, c)
     | (Some timeout, c) \<Rightarrow> (case ntp_millis E c of (now, c) \<Rightarrow>
         Inr (True, c\<lparr>lastUpdate := now - of_nat (10 * (timeout + 1)),
                      currentEpoc := secsSince1900 (packetBuffer c) - SEVENZYYEARS\<rparr>)))"

definition ntp_update :: "udp_env \<Rightarrow> ntp \<Rightarrow> (bool \<times> ntp) res" where
  "ntp_update E c = (case ntp_millis E c of (now, c) \<Rightarrow>
     if now - lastUpdate c \<ge> updateInterval c \<or> lastUpdate c = 0
     then forceUpdate E (if udpSetup c then c else ntp_begin c)
     else Inr (True, c))"

subsection \<open>The time\<close>

definition epoch_at :: "ntp \<Rightarrow> u32 \<Rightarrow> u32" where
  "epoch_at c now = word_of_int (timeOffset c) + currentEpoc c + (now - lastUpdate c) div 1000"

definition getEpochTime :: "udp_env \<Rightarrow> ntp \<Rightarrow> u32 \<times> ntp" where
  "getEpochTime E c = (case ntp_millis E c of (now, c) \<Rightarrow> (epoch_at c now, c))"

definition getDay :: "udp_env \<Rightarrow> ntp \<Rightarrow> int \<times> ntp" where
  "getDay E c = (case getEpochTime E c of (t, c) \<Rightarrow> (int ((unat t div 86400 + 4) mod 7), c))"

definition getHours :: "udp_env \<Rightarrow> ntp \<Rightarrow> int \<times> ntp" where
  "getHours E c = (case getEpochTime E c of (t, c) \<Rightarrow> (int (unat t mod 86400 div 3600), c))"

definition getMinutes :: "udp_env \<Rightarrow> ntp \<Rightarrow> int \<times> ntp" where
  "getMinutes E c = (case getEpochTime E c of (t, c) \<Rightarrow> (int (unat t mod 3600 div 60), c))"

definition getSeconds :: "udp_env \<Rightarrow> ntp \<Rightarrow> int \<times> ntp" where
  "getSeconds E c = (case getEpochTime E c of (t, c) \<Rightarrow> (int (unat t mod 60), c))"

definition secs_or_now :: "udp_env \<Rightarrow> u32 \<Rightarrow> ntp \<Rightarrow> u32 \<times> ntp" where
  "secs_or_now E secs c = (if secs \<noteq> 0 then (secs, c) else getEpochTime E c)"

definition getFormattedTime :: "udp_env \<Rightarrow> u32 \<Rightarrow> ntp \<Rightarrow> string \<times> ntp" where
  "getFormattedTime E secs c = (case secs_or_now E secs c of (rawTime, c) \<Rightarrow> (time_text (unat rawTime), c))"

definition getFormattedDate :: "udp_env \<Rightarrow> u32 \<Rightarrow> ntp \<Rightarrow> string \<times> ntp" where
  "getFormattedDate E secs c = (case secs_or_now E secs c of (rawTime, c) \<Rightarrow>
     case getFormattedTime E secs c of (t, c) \<Rightarrow>
       (date_text (unat rawTime div 86400) @ ''T'' @ t @ ''Z'', c))"

subsection \<open>The time stamp of a log record\<close>

fun ntp_sync :: "udp_env \<Rightarrow> nat \<Rightarrow> ntp \<Rightarrow> ntp res" where
  "ntp_sync E 0 c = Inl Hang"
| "ntp_sync E (Suc n) c = andThen (ntp_update E c) (\<lambda>(b, c).
     if b then Inr c else andThen (forceUpdate E c) (\<lambda>(_, c). ntp_sync E n c))"

definition initNTPClient :: "ntp \<Rightarrow> ntp" where
  "initNTPClient c = setTimeOffset 3600 (ntp_begin c)"

definition log_timestamp :: "udp_env \<Rightarrow> ntp \<Rightarrow> (string \<times> ntp) res" where
  "log_timestamp E c = andThen (ntp_sync E (ntp_patience E) (initNTPClient c))
     (\<lambda>c. case getFormattedDate E 0 c of (s, c) \<Rightarrow> Inr (s, ntp_end c))"

end
