(* ===== verification/Timestamps.thy ===== *)
theory Timestamps
  imports Ntp
begin

section \<open>Properties of the time client\<close>

text \<open>
  What an update takes from the server, within how many turns it ends, and which time the stamp of a log
  record says.
\<close>

subsection \<open>The waiting loop\<close>

definition delays :: "ntp_event list \<Rightarrow> nat" where
  "delays es = length (filter (\<lambda>e. e = NtpDelay 10) es)"

lemma delays_simps [simp]:
  "delays [] = 0" "delays (es @ fs) = delays es + delays fs"
  "delays (e # es) = (if e = NtpDelay 10 then Suc (delays es) else delays es)"
  by (simp_all add: delays_def)

text \<open>
  The network from the point \<open>o1\<close> of the trace on: the turn number \<open>k\<close> of the loop, from 0 on, finds the
  packet \<open>pk k\<close>, which is empty when there is none.
\<close>

definition delivers :: "udp_env \<Rightarrow> ntp_event list \<Rightarrow> (nat \<Rightarrow> u8 list) \<Rightarrow> bool" where
  "delivers E o1 pk \<longleftrightarrow> (\<forall>es. udp_packet E (o1 @ es @ [NtpDelay 10, UdpParse]) = pk (delays es))"

text \<open>The buffer after so many turns: a packet that is too short leaves the rest of what was there.\<close>

primrec packet_after :: "(nat \<Rightarrow> u8 list) \<Rightarrow> nat \<Rightarrow> u8 list" where
  "packet_after pk 0 = ntp_request"
| "packet_after pk (Suc k) = (if pk k = [] then packet_after pk k else take 48 (pk k) @ drop (length (pk k)) (packet_after pk k))"

definition accepted :: "(nat \<Rightarrow> u8 list) \<Rightarrow> nat \<Rightarrow> bool" where
  "accepted pk k \<longleftrightarrow> pk k \<noteq> [] \<and> isValid (packet_after pk (Suc k))"

text \<open>What the loop changes in turn \<open>t\<close>: the buffer, and the trace by one delay.\<close>

definition after_turns :: "(nat \<Rightarrow> u8 list) \<Rightarrow> nat \<Rightarrow> nat \<Rightarrow> ntp \<Rightarrow> ntp \<Rightarrow> bool" where
  "after_turns pk t n c c' \<longleftrightarrow> (\<exists>es. c' = c\<lparr>packetBuffer := packet_after pk (t + n), ntp_out := ntp_out c @ es\<rparr> \<and> delays es = n)"

lemma after_turns_Suc: "after_turns pk t 1 c d \<Longrightarrow> after_turns pk (Suc t) n d e \<Longrightarrow> after_turns pk t (Suc n) c e"
  unfolding after_turns_def by (elim exE) (rule_tac x = "es @ esa" in exI, simp)

lemma ntp_turn_effect:
  assumes "delivers E o1 pk" "ntp_out c = o1 @ es" "packetBuffer c = packet_after pk (delays es)"
  shows "fst (ntp_turn E c) = accepted pk (delays es)" "after_turns pk (delays es) 1 c (snd (ntp_turn E c))"
proof -
  let ?t = "delays es"
  have p: "udp_packet E (ntp_out c @ [NtpDelay 10, UdpParse]) = pk ?t"
    using assms(1,2) by (simp add: delivers_def)
  show "fst (ntp_turn E c) = accepted pk ?t"
    using p assms(3) by (simp add: ntp_turn_def nemit_def udp_read_def NTP_PACKET_SIZE_def accepted_def Let_def)
  show "after_turns pk ?t 1 c (snd (ntp_turn E c))"
  proof (cases "pk ?t = []")
    case True
    then show ?thesis using p assms(3)
      by (auto simp: after_turns_def ntp_turn_def nemit_def intro!: exI [of _ "[NtpDelay 10, UdpParse]"])
  next
    case False
    then show ?thesis using p assms(3)
      by (auto simp: after_turns_def ntp_turn_def nemit_def udp_read_def NTP_PACKET_SIZE_def Let_def
          intro!: exI [of _ "[NtpDelay 10, UdpParse, UdpRead]"])
  qed
qed

lemma ntp_turn_pair:
  assumes "delivers E o1 pk" "ntp_out c = o1 @ es" "packetBuffer c = packet_after pk (delays es)"
  obtains d where "ntp_turn E c = (accepted pk (delays es), d)" "after_turns pk (delays es) 1 c d"
  using ntp_turn_effect [OF assms] that [of "snd (ntp_turn E c)"] by (simp add: prod_eq_iff)

lemma ntp_wait_first:
  assumes "delivers E o1 pk" "accepted pk k" "k \<le> 100"
    "ntp_out c = o1 @ es" "packetBuffer c = packet_after pk (delays es)" "delays es \<le> k" "\<forall>j. delays es \<le> j \<and> j < k \<longrightarrow> \<not> accepted pk j"
  shows "\<exists>c'. ntp_wait E (delays es) c = (Some (Suc k), c') \<and> after_turns pk (delays es) (Suc k - delays es) c c'"
  using assms(4-)
proof (induction "k - delays es" arbitrary: c es)
  case 0
  then have k: "delays es = k" by simp
  obtain d where d: "ntp_turn E c = (accepted pk (delays es), d)" "after_turns pk (delays es) 1 c d"
    using ntp_turn_pair [OF assms(1) 0(2,3)] .
  then have "ntp_wait E (delays es) c = (Some (Suc k), d)"
    using assms(2,3) k by (subst ntp_wait.simps) simp
  then show ?case using d(2) k by simp
next
  case (Suc n)
  obtain d where d: "ntp_turn E c = (accepted pk (delays es), d)" "after_turns pk (delays es) 1 c d"
    using ntp_turn_pair [OF assms(1) Suc(3,4)] .
  obtain fs where fs: "d = c\<lparr>packetBuffer := packet_after pk (delays es + 1), ntp_out := ntp_out c @ fs\<rparr>" "delays fs = 1"
    using d(2) by (auto simp: after_turns_def)
  have no: "\<not> accepted pk (delays es)" "delays es \<le> 100" using Suc(2,5,6) assms(3) by auto
  let ?es = "es @ fs"
  have e: "delays ?es = Suc (delays es)" using fs(2) by simp
  have "\<exists>c'. ntp_wait E (delays ?es) d = (Some (Suc k), c') \<and> after_turns pk (delays ?es) (Suc k - delays ?es) d c'"
    by (rule Suc.hyps(1)) (use Suc(2-6) fs e in \<open>auto\<close>)
  then obtain c' where c': "ntp_wait E (Suc (delays es)) d = (Some (Suc k), c')"
    "after_turns pk (Suc (delays es)) (Suc k - Suc (delays es)) d c'" unfolding e by blast
  have "Suc k - delays es = Suc (Suc k - Suc (delays es))" using Suc(2) by simp
  then have "after_turns pk (delays es) (Suc k - delays es) c c'" using after_turns_Suc [OF d(2) c'(2)] by simp
  moreover have "ntp_wait E (delays es) c = (Some (Suc k), c')"
    using d(1) no c'(1) by (subst ntp_wait.simps) simp
  ultimately show ?case by blast
qed

lemma ntp_wait_none:
  assumes "delivers E o1 pk" "\<forall>k \<le> 100. \<not> accepted pk k"
    "ntp_out c = o1 @ es" "packetBuffer c = packet_after pk (delays es)" "delays es \<le> 101"
  shows "\<exists>c'. ntp_wait E (delays es) c = (None, c') \<and> after_turns pk (delays es) (102 - delays es) c c'"
  using assms(3-)
proof (induction "101 - delays es" arbitrary: c es)
  case 0
  then have k: "delays es = 101" by simp
  obtain d where d: "ntp_turn E c = (accepted pk (delays es), d)" "after_turns pk (delays es) 1 c d"
    using ntp_turn_pair [OF assms(1) 0(2,3)] .
  then have "ntp_wait E (delays es) c = (None, d)" using k by (subst ntp_wait.simps) simp
  then show ?case using d(2) k by simp
next
  case (Suc n)
  obtain d where d: "ntp_turn E c = (accepted pk (delays es), d)" "after_turns pk (delays es) 1 c d"
    using ntp_turn_pair [OF assms(1) Suc(3,4)] .
  obtain fs where fs: "d = c\<lparr>packetBuffer := packet_after pk (delays es + 1), ntp_out := ntp_out c @ fs\<rparr>" "delays fs = 1"
    using d(2) by (auto simp: after_turns_def)
  have no: "\<not> accepted pk (delays es)" "delays es \<le> 100" using Suc(2) assms(2) by auto
  let ?es = "es @ fs"
  have e: "delays ?es = Suc (delays es)" using fs(2) by simp
  have "\<exists>c'. ntp_wait E (delays ?es) d = (None, c') \<and> after_turns pk (delays ?es) (102 - delays ?es) d c'"
    by (rule Suc.hyps(1)) (use Suc(2-5) fs e in \<open>auto\<close>)
  then obtain c' where c': "ntp_wait E (Suc (delays es)) d = (None, c')"
    "after_turns pk (Suc (delays es)) (102 - Suc (delays es)) d c'" unfolding e by blast
  have "102 - delays es = Suc (102 - Suc (delays es))" using no(2) by simp
  then have "after_turns pk (delays es) (102 - delays es) c c'" using after_turns_Suc [OF d(2) c'(2)] by simp
  moreover have "ntp_wait E (delays es) c = (None, c')"
    using d(1) no c'(1) by (subst ntp_wait.simps) simp
  ultimately show ?case by blast
qed

lemma secsSince1900_bytes:
  "secsSince1900 b = of_nat (unat (b ! 40) * 2 ^ 24 + unat (b ! 41) * 2 ^ 16 + unat (b ! 42) * 2 ^ 8 + unat (b ! 43))"
proof -
  have m: "makeWord h l < 2 ^ 16" for h l
    using u8_bound [of h] u8_bound [of l] by (simp add: makeWord_def)
  have low: "bit (of_nat n :: u32) i \<Longrightarrow> i < 16" if "n < 2 ^ 16" for n i
  proof -
    assume "bit (of_nat n :: u32) i"
    moreover have "take_bit 16 (of_nat n :: u32) = of_nat n"
      using that by (simp only: take_bit_of_nat take_bit_nat_eq_self)
    ultimately show "i < 16" by (metis bit_take_bit_iff)
  qed
  let ?h = "of_nat (makeWord (b ! 40) (b ! 41)) :: u32" and ?l = "of_nat (makeWord (b ! 42) (b ! 43)) :: u32"
  have "secsSince1900 b = push_bit 16 ?h + ?l"
    unfolding secsSince1900_def
    by (rule disjunctive_add_eq_or [symmetric], rule bit_eqI)
      (use low [OF m [of "b ! 42" "b ! 43"]] in \<open>fastforce simp: bit_and_iff bit_push_bit_iff\<close>)
  then show ?thesis by (simp add: push_bit_eq_mult makeWord_def algebra_simps)
qed

text \<open>
  C33: with no packet left over, \<open>forceUpdate\<close> sends one request and takes the first valid packet that one of
  the 101 turns after it finds, and returns in that turn; packets that are not valid are passed over. From then
  on the time is the transmit time of the packet, the user's offset and the milliseconds since, counted from
  10 milliseconds for every turn and 10 more before the clock is read, so from a turn before the request. When no
  such packet comes it returns false after 102 turns of 10 milliseconds, and the known time is not touched.
\<close>

theorem forceUpdate_result:
  assumes "udp_packet E (ntp_out c @ [UdpParse]) = []" "0 < ntp_patience E"
    "delivers E (ntp_out c @ [UdpParse, UdpSend ''pool.ntp.org'' 123 ntp_request]) pk"
  shows "let sent = ntp_out c @ [UdpParse, UdpSend ''pool.ntp.org'' 123 ntp_request]
    in if \<exists>k \<le> 100. accepted pk k
       then \<exists>k es c'. k \<le> 100 \<and> accepted pk k \<and> (\<forall>j < k. \<not> accepted pk j) \<and> delays es = k + 1 \<and>
         forceUpdate E c = Inr (True, c') \<and> ntp_out c' = sent @ es @ [NtpMillis] \<and>
         packetBuffer c' = packet_after pk (Suc k) \<and>
         (\<forall>now. epoch_at c' now = word_of_int (timeOffset c) + (secsSince1900 (packet_after pk (Suc k)) - 2208988800) +
            (now - (ntp_clock E (ntp_out c') - of_nat (10 * (k + 2)))) div 1000)
       else \<exists>es c'. delays es = 102 \<and> forceUpdate E c = Inr (False, c') \<and> ntp_out c' = sent @ es \<and>
         (\<forall>now. epoch_at c' now = epoch_at c now)"
proof -
  obtain n where n: "ntp_patience E = Suc n" using assms(2) by (cases "ntp_patience E") auto
  define c1 where "c1 = sendNTPPacket (nemit UdpParse c)"
  let ?sent = "ntp_out c @ [UdpParse, UdpSend ''pool.ntp.org'' 123 ntp_request]"
  have drain: "udp_drain E (ntp_patience E) c = Inr (nemit UdpParse c)"
    using assms(1) by (simp add: n nemit_def)
  have c1: "c1 = c\<lparr>packetBuffer := ntp_request, ntp_out := ?sent\<rparr>"
    by (simp add: c1_def sendNTPPacket_def nemit_def poolServerName_def)
  have start: "ntp_out c1 = ?sent @ []" "packetBuffer c1 = packet_after pk (delays [])" by (simp_all add: c1)
  show ?thesis
  proof (cases "\<exists>k \<le> 100. accepted pk k")
    case True
    define k where "k = (LEAST k. accepted pk k)"
    have k: "accepted pk k" "k \<le> 100" "\<forall>j < k. \<not> accepted pk j"
      using True unfolding k_def by (auto intro: LeastI Least_le [THEN le_trans] dest: not_less_Least)
    obtain d where d: "ntp_wait E 0 c1 = (Some (Suc k), d)" "after_turns pk 0 (Suc k) c1 d"
      using ntp_wait_first [OF assms(3) k(1,2) start] k(3) by auto
    then obtain es where es: "d = c1\<lparr>packetBuffer := packet_after pk (Suc k), ntp_out := ntp_out c1 @ es\<rparr>" "delays es = k + 1"
      by (auto simp: after_turns_def)
    define e where "e = d\<lparr>ntp_out := ntp_out d @ [NtpMillis],
      lastUpdate := ntp_clock E (ntp_out d @ [NtpMillis]) - of_nat (10 * (Suc k + 1)),
      currentEpoc := secsSince1900 (packetBuffer d) - SEVENZYYEARS\<rparr>"
    have "forceUpdate E c = Inr (True, e)"
      unfolding forceUpdate_def drain andThen_simps c1_def [symmetric] d(1) prod.case option.case
      by (simp add: ntp_millis_def nemit_def Let_def e_def)
    moreover have "ntp_out e = ?sent @ es @ [NtpMillis]" "packetBuffer e = packet_after pk (Suc k)"
      by (simp_all add: e_def es(1) c1)
    moreover have "\<forall>now. epoch_at e now = word_of_int (timeOffset c) + (secsSince1900 (packet_after pk (Suc k)) - 2208988800) +
        (now - (ntp_clock E (ntp_out e) - of_nat (10 * (k + 2)))) div 1000"
      by (simp add: epoch_at_def e_def es(1) c1 SEVENZYYEARS_def del: of_nat_mult of_nat_add)
    ultimately show ?thesis using True k es(2) unfolding Let_def if_P [OF True] by blast
  next
    case False
    then obtain d where d: "ntp_wait E 0 c1 = (None, d)" "after_turns pk 0 102 c1 d"
      using ntp_wait_none [OF assms(3) _ start] by auto
    then obtain es where es: "d = c1\<lparr>packetBuffer := packet_after pk 102, ntp_out := ntp_out c1 @ es\<rparr>" "delays es = 102"
      unfolding after_turns_def by (metis add_0)
    have "forceUpdate E c = Inr (False, d)"
      by (simp add: forceUpdate_def drain c1_def [symmetric] d(1))
    moreover have "ntp_out d = ?sent @ es" "\<forall>now. epoch_at d now = epoch_at c now"
      by (simp_all add: es(1) c1 epoch_at_def)
    ultimately show ?thesis using es(2) unfolding Let_def if_not_P [OF False] by blast
  qed
qed

text \<open>A network that answers in the third turn with a packet sent 100 seconds after the beginning of 1970.\<close>

definition third_packet :: "u8 list" where
  "third_packet = [0x24, 1] @ replicate 14 0 @ [1] @ replicate 23 0 @ [0x83, 0xAA, 0x7E, 0xE4] @ replicate 4 0"

definition answering :: udp_env where
  "answering = \<lparr>udp_packet = \<lambda>es. if delays es = 3 then third_packet else [], ntp_clock = \<lambda>_. 30, ntp_patience = 1\<rparr>"

theorem forceUpdate_result_witness:
  "\<exists>c es. forceUpdate answering ntp_new = Inr (True, c) \<and> ntp_out c = UdpParse # UdpSend ''pool.ntp.org'' 123 ntp_request # es \<and>
     delays es = 3 \<and> epoch_at c 30 = 100 \<and> epoch_at c 989 = 100 \<and> epoch_at c 990 = 101"
proof -
  let ?pk = "\<lambda>k :: nat. if k = 2 then third_packet else []"
  have len: "length third_packet = 48" by (simp add: third_packet_def)
  then have ne: "third_packet \<noteq> []" by auto
  have "packet_after ?pk 2 = ntp_request" by (simp add: numeral_2_eq_2)
  then have b: "packet_after ?pk (Suc 2) = third_packet"
    unfolding packet_after.simps using ne len by (simp add: ntp_request_def)
  have "isValid third_packet" by (simp add: isValid_def third_packet_def nth_append nth_Cons')
  then have acc: "accepted ?pk k \<longleftrightarrow> k = 2" for k using ne b unfolding accepted_def by (cases "k = 2") (simp_all only: if_True if_False simp_thms)
  have secs: "secsSince1900 third_packet = 2208988900"
    by (simp add: secsSince1900_bytes third_packet_def nth_append nth_Cons')
  have "delivers answering (ntp_out ntp_new @ [UdpParse, UdpSend ''pool.ntp.org'' 123 ntp_request]) ?pk"
    by (simp add: delivers_def answering_def ntp_new_def)
  moreover have "udp_packet answering (ntp_out ntp_new @ [UdpParse]) = []" "0 < ntp_patience answering"
    by (simp_all add: answering_def ntp_new_def)
  ultimately obtain es c' where c': "delays es = 3" "forceUpdate answering ntp_new = Inr (True, c')"
    "ntp_out c' = (ntp_out ntp_new @ [UdpParse, UdpSend ''pool.ntp.org'' 123 ntp_request]) @ es @ [NtpMillis]"
    "\<forall>now. epoch_at c' now = word_of_int (timeOffset ntp_new) + (secsSince1900 third_packet - 2208988800) +
       (now - (ntp_clock answering (ntp_out c') - of_nat (10 * (2 + 2)))) div 1000"
    using forceUpdate_result [of answering ntp_new ?pk] b unfolding acc Let_def
    by (auto simp del: packet_after.simps)
  have t: "epoch_at c' now = 100 + (now + 10) div 1000" for now
    using c'(4) by (simp add: secs ntp_new_def answering_def)
  have "epoch_at c' 30 = 100 \<and> epoch_at c' 989 = 100 \<and> epoch_at c' 990 = 101" unfolding t by simp
  then show ?thesis using c'(1-3) by (auto simp: ntp_new_def)
qed

subsection \<open>The text of a time stamp\<close>

text \<open>The log sets an offset of an hour, and its time is one hour ahead of the server's.\<close>

lemma stamp_ahead: "epoch_at (initNTPClient c) now = epoch_at (setTimeOffset 0 c) now + 3600"
  by (simp add: epoch_at_def initNTPClient_def setTimeOffset_def ntp_begin_def ntp_begin_port_def nemit_def)

lemma unat_days: "unat (s :: u32) div 86400 < 100000"
proof -
  have "unat s < 2 ^ LENGTH(32)" by (rule unsigned_less)
  then show ?thesis by (simp add: div_less_iff_less_mult)
qed

text \<open>
  C32: the text of a time stamp, read as a date and a time of day, says the seconds it was asked for. Asked
  for the present time, the clock is read twice: the date is that of the first reading and the time of day
  that of the second, so at midnight the stamp can be a day off.
\<close>

theorem formatted_date_reads:
  "iso_seconds (fst (getFormattedDate E secs c)) =
    (if secs \<noteq> 0 then int (unat secs)
     else 86400 * int (unat (epoch_at c (ntp_clock E (ntp_out c @ [NtpMillis]))) div 86400) +
          int (unat (epoch_at c (ntp_clock E (ntp_out c @ [NtpMillis, NtpMillis]))) mod 86400))"
proof (cases "secs = 0")
  case True
  let ?e1 = "epoch_at c (ntp_clock E (ntp_out c @ [NtpMillis]))"
  let ?e2 = "epoch_at c (ntp_clock E (ntp_out c @ [NtpMillis, NtpMillis]))"
  from True have "fst (getFormattedDate E secs c) =
      date_text (unat ?e1 div 86400) @ ''T'' @ time_text (unat ?e2) @ ''Z''"
    by (simp add: getFormattedDate_def getFormattedTime_def secs_or_now_def getEpochTime_def ntp_millis_def
        nemit_def epoch_at_def Let_def)
  with True show ?thesis by (simp only: iso_parts [OF unat_days] simp_thms if_False)
next
  case False
  then have "fst (getFormattedDate E secs c) =
      date_text (unat secs div 86400) @ ''T'' @ time_text (unat secs) @ ''Z''"
    by (simp add: getFormattedDate_def getFormattedTime_def secs_or_now_def)
  then have "iso_seconds (fst (getFormattedDate E secs c)) = int (86400 * (unat secs div 86400) + unat secs mod 86400)"
    by (simp only: iso_parts [OF unat_days])
  with False show ?thesis by (simp only: mult_div_mod_eq if_True simp_thms)
qed

end
