(* ===== verification/Json_Safety.thy ===== *)
theory Json_Safety
  imports Json_Parser
begin

section \<open>The parser ends, and what it leaves is well formed\<close>

text \<open>
  For every text and every capacity the deserializer ends, reports one of its errors, keeps strings and
  slots within the memory of the document, and leaves a value whose objects have distinct keys and whose
  depth is bounded. The contract of a parser of values is the locale \<open>variant_reader\<close>: what the loops of
  arrays and objects need of it is proved there, and \<open>parseVariant\<close> is shown to meet it level by level.
\<close>

subsection \<open>Well-formed values\<close>

fun valid_json :: "json \<Rightarrow> bool"
  and valid_elements :: "json list \<Rightarrow> bool"
  and valid_members :: "(string \<times> json) list \<Rightarrow> bool"
where
  "valid_json (JString s) = (NUL \<notin> set s)"
| "valid_json (JArray xs) = valid_elements xs"
| "valid_json (JObject ms) = (distinct (map fst ms) \<and> valid_members ms)"
| "valid_json _ = True"
| "valid_elements [] = True"
| "valid_elements (x # xs) = (valid_json x \<and> valid_elements xs)"
| "valid_members [] = True"
| "valid_members ((k, x) # ms) = (NUL \<notin> set k \<and> valid_json x \<and> valid_members ms)"

text \<open>The slots of the elements and members inside a value.\<close>

fun slots :: "json \<Rightarrow> nat"
  and elements_slots :: "json list \<Rightarrow> nat"
  and members_slots :: "(string \<times> json) list \<Rightarrow> nat"
where
  "slots (JArray xs) = elements_slots xs"
| "slots (JObject ms) = members_slots ms"
| "slots _ = 0"
| "elements_slots [] = 0"
| "elements_slots (x # xs) = 1 + slots x + elements_slots xs"
| "members_slots [] = 0"
| "members_slots ((k, x) # ms) = 1 + slots x + members_slots ms"

lemma elements_append [simp]:
  "valid_elements (xs @ ys) = (valid_elements xs \<and> valid_elements ys)"
  "elements_slots (xs @ ys) = elements_slots xs + elements_slots ys"
  "elements_nesting (xs @ ys) = max (elements_nesting xs) (elements_nesting ys)"
  by (induction xs) (auto simp: max.assoc)

lemma member_parts:
  "valid_members ms \<Longrightarrow> map_of ms k = Some v \<Longrightarrow> valid_json v \<and> nesting v \<le> members_nesting ms"
  by (induction ms) (auto split: if_splits)

lemma update_members:
  "valid_members ms \<Longrightarrow> NUL \<notin> set k \<Longrightarrow> valid_json v \<Longrightarrow> valid_members (AList.update k v ms)"
  "members_nesting (AList.update k v ms) \<le> max (nesting v) (members_nesting ms)"
  "members_slots (AList.update k v ms) + (case map_of ms k of Some w \<Rightarrow> slots w + 1 | None \<Rightarrow> 0) =
     members_slots ms + slots v + 1"
  by (induction ms) auto

subsection \<open>Scanning\<close>

text \<open>
  A function that only reads characters leaves the pool alone, never goes back in the text, and sets an
  error exactly when it fails.
\<close>

definition failed :: "jparser \<Rightarrow> bool" where
  "failed p \<longleftrightarrow> jerror p \<notin> {JOk, NotSupported}"

definition scans :: "jparser \<Rightarrow> bool \<Rightarrow> jparser \<Rightarrow> bool" where
  "scans p good q \<longleftrightarrow> pool q = pool p \<and> unread q \<le> unread p \<and> (if good then jerror q = jerror p else failed q)"

lemma scans_refl [intro]: "scans p True p"
  by (simp add: scans_def)

lemma scans_trans: "scans p True q \<Longrightarrow> scans q good r \<Longrightarrow> scans p good r"
  by (auto simp: scans_def split: if_splits)

lemma scans_load [intro]: "scans p True (load p)"
  using unread_load [of p] by (auto simp: scans_def) (auto simp: load_def split: list.split)

lemma scans_move [intro]: "scans p True (move p)"
  using unread_move_le [of p] by (simp add: scans_def) (simp add: move_def)

lemma scans_fail [intro]: "e \<noteq> JOk \<Longrightarrow> e \<noteq> NotSupported \<Longrightarrow> scans p False (fail e p)"
  by (simp add: scans_def failed_def) (simp add: fail_def)

lemma scans_append [intro]: "scans p True (append_char c p)" "scans p True (append_chars s p)"
proof -
  show a: "scans p True (append_char c p)" for c p
    by (simp add: scans_def) (simp add: append_char_def)
  show "scans p True (append_chars s p)"
    by (induction s arbitrary: p) (auto intro: scans_trans [OF a])
qed

lemmas scans_step = scans_trans [OF scans_load] scans_trans [OF scans_move]
  scans_trans [OF scans_append(1)] scans_trans [OF scans_append(2)]

lemma scans_skipSpaces: "skipSpacesAndComments p = (good, q) \<Longrightarrow> scans p good q"
proof (induction p rule: skipSpacesAndComments.induct)
  case (1 p)
  consider "held (load p) = NUL" | "held (load p) \<noteq> NUL" "white_space (held (load p))"
    | "held (load p) \<noteq> NUL" "\<not> white_space (held (load p))" by blast
  then show ?case
  proof cases
    case 1
    then have "\<not> good" "q = fail (if found (load p) then IncompleteInput else EmptyInput) (load p)"
      using "1.prems" by (simp_all add: skipSpacesAndComments.simps [of p] Let_def)
    then show ?thesis by (auto intro!: scans_step(1) [OF scans_fail])
  next
    case 2
    then have "skipSpacesAndComments (move (load p)) = (good, q)"
      using "1.prems" by (simp add: skipSpacesAndComments.simps [of p] Let_def)
    from "1.IH" [OF refl refl 2 this] show ?thesis by (rule scans_step(1) [OF scans_step(2)])
  next
    case 3
    then have "good" "q = (load p)\<lparr>found := True\<rparr>"
      using "1.prems" by (simp_all add: skipSpacesAndComments.simps [of p] Let_def)
    then show ?thesis using scans_load [of p] by (simp add: scans_def unread_def)
  qed
qed

lemma scans_eat: "eat c p = (good, q) \<Longrightarrow> scans p True q"
  by (auto simp: eat_def Let_def split: if_splits intro: scans_step(1) [OF scans_move])

lemma eat_less: "eat c p = (True, q) \<Longrightarrow> c \<noteq> NUL \<Longrightarrow> unread q < unread p"
  using unread_move [of p] by (auto simp: eat_def Let_def split: if_splits)

lemma scans_after_value:
  assumes "after_value c p = (again, good, q)"
  shows "scans p (again \<or> good) q \<and> (again \<longrightarrow> unread q < unread p)"
proof -
  obtain b q1 where 1: "skipSpacesAndComments p = (b, q1)" by fastforce
  obtain e q2 where 2: "eat c q1 = (e, q2)" by fastforce
  obtain m q3 where 3: "eat CHR '','' q2 = (m, q3)" by fastforce
  have s: "scans p b q1" "scans q1 True q2" "scans q2 True q3"
    using scans_skipSpaces [OF 1] scans_eat [OF 2] scans_eat [OF 3] by simp_all
  have "unread q3 < unread p" if "m" "b"
    using eat_less [of "CHR '',''" q2 q3] 3 s that by (auto simp: scans_def)
  then show ?thesis
    using assms 1 2 3 s scans_fail [of InvalidInput q3]
    by (auto simp: after_value_def split: if_splits intro: scans_trans)
qed

subsection \<open>Strings\<close>

text \<open>The string under construction stays within the free zone and has no NUL.\<close>

definition copying :: "nat \<Rightarrow> jparser \<Rightarrow> bool" where
  "copying k p \<longleftrightarrow> ccapacity p = k \<and> length (ctext p) \<le> k \<and> NUL \<notin> set (ctext p)"

lemma copying_start: "copying (free_size (pool p)) (startString p)"
  by (simp add: copying_def startString_def)

lemma copying_step [simp]:
  "copying k (load p) = copying k p" "copying k (move p) = copying k p" "copying k (fail e p) = copying k p"
  by (auto simp: copying_def load_def move_def fail_def split: list.split)

lemma copying_append: "copying k p \<Longrightarrow> c \<noteq> NUL \<Longrightarrow> copying k (append_char c p)"
  by (auto simp: copying_def append_char_def)

lemma copying_append_chars: "copying k p \<Longrightarrow> NUL \<notin> set s \<Longrightarrow> copying k (append_chars s p)"
  by (induction s arbitrary: p) (auto simp: copying_append)

lemma encodeCodepoint_NUL: "NUL \<notin> set (encodeCodepoint n)"
  unfolding encodeCodepoint_def by (auto dest: set_takeWhileD)

lemma scans_parseHex4: "parseHex4 i r p = (x, q) \<Longrightarrow> scans p (x \<noteq> None) q \<and> copying k q = copying k p"
proof (induction i r p rule: parseHex4.induct)
  case (1 r p)
  then show ?case by auto
next
  case (2 i r p)
  show ?case
  proof (cases "held (load p) = NUL \<or> decodeHex (held (load p)) > 0x0F")
    case True
    then have "x = None" "q = fail (if held (load p) = NUL then IncompleteInput else InvalidInput) (load p)"
      using "2.prems" by (auto simp: Let_def split: if_splits)
    then show ?thesis by (auto intro!: scans_step(1) [OF scans_fail])
  next
    case False
    then have "parseHex4 i (push_bit 4 r OR ucast (decodeHex (held (load p)))) (move (load p)) = (x, q)"
      using "2.prems" by (simp add: Let_def)
    from "2.IH" [OF refl refl _ refl _ this] False show ?thesis
      by (auto intro: scans_step(1) [OF scans_step(2)])
  qed
qed

text \<open>One turn of the loop, without the local variables.\<close>

lemma quotedLoop_turn:
  fixes p defines "q \<equiv> move (load p)" defines "r \<equiv> load q"
  shows "quotedLoop s h p = (if held (load p) = s then (True, q) else if held (load p) = NUL then (False, fail IncompleteInput q)
      else if held (load p) = backslash then
        (if held r = NUL then (False, fail IncompleteInput r)
         else if held r = CHR ''u'' then
           (case parseHex4 4 0 (move r) of (None, p) \<Rightarrow> (False, p)
            | (Some u, p) \<Rightarrow> (case codepoint_append h u of (high, None) \<Rightarrow> quotedLoop s high p
               | (high, Some n) \<Rightarrow> quotedLoop s high (append_chars (encodeCodepoint n) p)))
         else if unescapeChar (held r) = NUL then (False, fail InvalidInput r)
         else quotedLoop s h (append_char (unescapeChar (held r)) (move r)))
      else quotedLoop s h (append_char (held (load p)) q))"
  unfolding q_def r_def by (subst quotedLoop.simps) (simp add: Let_def)

lemma scans_quotedLoop:
  "quotedLoop s h p = (good, q) \<Longrightarrow> scans p good q \<and> (copying k p \<longrightarrow> copying k q)"
proof (induction s h p rule: quotedLoop.induct)
  case (1 s h p)
  let ?c = "held (load p)" and ?p = "move (load p)"
  let ?d = "held (load ?p)" and ?q = "load ?p"
  have p: "scans p True ?p" by (rule scans_step(1) [OF scans_move])
  have q: "scans p True ?q" by (rule scans_trans [OF p scans_load])
  note eq = quotedLoop_turn [of s h p]
  consider (stop) "?c = s" | (bad) "?c \<noteq> s" "?c = NUL" | (plain) "?c \<noteq> s" "?c \<noteq> NUL" "?c \<noteq> backslash"
    | (esc) "?c \<noteq> s" "?c \<noteq> NUL" "?c = backslash" "?d = NUL"
    | (uni) "?c \<noteq> s" "?c \<noteq> NUL" "?c = backslash" "?d \<noteq> NUL" "?d = CHR ''u''"
    | (inv) "?c \<noteq> s" "?c \<noteq> NUL" "?c = backslash" "?d \<noteq> NUL" "?d \<noteq> CHR ''u''" "unescapeChar ?d = NUL"
    | (ok) "?c \<noteq> s" "?c \<noteq> NUL" "?c = backslash" "?d \<noteq> NUL" "?d \<noteq> CHR ''u''" "unescapeChar ?d \<noteq> NUL"
    by blast
  then show ?case
  proof cases
    case stop
    then show ?thesis using 1(5) eq p by auto
  next
    case bad
    then show ?thesis using 1(5) eq by (auto intro: scans_trans [OF p scans_fail])
  next
    case plain
    then have r: "quotedLoop s h (append_char ?c ?p) = (good, q)" using 1(5) eq by simp
    show ?thesis
      using 1(4) [OF refl refl refl plain(1,2,3) r] plain(2)
      by (auto intro: scans_trans [OF p scans_step(3)] copying_append)
  next
    case esc
    then show ?thesis using 1(5) eq by (auto intro: scans_trans [OF q scans_fail])
  next
    case inv
    then show ?thesis using 1(5) eq by (auto intro: scans_trans [OF q scans_fail])
  next
    case ok
    then have r: "quotedLoop s h (append_char (unescapeChar ?d) (move ?q)) = (good, q)" using 1(5) eq by simp
    show ?thesis
      using 1(3) [OF refl refl refl ok(1,2,3) refl refl ok(4,5) refl ok(6) r] ok(6)
      by (auto intro: scans_trans [OF q scans_step(2) [OF scans_step(3)]] copying_append)
  next
    case uni
    obtain x t where h: "parseHex4 4 0 (move ?q) = (x, t)" by fastforce
    have t: "scans p (x \<noteq> None) t" "copying k t = copying k p"
      using scans_parseHex4 [OF h] scans_trans [OF q scans_step(2)] by auto
    show ?thesis
    proof (cases x)
      case None
      then show ?thesis using uni 1(5) eq h t by auto
    next
      case (Some u)
      obtain high y where c: "codepoint_append h u = (high, y)" by fastforce
      note t' = t(1) [unfolded Some, simplified]
      show ?thesis
      proof (cases y)
        case None
        then have r: "quotedLoop s high t = (good, q)" using uni 1(5) eq h c Some by simp
        show ?thesis
          using 1(1) [OF refl refl refl uni(1,2,3) refl refl uni(4,5) h [symmetric] Some c [symmetric] None r] t
          by (auto intro: scans_trans [OF t'])
      next
        case (Some n)
        then have r: "quotedLoop s high (append_chars (encodeCodepoint n) t) = (good, q)"
          using uni 1(5) eq h c \<open>x = Some u\<close> by simp
        show ?thesis
          using 1(2) [OF refl refl refl uni(1,2,3) refl refl uni(4,5) h [symmetric] \<open>x = Some u\<close> c [symmetric] Some r] t
          by (auto intro: scans_trans [OF t' scans_step(4)] copying_append_chars simp: encodeCodepoint_NUL)
      qed
    qed
  qed
qed

definition has_string :: "nat \<Rightarrow> jparser \<Rightarrow> bool" where
  "has_string k p \<longleftrightarrow> (\<exists>s. ctext p = s @ [NUL] \<and> NUL \<notin> set s \<and> length s < k)"

lemma has_string_c_str: "has_string k p \<Longrightarrow> NUL \<notin> set (c_str p) \<and> length (c_str p) < k"
proof -
  assume "has_string k p"
  then obtain s where s: "ctext p = s @ [NUL]" "NUL \<notin> set s" "length s < k" by (auto simp: has_string_def)
  have "c_str p = s" unfolding c_str_def s(1) using s(2) by (subst takeWhile_append2) auto
  then show ?thesis using s by simp
qed

lemma scans_finishString:
  "finishString p = (good, q) \<Longrightarrow> copying k p \<Longrightarrow> scans p good q \<and> (good \<longrightarrow> has_string k q)"
  using scans_append(1) [of p NUL]
  by (auto simp: finishString_def Let_def has_string_def copying_def append_char_def split: if_splits
      intro: scans_trans [OF _ scans_fail])

lemma scans_parseQuotedString:
  assumes "parseQuotedString p = (good, q)" "copying k p"
  shows "scans p good q \<and> (good \<longrightarrow> has_string k q)"
proof -
  obtain b t where t: "quotedLoop (held (load p)) 0 (move (load p)) = (b, t)" by fastforce
  have b: "scans p b t" "copying k t"
    using scans_quotedLoop [OF t] assms(2) by (auto intro: scans_step(1) [OF scans_step(2)])
  show ?thesis
    using assms(1) t b scans_finishString [of t good q k]
    by (auto simp: parseQuotedString_def Let_def split: if_splits intro: scans_trans)
qed

lemma canBe_not_NUL: "canBeInNonQuotedString c \<Longrightarrow> c \<noteq> NUL"
  by (auto simp: canBeInNonQuotedString_def isBetween_def)

lemma scans_nonQuotedLoop: "scans p True (nonQuotedLoop p) \<and> (copying k p \<longrightarrow> copying k (nonQuotedLoop p))"
proof (induction p rule: nonQuotedLoop.induct)
  case (1 p)
  show ?case
  proof (cases "canBeInNonQuotedString (held (load p))")
    case True
    let ?t = "append_char (held (load p)) (move (load p))"
    have "scans p True ?t" by (rule scans_step(1) [OF scans_step(2) [OF scans_append(1)]])
    then show ?thesis
      using 1 [OF refl refl True] True canBe_not_NUL [OF True]
      by (auto simp: nonQuotedLoop.simps [of p] Let_def copying_append intro: scans_trans)
  next
    case False
    then show ?thesis by (auto simp: nonQuotedLoop.simps [of p] Let_def)
  qed
qed

lemma scans_parseKey:
  assumes "parseKey p = (good, q)"
  shows "scans p good q \<and> (good \<longrightarrow> has_string (free_size (pool p)) q)"
proof -
  let ?p = "startString p" and ?k = "free_size (pool p)"
  have s: "scans p True ?p" by (simp add: scans_def startString_def unread_def)
  have c: "copying ?k ?p" by (rule copying_start)
  have "scans (load ?p) good q \<and> (good \<longrightarrow> has_string ?k q)"
  proof (cases "isQuote (held (load ?p))")
    case True
    then show ?thesis
      using assms scans_parseQuotedString [of "load ?p" good q ?k] c by (simp add: parseKey_def Let_def)
  next
    case False
    then have e: "parseNonQuotedString (load ?p) = (good, q)" using assms by (simp add: parseKey_def Let_def)
    let ?t = "nonQuotedLoop (load (load ?p))"
    have "copying ?k ?t" using scans_nonQuotedLoop [of "load (load ?p)" ?k] c by simp
    moreover have "scans (load ?p) True ?t" using scans_nonQuotedLoop by (auto intro: scans_step(1))
    ultimately show ?thesis
      using e scans_finishString [of ?t good q ?k]
      by (auto simp: parseNonQuotedString_def Let_def split: if_splits
          intro: scans_trans scans_step(1) [OF scans_fail])
  qed
  then show ?thesis using scans_trans [OF s scans_step(1)] by blast
qed

lemma ctext_step:
  "ctext (load p) = ctext p" "ctext (move p) = ctext p" "ctext (fail e p) = ctext p" "ctext (snd (eat c p)) = ctext p"
  by (auto simp: load_def move_def fail_def eat_def Let_def split: list.split)

lemma ctext_skipSpaces: "ctext (snd (skipSpacesAndComments p)) = ctext p"
  by (induction p rule: skipSpacesAndComments.induct)
    (subst skipSpacesAndComments.simps, auto simp: Let_def ctext_step)

lemma scans_parseMemberKey:
  assumes "parseMemberKey p = (good, q)"
  shows "scans p good q \<and> (good \<longrightarrow> has_string (free_size (pool p)) q \<and> unread q < unread p)"
proof -
  obtain b q1 where 1: "parseKey p = (b, q1)" by fastforce
  obtain e q2 where 2: "skipSpacesAndComments q1 = (e, q2)" by fastforce
  obtain m q3 where 3: "eat CHR '':'' q2 = (m, q3)" by fastforce
  have s: "scans p b q1" "scans q1 e q2" "scans q2 True q3"
    using scans_parseKey [OF 1] scans_skipSpaces [OF 2] scans_eat [OF 3] by simp_all
  have "ctext q2 = ctext q1" "ctext q3 = ctext q2"
    using ctext_skipSpaces [of q1] ctext_step(4) [of "CHR '':''" q2] 2 3 by simp_all
  then have "b \<Longrightarrow> has_string (free_size (pool p)) q3"
    using scans_parseKey [OF 1] by (simp add: has_string_def)
  moreover have "unread q3 < unread p" if "m" "b" "e"
    using eat_less [of "CHR '':''" q2 q3] 3 s that by (auto simp: scans_def)
  ultimately show ?thesis
    using assms 1 2 3 s scans_fail [of InvalidInput q3]
    by (auto simp: parseMemberKey_def split: if_splits intro: scans_trans)
qed

subsection \<open>Values\<close>

definition advance :: "nat \<Rightarrow> jparser \<Rightarrow> bool \<Rightarrow> jparser \<Rightarrow> bool" where
  "advance capa p good q \<longleftrightarrow> pool_ok capa (pool q) \<and> unread q \<le> unread p \<and> (if good then jerror q = JOk else failed q)"

definition ready :: "nat \<Rightarrow> jparser \<Rightarrow> bool" where
  "ready capa p \<longleftrightarrow> pool_ok capa (pool p) \<and> jerror p = JOk"

lemma advance_scans: "ready capa p \<Longrightarrow> scans p good q \<Longrightarrow> advance capa p good q"
  by (auto simp: ready_def advance_def scans_def)

lemma advance_ready: "advance capa p True q \<Longrightarrow> ready capa q"
  by (simp add: advance_def ready_def)

lemma advance_trans: "advance capa p True q \<Longrightarrow> advance capa q good r \<Longrightarrow> advance capa p good r"
  by (auto simp: advance_def split: if_splits)

lemma advance_then_scans: "advance capa p True q \<Longrightarrow> scans q good r \<Longrightarrow> advance capa p good r"
  using advance_trans advance_scans [OF advance_ready] by blast

text \<open>
  What a parser of values promises: from an old value it makes a valid one, not deeper than allowed, and
  the slots the new value has beyond the old one were taken from the pool.
\<close>

definition reads_well :: "nat \<Rightarrow> nat \<Rightarrow> json \<Rightarrow> jparser \<Rightarrow> (bool \<times> json \<times> jparser) option \<Rightarrow> bool" where
  "reads_well capa depth v p r \<longleftrightarrow> (\<exists>good w q. r = Some (good, w, q) \<and> advance capa p good q \<and>
     valid_json w \<and> nesting w \<le> depth \<and>
     pright (pool q) + slot_size * slots w \<le> pright (pool p) + slot_size * slots v)"

text \<open>The same for the loops over elements and members.\<close>

definition reads_elements ::
  "nat \<Rightarrow> nat \<Rightarrow> json list \<Rightarrow> jparser \<Rightarrow> (bool \<times> json list \<times> jparser) option \<Rightarrow> bool"
where
  "reads_elements capa depth xs p r \<longleftrightarrow> (\<exists>good ys q. r = Some (good, ys, q) \<and> advance capa p good q \<and>
     valid_elements ys \<and> elements_nesting ys \<le> depth \<and>
     pright (pool q) + slot_size * elements_slots ys \<le> pright (pool p) + slot_size * elements_slots xs)"

definition reads_members ::
  "nat \<Rightarrow> nat \<Rightarrow> (string \<times> json) list \<Rightarrow> jparser \<Rightarrow> (bool \<times> (string \<times> json) list \<times> jparser) option \<Rightarrow> bool"
where
  "reads_members capa depth ms p r \<longleftrightarrow> (\<exists>good ns q. r = Some (good, ns, q) \<and> advance capa p good q \<and>
     distinct (map fst ns) \<and> valid_members ns \<and> members_nesting ns \<le> depth \<and>
     pright (pool q) + slot_size * members_slots ns \<le> pright (pool p) + slot_size * members_slots ms)"

lemma reads_elementsI:
  "advance capa p good q \<Longrightarrow> valid_elements ys \<Longrightarrow> elements_nesting ys \<le> depth \<Longrightarrow>
   pright (pool q) + slot_size * elements_slots ys \<le> pright (pool p) + slot_size * elements_slots xs \<Longrightarrow>
   reads_elements capa depth xs p (Some (good, ys, q))"
  unfolding reads_elements_def by blast

lemma reads_membersI:
  "advance capa p good q \<Longrightarrow> distinct (map fst ns) \<Longrightarrow> valid_members ns \<Longrightarrow> members_nesting ns \<le> depth \<Longrightarrow>
   pright (pool q) + slot_size * members_slots ns \<le> pright (pool p) + slot_size * members_slots ms \<Longrightarrow>
   reads_members capa depth ms p (Some (good, ns, q))"
  unfolding reads_members_def by blast

text \<open>A loop that goes on from a later state has done well if it does well from there.\<close>

lemma reads_elements_step:
  "reads_elements capa depth ys q r \<Longrightarrow> advance capa p True q \<Longrightarrow>
   pright (pool q) + slot_size * elements_slots ys \<le> pright (pool p) + slot_size * elements_slots xs \<Longrightarrow>
   reads_elements capa depth xs p r"
  unfolding reads_elements_def by (fast intro: advance_trans order_trans)

lemma reads_members_step:
  "reads_members capa depth ns q r \<Longrightarrow> advance capa p True q \<Longrightarrow>
   pright (pool q) + slot_size * members_slots ns \<le> pright (pool p) + slot_size * members_slots ms \<Longrightarrow>
   reads_members capa depth ms p r"
  unfolding reads_members_def by (fast intro: advance_trans order_trans)

lemma scans_pright: "scans p good q \<Longrightarrow> pright (pool q) = pright (pool p)"
  by (simp add: scans_def)

lemma addSlot_cases:
  assumes "ready capa p" "addSlot p = (good, q)"
  shows "if good then ready capa q \<and> unread q = unread p \<and> pright (pool q) + slot_size = pright (pool p)
         else q = p"
  using assms
  by (auto simp: addSlot_def ready_def unread_def allocVariant_def canAlloc_def pool_ok_def
      split: option.splits if_splits)

lemma ready_save:
  assumes "ready capa p" "has_string k p" "k \<le> free_size (pool p)"
  shows "ready capa (save p)" "unread (save p) = unread p" "pright (pool (save p)) = pright (pool p)"
  using assms has_string_c_str [OF assms(2)] pool_ok_save [of capa "pool p" "c_str p"]
  by (auto simp: ready_def save_def unread_def saveStringFromFreeZone_def)

locale variant_reader =
  fixes capa :: nat and depth :: nat and f :: variant_parser
  assumes reads: "ready capa p \<Longrightarrow> valid_json v \<Longrightarrow> nesting v \<le> depth \<Longrightarrow> reads_well capa depth v p (f v p)"
begin

lemma arrayLoop_ends:
  assumes "ready capa p" "valid_elements xs" "elements_nesting xs \<le> depth"
  shows "reads_elements capa depth xs p (arrayLoop f xs p)"
  using assms
proof (induction "unread p" arbitrary: xs p rule: less_induct)
  case less
  obtain b p1 where 1: "addSlot p = (b, p1)" by fastforce
  note slot = addSlot_cases [OF less.prems(1) 1]
  show ?case
  proof (cases b)
    case False
    then have "arrayLoop f xs p = Some (False, xs, fail NoMemory p)"
      using 1 slot by (simp add: arrayLoop.simps [of f xs p])
    moreover have "advance capa p False (fail NoMemory p)" "pright (pool (fail NoMemory p)) = pright (pool p)"
      using advance_scans [OF less.prems(1) scans_fail] by (simp_all add: fail_def)
    ultimately show ?thesis using less.prems by (simp add: reads_elementsI)
  next
    case True
    then have p1: "ready capa p1" "unread p1 = unread p" "pright (pool p1) + slot_size = pright (pool p)"
      using slot by simp_all
    obtain g v p2 where 2: "f JNull p1 = Some (g, v, p2)" "advance capa p1 g p2" "valid_json v" "nesting v \<le> depth"
      "pright (pool p2) + slot_size * slots v \<le> pright (pool p1)"
      using reads [OF p1(1), of JNull] by (auto simp: reads_well_def)
    have a2: "advance capa p g p2" using 2(2) p1(2) by (simp add: advance_def)
    have v: "valid_elements (xs @ [v])" "elements_nesting (xs @ [v]) \<le> depth"
      "pright (pool p2) + slot_size * elements_slots (xs @ [v]) \<le> pright (pool p) + slot_size * elements_slots xs"
      using less.prems(2,3) 2(3-5) p1(3) by (simp_all add: algebra_simps)
    obtain again ok p3 where 3: "after_value CHR '']'' p2 = (again, ok, p3)" by (metis prod_cases3)
    note s3 = scans_after_value [OF 3]
    have eq: "arrayLoop f xs p = (if \<not> g then Some (False, xs @ [v], p2)
        else if again then arrayLoop f (xs @ [v]) p3 else Some (ok, xs @ [v], p3))"
      using 1 True 2(1) 3 by (simp add: arrayLoop.simps [of f xs p])
    have a3: "advance capa p (again \<or> ok) p3" "again \<Longrightarrow> unread p3 < unread p" if g
      using that a2 s3 advance_then_scans [of capa p p2 "again \<or> ok" p3] by (simp_all add: advance_def)
    have v3: "pright (pool p3) + slot_size * elements_slots (xs @ [v]) \<le> pright (pool p) + slot_size * elements_slots xs"
      using v(3) s3 scans_pright [of p2 _ p3] by auto
    consider "\<not> g" | "g" "\<not> again" | "g" "again" by blast
    then show ?thesis
    proof cases
      case 1
      then show ?thesis using eq reads_elementsI [OF a2 v] by simp
    next
      case 2
      then show ?thesis using eq reads_elementsI [OF a3(1) v(1,2) v3] by simp
    next
      case 3
      then have a: "advance capa p True p3" using a3(1) by simp
      show ?thesis
        using reads_elements_step [OF less.hyps [OF a3(2) advance_ready [OF a] v(1,2)] a v3] eq 3 by simp
    qed
  qed
qed

lemma member_step:
  assumes "ready capa p1" "has_string (free_size (pool p1)) p1" "valid_members ms" "members_nesting ms \<le> depth"
    "member_slot ms p1 = (b, old, p2)"
  shows "unread p2 = unread p1"
    "\<not> b \<Longrightarrow> advance capa p1 False p2 \<and> pright (pool p2) = pright (pool p1)"
    "b \<Longrightarrow> ready capa p2 \<and> valid_json old \<and> nesting old \<le> depth \<and>
       pright (pool p2) + slot_size * slots old + slot_size \<le> pright (pool p1) +
         slot_size * (case map_of ms (c_str p1) of Some w \<Rightarrow> slots w + 1 | None \<Rightarrow> 0)"
proof -
  obtain g t where t: "addSlot (save p1) = (g, t)" by fastforce
  note s = ready_save [OF assms(1,2) order_refl]
  note slot = addSlot_cases [OF s(1) t]
  have f: "advance capa p1 False (fail NoMemory (save p1))" "pright (pool (fail NoMemory (save p1))) = pright (pool p1)"
    using s by (auto simp: advance_def ready_def failed_def fail_def unread_def)
  show "unread p2 = unread p1"
    "\<not> b \<Longrightarrow> advance capa p1 False p2 \<and> pright (pool p2) = pright (pool p1)"
    "b \<Longrightarrow> ready capa p2 \<and> valid_json old \<and> nesting old \<le> depth \<and>
       pright (pool p2) + slot_size * slots old + slot_size \<le> pright (pool p1) +
         slot_size * (case map_of ms (c_str p1) of Some w \<Rightarrow> slots w + 1 | None \<Rightarrow> 0)"
    using assms(1,4,5) member_parts [OF assms(3), of "c_str p1"] t slot s f
    by (auto simp: member_slot_def split: option.splits if_splits)
qed

lemma objectLoop_ends:
  assumes "ready capa p" "distinct (map fst ms)" "valid_members ms" "members_nesting ms \<le> depth"
  shows "reads_members capa depth ms p (objectLoop f ms p)"
  using assms
proof (induction "unread p" arbitrary: ms p rule: less_induct)
  case less
  obtain k p1 where 1: "parseMemberKey p = (k, p1)" by fastforce
  note key = scans_parseMemberKey [OF 1]
  have a1: "advance capa p k p1" "pright (pool p1) = pright (pool p)"
    using advance_scans [OF less.prems(1)] key scans_pright [of p k p1] by simp_all
  define name where "name = c_str p1"
  obtain b old p2 where 2: "member_slot ms p1 = (b, old, p2)" by (metis prod_cases3)
  have name: "NUL \<notin> set name" "ready capa p1" "has_string (free_size (pool p1)) p1" "unread p1 < unread p" if k
    using that key a1 has_string_c_str advance_ready by (auto simp: name_def scans_def)
  note slot = member_step [OF name(2,3) less.prems(3,4) 2]
  consider "\<not> k" | "k" "\<not> b" | "k" "b" by blast
  then show ?case
  proof cases
    case 1
    then have "objectLoop f ms p = Some (False, ms, p1)"
      using \<open>parseMemberKey p = (k, p1)\<close> by (simp add: objectLoop.simps [of f ms p])
    then show ?thesis using reads_membersI [OF a1(1) less.prems(2-4)] a1(2) 1 by simp
  next
    case 2
    then have "objectLoop f ms p = Some (False, ms, p2)"
      using 1 \<open>member_slot ms p1 = (b, old, p2)\<close> by (simp add: objectLoop.simps [of f ms p] Let_def)
    moreover have "advance capa p False p2"
      using slot(2) [OF 2(1,1,2)] a1(1) 2(1) advance_trans [of capa p p1 False p2] by simp
    ultimately show ?thesis using reads_membersI [OF _ less.prems(2-4)] slot(2) 2 a1(2) by simp
  next
    case 3
    note old = slot(3) [OF 3(1,1,2)]
    obtain g v p3 where f: "f old p2 = Some (g, v, p3)" "advance capa p2 g p3" "valid_json v"
      "nesting v \<le> depth" "pright (pool p3) + slot_size * slots v \<le> pright (pool p2) + slot_size * slots old"
      using reads [of p2 old] old by (auto simp: reads_well_def)
    define ns where "ns = AList.update name v ms"
    have "slot_size * members_slots ns + slot_size * (case map_of ms name of Some w \<Rightarrow> slots w + 1 | None \<Rightarrow> 0) =
        slot_size * members_slots ms + slot_size * slots v + slot_size"
      using arg_cong [OF update_members(3) [of name v ms], of "\<lambda>n. slot_size * n"] by (simp add: ns_def algebra_simps)
    then have n: "distinct (map fst ns)" "valid_members ns" "members_nesting ns \<le> depth"
      "pright (pool p3) + slot_size * members_slots ns \<le> pright (pool p) + slot_size * members_slots ms"
      using less.prems update_members(1) [OF less.prems(3) name(1) [OF 3(1)] f(3)] update_members(2) [of name v ms]
        f(4,5) old a1(2) by (simp_all add: ns_def distinct_update name_def)
    have a3: "advance capa p g p3" using f(2) slot(1) name(4) 3 by (simp add: advance_def)
    obtain again ok p4 where 4: "after_value CHR ''}'' p3 = (again, ok, p4)" by (metis prod_cases3)
    obtain sp p5 where 5: "skipSpacesAndComments p4 = (sp, p5)" by fastforce
    note s4 = scans_after_value [OF 4] and s5 = scans_skipSpaces [OF 5]
    have eq: "objectLoop f ms p = (if \<not> g then Some (False, ns, p3) else if \<not> again then Some (ok, ns, p4)
        else if \<not> sp then Some (False, ns, p5) else objectLoop f ns p5)"
      using 1 2 3 f(1) 4 5 by (simp add: objectLoop.simps [of f ms p] Let_def name_def ns_def)
    have pr: "pright (pool p4) = pright (pool p3)" "pright (pool p5) = pright (pool p3)"
      using s4 s5 scans_pright by auto
    have a4: "advance capa p (again \<or> ok) p4" if g
      using that a3 s4 advance_then_scans [of capa p p3 "again \<or> ok" p4] by simp
    have a5: "advance capa p sp p5" if g again
      using that a4 s5 advance_then_scans [of capa p p4 sp p5] by simp
    consider "\<not> g" | "g" "\<not> again" | "g" "again" "\<not> sp" | "g" "again" "sp" by blast
    then show ?thesis
    proof cases
      case 1
      then show ?thesis using eq reads_membersI [OF a3 n] by simp
    next
      case 2
      then show ?thesis using eq reads_membersI [OF a4 n(1-3), of ms] n(4) pr by simp
    next
      case 3
      then show ?thesis using eq reads_membersI [OF a5 n(1-3), of ms] n(4) pr by simp
    next
      case 4
      then have a: "advance capa p True p5" "unread p5 < unread p"
        using a5 s4 s5 a3 by (auto simp: scans_def advance_def)
      show ?thesis
        using reads_members_step [OF less.hyps [OF a(2) advance_ready [OF a(1)] n(1-3)] a(1)] n(4) pr eq 4 by simp
    qed
  qed
qed

lemma parseArray_ends:
  assumes "ready capa p"
  shows "reads_well capa (Suc depth) v p (parseArray (Some f) p)"
proof -
  obtain b q where 1: "skipSpacesAndComments (move (load p)) = (b, q)" by fastforce
  obtain e r where 2: "eat CHR '']'' q = (e, r)" by fastforce
  have s: "scans p b q" "scans q True r"
    using scans_skipSpaces [OF 1] scans_eat [OF 2] by (auto intro: scans_step(1) [OF scans_step(2)])
  have a: "advance capa p b q" "b \<Longrightarrow> advance capa p True r"
    using advance_scans [OF assms s(1)] advance_then_scans [OF _ s(2), of capa p] by auto
  have pr: "pright (pool q) = pright (pool p)" "pright (pool r) = pright (pool p)"
    using s scans_pright by auto
  show ?thesis
  proof (cases "b \<and> \<not> e")
    case True
    then have r: "reads_elements capa depth [] r (arrayLoop f [] r)"
      by (intro arrayLoop_ends advance_ready [OF a(2)]) simp_all
    have "reads_elements capa depth [] p (arrayLoop f [] r)"
      by (rule reads_elements_step [OF r a(2)]) (use True pr in simp_all)
    then show ?thesis using 1 2 True by (auto simp: reads_elements_def reads_well_def parseArray_def)
  next
    case False
    then show ?thesis using 1 2 a pr by (auto simp: reads_well_def parseArray_def)
  qed
qed

lemma parseObject_ends:
  assumes "ready capa p"
  shows "reads_well capa (Suc depth) v p (parseObject (Some f) p)"
proof -
  obtain b q where 1: "skipSpacesAndComments (move (load p)) = (b, q)" by fastforce
  obtain e r where 2: "eat CHR ''}'' q = (e, r)" by fastforce
  have s: "scans p b q" "scans q True r"
    using scans_skipSpaces [OF 1] scans_eat [OF 2] by (auto intro: scans_step(1) [OF scans_step(2)])
  have a: "advance capa p b q" "b \<Longrightarrow> advance capa p True r"
    using advance_scans [OF assms s(1)] advance_then_scans [OF _ s(2), of capa p] by auto
  have pr: "pright (pool q) = pright (pool p)" "pright (pool r) = pright (pool p)"
    using s scans_pright by auto
  show ?thesis
  proof (cases "b \<and> \<not> e")
    case True
    then have r: "reads_members capa depth [] r (objectLoop f [] r)"
      by (intro objectLoop_ends advance_ready [OF a(2)]) simp_all
    have "reads_members capa depth [] p (objectLoop f [] r)"
      by (rule reads_members_step [OF r a(2)]) (use True pr in simp_all)
    then show ?thesis using 1 2 True by (auto simp: reads_members_def reads_well_def parseObject_def)
  next
    case False
    then show ?thesis using 1 2 a pr by (auto simp: reads_well_def parseObject_def)
  qed
qed

end

lemma scans_numberLoop: "numberLoop b p = (c, q) \<Longrightarrow> scans p True q"
proof (induction b p rule: numberLoop.induct)
  case (1 b p)
  show ?case
  proof (cases "canBeInNonQuotedString (held (load p)) \<and> length b < 63")
    case True
    then have "numberLoop (b @ [held (load p)]) (move (load p)) = (c, q)"
      using "1.prems" by (simp add: numberLoop.simps [of b p] Let_def)
    from "1.IH" [OF refl refl True this] show ?thesis by (rule scans_step(1) [OF scans_step(2)])
  next
    case False
    then show ?thesis using "1.prems" by (auto simp: numberLoop.simps [of b p] Let_def)
  qed
qed

lemma parse_float_flat:
  assumes "parse_float lib neg m s = Some w" shows "\<exists>x. w = JFloat x"
proof -
  obtain m1 e1 where 1: "shrink_mantissa m 0 = (m1, e1)" by fastforce
  obtain e2 s2 where 2: "skip_digits e1 s = (e2, s2)" by fastforce
  obtain m3 e3 s3 where 3: "(case s2 of c # cs \<Rightarrow> if c = CHR ''.'' then fraction_digits m1 e2 cs else (m1, e2, s2)
            | [] \<Rightarrow> (m1, e2, s2)) = (m3, e3, s3)" by (metis prod_cases3)
  show ?thesis
    using assms unfolding parse_float_def 1 2 3 prod.case
    by (cases s3) (auto simp: Let_def split: if_splits option.splits)
qed

lemma parseNumber_flat: "parseNumber lib s = Some w \<Longrightarrow> valid_json w \<and> nesting w = 0 \<and> slots w = 0"
  using parse_float_flat by (fastforce simp: parseNumber_def Let_def split: list.splits if_splits prod.splits)

lemma reads_wellI:
  "advance capa p good q \<Longrightarrow> valid_json w \<Longrightarrow> nesting w \<le> depth \<Longrightarrow>
   pright (pool q) + slot_size * slots w \<le> pright (pool p) + slot_size * slots v \<Longrightarrow>
   reads_well capa depth v p (Some (good, w, q))"
  unfolding reads_well_def by blast

lemma parseNumericValue_ends:
  assumes "ready capa p" "valid_json v" "nesting v \<le> depth"
  shows "reads_well capa depth v p (Some (parseNumericValue lib v p))"
proof -
  obtain b q where b: "numberLoop '''' p = (b, q)" by fastforce
  have a: "advance capa p True q" "pright (pool q) = pright (pool p)"
    using advance_scans [OF assms(1) scans_numberLoop [OF b]] scans_pright [OF scans_numberLoop [OF b]] .
  then have f: "advance capa p False (fail e q)" "pright (pool (fail e q)) = pright (pool p)"
    if "e \<noteq> JOk" "e \<noteq> NotSupported" for e
    using that by (simp_all add: advance_def failed_def unread_def fail_def)
  show ?thesis
    using b a f parseNumber_flat assms(2,3)
    by (auto simp: parseNumericValue_def Let_def split: option.splits intro!: reads_wellI)
qed

lemma parseStringValue_ends:
  assumes "ready capa p" "valid_json v" "nesting v \<le> depth"
  shows "reads_well capa depth v p (Some (parseStringValue v p))"
proof -
  obtain b q where b: "parseQuotedString (startString p) = (b, q)" by fastforce
  have s: "scans p True (startString p)" by (simp add: scans_def startString_def unread_def)
  have q: "scans p b q" "b \<Longrightarrow> has_string (free_size (pool p)) q"
    using scans_parseQuotedString [OF b copying_start] scans_trans [OF s] by auto
  have a: "advance capa p b q" "pright (pool q) = pright (pool p)"
    using advance_scans [OF assms(1) q(1)] scans_pright [OF q(1)] .
  show ?thesis
  proof (cases b)
    case True
    have "free_size (pool p) = free_size (pool q)" using q(1) by (simp add: scans_def)
    moreover have "ready capa q" using a(1) True advance_ready by simp
    ultimately have sv: "ready capa (save q)" "unread (save q) = unread q" "pright (pool (save q)) = pright (pool q)"
      using ready_save [of capa q "free_size (pool p)"] q(2) True by simp_all
    then have "advance capa p True (save q)" using a(1) True by (simp add: advance_def ready_def)
    moreover have "parseStringValue v p = (True, JString (c_str q), save q)"
      using b True by (simp add: parseStringValue_def)
    ultimately show ?thesis
      using has_string_c_str [OF q(2) [OF True]] sv(3) a(2) by (simp add: reads_wellI)
  next
    case False
    then show ?thesis using b a assms by (simp add: parseStringValue_def reads_wellI)
  qed
qed

text \<open>One level: with values inside that are read well, or with none allowed.\<close>

lemma parse_value_ends:
  assumes "case sub of None \<Rightarrow> depth = 1 | Some f \<Rightarrow> \<exists>d. depth = Suc d \<and> variant_reader capa d f"
    "ready capa p" "valid_json v" "nesting v \<le> depth"
  shows "reads_well capa depth v p (parse_value lib sub v p)"
proof -
  obtain b q where 1: "skipSpacesAndComments p = (b, q)" by fastforce
  note s = scans_skipSpaces [OF 1]
  have a: "advance capa p b q" "pright (pool q) = pright (pool p)"
    using advance_scans [OF assms(2) s] scans_pright [OF s] .
  show ?thesis
  proof (cases b)
    case False
    then show ?thesis using 1 a assms by (simp add: parse_value_def reads_wellI)
  next
    case True
    let ?q = "load q"
    have a': "advance capa p True ?q" "pright (pool ?q) = pright (pool p)" "ready capa ?q"
      using advance_then_scans [OF _ scans_load, of capa p q] a True scans_pright [OF scans_load, of q]
        advance_ready [of capa p ?q] by simp_all
    have deep: "advance capa p False (fail TooDeep ?q)" "pright (pool (fail TooDeep ?q)) = pright (pool p)"
      using a' by (simp_all add: advance_def failed_def unread_def fail_def)
    have "reads_well capa depth v ?q (parse_value lib sub v p) \<or>
      parse_value lib sub v p \<in> {Some (False, JArray [], fail TooDeep ?q), Some (False, JObject [], fail TooDeep ?q)} \<and>
      1 \<le> depth"
    proof (cases sub)
      case None
      then show ?thesis
        using 1 True assms parseStringValue_ends [OF a'(3) assms(3,4)] parseNumericValue_ends [OF a'(3) assms(3,4), of lib]
        by (simp add: parse_value_def parseArray_def parseObject_def Let_def)
    next
      case (Some f)
      then obtain d where d: "depth = Suc d" "variant_reader capa d f" using assms(1) by auto
      then show ?thesis
        using 1 True Some variant_reader.parseArray_ends [OF d(2) a'(3)] variant_reader.parseObject_ends [OF d(2) a'(3)]
          parseStringValue_ends [OF a'(3) assms(3,4)] parseNumericValue_ends [OF a'(3) assms(3,4), of lib]
        by (simp add: parse_value_def Let_def)
    qed
    then show ?thesis
    proof
      assume "reads_well capa depth v ?q (parse_value lib sub v p)"
      then show ?thesis using advance_trans [OF a'(1)] a'(2) by (fastforce simp: reads_well_def)
    qed (use deep in \<open>auto intro!: reads_wellI\<close>)
  qed
qed

lemma parseVariant_reader: "variant_reader capa (Suc n) (parseVariant lib n)"
proof (induction n)
  case 0
  show ?case by unfold_locales (simp add: parse_value_ends)
next
  case (Suc n)
  show ?case by unfold_locales (use Suc in \<open>auto intro!: parse_value_ends\<close>)
qed

interpretation variants: variant_reader capa "Suc n" "parseVariant lib n" for capa n lib
  by (rule parseVariant_reader)

subsection \<open>Documents\<close>

lemma ready_start: "ready capa (start_parser capa s)"
  by (simp add: ready_def start_parser_def)

lemma start_pright: "pright (pool (start_parser capa s)) = capa"
  by (simp add: start_parser_def memory_pool_def)

lemma deserialize_ends:
  "\<exists>e v. deserializeJson lib capa s = Some (e, v) \<and> e \<noteq> NotSupported \<and> valid_json v \<and> nesting v \<le> DEFAULT_NESTING_LIMIT + 1 \<and>
     slot_size * slots v \<le> capa"
proof -
  obtain good v q where q: "parseVariant lib DEFAULT_NESTING_LIMIT JNull (start_parser capa s) = Some (good, v, q)"
    "advance capa (start_parser capa s) good q" "valid_json v" "nesting v \<le> DEFAULT_NESTING_LIMIT + 1"
    "pright (pool q) + slot_size * slots v \<le> capa"
    using variants.reads [where v = JNull and n = DEFAULT_NESTING_LIMIT and lib = lib, OF ready_start [of capa s]]
    by (auto simp: reads_well_def start_pright)
  have "jerror q \<noteq> NotSupported" using q(2) by (auto simp: advance_def failed_def split: if_splits)
  then show ?thesis using q by (simp add: deserializeJson_def)
qed

text \<open>
  C11: The parser returns for every text and every capacity: with one of its errors, and with a
  well-formed document whatever the error is. Its strings and keys have no NUL, no object has a key
  twice, it is at most 51 levels deep (one more than the nesting limit of the build), and the slots of its
  elements and members, 24 bytes each, fit the memory of the document.
\<close>

theorem document_well_formed:
  "\<exists>e v. deserializeJson lib capa s = Some (e, v) \<and>
     e \<in> {JOk, EmptyInput, IncompleteInput, InvalidInput, NoMemory, TooDeep} \<and>
     valid_json v \<and> nesting v \<le> DEFAULT_NESTING_LIMIT + 1 \<and> slot_size * slots v \<le> capa"
proof -
  obtain e v where v: "deserializeJson lib capa s = Some (e, v)" "e \<noteq> NotSupported" "valid_json v"
    "nesting v \<le> DEFAULT_NESTING_LIMIT + 1" "slot_size * slots v \<le> capa"
    using deserialize_ends by blast
  moreover have "e \<in> {JOk, EmptyInput, IncompleteInput, InvalidInput, NoMemory, TooDeep}"
    using v(2) by (cases e) simp_all
  ultimately show ?thesis by simp
qed

end
