(* ===== verification/Json_Grammar.thy ===== *)
theory Json_Grammar
  imports Json_Safety
begin

section \<open>The grammar of JSON, and that the parser reads it\<close>

text \<open>
  The texts of JSON values as a grammar (RFC 8259): white space around the values, the escape sequences
  of strings with surrogate pairs, numbers as \<open>parseNumber\<close> understands them. \<open>value_text\<close> relates a text
  and its value. The lemmas then follow the parser through a text of the grammar; \<open>todo\<close> is the part of
  the input that it has not consumed yet.
\<close>

subsection \<open>Texts and what they denote\<close>

definition white :: "string \<Rightarrow> bool" where
  "white w \<longleftrightarrow> list_all white_space w"

text \<open>Four hexadecimal digits and their code unit.\<close>

definition hex4 :: "string \<Rightarrow> u16 \<Rightarrow> bool" where
  "hex4 ds u \<longleftrightarrow> length ds = 4 \<and> set ds \<subseteq> set ''0123456789abcdefABCDEF'' \<and> u = of_nat (strtol_digits 16 0 ds)"

text \<open>The text between the quotes, and the bytes of the string.\<close>

inductive string_body :: "string \<Rightarrow> string \<Rightarrow> bool" where
  body_end: "string_body [] []"
| body_char: "c \<noteq> quote_char \<Longrightarrow> c \<noteq> backslash \<Longrightarrow> c \<noteq> NUL \<Longrightarrow> string_body t s \<Longrightarrow> string_body (c # t) (c # s)"
| body_escape: "unescapeChar e = c \<Longrightarrow> c \<noteq> NUL \<Longrightarrow> string_body t s \<Longrightarrow> string_body (backslash # e # t) (c # s)"
| body_unicode: "hex4 ds u \<Longrightarrow> \<not> isHighSurrogate u \<Longrightarrow> \<not> isLowSurrogate u \<Longrightarrow> u \<noteq> 0 \<Longrightarrow> string_body t s \<Longrightarrow>
    string_body (backslash # CHR ''u'' # ds @ t) (utf8 (unat u) @ s)"
| body_pair: "hex4 ds u \<Longrightarrow> isHighSurrogate u \<Longrightarrow> hex4 es v \<Longrightarrow> isLowSurrogate v \<Longrightarrow> string_body t s \<Longrightarrow>
    string_body (backslash # CHR ''u'' # ds @ backslash # CHR ''u'' # es @ t)
      (utf8 (0x10000 + (unat u - 0xD800) * 0x400 + (unat v - 0xDC00)) @ s)"

definition number_text :: "json_lib \<Rightarrow> string \<Rightarrow> json \<Rightarrow> bool" where
  "number_text lib t j \<longleftrightarrow> t \<noteq> '''' \<and> (hd t = CHR ''-'' \<or> isdigit (hd t)) \<and> list_all canBeInNonQuotedString t \<and>
     length t \<le> 63 \<and> parseNumber lib t = Some j"

inductive value_text :: "json_lib \<Rightarrow> string \<Rightarrow> json \<Rightarrow> bool"
  and elements_of :: "json_lib \<Rightarrow> string \<Rightarrow> json list \<Rightarrow> bool"
  and members_of :: "json_lib \<Rightarrow> string \<Rightarrow> (string \<times> json) list \<Rightarrow> bool"
  for lib :: json_lib
where
  text_null: "value_text lib ''null'' JNull"
| text_true: "value_text lib ''true'' (JBool True)"
| text_false: "value_text lib ''false'' (JBool False)"
| text_number: "number_text lib t j \<Longrightarrow> value_text lib t j"
| text_string: "string_body t s \<Longrightarrow> value_text lib (quote_char # t @ [quote_char]) (JString s)"
| text_array_empty: "white w \<Longrightarrow> value_text lib (''['' @ w @ '']'') (JArray [])"
| text_array: "elements_of lib t xs \<Longrightarrow> value_text lib (''['' @ t @ '']'') (JArray xs)"
| text_object_empty: "white w \<Longrightarrow> value_text lib (''{'' @ w @ ''}'') (JObject [])"
| text_object: "members_of lib t ms \<Longrightarrow> value_text lib (''{'' @ t @ ''}'') (JObject ms)"
| last_element: "white w \<Longrightarrow> value_text lib t x \<Longrightarrow> white w' \<Longrightarrow> elements_of lib (w @ t @ w') [x]"
| more_elements: "white w \<Longrightarrow> value_text lib t x \<Longrightarrow> white w' \<Longrightarrow> elements_of lib t' xs \<Longrightarrow>
    elements_of lib (w @ t @ w' @ '','' @ t') (x # xs)"
| last_member: "white w \<Longrightarrow> string_body kt k \<Longrightarrow> white w1 \<Longrightarrow> white w2 \<Longrightarrow> value_text lib t x \<Longrightarrow> white w' \<Longrightarrow>
    members_of lib (w @ quote_char # kt @ quote_char # w1 @ '':'' @ w2 @ t @ w') [(k, x)]"
| more_members: "white w \<Longrightarrow> string_body kt k \<Longrightarrow> white w1 \<Longrightarrow> white w2 \<Longrightarrow> value_text lib t x \<Longrightarrow> white w' \<Longrightarrow>
    members_of lib t' ms \<Longrightarrow>
    members_of lib (w @ quote_char # kt @ quote_char # w1 @ '':'' @ w2 @ t @ w' @ '','' @ t') ((k, x) # ms)"

subsection \<open>Following the parser\<close>

definition todo :: "jparser \<Rightarrow> string" where
  "todo p = (if loaded p then (if held p = NUL then [] else held p # rest p) else rest p)"

lemma load_todo: "todo p = c # cs \<Longrightarrow> load p = p\<lparr>rest := cs, held := c, loaded := True\<rparr>"
  by (cases "loaded p") (auto simp: todo_def load_def split: if_splits)

lemma load_end: "todo p = [] \<Longrightarrow> held (load p) = NUL"
  by (auto simp: todo_def load_def split: if_splits list.splits)

lemma eat_todo:
  "todo p = c # cs \<Longrightarrow> eat c p = (True, p\<lparr>rest := cs, held := c, loaded := False\<rparr>)"
  "todo p = d # cs \<Longrightarrow> d \<noteq> c \<Longrightarrow> eat c p = (False, p\<lparr>rest := cs, held := d, loaded := True\<rparr>)"
  by (simp_all add: eat_def load_todo move_def)

text \<open>The parser stands before a text, up to white space.\<close>

definition near :: "jparser \<Rightarrow> string \<Rightarrow> bool" where
  "near p s \<longleftrightarrow> dropWhile white_space (todo p) = dropWhile white_space s"

lemma near_refl [simp]: "near p (todo p)"
  by (simp add: near_def)

lemma near_white: "white w \<Longrightarrow> near p (w @ s) = near p s"
  by (simp add: near_def white_def list_all_iff dropWhile_append2)

lemma near_todo: "todo p = w @ s \<Longrightarrow> white w \<Longrightarrow> near p s"
  using near_white [of w p s] by (metis near_refl)

lemma skip_todo:
  "dropWhile white_space (todo p) = c # cs \<Longrightarrow> c \<noteq> NUL \<Longrightarrow>
   skipSpacesAndComments p = (True, p\<lparr>rest := cs, held := c, loaded := True, found := True\<rparr>)"
proof (induction "todo p" arbitrary: p)
  case (Cons d ds)
  have l: "load p = p\<lparr>rest := ds, held := d, loaded := True\<rparr>" by (rule load_todo) (rule Cons(2) [symmetric])
  show ?case
  proof (cases "white_space d")
    case True
    let ?q = "p\<lparr>rest := ds, held := d, loaded := False\<rparr>"
    have "skipSpacesAndComments ?q = (True, ?q\<lparr>rest := cs, held := c, loaded := True, found := True\<rparr>)"
      by (rule Cons(1)) (use Cons(3,4) True in \<open>simp_all add: Cons(2) [symmetric] todo_def [of ?q]\<close>)
    moreover have "d \<noteq> NUL" using True by (auto simp: white_space_def)
    ultimately show ?thesis using True l by (subst skipSpacesAndComments.simps) (simp add: move_def)
  next
    case False
    then have "d = c" "ds = cs" using Cons(2,3) by (metis dropWhile.simps(2) list.inject)+
    then show ?thesis using False l Cons(4) by (subst skipSpacesAndComments.simps) simp
  qed
qed simp

lemma skip_near:
  "near p (c # cs) \<Longrightarrow> c \<noteq> NUL \<Longrightarrow> \<not> white_space c \<Longrightarrow>
   skipSpacesAndComments p = (True, p\<lparr>rest := cs, held := c, loaded := True, found := True\<rparr>)"
  by (rule skip_todo) (simp_all add: near_def)

subsection \<open>Strings\<close>

lemma append_chars_room:
  "cvalid p \<Longrightarrow> length (ctext p) + length s \<le> ccapacity p \<Longrightarrow> append_chars s p = p\<lparr>ctext := ctext p @ s\<rparr>"
  by (induction s arbitrary: p) (simp_all add: append_char_def)

lemma append_char_room:
  "cvalid p \<Longrightarrow> length (ctext p) < ccapacity p \<Longrightarrow> append_char c p = p\<lparr>ctext := ctext p @ [c]\<rparr>"
  by (simp add: append_char_def)

lemma decodeHex_value:
  "d \<in> set ''0123456789abcdefABCDEF'' \<Longrightarrow>
   \<exists>v < 16. digit_val d = Some v \<and> decodeHex d = of_nat v \<and> d \<noteq> NUL"
  by (auto simp: digit_val_def decodeHex_def)

lemma parseHex4_digits:
  assumes "todo p = ds @ r" "set ds \<subseteq> set ''0123456789abcdefABCDEF''" "(m + 1) * 16 ^ length ds \<le> 65536" "ds \<noteq> []"
  shows "parseHex4 (length ds) (of_nat m) p =
    (Some (of_nat (strtol_digits 16 m ds)), p\<lparr>rest := r, held := last ds, loaded := False\<rparr>)"
  using assms
proof (induction ds arbitrary: m p)
  case (Cons d ds)
  obtain v where v: "v < 16" "digit_val d = Some v" "decodeHex d = of_nat v" "d \<noteq> NUL"
    using decodeHex_value [of d] Cons.prems(2) by auto
  have m: "(m * 16 + v + 1) * 16 ^ length ds \<le> 65536"
  proof -
    have "(m * 16 + v + 1) * 16 ^ length ds \<le> ((m + 1) * 16) * 16 ^ length ds"
      using v(1) by (intro mult_le_mono1) simp
    also have "\<dots> = (m + 1) * 16 ^ length (d # ds)" by (simp add: algebra_simps)
    finally show ?thesis using Cons.prems(3) by linarith
  qed
  have "(1 :: nat) \<le> 16 ^ length ds" by simp
  from order_trans [OF mult_le_mono2 [OF this, of "m * 16 + v + 1"] m] have small: "m * 16 + v < 65536"
    by simp
  have w: "push_bit 4 (of_nat m) OR ucast (of_nat v :: u8) = (of_nat (m * 16 + v) :: u16)"
  proof -
    have u: "(ucast (of_nat v :: u8) :: u16) = of_nat v"
      using v(1) by (simp add: word_eq_iff_unsigned unsigned_ucast_eq unsigned_of_nat take_bit_nat_eq_self)
    have "take_bit 4 v = v" using v(1) by (simp add: take_bit_nat_eq_self)
    then have "take_bit 4 (of_nat v :: u16) = of_nat v" by (metis of_nat_take_bit)
    moreover have "take_bit 4 (push_bit 4 (of_nat m :: u16)) = 0" by (simp add: take_bit_push_bit)
    ultimately have "of_nat v OR push_bit 4 (of_nat m :: u16) = of_nat v + push_bit 4 (of_nat m)" by (rule or_as_plus)
    then show ?thesis using u by (simp add: or.commute push_bit_eq_mult algebra_simps)
  qed
  have l: "load p = p\<lparr>rest := ds @ r, held := d, loaded := True\<rparr>" using Cons.prems(1) by (intro load_todo) simp
  let ?q = "p\<lparr>rest := ds @ r, held := d, loaded := False\<rparr>"
  have "\<not> (0x0F :: u8) < of_nat v"
    using v(1) by (simp add: word_less_nat_alt unsigned_of_nat take_bit_nat_eq_self)
  then have step: "parseHex4 (length (d # ds)) (of_nat m) p = parseHex4 (length ds) (of_nat (m * 16 + v)) ?q"
    using v l w by (simp add: move_def)
  show ?case
  proof (cases "ds = []")
    case True
    then show ?thesis using step v(1,2) by simp
  next
    case False
    have "parseHex4 (length ds) (of_nat (m * 16 + v)) ?q =
        (Some (of_nat (strtol_digits 16 (m * 16 + v) ds)), ?q\<lparr>rest := r, held := last ds, loaded := False\<rparr>)"
      by (rule Cons.IH) (use Cons.prems m False in \<open>simp_all add: todo_def [of ?q]\<close>)
    then show ?thesis using step v(1,2) False by simp
  qed
qed simp

lemma parseHex4_hex4:
  assumes "hex4 ds u" "todo p = ds @ r"
  shows "parseHex4 4 0 p = (Some u, p\<lparr>rest := r, held := last ds, loaded := False\<rparr>)"
proof -
  have "ds \<noteq> []" "length ds = 4" using assms(1) by (auto simp: hex4_def)
  then show ?thesis using parseHex4_digits [of p ds r 0] assms by (simp add: hex4_def)
qed

lemma mod_block: "c * 1024 \<le> n \<Longrightarrow> n < c * 1024 + 1024 \<Longrightarrow> n mod 1024 = n - c * 1024" for n c :: nat
proof -
  assume n: "c * 1024 \<le> n" "n < c * 1024 + 1024"
  then have "n mod 1024 = (n - c * 1024 + c * 1024) mod 1024" by simp
  also have "\<dots> = n - c * 1024" using n unfolding mod_mult_self1 by simp
  finally show ?thesis .
qed

lemma surrogate_bits:
  "isHighSurrogate u \<Longrightarrow> unat (u AND 0x3FF) = unat u - 0xD800"
  "isLowSurrogate u \<Longrightarrow> unat (u AND 0x3FF) = unat u - 0xDC00"
proof -
  have m: "unat (u AND 0x3FF) = unat u mod 1024"
  proof -
    have "(0x3FF :: u16) = mask 10" by (simp add: mask_eq_exp_minus_1)
    then have "u AND 0x3FF = take_bit 10 u" by (simp only: take_bit_eq_mask)
    then have "unat (u AND 0x3FF) = take_bit 10 (unat u)" by (simp only: unsigned_take_bit_eq)
    also have "\<dots> = unat u mod 1024" by (simp add: take_bit_eq_mod)
    finally show ?thesis .
  qed
  show "unat (u AND 0x3FF) = unat u - 0xD800" if "isHighSurrogate u"
    using that mod_block [of 54 "unat u"] unfolding m
    by (simp add: isHighSurrogate_def word_le_nat_alt word_less_nat_alt)
  show "unat (u AND 0x3FF) = unat u - 0xDC00" if "isLowSurrogate u"
    using that mod_block [of 55 "unat u"] unfolding m
    by (simp add: isLowSurrogate_def word_le_nat_alt word_less_nat_alt)
qed

lemma codepoint_pair:
  assumes "isHighSurrogate u" "isLowSurrogate v"
  shows "codepoint_append (u AND 0x3FF) v =
    (u AND 0x3FF, Some (of_nat (0x10000 + (unat u - 0xD800) * 0x400 + (unat v - 0xDC00))))"
proof -
  define a b where ab: "a = unat u - 0xD800" "b = unat v - 0xDC00"
  have a: "a < 1024" "unat (u AND 0x3FF) = a" and b: "b < 1024" "unat (v AND 0x3FF) = b"
    using assms surrogate_bits
    by (simp_all add: ab isHighSurrogate_def isLowSurrogate_def word_le_nat_alt word_less_nat_alt) linarith+
  have c: "(ucast (u AND 0x3FF) :: u32) = of_nat a" "(ucast v AND 0x3FF :: u32) = of_nat b"
  proof -
    show "(ucast (u AND 0x3FF) :: u32) = of_nat a"
      unfolding a(2) [symmetric] by simp
    have "(ucast v AND 0x3FF :: u32) = ucast (v AND 0x3FF)" by (simp add: unsigned_and_eq)
    also have "\<dots> = of_nat b"
      unfolding b(2) [symmetric] by simp
    finally show "(ucast v AND 0x3FF :: u32) = of_nat b" .
  qed
  have "take_bit 10 b = b" using b(1) by (simp add: take_bit_nat_eq_self)
  then have "take_bit 10 (of_nat b :: u32) = of_nat b" by (metis of_nat_take_bit)
  moreover have "take_bit 10 (push_bit 10 (of_nat a :: u32)) = 0" by (simp add: take_bit_push_bit)
  ultimately have "of_nat b OR push_bit 10 (of_nat a :: u32) = of_nat b + push_bit 10 (of_nat a)" by (rule or_as_plus)
  then have "push_bit 10 (ucast (u AND 0x3FF)) OR (ucast v AND 0x3FF) = (of_nat (a * 0x400 + b) :: u32)"
    unfolding c by (simp add: or.commute push_bit_eq_mult algebra_simps)
  moreover have "\<not> isHighSurrogate v" using assms(2) by (simp add: isHighSurrogate_def isLowSurrogate_def not_less)
  ultimately show ?thesis using assms(2) by (simp add: codepoint_append_def ab [symmetric] algebra_simps)
qed

text \<open>A Unicode escape: the loop goes on behind it with the code unit.\<close>

lemma quotedLoop_hex:
  assumes "hex4 ds u" "todo p = backslash # CHR ''u'' # ds @ w"
  shows "quotedLoop quote_char h p =
    (case codepoint_append h u of
       (high, None) \<Rightarrow> quotedLoop quote_char high (p\<lparr>rest := w, held := last ds, loaded := False\<rparr>)
     | (high, Some n) \<Rightarrow> quotedLoop quote_char high
         (append_chars (encodeCodepoint n) (p\<lparr>rest := w, held := last ds, loaded := False\<rparr>)))"
proof -
  have l: "load p = p\<lparr>rest := CHR ''u'' # ds @ w, held := backslash, loaded := True\<rparr>"
    using assms(2) by (intro load_todo) simp
  then have l2: "load (move (load p)) = p\<lparr>rest := ds @ w, held := CHR ''u'', loaded := True\<rparr>"
    by (simp add: move_def load_def)
  let ?p = "p\<lparr>rest := ds @ w, held := CHR ''u'', loaded := False\<rparr>"
  have "parseHex4 4 0 ?p = (Some u, ?p\<lparr>rest := w, held := last ds, loaded := False\<rparr>)"
    by (rule parseHex4_hex4 [OF assms(1)]) (simp add: todo_def)
  then show ?thesis unfolding quotedLoop_turn [of quote_char h p] l2 by (simp add: l move_def)
qed

lemma utf8_not_NUL: "0 < n \<Longrightarrow> n < 0x110000 \<Longrightarrow> NUL \<notin> set (utf8 n)"
  using encodeCodepoint_utf8 [of n] encodeCodepoint_NUL [of "of_nat n"] by simp

lemma string_body_NUL: "string_body t s \<Longrightarrow> NUL \<notin> set s"
proof (induction rule: string_body.induct)
  case (body_unicode ds u t s)
  have "unat u < 2 ^ LENGTH(16)" by (rule unsigned_less)
  moreover have "0 < unat u" using body_unicode by (simp add: unat_gt_0)
  ultimately show ?case using body_unicode utf8_not_NUL [of "unat u"] by auto
next
  case (body_pair ds u es v t s)
  then have "unat u < 0xDC00" "unat v < 0xE000"
    by (simp_all add: isHighSurrogate_def isLowSurrogate_def word_less_nat_alt)
  then show ?case using body_pair utf8_not_NUL by auto
qed auto

text \<open>The loop over a string reads its text and ends behind the closing quote.\<close>

lemma quotedLoop_text:
  assumes "string_body t s" "todo p = t @ quote_char # r" "cvalid p" "length (ctext p) + length s < ccapacity p"
  shows "quotedLoop quote_char h p =
    (True, p\<lparr>rest := r, held := quote_char, loaded := False, ctext := ctext p @ s\<rparr>)"
  using assms
proof (induction t s arbitrary: p h rule: string_body.induct)
  case body_end
  then have "load p = p\<lparr>rest := r, held := quote_char, loaded := True\<rparr>" by (intro load_todo) simp
  then show ?case by (simp add: quotedLoop_turn move_def)
next
  case (body_char c t s)
  let ?w = "t @ quote_char # r"
  have l: "load p = p\<lparr>rest := ?w, held := c, loaded := True\<rparr>"
    using body_char.prems(1) by (intro load_todo) simp
  let ?q = "p\<lparr>rest := ?w, held := c, loaded := False, ctext := ctext p @ [c]\<rparr>"
  have "quotedLoop quote_char h p = quotedLoop quote_char h ?q"
    using l body_char by (subst quotedLoop_turn) (simp add: move_def append_char_def)
  also have "\<dots> = (True, ?q\<lparr>rest := r, held := quote_char, loaded := False, ctext := ctext ?q @ s\<rparr>)"
    by (rule body_char.IH) (use body_char.prems in \<open>simp_all add: todo_def\<close>)
  finally show ?case by simp
next
  case (body_escape e c t s)
  let ?w = "t @ quote_char # r"
  have e: "e \<noteq> NUL" "e \<noteq> CHR ''u''"
    using body_escape.hyps(1,2) by (auto simp: unescapeChar_def escapeTable_def)
  have l: "load p = p\<lparr>rest := e # ?w, held := backslash, loaded := True\<rparr>"
    using body_escape.prems(1) by (intro load_todo) simp
  then have l2: "load (move (load p)) = p\<lparr>rest := ?w, held := e, loaded := True\<rparr>"
    by (simp add: move_def load_def)
  let ?q = "p\<lparr>rest := ?w, held := e, loaded := False, ctext := ctext p @ [c]\<rparr>"
  have "quotedLoop quote_char h p = quotedLoop quote_char h ?q"
    using e body_escape unfolding quotedLoop_turn [of quote_char h p] l2
    by (simp add: l move_def append_char_def)
  also have "\<dots> = (True, ?q\<lparr>rest := r, held := quote_char, loaded := False, ctext := ctext ?q @ s\<rparr>)"
    by (rule body_escape.IH) (use body_escape.prems in \<open>simp_all add: todo_def\<close>)
  finally show ?case by simp
next
  case (body_unicode ds u t s)
  let ?w = "t @ quote_char # r"
  let ?q = "p\<lparr>rest := ?w, held := last ds, loaded := False, ctext := ctext p @ utf8 (unat u)\<rparr>"
  have "unat u < 2 ^ LENGTH(16)" by (rule unsigned_less)
  moreover have "0 < unat u" using body_unicode(4) by (simp add: unat_gt_0)
  ultimately have "encodeCodepoint (ucast u) = utf8 (unat u)" using encodeCodepoint_utf8 [of "unat u"] by simp
  then have "quotedLoop quote_char h p = quotedLoop quote_char h ?q"
    using quotedLoop_hex [OF body_unicode.hyps(1), of p "t @ quote_char # r" h] body_unicode
    by (simp add: codepoint_append_def append_chars_room)
  also have "\<dots> = (True, ?q\<lparr>rest := r, held := quote_char, loaded := False, ctext := ctext ?q @ s\<rparr>)"
    by (rule body_unicode.IH) (use body_unicode.prems in \<open>simp_all add: todo_def\<close>)
  finally show ?case by simp
next
  case (body_pair ds u es v t s)
  let ?w = "t @ quote_char # r" and ?h = "u AND 0x3FF"
  let ?n = "0x10000 + (unat u - 0xD800) * 0x400 + (unat v - 0xDC00)"
  let ?p = "p\<lparr>rest := backslash # CHR ''u'' # es @ ?w, held := last ds, loaded := False\<rparr>"
  let ?q = "p\<lparr>rest := ?w, held := last es, loaded := False, ctext := ctext p @ utf8 ?n\<rparr>"
  have "unat u < 0xDC00" "unat v < 0xE000"
    using body_pair by (simp_all add: isHighSurrogate_def isLowSurrogate_def word_less_nat_alt)
  then have n: "encodeCodepoint (of_nat ?n) = utf8 ?n" by (intro encodeCodepoint_utf8) simp_all
  have "quotedLoop quote_char h p = quotedLoop quote_char ?h ?p"
    using quotedLoop_hex [OF body_pair.hyps(1), of p "backslash # CHR ''u'' # es @ ?w" h] body_pair
    by (simp add: codepoint_append_def)
  also have "\<dots> = quotedLoop quote_char ?h ?q"
    using quotedLoop_hex [OF body_pair.hyps(3), of ?p ?w ?h] body_pair.prems n
      codepoint_pair [OF body_pair.hyps(2,4)]
    by (simp add: todo_def [of ?p] append_chars_room)
  also have "\<dots> = (True, ?q\<lparr>rest := r, held := quote_char, loaded := False, ctext := ctext ?q @ s\<rparr>)"
    by (rule body_pair.IH) (use body_pair.prems in \<open>simp_all add: todo_def\<close>)
  finally show ?case by simp
qed

end
