(* ===== verification/Json_Reading.thy ===== *)
theory Json_Reading
  imports Json_Grammar
begin

section \<open>Every text of the grammar is read\<close>

text \<open>
  A text of the grammar \<open>value_text\<close>, in a document with enough memory and levels, is parsed to the value
  it denotes. Each function of the parser has a lemma for the text it is meant for; the theorem about
  values is an induction over the grammar.
\<close>

subsection \<open>Strings and keys\<close>

lemma parseQuotedString_text:
  assumes "todo p = quote_char # t @ quote_char # r" "string_body t s" "cvalid p" "ctext p = ''''"
    "length s < ccapacity p"
  shows "parseQuotedString p = (True, p\<lparr>rest := r, held := quote_char, loaded := False, ctext := s @ [NUL]\<rparr>)"
proof -
  have l: "load p = p\<lparr>rest := t @ quote_char # r, held := quote_char, loaded := True\<rparr>"
    using assms(1) by (rule load_todo)
  let ?q = "p\<lparr>rest := t @ quote_char # r, held := quote_char, loaded := False\<rparr>"
  have "quotedLoop quote_char 0 ?q = (True, ?q\<lparr>rest := r, held := quote_char, loaded := False, ctext := ctext ?q @ s\<rparr>)"
    by (rule quotedLoop_text [OF assms(2)]) (use assms in \<open>simp_all add: todo_def\<close>)
  then show ?thesis
    using assms by (simp add: parseQuotedString_def l move_def finishString_def append_char_room Let_def)
qed

lemma c_str_text: "ctext p = s @ [NUL] \<Longrightarrow> NUL \<notin> set s \<Longrightarrow> c_str p = s"
  unfolding c_str_def by (simp, subst takeWhile_append2) auto

lemma startString_todo [simp]:
  "todo (startString p) = todo p" "cvalid (startString p)" "ctext (startString p) = ''''"
  "ccapacity (startString p) = free_size (pool p)" "pool (startString p) = pool p" "jerror (startString p) = jerror p"
  by (simp_all add: startString_def todo_def)

lemma parseStringValue_text:
  assumes "todo p = quote_char # t @ quote_char # r" "string_body t s" "length s < free_size (pool p)"
  shows "\<exists>q. parseStringValue v p = (True, JString s, q) \<and> todo q = r \<and> jerror q = jerror p \<and>
    pool q = saveStringFromFreeZone s (pool p)"
proof -
  have "parseQuotedString (startString p) = (True, (startString p)
      \<lparr>rest := r, held := quote_char, loaded := False, ctext := s @ [NUL]\<rparr>)"
    by (rule parseQuotedString_text [OF _ assms(2)]) (use assms in simp_all)
  then show ?thesis
    using string_body_NUL [OF assms(2)] by (simp add: parseStringValue_def save_def c_str_text todo_def)
qed

lemma parseKey_text:
  assumes "todo p = quote_char # t @ quote_char # r" "string_body t k" "length k < free_size (pool p)"
  shows "\<exists>q. parseKey p = (True, q) \<and> todo q = r \<and> jerror q = jerror p \<and> pool q = pool p \<and> c_str q = k"
proof -
  let ?p = "(startString p)\<lparr>rest := t @ quote_char # r, held := quote_char, loaded := True\<rparr>"
  have l: "load (startString p) = ?p" using assms(1) by (intro load_todo) simp
  have "parseQuotedString ?p = (True, ?p\<lparr>rest := r, held := quote_char, loaded := False, ctext := k @ [NUL]\<rparr>)"
    by (rule parseQuotedString_text [OF _ assms(2)]) (use assms in \<open>simp_all add: todo_def\<close>)
  then show ?thesis
    using string_body_NUL [OF assms(2)] by (simp add: parseKey_def l isQuote_def c_str_text todo_def)
qed

subsection \<open>Numbers and words\<close>

definition stops :: "string \<Rightarrow> bool" where
  "stops r \<longleftrightarrow> r = [] \<or> hd r \<noteq> NUL \<and> \<not> canBeInNonQuotedString (hd r)"

lemma numberLoop_text:
  assumes "todo p = s @ r" "list_all canBeInNonQuotedString s" "stops r" "length b + length s \<le> 63"
  shows "\<exists>q. numberLoop b p = (b @ s, q) \<and> todo q = r \<and> loaded q \<and> jerror q = jerror p \<and> pool q = pool p"
  using assms
proof (induction s arbitrary: b p)
  case Nil
  show ?case
  proof (cases r)
    case Nil
    then have e: "held (load p) = NUL" using load_end Nil.prems(1) by simp
    then have "todo (load p) = []" by (auto simp: todo_def load_def split: list.splits)
    moreover have "\<not> canBeInNonQuotedString NUL" using canBe_not_NUL by blast
    ultimately show ?thesis using e
      by (simp add: numberLoop.simps [of b p] Nil) (simp add: load_def split: list.split)
  next
    case (Cons c cs)
    then have "load p = p\<lparr>rest := cs, held := c, loaded := True\<rparr>" using Nil.prems(1) by (intro load_todo) simp
    then show ?thesis using Nil.prems(3) Cons by (simp add: numberLoop.simps [of b p] stops_def todo_def)
  qed
next
  case (Cons c s)
  let ?q = "p\<lparr>rest := s @ r, held := c, loaded := False\<rparr>"
  have l: "load p = p\<lparr>rest := s @ r, held := c, loaded := True\<rparr>" using Cons.prems(1) by (intro load_todo) simp
  have "\<exists>q. numberLoop (b @ [c]) ?q = ((b @ [c]) @ s, q) \<and> todo q = r \<and> loaded q \<and> jerror q = jerror ?q \<and> pool q = pool ?q"
    by (rule Cons.IH) (use Cons.prems in \<open>simp_all add: todo_def\<close>)
  then show ?case using Cons.prems(2,4) by (simp add: numberLoop.simps [of b p] l move_def)
qed

text \<open>The texts of values that are no strings and no collections.\<close>

definition word_text :: "json_lib \<Rightarrow> json \<Rightarrow> string \<Rightarrow> bool" where
  "word_text lib j s \<longleftrightarrow> list_all canBeInNonQuotedString s \<and> s \<noteq> [] \<and> length s \<le> 63 \<and> memoryUsage j = 0 \<and>
     (\<forall>p q. numberLoop '''' p = (s, q) \<longrightarrow> parseNumericValue lib JNull p = (True, j, q))"

lemma word_text_const:
  "word_text lib JNull ''null''" "word_text lib (JBool True) ''true''" "word_text lib (JBool False) ''false''"
  by (simp_all add: word_text_def parseNumericValue_def canBeInNonQuotedString_def isBetween_def)

lemma parseNumber_memory: "parseNumber lib s = Some w \<Longrightarrow> memoryUsage w = 0"
  using parse_float_flat by (fastforce simp: parseNumber_def Let_def split: list.splits if_splits prod.splits)

lemma word_text_number:
  assumes "number_text lib t j"
  shows "word_text lib j t"
proof -
  obtain c cs where c: "t = c # cs" using assms by (cases t) (auto simp: number_text_def)
  then have "c \<noteq> CHR ''t''" "c \<noteq> CHR ''f''" "c \<noteq> CHR ''n''" using assms by (auto simp: number_text_def isdigit_def)
  then have "parseNumericValue lib v p = (True, j, q)" if "numberLoop '''' p = (t, q)" for p q v
    using that assms c by (simp add: parseNumericValue_def number_text_def)
  then show ?thesis using assms parseNumber_memory by (auto simp: word_text_def number_text_def)
qed

text \<open>What the parser of a value has to do with its text, and a parser that does so.\<close>

definition reads_text :: "(bool \<times> json \<times> jparser) option \<Rightarrow> json \<Rightarrow> jparser \<Rightarrow> string \<Rightarrow> bool" where
  "reads_text x j p r \<longleftrightarrow> (\<exists>q. x = Some (True, j, q) \<and> todo q = r \<and> jerror q = JOk \<and> (isEnclosed j \<or> loaded q) \<and>
     free_size (pool p) \<le> free_size (pool q) + memoryUsage j)"

definition reads_back :: "variant_parser \<Rightarrow> string \<Rightarrow> json \<Rightarrow> bool" where
  "reads_back f t j \<longleftrightarrow> (\<forall>p r. near p (t @ r) \<longrightarrow> stops r \<longrightarrow> jerror p = JOk \<longrightarrow>
     memoryUsage j \<le> free_size (pool p) \<longrightarrow> reads_text (f JNull p) j p r)"

lemma reads_backD:
  "reads_back f t j \<Longrightarrow> near p (t @ r) \<Longrightarrow> stops r \<Longrightarrow> jerror p = JOk \<Longrightarrow> memoryUsage j \<le> free_size (pool p) \<Longrightarrow>
   reads_text (f JNull p) j p r"
  by (simp add: reads_back_def)

lemma reads_back_word:
  assumes "word_text lib j s"
  shows "reads_back (parse_value lib sub) s j"
  unfolding reads_back_def
proof (intro allI impI)
  fix p r
  assume p: "near p (s @ r)" "stops r" "jerror p = JOk"
  obtain c cs where s: "s = c # cs" "canBeInNonQuotedString c" using assms by (cases s) (auto simp: word_text_def)
  have c: "c \<noteq> NUL" "\<not> white_space c" "c \<noteq> CHR ''[''" "c \<noteq> CHR ''{''" "\<not> isQuote c"
    using s(2) by (auto simp: canBeInNonQuotedString_def isBetween_def white_space_def isQuote_def)
  let ?p = "p\<lparr>rest := cs @ r, held := c, loaded := True, found := True\<rparr>"
  have k: "skipSpacesAndComments p = (True, ?p)" using p(1) s c by (intro skip_near) simp_all
  have "todo ?p = s @ r" using s(1) c(1) by (simp add: todo_def)
  then obtain q where q: "numberLoop '''' ?p = (s, q)" "todo q = r" "loaded q" "jerror q = jerror ?p" "pool q = pool ?p"
    using numberLoop_text [of ?p s r "''''"] assms p(2) by (auto simp: word_text_def)
  then have "parseNumericValue lib JNull ?p = (True, j, q)" using assms by (auto simp: word_text_def)
  moreover have "load ?p = ?p" by (simp add: load_def)
  ultimately show "reads_text (parse_value lib sub JNull p) j p r"
    using k c q p(3) assms by (simp add: parse_value_def reads_text_def Let_def word_text_def)
qed

lemma reads_back_string:
  assumes "string_body t s"
  shows "reads_back (parse_value lib sub) (quote_char # t @ [quote_char]) (JString s)"
  unfolding reads_back_def
proof (intro allI impI)
  fix p r
  assume p: "near p ((quote_char # t @ [quote_char]) @ r)" "jerror p = JOk" "memoryUsage (JString s) \<le> free_size (pool p)"
  let ?p = "p\<lparr>rest := t @ quote_char # r, held := quote_char, loaded := True, found := True\<rparr>"
  have k: "skipSpacesAndComments p = (True, ?p)" using p(1) by (intro skip_near) (simp_all add: white_space_def)
  have "\<exists>q. parseStringValue JNull ?p = (True, JString s, q) \<and> todo q = r \<and> jerror q = jerror ?p \<and>
      pool q = saveStringFromFreeZone s (pool ?p)"
    by (rule parseStringValue_text [OF _ assms]) (use p in \<open>simp_all add: todo_def\<close>)
  moreover have "load ?p = ?p" by (simp add: load_def)
  moreover have "free_size (pool p) \<le> free_size (saveStringFromFreeZone s (pool p)) + (length s + 1)"
    using free_after_save [of "pool p" s] by linarith
  ultimately show "reads_text (parse_value lib sub JNull p) (JString s) p r"
    using k p(2) by (auto simp: parse_value_def reads_text_def isQuote_def Let_def)
qed

subsection \<open>Elements\<close>

lemma addSlot_room:
  assumes "slot_size \<le> free_size (pool p)"
  shows "\<exists>q. addSlot p = (True, q) \<and> todo q = todo p \<and> jerror q = jerror p \<and> ctext q = ctext p \<and>
    free_size (pool q) = free_size (pool p) - slot_size"
proof -
  obtain Q where "allocVariant (pool p) = Some Q" "free_size Q = free_size (pool p) - slot_size"
    using free_after_slot [OF assms] by blast
  then show ?thesis by (simp add: addSlot_def) (simp add: todo_def)
qed

lemma near_cong: "todo q = todo p \<Longrightarrow> near q s = near p s"
  by (simp add: near_def)

lemma after_value_close:
  assumes "todo p = w @ c # r" "white w" "c \<noteq> NUL" "\<not> white_space c" "jerror p = JOk"
  shows "\<exists>q. after_value c p = (False, True, q) \<and> todo q = r \<and> jerror q = JOk \<and> pool q = pool p"
proof -
  let ?p = "p\<lparr>rest := r, held := c, loaded := True, found := True\<rparr>"
  have "skipSpacesAndComments p = (True, ?p)" using assms near_todo by (intro skip_near) auto
  moreover have "todo ?p = c # r" using assms(3) by (simp add: todo_def)
  ultimately show ?thesis using assms(5) by (simp add: after_value_def eat_todo(1)) (simp add: todo_def)
qed

lemma after_value_comma:
  assumes "todo p = w @ CHR '','' # r" "white w" "c \<noteq> CHR '',''" "jerror p = JOk"
  shows "\<exists>q. after_value c p = (True, True, q) \<and> todo q = r \<and> jerror q = JOk \<and> pool q = pool p"
proof -
  let ?p = "p\<lparr>rest := r, held := CHR '','', loaded := True, found := True\<rparr>"
  have "skipSpacesAndComments p = (True, ?p)"
    using assms(1,2) near_todo by (intro skip_near) (auto simp: white_space_def)
  moreover have t: "todo ?p = CHR '','' # r" by (simp add: todo_def)
  moreover have "eat c ?p = (False, ?p)" using eat_todo(2) [OF t, of c] assms(3) by simp
  ultimately show ?thesis using assms(4) by (simp add: after_value_def eat_todo(1) [OF t]) (simp add: todo_def)
qed

lemma stops_after:
  assumes "white w" "c \<in> {CHR '','', CHR '']'', CHR ''}''}"
  shows "stops (w @ c # r)"
  using assms
  by (cases w) (auto simp: stops_def white_def white_space_def canBeInNonQuotedString_def isBetween_def)

text \<open>One element: the slot, the value, and what comes behind it.\<close>

lemma arrayLoop_value:
  assumes "reads_back f t x" "near p (t @ w @ c # r)" "white w" "c = CHR '','' \<or> c = CHR '']''"
    "jerror p = JOk" "slot_size + memoryUsage x \<le> free_size (pool p)"
  shows "\<exists>q. arrayLoop f ys p = (if c = CHR '','' then arrayLoop f (ys @ [x]) q else Some (True, ys @ [x], q)) \<and>
    todo q = r \<and> jerror q = JOk \<and> free_size (pool p) \<le> free_size (pool q) + (slot_size + memoryUsage x)"
proof -
  obtain p1 where 1: "addSlot p = (True, p1)" "todo p1 = todo p" "jerror p1 = jerror p"
    "free_size (pool p1) = free_size (pool p) - slot_size"
    using addSlot_room [of p] assms(6) by auto
  have "reads_text (f JNull p1) x p1 (w @ c # r)"
    by (rule reads_backD [OF assms(1)])
      (use assms(2-6) 1 near_cong [OF 1(2)] in \<open>auto intro!: stops_after\<close>)
  then obtain p2 where 2: "f JNull p1 = Some (True, x, p2)" "todo p2 = w @ c # r" "jerror p2 = JOk"
    "free_size (pool p1) \<le> free_size (pool p2) + memoryUsage x"
    by (auto simp: reads_text_def)
  have free: "free_size (pool p) \<le> free_size (pool p2) + (slot_size + memoryUsage x)"
    using 1(4) 2(4) by linarith
  show ?thesis
  proof (cases "c = CHR '',''")
    case True
    then obtain q where "after_value CHR '']'' p2 = (True, True, q)" "todo q = r" "jerror q = JOk" "pool q = pool p2"
      using after_value_comma [of p2 w r "CHR '']''"] 2 assms(3) by auto
    then show ?thesis using 1 2 True free by (intro exI [of _ q]) (simp add: arrayLoop.simps [of f ys p])
  next
    case False
    then obtain q where "after_value CHR '']'' p2 = (False, True, q)" "todo q = r" "jerror q = JOk" "pool q = pool p2"
      using after_value_close [of p2 w "CHR '']''" r] 2 assms(3,4) by (auto simp: white_space_def)
    then show ?thesis using 1 2 False free by (simp add: arrayLoop.simps [of f ys p])
  qed
qed

subsection \<open>Members\<close>

lemma parseMemberKey_text:
  assumes "todo p = quote_char # kt @ quote_char # w @ CHR '':'' # r" "string_body kt k" "white w"
    "length k < free_size (pool p)"
  shows "\<exists>q. parseMemberKey p = (True, q) \<and> todo q = r \<and> jerror q = jerror p \<and> pool q = pool p \<and> c_str q = k"
proof -
  obtain q where q: "parseKey p = (True, q)" "todo q = w @ CHR '':'' # r" "jerror q = jerror p" "pool q = pool p" "c_str q = k"
    using parseKey_text [OF assms(1,2,4)] by blast
  let ?q = "q\<lparr>rest := r, held := CHR '':'', loaded := True, found := True\<rparr>"
  have "skipSpacesAndComments q = (True, ?q)"
    using q(2) assms(3) near_todo by (intro skip_near) (auto simp: white_space_def)
  moreover have "todo ?q = CHR '':'' # r" by (simp add: todo_def)
  ultimately show ?thesis using q by (simp add: parseMemberKey_def eat_todo(1)) (simp add: todo_def c_str_def)
qed

lemma member_slot_new:
  assumes "map_of ms (c_str p) = None" "length (c_str p) + 1 + slot_size \<le> free_size (pool p)"
  shows "\<exists>q. member_slot ms p = (True, JNull, q) \<and> todo q = todo p \<and> jerror q = jerror p \<and>
    free_size (pool p) \<le> free_size (pool q) + (length (c_str p) + 1) + slot_size"
proof -
  have s: "free_size (pool p) \<le> free_size (pool (save p)) + (length (c_str p) + 1)"
    using free_after_save [of "pool p" "c_str p"] by (simp add: save_def)
  then have "slot_size \<le> free_size (pool (save p))" using assms(2) by linarith
  then obtain q where "addSlot (save p) = (True, q)" "todo q = todo (save p)" "jerror q = jerror (save p)"
    "free_size (pool q) = free_size (pool (save p)) - slot_size"
    using addSlot_room by blast
  then show ?thesis using s assms by (simp add: member_slot_def) (simp add: todo_def save_def)
qed

lemma update_new: "k \<notin> fst ` set ms \<Longrightarrow> AList.update k v ms = ms @ [(k, v)]"
  by (induction ms) auto

text \<open>One member, and the way to the next key.\<close>

lemma objectLoop_value:
  assumes "reads_back f t x" "string_body kt k" "white w1" "white w2" "white w"
    "todo p = quote_char # kt @ quote_char # w1 @ CHR '':'' # w2 @ t @ w @ c # r"
    "c = CHR '','' \<and> dropWhile white_space r = quote_char # s \<or> c = CHR ''}''" "k \<notin> fst ` set ns"
    "jerror p = JOk" "slot_size + memoryUsage x + (length k + 1) \<le> free_size (pool p)"
  shows "\<exists>q. objectLoop f ns p = (if c = CHR '','' then objectLoop f (ns @ [(k, x)]) q else Some (True, ns @ [(k, x)], q)) \<and>
    todo q = (if c = CHR '','' then dropWhile white_space r else r) \<and> jerror q = JOk \<and>
    free_size (pool p) \<le> free_size (pool q) + (slot_size + memoryUsage x + (length k + 1))"
proof -
  obtain p1 where 1: "parseMemberKey p = (True, p1)" "todo p1 = w2 @ t @ w @ c # r" "jerror p1 = jerror p"
    "pool p1 = pool p" "c_str p1 = k"
    using parseMemberKey_text [OF assms(6,2,3)] assms(10) by auto
  have none: "map_of ns (c_str p1) = None" using 1(5) assms(8) by (simp add: map_of_eq_None_iff)
  obtain p2 where 2: "member_slot ns p1 = (True, JNull, p2)" "todo p2 = todo p1" "jerror p2 = jerror p1"
    "free_size (pool p1) \<le> free_size (pool p2) + (length k + 1) + slot_size"
    using member_slot_new [OF none] 1(4,5) assms(10) by auto
  have "near p2 (t @ w @ c # r)" using near_todo [OF _ assms(4)] 1(2) 2(2) by simp
  moreover have "memoryUsage x \<le> free_size (pool p2)" using 2(4) assms(10) 1(4) by simp
  ultimately have "reads_text (f JNull p2) x p2 (w @ c # r)"
    using 1(3) 2(3) assms(5,7,9) by (intro reads_backD [OF assms(1)] stops_after) auto
  then obtain p3 where 3: "f JNull p2 = Some (True, x, p3)" "todo p3 = w @ c # r" "jerror p3 = JOk"
    "free_size (pool p2) \<le> free_size (pool p3) + memoryUsage x"
    by (auto simp: reads_text_def)
  have free: "free_size (pool p) \<le> free_size (pool p3) + (slot_size + memoryUsage x + (length k + 1))"
    using 2(4) 3(4) unfolding 1(4) by linarith
  have upd: "AList.update k x ns = ns @ [(k, x)]" using update_new [OF assms(8)] .
  show ?thesis
  proof (cases "c = CHR '',''")
    case True
    then obtain p4 where 4: "after_value CHR ''}'' p3 = (True, True, p4)" "todo p4 = r" "jerror p4 = JOk" "pool p4 = pool p3"
      using after_value_comma [of p3 w r "CHR ''}''"] 3 assms(5) by auto
    let ?q = "p4\<lparr>rest := s, held := quote_char, loaded := True, found := True\<rparr>"
    have r: "dropWhile white_space r = quote_char # s" using assms(7) True by simp
    have 5: "skipSpacesAndComments p4 = (True, ?q)" using 4(2) r by (intro skip_todo) simp_all
    have t: "todo ?q = quote_char # s" by (simp add: todo_def)
    have "objectLoop f ns p = objectLoop f (ns @ [(k, x)]) ?q"
      using 1 2 3 4 5 upd by (simp add: objectLoop.simps [of f ns p])
    moreover have "jerror ?q = JOk" "pool ?q = pool p3" using 4 by simp_all
    ultimately show ?thesis using True t free r by (intro exI [of _ ?q]) (simp only: simp_thms if_True)
  next
    case False
    then obtain q where "after_value CHR ''}'' p3 = (False, True, q)" "todo q = r" "jerror q = JOk" "pool q = pool p3"
      using after_value_close [of p3 w "CHR ''}''" r] 3 assms(5,7) by (auto simp: white_space_def)
    then show ?thesis using 1 2 3 False upd free by (simp add: objectLoop.simps [of f ns p])
  qed
qed

subsection \<open>Collections\<close>

text \<open>The character a text begins with tells what it is.\<close>

definition begins :: "string \<Rightarrow> bool" where
  "begins s \<longleftrightarrow> s \<noteq> [] \<and> hd s \<noteq> NUL \<and> \<not> white_space (hd s) \<and> hd s \<noteq> CHR '']'' \<and> hd s \<noteq> CHR ''}''"

lemma begins_value: "value_text lib t j \<Longrightarrow> begins t"
proof (induction rule: value_text.cases)
  case (text_number t j)
  then show ?case by (cases t) (auto simp: begins_def white_space_def number_text_def isdigit_def)
qed (auto simp: begins_def white_space_def)

lemma parse_value_open:
  assumes "near p (c # s)" "c = CHR ''['' \<or> c = CHR ''{''"
  shows "\<exists>q. parse_value lib sub v p = (if c = CHR ''['' then parseArray sub q else parseObject sub q) \<and>
    todo (move (load q)) = s \<and> jerror q = jerror p \<and> pool q = pool p"
proof -
  let ?p = "p\<lparr>rest := s, held := c, loaded := True, found := True\<rparr>"
  have "skipSpacesAndComments p = (True, ?p)" using assms by (intro skip_near) (auto simp: white_space_def)
  moreover have "load ?p = ?p" by (simp add: load_def)
  ultimately have "parse_value lib sub v p = (if c = CHR ''['' then parseArray sub ?p else parseObject sub ?p)"
    using assms(2) by (auto simp: parse_value_def Let_def)
  moreover have "todo (move (load ?p)) = s" by (simp add: load_def move_def todo_def)
  ultimately show ?thesis by fastforce
qed

lemma same_load_move [simp]:
  "jerror (move p) = jerror p" "pool (move p) = pool p"
  "jerror (load p) = jerror p" "pool (load p) = pool p"
  by (auto simp: move_def load_def split: list.split)

text \<open>What the loops have to do with the texts of the elements and members.\<close>

definition elements_read :: "variant_parser \<Rightarrow> string \<Rightarrow> json list \<Rightarrow> bool" where
  "elements_read f t xs \<longleftrightarrow> (\<forall>p r ys. near p (t @ CHR '']'' # r) \<longrightarrow> jerror p = JOk \<longrightarrow>
     elements_memory xs \<le> free_size (pool p) \<longrightarrow>
     (\<exists>q. arrayLoop f ys p = Some (True, ys @ xs, q) \<and> todo q = r \<and> jerror q = JOk \<and>
        free_size (pool p) \<le> free_size (pool q) + elements_memory xs))"

definition members_read :: "variant_parser \<Rightarrow> string \<Rightarrow> (string \<times> json) list \<Rightarrow> bool" where
  "members_read f t ms \<longleftrightarrow> (\<forall>p r ns. todo p = dropWhile white_space (t @ CHR ''}'' # r) \<longrightarrow> jerror p = JOk \<longrightarrow>
     distinct (map fst (ns @ ms)) \<longrightarrow> members_memory ms \<le> free_size (pool p) \<longrightarrow>
     (\<exists>q. objectLoop f ns p = Some (True, ns @ ms, q) \<and> todo q = r \<and> jerror q = JOk \<and>
        free_size (pool p) \<le> free_size (pool q) + members_memory ms))"

lemma reads_back_array:
  assumes "elements_read f t xs" "begins (dropWhile white_space t)"
  shows "reads_back (parse_value lib (Some f)) (''['' @ t @ '']'') (JArray xs)"
  unfolding reads_back_def
proof (intro allI impI)
  fix p r
  assume p: "near p ((''['' @ t @ '']'') @ r)" "jerror p = JOk" "memoryUsage (JArray xs) \<le> free_size (pool p)"
  obtain q where q: "parse_value lib (Some f) JNull p = parseArray (Some f) q" "jerror q = JOk" "pool q = pool p"
    "todo (move (load q)) = t @ CHR '']'' # r"
    using parse_value_open [of p "CHR ''[''" "t @ CHR '']'' # r" lib "Some f" JNull] p by auto
  obtain c cs where c: "dropWhile white_space t = c # cs" "c \<noteq> NUL" "c \<noteq> CHR '']''"
    using assms(2) by (cases "dropWhile white_space t") (auto simp: begins_def)
  then have d: "dropWhile white_space (t @ CHR '']'' # r) = c # cs @ CHR '']'' # r"
    by (metis Cons_eq_appendI dropWhile_append dropWhile_eq_Nil_conv list.distinct(1))
  let ?u = "(move (load q))\<lparr>rest := cs @ CHR '']'' # r, held := c, loaded := True, found := True\<rparr>"
  have s: "skipSpacesAndComments (move (load q)) = (True, ?u)" using q(4) d c(2) by (intro skip_todo) simp_all
  have t: "todo ?u = c # cs @ CHR '']'' # r" using c(2) by (simp add: todo_def)
  then have e: "eat CHR '']'' ?u = (False, ?u)" using eat_todo(2) [OF t, of "CHR '']''"] c(3) by simp
  have near: "near ?u (t @ CHR '']'' # r)"
    unfolding near_def t d [symmetric] by (simp add: dropWhile_idem)
  obtain w where "arrayLoop f [] ?u = Some (True, xs, w)" "todo w = r" "jerror w = JOk"
    "free_size (pool ?u) \<le> free_size (pool w) + elements_memory xs"
    using assms(1) [unfolded elements_read_def, rule_format, OF near, of "[]"] p(3) q(2,3) by auto
  then show "reads_text (parse_value lib (Some f) JNull p) (JArray xs) p r"
    using q s e by (simp add: reads_text_def parseArray_def)
qed

lemma reads_back_object:
  assumes "members_read f t ms" "dropWhile white_space t = quote_char # u" "distinct (map fst ms)"
  shows "reads_back (parse_value lib (Some f)) (''{'' @ t @ ''}'') (JObject ms)"
  unfolding reads_back_def
proof (intro allI impI)
  fix p r
  assume p: "near p ((''{'' @ t @ ''}'') @ r)" "jerror p = JOk" "memoryUsage (JObject ms) \<le> free_size (pool p)"
  obtain q where q: "parse_value lib (Some f) JNull p = parseObject (Some f) q" "jerror q = JOk" "pool q = pool p"
    "todo (move (load q)) = t @ CHR ''}'' # r"
    using parse_value_open [of p "CHR ''{''" "t @ CHR ''}'' # r" lib "Some f" JNull] p by auto
  have d: "dropWhile white_space (t @ CHR ''}'' # r) = quote_char # u @ CHR ''}'' # r"
    using assms(2) by (metis Cons_eq_appendI dropWhile_append dropWhile_eq_Nil_conv list.distinct(1))
  let ?u = "(move (load q))\<lparr>rest := u @ CHR ''}'' # r, held := quote_char, loaded := True, found := True\<rparr>"
  have s: "skipSpacesAndComments (move (load q)) = (True, ?u)" using q(4) d by (intro skip_todo) simp_all
  have t: "todo ?u = quote_char # u @ CHR ''}'' # r" by (simp add: todo_def)
  then have e: "eat CHR ''}'' ?u = (False, ?u)" using eat_todo(2) [OF t, of "CHR ''}''"] by simp
  obtain w where "objectLoop f [] ?u = Some (True, ms, w)" "todo w = r" "jerror w = JOk"
    "free_size (pool ?u) \<le> free_size (pool w) + members_memory ms"
    using assms(1) [unfolded members_read_def, rule_format, of ?u r "[]"] assms(3) p(3) q(2,3) t d by auto
  then show "reads_text (parse_value lib (Some f) JNull p) (JObject ms) p r"
    using q s e by (simp add: reads_text_def parseObject_def)
qed

lemma reads_back_empty:
  assumes "white w"
  shows "reads_back (parse_value lib (Some f)) (''['' @ w @ '']'') (JArray [])"
    "reads_back (parse_value lib (Some f)) (''{'' @ w @ ''}'') (JObject [])"
  unfolding reads_back_def
proof (safe)
  fix p r
  assume p: "near p ((''['' @ w @ '']'') @ r)" "jerror p = JOk"
  obtain q where q: "parse_value lib (Some f) JNull p = parseArray (Some f) q" "jerror q = JOk" "pool q = pool p"
    "todo (move (load q)) = w @ CHR '']'' # r"
    using parse_value_open [of p "CHR ''[''" "w @ CHR '']'' # r" lib "Some f" JNull] p by auto
  let ?u = "(move (load q))\<lparr>rest := r, held := CHR '']'', loaded := True, found := True\<rparr>"
  have "skipSpacesAndComments (move (load q)) = (True, ?u)"
    using near_todo [OF q(4) assms] by (intro skip_near) (simp_all add: white_space_def)
  then have "parseArray (Some f) q = Some (True, JArray [], move ?u)"
    by (simp add: parseArray_def eat_def load_def)
  then show "reads_text (parse_value lib (Some f) JNull p) (JArray []) p r"
    using q by (simp add: reads_text_def) (simp add: todo_def move_def)
next
  fix p r
  assume p: "near p ((''{'' @ w @ ''}'') @ r)" "jerror p = JOk"
  obtain q where q: "parse_value lib (Some f) JNull p = parseObject (Some f) q" "jerror q = JOk" "pool q = pool p"
    "todo (move (load q)) = w @ CHR ''}'' # r"
    using parse_value_open [of p "CHR ''{''" "w @ CHR ''}'' # r" lib "Some f" JNull] p by auto
  let ?u = "(move (load q))\<lparr>rest := r, held := CHR ''}'', loaded := True, found := True\<rparr>"
  have "skipSpacesAndComments (move (load q)) = (True, ?u)"
    using near_todo [OF q(4) assms] by (intro skip_near) (simp_all add: white_space_def)
  then have "parseObject (Some f) q = Some (True, JObject [], move ?u)"
    by (simp add: parseObject_def eat_def load_def)
  then show "reads_text (parse_value lib (Some f) JNull p) (JObject []) p r"
    using q by (simp add: reads_text_def) (simp add: todo_def move_def)
qed

subsection \<open>Values\<close>

lemma begins_append: "begins t \<Longrightarrow> begins (t @ s)"
  by (cases t) (auto simp: begins_def)

lemma dropWhile_white: "white w \<Longrightarrow> dropWhile white_space (w @ s) = dropWhile white_space s"
  by (simp add: white_def list_all_iff dropWhile_append2)

lemma begins_dropWhile: "begins t \<Longrightarrow> dropWhile white_space (t @ s) = t @ s"
  by (cases t) (auto simp: begins_def)

lemma elements_begin: "elements_of lib t xs \<Longrightarrow> begins (dropWhile white_space t)"
  by (induction rule: elements_of.cases) (auto simp: dropWhile_white begins_dropWhile begins_value begins_append)

lemma members_begin: "members_of lib t ms \<Longrightarrow> \<exists>u. dropWhile white_space t = quote_char # u"
  by (induction rule: members_of.cases) (auto simp: dropWhile_white white_space_def)

lemma members_begin_append:
  assumes "members_of lib t ms"
  shows "\<exists>u. dropWhile white_space (t @ s) = quote_char # u"
  using members_begin [OF assms] by (metis Cons_eq_appendI dropWhile_append dropWhile_eq_Nil_conv list.distinct(1))

lemma reads_back_variant:
  "(\<And>sub. reads_back (parse_value lib sub) t j) \<Longrightarrow> reads_back (parseVariant lib n) t j"
  by (cases n) simp_all

lemma elements_read_last:
  assumes "reads_back f t x" "white w" "white w'"
  shows "elements_read f (w @ t @ w') [x]"
  unfolding elements_read_def
proof (intro allI impI)
  fix p r ys
  assume p: "near p ((w @ t @ w') @ CHR '']'' # r)" "jerror p = JOk" "elements_memory [x] \<le> free_size (pool p)"
  then have "near p (t @ w' @ CHR '']'' # r)" using near_white [OF assms(2)] by simp
  from arrayLoop_value [OF assms(1) this assms(3) _ p(2)] p(3)
  show "\<exists>q. arrayLoop f ys p = Some (True, ys @ [x], q) \<and> todo q = r \<and> jerror q = JOk \<and>
      free_size (pool p) \<le> free_size (pool q) + elements_memory [x]"
    by fastforce
qed

lemma elements_read_more:
  assumes "reads_back f t x" "white w" "white w'" "elements_read f t' xs"
  shows "elements_read f (w @ t @ w' @ '','' @ t') (x # xs)"
  unfolding elements_read_def
proof (intro allI impI)
  fix p r ys
  assume p: "near p ((w @ t @ w' @ '','' @ t') @ CHR '']'' # r)" "jerror p = JOk"
    "elements_memory (x # xs) \<le> free_size (pool p)"
  then have "near p (t @ w' @ CHR '','' # t' @ CHR '']'' # r)" using near_white [OF assms(2)] by simp
  from arrayLoop_value [OF assms(1) this assms(3) _ p(2), of ys] p(3)
  obtain q where q: "arrayLoop f ys p = arrayLoop f (ys @ [x]) q" "todo q = t' @ CHR '']'' # r" "jerror q = JOk"
    "free_size (pool p) \<le> free_size (pool q) + (slot_size + memoryUsage x)"
    by auto
  have near: "near q (t' @ CHR '']'' # r)" using q(2) by (simp add: near_def)
  have "elements_memory xs \<le> free_size (pool q)" using q(4) p(3) by simp
  from assms(4) [unfolded elements_read_def, rule_format, OF near q(3) this, of "ys @ [x]"]
  obtain w where "arrayLoop f (ys @ [x]) q = Some (True, (ys @ [x]) @ xs, w)" "todo w = r" "jerror w = JOk"
    "free_size (pool q) \<le> free_size (pool w) + elements_memory xs"
    by blast
  then show "\<exists>q. arrayLoop f ys p = Some (True, ys @ x # xs, q) \<and> todo q = r \<and> jerror q = JOk \<and>
      free_size (pool p) \<le> free_size (pool q) + elements_memory (x # xs)"
    using q(1,4) by (intro exI [of _ w]) simp
qed

lemma members_read_last:
  assumes "reads_back f t x" "string_body kt k" "white w" "white w1" "white w2" "white w'"
  shows "members_read f (w @ quote_char # kt @ quote_char # w1 @ '':'' @ w2 @ t @ w') [(k, x)]"
  unfolding members_read_def
proof (intro allI impI)
  fix p r ns
  assume p: "todo p = dropWhile white_space
      ((w @ quote_char # kt @ quote_char # w1 @ '':'' @ w2 @ t @ w') @ CHR ''}'' # r)"
    "jerror p = JOk" "distinct (map fst (ns @ [(k, x)]))" "members_memory [(k, x)] \<le> free_size (pool p)"
  then have "todo p = quote_char # kt @ quote_char # w1 @ CHR '':'' # w2 @ t @ w' @ CHR ''}'' # r"
    using assms(3) by (simp add: dropWhile_white white_space_def)
  moreover have "k \<notin> fst ` set ns" "slot_size + memoryUsage x + (length k + 1) \<le> free_size (pool p)"
    using p(3,4) by auto
  ultimately show "\<exists>q. objectLoop f ns p = Some (True, ns @ [(k, x)], q) \<and> todo q = r \<and> jerror q = JOk \<and>
      free_size (pool p) \<le> free_size (pool q) + members_memory [(k, x)]"
    using objectLoop_value [OF assms(1,2,4,5,6) _ _ _ p(2), of "CHR ''}''" r "[]" ns] by simp
qed

lemma members_read_more:
  assumes "reads_back f t x" "string_body kt k" "white w" "white w1" "white w2" "white w'" "members_read f t' ms"
    "\<And>s. \<exists>u. dropWhile white_space (t' @ s) = quote_char # u"
  shows "members_read f (w @ quote_char # kt @ quote_char # w1 @ '':'' @ w2 @ t @ w' @ '','' @ t') ((k, x) # ms)"
  unfolding members_read_def
proof (intro allI impI)
  fix p r ns
  assume p: "todo p = dropWhile white_space
      ((w @ quote_char # kt @ quote_char # w1 @ '':'' @ w2 @ t @ w' @ '','' @ t') @ CHR ''}'' # r)"
    "jerror p = JOk" "distinct (map fst (ns @ (k, x) # ms))" "members_memory ((k, x) # ms) \<le> free_size (pool p)"
  then have t: "todo p = quote_char # kt @ quote_char # w1 @ CHR '':'' # w2 @ t @ w' @ CHR '','' # t' @ CHR ''}'' # r"
    using assms(3) by (simp add: dropWhile_white white_space_def)
  obtain u where u: "dropWhile white_space (t' @ CHR ''}'' # r) = quote_char # u" using assms(8) by blast
  from objectLoop_value [OF assms(1,2,4,5,6) t _ _ p(2), of u ns] u p(3,4)
  obtain q where q: "objectLoop f ns p = objectLoop f (ns @ [(k, x)]) q"
    "todo q = dropWhile white_space (t' @ CHR ''}'' # r)" "jerror q = JOk"
    "free_size (pool p) \<le> free_size (pool q) + (slot_size + memoryUsage x + (length k + 1))"
    by auto
  have "members_memory ms \<le> free_size (pool q)" using q(4) p(4) by simp
  moreover have "distinct (map fst ((ns @ [(k, x)]) @ ms))" using p(3) by simp
  ultimately obtain w where "objectLoop f (ns @ [(k, x)]) q = Some (True, (ns @ [(k, x)]) @ ms, w)" "todo w = r"
    "jerror w = JOk" "free_size (pool q) \<le> free_size (pool w) + members_memory ms"
    using assms(7) [unfolded members_read_def, rule_format, of q r "ns @ [(k, x)]"] q(2,3) by blast
  then show "\<exists>q. objectLoop f ns p = Some (True, ns @ (k, x) # ms, q) \<and> todo q = r \<and> jerror q = JOk \<and>
      free_size (pool p) \<le> free_size (pool q) + members_memory ((k, x) # ms)"
    using q(1,4) by (intro exI [of _ w]) simp
qed

lemma parseVariant_text:
  "value_text lib t j \<Longrightarrow> nesting j \<le> n \<Longrightarrow> valid_json j \<Longrightarrow> reads_back (parseVariant lib n) t j"
  "elements_of lib t xs \<Longrightarrow> elements_nesting xs \<le> n \<Longrightarrow> valid_elements xs \<Longrightarrow>
   elements_read (parseVariant lib n) t xs"
  "members_of lib t ms \<Longrightarrow> members_nesting ms \<le> n \<Longrightarrow> valid_members ms \<Longrightarrow>
   members_read (parseVariant lib n) t ms"
proof (induction arbitrary: n and n and n rule: value_text_elements_of_members_of.inducts)
  case (text_string t s)
  then show ?case by (intro reads_back_variant reads_back_string)
next
  case (text_number t j)
  then show ?case by (intro reads_back_variant reads_back_word word_text_number)
next
  case (text_array_empty w)
  then show ?case by (cases n) (simp_all add: reads_back_empty [of w, simplified])
next
  case (text_object_empty w)
  then show ?case by (cases n) (simp_all add: reads_back_empty [of w, simplified])
next
  case (text_array t xs)
  then show ?case using reads_back_array [OF _ elements_begin [of lib t xs]] by (cases n) simp_all
next
  case (text_object t ms)
  then obtain u where "dropWhile white_space t = quote_char # u" using members_begin by blast
  with text_object show ?case using reads_back_object [of _ t ms u] by (cases n) simp_all
next
  case (last_element w t x w')
  then show ?case by (intro elements_read_last) simp_all
next
  case (more_elements w t x w' t' xs)
  then show ?case by (intro elements_read_more) simp_all
next
  case (last_member w kt k w1 w2 t x w')
  then show ?case by (intro members_read_last) simp_all
next
  case (more_members w kt k w1 w2 t x w' t' ms)
  then show ?case using members_begin_append by (intro members_read_more) simp_all
qed (simp_all add: reads_back_variant reads_back_word word_text_const)

text \<open>
  A document: white space before the value; behind a number nothing may follow, behind
  any other value anything that cannot belong to it.
\<close>

lemma deserialize_text:
  assumes "value_text lib t j" "valid_json j" "nesting j \<le> DEFAULT_NESTING_LIMIT" "memoryUsage j \<le> capa" "white w"
    "r = '''' \<or> isEnclosed j \<and> stops r"
  shows "deserializeJson lib capa (w @ t @ r) = Some (JOk, j)"
proof -
  let ?p = "start_parser capa (w @ t @ r)"
  have p: "todo ?p = w @ t @ r" "jerror ?p = JOk" "free_size (pool ?p) = capa"
    by (simp_all add: start_parser_def todo_def memory_pool_def free_size_def)
  have "reads_text (parseVariant lib DEFAULT_NESTING_LIMIT JNull ?p) j ?p r"
    using assms p near_todo [OF p(1)]
    by (intro reads_backD [OF parseVariant_text(1)]) (auto simp: stops_def)
  then obtain q where q: "parseVariant lib DEFAULT_NESTING_LIMIT JNull ?p = Some (True, j, q)" "todo q = r" "jerror q = JOk"
    "isEnclosed j \<or> loaded q"
    by (auto simp: reads_text_def)
  then have "\<not> isEnclosed j \<Longrightarrow> held q = NUL" using assms(6) by (auto simp: todo_def split: if_splits)
  then show ?thesis using q by (auto simp: deserializeJson_def)
qed

text \<open>
  C9: Every text of the grammar \<open>value_text\<close> is read as the value it denotes, when no object of the value
  has a key twice, the value is at most fifty levels deep, and the document has the memory for it (24 bytes
  for every element and member, and every string and key with its NUL). The grammar has any white space,
  the two-character escape sequences, \<^verbatim>\<open>\uXXXX\<close> for every code unit but 0 and surrogates without their partner
  (a pair becomes one character of UTF-8), numbers and words of at most 63 characters. Behind a
  number nothing may follow, behind any other value anything that cannot belong to it.
\<close>

theorem grammar_is_read:
  assumes "value_text lib t j" "valid_json j" "nesting j \<le> DEFAULT_NESTING_LIMIT" "memoryUsage j \<le> capa"
    "white w" "r = '''' \<or> isEnclosed j \<and> stops r"
  shows "deserializeJson lib capa (w @ t @ r) = Some (JOk, j) \<and> deserialize lib capa (w @ t @ r) = j"
  using deserialize_text [OF assms] by (simp add: deserialize_def)

theorem grammar_is_read_witness:
  "\<forall>lib. deserializeJson lib 100 ('' [ '' @ quote_char # backslash # ''u00e6'' @ [quote_char] @ '' , true]'') =
     Some (JOk, JArray [JString [CHR 0xC3, CHR 0xA6], JBool True])"
proof
  fix lib
  have white: "white '' ''" "white ''''" by (simp_all add: white_def white_space_def)
  have hex: "hex4 ''00e6'' 0xE6" by (simp add: hex4_def digit_val_def)
  have "string_body (backslash # CHR ''u'' # ''00e6'' @ '''') (utf8 (unat (0xE6 :: u16)) @ '''')"
    by (rule body_unicode [OF hex _ _ _ body_end]) (simp_all add: isHighSurrogate_def isLowSurrogate_def)
  moreover have "utf8 (unat (0xE6 :: u16)) = [CHR 0xC3, CHR 0xA6]" by code_simp
  ultimately have "string_body (backslash # CHR ''u'' # ''00e6'') [CHR 0xC3, CHR 0xA6]" by simp
  from text_string [OF this]
  have s: "value_text lib (quote_char # backslash # ''u00e6'' @ [quote_char]) (JString [CHR 0xC3, CHR 0xA6])"
    by simp
  from more_elements [OF white(1) s white(1) last_element [OF white(1) text_true white(2)]]
  have "value_text lib (''['' @ ('' '' @ (quote_char # backslash # ''u00e6'' @ [quote_char]) @ '' '' @ '','' @ '' '' @ ''true'' @ '''') @ '']'')
      (JArray [JString [CHR 0xC3, CHR 0xA6], JBool True])"
    by (rule text_array)
  from grammar_is_read [OF this _ _ _ white(1), of 100 "''''"]
  show "deserializeJson lib 100 ('' [ '' @ quote_char # backslash # ''u00e6'' @ [quote_char] @ '' , true]'') =
     Some (JOk, JArray [JString [CHR 0xC3, CHR 0xA6], JBool True])"
    by (simp add: DEFAULT_NESTING_LIMIT_def slot_size_eq)
qed

subsection \<open>Too deep\<close>

fun arrays :: "nat \<Rightarrow> json" where
  "arrays 0 = JArray []"
| "arrays (Suc n) = JArray [arrays n]"

lemma parseVariant_deep:
  "todo p = replicate (Suc n) CHR ''['' @ r \<Longrightarrow> slot_size * n \<le> free_size (pool p) \<Longrightarrow>
   \<exists>q. parseVariant lib n JNull p = Some (False, arrays n, q) \<and> jerror q = TooDeep"
proof (induction n arbitrary: p)
  case 0
  then have "near p (CHR ''['' # r)" using near_refl [of p] by simp
  then show ?case using parse_value_open [of p "CHR ''[''" r lib None JNull]
    by (auto simp: parseArray_def fail_def)
next
  case (Suc n)
  let ?s = "replicate n CHR ''['' @ r" and ?f = "parseVariant lib n"
  have "near p (CHR ''['' # CHR ''['' # ?s)" using near_refl [of p] Suc.prems(1) by simp
  then obtain q where q: "parse_value lib (Some ?f) JNull p = parseArray (Some ?f) q"
    "todo (move (load q)) = CHR ''['' # ?s" "pool q = pool p"
    using parse_value_open [of p "CHR ''[''" "CHR ''['' # ?s" lib "Some ?f" JNull] by auto
  let ?u = "(move (load q))\<lparr>rest := ?s, held := CHR ''['', loaded := True, found := True\<rparr>"
  have s: "skipSpacesAndComments (move (load q)) = (True, ?u)"
    using q(2) by (intro skip_todo) (simp_all add: white_space_def)
  have t: "todo ?u = CHR ''['' # ?s" by (simp add: todo_def)
  have e: "eat CHR '']'' ?u = (False, ?u)" using eat_todo(2) [OF t, of "CHR '']''"] by simp
  have "slot_size \<le> free_size (pool ?u)" using Suc.prems(2) q(3) by simp
  from addSlot_room [OF this] obtain w where w: "addSlot ?u = (True, w)" "todo w = todo ?u"
    "free_size (pool w) = free_size (pool ?u) - slot_size"
    by blast
  have "\<exists>x. ?f JNull w = Some (False, arrays n, x) \<and> jerror x = TooDeep"
    by (rule Suc.IH) (use w t q(3) Suc.prems(2) in simp_all)
  then obtain x where "?f JNull w = Some (False, arrays n, x)" "jerror x = TooDeep" by blast
  then show ?case using q(1) s e w(1) by (simp add: parseArray_def arrayLoop.simps [of ?f "[]" ?u])
qed

text \<open>
  C26: Arrays nested deeper than fifty levels are refused, whatever follows, when the document has the memory
  for fifty slots: the error is \<open>TooDeep\<close>, so the depth of the recursion does not depend on the text, and
  the document holds the 51 arrays that were opened.
\<close>

theorem deep_is_refused:
  assumes "DEFAULT_NESTING_LIMIT < n" "slot_size * DEFAULT_NESTING_LIMIT \<le> capa"
  shows "deserializeJson lib capa (replicate n CHR ''['' @ r) = Some (TooDeep, arrays DEFAULT_NESTING_LIMIT)"
proof -
  let ?L = DEFAULT_NESTING_LIMIT and ?p = "start_parser capa (replicate n CHR ''['' @ r)"
  have "replicate n CHR ''['' = replicate (Suc ?L) CHR ''['' @ replicate (n - Suc ?L) CHR ''[''"
    using assms(1) by (simp only: replicate_add [symmetric] le_add_diff_inverse Suc_le_eq)
  then have "todo ?p = replicate (Suc ?L) CHR ''['' @ replicate (n - Suc ?L) CHR ''['' @ r"
    by (simp add: start_parser_def todo_def)
  moreover have "slot_size * ?L \<le> free_size (pool ?p)"
    using assms(2) by (simp add: start_parser_def memory_pool_def free_size_def)
  ultimately obtain q where "parseVariant lib ?L JNull ?p = Some (False, arrays ?L, q)" "jerror q = TooDeep"
    using parseVariant_deep by blast
  then show ?thesis by (simp add: deserializeJson_def)
qed

theorem deep_is_refused_witness:
  "\<forall>lib. deserializeJson lib 1200 (replicate 51 CHR ''['' @ ''x'') = Some (TooDeep, arrays 50)"
  using deep_is_refused [of 51 1200 _ "''x''"] by (simp add: DEFAULT_NESTING_LIMIT_def slot_size_eq)

end
