(* ===== verification/Json_Roundtrip.thy ===== *)
theory Json_Roundtrip
  imports Json_Reading
begin

section \<open>What is printed is read back\<close>

text \<open>
  The text that \<open>serialize\<close> writes for a value without floating-point numbers is a text of the grammar
  for that value, so the parser reads the value back. The text of a floating-point number is its decimal
  approximation and not covered.
\<close>

fun float_free :: "json \<Rightarrow> bool"
  and elements_float_free :: "json list \<Rightarrow> bool"
  and members_float_free :: "(string \<times> json) list \<Rightarrow> bool"
where
  "float_free (JFloat x) = False"
| "float_free (JArray xs) = elements_float_free xs"
| "float_free (JObject ms) = members_float_free ms"
| "float_free _ = True"
| "elements_float_free [] = True"
| "elements_float_free (x # xs) = (float_free x \<and> elements_float_free xs)"
| "members_float_free [] = True"
| "members_float_free ((k, x) # ms) = (float_free x \<and> members_float_free ms)"

lemma printed_body: "NUL \<notin> set s \<Longrightarrow> string_body (concat (map writeChar s)) s"
proof (induction s)
  case (Cons c s)
  then show ?case
  proof (cases "escapeChar c = NUL")
    case True
    then show ?thesis using Cons escapeChar_plain [of c]
      by (auto simp: writeChar_def intro!: string_body.body_char)
  next
    case False
    then show ?thesis using Cons unescape_escape [of c]
      by (auto simp: writeChar_def intro!: string_body.body_escape)
  qed
qed (simp add: string_body.body_end)

lemma isdigit_canBe: "isdigit c \<Longrightarrow> canBeInNonQuotedString c"
  by (simp add: isdigit_def canBeInNonQuotedString_def isBetween_def)

lemma printed_number:
  "number_text lib (writePositiveInteger (unat n)) (JPos n)"
  "number_text lib (writeNegativeInteger (unat n)) (JNeg n)"
proof -
  let ?s = "writePositiveInteger (unat n)"
  have s: "list_all isdigit ?s" "?s \<noteq> ''''" "digits_value 0 ?s = unat n" "length ?s \<le> 20"
    by (simp_all only: writePositiveInteger_digits writePositiveInteger_length not_False_eq_True)
  have c: "list_all canBeInNonQuotedString ?s" using s(1) isdigit_canBe by (simp add: list_all_iff)
  have d: "isdigit (hd ?s)" using s(1,2) by (cases ?s) auto
  have "unat n < 2 ^ LENGTH(64)" by (rule unsigned_less)
  then have "unat n \<le> maxUint" by (simp add: maxUint_def)
  then have p: "parseNumber lib ?s = Some (JPos n)" "parseNumber lib (CHR ''-'' # ?s) = Some (JNeg n)"
    using parseNumber_digits [OF s(1,2), of lib] s(3) by simp_all
  show "number_text lib ?s (JPos n)" using c s(2,4) p(1) d by (simp add: number_text_def)
  show "number_text lib (writeNegativeInteger (unat n)) (JNeg n)"
    using c s(4) p(2) by (simp add: number_text_def writeNegativeInteger_def canBeInNonQuotedString_def isBetween_def)
qed

lemma white_Nil [simp]: "white ''''"
  by (simp add: white_def)

lemma printed_text:
  "valid_json j \<Longrightarrow> float_free j \<Longrightarrow> value_text lib (serialize lib j) j"
  "valid_elements xs \<Longrightarrow> elements_float_free xs \<Longrightarrow> xs \<noteq> [] \<Longrightarrow> elements_of lib (elements_text lib xs) xs"
  "valid_members ms \<Longrightarrow> members_float_free ms \<Longrightarrow> ms \<noteq> [] \<Longrightarrow> members_of lib (members_text lib ms) ms"
proof (induction lib j and lib xs and lib ms rule: serialize_elements_text_members_text.induct)
  case (2 lib b)
  then show ?case by (cases b) (simp_all add: writeBoolean_def text_true text_false)
next
  case (6 lib s)
  then show ?case using text_string [OF printed_body] by (simp add: writeString_def)
next
  case (7 lib xs)
  then show ?case using text_array_empty [of "''''" lib] by (cases "xs = []") (auto intro: text_array [simplified])
next
  case (8 lib ms)
  then show ?case using text_object_empty [of "''''" lib] by (cases "ms = []") (auto intro: text_object [simplified])
next
  case (10 lib x xs)
  then show ?case
    using last_element [of "''''" lib "serialize lib x" x "''''"]
      more_elements [of "''''" lib "serialize lib x" x "''''" "elements_text lib xs" xs]
    by (cases "xs = []") simp_all
next
  case (12 lib k x ms)
  then have k: "string_body (concat (map writeChar k)) k" by (simp add: printed_body)
  show ?case
    using 12 last_member [of "''''", OF _ k, of "''''" "''''" lib "serialize lib x" x "''''"]
      more_members [of "''''", OF _ k, of "''''" "''''" lib "serialize lib x" x "''''" "members_text lib ms" ms]
    by (cases "ms = []") (simp_all add: writeString_def)
qed (simp_all add: text_null text_number printed_number)

lemma deserialize_serialize:
  assumes "valid_json j" "float_free j" "nesting j \<le> DEFAULT_NESTING_LIMIT" "memoryUsage j \<le> capa"
  shows "deserializeJson lib capa (serialize lib j) = Some (JOk, j)"
  using deserialize_text [OF printed_text(1), of j capa "''''" "''''"] assms by simp

text \<open>
  C23: What \<open>serialize\<close> writes for a value without floating-point numbers is read back as that value, when no
  object of the value has a key twice and no string a NUL, the value is at most fifty levels deep, and the
  document has the memory that the value needs (24 bytes for every element and member, and every string and
  key with its NUL).
\<close>

theorem printed_is_read:
  assumes "valid_json j" "float_free j" "nesting j \<le> DEFAULT_NESTING_LIMIT" "memoryUsage j \<le> capa"
  shows "deserializeJson lib capa (serialize lib j) = Some (JOk, j)"
  by (rule deserialize_serialize [OF assms])

theorem printed_is_read_witness:
  "\<forall>lib. deserializeJson lib 120 (serialize lib (JObject [(''on'', JBool True), (''bri'', JArray [JNeg 4, JString [quote_char]])])) =
     Some (JOk, JObject [(''on'', JBool True), (''bri'', JArray [JNeg 4, JString [quote_char]])])"
proof
  fix lib
  let ?j = "JObject [(''on'', JBool True), (''bri'', JArray [JNeg 4, JString [quote_char]])]"
  have "valid_json ?j" "float_free ?j" "nesting ?j \<le> DEFAULT_NESTING_LIMIT" "memoryUsage ?j \<le> 120"
    by (simp_all add: DEFAULT_NESTING_LIMIT_def slot_size_eq)
  then show "deserializeJson lib 120 (serialize lib ?j) = Some (JOk, ?j)" by (rule printed_is_read)
qed

end
