(* ===== verification/Json_Answers.thy ===== *)
theory Json_Answers
  imports Bridge Json_Roundtrip
begin

section \<open>The answers of the bridge as texts\<close>

text \<open>
  The bridge client together with the parser: the text of an answer goes in, the state of the device
  comes out. An answer is any text of the grammar, in any order of members and with any white space.
  The credentials of the device are followed from the registration at the bridge into the database and
  back; the bounds say how much of an answer a document of the client can hold.
\<close>

subsection \<open>Answers\<close>

text \<open>A value that a document of the given capacity holds, and an answer that is a text of the value.\<close>

definition fits :: "nat \<Rightarrow> json \<Rightarrow> bool" where
  "fits capa j \<longleftrightarrow> valid_json j \<and> nesting j \<le> DEFAULT_NESTING_LIMIT \<and> memoryUsage j \<le> capa"

definition answered :: "env \<Rightarrow> event list \<Rightarrow> json \<Rightarrow> bool" where
  "answered E es j \<longleftrightarrow> (\<exists>status w t r. env_http E es = (status, w @ t @ r) \<and> 0 < status \<and>
     white w \<and> value_text (env_lib E) t j \<and> (r = '''' \<or> isEnclosed j \<and> stops r))"

lemma answered_doc:
  assumes "answered E es j" "fits capa j"
  shows "\<exists>status payload. env_http E es = (status, payload) \<and> 0 < status \<and> deserialize (env_lib E) capa payload = j"
proof -
  obtain status w t r where a: "env_http E es = (status, w @ t @ r)" "0 < status" "white w"
    "value_text (env_lib E) t j" "r = '''' \<or> isEnclosed j \<and> stops r"
    using assms(1) by (auto simp: answered_def)
  have "deserializeJson (env_lib E) capa (w @ t @ r) = Some (JOk, j)"
    by (rule deserialize_text) (use a assms(2) in \<open>auto simp: fits_def\<close>)
  then show ?thesis using a by (simp add: deserialize_def)
qed

lemma answered_parse_doc: "answered E es j \<Longrightarrow> fits 14000 j \<Longrightarrow> parse_doc E (snd (env_http E es)) = j"
  using answered_doc by (fastforce simp: parse_doc_def)

subsection \<open>Registration\<close>

definition register_request :: "dev \<Rightarrow> event" where
  "register_request d = Http POST (hueBridgeIP d @ ''/api'') (register_body ''Simon'')"

lemma registerApp_answer:
  assumes "answered E (out d @ [register_request d]) (JArray [JObject ms])" "fits 200 (JArray [JObject ms])"
  shows "registerApp E ''Simon'' (hueBridgeIP d) d =
    (let s = member (JObject ms) ''success''
     in d\<lparr>out := out d @ [register_request d], userId := as_string (env_lib E) (member s ''username''),
          clientKey := as_string (env_lib E) (member s ''clientkey'')\<rparr>)"
  using answered_doc [OF assms]
  by (auto simp: registerApp_def http_request_def emit_def register_request_def Let_def element_def)

text \<open>The database: always there, and a read gives what was written last.\<close>

fun stored :: "string \<Rightarrow> event list \<Rightarrow> fb_value option" where
  "stored path [] = None"
| "stored path (FbSet p v # es) =
     (case stored path es of Some w \<Rightarrow> Some w | None \<Rightarrow> if p = path then Some v else None)"
| "stored path (_ # es) = stored path es"

lemma stored_append:
  "stored path (es @ fs) = (case stored path fs of Some v \<Rightarrow> Some v | None \<Rightarrow> stored path es)"
  by (induction path es rule: stored.induct) (auto split: option.splits)

definition database :: "env \<Rightarrow> nat \<Rightarrow> bool" where
  "database E w \<longleftrightarrow> (\<forall>es. env_fb_ready E es = Some w \<and> env_fb_now E es \<and>
     (\<forall>path. env_fb_get E (es @ [FbGet path]) = stored path es))"

lemma database_answer: "database E w \<Longrightarrow> env_fb_get E (es @ [FbGet path]) = stored path es"
  by (simp add: database_def)

text \<open>What is asked for before the decision, and what is stored after a registration.\<close>

definition ask_id :: "nat \<Rightarrow> event list" where
  "ask_id w = [FbWait w, FbGet (config_path ''UserId'')]"

definition store_ids :: "string \<Rightarrow> string \<Rightarrow> event list" where
  "store_ids u k = [FbSet (config_path ''UserId'') (FbString u), FbSet (config_path ''ClientKey'') (FbString k)]"

definition no_id :: "event list \<Rightarrow> bool" where
  "no_id es \<longleftrightarrow> stored (config_path ''UserId'') es \<in> {None, Some (FbString ''null''), Some (FbString '''')}"

lemma config_paths: "config_path ''UserId'' \<noteq> config_path ''ClientKey''"
  by (simp add: config_path_def)

lemma getUserId_database:
  assumes "database E w" "fbdo d"
  shows "getUserId E d = Inr (case stored (config_path ''UserId'') (out d) of
      Some (FbString s) \<Rightarrow> if s = ''null'' \<or> s = '''' then None else Some s | _ \<Rightarrow> None,
    d\<lparr>out := out d @ ask_id w\<rparr>)"
  using database_answer [OF assms(1), of "out d @ [FbWait w]"] assms
  by (simp add: getUserId_def wait_ready_def database_def fb_is_ready_def fb_get_def need_fbdo_def emit_def
      Let_def ask_id_def stored_append del: append_assoc)

lemma getNewIds_registers:
  assumes "database E w" "fbdo d" "no_id (out d)"
  shows "getNewIds E d = (let r = registerApp E ''Simon'' (hueBridgeIP d) (d\<lparr>out := out d @ ask_id w\<rparr>)
    in Inr (r\<lparr>out := out r @ store_ids (userId r) (clientKey r)\<rparr>))"
proof -
  have u: "getUserId E d = Inr (None, d\<lparr>out := out d @ ask_id w\<rparr>)"
    using getUserId_database [OF assms(1,2)] assms(3) by (auto simp: no_id_def)
  have "fbdo (registerApp E ''Simon'' (hueBridgeIP d) (d\<lparr>out := out d @ ask_id w\<rparr>))"
    using assms(2) by (simp add: registerApp_def http_request_def emit_def Let_def split: prod.split)
  then show ?thesis using assms(1)
    by (simp add: getNewIds_def u Let_def setUserId_def setClientKey_def fb_is_ready_def database_def fb_set_def
        need_fbdo_def emit_def store_ids_def)
qed

lemma getNewIds_known:
  assumes "database E w" "fbdo d" "stored (config_path ''UserId'') (out d) = Some (FbString u)"
    "stored (config_path ''ClientKey'') (out d) = Some (FbString k)" "u \<notin> {''null'', ''''}" "k \<noteq> ''null''"
  shows "getNewIds E d = Inr (d\<lparr>out := out d @ ask_id w @ [FbGet (config_path ''ClientKey'')],
    userId := u, clientKey := k\<rparr>)"
proof -
  have u: "getUserId E d = Inr (Some u, d\<lparr>out := out d @ ask_id w\<rparr>)"
    using getUserId_database [OF assms(1,2)] assms(3,5) by simp
  have "stored (config_path ''ClientKey'') (out d @ ask_id w) = Some (FbString k)"
    using assms(4) by (simp add: stored_append ask_id_def)
  then have "getClientKey E (d\<lparr>out := out d @ ask_id w, userId := u\<rparr>) = Inr (Some k,
      d\<lparr>out := (out d @ ask_id w) @ [FbGet (config_path ''ClientKey'')], userId := u\<rparr>)"
    using assms(1,2,6) database_answer [OF assms(1), of "out d @ ask_id w" "config_path ''ClientKey''"]
    by (simp add: getClientKey_def fb_is_ready_def database_def fb_get_def need_fbdo_def emit_def Let_def del: append_assoc)
  then show ?thesis by (simp add: getNewIds_def u)
qed

text \<open>
  C10: A device without stored credentials registers at the bridge. When the bridge accepts, with
  whatever text of the answer, the device uses the user name and the client key of the answer, and stores
  both. From then on no start registers again: with this history every later \<open>getNewIds\<close>, whatever else
  the state of the device is, only reads the two values, and uses them.
\<close>

theorem registered_once:
  assumes "database E w" "fbdo d" "no_id (out d)"
    "answered E (out d @ ask_id w @ [register_request d]) (JArray [JObject [(''success'', JObject ms)]])"
    "fits 200 (JArray [JObject [(''success'', JObject ms)]])"
    "map_of ms ''username'' = Some (JString u)" "map_of ms ''clientkey'' = Some (JString k)"
    "u \<notin> {''null'', ''''}" "k \<noteq> ''null''"
  shows "\<exists>e. getNewIds E d = Inr e \<and>
    e = d\<lparr>userId := u, clientKey := k, out := out d @ ask_id w @ [register_request d] @ store_ids u k\<rparr> \<and>
    (\<forall>f. fbdo f \<and> out f = out e \<longrightarrow>
       getNewIds E f = Inr (f\<lparr>out := out f @ ask_id w @ [FbGet (config_path ''ClientKey'')], userId := u, clientKey := k\<rparr>))"
proof -
  let ?d = "d\<lparr>out := out d @ ask_id w\<rparr>"
  let ?e = "d\<lparr>userId := u, clientKey := k, out := out d @ ask_id w @ [register_request d] @ store_ids u k\<rparr>"
  have req: "register_request ?d = register_request d" by (simp add: register_request_def)
  have "registerApp E ''Simon'' (hueBridgeIP ?d) ?d =
      ?d\<lparr>out := out ?d @ [register_request d], userId := u, clientKey := k\<rparr>"
    using registerApp_answer [of E ?d "[(''success'', JObject ms)]"] assms(4-7) req
    by (simp add: member_def as_string_def)
  then have "getNewIds E d = Inr ?e" by (simp add: getNewIds_registers [OF assms(1-3)])
  moreover have "getNewIds E f =
      Inr (f\<lparr>out := out f @ ask_id w @ [FbGet (config_path ''ClientKey'')], userId := u, clientKey := k\<rparr>)"
    if "fbdo f" "out f = out ?e" for f
    by (rule getNewIds_known [OF assms(1)])
      (use that assms(8,9) config_paths in \<open>auto simp: stored_append store_ids_def register_request_def\<close>)
  ultimately show ?thesis by blast
qed

lemma member_no_object: "as_object j = [] \<Longrightarrow> member j k = JNull"
  by (cases j) (simp_all add: as_object_def member_def)

text \<open>
  C12: When the first element of what the document of 200 bytes holds has no \<open>success\<close> object with members
  (the bridge refuses because its button was not pressed, or the answer is empty, is no JSON,
  is another value, or does not fit), a request that was answered makes the user name and the client key of the
  device the text \<^verbatim>\<open>null\<close>, which is stored in the database as well, over the credentials that the device was
  built with. The next \<open>getNewIds\<close> takes the stored text for no value and sends the registration again.
\<close>

theorem refused_asks_again:
  assumes "database E w" "fbdo d" "no_id (out d)"
    "env_http E (out d @ ask_id w @ [register_request d]) = (status, payload)" "0 < status"
    "as_object (member (element (deserialize (env_lib E) 200 payload) 0) ''success'') = []"
  shows "\<exists>e. getNewIds E d = Inr e \<and>
    e = d\<lparr>userId := ''null'', clientKey := ''null'',
          out := out d @ ask_id w @ [register_request d] @ store_ids ''null'' ''null''\<rparr> \<and>
    (\<forall>f. fbdo f \<and> out f = out e \<longrightarrow> (\<exists>g es. getNewIds E f = Inr g \<and>
       out g = out f @ ask_id w @ [register_request f] @ es))"
proof -
  let ?d = "d\<lparr>out := out d @ ask_id w\<rparr>"
  let ?e = "d\<lparr>userId := ''null'', clientKey := ''null'',
      out := out d @ ask_id w @ [register_request d] @ store_ids ''null'' ''null''\<rparr>"
  have "registerApp E ''Simon'' (hueBridgeIP ?d) ?d =
      ?d\<lparr>out := out ?d @ [register_request d], userId := ''null'', clientKey := ''null''\<rparr>"
    using assms(4,5) member_no_object [OF assms(6)]
    by (simp add: registerApp_def http_request_def emit_def register_request_def Let_def as_string_def)
  then have "getNewIds E d = Inr ?e" by (simp add: getNewIds_registers [OF assms(1-3)])
  moreover have "\<exists>g es. getNewIds E f = Inr g \<and> out g = out f @ ask_id w @ [register_request f] @ es"
    if f: "fbdo f" "out f = out ?e" for f
  proof -
    have "no_id (out f)" using f(2) config_paths
      by (simp add: no_id_def stored_append store_ids_def register_request_def)
    moreover have "out (registerApp E ''Simon'' (hueBridgeIP f) (f\<lparr>out := out f @ ask_id w\<rparr>)) =
        out f @ ask_id w @ [register_request f]"
      by (simp add: registerApp_def http_request_def emit_def register_request_def Let_def split: prod.split)
    ultimately show ?thesis by (simp add: getNewIds_registers [OF assms(1) f(1)] Let_def)
  qed
  ultimately show ?thesis by blast
qed

text \<open>Answers of this kind: nothing, an array without elements, an object, an array that starts with an error.\<close>

lemma refusals:
  "as_object (member (element (deserialize lib 200 '''') 0) ''success'') = []"
  "value_text lib t j \<Longrightarrow> fits 200 j \<Longrightarrow> j \<in> {JArray [], JObject ms} \<or>
     (\<exists>ns xs. j = JArray (JObject ns # xs) \<and> map_of ns ''success'' = None) \<Longrightarrow>
   as_object (member (element (deserialize lib 200 t) 0) ''success'') = []"
proof -
  show "as_object (member (element (deserialize lib 200 '''') 0) ''success'') = []"
    by (simp add: deserialize_empty element_def member_def as_object_def)
  assume t: "value_text lib t j" "fits 200 j" "j \<in> {JArray [], JObject ms} \<or>
     (\<exists>ns xs. j = JArray (JObject ns # xs) \<and> map_of ns ''success'' = None)"
  have "deserializeJson lib 200 ('''' @ t @ '''') = Some (JOk, j)"
    by (rule deserialize_text) (use t(1,2) in \<open>simp_all add: fits_def\<close>)
  then show "as_object (member (element (deserialize lib 200 t) 0) ''success'') = []"
    using t(3) by (auto simp: deserialize_def element_def member_def as_object_def)
qed

subsection \<open>Groups\<close>

text \<open>What an answer says of a group, among other members and in any order.\<close>

record group_facts =
  g_number :: nat
  g_name :: string
  g_on :: bool
  g_level :: nat
  g_lamps :: "nat list"

definition states_group :: "group_facts \<Rightarrow> string \<times> json \<Rightarrow> bool" where
  "states_group g m \<longleftrightarrow> (\<exists>js ks. m = (String_uint (g_number g), JObject js) \<and>
     map_of js ''name'' = Some (JString (g_name g)) \<and>
     map_of js ''lights'' = Some (JArray (map (\<lambda>n. JString (String_uint n)) (g_lamps g))) \<and>
     map_of js ''action'' = Some (JObject ks) \<and>
     map_of ks ''on'' = Some (JBool (g_on g)) \<and> map_of ks ''bri'' = Some (JPos (of_nat (g_level g)))) \<and>
   g_number g < 256 \<and> g_level g < 256 \<and> (\<forall>n \<in> set (g_lamps g). n < 256)"

text \<open>The text of a number has no zero in front, so the automatic base of \<open>strtol\<close> is ten.\<close>

lemma last_digit: "0 < n \<Longrightarrow> last (digits_loop 10 n cs) \<noteq> CHR ''0''"
proof (induction "10 :: nat" n cs rule: digits_loop.induct)
  case (1 n cs)
  have d: "\<forall>d \<in> set [1..<10]. digit_chars ! d \<noteq> CHR ''0''" by code_simp
  show ?case
  proof (cases "n div 10 = 0")
    case True
    then have "n \<in> set [1..<10]" using "1.prems" by auto
    then have "digit_chars ! n \<noteq> CHR ''0''" using d by blast
    then show ?thesis using True by (simp add: digits_loop.simps [of 10 n] Let_def)
  next
    case False
    then show ?thesis using "1.hyps" by (simp add: digits_loop.simps [of 10 n] Let_def)
  qed
qed

lemma strtol_String_uint: "strtol (String_uint n) 0 = min (2 ^ 31 - 1) (int n)"
proof (cases "n = 0")
  case True
  moreover have "strtol (String_uint 0) 0 = 0" by code_simp
  ultimately show ?thesis by simp
next
  case False
  obtain c cs where c: "String_uint n = c # cs" "c \<in> set ''0123456789''"
    using ultoa_10_digits [of n] by (cases "String_uint n") auto
  have "digits_loop 10 n '''' \<noteq> ''''" using digits_loop_spec [of 10 n "''''"] by auto
  then have "hd (String_uint n) = last (digits_loop 10 n '''')"
    by (simp add: String_uint_def ultoa_def reverse_buf_eq_rev hd_rev)
  then have z: "c \<noteq> CHR ''0''" using last_digit [of n "''''"] False c(1) by simp
  then have "\<not> is_hex_prefix (c # cs)" by (cases "(c # cs)" rule: is_hex_prefix.cases) auto
  then show ?thesis using ultoa_10_digits [of n] not_space_digit [OF c(2)] z
    by (simp add: c(1) strtol_def Let_def strtol_magnitude_def)
qed

lemma id_of_number: "n < 256 \<Longrightarrow> id_of_key (String_uint n) = of_nat n"
  by (simp add: id_of_key_def strtol_String_uint)

lemma room_of_stated:
  assumes "states_group g m" "length (g_lamps g) \<le> length (rlightIds (junk_room E))"
  shows "rid (room_of_member E m) = of_nat (g_number g)" "rname (room_of_member E m) = g_name g"
    "ron (room_of_member E m) = (if g_on g then 1 else 0)" "bri (room_of_member E m) = int (g_level g)"
    "rlightCounter (room_of_member E m) = of_nat (length (g_lamps g))"
    "take (length (g_lamps g)) (rlightIds (room_of_member E m)) = map of_nat (g_lamps g)"
proof -
  obtain js ks where m: "m = (String_uint (g_number g), JObject js)" "map_of js ''name'' = Some (JString (g_name g))"
    "map_of js ''lights'' = Some (JArray (map (\<lambda>n. JString (String_uint n)) (g_lamps g)))"
    "map_of js ''action'' = Some (JObject ks)" "map_of ks ''on'' = Some (JBool (g_on g))"
    "map_of ks ''bri'' = Some (JPos (of_nat (g_level g)))" "g_number g < 256" "g_level g < 256"
    "\<forall>n \<in> set (g_lamps g). n < 256"
    using assms(1) unfolding states_group_def by blast
  let ?r = "room_of_member E m"
  have level: "uint (of_nat (g_level g) :: u64) = int (g_level g)"
    using m(8) by (simp add: unsigned_of_nat take_bit_nat_eq_self)
  show "rid ?r = of_nat (g_number g)" "rname ?r = g_name g" "ron ?r = (if g_on g then 1 else 0)"
    "rlightCounter ?r = of_nat (length (g_lamps g))"
    using m(1-5) id_of_number [OF m(7)]
    by (simp_all add: room_of_member_def member_def as_string_def as_bool_def as_array_def Let_def)
  show "bri ?r = int (g_level g)"
    using m(1,4,6,8) level
    by (simp add: room_of_member_def member_def as_i16_def as_integral_def number_in_def Let_def)
  have "take (length (g_lamps g)) (rlightIds ?r) =
      map (as_u8 (env_lib E)) (map (\<lambda>n. JString (String_uint n)) (g_lamps g))"
    using m(1,3) assms(2) by (simp add: room_of_member_def member_def as_array_def copyArray_def fresh_room_def Let_def)
  also have "\<dots> = map of_nat (g_lamps g)" using m(9) by (simp add: as_u8_String_uint)
  finally show "take (length (g_lamps g)) (rlightIds ?r) = map of_nat (g_lamps g)" .
qed

text \<open>
  C24: \<open>getGroups\<close> on a text: when the answer describes groups, fits the document of 14000 bytes and the array
  of rooms, and no group has more lamps than a room can hold, the rooms are those groups in the order of the
  text, each with its number, name, switch, brightness and lamps (the texts of the numbers become numbers). The
  places of the array behind them keep their rooms, the counter is one less than the number of groups, and
  nothing else changes.
\<close>

theorem groups_of_text:
  assumes "answered E (out d @ [Http GET (api_base d @ ''/groups'') '''']) (JObject ms)" "fits 14000 (JObject ms)"
    "length ms \<le> length (rooms d)" "list_all2 states_group gs ms"
    "\<forall>g \<in> set gs. length (g_lamps g) \<le> length (rlightIds (junk_room E))"
  shows "\<exists>rs. getGroups E d = Inr (d\<lparr>out := out d @ [Http GET (api_base d @ ''/groups'') ''''],
      rooms := rs @ drop (length gs) (rooms d),
      roomsCount := of_nat (length gs) - 1, roomPagination := (of_nat (length gs) - 1 > (4 :: u8))\<rparr>) \<and>
    length rs = length gs \<and>
    (\<forall>i < length gs. rid (rs ! i) = of_nat (g_number (gs ! i)) \<and> rname (rs ! i) = g_name (gs ! i) \<and>
       ron (rs ! i) = (if g_on (gs ! i) then 1 else 0) \<and> bri (rs ! i) = int (g_level (gs ! i)) \<and>
       rlightCounter (rs ! i) = of_nat (length (g_lamps (gs ! i))) \<and>
       take (length (g_lamps (gs ! i))) (rlightIds (rs ! i)) = map of_nat (g_lamps (gs ! i)))"
proof (intro exI [of _ "map (room_of_member E) ms"] conjI allI impI)
  have len: "length ms = length gs" using list_all2_lengthD [OF assms(4)] by simp
  show "getGroups E d = Inr (d\<lparr>out := out d @ [Http GET (api_base d @ ''/groups'') ''''],
      rooms := map (room_of_member E) ms @ drop (length gs) (rooms d),
      roomsCount := of_nat (length gs) - 1, roomPagination := (of_nat (length gs) - 1 > (4 :: u8))\<rparr>)"
    using answered_parse_doc [OF assms(1,2)] assms(3) len
    by (simp add: getGroups_def getGroups_raw_def get_request_pair store_members_spec as_object_def Let_def)
  show "length (map (room_of_member E) ms) = length gs" using len by simp
  fix i assume i: "i < length gs"
  have "states_group (gs ! i) (ms ! i)" "length (g_lamps (gs ! i)) \<le> length (rlightIds (junk_room E))"
    using assms(4,5) i by (simp_all add: list_all2_nthD)
  note room = room_of_stated [OF this]
  have n: "map (room_of_member E) ms ! i = room_of_member E (ms ! i)" using i len by simp
  show "rid (map (room_of_member E) ms ! i) = of_nat (g_number (gs ! i))"
    "rname (map (room_of_member E) ms ! i) = g_name (gs ! i)"
    "ron (map (room_of_member E) ms ! i) = (if g_on (gs ! i) then 1 else 0)"
    "bri (map (room_of_member E) ms ! i) = int (g_level (gs ! i))"
    "rlightCounter (map (room_of_member E) ms ! i) = of_nat (length (g_lamps (gs ! i)))"
    "take (length (g_lamps (gs ! i))) (rlightIds (map (room_of_member E) ms ! i)) = map of_nat (g_lamps (gs ! i))"
    unfolding n by (rule room)+
qed

subsection \<open>How much of an answer fits\<close>

text \<open>The description of one lamp, as in the recorded answers.\<close>

definition recorded_lamp :: "json_lib \<Rightarrow> json" where
  "recorded_lamp lib =
   JObject
     [(''state'', JObject
       [(''on'', JBool False),
        (''bri'', JPos 1),
        (''hue'', JPos 33761),
        (''sat'', JPos 254),
        (''effect'', JString ''none''),
        (''xy'', JArray [JFloat (make_float lib 3171 (- 4)), JFloat (make_float lib 3366 (- 4))]),
        (''ct'', JPos 159),
        (''alert'', JString ''none''),
        (''colormode'', JString ''xy''),
        (''mode'', JString ''homeautomation''),
        (''reachable'', JBool True)]),
      (''swupdate'', JObject
       [(''state'', JString ''noupdates''),
        (''lastinstall'', JString ''2018-01-02T19:24:20'')]),
      (''type'', JString ''Extended color light''),
      (''name'', JString ''id: 1''),
      (''modelid'', JString ''LCT007''),
      (''manufacturername'', JString ''Philips''),
      (''productname'', JString ''Hue color lamp''),
      (''capabilities'', JObject
       [(''certified'', JBool True),
        (''control'', JObject
         [(''mindimlevel'', JPos 5000),
          (''maxlumen'', JPos 600),
          (''colorgamuttype'', JString ''B''),
          (''colorgamut'', JArray [JArray [JFloat (make_float lib 675 (- 3)), JFloat (make_float lib 322 (- 3))],
            JArray [JFloat (make_float lib 409 (- 3)), JFloat (make_float lib 518 (- 3))],
            JArray [JFloat (make_float lib 167 (- 3)), JFloat (make_float lib 4 (- 2))]]),
          (''ct'', JObject
           [(''min'', JPos 153),
            (''max'', JPos 500)])]),
        (''streaming'', JObject
         [(''renderer'', JBool True),
          (''proxy'', JBool False)])]),
      (''config'', JObject
       [(''archetype'', JString ''sultanbulb''),
        (''function'', JString ''mixed''),
        (''direction'', JString ''omnidirectional'')]),
      (''uniqueid'', JString ''00:17:88:01:00:bd:c7:b9-0b''),
      (''swversion'', JString ''5.105.0.21169'')]"

lemma recorded_lamp_slots: "slots (recorded_lamp lib) = 50"
  by (simp add: recorded_lamp_def)

text \<open>
  What \<open>getLightState\<close> makes of this description: the hue is above 255 and the coordinates are below 1,
  so all three are 0; the other numbers fit.
\<close>

lemma recorded_lamp_read:
  "light_of_answer E i (recorded_lamp (env_lib E)) = (fresh_light E)\<lparr>lid := i, lname := ''id: 1'',
    lon := False, brightness := 1, lhue := 0, lsat := 254, leffect := ''none'', lalert := ''none'',
    colormode := ''xy'', lct := 159, lxy := (0, 0), onlyDimmable := False\<rparr>"
proof -
  have "as_u8 lib (JPos 33761) = 0" for lib by (rule as_u8_overflow) simp
  moreover have "as_u8 lib (JPos 254) = 254" "as_u8 lib (JPos 159) = 159" "as_u8 lib (JPos 1) = 1" for lib
    by (simp_all add: as_u8_small)
  moreover have "as_u8 lib (JFloat (make_float (env_lib E) 3171 (- 4))) = 0"
    "as_u8 lib (JFloat (make_float (env_lib E) 3366 (- 4))) = 0" for lib
    by (simp_all add: env_lib_def double_floats_def recorded_coordinates as_u8_fraction)
  ultimately show ?thesis
    by (simp add: light_of_answer_def recorded_lamp_def member_def element_def as_string_def as_bool_def Let_def)
qed

lemma members_slots_filter: "(n + 1) * length (filter (\<lambda>m. n \<le> slots (snd m)) ms) \<le> members_slots ms"
  by (induction ms) (auto simp: algebra_simps)

text \<open>
  C25: Whatever the bridge answers, the document of 14000 bytes that \<open>getLightIds\<close> reads holds at most 11
  lamps that are described as fully as the recorded ones, though the array has 50 places: an answer with twelve
  is never held whole. The error \<open>e\<close> of the parser is not looked at: exactly the lamps of the document become the
  list and the count of the device, and only a document with more lamps than the array has places is a fault.
\<close>

theorem lamps_that_fit:
  "let asked = out d @ [Http GET (api_base d @ ''/lights'') '''']
   in \<exists>e v. deserializeJson (env_lib E) 14000 (snd (env_http E asked)) = Some (e, v) \<and>
     length (filter (\<lambda>m. slots (recorded_lamp (env_lib E)) \<le> slots (snd m)) (as_object v)) \<le> 11 \<and>
     length (lightIds boot_state) = 50 \<and>
     getLightIds E d =
       (if length (as_object v) \<le> length (lightIds d)
        then Inr (d\<lparr>out := asked,
          lightIds := map (light_of_member E) (as_object v) @ drop (length (as_object v)) (lightIds d),
          allLightCount := of_nat (length (as_object v)),
          allLightsPagination := ((of_nat (length (as_object v)) :: u8) > 4)\<rparr>)
        else Inl OutOfBounds)"
proof -
  define asked where "asked = out d @ [Http GET (api_base d @ ''/lights'') '''']"
  obtain e v where v: "deserializeJson (env_lib E) 14000 (snd (env_http E asked)) = Some (e, v)" "slot_size * slots v \<le> 14000"
    using deserialize_ends by blast
  have doc: "parse_doc E (snd (env_http E asked)) = v" using v(1) by (simp add: parse_doc_def deserialize_def)
  have "members_slots (as_object v) \<le> slots v" by (cases v) (simp_all add: as_object_def)
  then have "(50 + 1) * length (filter (\<lambda>m. 50 \<le> slots (snd m)) (as_object v)) \<le> slots v"
    using members_slots_filter [of 50 "as_object v"] by simp
  moreover have "getLightIds E d =
      (if length (as_object v) \<le> length (lightIds d)
       then Inr (d\<lparr>out := asked,
         lightIds := map (light_of_member E) (as_object v) @ drop (length (as_object v)) (lightIds d),
         allLightCount := of_nat (length (as_object v)),
         allLightsPagination := ((of_nat (length (as_object v)) :: u8) > 4)\<rparr>)
       else Inl OutOfBounds)"
    using doc by (simp add: getLightIds_def getLights_def get_request_pair asked_def store_members_spec Let_def)
  ultimately show ?thesis using v
    by (simp add: Let_def asked_def [symmetric] recorded_lamp_slots slot_size_eq boot_state_def)
qed

text \<open>An empty answer: the parser says so, and the device has no lamps.\<close>

definition speechless :: env where
  "speechless = quiet\<lparr>env_http := (\<lambda>es. (200, ''''))\<rparr>"

theorem lamps_that_fit_witness:
  "deserializeJson (env_lib speechless) 14000 '''' = Some (EmptyInput, JNull) \<and>
   (\<exists>e. getLightIds speechless boot_state = Inr e \<and> allLightCount e = 0 \<and> lightIds e = lightIds boot_state)"
  using lamps_that_fit [of boot_state speechless]
  by (auto simp: speechless_def deserializeJson_empty as_object_def Let_def)

subsection \<open>Examples\<close>

text \<open>A printed text is an answer.\<close>

lemma answered_serialize:
  assumes "env_http E es = (status, serialize (env_lib E) j)" "0 < status" "valid_json j" "float_free j"
  shows "answered E es j"
  unfolding answered_def
  using assms printed_text(1) by (intro exI [of _ status] exI [of _ "''''"] exI [of _ "serialize (env_lib E) j"]) simp

lemmas printed_simps = writeString_def writeChar_def escapeChar_eq writeBoolean_def

text \<open>A world with the database and a bridge that accepts the registration.\<close>

definition paired :: env where
  "paired = quiet\<lparr>env_fb_ready := (\<lambda>es. Some 0), env_fb_now := (\<lambda>es. True),
     env_fb_get := (\<lambda>es. case last es of FbGet path \<Rightarrow> stored path (butlast es) | _ \<Rightarrow> None),
     env_http := (\<lambda>es. (200, ''[{\"success\":{\"username\":\"83b7\",\"clientkey\":\"E3B5\"}}]''))\<rparr>"

text \<open>The same world with a bridge whose button was not pressed.\<close>

definition refusing :: env where
  "refusing = paired\<lparr>env_http := (\<lambda>es. (200, ''[{\"error\":{\"type\":101,\"address\":\"\"}}]''))\<rparr>"

lemma example_databases: "database paired 0" "database refusing 0"
  by (simp_all add: database_def refusing_def paired_def)

theorem registered_once_witness:
  "\<exists>e. getNewIds paired boot_state = Inr e \<and> userId e = ''83b7'' \<and> clientKey e = ''E3B5''"
proof -
  let ?ms = "[(''username'', JString ''83b7''), (''clientkey'', JString ''E3B5'')]"
  have t: "serialize lib (JArray [JObject [(''success'', JObject ?ms)]]) =
      ''[{\"success\":{\"username\":\"83b7\",\"clientkey\":\"E3B5\"}}]''" for lib
    by (simp add: printed_simps)
  have a: "answered paired (out boot_state @ ask_id 0 @ [register_request boot_state])
      (JArray [JObject [(''success'', JObject ?ms)]])"
    by (rule answered_serialize [of _ _ 200]) (simp_all only: paired_def quiet_def env.simps t, simp_all)
  show ?thesis
    using registered_once [OF example_databases(1) _ _ a, of "''83b7''" "''E3B5''"]
    by (simp add: boot_state_def no_id_def fits_def DEFAULT_NESTING_LIMIT_def slot_size_eq)
qed

theorem refused_asks_again_witness:
  "\<exists>e. getNewIds refusing boot_state = Inr e \<and> userId e = ''null'' \<and> clientKey e = ''null''"
proof -
  let ?ms = "[(''error'', JObject [(''type'', JPos 101), (''address'', JString '''')])]"
  let ?j = "JArray [JObject ?ms]"
  have n: "writePositiveInteger 101 = ''101''"
    by code_simp
  have t: "serialize (env_lib refusing) ?j = ''[{\"error\":{\"type\":101,\"address\":\"\"}}]''"
    by (simp add: printed_simps n)
  have "value_text (env_lib refusing) (serialize (env_lib refusing) ?j) ?j" by (rule printed_text(1)) simp_all
  moreover have "fits 200 ?j" by (simp add: fits_def DEFAULT_NESTING_LIMIT_def slot_size_eq)
  ultimately have r: "as_object (member (element (deserialize (env_lib refusing) 200
      ''[{\"error\":{\"type\":101,\"address\":\"\"}}]'') 0) ''success'') = []"
    using refusals(2) [of "env_lib refusing" _ ?j] unfolding t by auto
  show ?thesis
    using refused_asks_again [OF example_databases(2) _ _ _ _ r, of boot_state 200]
    by (simp add: boot_state_def no_id_def refusing_def)
qed

text \<open>An answer with two groups.\<close>

definition kitchen_hall :: "group_facts list" where
  "kitchen_hall =
    [\<lparr>g_number = 1, g_name = ''Kitchen'', g_on = True, g_level = 7, g_lamps = [1, 3]\<rparr>,
     \<lparr>g_number = 2, g_name = ''Hall'', g_on = False, g_level = 8, g_lamps = [2]\<rparr>]"

definition grouped :: env where
  "grouped = quiet\<lparr>env_http := (\<lambda>es. (200,
     ''{\"1\":{\"name\":\"Kitchen\",\"lights\":[\"1\",\"3\"],\"action\":{\"on\":true,\"bri\":7}},'' @
     ''\"2\":{\"name\":\"Hall\",\"lights\":[\"2\"],\"action\":{\"on\":false,\"bri\":8}}}''))\<rparr>"

theorem groups_of_text_witness:
  "\<exists>e. getGroups grouped boot_state = Inr e \<and> roomsCount e = 1 \<and> map rname (take 2 (rooms e)) = [''Kitchen'', ''Hall''] \<and>
     map ron (take 2 (rooms e)) = [1, 0] \<and> take 2 (rlightIds (rooms e ! 0)) = [1, 3]"
proof -
  let ?ms = "[(''1'', JObject [(''name'', JString ''Kitchen''), (''lights'', JArray [JString ''1'', JString ''3'']),
       (''action'', JObject [(''on'', JBool True), (''bri'', JPos 7)])]),
     (''2'', JObject [(''name'', JString ''Hall''), (''lights'', JArray [JString ''2'']),
       (''action'', JObject [(''on'', JBool False), (''bri'', JPos 8)])])]"
  have w: "writePositiveInteger 7 = ''7''" "writePositiveInteger 8 = ''8''" by code_simp+
  have u: "String_uint 1 = ''1''" "String_uint (Suc 0) = ''1''" "String_uint 2 = ''2''" "String_uint 3 = ''3''" by code_simp+
  have t: "serialize lib (JObject ?ms) =
      ''{\"1\":{\"name\":\"Kitchen\",\"lights\":[\"1\",\"3\"],\"action\":{\"on\":true,\"bri\":7}},'' @
      ''\"2\":{\"name\":\"Hall\",\"lights\":[\"2\"],\"action\":{\"on\":false,\"bri\":8}}}''" for lib
    by (simp add: printed_simps w)
  have a: "answered grouped (out boot_state @ [Http GET (api_base boot_state @ ''/groups'') '''']) (JObject ?ms)"
    by (rule answered_serialize [of _ _ 200]) (simp_all only: grouped_def quiet_def env.simps t, simp_all)
  have g: "list_all2 states_group kitchen_hall ?ms" by (simp add: kitchen_hall_def states_group_def u)
  have l: "\<forall>g \<in> set kitchen_hall. length (g_lamps g) \<le> length (rlightIds (junk_room grouped))"
    by (simp add: kitchen_hall_def grouped_def quiet_def no_room_def)
  have n: "length kitchen_hall = 2" by (simp add: kitchen_hall_def)
  obtain rs where rs: "getGroups grouped boot_state = Inr (boot_state\<lparr>
      out := out boot_state @ [Http GET (api_base boot_state @ ''/groups'') ''''],
      rooms := rs @ drop 2 (rooms boot_state), roomsCount := of_nat 2 - 1,
      roomPagination := (of_nat 2 - 1 > (4 :: u8))\<rparr>)" "length rs = 2"
    "\<forall>i < 2. rname (rs ! i) = g_name (kitchen_hall ! i) \<and> ron (rs ! i) = (if g_on (kitchen_hall ! i) then 1 else 0) \<and>
       take (length (g_lamps (kitchen_hall ! i))) (rlightIds (rs ! i)) = map of_nat (g_lamps (kitchen_hall ! i))"
    using groups_of_text [OF a _ _ g l, unfolded n]
    by (auto simp: fits_def DEFAULT_NESTING_LIMIT_def slot_size_eq boot_state_def)
  obtain x y where xy: "rs = [x, y]" using rs(2) by (auto simp: length_Suc_conv numeral_2_eq_2)
  show ?thesis using rs(1) rs(3) [rule_format, of 0] rs(3) [rule_format, of 1] unfolding xy
    by (simp add: kitchen_hall_def numeral_2_eq_2)
qed

end
