(* ===== verification/Spec2Isabelle.thy ===== *)
theory Spec2Isabelle
  imports Http_Bridge Tls_Setup Offscreen Behavior_Run Touch_Input Screen Usage_Log Dials Display_Path Dtls_Timer Timestamps Json_Answers
begin

text \<open>
  T.HUE is a handheld controller for Philips Hue lamps: an ESP32 with a 2.7 inch e-paper panel, a
  touch layer and two dials. This library models the application under \<^verbatim>\<open>src/main\<close> and the parts of
  \<^verbatim>\<open>src/components\<close> whose computations it rests on.

  \<^bold>\<open>How the program works.\<close> \<^verbatim>\<open>app_main\<close> sets up the panel, the dials, the network and the home page, and
  leaves five tasks running. The page that is shown is nothing but the array \<open>buttons\<close>: every drawing
  function paints a figure on the panel and, when it is given a handler, appends a button. A touch
  (\<open>onTouchEvent\<close>) runs the handler of the first button that contains the point; handlers draw
  other pages, send requests to the bridge, or change settings. The dials call handlers of their own.
  A behaviour (training, alarm, party) is started and stopped with buttons; a task then plays its table
  of colours over the encrypted entertainment stream of the bridge. A further task pushes
  records of user actions to a database.

  \<^bold>\<open>Conventions.\<close> A computation that can go wrong has the type \<open>'a res = fault + 'a\<close> of Prelude:
  reading or writing an array out of bounds, a call through a null pointer, an invalid object, a loop
  that never ends, a failed assertion are values, so \<open>f x = Inr y\<close> says that no such thing happens. Faults abort: the model
  says nothing of what the C++ program does after undefined behaviour. The state of the
  application is the record \<open>dev\<close> of Device, one field per global variable; what it sends
  is appended to its field \<open>out\<close>. What comes from outside (answers of the bridge and of the database,
  the clock, results of TLS calls, voltages, pins, random bytes, what is on the stack in a local structure
  without an initialiser) is the record \<open>env\<close>, functions of the events so far, so a theorem for all \<open>E\<close>
  covers every behaviour of the outside; Http_Bridge puts the model of the HTTP client in the place of the answers of the bridge. Fields of \<open>uint8_t\<close>, \<open>uint16_t\<close> and \<open>uint32_t\<close> on which the
  code computes are words; \<open>int\<close> is \<open>int\<close>, which is exact while no signed overflow happens (a signed
  overflow, after two billion presses of one settings button, is not modelled).

  \<^bold>\<open>Theories and sources\<close> (paths under \<^verbatim>\<open>src/\<close>; \<open>GFX\<close> is \<^verbatim>\<open>components/Adafruit-GFX\<close>):

  \<^item> Prelude: faults, sequencing, checked arrays.
  \<^item> Arduino_Core: \<^verbatim>\<open>map\<close> of \<^verbatim>\<open>WMath.cpp\<close>, \<^verbatim>\<open>ltoa\<close> and \<^verbatim>\<open>ultoa\<close> of \<^verbatim>\<open>stdlib_noniso.c\<close>, the conversions of
    \<^verbatim>\<open>WString.cpp\<close>, with \<^verbatim>\<open>strtol\<close>; in \<^verbatim>\<open>components/arduino/cores/esp32\<close>.
  \<^item> Bitmaps, Font_Plex, Font_Classic: the icons of \<^verbatim>\<open>main/bitmaps.h\<close> and the two fonts in use, byte for byte.
  \<^item> Gfx, Gfx_Text, Gfx_Shapes, Offscreen: \<^verbatim>\<open>GFX/Adafruit_GFX.cpp\<close>. Every primitive of that library ends in \<open>drawPixel\<close>, so each is
    the list of pixels it draws, in order; text also moves the cursor (record \<open>gfx\<close>). Gfx_Shapes: triangles, images,
    the button class. Offscreen: the three canvas classes, stores of pixels like the panel (locale \<open>pixel_store\<close>,
    of which \<open>canvas\<close> is a case, interpreted for each of them).
  \<^item> Panel: \<^verbatim>\<open>components/CalEPD/models/gdew027w3T.cpp\<close> and \<^verbatim>\<open>components/CalEPD/epd.cpp\<close>: the frame buffer,
    rotation, and the updates as the list of SPI transfers.
  \<^item> Spi_Io: \<^verbatim>\<open>components/CalEPD/epdspi.cpp\<close>, with \<open>init\<close> and \<open>_waitBusy\<close> of the panel: the transfers on the
    pins and the bus. The trace \<open>io\<close> of Panel is what it is given to send.
  \<^item> Touch: \<^verbatim>\<open>components/FT6X36-IDF/FT6X36.cpp\<close>: registers, positions, the gesture state machine, the interrupt.
  \<^item> Canvas: the locale \<open>canvas\<close> of a pixel store, met by the panel (interpretation \<open>screen\<close>).
  \<^item> Json_Text, Json_Printer, Json_Floats, Json_Values, Json_Pool, Json_Parser: the JSON library of
    \<^verbatim>\<open>components/ArduinoJson/src/ArduinoJson\<close> as the bridge client uses it: characters, escapes and UTF-8; the
    serializer; double-precision numbers; the conversions of values; the memory of a document; the deserializer.
    The configuration is that of the documented build: \<^verbatim>\<open>idf.py build\<close> does not define \<open>ARDUINO\<close>, so \<^verbatim>\<open>Configuration.hpp\<close> gives
    integers of 64 bits, doubles, fifty levels of nesting and slots of 24 bytes.
  \<^item> Rotary: \<^verbatim>\<open>RotaryEncoder.cpp\<close> in \<^verbatim>\<open>components/arduino/libraries\<close>.
  \<^item> Arduino_String: the searching and cutting methods of \<^verbatim>\<open>WString.cpp\<close>. Tls_Client:
    \<^verbatim>\<open>WiFiClientSecure.cpp\<close>, \<^verbatim>\<open>ssl_client.cpp\<close> and the timed reads of \<^verbatim>\<open>Stream.cpp\<close>; Tls_Setup: how such a connection is set up and torn down. Http_Client:
    \<^verbatim>\<open>libraries/HTTPClient/src/HTTPClient.cpp\<close>, with \<^verbatim>\<open>StreamString.cpp\<close> and \<^verbatim>\<open>libb64\<close>; in \<^verbatim>\<open>components/arduino\<close>.
  \<^item> Device: the structures of \<^verbatim>\<open>main/hue.h\<close>, \<^verbatim>\<open>main/eink.h\<close>, \<^verbatim>\<open>main/entertainment.h\<close> and all global
    variables with their initial values.
  \<^item> Utils: \<^verbatim>\<open>main/utils.cpp\<close>, the connection to the network.
  \<^item> Dtls_Timer: the timing functions of \<^verbatim>\<open>main/entertainment.cpp\<close> that the TLS library calls.
  \<^item> Ntp_Date, Ntp: \<^verbatim>\<open>components/arduino/libraries/NTPClient/NTPClient.cpp\<close>, the clock of the usage log, with the calls
    of \<^verbatim>\<open>main/Firebase.cpp\<close>; \<open>env_fb_date\<close> of the environment is the text it makes.
  \<^item> Firebase, Hue, Entertainment: the files of \<^verbatim>\<open>main\<close> with these names, method by method.
  \<^item> Eink, Pages: \<^verbatim>\<open>main/eink.cpp\<close> and \<^verbatim>\<open>main/pages.cpp\<close>, split into the drawing functions and lists
    (Eink) and the pages, settings, navigation and touch (Pages).
  \<^item> Encoder: \<^verbatim>\<open>main/encoder.cpp\<close>; its task is three nested endless loops, modelled as a machine that
    makes one round per step. Tasks: the behaviour task and the table task.
  \<^item> Invariant, Preservation, Reachability: the invariant \<open>wf\<close>, one rule per operation that keeps it,
    and that it holds in every reachable state of the whole firmware.
  \<^item> Json_Safety, Json_Grammar, Json_Reading, Json_Roundtrip, Json_Answers: the deserializer returns on every
    text, the grammar of JSON, that its texts are read, that printed values are, and what the bridge client
    makes of the text of an answer.
  \<^item> Http_Reading, Http_Answers, Http_Exchange, Http_Service, Http_Failures: the layers of one exchange with the
    bridge: reading lines and bodies however they are cut into records, what the head of an answer changes, one
    exchange (\<open>exchange\<close>: the three calls every method of class \<open>Hue\<close> makes), sequences of them, and how
    they fail. Http_Bridge: the client as the environment of the device.
  \<^item> Worlds: example environments for the witnesses. Startup: the start-up and the refresh succeed.
    Touch_Input: from the finger to the handler, with \<open>loopEink\<close>. Screen, Bridge, Usage_Log, Stream_Protocol,
    Lamp_Choice, Dials, Navigation, Behavior_Control, Behavior_Run: the properties of the components.

  \<^bold>\<open>What the lemmas show.\<close> Startup: in a world whose answers fit the arrays, the start-up and every
  refresh end without a fault and show the home page, so reachable states exist. Touch_Input: the
  reported position is the pixel under the finger in every rotation, gestures are well-formed, a press and
  release runs the handler of the button drawn there. Screen: painting refines an update of the set of
  black pixels, icons come out bit for bit, a full update sends the whole picture, a partial update at the
  edge of the screen sends nothing. Gfx_Shapes: a filled triangle is the rows between its edges, an image has the
  pixels its bits say. Offscreen: what a triangle leaves on a canvas in any rotation, when the optimised line is the line of the
  base class, and where it is not. Spi_Io: the controller receives exactly the trace. Display_Path:
  the image it holds before a refresh is the picture that was painted. Dtls_Timer: the promise
  of the timer. Timestamps: a date found by the loops is the date of the calendar, the text says the time, the
  first valid packet of the server within 101 turns of the wait is accepted, and the wait ends without one. Bridge: every command is one request (locale \<open>bridge_command\<close>, interpreted for
  the six commands), what the reading methods store and when they overflow. Stream_Protocol: the
  order of the TLS calls, the layout of the message, the tables. Usage_Log: the rate limit, what is
  pushed and when. Dials: the decoder counts turns; the brightness scale. Navigation and
  Behavior_Control: what a page's buttons are and what touching them does. Lamp_Choice: choosing lamps.
  Behavior_Run: what STOP does, that the party ends after it and the training does not, which messages a training sends, and that one left
  alone ends.
  Json_Safety: for every text the parser returns, with a well-formed document inside its memory (locale
  \<open>variant_reader\<close>, the contract of the parser of one value, interpreted for \<open>parseVariant\<close> at every level).
  Json_Reading: every text of the grammar is read as the value it denotes, deeper ones are refused.
  Json_Roundtrip: what the serializer writes is read back. Json_Answers: the credentials from the answer of
  the bridge to the database and back, the groups of an answer, and how many lamps a document can hold; what an answer without credentials does.
  Http_Service: a sequence of requests over one connection gets the answers the bridge sent, and the exact
  text of every request is sent; chunked answers are put together. Http_Failures: a silent bridge is given
  up in time; a body that is cut off passes for a whole one, one that stalls is waited for without end, a
  late end of the chunks spoils the next exchange, and an announced end of the connection leaves a pointer to
  a deleted object. Tls_Setup: the calls
  of a connection, that certificates come too late, that the handshake
  ends; which names match, and that keys and fingerprints are read. Http_Bridge: switching a lamp on, from the call to the bytes on the connection.
  Several theorems describe defects of the code as it is; the manifest lists them as findings.

  \<^bold>\<open>Loops and bounds.\<close> \<open>arrayShift\<close> of \<open>eink.cpp\<close> gets \<open>2 * n + 1\<close> rounds: each round either moves on or removes
  an element, at most \<open>n\<close> of either unless the value is 0, where the code does not end and the model
  yields the fault \<open>Hang\<close>. The write loop of the stream repeats as long as nothing is written: it
  gets \<open>env_patience\<close> rounds, a parameter of the environment, and \<open>Hang\<close> after them. So does the wait for
  the network, which ends within 61 rounds when the clock keeps time. The wait for the pin BUSY has
  \<open>busy_patience\<close> rounds; 701 are enough. The time client waits for at most 102 turns; emptying the socket and
  asking again have \<open>ntp_patience\<close> rounds. The loops of the JSON parser over elements and members are partial
  functions without fuel, proved to return; its recursion is structural in the number of levels left, fifty at
  the start. The wait for the
  database ends at a time the environment gives, or never. The other side of an encrypted connection is a
  finite script of what each look for data finds and when (\<open>Quiet\<close>, \<open>Record\<close>, \<open>Lost\<close>), with silence behind its
  end; the loops of the HTTP client use it up, so they need no fuel. Where only silence is left a loop with a time limit runs
  into it, and the one without, over a body, yields \<open>Hang\<close>. All other loops are bounded by the code.
  \<open>Delay\<close> counts milliseconds and \<open>Ticks\<close> counts FreeRTOS ticks of ten milliseconds, as \<^verbatim>\<open>sdkconfig\<close> sets
  them.

  \<^bold>\<open>Not modelled.\<close> Of the HTTP client: plain connections (the fault \<open>Unmodelled\<close>), \<open>begin\<close> with a connection,
  a host or certificates, sending from a stream, which the application does not use; what the TLS library does inside a call. mDNS, mbedtls, the Firebase library, FreeRTOS, the WiFi,
  SPI, I2C and GPIO drivers (parameters, or outside the model); parts of the sources that nothing calls (\<open>storeStruct\<close>,
  \<open>loadStruct\<close>, \<open>writeString\<close>, \<open>read_String\<close>, \<open>WiFiEvent\<close>, \<open>getRPM\<close>, \<open>debugInfo\<close>, filters, comments and MessagePack of ArduinoJson); other displays;
  running out of heap for a JSON document, and fused floating-point operations;
  log output. The trace of the panel and the pins are modelled apart: the
  application's state holds the trace, and Spi_Io sends it. The tasks are interleaved
  at the granularity of one round of each; within a round the model is sequential, so races inside one
  round between two tasks on the same variables are outside it. Reachable states start after
  \<open>setup_device\<close>, which runs before the tasks do in the model (in the code they start during it).
\<close>

section \<open>The whole firmware\<close>

text \<open>
  C1: in every state that the firmware can reach, by any touches, turns of the dials and steps of its
  tasks in any order, and whatever the outside world answers: the frame buffer and all arrays have their
  sizes, the counters of buttons and of visited pages are inside their arrays, the settings of the
  behaviours are in range, and once the TLS context exists the message buffer is exactly as long as its
  number of lamps asks for.
\<close>

theorem firmware_invariant:
  assumes "env_ok E" "reachable E s" "d = dev_of s"
  shows "length (buffer (display d)) = 5808 \<and> length (buttons d) = 30 \<and> 0 \<le> buttonCount d \<and> buttonCount d \<le> 30 \<and>
    length (pagePath d) = 10 \<and> 0 \<le> pagePageCounter d \<and> pagePageCounter d \<le> 10 \<and>
    length (rooms d) = 50 \<and> length (lights d) = 50 \<and> length (lightIds d) = 50 \<and>
    length (entertainmentLights d) = 20 \<and> length (behaviors d) = 20 \<and>
    (\<forall>h \<in> set (behaviors d). length (blightIds h) = 20 \<and> length (entries h) = 500) \<and>
    1 \<le> festDelay d \<and> 0 \<le> alarmDelay d \<and> 1000 \<le> blinkingLightsDelay d \<and> 10 \<le> alarmEntries d \<and>
    10 \<le> blinkingLightsEntries d \<and>
    (tls d \<noteq> NoContext \<longrightarrow> length (entertainment_msg d) = 16 + 9 * unat (entertainment_num_lights d))"
proof -
  have w: "wf d" using reachable_wf [OF assms(1,2)] assms(3) by simp
  have "length (buffer (display d)) = 5808"
    using wf_sizes(1) [OF w] by (simp add: panel_ready_def panel_ok_def panel_consts)
  with w show ?thesis by (simp add: wf_defs wf_behavior_def message_size_eq)
qed

theorem firmware_invariant_witness:
  "\<exists>s. reachable calm s \<and> buttonCount (dev_of s) \<le> 30 \<and> pagePageCounter (dev_of s) \<le> 10"
proof -
  obtain s where s: "reachable calm s" using calm_start by blast
  then show ?thesis using firmware_invariant [OF calm_ok(1) s refl] by blast
qed

text \<open>
  C35: from every reachable state in which the interface has a level, the home button of the header
  succeeds and shows the home page with its buttons; the path of pages is then the home page alone (or
  empty, when a way back was pending).
\<close>

theorem home_always_works:
  assumes "env_ok E" "reachable E s" "1 \<le> uiLevel (dev_of s)"
  shows "\<exists>e. invoke E EDrawHomeFromHomeButton i k (dev_of s) = Inr e \<and> shows_home e \<and> wf e \<and>
    pagePageCounter e = (if isGoingBack (dev_of s) then 0 else 1)"
proof -
  let ?d = "(dev_of s)\<lparr>pagePageCounter := 0\<rparr>"
  have "wf ?d" using reachable_wf [OF assms(1,2)] by (simp add: wf_defs)
  from drawHome_effect [OF this, of E] assms(3) obtain e where
    "drawHome E ?d = Inr e" "shows_home e" "wf e" "pagePageCounter e = (if isGoingBack (dev_of s) then 0 else 1)"
    by (auto simp: yields_def)
  then show ?thesis by (simp add: invoke_def drawHomeFromHomeButton_def seqr_single)
qed

theorem home_always_works_witness:
  "\<exists>s e. reachable calm s \<and> invoke calm EDrawHomeFromHomeButton 0 0 (dev_of s) = Inr e \<and> shows_home e"
proof -
  obtain d where "reachable calm (started d)" "1 \<le> uiLevel (dev_of (started d))"
    using calm_start by (auto simp: started_def)
  from home_always_works [OF calm_ok(1) this, of 0 0] this(1) show ?thesis by blast
qed

text \<open>
  The back button, pressed on a page that was opened from the home page, shows the home page and
  takes exactly the left page off the path.
\<close>

lemma back_to_home:
  assumes "wf d" "2 \<le> pagePageCounter d" "pagePath d ! nat (pagePageCounter d - 2) = drawHomeID"
    and "1 \<le> uiLevel d"
  shows "\<exists>e. goBack E d = Inr e \<and> shows_home e \<and> wf e \<and> pagePageCounter e = pagePageCounter d - 1 \<and>
    \<not> isGoingBack e"
proof -
  let ?d = "d\<lparr>pagePageCounter := pagePageCounter d - 1, isGoingBack := True\<rparr>"
  have "wf ?d" using assms(1,2) by (simp add: wf_defs)
  from drawHome_effect [OF this, of E] assms(4) obtain e where
    e: "drawHome E ?d = Inr e" "shows_home e" "wf e" "pagePageCounter e = pagePageCounter d - 1" "\<not> isGoingBack e"
    by (auto simp: yields_def)
  have "rd (pagePath d) (pagePageCounter d - 2) = Inr drawHomeID"
    using assms(1-3) by (simp add: rd_in wf_defs)
  with e show ?thesis by (auto simp: goBack_def drawHomeID_def)
qed

end
